(* ===== verification/Prelude.thy ===== *)
theory Prelude
  imports Main "HOL-Library.Word"
begin

text \<open>
  Shared ground of the development: the Go notions that the components use and the
  generic lemmas and fact collections their proofs rest on.

  \<^item> Time and durations: a \<open>time.Time\<close> is an \<open>int\<close> (nanoseconds since the Unix
    epoch), a \<open>time.Duration\<close> an \<open>int\<close> of nanoseconds; where the source multiplies
    durations the two's complement wrap-around of \<open>int64\<close> is written out
    (\<open>int64_wrap\<close>).
  \<^item> Integer division truncates towards zero (\<open>go_div\<close>, \<open>go_mod\<close>).
  \<^item> Strings are lists of bytes. \<open>trim_space\<close> is \<open>strings.TrimSpace\<close> with the UTF-8
    encodings of the Unicode white-space runes written out; \<open>to_lower\<close>, \<open>to_upper\<close> and
    \<open>equal_fold\<close> map the ASCII letters and keep every other byte.
  \<^item> A Go map is a partial function with a finite domain. A \<open>range\<close> loop visits the keys
    in an unspecified order, so the operations that range over a map take the visiting
    order as an argument and the lemmas hold for every order that \<open>enumerates\<close> the map.
\<close>

named_theorems go_defs "definitions of Go primitives, unfolded to evaluate closed terms"
named_theorems cfg_defs "definitions of configuration constants"

subsection \<open>Results\<close>

type_synonym 'a result = "string + 'a"

definition is_ok :: "'e + 'a \<Rightarrow> bool" where
  "is_ok r = (case r of Inl _ \<Rightarrow> False | Inr _ \<Rightarrow> True)"

lemma is_ok_simps [simp]: "\<not> is_ok (Inl e)" "is_ok (Inr x)"
  by (simp_all add: is_ok_def)

lemma is_ok_iff: "is_ok r \<longleftrightarrow> (\<exists>x. r = Inr x)"
  by (cases r) auto

subsection \<open>Integers\<close>

definition int64_wrap :: "int \<Rightarrow> int" where
  "int64_wrap x = (x + 2 ^ 63) mod 2 ^ 64 - 2 ^ 63"

definition go_div :: "int \<Rightarrow> int \<Rightarrow> int" where
  "go_div a b = sgn a * sgn b * (\<bar>a\<bar> div \<bar>b\<bar>)"

definition go_mod :: "int \<Rightarrow> int \<Rightarrow> int" where
  "go_mod a b = a - b * go_div a b"

lemma int64_wrap_id: "- (2 ^ 63) \<le> x \<Longrightarrow> x < 2 ^ 63 \<Longrightarrow> int64_wrap x = x"
  by (simp add: int64_wrap_def)

lemma int64_wrap_bounds: "- (2 ^ 63) \<le> int64_wrap x \<and> int64_wrap x < 2 ^ 63"
proof -
  have "0 \<le> (x + 2 ^ 63) mod 2 ^ 64" "(x + 2 ^ 63) mod 2 ^ 64 < (2 :: int) ^ 64"
    by simp_all
  then show ?thesis by (simp add: int64_wrap_def)
qed

lemma go_div_nonneg: "0 \<le> a \<Longrightarrow> 0 < b \<Longrightarrow> go_div a b = a div b"
  by (cases "a = 0") (simp_all add: go_div_def)

lemma go_mod_nonneg: "0 \<le> a \<Longrightarrow> 0 < b \<Longrightarrow> go_mod a b = a mod b"
  by (simp add: go_mod_def go_div_nonneg minus_mult_div_eq_mod)

subsection \<open>Durations, in nanoseconds\<close>

definition millisecond :: int where "millisecond = 1000000"
definition second :: int where "second = 1000 * millisecond"
definition minute :: int where "minute = 60 * second"
definition hour :: int where "hour = 60 * minute"

lemmas duration_defs = hour_def minute_def second_def millisecond_def
declare duration_defs [go_defs]

definition unix_milli :: "int \<Rightarrow> int" where "unix_milli t = t div millisecond"
definition unix_sec :: "int \<Rightarrow> int" where "unix_sec t = t div second"

lemmas unix_defs = unix_milli_def unix_sec_def
declare unix_defs [go_defs]

subsection \<open>Strings\<close>

definition space_runes :: "string list" where
  "space_runes =
    [[CHR 0x09], [CHR 0x0A], [CHR 0x0B], [CHR 0x0C], [CHR 0x0D], [CHR 0x20],
     [CHR 0xC2, CHR 0x85], [CHR 0xC2, CHR 0xA0], [CHR 0xE1, CHR 0x9A, CHR 0x80],
     [CHR 0xE2, CHR 0x80, CHR 0x80], [CHR 0xE2, CHR 0x80, CHR 0x81],
     [CHR 0xE2, CHR 0x80, CHR 0x82], [CHR 0xE2, CHR 0x80, CHR 0x83],
     [CHR 0xE2, CHR 0x80, CHR 0x84], [CHR 0xE2, CHR 0x80, CHR 0x85],
     [CHR 0xE2, CHR 0x80, CHR 0x86], [CHR 0xE2, CHR 0x80, CHR 0x87],
     [CHR 0xE2, CHR 0x80, CHR 0x88], [CHR 0xE2, CHR 0x80, CHR 0x89],
     [CHR 0xE2, CHR 0x80, CHR 0x8A], [CHR 0xE2, CHR 0x80, CHR 0xA8],
     [CHR 0xE2, CHR 0x80, CHR 0xA9], [CHR 0xE2, CHR 0x80, CHR 0xAF],
     [CHR 0xE2, CHR 0x81, CHR 0x9F], [CHR 0xE3, CHR 0x80, CHR 0x80]]"

definition starts_with :: "'a list \<Rightarrow> 'a list \<Rightarrow> bool" where
  "starts_with p s \<longleftrightarrow> take (length p) s = p"

lemma starts_with_Nil [simp]: "starts_with [] s"
  by (simp add: starts_with_def)

lemma starts_with_Cons [simp]:
  "starts_with (a # p) [] = False"
  "starts_with (a # p) (b # s) = (a = b \<and> starts_with p s)"
  by (auto simp: starts_with_def)

lemma starts_with_append [simp]: "starts_with p (p @ s)"
  by (simp add: starts_with_def)

lemma starts_with_ex: "starts_with p s \<longleftrightarrow> (\<exists>t. s = p @ t)"
  by (metis append_take_drop_id starts_with_append starts_with_def)

text \<open>Drop leading runes of the given list of encodings, as long as one matches.\<close>

function drop_runes :: "string list \<Rightarrow> string \<Rightarrow> string" where
  "drop_runes ps s =
     (case find (\<lambda>p. p \<noteq> [] \<and> starts_with p s) ps of
        None \<Rightarrow> s
      | Some p \<Rightarrow> drop_runes ps (drop (length p) s))"
  by pat_completeness auto
termination
proof (relation "measure (\<lambda>(ps, s). length s)")
  fix ps s p
  assume "find (\<lambda>p. p \<noteq> [] \<and> starts_with p s) ps = Some p"
  then have "p \<noteq> []" and "starts_with p s"
    by (auto simp: find_Some_iff)
  then show "((ps, drop (length p) s), ps, s) \<in> measure (\<lambda>(ps, s). length s)"
    by (auto simp: starts_with_ex)
qed simp

declare drop_runes.simps [simp del]

definition trim_space :: "string \<Rightarrow> string" where
  "trim_space s = rev (drop_runes (map rev space_runes) (rev (drop_runes space_runes s)))"

definition blank :: "string \<Rightarrow> bool" where
  "blank s \<longleftrightarrow> trim_space s = []"

text \<open>ASCII case mapping; bytes of multi-byte runes are kept.\<close>

definition to_lower_char :: "char \<Rightarrow> char" where
  "to_lower_char c =
     (let n = of_char c :: nat in if 65 \<le> n \<and> n \<le> 90 then char_of (n + 32) else c)"

definition to_upper_char :: "char \<Rightarrow> char" where
  "to_upper_char c =
     (let n = of_char c :: nat in if 97 \<le> n \<and> n \<le> 122 then char_of (n - 32) else c)"

definition to_lower :: "string \<Rightarrow> string" where "to_lower = map to_lower_char"
definition to_upper :: "string \<Rightarrow> string" where "to_upper = map to_upper_char"

definition equal_fold :: "string \<Rightarrow> string \<Rightarrow> bool" where
  "equal_fold a b \<longleftrightarrow> to_lower a = to_lower b"

lemmas case_defs = to_lower_def to_upper_def to_lower_char_def to_upper_char_def Let_def

lemma drop_runes_Nil [simp]: "drop_runes ps [] = []"
proof -
  have "find (\<lambda>p. p \<noteq> [] \<and> starts_with p []) ps = None"
    by (auto simp: find_None_iff starts_with_def)
  then show ?thesis by (simp add: drop_runes.simps)
qed

lemma trim_space_Nil [simp]: "trim_space [] = []"
  by (simp add: trim_space_def)

lemma blank_Nil [simp]: "blank []"
  by (simp add: blank_def)

lemma not_blank_not_Nil: "\<not> blank s \<Longrightarrow> s \<noteq> []"
  by auto

text \<open>A string whose ends are ASCII graphic characters is its own trimmed form.\<close>

definition graphic :: "char \<Rightarrow> bool" where
  "graphic c \<longleftrightarrow> (let n = of_char c :: nat in 33 \<le> n \<and> n \<le> 126)"

lemma drop_runes_stop:
  assumes "\<forall>p \<in> set ps. p \<noteq> [] \<longrightarrow> hd p \<noteq> c"
  shows "drop_runes ps (c # s) = c # s"
proof -
  have "find (\<lambda>p. p \<noteq> [] \<and> starts_with p (c # s)) ps = None"
    using assms by (auto simp: find_None_iff neq_Nil_conv)
  then show ?thesis by (simp add: drop_runes.simps)
qed

lemma graphic_not_space_head:
  assumes "graphic c"
  shows "\<forall>p \<in> set space_runes. p \<noteq> [] \<longrightarrow> hd p \<noteq> c"
    and "\<forall>p \<in> set (map rev space_runes). p \<noteq> [] \<longrightarrow> hd p \<noteq> c"
  using assms by (auto simp: graphic_def space_runes_def)

lemma trim_space_graphic:
  assumes "graphic c" and "graphic (last (c # s))"
  shows "trim_space (c # s) = c # s"
proof -
  obtain d t where dt: "rev (c # s) = d # t" by (cases "rev (c # s)") auto
  then have "d = last (c # s)" by (metis hd_rev list.sel(1))
  with assms have "graphic d" by simp
  have l: "drop_runes space_runes (c # s) = c # s"
    by (rule drop_runes_stop [OF graphic_not_space_head(1) [OF assms(1)]])
  have r: "drop_runes (map rev space_runes) (d # t) = d # t"
    by (rule drop_runes_stop [OF graphic_not_space_head(2) [OF \<open>graphic d\<close>]])
  show ?thesis
    unfolding trim_space_def l dt r using dt by (metis rev_rev_ident)
qed

lemma not_blank_graphic: "graphic c \<Longrightarrow> graphic (last (c # s)) \<Longrightarrow> \<not> blank (c # s)"
  by (simp add: blank_def trim_space_graphic)

lemma equal_fold_refl [simp]: "equal_fold s s"
  by (simp add: equal_fold_def)

lemma equal_fold_sym: "equal_fold a b = equal_fold b a"
  by (auto simp: equal_fold_def)

lemma equal_fold_trans: "equal_fold a b \<Longrightarrow> equal_fold b c \<Longrightarrow> equal_fold a c"
  by (simp add: equal_fold_def)

subsection \<open>Decimal numbers\<close>

fun show_nat :: "nat \<Rightarrow> string" where
  "show_nat n = (if n < 10 then [char_of (48 + n)] else show_nat (n div 10) @ [char_of (48 + n mod 10)])"

declare show_nat.simps [simp del]

definition show_int :: "int \<Rightarrow> string" where
  "show_int i = (if i < 0 then CHR ''-'' # show_nat (nat (- i)) else show_nat (nat i))"

definition digit_val :: "char \<Rightarrow> nat" where
  "digit_val c = of_char c - 48"

definition is_digit :: "char \<Rightarrow> bool" where
  "is_digit c \<longleftrightarrow> 48 \<le> (of_char c :: nat) \<and> (of_char c :: nat) \<le> 57"

definition read_nat :: "string \<Rightarrow> nat" where
  "read_nat s = foldl (\<lambda>n c. 10 * n + digit_val c) 0 s"

lemma digit_char [simp]:
  "d < 10 \<Longrightarrow> digit_val (char_of (48 + d)) = d"
  "d < 10 \<Longrightarrow> is_digit (char_of (48 + d))"
  by (simp_all add: digit_val_def is_digit_def)

lemma read_show_nat [simp]: "read_nat (show_nat n) = n"
proof (induction n rule: show_nat.induct)
  case (1 n)
  then show ?case
    by (subst show_nat.simps) (simp add: read_nat_def)
qed

lemma show_nat_digits: "\<forall>c \<in> set (show_nat n). is_digit c"
proof (induction n rule: show_nat.induct)
  case (1 n)
  then show ?case
    by (subst show_nat.simps) (auto simp: Ball_def)
qed

lemma show_nat_inject [simp]: "show_nat m = show_nat n \<longleftrightarrow> m = n"
  by (metis read_show_nat)

lemma show_nat_not_Nil [simp]: "show_nat n \<noteq> []"
  by (subst show_nat.simps) simp

subsection \<open>Maps and the order of range loops\<close>

definition enumerates :: "'k list \<Rightarrow> ('k \<rightharpoonup> 'v) \<Rightarrow> bool" where
  "enumerates ks m \<longleftrightarrow> distinct ks \<and> set ks = dom m"

lemma enumerates_finite: "enumerates ks m \<Longrightarrow> finite (dom m)"
  by (metis enumerates_def finite_set)

lemma enumerates_length: "enumerates ks m \<Longrightarrow> length ks = card (dom m)"
  by (metis distinct_card enumerates_def)

lemma enumerates_empty [simp]: "enumerates [] Map.empty"
  by (simp add: enumerates_def)

lemma finite_enumerates: "finite (dom m) \<Longrightarrow> \<exists>ks. enumerates ks m"
  by (metis enumerates_def finite_distinct_list)

text \<open>A \<open>range\<close> loop that deletes the visited keys on which \<open>P\<close> holds.\<close>

definition delete_if :: "('v \<Rightarrow> bool) \<Rightarrow> 'k list \<Rightarrow> ('k \<rightharpoonup> 'v) \<Rightarrow> ('k \<rightharpoonup> 'v)" where
  "delete_if P ks m =
     fold (\<lambda>k m'. case m' k of Some v \<Rightarrow> if P v then m'(k := None) else m' | None \<Rightarrow> m') ks m"

lemma delete_if_lookup:
  "delete_if P ks m k =
     (case m k of Some v \<Rightarrow> if P v \<and> k \<in> set ks then None else Some v | None \<Rightarrow> None)"
  unfolding delete_if_def
  by (induction ks arbitrary: m) (auto split: option.splits)

lemma delete_if_enum:
  assumes "enumerates ks m"
  shows "delete_if P ks m k =
    (case m k of Some v \<Rightarrow> if P v then None else Some v | None \<Rightarrow> None)"
  using assms by (auto simp: delete_if_lookup enumerates_def dom_def split: option.splits)

lemma delete_if_dom: "dom (delete_if P ks m) \<subseteq> dom m"
  by (auto simp: delete_if_lookup dom_def split: option.splits if_splits)

text \<open>A \<open>range\<close> loop that collects the values.\<close>

lemma set_map_filter_enum: "enumerates ks m \<Longrightarrow> set (List.map_filter m ks) = ran m"
  by (force simp: List.map_filter_def enumerates_def ran_def dom_def image_iff)

text \<open>The digits of \<open>encoding/hex\<close>.\<close>

definition hex_digit :: "nat \<Rightarrow> char" where
  "hex_digit n = (if n < 10 then char_of (48 + n) else char_of (87 + n))"

end
