(* ===== verification/Json.thy ===== *)
theory Json
  imports Prelude
begin

text \<open>
  The part of \<open>encoding/json\<close> that the audit log and the signer use: \<open>json.Marshal\<close> of a
  flat struct. An object is the list of its fields in declaration order, a field already
  dropped when its \<open>omitempty\<close> value is zero. Strings are escaped as Go does with HTML
  escaping on: ASCII controls, quotes, backslash and \<open><>&\<close> are escaped, an invalid UTF-8
  byte becomes \<open>\ufffd\<close>, U+2028 and U+2029 are escaped, every other rune is copied. The
  main lemma is that the encoding is injective on objects whose strings are valid UTF-8.
\<close>

datatype jval = JNum int | JStr string | JBool bool | JNull

subsection \<open>UTF-8\<close>

definition cont_byte :: "nat \<Rightarrow> nat \<Rightarrow> char \<Rightarrow> bool" where
  "cont_byte lo hi c \<longleftrightarrow> lo \<le> of_char c \<and> of_char c \<le> hi"

text \<open>Length of the valid multi-byte rune at the head of the string, 0 if there is none.\<close>

definition rune_len :: "string \<Rightarrow> nat" where
  "rune_len s =
     (case s of
        [] \<Rightarrow> 0
      | c # cs \<Rightarrow>
          (let b = of_char c :: nat in
           if 0xC2 \<le> b \<and> b \<le> 0xDF then
             (case cs of x # _ \<Rightarrow> if cont_byte 0x80 0xBF x then 2 else 0 | _ \<Rightarrow> 0)
           else if 0xE0 \<le> b \<and> b \<le> 0xEF then
             (case cs of
                x # y # _ \<Rightarrow>
                  if cont_byte (if b = 0xE0 then 0xA0 else 0x80) (if b = 0xED then 0x9F else 0xBF) x
                     \<and> cont_byte 0x80 0xBF y
                  then 3 else 0
              | _ \<Rightarrow> 0)
           else if 0xF0 \<le> b \<and> b \<le> 0xF4 then
             (case cs of
                x # y # z # _ \<Rightarrow>
                  if cont_byte (if b = 0xF0 then 0x90 else 0x80) (if b = 0xF4 then 0x8F else 0xBF) x
                     \<and> cont_byte 0x80 0xBF y \<and> cont_byte 0x80 0xBF z
                  then 4 else 0
              | _ \<Rightarrow> 0)
           else 0))"

definition is_ascii :: "char \<Rightarrow> bool" where
  "is_ascii c \<longleftrightarrow> (of_char c :: nat) < 128"

function utf8_valid :: "string \<Rightarrow> bool" where
  "utf8_valid [] = True"
| "utf8_valid (c # cs) =
     (if is_ascii c then utf8_valid cs
      else rune_len (c # cs) \<noteq> 0 \<and> utf8_valid (drop (rune_len (c # cs) - 1) cs))"
  by pat_completeness auto
termination
  by (relation "measure length") auto

subsection \<open>Strings\<close>

definition esc_ascii :: "char \<Rightarrow> string" where
  "esc_ascii c =
     (if c = CHR 0x5C \<or> c = CHR 0x22 then [CHR 0x5C, c]
      else if c = CHR 0x08 then [CHR 0x5C, CHR ''b'']
      else if c = CHR 0x0C then [CHR 0x5C, CHR ''f'']
      else if c = CHR 0x0A then [CHR 0x5C, CHR ''n'']
      else if c = CHR 0x0D then [CHR 0x5C, CHR ''r'']
      else if c = CHR 0x09 then [CHR 0x5C, CHR ''t'']
      else if (of_char c :: nat) < 0x20 \<or> c = CHR ''<'' \<or> c = CHR ''>'' \<or> c = CHR ''&'' then
        [CHR 0x5C, CHR ''u'', CHR ''0'', CHR ''0'', hex_digit (of_char c div 16), hex_digit (of_char c mod 16)]
      else [c])"

function esc :: "string \<Rightarrow> string" where
  "esc [] = []"
| "esc (c # cs) =
     (if is_ascii c then esc_ascii c @ esc cs
      else if rune_len (c # cs) = 0 then CHR 0x5C # ''ufffd'' @ esc cs
      else if starts_with [CHR 0xE2, CHR 0x80, CHR 0xA8] (c # cs) then CHR 0x5C # ''u2028'' @ esc (drop 2 cs)
      else if starts_with [CHR 0xE2, CHR 0x80, CHR 0xA9] (c # cs) then CHR 0x5C # ''u2029'' @ esc (drop 2 cs)
      else c # take (rune_len (c # cs) - 1) cs @ esc (drop (rune_len (c # cs) - 1) cs))"
  by pat_completeness auto
termination
  by (relation "measure length") auto

definition jstr :: "string \<Rightarrow> string" where
  "jstr s = CHR 0x22 # esc s @ [CHR 0x22]"

fun jval_enc :: "jval \<Rightarrow> string" where
  "jval_enc (JNum i) = show_int i"
| "jval_enc (JStr s) = jstr s"
| "jval_enc (JBool b) = (if b then ''true'' else ''false'')"
| "jval_enc JNull = ''null''"

definition jfield :: "string \<times> jval \<Rightarrow> string" where
  "jfield f = jstr (fst f) @ CHR '':'' # jval_enc (snd f)"

text \<open>The fields after the opening brace, up to and with the closing brace.\<close>

fun jfields :: "(string \<times> jval) list \<Rightarrow> string" where
  "jfields [] = ''}''"
| "jfields [f] = jfield f @ ''}''"
| "jfields (f # g # fs) = jfield f @ CHR '','' # jfields (g # fs)"

definition json_obj :: "(string \<times> jval) list \<Rightarrow> string" where
  "json_obj fs = CHR ''{'' # jfields fs"

subsection \<open>A decoder for escaped strings\<close>

definition hex_val :: "char \<Rightarrow> nat" where
  "hex_val c = (if is_digit c then digit_val c else of_char c - 87)"

definition unesc_u :: "char \<Rightarrow> char \<Rightarrow> char \<Rightarrow> char \<Rightarrow> string" where
  "unesc_u a b c d =
     (if a = CHR ''2'' then [CHR 0xE2, CHR 0x80, if d = CHR ''8'' then CHR 0xA8 else CHR 0xA9]
      else [char_of (hex_val c * 16 + hex_val d)])"

definition unesc_c :: "char \<Rightarrow> char" where
  "unesc_c c =
     (if c = CHR ''b'' then CHR 0x08 else if c = CHR ''f'' then CHR 0x0C
      else if c = CHR ''n'' then CHR 0x0A else if c = CHR ''r'' then CHR 0x0D
      else if c = CHR ''t'' then CHR 0x09 else c)"

text \<open>Read up to the first unescaped quote; the result is the string and what follows.\<close>

fun unesc :: "string \<Rightarrow> string \<Rightarrow> (string \<times> string) option" where
  "unesc acc [] = None"
| "unesc acc (c # cs) =
     (if c = CHR 0x22 then Some (rev acc, cs)
      else if c = CHR 0x5C then
        (case cs of
           [] \<Rightarrow> None
         | d # ds \<Rightarrow>
             if d = CHR ''u'' then
               (case ds of
                  w # x # y # z # r \<Rightarrow> unesc (rev (unesc_u w x y z) @ acc) r
                | _ \<Rightarrow> None)
             else unesc (unesc_c d # acc) ds)
      else unesc (c # acc) cs)"

lemma hex_val_digit [simp]: "n < 16 \<Longrightarrow> hex_val (hex_digit n) = n"
  by (auto simp: hex_val_def hex_digit_def is_digit_def digit_val_def)

lemma unesc_esc_ascii:
  assumes "is_ascii c"
  shows "unesc acc (esc_ascii c @ r) = unesc (c # acc) r"
proof -
  have "(of_char c :: nat) div 16 < 16" "(of_char c :: nat) div 16 * 16 + of_char c mod 16 = of_char c"
    using assms by (auto simp: is_ascii_def)
  then have "unesc_u (CHR ''0'') (CHR ''0'') (hex_digit (of_char c div 16)) (hex_digit (of_char c mod 16)) = [c]"
    by (simp add: unesc_u_def)
  then show ?thesis by (auto simp: esc_ascii_def unesc_c_def)
qed

lemma unesc_high:
  assumes "\<forall>c \<in> set xs. \<not> is_ascii c"
  shows "unesc acc (xs @ r) = unesc (rev xs @ acc) r"
  using assms
proof (induction xs arbitrary: acc)
  case (Cons x xs)
  then have "x \<noteq> CHR 0x22" "x \<noteq> CHR 0x5C" by (auto simp: is_ascii_def)
  with Cons show ?case by simp
qed simp

lemma cont_byte_high: "cont_byte lo hi c \<Longrightarrow> 128 \<le> lo \<Longrightarrow> \<not> is_ascii c"
  by (simp add: cont_byte_def is_ascii_def)

text \<open>The rune at the head of a string, byte by byte.\<close>

lemma rune_len_cases:
  assumes "rune_len (c # cs) \<noteq> 0"
  obtains (two) x r where "cs = x # r" "rune_len (c # cs) = 2" "\<not> is_ascii c" "\<not> is_ascii x"
    | (three) x y r where "cs = x # y # r" "rune_len (c # cs) = 3" "\<not> is_ascii c" "\<not> is_ascii x"
        "\<not> is_ascii y"
    | (four) x y z r where "cs = x # y # z # r" "rune_len (c # cs) = 4" "\<not> is_ascii c" "\<not> is_ascii x"
        "\<not> is_ascii y" "\<not> is_ascii z"
proof -
  define b :: nat where "b = of_char c"
  have hi: "\<not> is_ascii c" if "0xC2 \<le> b" using that by (simp add: b_def is_ascii_def)
  note d = rune_len_def Let_def b_def [symmetric] list.case
  have lead: "(0xC2 \<le> b \<and> b \<le> 0xDF) \<or> (0xE0 \<le> b \<and> b \<le> 0xEF) \<or> (0xF0 \<le> b \<and> b \<le> 0xF4)"
    using assms unfolding d by (metis (no_types))
  then have nc: "\<not> is_ascii c" using hi by linarith
  from lead show ?thesis
  proof (elim disjE)
    assume 2: "0xC2 \<le> b \<and> b \<le> 0xDF"
    with assms obtain x r where "cs = x # r" "cont_byte 0x80 0xBF x"
      unfolding d by (auto split: list.splits if_splits)
    with 2 show ?thesis
      by (intro two [of x r]) (auto simp: d nc dest: cont_byte_high)
  next
    assume 3: "0xE0 \<le> b \<and> b \<le> 0xEF"
    then have n2: "\<not> (0xC2 \<le> b \<and> b \<le> 0xDF)" by simp
    with 3 assms obtain x y r lo hi' where "cs = x # y # r" "cont_byte lo hi' x" "128 \<le> lo" "cont_byte 0x80 0xBF y"
      unfolding d by (auto split: list.splits if_splits)
    with 3 n2 assms show ?thesis
      by (intro three [of x y r]) (auto simp: d nc dest: cont_byte_high split: if_splits)
  next
    assume 4: "0xF0 \<le> b \<and> b \<le> 0xF4"
    then have n2: "\<not> (0xC2 \<le> b \<and> b \<le> 0xDF)" "\<not> (0xE0 \<le> b \<and> b \<le> 0xEF)" by simp_all
    with 4 assms obtain x y z r lo hi' where
      "cs = x # y # z # r" "cont_byte lo hi' x" "128 \<le> lo" "cont_byte 0x80 0xBF y" "cont_byte 0x80 0xBF z"
      unfolding d by (auto split: list.splits if_splits)
    with 4 n2 assms show ?thesis
      by (intro four [of x y z r]) (auto simp: d nc dest: cont_byte_high split: if_splits)
  qed
qed

lemma rune_len_high:
  assumes "rune_len (c # cs) \<noteq> 0"
  shows "\<forall>x \<in> set (c # take (rune_len (c # cs) - 1) cs). \<not> is_ascii x"
  using assms by (cases rule: rune_len_cases) (simp_all add: numeral_eq_Suc)

lemma rune_len_sep: "rune_len (CHR 0xE2 # CHR 0x80 # CHR 0xA8 # r) = 3" "rune_len (CHR 0xE2 # CHR 0x80 # CHR 0xA9 # r) = 3"
  by (simp_all add: rune_len_def cont_byte_def)

lemma unesc_sep:
  "unesc acc (CHR 0x5C # CHR ''u'' # CHR ''2'' # CHR ''0'' # CHR ''2'' # CHR ''8'' # r) = unesc (CHR 0xA8 # CHR 0x80 # CHR 0xE2 # acc) r"
  "unesc acc (CHR 0x5C # CHR ''u'' # CHR ''2'' # CHR ''0'' # CHR ''2'' # CHR ''9'' # r) = unesc (CHR 0xA9 # CHR 0x80 # CHR 0xE2 # acc) r"
  by (simp_all add: unesc_u_def)

lemma unesc_esc: "utf8_valid s \<Longrightarrow> unesc acc (esc s @ CHR 0x22 # r) = Some (rev acc @ s, r)"
proof (induction s arbitrary: acc rule: utf8_valid.induct)
  case (2 c cs)
  let ?n = "rune_len (c # cs)"
  show ?case
  proof (cases "is_ascii c")
    case True
    with 2 show ?thesis by (simp add: unesc_esc_ascii)
  next
    case False
    with "2.prems" have n: "?n \<noteq> 0" "utf8_valid (drop (?n - 1) cs)" by auto
    note IH = "2.IH"(2) [OF False n(2)]
    consider (a8) ds where "c # cs = CHR 0xE2 # CHR 0x80 # CHR 0xA8 # ds"
      | (a9) ds where "c # cs = CHR 0xE2 # CHR 0x80 # CHR 0xA9 # ds"
      | (other) "\<not> starts_with [CHR 0xE2, CHR 0x80, CHR 0xA8] (c # cs)"
          "\<not> starts_with [CHR 0xE2, CHR 0x80, CHR 0xA9] (c # cs)"
      unfolding starts_with_ex by auto
    then show ?thesis
    proof cases
      case a8
      with False IH show ?thesis
        by (auto simp: rune_len_sep unesc_sep simp del: unesc.simps)
    next
      case a9
      with False IH show ?thesis
        by (auto simp: rune_len_sep unesc_sep simp del: unesc.simps)
    next
      case other
      have "unesc acc (esc (c # cs) @ CHR 0x22 # r) =
          unesc acc ((c # take (?n - 1) cs) @ (esc (drop (?n - 1) cs) @ CHR 0x22 # r))"
        using False n(1) other by (auto simp del: unesc.simps)
      also have "\<dots> = Some (rev acc @ c # take (?n - 1) cs @ drop (?n - 1) cs, r)"
        unfolding unesc_high [OF rune_len_high [OF n(1)]] IH by simp
      finally show ?thesis by simp
    qed
  qed
qed simp

lemma esc_prefix_inject:
  assumes "esc s @ CHR 0x22 # r = esc s' @ CHR 0x22 # r'" "utf8_valid s" "utf8_valid s'"
  shows "s = s' \<and> r = r'"
proof -
  have "Some (s, r) = unesc [] (esc s @ CHR 0x22 # r)"
    using unesc_esc [OF assms(2), of "[]" r] by simp
  also have "\<dots> = unesc [] (esc s' @ CHR 0x22 # r')"
    by (simp only: assms(1))
  also have "\<dots> = Some (s', r')"
    using unesc_esc [OF assms(3), of "[]" r'] by simp
  finally show ?thesis by simp
qed

subsection \<open>Injectivity of the encoding\<close>

definition jval_valid :: "jval \<Rightarrow> bool" where
  "jval_valid v \<longleftrightarrow> (case v of JStr s \<Rightarrow> utf8_valid s | _ \<Rightarrow> True)"

definition jfields_valid :: "(string \<times> jval) list \<Rightarrow> bool" where
  "jfields_valid fs \<longleftrightarrow> (\<forall>(k, v) \<in> set fs. utf8_valid k \<and> jval_valid v)"

text \<open>A value is followed by a comma or a closing brace.\<close>

definition delim :: "string \<Rightarrow> bool" where
  "delim r \<longleftrightarrow> r \<noteq> [] \<and> (hd r = CHR '','' \<or> hd r = CHR ''}'')"

lemma digits_prefix:
  assumes "xs @ r = ys @ r'" "\<forall>c \<in> set xs. is_digit c" "\<forall>c \<in> set ys. is_digit c" "delim r" "delim r'"
  shows "xs = ys \<and> r = r'"
proof -
  have "takeWhile is_digit (zs @ q) = zs" if "\<forall>c \<in> set zs. is_digit c" "delim q" for zs q
    using that by (cases q) (auto simp: delim_def is_digit_def)
  with assms show ?thesis by (metis append_eq_append_conv)
qed

lemma show_int_prefix:
  assumes "show_int i @ r = show_int j @ r'" "delim r" "delim r'"
  shows "i = j \<and> r = r'"
proof -
  have nodash: "show_nat n @ q \<noteq> CHR ''-'' # q'" for n q q'
    using show_nat_digits [of n] by (cases "show_nat n") (auto simp: is_digit_def)
  have nat_case: "m = n \<and> r = r'" if "show_nat m @ r = show_nat n @ r'" for m n
    using digits_prefix [OF that show_nat_digits show_nat_digits assms(2,3)] by simp
  show ?thesis
  proof (cases "i < 0"; cases "j < 0")
    assume "i < 0" "j < 0"
    with assms(1) nat_case [of "nat (- i)" "nat (- j)"] show ?thesis
      by (simp add: show_int_def nat_eq_iff)
  next
    assume "i < 0" "\<not> j < 0"
    with assms(1) nodash [of "nat j" r'] show ?thesis by (simp add: show_int_def) metis
  next
    assume "\<not> i < 0" "j < 0"
    with assms(1) nodash [of "nat i" r] show ?thesis by (simp add: show_int_def)
  next
    assume "\<not> i < 0" "\<not> j < 0"
    with assms(1) nat_case [of "nat i" "nat j"] show ?thesis
      by (simp add: show_int_def nat_eq_iff)
  qed
qed

definition jkind :: "jval \<Rightarrow> nat" where
  "jkind v = (case v of JNum _ \<Rightarrow> 0 | JStr _ \<Rightarrow> 1 | JBool True \<Rightarrow> 2 | JBool False \<Rightarrow> 3 | JNull \<Rightarrow> 4)"

definition head_kind :: "char \<Rightarrow> nat" where
  "head_kind c =
     (if c = CHR 0x22 then 1 else if c = CHR ''t'' then 2 else if c = CHR ''f'' then 3
      else if c = CHR ''n'' then 4 else 0)"

lemma head_kind_digit: "is_digit c \<Longrightarrow> head_kind c = 0"
  by (auto simp: head_kind_def is_digit_def)

lemma jval_enc_head: "jval_enc v \<noteq> [] \<and> head_kind (hd (jval_enc v)) = jkind v"
proof (cases v)
  case (JNum i)
  have "is_digit (hd (show_nat n))" for n
    using show_nat_digits [of n] hd_in_set [of "show_nat n"] by auto
  then have "head_kind (hd (show_nat n)) = 0" for n
    by (rule head_kind_digit)
  then show ?thesis
    using JNum by (cases "i < 0") (simp_all add: show_int_def jkind_def, simp add: head_kind_def)
qed (auto simp: jstr_def jkind_def head_kind_def)

lemma jkind_eqE:
  assumes "jkind v = jkind w"
  obtains (num) i j where "v = JNum i" "w = JNum j"
    | (str) s t where "v = JStr s" "w = JStr t"
    | (same) "v = w"
  using assms by (cases v; cases w) (auto simp: jkind_def split: bool.splits)

lemma jval_enc_prefix:
  assumes "jval_enc v @ r = jval_enc w @ r'" "jval_valid v" "jval_valid w" "delim r" "delim r'"
  shows "v = w \<and> r = r'"
proof -
  have "hd (jval_enc v) = hd (jval_enc w)"
    using assms(1) jval_enc_head [of v] jval_enc_head [of w] by (metis hd_append2)
  then have "jkind v = jkind w" using jval_enc_head [of v] jval_enc_head [of w] by metis
  then show ?thesis
  proof (cases rule: jkind_eqE)
    case (num i j)
    then show ?thesis using assms(1,4,5) show_int_prefix [of i r j r'] by simp
  next
    case (str s t)
    then have "esc s @ CHR 0x22 # r = esc t @ CHR 0x22 # r'"
      using assms(1) by (simp add: jstr_def)
    then show ?thesis
      using esc_prefix_inject [of s r t r'] assms(2,3) str by (simp add: jval_valid_def)
  next
    case same
    then show ?thesis using assms(1) by simp
  qed
qed

lemma jfield_prefix:
  assumes "jfield f @ r = jfield g @ r'" "jfields_valid [f]" "jfields_valid [g]" "delim r" "delim r'"
  shows "f = g \<and> r = r'"
proof -
  obtain k v l w where fg: "f = (k, v)" "g = (l, w)" by (metis surj_pair)
  have eq: "esc k @ CHR 0x22 # CHR '':'' # jval_enc v @ r = esc l @ CHR 0x22 # CHR '':'' # jval_enc w @ r'"
    using assms(1) fg by (simp add: jfield_def jstr_def)
  have valid: "utf8_valid k" "utf8_valid l" "jval_valid v" "jval_valid w"
    using assms(2,3) fg by (simp_all add: jfields_valid_def)
  from esc_prefix_inject [OF eq valid(1,2)] have "k = l" "jval_enc v @ r = jval_enc w @ r'"
    by simp_all
  then show ?thesis
    using jval_enc_prefix [OF _ valid(3,4) assms(4,5)] fg by simp
qed

definition jtail :: "(string \<times> jval) list \<Rightarrow> string" where
  "jtail hs = (if hs = [] then ''}'' else CHR '','' # jfields hs)"

lemma jfields_Cons: "jfields (h # hs) = jfield h @ jtail hs"
  by (cases hs) (auto simp: jtail_def)

lemma jtail_delim [simp]: "delim (jtail hs)"
  by (simp add: jtail_def delim_def)

lemma jfields_not_brace: "jfields (f # fs) \<noteq> ''}''"
  by (simp add: jfields_Cons jfield_def jstr_def)

lemma jfields_inject:
  "jfields fs = jfields gs \<Longrightarrow> jfields_valid fs \<Longrightarrow> jfields_valid gs \<Longrightarrow> fs = gs"
proof (induction fs arbitrary: gs)
  case Nil
  then show ?case by (metis jfields.simps(1) jfields_not_brace list.exhaust)
next
  case (Cons f fs)
  obtain g gs' where gs: "gs = g # gs'"
    using Cons.prems(1) jfields_not_brace [of f fs] by (cases gs) auto
  have "jfield f @ jtail fs = jfield g @ jtail gs'"
    using Cons.prems(1) gs by (simp add: jfields_Cons)
  then have eq: "f = g \<and> jtail fs = jtail gs'"
    using Cons.prems(2,3) gs by (intro jfield_prefix) (auto simp: jfields_valid_def)
  have "fs = gs'"
  proof (cases "fs = []")
    case True
    with eq show ?thesis by (auto simp: jtail_def split: if_splits)
  next
    case False
    with eq have "jfields fs = jfields gs'" by (auto simp: jtail_def split: if_splits)
    then show ?thesis
      using Cons.IH Cons.prems(2,3) gs by (simp add: jfields_valid_def)
  qed
  with eq gs show ?case by simp
qed

lemma json_obj_inject:
  "json_obj fs = json_obj gs \<Longrightarrow> jfields_valid fs \<Longrightarrow> jfields_valid gs \<Longrightarrow> fs = gs"
  by (simp add: json_obj_def jfields_inject)

text \<open>A string of ASCII characters is valid UTF-8.\<close>

lemma utf8_valid_ascii: "\<forall>c \<in> set s. is_ascii c \<Longrightarrow> utf8_valid s"
  by (induction s) auto

end
