(* ===== verification/Envelope_Types.thy ===== *)
theory Envelope_Types
  imports Prelude
begin

text \<open>
  The envelope of \<open>internal/core/gateway.go\<close> and the operations on it that need no state:
  payload padding. The payload is a list of bytes; lengths are Go \<open>int\<close>s.
\<close>

record Envelope =
  ev_IdempotencyKey :: string
  ev_SenderNodeID :: string
  ev_SenderIdentity :: string
  ev_RecipientIdentity :: string
  ev_SenderRegion :: string
  ev_RecipientRegion :: string
  ev_TrustTier :: "32 word"
  ev_SequenceNumber :: "64 word"
  ev_Payload :: string
  ev_PaddedTo :: "32 word"
  ev_Timestamp :: int
  ev_Signature :: string
  ev_IsDummy :: bool
  ev_SchemaType :: string
  ev_SchemaVersion :: string
  ev_RoutingHint :: string

text \<open>
  The arithmetic is that of \<open>int\<close>. \<open>make\<close> panics on a negative length and on one that exceeds the
  address space, and \<open>copy\<close> stops at the shorter slice; a panic is not a value here, so for such
  buckets (only a bucket beyond \<open>2^63\<close> less the payload gives a negative length) the result stands
  for no return.
\<close>

definition pad_target :: "int \<Rightarrow> int \<Rightarrow> int" where
  "pad_target n bucket = int64_wrap (go_div (int64_wrap (n + bucket - 1)) bucket * bucket)"

definition applyPadding :: "Envelope \<Rightarrow> int \<Rightarrow> Envelope" where
  "applyPadding env bucket =
     (if bucket \<le> 0 \<or> length (ev_Payload env) = 0 then env
      else let target = pad_target (int (length (ev_Payload env))) bucket in
        env\<lparr>ev_Payload := take (nat target) (ev_Payload env) @ replicate (nat target - length (ev_Payload env)) (CHR 0x00),
            ev_PaddedTo := of_int target\<rparr>)"

lemma pad_target_bounds:
  assumes "0 < n" "0 < bucket" "n + bucket \<le> 2 ^ 63"
  shows "n \<le> pad_target n bucket" "pad_target n bucket < n + bucket" "bucket dvd pad_target n bucket"
proof -
  let ?q = "(n + bucket - 1) div bucket * bucket"
  have q: "?q + (n + bucket - 1) mod bucket = n + bucket - 1" by (rule div_mult_mod_eq)
  moreover have m: "0 \<le> (n + bucket - 1) mod bucket" "(n + bucket - 1) mod bucket < bucket"
    using assms by simp_all
  ultimately have b: "n \<le> ?q" "?q < n + bucket" by linarith+
  have "int64_wrap (n + bucket - 1) = n + bucket - 1" "int64_wrap ?q = ?q" using assms b by (simp_all add: int64_wrap_id)
  then have eq: "pad_target n bucket = ?q" using assms by (simp add: pad_target_def go_div_nonneg)
  show "n \<le> pad_target n bucket" "pad_target n bucket < n + bucket" "bucket dvd pad_target n bucket"
    using b by (simp_all add: eq)
qed

text \<open>A bucket close to the largest \<open>int\<close> wraps around: the padded payload is empty, the data lost.\<close>

lemma pad_target_wraps: "pad_target 4 (2 ^ 63 - 1) = 0"
  by code_simp

text \<open>Padding keeps the payload as a prefix and fills it with zero bytes to the next multiple.\<close>

lemma applyPadding_payload:
  assumes "0 < bucket" "ev_Payload env \<noteq> []" "int (length (ev_Payload env)) + bucket \<le> 2 ^ 63"
  shows "take (length (ev_Payload env)) (ev_Payload (applyPadding env bucket)) = ev_Payload env"
    "int (length (ev_Payload (applyPadding env bucket))) = pad_target (int (length (ev_Payload env))) bucket"
    "ev_PaddedTo (applyPadding env bucket) = of_int (pad_target (int (length (ev_Payload env))) bucket)"
  using assms pad_target_bounds(1) [of "int (length (ev_Payload env))" bucket]
  by (auto simp: applyPadding_def Let_def)

lemma applyPadding_frame [simp]:
  "ev_IdempotencyKey (applyPadding env b) = ev_IdempotencyKey env"
  "ev_SchemaType (applyPadding env b) = ev_SchemaType env"
  "ev_RecipientRegion (applyPadding env b) = ev_RecipientRegion env"
  "ev_SenderRegion (applyPadding env b) = ev_SenderRegion env"
  by (simp_all add: applyPadding_def Let_def)

subsection \<open>Properties\<close>

text \<open>
  Padding rounds a non-empty payload up to the next multiple of the bucket: the original
  bytes stay in front, only zero bytes follow, fewer than a bucket of them, and \<open>PaddedTo\<close> is
  the new length (as a 32-bit number); idempotency key, schema and regions do not change.
\<close>

theorem padding_extends_payload:
  assumes "0 < bucket" "ev_Payload env \<noteq> []" "int (length (ev_Payload env)) + bucket \<le> 2 ^ 63" "p = applyPadding env bucket"
  shows "take (length (ev_Payload env)) (ev_Payload p) = ev_Payload env \<and>
    set (drop (length (ev_Payload env)) (ev_Payload p)) \<subseteq> {CHR 0x00} \<and>
    bucket dvd int (length (ev_Payload p)) \<and>
    int (length (ev_Payload p)) < int (length (ev_Payload env)) + bucket \<and>
    ev_PaddedTo p = of_nat (length (ev_Payload p)) \<and>
    ev_IdempotencyKey p = ev_IdempotencyKey env \<and> ev_RecipientRegion p = ev_RecipientRegion env"
proof -
  let ?n = "length (ev_Payload env)" and ?t = "pad_target (int (length (ev_Payload env))) bucket"
  have n: "0 < int ?n" using assms(2) by simp
  note b = pad_target_bounds [OF n assms(1,3)]
  have p: "ev_Payload p = ev_Payload env @ replicate (nat ?t - ?n) (CHR 0x00)" "ev_PaddedTo p = of_int ?t"
    using assms b(1) by (simp_all add: applyPadding_def Let_def)
  have l: "int (length (ev_Payload p)) = ?t" using b(1) by (simp add: p)
  then have "ev_PaddedTo p = of_nat (length (ev_Payload p))" by (metis p(2) of_int_of_nat_eq)
  moreover have "take ?n (ev_Payload p) = ev_Payload env" "set (drop ?n (ev_Payload p)) \<subseteq> {CHR 0x00}"
    by (auto simp: p)
  moreover have "ev_IdempotencyKey p = ev_IdempotencyKey env" "ev_RecipientRegion p = ev_RecipientRegion env"
    by (simp_all add: assms(4))
  ultimately show ?thesis using b l by simp
qed

definition demo_padding :: Envelope where
  "demo_padding =
     \<lparr>ev_IdempotencyKey = ''k'', ev_SenderNodeID = '''', ev_SenderIdentity = '''', ev_RecipientIdentity = '''',
      ev_SenderRegion = ''RS'', ev_RecipientRegion = ''RU'', ev_TrustTier = 1, ev_SequenceNumber = 0,
      ev_Payload = ''abc'', ev_PaddedTo = 0, ev_Timestamp = 0, ev_Signature = '''', ev_IsDummy = False,
      ev_SchemaType = '''', ev_SchemaVersion = '''', ev_RoutingHint = ''''\<rparr>"

theorem padding_extends_payload_witness:
  "ev_Payload demo_padding \<noteq> [] \<and> take 3 (ev_Payload (applyPadding demo_padding 8)) = ''abc'' \<and>
   8 dvd int (length (ev_Payload (applyPadding demo_padding 8)))"
proof -
  have p: "ev_Payload demo_padding = ''abc''" "length (ev_Payload demo_padding) = 3"
    by (simp_all add: demo_padding_def)
  then show ?thesis using padding_extends_payload [of 8 demo_padding, OF _ _ _ refl, unfolded p(2)] by simp
qed

end
