(* ===== verification/Identity.thy ===== *)
theory Identity
  imports Json Envelope_Types
begin

text \<open>
  Envelope signatures (\<open>internal/identity/identity.go\<close>). The Ed25519 functions are parameters;
  what the code relies on is \<open>signature_scheme\<close>: a signature verifies against the public key
  that belongs to the private key, on the signed message, and against nothing else that
  was not signed. \<open>canonicalPayload\<close> is the JSON encoding of eight fields; the payload is
  base64, and \<open>null\<close> when the slice is nil (\<open>nil_payload\<close>).
\<close>

subsection \<open>Base64\<close>

definition b64_char :: "nat \<Rightarrow> char" where
  "b64_char n =
     (if n < 26 then char_of (65 + n) else if n < 52 then char_of (71 + n)
      else if n < 62 then char_of (n - 4) else if n = 62 then CHR ''+'' else CHR ''/'')"

fun base64 :: "string \<Rightarrow> string" where
  "base64 [] = []"
| "base64 [a] =
     [b64_char (of_char a div 4), b64_char (of_char a mod 4 * 16), CHR ''='', CHR ''='']"
| "base64 [a, b] =
     [b64_char (of_char a div 4), b64_char (of_char a mod 4 * 16 + of_char b div 16),
      b64_char (of_char b mod 16 * 4), CHR ''='']"
| "base64 (a # b # c # s) =
     b64_char (of_char a div 4) # b64_char (of_char a mod 4 * 16 + of_char b div 16) #
     b64_char (of_char b mod 16 * 4 + of_char c div 64) # b64_char (of_char c mod 64) # base64 s"

subsection \<open>Signing\<close>

datatype identity_error = ErrMissingSignature | ErrInvalidSignature

definition canonical_fields :: "bool \<Rightarrow> Envelope \<Rightarrow> (string \<times> jval) list" where
  "canonical_fields nil_payload env =
     [(''idempotency_key'', JStr (ev_IdempotencyKey env)),
      (''sender_region'', JStr (ev_SenderRegion env)),
      (''recipient_region'', JStr (ev_RecipientRegion env)),
      (''trust_tier'', JNum (uint (ev_TrustTier env))),
      (''sequence_number'', JNum (uint (ev_SequenceNumber env))),
      (''payload'', if nil_payload then JNull else JStr (base64 (ev_Payload env))),
      (''padded_to'', JNum (uint (ev_PaddedTo env))),
      (''timestamp'', JNum (ev_Timestamp env))]"

definition canonicalPayload :: "bool \<Rightarrow> Envelope \<Rightarrow> string" where
  "canonicalPayload nil_payload env = json_obj (canonical_fields nil_payload env)"

definition Sign :: "('k \<Rightarrow> string \<Rightarrow> string) \<Rightarrow> 'k \<Rightarrow> bool \<Rightarrow> Envelope \<Rightarrow> string" where
  "Sign ed_sign privKey nil_payload env = ed_sign privKey (canonicalPayload nil_payload env)"

definition identity_Verify ::
  "('p \<Rightarrow> string \<Rightarrow> string \<Rightarrow> bool) \<Rightarrow> 'p \<Rightarrow> bool \<Rightarrow> Envelope \<Rightarrow> string \<Rightarrow> identity_error option" where
  "identity_Verify ed_verify pubKey nil_payload env sig =
     (if length sig = 0 then Some ErrMissingSignature
      else if \<not> ed_verify pubKey (canonicalPayload nil_payload env) sig then Some ErrInvalidSignature
      else None)"

subsection \<open>The base64 code is injective\<close>

definition b64_code :: "nat \<Rightarrow> nat" where
  "b64_code n =
     (if n < 26 then 65 + n else if n < 52 then 71 + n else if n < 62 then n - 4 else if n = 62 then 43 else 47)"

lemma of_char_b64: "n < 64 \<Longrightarrow> of_char (b64_char n) = b64_code n"
  by (simp add: b64_char_def b64_code_def)

lemma b64_char_inj:
  assumes "b64_char m = b64_char n" "m < 64" "n < 64"
  shows "m = n"
proof -
  have "b64_code m = b64_code n" using of_char_b64 assms by metis
  then show ?thesis using assms(2,3) by (simp add: b64_code_def split: if_splits)
qed

lemma b64_char_not_pad: "n < 64 \<Longrightarrow> b64_char n \<noteq> CHR ''=''"
proof
  assume n: "n < 64" "b64_char n = CHR ''=''"
  have "of_char (CHR ''='') = (61 :: nat)" by simp
  then have "b64_code n = 61" using of_char_b64 [OF n(1)] n(2) by metis
  then show False using n(1) by (simp add: b64_code_def split: if_splits)
qed

lemma byte_bounds:
  "of_char a div 4 < (64 :: nat)" "of_char a mod 4 * 16 + of_char b div 16 < (64 :: nat)"
  "of_char b mod 16 * 4 + of_char c div 64 < (64 :: nat)" "of_char c mod 64 < (64 :: nat)"
  "of_char a mod 4 * 16 < (64 :: nat)" "of_char b mod 16 * 4 < (64 :: nat)"
  for a b c :: char
  using nat_of_char_less_256 [of a] nat_of_char_less_256 [of b] nat_of_char_less_256 [of c]
  by (auto simp del: nat_of_char_less_256)

lemma byte_split: "of_char a div k = (of_char a' div k :: nat) \<Longrightarrow> of_char a mod k = (of_char a' mod k :: nat) \<Longrightarrow> a = a'"
  by (metis char_of_char div_mult_mod_eq)

lemma combine_eq:
  fixes x y u v k :: nat
  assumes "x * k + u = y * k + v" "u < k" "v < k"
  shows "x = y \<and> u = v"
proof -
  have "x = (x * k + u) div k" "y = (y * k + v) div k" using assms(2,3) by auto
  then show ?thesis using assms(1) by simp
qed

lemma b64_first:
  assumes "b64_char (of_char a div 4) = b64_char (of_char a' div 4)"
    and "b64_char (of_char a mod 4 * 16 + x) = b64_char (of_char a' mod 4 * 16 + x')" "x < 16" "x' < 16"
  shows "a = a' \<and> x = x'"
proof -
  have lt: "of_char c mod 4 * 16 + y < (64 :: nat)" if "y < 16" for c :: char and y :: nat
    using that by simp
  have "of_char a div 4 = (of_char a' div 4 :: nat)" using assms(1) by (rule b64_char_inj) (rule byte_bounds)+
  moreover have "of_char a mod 4 * 16 + x = of_char a' mod 4 * 16 + x'"
    using assms(2) by (rule b64_char_inj) (use assms(3,4) lt in auto)
  ultimately show ?thesis using combine_eq [OF _ assms(3,4)] byte_split by metis
qed

lemma b64_second:
  assumes "of_char b div 16 = (of_char b' div 16 :: nat)"
    and "b64_char (of_char b mod 16 * 4 + x) = b64_char (of_char b' mod 16 * 4 + x')" "x < 4" "x' < 4"
  shows "b = b' \<and> x = x'"
proof -
  have lt: "of_char c mod 16 * 4 + y < (64 :: nat)" if "y < 4" for c :: char and y :: nat
    using that by simp
  have "of_char b mod 16 * 4 + x = of_char b' mod 16 * 4 + x'"
    using assms(2) by (rule b64_char_inj) (use assms(3,4) lt in auto)
  then show ?thesis using combine_eq [OF _ assms(3,4)] byte_split assms(1) by metis
qed

lemma high_bits: "of_char b div 16 < (16 :: nat)" "of_char c div 64 < (4 :: nat)" for b c :: char
  using nat_of_char_less_256 [of b] nat_of_char_less_256 [of c] by (simp_all del: nat_of_char_less_256)

lemmas b64_pad = b64_char_not_pad [OF byte_bounds(3)] b64_char_not_pad [OF byte_bounds(4)]
  b64_char_not_pad [OF byte_bounds(6)]

lemma base64_inj: "base64 s = base64 t \<Longrightarrow> s = t"
proof (induction s arbitrary: t rule: base64.induct)
  case 1
  then show ?case by (cases t rule: base64.cases) simp_all
next
  case (2 a)
  then show ?case
    using b64_first [of a _ 0 0] b64_pad [THEN not_sym] by (cases t rule: base64.cases) auto
next
  case (3 a b)
  then show ?case
    using b64_first [OF _ _ high_bits(1) high_bits(1), of a _ b] b64_second [of b _ 0 0] b64_pad [THEN not_sym] b64_pad
    by (cases t rule: base64.cases) auto
next
  case (4 a b c s)
  show ?case
  proof (cases t rule: base64.cases)
    case (4 a' b' c' s')
    note eq = "4.prems" [unfolded 4, simplified]
    have 1: "a = a'" "of_char b div 16 = (of_char b' div 16 :: nat)"
      using b64_first [OF _ _ high_bits(1) high_bits(1), of a a' b b'] eq by auto
    have 2: "b = b'" "of_char c div 64 = (of_char c' div 64 :: nat)"
      using b64_second [OF 1(2) _ high_bits(2) high_bits(2)] eq by auto
    have "of_char c mod 64 = (of_char c' mod 64 :: nat)"
      using eq by (intro b64_char_inj) (auto intro: byte_bounds)
    then have "c = c'" using 2(2) byte_split by metis
    then show ?thesis using 1(1) 2(1) "4.IH" eq 4 by simp
  qed (use "4.prems" b64_pad in auto)
qed

subsection \<open>What a signature covers\<close>

definition signed_part where
  "signed_part env =
     (ev_IdempotencyKey env, ev_SenderRegion env, ev_RecipientRegion env, ev_TrustTier env,
      ev_SequenceNumber env, ev_Payload env, ev_PaddedTo env, ev_Timestamp env)"

definition strings_valid :: "Envelope \<Rightarrow> bool" where
  "strings_valid env \<longleftrightarrow>
     utf8_valid (ev_IdempotencyKey env) \<and> utf8_valid (ev_SenderRegion env) \<and> utf8_valid (ev_RecipientRegion env)"

lemma b64_char_ascii: "n < 64 \<Longrightarrow> is_ascii (b64_char n)"
  by (simp add: is_ascii_def of_char_b64 b64_code_def) linarith

lemma base64_ascii: "\<forall>c \<in> set (base64 s). is_ascii c"
proof -
  have "is_ascii (CHR ''='')" by (simp add: is_ascii_def)
  then show ?thesis
    by (induction s rule: base64.induct) (auto intro: b64_char_ascii byte_bounds)
qed

lemma canonical_fields_valid: "strings_valid env \<Longrightarrow> jfields_valid (canonical_fields b env)"
  using utf8_valid_ascii [OF base64_ascii]
  by (auto simp: strings_valid_def canonical_fields_def jfields_valid_def jval_valid_def is_ascii_def intro!: utf8_valid_ascii)

lemma canonical_fields_inject:
  "canonical_fields False env = canonical_fields False env' \<Longrightarrow> signed_part env = signed_part env'"
  by (auto simp: canonical_fields_def signed_part_def word_uint_eq_iff dest: base64_inj)

lemma canonicalPayload_inject:
  assumes "canonicalPayload False env = canonicalPayload False env'" "strings_valid env" "strings_valid env'"
  shows "signed_part env = signed_part env'"
  using assms json_obj_inject canonical_fields_valid canonical_fields_inject
  unfolding canonicalPayload_def by blast

lemma canonicalPayload_part:
  "signed_part env = signed_part env' \<Longrightarrow> canonicalPayload b env = canonicalPayload b env'"
  by (simp add: signed_part_def canonicalPayload_def canonical_fields_def)

subsection \<open>Properties\<close>

text \<open>
  C37. What a signature covers. The signed bytes of two envelopes (with payloads that are
  not nil and strings in UTF-8) agree exactly when key, regions, trust tier, sequence number,
  payload, padding length and timestamp agree.
\<close>

theorem signed_bytes_determine_fields:
  assumes "strings_valid env" "strings_valid env'"
  shows "canonicalPayload False env = canonicalPayload False env' \<longleftrightarrow> signed_part env = signed_part env'"
  using canonicalPayload_inject [OF _ assms] canonicalPayload_part by blast

theorem signed_bytes_determine_fields_witness:
  "strings_valid demo_padding \<and>
   canonicalPayload False demo_padding \<noteq> canonicalPayload False (demo_padding\<lparr>ev_TrustTier := 2\<rparr>)"
proof -
  have "strings_valid demo_padding" "strings_valid (demo_padding\<lparr>ev_TrustTier := 2\<rparr>)"
    by (auto simp: strings_valid_def demo_padding_def is_ascii_def intro!: utf8_valid_ascii)
  then show ?thesis using signed_bytes_determine_fields [of demo_padding "demo_padding\<lparr>ev_TrustTier := 2\<rparr>"]
    by (simp add: signed_part_def demo_padding_def)
qed

text \<open>
  What a signature does not cover. A valid signature stays valid when the sender node, the
  schema type and version, the routing hint, the dummy flag or the identities are changed.
\<close>

theorem unsigned_fields_malleable:
  "identity_Verify ed_verify key nilp
     (env\<lparr>ev_SenderNodeID := n, ev_SchemaType := st, ev_SchemaVersion := sv, ev_RoutingHint := h,
          ev_IsDummy := d, ev_SenderIdentity := si, ev_RecipientIdentity := ri\<rparr>) sig =
   identity_Verify ed_verify key nilp env sig"
  by (simp add: identity_Verify_def canonicalPayload_def canonical_fields_def)

end
