(* ===== verification/Codec.thy ===== *)
theory Codec
  imports Identity
begin

text \<open>
  Decoders of the standard library that the HTTP server and the command line use:
  \<open>strconv.Atoi\<close> and \<open>base64.StdEncoding.DecodeString\<close>. Decoding skips carriage returns and
  newlines, wants groups of four characters with the padding at the end, and ignores the
  unused low bits of the last group.
\<close>

subsection \<open>Decimal numbers\<close>

definition int64_range :: "int \<Rightarrow> bool" where
  "int64_range i \<longleftrightarrow> - (2 ^ 63) \<le> i \<and> i < 2 ^ 63"

definition atoi :: "string \<Rightarrow> int option" where
  "atoi s =
     (let (neg, ds) = (case s of
                         [] \<Rightarrow> (False, [])
                       | c # cs \<Rightarrow> if c = CHR ''-'' then (True, cs)
                                   else if c = CHR ''+'' then (False, cs) else (False, s));
          i = (if neg then - int (read_nat ds) else int (read_nat ds))
      in if ds \<noteq> [] \<and> list_all is_digit ds \<and> int64_range i then Some i else None)"

lemma digit_not_sign: "is_digit c \<Longrightarrow> c \<noteq> CHR ''-'' \<and> c \<noteq> CHR ''+''"
  by (auto simp: is_digit_def)

lemma atoi_show_nat:
  assumes "int64_range (int n)"
  shows "atoi (show_nat n) = Some (int n)"
proof -
  obtain c cs where s: "show_nat n = c # cs" by (cases "show_nat n") auto
  have "list_all is_digit (show_nat n)" using show_nat_digits by (simp add: list_all_iff)
  moreover have "c \<noteq> CHR ''-'' \<and> c \<noteq> CHR ''+''" using show_nat_digits [of n] s digit_not_sign by auto
  moreover have "read_nat (c # cs) = n" using s read_show_nat by metis
  ultimately show ?thesis using assms by (simp add: atoi_def s)
qed

subsection \<open>Base64\<close>

definition b64_val :: "char \<Rightarrow> nat option" where
  "b64_val c =
     (let n = of_char c :: nat in
      if 65 \<le> n \<and> n \<le> 90 then Some (n - 65) else if 97 \<le> n \<and> n \<le> 122 then Some (n - 71)
      else if 48 \<le> n \<and> n \<le> 57 then Some (n + 4) else if n = 43 then Some 62
      else if n = 47 then Some 63 else None)"

fun b64_groups :: "string \<Rightarrow> string option" where
  "b64_groups [] = Some []"
| "b64_groups (a # b # c # d # s) =
     (case (b64_val a, b64_val b) of
        (Some w, Some x) \<Rightarrow>
          let p = char_of (w * 4 + x div 16) in
          if c = CHR ''='' then (if d = CHR ''='' \<and> s = [] then Some [p] else None)
          else (case b64_val c of
                  None \<Rightarrow> None
                | Some y \<Rightarrow>
                    let q = char_of (x mod 16 * 16 + y div 4) in
                    if d = CHR ''='' then (if s = [] then Some [p, q] else None)
                    else (case b64_val d of
                            None \<Rightarrow> None
                          | Some z \<Rightarrow>
                              map_option (\<lambda>r. p # q # char_of (y mod 4 * 64 + z) # r) (b64_groups s)))
      | _ \<Rightarrow> None)"
| "b64_groups _ = None"

definition is_newline :: "char \<Rightarrow> bool" where
  "is_newline c \<longleftrightarrow> c = CHR 0x0A \<or> c = CHR 0x0D"

definition b64_decode :: "string \<Rightarrow> string option" where
  "b64_decode s = b64_groups (filter (\<lambda>c. \<not> is_newline c) s)"

lemma b64_val_char [simp]: "n < 64 \<Longrightarrow> b64_val (b64_char n) = Some n"
  unfolding b64_val_def by (simp add: of_char_b64 Let_def) (simp add: b64_code_def, linarith)

lemma b64_char_graphic: "n < 64 \<Longrightarrow> \<not> is_newline (b64_char n)"
proof
  assume n: "n < 64" "is_newline (b64_char n)"
  then have "b64_val (b64_char n) = None" by (auto simp: is_newline_def b64_val_def)
  then show False using n(1) by simp
qed

lemma pad_not_newline: "\<not> is_newline (CHR ''='')"
  by (simp add: is_newline_def)

lemma base64_no_newline: "filter (\<lambda>c. \<not> is_newline c) (base64 s) = base64 s"
  by (induction s rule: base64.induct) (simp_all add: b64_char_graphic byte_bounds pad_not_newline)

lemma byte_high_bits:
  "of_char b div 16 div 16 = (0 :: nat)" "of_char c div 64 div 4 = (0 :: nat)"
  "of_char b div 16 mod 16 = (of_char b div 16 :: nat)" "of_char c div 64 mod 4 = (of_char c div 64 :: nat)"
  for b c :: char
  using nat_of_char_less_256 [of b] nat_of_char_less_256 [of c] by (auto simp del: nat_of_char_less_256)

lemma b64_groups_base64: "b64_groups (base64 s) = Some s"
  by (induction s rule: base64.induct)
     (simp_all add: byte_bounds b64_char_not_pad byte_high_bits Let_def)

lemma b64_decode_base64 [simp]: "b64_decode (base64 s) = Some s"
  by (simp add: b64_decode_def base64_no_newline b64_groups_base64)

end
