(* ===== verification/Config.thy ===== *)
theory Config
  imports Prelude
begin

text \<open>
  The node configuration: the structs of \<open>internal/config/config.go\<close> as records (field
  names keep the Go names behind a prefix for the struct), \<open>Config.Validate\<close>, the
  profile presets of \<open>presets.go\<close>, the raw TOML struct and its \<open>apply\<close>, and \<open>Load\<close>.
  The TOML decoder (github.com/BurntSushi/toml) and the file system are parameters of
  \<open>Load\<close>. The lemmas show that \<open>Validate\<close> decides a declarative well-formedness
  predicate whatever the visiting order of the peers, that every preset validates, and
  that \<open>Load\<close> only returns validated configurations.
\<close>

subsection \<open>Configuration structs\<close>

record CutoffWindow =
  cw_Open :: string
  cw_Close :: string
  cw_TZ :: string

record Iso20022AdapterConfig =
  iso_DedupTTLH :: int
  iso_SettlementFinality :: bool
  iso_RetainLong :: bool
  iso_CutoffWindows :: "string \<rightharpoonup> CutoffWindow"

record AdapterConfig =
  ad_Type :: string
  ad_Version :: string
  ad_Enabled :: bool
  ad_Description :: string
  ad_JurisdictionPolicy :: string
  ad_AllowTiers :: "string list"
  ad_Contact :: string

record SchemaRegistryConfig =
  sr_Adapters :: "AdapterConfig list"
  sr_Iso20022 :: Iso20022AdapterConfig

record StorageConfig =
  st_Backend :: string
  st_Path :: string
  st_RedisURL :: string
  st_KeyPrefix :: string

record APIConfig =
  api_APIKey :: string
  api_JWTSecret :: string

record UserConfig =
  uc_DisplayHint :: string
  uc_Region :: string

record AppConfig =
  app_WebhookURL :: string
  app_WebhookSecret :: string
  app_WebhookTimeout :: int
  app_AutoAccept :: string
  app_Users :: "string \<rightharpoonup> UserConfig"

record TLSConfig =
  tls_Cert :: string
  tls_Key :: string
  tls_CA :: string
  tls_Insecure :: bool

record NodeConfig =
  nc_NodeID :: string
  nc_NodeScope :: string
  nc_Region :: string
  nc_Regions :: "string list"
  nc_AllianceID :: string
  nc_Disclaimer :: string
  nc_OperatorID :: string
  nc_PolicyVersion :: string
  nc_ApplicableLaw :: string
  nc_SignedBy :: string
  nc_DiscoveryTokenTTL :: int
  nc_LogLevel :: string
  nc_LogFormat :: string

record ProfileConfig =
  pf_Name :: string
  pf_DedupTTL :: int
  pf_TimingJitterMax :: int
  pf_PaddingBucket :: int
  pf_DummyTrafficRate :: int
  pf_TransitCacheTTL :: int

record JurisdictionIsolationRule =
  ji_SchemaType :: string
  ji_AllowTiers :: "string list"
  ji_AllowJurisdictions :: "string list"
  ji_RequireProfile :: string

record DiscoveryPolicy =
  dp_AppIsolation :: string
  dp_AllowedAppIDs :: "string list"

record ConnectPolicy =
  cp_AutoAccept :: string
  cp_TrustedNodes :: "string list"

record OutboundPolicy =
  ob_AllowTo :: "string list"
  ob_DenyTo :: "string list"
  ob_StoreLocally :: bool

record AuditPolicy =
  ap_LogAllDecisions :: bool
  ap_LogBackend :: string
  ap_ExportToOperator :: bool
  ap_DNSTXTPublish :: bool
  ap_DNSTXTInterval :: int
  ap_HTTPSWellKnown :: bool
  ap_RootHashGossip :: bool

record PolicyConfig =
  pol_Outbound :: OutboundPolicy
  pol_MinTrustTier :: "32 word" \<comment> \<open>\<open>Inbound.MinTrustTier\<close>\<close>
  pol_Audit :: AuditPolicy
  pol_AllowVia :: "string list" \<comment> \<open>\<open>Routing.AllowVia\<close>\<close>
  pol_Discovery :: DiscoveryPolicy
  pol_Connect :: ConnectPolicy
  pol_Rules :: "JurisdictionIsolationRule list" \<comment> \<open>\<open>JurisdictionIsolation.Rules\<close>\<close>

record PeerConfig =
  pc_Region :: string
  pc_Addr :: string
  pc_NodeScope :: string
  pc_Regions :: "string list"

record NetworkConfig =
  nw_GRPCListenAddr :: string
  nw_HTTPListenAddr :: string
  nw_MetricsAddr :: string
  nw_ShutdownTimeout :: int
  nw_Peers :: "string \<rightharpoonup> PeerConfig"
  nw_BootstrapNodes :: "string list"
  nw_PeerGossipInterval :: int

record Config =
  cfg_Node :: NodeConfig
  cfg_Profile :: ProfileConfig
  cfg_Policy :: PolicyConfig
  cfg_Network :: NetworkConfig
  cfg_TLS :: TLSConfig
  cfg_API :: APIConfig
  cfg_Storage :: StorageConfig
  cfg_SchemaRegistry :: SchemaRegistryConfig
  cfg_Apps :: "string \<rightharpoonup> AppConfig"

subsection \<open>Validation\<close>

datatype config_error =
    NodeIDRequired | NodeScopeRequired | NodeScopeInvalid string | OperatorIDRequired
  | PolicyVersionRequired | ApplicableLawRequired | SignedByFormat | ProfileNameRequired
  | DedupTTLNotPositive | HTTPListenAddrRequired | GRPCListenAddrRequired
  | RegionRequired string | RegionsRequired | AllianceIDRequired
  | AllowViaInvalid string | PeerAddrEmpty string | PeerScopeInvalid string string
  | PeerRegionsRequired string | AdapterTypeRequired nat | AdapterTypeInvalid nat string
  | AdapterVersionRequired nat | RuleSchemaTypeRequired nat | RuleTierInvalid nat string

definition valid_tier :: "string \<Rightarrow> bool" where
  "valid_tier t \<longleftrightarrow> t = ''regional'' \<or> t = ''alliance'' \<or> t = ''global''"

definition isValidSchemaType :: "string \<Rightarrow> bool" where
  "isValidSchemaType s \<longleftrightarrow>
     s = ''messaging'' \<or> s = ''iso20022'' \<or> s = ''hl7fhir'' \<or> s = ''edifact'' \<or>
     starts_with ''custom:'' s"

definition validate_required :: "Config \<Rightarrow> config_error option" where
  "validate_required c =
     (if blank (nc_NodeID (cfg_Node c)) then Some NodeIDRequired
      else if blank (nc_NodeScope (cfg_Node c)) then Some NodeScopeRequired
      else if nc_NodeScope (cfg_Node c) \<noteq> ''regional'' \<and> nc_NodeScope (cfg_Node c) \<noteq> ''alliance''
              \<and> nc_NodeScope (cfg_Node c) \<noteq> ''global''
           then Some (NodeScopeInvalid (nc_NodeScope (cfg_Node c)))
      else if blank (nc_OperatorID (cfg_Node c)) then Some OperatorIDRequired
      else if blank (nc_PolicyVersion (cfg_Node c)) then Some PolicyVersionRequired
      else if blank (nc_ApplicableLaw (cfg_Node c)) then Some ApplicableLawRequired
      else if \<not> starts_with ''ed25519:'' (nc_SignedBy (cfg_Node c)) then Some SignedByFormat
      else if blank (pf_Name (cfg_Profile c)) then Some ProfileNameRequired
      else if pf_DedupTTL (cfg_Profile c) \<le> 0 then Some DedupTTLNotPositive
      else if blank (nw_HTTPListenAddr (cfg_Network c)) then Some HTTPListenAddrRequired
      else if blank (nw_GRPCListenAddr (cfg_Network c)) then Some GRPCListenAddrRequired
      else None)"

definition validate_scope :: "Config \<Rightarrow> config_error option" where
  "validate_scope c =
     (let n = cfg_Node c; sc = nc_NodeScope n in
      if sc = ''regional'' \<or> sc = ''global'' then
        (if blank (nc_Region n) then Some (RegionRequired sc) else None)
      else if sc = ''alliance'' then
        (if nc_Regions n = [] then Some RegionsRequired
         else if blank (nc_AllianceID n) then Some AllianceIDRequired else None)
      else None)"

fun validate_allow_via :: "string list \<Rightarrow> config_error option" where
  "validate_allow_via [] = None"
| "validate_allow_via (t # ts) =
     (if t \<noteq> ''regional'' \<and> t \<noteq> ''alliance'' \<and> t \<noteq> ''global'' then Some (AllowViaInvalid t)
      else validate_allow_via ts)"

definition validate_peer :: "string \<Rightarrow> PeerConfig \<Rightarrow> config_error option" where
  "validate_peer key p =
     (if blank (pc_Addr p) then Some (PeerAddrEmpty key)
      else if pc_NodeScope p \<noteq> '''' \<and> pc_NodeScope p \<noteq> ''regional'' \<and> pc_NodeScope p \<noteq> ''alliance''
              \<and> pc_NodeScope p \<noteq> ''global''
           then Some (PeerScopeInvalid key (pc_NodeScope p))
      else if pc_NodeScope p = ''alliance'' \<and> pc_Regions p = [] then Some (PeerRegionsRequired key)
      else None)"

text \<open>The loop over the peers visits them in the order \<open>ks\<close>.\<close>

fun validate_peers :: "string list \<Rightarrow> (string \<rightharpoonup> PeerConfig) \<Rightarrow> config_error option" where
  "validate_peers [] m = None"
| "validate_peers (k # ks) m =
     (case m k of
        None \<Rightarrow> validate_peers ks m
      | Some p \<Rightarrow> (case validate_peer k p of Some e \<Rightarrow> Some e | None \<Rightarrow> validate_peers ks m))"

fun validate_adapters :: "nat \<Rightarrow> AdapterConfig list \<Rightarrow> config_error option" where
  "validate_adapters i [] = None"
| "validate_adapters i (a # as) =
     (if blank (ad_Type a) then Some (AdapterTypeRequired i)
      else if \<not> isValidSchemaType (ad_Type a) then Some (AdapterTypeInvalid i (ad_Type a))
      else if blank (ad_Version a) then Some (AdapterVersionRequired i)
      else validate_adapters (Suc i) as)"

fun validate_rule_tiers :: "nat \<Rightarrow> string list \<Rightarrow> config_error option" where
  "validate_rule_tiers i [] = None"
| "validate_rule_tiers i (t # ts) =
     (if t \<noteq> ''regional'' \<and> t \<noteq> ''alliance'' \<and> t \<noteq> ''global'' then Some (RuleTierInvalid i t)
      else validate_rule_tiers i ts)"

fun validate_rules :: "nat \<Rightarrow> JurisdictionIsolationRule list \<Rightarrow> config_error option" where
  "validate_rules i [] = None"
| "validate_rules i (r # rs) =
     (if blank (ji_SchemaType r) then Some (RuleSchemaTypeRequired i)
      else (case validate_rule_tiers i (ji_AllowTiers r) of
              Some e \<Rightarrow> Some e
            | None \<Rightarrow> validate_rules (Suc i) rs))"

definition first_error :: "config_error option list \<Rightarrow> config_error option" where
  "first_error es = (case filter (\<lambda>e. e \<noteq> None) es of [] \<Rightarrow> None | e # _ \<Rightarrow> e)"

definition Validate :: "string list \<Rightarrow> Config \<Rightarrow> config_error option" where
  "Validate ks c =
     first_error
       [validate_required c,
        validate_scope c,
        validate_allow_via (pol_AllowVia (cfg_Policy c)),
        validate_peers ks (nw_Peers (cfg_Network c)),
        validate_adapters 0 (sr_Adapters (cfg_SchemaRegistry c)),
        validate_rules 0 (pol_Rules (cfg_Policy c))]"

subsection \<open>Profile presets\<close>

definition version_App :: string where "version_App = ''0.1.0''"

definition zero_iso :: Iso20022AdapterConfig where
  "zero_iso = \<lparr>iso_DedupTTLH = 0, iso_SettlementFinality = False, iso_RetainLong = False,
               iso_CutoffWindows = Map.empty\<rparr>"

definition preset_base :: Config where
  "preset_base =
     \<lparr>cfg_Node =
        \<lparr>nc_NodeID = ''rs-node-01'', nc_NodeScope = ''regional'', nc_Region = ''RS'',
         nc_Regions = [], nc_AllianceID = '''', nc_Disclaimer = '''',
         nc_OperatorID = ''example-operator'', nc_PolicyVersion = version_App,
         nc_ApplicableLaw = ''RS-GDPR'', nc_SignedBy = ''ed25519:REPLACE_ME'',
         nc_DiscoveryTokenTTL = 5 * minute, nc_LogLevel = '''', nc_LogFormat = ''''\<rparr>,
      cfg_Profile =
        \<lparr>pf_Name = '''', pf_DedupTTL = 0, pf_TimingJitterMax = 0, pf_PaddingBucket = 0,
         pf_DummyTrafficRate = 0, pf_TransitCacheTTL = 0\<rparr>,
      cfg_Policy =
        \<lparr>pol_Outbound = \<lparr>ob_AllowTo = [''RU'', ''BY'', ''KZ'', ''AM''], ob_DenyTo = [],
                         ob_StoreLocally = True\<rparr>,
         pol_MinTrustTier = 0,
         pol_Audit = \<lparr>ap_LogAllDecisions = True, ap_LogBackend = ''local-merkle'',
                      ap_ExportToOperator = False, ap_DNSTXTPublish = True,
                      ap_DNSTXTInterval = 6 * hour, ap_HTTPSWellKnown = True,
                      ap_RootHashGossip = False\<rparr>,
         pol_AllowVia = [],
         pol_Discovery = \<lparr>dp_AppIsolation = ''SAME_APP_ONLY'', dp_AllowedAppIDs = []\<rparr>,
         pol_Connect = \<lparr>cp_AutoAccept = ''MANUAL'', cp_TrustedNodes = []\<rparr>,
         pol_Rules = []\<rparr>,
      cfg_Network =
        \<lparr>nw_GRPCListenAddr = '':7777'', nw_HTTPListenAddr = '':8080'', nw_MetricsAddr = '':9090'',
         nw_ShutdownTimeout = 5 * second, nw_Peers = Map.empty, nw_BootstrapNodes = [],
         nw_PeerGossipInterval = 0\<rparr>,
      cfg_TLS = \<lparr>tls_Cert = '''', tls_Key = '''', tls_CA = '''', tls_Insecure = False\<rparr>,
      cfg_API = \<lparr>api_APIKey = '''', api_JWTSecret = ''''\<rparr>,
      cfg_Storage = \<lparr>st_Backend = '''', st_Path = '''', st_RedisURL = '''', st_KeyPrefix = ''''\<rparr>,
      cfg_SchemaRegistry = \<lparr>sr_Adapters = [], sr_Iso20022 = zero_iso\<rparr>,
      cfg_Apps = Map.empty\<rparr>"

definition profile_strict :: ProfileConfig where
  "profile_strict =
     \<lparr>pf_Name = ''strict'', pf_DedupTTL = 72 * hour, pf_TimingJitterMax = 500 * millisecond,
      pf_PaddingBucket = 16 * 1024, pf_DummyTrafficRate = 5 * second,
      pf_TransitCacheTTL = 30 * second\<rparr>"

definition profile_performance :: ProfileConfig where
  "profile_performance =
     \<lparr>pf_Name = ''performance'', pf_DedupTTL = hour, pf_TimingJitterMax = 0,
      pf_PaddingBucket = 0, pf_DummyTrafficRate = 0, pf_TransitCacheTTL = 0\<rparr>"

definition profile_balanced :: ProfileConfig where
  "profile_balanced =
     \<lparr>pf_Name = ''balanced'', pf_DedupTTL = 24 * hour, pf_TimingJitterMax = 100 * millisecond,
      pf_PaddingBucket = 4 * 1024, pf_DummyTrafficRate = 60 * second,
      pf_TransitCacheTTL = 30 * second\<rparr>"

definition performance_policy :: "PolicyConfig \<Rightarrow> PolicyConfig" where
  "performance_policy p =
     p\<lparr>pol_Audit := (pol_Audit p)\<lparr>ap_LogAllDecisions := False, ap_ExportToOperator := False,
                                  ap_DNSTXTPublish := False, ap_DNSTXTInterval := 0,
                                  ap_HTTPSWellKnown := False\<rparr>,
       pol_Outbound := (pol_Outbound p)\<lparr>ob_StoreLocally := False\<rparr>\<rparr>"

definition DefaultConfigForProfile :: "string \<Rightarrow> Config" where
  "DefaultConfigForProfile name =
     (let cfg = preset_base in
      if name = ''strict'' then
        cfg\<lparr>cfg_Profile := profile_strict,
            cfg_Policy := (cfg_Policy cfg)\<lparr>pol_Audit := (pol_Audit (cfg_Policy cfg))
                                             \<lparr>ap_DNSTXTInterval := hour\<rparr>\<rparr>\<rparr>
      else if name = ''performance'' then
        cfg\<lparr>cfg_Profile := profile_performance, cfg_Policy := performance_policy (cfg_Policy cfg)\<rparr>
      else cfg\<lparr>cfg_Profile := profile_balanced\<rparr>)"

definition DefaultBalancedConfig :: Config where
  "DefaultBalancedConfig = DefaultConfigForProfile ''balanced''"

declare preset_base_def [cfg_defs] profile_strict_def [cfg_defs] profile_performance_def [cfg_defs]
  profile_balanced_def [cfg_defs] performance_policy_def [cfg_defs]
  DefaultConfigForProfile_def [cfg_defs] DefaultBalancedConfig_def [cfg_defs] zero_iso_def [cfg_defs]
  version_App_def [cfg_defs]

subsection \<open>The raw TOML struct and its application\<close>

text \<open>
  A slice field whose nil-ness the code tests is a \<open>list option\<close>, a pointer field an
  \<open>option\<close>; a map field whose nil-ness is tested is an \<open>option\<close> of a map.
\<close>

record raw_node =
  rn_NodeID :: string
  rn_NodeScope :: string
  rn_Region :: string
  rn_Regions :: "string list option"
  rn_AllianceID :: string
  rn_Disclaimer :: string
  rn_OperatorID :: string
  rn_PolicyVersion :: string
  rn_ApplicableLaw :: string
  rn_SignedBy :: string
  rn_DiscoveryTokenTTLS :: int
  rn_LogLevel :: string
  rn_LogFormat :: string

record raw_profile_override =
  ro_PaddingBucketBytes :: int
  ro_TimingJitterMaxMs :: int
  ro_DedupTTLH :: int
  ro_DummyTrafficIntervalSecond :: int
  ro_TransitCacheTTLS :: int

record raw_policy =
  rp_AllowTo :: "string list option"
  rp_DenyTo :: "string list option"
  rp_StoreLocally :: "bool option"
  rp_MinTrustTier :: "32 word option"
  rp_LogAllDecisions :: "bool option"
  rp_LogBackend :: string
  rp_ExportOperator :: "bool option"
  rp_DNSPublish :: "bool option"
  rp_DNSIntervalS :: int
  rp_HTTPSWellKnown :: "bool option"
  rp_RootHashGossip :: "bool option"
  rp_AllowVia :: "string list option"
  rp_AppIsolation :: string
  rp_AllowedAppIDs :: "string list option"
  rp_AutoAccept :: string
  rp_TrustedNodes :: "string list option"
  rp_Rules :: "JurisdictionIsolationRule list"

record raw_network =
  rw_GRPCListenAddr :: string
  rw_ListenAddr :: string
  rw_GRPCPort :: int
  rw_HTTPListenAddr :: string
  rw_HTTPPort :: int
  rw_MetricsAddr :: string
  rw_MetricsPort :: int
  rw_ShutdownTimeoutS :: int
  rw_BootstrapNodes :: "string list option"
  rw_PeerGossipIntervalS :: int

record raw_peer =
  rpe_Addr :: string
  rpe_NodeScope :: string
  rpe_Regions :: "string list"

record raw_app =
  ra_WebhookURL :: string
  ra_WebhookSecret :: string
  ra_WebhookTimeout :: int
  ra_AutoAccept :: string
  ra_Users :: "(string \<rightharpoonup> UserConfig) option"

record raw_adapter =
  rad_Type :: string
  rad_Version :: string
  rad_Enabled :: "bool option"
  rad_Description :: string
  rad_JurisdictionPolicy :: string
  rad_AllowTiers :: "string list"
  rad_Contact :: string

record rawTOML =
  raw_Node :: raw_node
  raw_ProfileName :: string \<comment> \<open>\<open>Profile.Name\<close>\<close>
  raw_ProfileOverride :: raw_profile_override
  raw_Policy :: raw_policy
  raw_Network :: raw_network
  raw_Peers :: "(string \<rightharpoonup> raw_peer) option"
  raw_TLS :: TLSConfig
  raw_API :: APIConfig
  raw_Storage :: StorageConfig
  raw_Apps :: "(string \<rightharpoonup> raw_app) option"
  raw_Adapters :: "raw_adapter list" \<comment> \<open>\<open>SchemaRegistry.Adapters\<close>\<close>
  raw_Iso20022 :: Iso20022AdapterConfig \<comment> \<open>\<open>SchemaRegistry.Iso20022\<close>, same fields\<close>

definition override_str :: "string \<Rightarrow> string \<Rightarrow> string" where
  "override_str raw cur = (let v = trim_space raw in if v \<noteq> '''' then v else cur)"

definition override_opt :: "'a option \<Rightarrow> 'a \<Rightarrow> 'a" where
  "override_opt raw cur = (case raw of Some v \<Rightarrow> v | None \<Rightarrow> cur)"

definition override_dur :: "int \<Rightarrow> int \<Rightarrow> int \<Rightarrow> int" where
  "override_dur n unit cur = (if n > 0 then int64_wrap (n * unit) else cur)"

definition profileName :: "rawTOML \<Rightarrow> string" where
  "profileName r =
     (let name = trim_space (raw_ProfileName r) in if name \<noteq> '''' then name else ''balanced'')"

definition apply_node :: "raw_node \<Rightarrow> NodeConfig \<Rightarrow> NodeConfig" where
  "apply_node r n =
     \<lparr>nc_NodeID = override_str (rn_NodeID r) (nc_NodeID n),
      nc_NodeScope = override_str (rn_NodeScope r) (nc_NodeScope n),
      nc_Region = override_str (rn_Region r) (nc_Region n),
      nc_Regions = override_opt (rn_Regions r) (nc_Regions n),
      nc_AllianceID = override_str (rn_AllianceID r) (nc_AllianceID n),
      nc_Disclaimer = override_str (rn_Disclaimer r) (nc_Disclaimer n),
      nc_OperatorID = override_str (rn_OperatorID r) (nc_OperatorID n),
      nc_PolicyVersion = override_str (rn_PolicyVersion r) (nc_PolicyVersion n),
      nc_ApplicableLaw = override_str (rn_ApplicableLaw r) (nc_ApplicableLaw n),
      nc_SignedBy = override_str (rn_SignedBy r) (nc_SignedBy n),
      nc_DiscoveryTokenTTL = override_dur (rn_DiscoveryTokenTTLS r) second (nc_DiscoveryTokenTTL n),
      nc_LogLevel = override_str (rn_LogLevel r) (nc_LogLevel n),
      nc_LogFormat = override_str (rn_LogFormat r) (nc_LogFormat n)\<rparr>"

definition apply_profile :: "rawTOML \<Rightarrow> ProfileConfig \<Rightarrow> ProfileConfig" where
  "apply_profile r p =
     (let o' = raw_ProfileOverride r in
      \<lparr>pf_Name = profileName r,
       pf_DedupTTL = override_dur (ro_DedupTTLH o') hour (pf_DedupTTL p),
       pf_TimingJitterMax = override_dur (ro_TimingJitterMaxMs o') millisecond (pf_TimingJitterMax p),
       pf_PaddingBucket =
         (if ro_PaddingBucketBytes o' > 0 then ro_PaddingBucketBytes o' else pf_PaddingBucket p),
       pf_DummyTrafficRate =
         override_dur (ro_DummyTrafficIntervalSecond o') second (pf_DummyTrafficRate p),
       pf_TransitCacheTTL = override_dur (ro_TransitCacheTTLS o') second (pf_TransitCacheTTL p)\<rparr>)"

definition apply_policy :: "raw_policy \<Rightarrow> PolicyConfig \<Rightarrow> PolicyConfig" where
  "apply_policy r p =
     \<lparr>pol_Outbound =
        \<lparr>ob_AllowTo = override_opt (rp_AllowTo r) (ob_AllowTo (pol_Outbound p)),
         ob_DenyTo = override_opt (rp_DenyTo r) (ob_DenyTo (pol_Outbound p)),
         ob_StoreLocally = override_opt (rp_StoreLocally r) (ob_StoreLocally (pol_Outbound p))\<rparr>,
      pol_MinTrustTier = override_opt (rp_MinTrustTier r) (pol_MinTrustTier p),
      pol_Audit =
        \<lparr>ap_LogAllDecisions = override_opt (rp_LogAllDecisions r) (ap_LogAllDecisions (pol_Audit p)),
         ap_LogBackend = override_str (rp_LogBackend r) (ap_LogBackend (pol_Audit p)),
         ap_ExportToOperator = override_opt (rp_ExportOperator r) (ap_ExportToOperator (pol_Audit p)),
         ap_DNSTXTPublish = override_opt (rp_DNSPublish r) (ap_DNSTXTPublish (pol_Audit p)),
         ap_DNSTXTInterval = override_dur (rp_DNSIntervalS r) second (ap_DNSTXTInterval (pol_Audit p)),
         ap_HTTPSWellKnown = override_opt (rp_HTTPSWellKnown r) (ap_HTTPSWellKnown (pol_Audit p)),
         ap_RootHashGossip = override_opt (rp_RootHashGossip r) (ap_RootHashGossip (pol_Audit p))\<rparr>,
      pol_AllowVia = override_opt (rp_AllowVia r) (pol_AllowVia p),
      pol_Discovery =
        \<lparr>dp_AppIsolation = override_str (rp_AppIsolation r) (dp_AppIsolation (pol_Discovery p)),
         dp_AllowedAppIDs = override_opt (rp_AllowedAppIDs r) (dp_AllowedAppIDs (pol_Discovery p))\<rparr>,
      pol_Connect =
        \<lparr>cp_AutoAccept = override_str (rp_AutoAccept r) (cp_AutoAccept (pol_Connect p)),
         cp_TrustedNodes = override_opt (rp_TrustedNodes r) (cp_TrustedNodes (pol_Connect p))\<rparr>,
      pol_Rules = (if length (rp_Rules r) > 0 then rp_Rules r else pol_Rules p)\<rparr>"

definition port_addr :: "int \<Rightarrow> string" where
  "port_addr n = CHR '':'' # show_int n"

definition apply_network :: "raw_network \<Rightarrow> NetworkConfig \<Rightarrow> NetworkConfig" where
  "apply_network r n =
     n\<lparr>nw_GRPCListenAddr :=
         (if trim_space (rw_GRPCListenAddr r) \<noteq> '''' then trim_space (rw_GRPCListenAddr r)
          else if trim_space (rw_ListenAddr r) \<noteq> '''' then trim_space (rw_ListenAddr r)
          else if rw_GRPCPort r > 0 then port_addr (rw_GRPCPort r)
          else nw_GRPCListenAddr n),
       nw_HTTPListenAddr :=
         (if trim_space (rw_HTTPListenAddr r) \<noteq> '''' then trim_space (rw_HTTPListenAddr r)
          else if rw_HTTPPort r > 0 then port_addr (rw_HTTPPort r)
          else nw_HTTPListenAddr n),
       nw_MetricsAddr :=
         (if trim_space (rw_MetricsAddr r) \<noteq> '''' then trim_space (rw_MetricsAddr r)
          else if rw_MetricsPort r > 0 then port_addr (rw_MetricsPort r)
          else nw_MetricsAddr n),
       nw_ShutdownTimeout := override_dur (rw_ShutdownTimeoutS r) second (nw_ShutdownTimeout n),
       nw_BootstrapNodes := override_opt (rw_BootstrapNodes r) (nw_BootstrapNodes n),
       nw_PeerGossipInterval := override_dur (rw_PeerGossipIntervalS r) second (nw_PeerGossipInterval n)\<rparr>"

definition apply_tls :: "TLSConfig \<Rightarrow> TLSConfig \<Rightarrow> TLSConfig" where
  "apply_tls r t =
     \<lparr>tls_Cert = override_str (tls_Cert r) (tls_Cert t), tls_Key = override_str (tls_Key r) (tls_Key t),
      tls_CA = override_str (tls_CA r) (tls_CA t), tls_Insecure = tls_Insecure r\<rparr>"

definition peer_of_raw :: "string \<Rightarrow> raw_peer \<Rightarrow> PeerConfig" where
  "peer_of_raw k v =
     \<lparr>pc_Region = k, pc_Addr = rpe_Addr v, pc_NodeScope = rpe_NodeScope v, pc_Regions = rpe_Regions v\<rparr>"

definition apply_peers :: "(string \<rightharpoonup> raw_peer) option \<Rightarrow> (string \<rightharpoonup> PeerConfig) \<Rightarrow> (string \<rightharpoonup> PeerConfig)" where
  "apply_peers r cur =
     (case r of None \<Rightarrow> cur | Some m \<Rightarrow> (\<lambda>k. map_option (peer_of_raw k) (m k)))"

definition apply_api :: "APIConfig \<Rightarrow> APIConfig \<Rightarrow> APIConfig" where
  "apply_api r a =
     \<lparr>api_APIKey = override_str (api_APIKey r) (api_APIKey a),
      api_JWTSecret = override_str (api_JWTSecret r) (api_JWTSecret a)\<rparr>"

definition apply_storage :: "StorageConfig \<Rightarrow> StorageConfig \<Rightarrow> StorageConfig" where
  "apply_storage r s =
     \<lparr>st_Backend = override_str (st_Backend r) (st_Backend s), st_Path = override_str (st_Path r) (st_Path s),
      st_RedisURL = override_str (st_RedisURL r) (st_RedisURL s),
      st_KeyPrefix = override_str (st_KeyPrefix r) (st_KeyPrefix s)\<rparr>"

definition app_of_raw :: "raw_app \<Rightarrow> AppConfig" where
  "app_of_raw r =
     \<lparr>app_WebhookURL = ra_WebhookURL r, app_WebhookSecret = ra_WebhookSecret r,
      app_WebhookTimeout = (if ra_WebhookTimeout r \<le> 0 then 5 else ra_WebhookTimeout r),
      app_AutoAccept = (if ra_AutoAccept r = '''' then ''manual'' else ra_AutoAccept r),
      app_Users = (case ra_Users r of None \<Rightarrow> Map.empty | Some us \<Rightarrow> us)\<rparr>"

definition apply_apps :: "(string \<rightharpoonup> raw_app) option \<Rightarrow> (string \<rightharpoonup> AppConfig) \<Rightarrow> (string \<rightharpoonup> AppConfig)" where
  "apply_apps r cur = (case r of None \<Rightarrow> cur | Some m \<Rightarrow> (\<lambda>k. map_option app_of_raw (m k)))"

definition adapter_of_raw :: "raw_adapter \<Rightarrow> AdapterConfig" where
  "adapter_of_raw a =
     \<lparr>ad_Type = rad_Type a, ad_Version = rad_Version a,
      ad_Enabled = (case rad_Enabled a of None \<Rightarrow> True | Some b \<Rightarrow> b),
      ad_Description = rad_Description a, ad_JurisdictionPolicy = rad_JurisdictionPolicy a,
      ad_AllowTiers = rad_AllowTiers a, ad_Contact = rad_Contact a\<rparr>"

definition apply_schema_registry :: "rawTOML \<Rightarrow> SchemaRegistryConfig \<Rightarrow> SchemaRegistryConfig" where
  "apply_schema_registry r s =
     (let iso = raw_Iso20022 r in
      \<lparr>sr_Adapters =
         (if length (raw_Adapters r) > 0 then map adapter_of_raw (raw_Adapters r) else sr_Adapters s),
       sr_Iso20022 =
         (if iso_DedupTTLH iso > 0 \<or> iso_SettlementFinality iso \<or> iso_RetainLong iso
             \<or> iso_CutoffWindows iso \<noteq> Map.empty
          then iso else sr_Iso20022 s)\<rparr>)"

definition apply_raw :: "rawTOML \<Rightarrow> Config \<Rightarrow> Config" where
  "apply_raw r c =
     \<lparr>cfg_Node = apply_node (raw_Node r) (cfg_Node c),
      cfg_Profile = apply_profile r (cfg_Profile c),
      cfg_Policy = apply_policy (raw_Policy r) (cfg_Policy c),
      cfg_Network = (apply_network (raw_Network r) (cfg_Network c))
                      \<lparr>nw_Peers := apply_peers (raw_Peers r) (nw_Peers (cfg_Network c))\<rparr>,
      cfg_TLS = apply_tls (raw_TLS r) (cfg_TLS c),
      cfg_API = apply_api (raw_API r) (cfg_API c),
      cfg_Storage = apply_storage (raw_Storage r) (cfg_Storage c),
      cfg_SchemaRegistry = apply_schema_registry r (cfg_SchemaRegistry c),
      cfg_Apps = apply_apps (raw_Apps r) (cfg_Apps c)\<rparr>"

subsection \<open>Loading\<close>

fun ext_rev :: "string \<Rightarrow> string \<Rightarrow> string" where
  "ext_rev [] acc = ''''"
| "ext_rev (c # cs) acc =
     (if c = CHR ''/'' then '''' else if c = CHR ''.'' then c # acc else ext_rev cs (c # acc))"

definition filepath_Ext :: "string \<Rightarrow> string" where
  "filepath_Ext path = ext_rev (rev path) ''''"

datatype load_error =
    StatError string | PathIsDirectory string | UnsupportedFormat string | OpenError string
  | ParseError string | InvalidConfig config_error

text \<open>
  \<open>stat\<close> and \<open>open_file\<close> are the file system (an error, or whether the path is a
  directory; an error, or the content), \<open>decode\<close> is the TOML decoder, \<open>order\<close> the
  visiting order of the peers of the decoded configuration.
\<close>

definition Load ::
  "(string \<Rightarrow> string + bool) \<Rightarrow> (string \<Rightarrow> string + string) \<Rightarrow> (string \<Rightarrow> string + rawTOML) \<Rightarrow>
   (Config \<Rightarrow> string list) \<Rightarrow> string \<Rightarrow> load_error + Config" where
  "Load stat open_file decode order path =
     (if blank path then Inr DefaultBalancedConfig
      else case stat path of
        Inl e \<Rightarrow> Inl (StatError e)
      | Inr isdir \<Rightarrow>
        if isdir then Inl (PathIsDirectory path)
        else let ext = to_lower (filepath_Ext path) in
        if ext \<noteq> ''.toml'' then Inl (UnsupportedFormat ext)
        else case open_file path of
          Inl e \<Rightarrow> Inl (OpenError e)
        | Inr content \<Rightarrow>
          (case decode content of
             Inl e \<Rightarrow> Inl (ParseError e)
           | Inr raw \<Rightarrow>
             let cfg = apply_raw raw (DefaultConfigForProfile (profileName raw)) in
             (case Validate (order cfg) cfg of
                Some e \<Rightarrow> Inl (InvalidConfig e)
              | None \<Rightarrow> Inr cfg)))"

subsection \<open>Well-formed configurations\<close>

definition peer_ok :: "PeerConfig \<Rightarrow> bool" where
  "peer_ok p \<longleftrightarrow>
     \<not> blank (pc_Addr p) \<and> (pc_NodeScope p = '''' \<or> valid_tier (pc_NodeScope p)) \<and>
     (pc_NodeScope p = ''alliance'' \<longrightarrow> pc_Regions p \<noteq> [])"

definition adapter_ok :: "AdapterConfig \<Rightarrow> bool" where
  "adapter_ok a \<longleftrightarrow> isValidSchemaType (ad_Type a) \<and> \<not> blank (ad_Type a) \<and> \<not> blank (ad_Version a)"

definition rule_ok :: "JurisdictionIsolationRule \<Rightarrow> bool" where
  "rule_ok r \<longleftrightarrow> \<not> blank (ji_SchemaType r) \<and> (\<forall>t \<in> set (ji_AllowTiers r). valid_tier t)"

definition node_ok :: "NodeConfig \<Rightarrow> bool" where
  "node_ok n \<longleftrightarrow>
     \<not> blank (nc_NodeID n) \<and> \<not> blank (nc_OperatorID n) \<and> \<not> blank (nc_PolicyVersion n) \<and>
     \<not> blank (nc_ApplicableLaw n) \<and> starts_with ''ed25519:'' (nc_SignedBy n) \<and>
     (nc_NodeScope n = ''alliance'' \<and> nc_Regions n \<noteq> [] \<and> \<not> blank (nc_AllianceID n) \<or>
      (nc_NodeScope n = ''regional'' \<or> nc_NodeScope n = ''global'') \<and> \<not> blank (nc_Region n))"

definition config_ok :: "Config \<Rightarrow> bool" where
  "config_ok c \<longleftrightarrow>
     node_ok (cfg_Node c) \<and>
     \<not> blank (pf_Name (cfg_Profile c)) \<and> 0 < pf_DedupTTL (cfg_Profile c) \<and>
     \<not> blank (nw_HTTPListenAddr (cfg_Network c)) \<and> \<not> blank (nw_GRPCListenAddr (cfg_Network c)) \<and>
     (\<forall>t \<in> set (pol_AllowVia (cfg_Policy c)). valid_tier t) \<and>
     (\<forall>p \<in> ran (nw_Peers (cfg_Network c)). peer_ok p) \<and>
     (\<forall>a \<in> set (sr_Adapters (cfg_SchemaRegistry c)). adapter_ok a) \<and>
     (\<forall>r \<in> set (pol_Rules (cfg_Policy c)). rule_ok r)"

lemma first_error_None [simp]: "first_error es = None \<longleftrightarrow> (\<forall>e \<in> set es. e = None)"
  by (induction es) (auto simp: first_error_def)

lemma blank_tiers [simp]:
  "\<not> blank ''regional''" "\<not> blank ''alliance''" "\<not> blank ''global''"
  by (rule not_blank_graphic; simp add: graphic_def)+

lemma validate_required_None:
  "validate_required c = None \<and> validate_scope c = None \<longleftrightarrow>
     node_ok (cfg_Node c) \<and> \<not> blank (pf_Name (cfg_Profile c)) \<and> 0 < pf_DedupTTL (cfg_Profile c) \<and>
     \<not> blank (nw_HTTPListenAddr (cfg_Network c)) \<and> \<not> blank (nw_GRPCListenAddr (cfg_Network c))"
  unfolding validate_required_def validate_scope_def node_ok_def Let_def
  by (auto split: if_splits)

lemma validate_allow_via_None: "validate_allow_via ts = None \<longleftrightarrow> (\<forall>t \<in> set ts. valid_tier t)"
  by (induction ts) (auto simp: valid_tier_def)

lemma validate_peer_None: "validate_peer k p = None \<longleftrightarrow> peer_ok p"
  by (auto simp: validate_peer_def peer_ok_def valid_tier_def)

lemma case_option_None: "(case x of None \<Rightarrow> y | Some e \<Rightarrow> Some e) = None \<longleftrightarrow> x = None \<and> y = None"
  by (cases x) auto

lemma validate_peers_None:
  "validate_peers ks m = None \<longleftrightarrow> (\<forall>k \<in> set ks. \<forall>p. m k = Some p \<longrightarrow> peer_ok p)"
proof (induction ks)
  case (Cons k ks)
  then show ?case
    by (cases "m k") (auto simp: case_option_None validate_peer_None)
qed simp

lemma validate_adapters_None: "validate_adapters i as = None \<longleftrightarrow> (\<forall>a \<in> set as. adapter_ok a)"
  by (induction as arbitrary: i) (auto simp: adapter_ok_def)

lemma validate_rule_tiers_None: "validate_rule_tiers i ts = None \<longleftrightarrow> (\<forall>t \<in> set ts. valid_tier t)"
  by (induction ts) (auto simp: valid_tier_def)

lemma validate_rules_None: "validate_rules i rs = None \<longleftrightarrow> (\<forall>r \<in> set rs. rule_ok r)"
  by (induction rs arbitrary: i)
    (auto simp: rule_ok_def validate_rule_tiers_None case_option_None)

lemmas validate_None = validate_allow_via_None validate_peers_None validate_adapters_None
  validate_rules_None

lemma Validate_None_iff:
  assumes "enumerates ks (nw_Peers (cfg_Network c))"
  shows "Validate ks c = None \<longleftrightarrow> config_ok c"
proof -
  have "(\<forall>k \<in> set ks. \<forall>p. nw_Peers (cfg_Network c) k = Some p \<longrightarrow> peer_ok p) \<longleftrightarrow>
      (\<forall>p \<in> ran (nw_Peers (cfg_Network c)). peer_ok p)"
    using assms by (auto simp: enumerates_def ran_def)
  then show ?thesis
    using validate_required_None [of c]
    by (auto simp: Validate_def validate_None config_ok_def)
qed

lemma config_ok_scope: "config_ok c \<Longrightarrow> valid_tier (nc_NodeScope (cfg_Node c))"
  by (auto simp: config_ok_def node_ok_def valid_tier_def)

subsection \<open>The presets and the loader\<close>

lemma preset_name:
  "pf_Name (cfg_Profile (DefaultConfigForProfile name)) \<in> {''strict'', ''performance'', ''balanced''}"
  by (simp add: cfg_defs Let_def)

lemma blank_preset [simp]:
  "\<not> blank ''rs-node-01''" "\<not> blank ''example-operator''" "\<not> blank ''RS-GDPR''" "\<not> blank ''RS''"
  "\<not> blank ''0.1.0''" "\<not> blank ''strict''" "\<not> blank ''performance''" "\<not> blank ''balanced''"
  "\<not> blank '':8080''" "\<not> blank '':7777''"
  by (rule not_blank_graphic; simp add: graphic_def)+

lemma DefaultConfigForProfile_ok: "config_ok (DefaultConfigForProfile name)"
  by (auto simp: config_ok_def node_ok_def cfg_defs go_defs Let_def)

lemma Load_config_ok:
  assumes "enumerates (order c) (nw_Peers (cfg_Network c))"
    and "Load stat open_file decode order path = Inr c"
  shows "config_ok c"
  using assms(2) Validate_None_iff [OF assms(1)] DefaultConfigForProfile_ok
  by (auto simp: Load_def Let_def DefaultBalancedConfig_def split: if_splits sum.splits option.splits)

subsection \<open>Properties\<close>

text \<open>
  C34. \<open>Validate\<close> accepts a configuration exactly when it satisfies the declarative
  predicate \<open>config_ok\<close>, whatever order Go ranges over the peers in.
\<close>

theorem validate_iff_config_ok:
  assumes "enumerates ks (nw_Peers (cfg_Network c))"
  shows "Validate ks c = None \<longleftrightarrow> config_ok c"
  using assms by (rule Validate_None_iff)

theorem validate_iff_config_ok_witness:
  "enumerates [] (nw_Peers (cfg_Network preset_base)) \<and> Validate [] preset_base \<noteq> None \<and> \<not> config_ok preset_base"
proof -
  have "enumerates [] (nw_Peers (cfg_Network preset_base))" by (simp add: preset_base_def)
  moreover have "\<not> config_ok preset_base" by (simp add: config_ok_def preset_base_def)
  ultimately show ?thesis using validate_iff_config_ok [of "[]" preset_base] by simp
qed

text \<open>
  Whatever the file system and the TOML decoder return, a configuration that \<open>Load\<close>
  yields is valid; and each preset a profile name selects is valid and carries one of the
  three profile names.
\<close>

theorem load_yields_valid_config:
  assumes "enumerates (order c) (nw_Peers (cfg_Network c))"
    and "Load stat open_file decode order path = Inr c"
  shows "config_ok c \<and> config_ok (DefaultConfigForProfile name) \<and>
    pf_Name (cfg_Profile (DefaultConfigForProfile name)) \<in> {''strict'', ''performance'', ''balanced''}"
  using Load_config_ok [OF assms] DefaultConfigForProfile_ok preset_name by blast

text \<open>A file that sets nothing.\<close>

definition empty_toml :: rawTOML where
  "empty_toml =
     \<lparr>raw_Node =
        \<lparr>rn_NodeID = '''', rn_NodeScope = '''', rn_Region = '''', rn_Regions = None, rn_AllianceID = '''',
         rn_Disclaimer = '''', rn_OperatorID = '''', rn_PolicyVersion = '''', rn_ApplicableLaw = '''',
         rn_SignedBy = '''', rn_DiscoveryTokenTTLS = 0, rn_LogLevel = '''', rn_LogFormat = ''''\<rparr>,
      raw_ProfileName = '''',
      raw_ProfileOverride =
        \<lparr>ro_PaddingBucketBytes = 0, ro_TimingJitterMaxMs = 0, ro_DedupTTLH = 0,
         ro_DummyTrafficIntervalSecond = 0, ro_TransitCacheTTLS = 0\<rparr>,
      raw_Policy =
        \<lparr>rp_AllowTo = None, rp_DenyTo = None, rp_StoreLocally = None, rp_MinTrustTier = None,
         rp_LogAllDecisions = None, rp_LogBackend = '''', rp_ExportOperator = None, rp_DNSPublish = None,
         rp_DNSIntervalS = 0, rp_HTTPSWellKnown = None, rp_RootHashGossip = None, rp_AllowVia = None,
         rp_AppIsolation = '''', rp_AllowedAppIDs = None, rp_AutoAccept = '''', rp_TrustedNodes = None,
         rp_Rules = []\<rparr>,
      raw_Network =
        \<lparr>rw_GRPCListenAddr = '''', rw_ListenAddr = '''', rw_GRPCPort = 0, rw_HTTPListenAddr = '''',
         rw_HTTPPort = 0, rw_MetricsAddr = '''', rw_MetricsPort = 0, rw_ShutdownTimeoutS = 0,
         rw_BootstrapNodes = None, rw_PeerGossipIntervalS = 0\<rparr>,
      raw_Peers = None,
      raw_TLS = \<lparr>tls_Cert = '''', tls_Key = '''', tls_CA = '''', tls_Insecure = False\<rparr>,
      raw_API = \<lparr>api_APIKey = '''', api_JWTSecret = ''''\<rparr>,
      raw_Storage = \<lparr>st_Backend = '''', st_Path = '''', st_RedisURL = '''', st_KeyPrefix = ''''\<rparr>,
      raw_Apps = None, raw_Adapters = [], raw_Iso20022 = zero_iso\<rparr>"

lemma override_empty [simp]:
  "override_str '''' x = x" "override_opt None y = y" "override_dur 0 u d = d"
  by (simp_all add: override_str_def override_opt_def override_dur_def)

lemma apply_empty_toml: "apply_raw empty_toml DefaultBalancedConfig = DefaultBalancedConfig"
  by (simp add: apply_raw_def empty_toml_def apply_node_def apply_profile_def apply_policy_def apply_network_def
      apply_tls_def apply_api_def apply_storage_def apply_schema_registry_def apply_apps_def apply_peers_def
      profileName_def DefaultBalancedConfig_def DefaultConfigForProfile_def preset_base_def profile_balanced_def
      zero_iso_def Let_def)

lemma Load_empty_toml:
  "Load (\<lambda>_. Inr False) (\<lambda>_. Inr '''') (\<lambda>_. Inr empty_toml) (\<lambda>_. []) ''node.toml'' = Inr DefaultBalancedConfig"
proof -
  have "\<not> blank ''node.toml''" by (rule not_blank_graphic; simp add: graphic_def)
  moreover have "to_lower (filepath_Ext ''node.toml'') = ''.toml''"
    by (simp add: filepath_Ext_def to_lower_def to_lower_char_def)
  moreover have "profileName empty_toml = ''balanced''" by (simp add: profileName_def empty_toml_def Let_def)
  moreover have "Validate [] DefaultBalancedConfig = None"
    using Validate_None_iff [of "[]" DefaultBalancedConfig] DefaultConfigForProfile_ok [of "''balanced''"]
    by (simp add: DefaultBalancedConfig_def DefaultConfigForProfile_def preset_base_def Let_def)
  ultimately show ?thesis
    using apply_empty_toml by (simp add: Load_def Let_def DefaultBalancedConfig_def)
qed

theorem load_yields_valid_config_witness:
  "config_ok DefaultBalancedConfig \<and>
   Load (\<lambda>_. Inr False) (\<lambda>_. Inr '''') (\<lambda>_. Inr empty_toml) (\<lambda>_. []) ''node.toml'' = Inr DefaultBalancedConfig"
  using load_yields_valid_config [OF _ Load_empty_toml] Load_empty_toml
  by (simp add: DefaultBalancedConfig_def DefaultConfigForProfile_def preset_base_def Let_def)

end
