(* ===== verification/Http_Auth.thy ===== *)
theory Http_Auth
  imports Codec Config
begin

text \<open>
  Requests, authentication and the runtime tables of the management server
  (\<open>internal/server/http.go\<close>). A request is its method and its header and query values, an
  absent one being the empty string. The JWT library is the parameter \<open>jwt_lib\<close>: parsing a
  token without checks, checking its signature, checking its registered claims at a time, and
  signing. \<open>jwt_laws\<close> is what the server relies on: a token it signed carries its claims
  and a valid HMAC signature, and its claims are accepted before the expiry time.
\<close>

subsection \<open>Requests\<close>

record http_request =
  rq_Method :: string
  rq_Header :: "string \<Rightarrow> string"
  rq_Query :: "string \<Rightarrow> string"

subsection \<open>The JWT library\<close>

datatype jwt_method = SigningMethodHMAC | OtherMethod string

type_synonym jwt_claims = "string \<rightharpoonup> jval"

record jwt_lib =
  jl_decode :: "string \<Rightarrow> (jwt_method \<times> jwt_claims) option"
  jl_sig_ok :: "jwt_method \<Rightarrow> string \<Rightarrow> string \<Rightarrow> bool"
  jl_claims_ok :: "int \<Rightarrow> jwt_claims \<Rightarrow> bool"
  jl_sign :: "string \<Rightarrow> jwt_claims \<Rightarrow> string option"

text \<open>
  \<open>jwt.Parse\<close> with the key function of \<open>checkAuth\<close>, which refuses every method but HMAC
  before it hands out the secret.
\<close>

definition jwt_Parse :: "jwt_lib \<Rightarrow> int \<Rightarrow> string \<Rightarrow> string \<Rightarrow> jwt_claims option" where
  "jwt_Parse lib now secret tok =
     (case jl_decode lib tok of
        None \<Rightarrow> None
      | Some (method, claims) \<Rightarrow>
          if method \<noteq> SigningMethodHMAC then None
          else if jl_sig_ok lib method secret tok \<and> jl_claims_ok lib now claims then Some claims else None)"

text \<open>
  Claims travel as JSON and numbers come back as \<open>float64\<close>: a text in UTF-8 and a number of at most
  53 bits are read back exactly. An expiry of 0 counts as none.
\<close>

definition exact_claim :: "jval \<Rightarrow> bool" where
  "exact_claim v = (case v of JNum n \<Rightarrow> \<bar>n\<bar> \<le> 2 ^ 53 | JStr s \<Rightarrow> utf8_valid s | _ \<Rightarrow> True)"

definition carries :: "jwt_claims \<Rightarrow> jwt_claims \<Rightarrow> bool" where
  "carries claims' claims \<longleftrightarrow>
     (\<forall>k. list_all is_ascii k \<longrightarrow>
        (case claims k of None \<Rightarrow> claims' k = None | Some v \<Rightarrow> exact_claim v \<longrightarrow> claims' k = Some v))"

definition jwt_laws :: "jwt_lib \<Rightarrow> bool" where
  "jwt_laws lib \<longleftrightarrow>
     (\<forall>secret claims tok. jl_sign lib secret claims = Some tok \<longrightarrow>
        (\<exists>claims'. jl_decode lib tok = Some (SigningMethodHMAC, claims') \<and> carries claims' claims) \<and>
        jl_sig_ok lib SigningMethodHMAC secret tok) \<and>
     (\<forall>now claims ex. claims ''exp'' = Some (JNum ex) \<and> ex \<noteq> 0 \<and> \<bar>ex\<bar> \<le> 2 ^ 53 \<and> claims ''nbf'' = None \<longrightarrow>
        (jl_claims_ok lib now claims \<longleftrightarrow> now < ex * second))"

subsection \<open>Authentication\<close>

definition string_claim :: "jwt_claims \<Rightarrow> string \<Rightarrow> string" where
  "string_claim claims name = (case claims name of Some (JStr s) \<Rightarrow> s | _ \<Rightarrow> '''')"

definition checkAuth :: "jwt_lib \<Rightarrow> int \<Rightarrow> string \<Rightarrow> string \<Rightarrow> string \<Rightarrow> http_request \<Rightarrow> bool" where
  "checkAuth lib now apiKey jwtSecret requiredScope r =
     (if apiKey = '''' \<and> jwtSecret = '''' then True
      else let key = rq_Header r ''X-MRMI-Key'' in
      if key \<noteq> '''' then apiKey = '''' \<or> key = apiKey
      else if jwtSecret \<noteq> '''' then
        (let authHeader = rq_Header r ''Authorization'' in
         if starts_with ''Bearer '' authHeader then
           (case jwt_Parse lib now jwtSecret (drop (length ''Bearer '') authHeader) of
              None \<Rightarrow> False
            | Some claims \<Rightarrow>
                let scope = string_claim claims ''scope'' in
                if requiredScope = ''operator'' then scope = ''operator''
                else scope = ''read'' \<or> scope = ''operator'')
         else False)
      else False)"

text \<open>
  What a caller presents, as the check sees it: nothing, an API key, or a token that the
  library accepts with its scope.
\<close>

datatype credential = NoCredential | ApiKey string | BadToken | Scoped string

definition credential_of :: "jwt_lib \<Rightarrow> int \<Rightarrow> string \<Rightarrow> http_request \<Rightarrow> credential" where
  "credential_of lib now jwtSecret r =
     (if rq_Header r ''X-MRMI-Key'' \<noteq> '''' then ApiKey (rq_Header r ''X-MRMI-Key'')
      else if jwtSecret = '''' \<or> \<not> starts_with ''Bearer '' (rq_Header r ''Authorization'') then NoCredential
      else case jwt_Parse lib now jwtSecret (drop (length ''Bearer '') (rq_Header r ''Authorization'')) of
             None \<Rightarrow> BadToken
           | Some claims \<Rightarrow> Scoped (string_claim claims ''scope''))"

fun grants :: "string \<Rightarrow> string \<Rightarrow> credential \<Rightarrow> bool" where
  "grants apiKey requiredScope NoCredential = False"
| "grants apiKey requiredScope (ApiKey k) = (apiKey = '''' \<or> k = apiKey)"
| "grants apiKey requiredScope BadToken = False"
| "grants apiKey requiredScope (Scoped sc) =
     (sc = ''operator'' \<or> (sc = ''read'' \<and> requiredScope \<noteq> ''operator''))"

lemma checkAuth_grants:
  "checkAuth lib now apiKey jwtSecret requiredScope r \<longleftrightarrow>
     (apiKey = '''' \<and> jwtSecret = '''') \<or> grants apiKey requiredScope (credential_of lib now jwtSecret r)"
  by (auto simp: checkAuth_def credential_of_def Let_def split: option.splits)

lemma operator_implies_read:
  "checkAuth lib now apiKey jwtSecret ''operator'' r \<Longrightarrow> checkAuth lib now apiKey jwtSecret ''read'' r"
  by (cases "credential_of lib now jwtSecret r") (auto simp: checkAuth_grants)

subsection \<open>Runtime peers, adapters and apps\<close>

type_synonym RuntimePeers = "PeerConfig list"

definition NewRuntimePeers :: RuntimePeers where "NewRuntimePeers = []"

definition rpeers_Add :: "PeerConfig \<Rightarrow> RuntimePeers \<Rightarrow> RuntimePeers" where
  "rpeers_Add p rp = rp @ [p]"

definition rpeers_All :: "RuntimePeers \<Rightarrow> PeerConfig list" where "rpeers_All rp = rp"

record CustomAdapterEntry =
  cae_SchemaType :: string
  cae_SchemaVersion :: string
  cae_Description :: string
  cae_AllowTiers :: "string list"
  cae_RequireProfile :: string
  cae_Contact :: string
  cae_RegisteredAt :: int

type_synonym RuntimeAdapters = "string \<rightharpoonup> CustomAdapterEntry"

definition NewRuntimeAdapters :: RuntimeAdapters where "NewRuntimeAdapters = Map.empty"

definition radapters_Register :: "CustomAdapterEntry \<Rightarrow> RuntimeAdapters \<Rightarrow> RuntimeAdapters" where
  "radapters_Register a ra = ra(cae_SchemaType a \<mapsto> a)"

definition radapters_Delete :: "string \<Rightarrow> RuntimeAdapters \<Rightarrow> bool \<times> RuntimeAdapters" where
  "radapters_Delete schemaType ra = (ra schemaType \<noteq> None, ra(schemaType := None))"

definition radapters_All :: "string list \<Rightarrow> RuntimeAdapters \<Rightarrow> CustomAdapterEntry list" where
  "radapters_All ks ra = List.map_filter ra ks"

record runtimeApp =
  rap_AppID :: string
  rap_WebhookURL :: string
  rap_APIKey :: string
  rap_LastSeen :: int

type_synonym RuntimeApps = "string \<rightharpoonup> runtimeApp"

definition NewRuntimeApps :: RuntimeApps where "NewRuntimeApps = Map.empty"

definition rapps_Register :: "runtimeApp \<Rightarrow> RuntimeApps \<Rightarrow> RuntimeApps" where
  "rapps_Register app ra = ra(rap_AppID app \<mapsto> app)"

definition rapps_Delete :: "string \<Rightarrow> RuntimeApps \<Rightarrow> bool \<times> RuntimeApps" where
  "rapps_Delete appID ra = (ra appID \<noteq> None, ra(appID := None))"

definition rapps_All :: "string list \<Rightarrow> RuntimeApps \<Rightarrow> runtimeApp list" where
  "rapps_All ks ra = List.map_filter ra ks"

text \<open>Entries are filed under their own name; a custom adapter has a custom name.\<close>

definition adapters_inv :: "RuntimeAdapters \<Rightarrow> bool" where
  "adapters_inv ra \<longleftrightarrow>
     finite (dom ra) \<and> (\<forall>k a. ra k = Some a \<longrightarrow> cae_SchemaType a = k \<and> starts_with ''custom:'' k)"

definition apps_inv :: "RuntimeApps \<Rightarrow> bool" where
  "apps_inv ra \<longleftrightarrow> finite (dom ra) \<and> (\<forall>k a. ra k = Some a \<longrightarrow> rap_AppID a = k \<and> k \<noteq> '''')"

lemma adapters_inv_ops:
  "adapters_inv NewRuntimeAdapters"
  "adapters_inv ra \<Longrightarrow> starts_with ''custom:'' (cae_SchemaType a) \<Longrightarrow> adapters_inv (radapters_Register a ra)"
  "adapters_inv ra \<Longrightarrow> adapters_inv (snd (radapters_Delete k ra))"
  by (auto simp: adapters_inv_def NewRuntimeAdapters_def radapters_Register_def radapters_Delete_def)

lemma apps_inv_ops:
  "apps_inv NewRuntimeApps"
  "apps_inv ra \<Longrightarrow> rap_AppID a \<noteq> '''' \<Longrightarrow> apps_inv (rapps_Register a ra)"
  "apps_inv ra \<Longrightarrow> apps_inv (snd (rapps_Delete k ra))"
  by (auto simp: apps_inv_def NewRuntimeApps_def rapps_Register_def rapps_Delete_def)

end
