(* ===== verification/Schema.thy ===== *)
theory Schema
  imports Config
begin

text \<open>
  The schema adapters (\<open>internal/schema\<close>): the schema type constants, \<open>Normalize\<close>, and
  the ISO 20022 processing windows (\<open>IsInWindow\<close>, \<open>NextOpen\<close>, \<open>parseTOD\<close>). The time
  zone database behind \<open>time.LoadLocation\<close> is a parameter: a location maps an instant
  (Unix seconds) to its offset from UTC and the half-open range of instants over which
  that offset is valid, as Go's \<open>Location.lookup\<close> does. The lemmas show that a window is
  one circular interval of the day, whether or not it crosses midnight, and that in a
  zone with a fixed offset \<open>NextOpen\<close> is the first instant at which the window is open.
\<close>

subsection \<open>Schema types\<close>

definition Messaging :: string where "Messaging = ''messaging''"
definition Iso20022 :: string where "Iso20022 = ''iso20022''"
definition Hl7Fhir :: string where "Hl7Fhir = ''hl7fhir''"
definition Edifact :: string where "Edifact = ''edifact''"

lemmas schema_consts = Messaging_def Iso20022_def Hl7Fhir_def Edifact_def
declare schema_consts [cfg_defs]

definition Normalize :: "string \<Rightarrow> string" where
  "Normalize t = (if trim_space t = '''' then Messaging else t)"

lemma blank_schema [simp]:
  "\<not> blank ''messaging''" "\<not> blank ''iso20022''" "\<not> blank ''hl7fhir''" "\<not> blank ''edifact''"
  by (rule not_blank_graphic; simp add: graphic_def)+

lemma Normalize_idem [simp]: "Normalize (Normalize t) = Normalize t"
  by (auto simp: Normalize_def Messaging_def)

lemma Normalize_Nil [simp]: "Normalize '''' = Messaging"
  by (simp add: Normalize_def)

lemma Normalize_const [simp]:
  "Normalize Messaging = Messaging" "Normalize Iso20022 = Iso20022"
  "Normalize Hl7Fhir = Hl7Fhir" "Normalize Edifact = Edifact"
  by (auto simp: Normalize_def schema_consts blank_def [symmetric])

lemma schema_distinct [simp]:
  "Messaging \<noteq> Iso20022" "Messaging \<noteq> Hl7Fhir" "Messaging \<noteq> Edifact"
  "Iso20022 \<noteq> Hl7Fhir" "Iso20022 \<noteq> Edifact" "Hl7Fhir \<noteq> Edifact"
  "Iso20022 \<noteq> Messaging" "Hl7Fhir \<noteq> Messaging" "Edifact \<noteq> Messaging"
  "Hl7Fhir \<noteq> Iso20022" "Edifact \<noteq> Iso20022" "Edifact \<noteq> Hl7Fhir"
  by (simp_all add: schema_consts)

subsection \<open>Parsing a time of day\<close>

text \<open>
  \<open>fmt.Sscanf(s, "%d:%d", &h, &m)\<close>: a verb skips blanks (a newline is an error), takes
  an optional sign and at least one digit; the colon must match; what is left of the
  input after the last verb is ignored. The multi-byte blanks that \<open>fmt\<close> also skips
  cannot be followed by a digit in the five bytes \<open>parseTOD\<close> admits, so they fail here
  as they do there.
\<close>

fun skip_blanks :: "string \<Rightarrow> string option" where
  "skip_blanks [] = Some []"
| "skip_blanks (c # cs) =
     (if c = CHR 0x0A then None
      else if c \<in> {CHR 0x09, CHR 0x0B, CHR 0x0C, CHR 0x0D, CHR 0x20} then skip_blanks cs
      else Some (c # cs))"

definition take_sign :: "string \<Rightarrow> int \<times> string" where
  "take_sign s =
     (case s of
        [] \<Rightarrow> (1, [])
      | c # cs \<Rightarrow> if c = CHR ''-'' then (- 1, cs) else if c = CHR ''+'' then (1, cs) else (1, s))"

definition scan_int :: "string \<Rightarrow> (int \<times> string) option" where
  "scan_int s =
     (case skip_blanks s of
        None \<Rightarrow> None
      | Some s1 \<Rightarrow>
          (case take_sign s1 of
             (sg, s2) \<Rightarrow>
               if takeWhile is_digit s2 = [] then None
               else Some (sg * int (read_nat (takeWhile is_digit s2)), dropWhile is_digit s2)))"

definition sscanf_tod :: "string \<Rightarrow> (int \<times> int) option" where
  "sscanf_tod s =
     (case scan_int s of
        None \<Rightarrow> None
      | Some (h, r) \<Rightarrow>
          (case r of
             [] \<Rightarrow> None
           | c # r' \<Rightarrow>
               if c = CHR '':'' then
                 (case scan_int r' of None \<Rightarrow> None | Some (m, _) \<Rightarrow> Some (h, m))
               else None))"

datatype window_error =
    InvalidTimezone string | OpenFormat string | OpenRange string | CloseFormat string | CloseRange string

datatype tod_error = TodFormat string | TodRange string

definition parseTOD :: "string \<Rightarrow> tod_error + int" where
  "parseTOD s =
     (if length s \<noteq> 5 \<or> s ! 2 \<noteq> CHR '':'' then Inl (TodFormat s)
      else case sscanf_tod s of
        None \<Rightarrow> Inl (TodFormat s)
      | Some (h, m) \<Rightarrow>
          if h < 0 \<or> h > 23 \<or> m < 0 \<or> m > 59 then Inl (TodRange s) else Inr (h * 60 + m))"

subsection \<open>Locations and processing windows\<close>

type_synonym location = "int \<Rightarrow> int \<times> int \<times> int"

definition zone_offset :: "location \<Rightarrow> int \<Rightarrow> int" where
  "zone_offset loc u = fst (loc u)"

text \<open>Seconds since the epoch on the local clock of \<open>loc\<close> at the instant \<open>t\<close>.\<close>

definition local_sec :: "location \<Rightarrow> int \<Rightarrow> int" where
  "local_sec loc t = unix_sec t + zone_offset loc (unix_sec t)"

definition timeOfDay :: "location \<Rightarrow> int \<Rightarrow> int" where
  "timeOfDay loc t =
     (local_sec loc t mod 86400) div 3600 * 60 + (local_sec loc t mod 3600) div 60"

text \<open>
  \<open>time.Date\<close> for the local calendar reading \<open>u\<close> (seconds on the local clock): look the
  offset up at \<open>u\<close> taken as UTC, and again where the corrected instant is outside the
  validity range of that offset.
\<close>

definition date_in :: "location \<Rightarrow> int \<Rightarrow> int" where
  "date_in loc u =
     (case loc u of
        (off, start, end') \<Rightarrow>
          if off \<noteq> 0 then
            (let utc = u - off in
             if utc < start \<or> utc \<ge> end' then u - zone_offset loc utc else utc)
          else u) * second"

definition parse_window ::
  "(string \<Rightarrow> location option) \<Rightarrow> CutoffWindow \<Rightarrow> window_error + location \<times> int \<times> int" where
  "parse_window LoadLocation w =
     (case LoadLocation (cw_TZ w) of
        None \<Rightarrow> Inl (InvalidTimezone (cw_TZ w))
      | Some loc \<Rightarrow>
          (case parseTOD (cw_Open w) of
             Inl (TodFormat s) \<Rightarrow> Inl (OpenFormat s)
           | Inl (TodRange s) \<Rightarrow> Inl (OpenRange s)
           | Inr open' \<Rightarrow>
               (case parseTOD (cw_Close w) of
                  Inl (TodFormat s) \<Rightarrow> Inl (CloseFormat s)
                | Inl (TodRange s) \<Rightarrow> Inl (CloseRange s)
                | Inr close' \<Rightarrow> Inr (loc, open', close'))))"

definition IsInWindow ::
  "(string \<Rightarrow> location option) \<Rightarrow> CutoffWindow \<Rightarrow> int \<Rightarrow> window_error + bool" where
  "IsInWindow LoadLocation w t =
     (case parse_window LoadLocation w of
        Inl e \<Rightarrow> Inl e
      | Inr (loc, open', close') \<Rightarrow>
          (let now = timeOfDay loc t in
           if open' \<le> close' then Inr (now \<ge> open' \<and> now < close')
           else Inr (now \<ge> open' \<or> now < close')))"

definition NextOpen ::
  "(string \<Rightarrow> location option) \<Rightarrow> CutoffWindow \<Rightarrow> int \<Rightarrow> window_error + int" where
  "NextOpen LoadLocation w t =
     (case parse_window LoadLocation w of
        Inl e \<Rightarrow> Inl e
      | Inr (loc, open', close') \<Rightarrow>
          (let nowTOD = timeOfDay loc t;
               openToday = date_in loc (local_sec loc t div 86400 * 86400 + open' * 60)
           in if open' \<le> close' then
                (if nowTOD < open' then Inr openToday else Inr (openToday + 24 * hour))
              else Inr openToday))"

subsection \<open>Lemmas on times of day\<close>

lemma parseTOD_bounds: "parseTOD s = Inr n \<Longrightarrow> 0 \<le> n \<and> n < 1440"
  by (auto simp: parseTOD_def split: if_splits option.splits prod.splits)

text \<open>The zero-padded form of an hour or a minute.\<close>

definition two_digits :: "nat \<Rightarrow> string" where
  "two_digits n = [char_of (48 + n div 10), char_of (48 + n mod 10)]"

lemma is_digit_not_special:
  assumes "is_digit c"
  shows "c \<noteq> CHR 0x0A" "c \<notin> {CHR 0x09, CHR 0x0B, CHR 0x0C, CHR 0x0D, CHR 0x20}"
    "c \<noteq> CHR ''-''" "c \<noteq> CHR ''+''"
  using assms by (auto simp: is_digit_def)

lemma scan_int_two_digits:
  assumes "n < 100" and "r = [] \<or> \<not> is_digit (hd r)"
  shows "scan_int (two_digits n @ r) = Some (int n, r)"
proof -
  have d: "n div 10 < 10" "n mod 10 < 10" using assms(1) by auto
  note nd = is_digit_not_special [OF digit_char(2) [OF d(1)]]
  have tw: "takeWhile is_digit r = []" "dropWhile is_digit r = r"
    using assms(2) by (cases r; auto)+
  have "skip_blanks (two_digits n @ r) = Some (two_digits n @ r)"
    using nd by (simp add: two_digits_def)
  moreover have "take_sign (two_digits n @ r) = (1, two_digits n @ r)"
    using nd by (simp add: take_sign_def two_digits_def)
  moreover have "takeWhile is_digit (two_digits n @ r) = two_digits n"
    "dropWhile is_digit (two_digits n @ r) = r"
    using d tw by (simp_all add: two_digits_def)
  moreover have "read_nat (two_digits n) = n"
    using d by (simp add: read_nat_def two_digits_def)
  ultimately show ?thesis by (simp add: scan_int_def two_digits_def)
qed

lemma parseTOD_two_digits:
  assumes "h < 24" and "m < 60"
  shows "parseTOD (two_digits h @ CHR '':'' # two_digits m) = Inr (int h * 60 + int m)"
proof -
  have h: "scan_int (two_digits h @ CHR '':'' # two_digits m) = Some (int h, CHR '':'' # two_digits m)"
    using assms by (intro scan_int_two_digits) (auto simp: is_digit_def)
  have m: "scan_int (two_digits m) = Some (int m, [])"
    using scan_int_two_digits [of m "[]"] assms by simp
  have "sscanf_tod (two_digits h @ CHR '':'' # two_digits m) = Some (int h, int m)"
    using h m by (simp add: sscanf_tod_def)
  then show ?thesis
    using assms by (simp add: parseTOD_def two_digits_def)
qed

lemma timeOfDay_minutes: "timeOfDay loc t = (local_sec loc t mod 86400) div 60"
proof -
  define s where "s = local_sec loc t"
  define r where "r = s mod 86400"
  have "s mod 3600 = r mod 3600"
    unfolding r_def by (simp add: mod_mod_cancel)
  moreover have "r div 60 = (r mod 3600 + (r div 3600 * 60) * 60) div 60"
    using div_mult_mod_eq [of r 3600] by (simp add: algebra_simps)
  moreover have "\<dots> = r div 3600 * 60 + r mod 3600 div 60"
    by (subst div_mult_self1) simp_all
  ultimately show ?thesis by (simp add: timeOfDay_def s_def [symmetric] r_def [symmetric])
qed

lemma timeOfDay_bounds: "0 \<le> timeOfDay loc t \<and> timeOfDay loc t < 1440"
  unfolding timeOfDay_minutes by auto

lemma circular_distance:
  fixes x a :: int
  assumes "0 \<le> x" "x < n" "0 \<le> a" "a < n"
  shows "(x - a) mod n = (if a \<le> x then x - a else x - a + n)"
proof (cases "a \<le> x")
  case False
  have "(x - a) mod n = (x - a + n) mod n" by simp
  also have "\<dots> = x - a + n" using assms False by (intro mod_pos_pos_trivial) auto
  finally show ?thesis using False by simp
qed (use assms in simp)

lemma circular_interval:
  fixes x a b :: int
  assumes "0 \<le> x" "x < 1440" "0 \<le> a" "a < 1440" "0 \<le> b" "b < 1440"
  shows "(x - a) mod 1440 < (b - a) mod 1440 \<longleftrightarrow>
    (if a \<le> b then a \<le> x \<and> x < b else a \<le> x \<or> x < b)"
  using assms by (auto simp: circular_distance)

lemma parse_window_bounds:
  assumes "parse_window ll w = Inr (loc, a, b)"
  shows "0 \<le> a \<and> a < 1440 \<and> 0 \<le> b \<and> b < 1440"
  using assms parseTOD_bounds
  by (fastforce simp: parse_window_def split: option.splits sum.splits tod_error.splits)

lemma IsInWindow_circular:
  assumes "parse_window ll w = Inr (loc, a, b)"
  shows "IsInWindow ll w t = Inr ((timeOfDay loc t - a) mod 1440 < (b - a) mod 1440)"
  using assms parse_window_bounds [OF assms] timeOfDay_bounds [of loc t]
  by (simp add: IsInWindow_def circular_interval Let_def)

subsection \<open>The next opening in a zone with a fixed offset\<close>

definition fixed_zone :: "location \<Rightarrow> int \<Rightarrow> bool" where
  "fixed_zone loc off \<longleftrightarrow> (\<forall>u. zone_offset loc u = off)"

definition in_window :: "int \<Rightarrow> int \<Rightarrow> int \<Rightarrow> bool" where
  "in_window a b m \<longleftrightarrow> (if a \<le> b then a \<le> m \<and> m < b else a \<le> m \<or> m < b)"

lemma IsInWindow_in_window:
  assumes "parse_window ll w = Inr (loc, a, b)"
  shows "IsInWindow ll w t = Inr (in_window a b (timeOfDay loc t))"
  using assms by (simp add: IsInWindow_def in_window_def Let_def)

lemma date_in_fixed:
  assumes "fixed_zone loc off"
  shows "date_in loc u = (u - off) * second"
proof -
  obtain start end' where "loc u = (off, start, end')"
    using assms by (metis fixed_zone_def prod.collapse zone_offset_def)
  then show ?thesis
    using assms by (auto simp: date_in_def fixed_zone_def Let_def)
qed

lemma day_minute:
  fixes D y :: int
  assumes "0 \<le> y" "y < 86400"
  shows "(D * 86400 + y) mod 86400 div 60 = y div 60"
  using assms by simp

text \<open>No minute between a closed instant of day \<open>D\<close> and the opening is in the window.\<close>

lemma closed_until_open_today:
  assumes "\<not> in_window a b (y div 60)" "y div 60 < a" "a < 1440"
    and "0 \<le> y" "D * 86400 + y \<le> z" "z < D * 86400 + a * 60"
  shows "\<not> in_window a b (z mod 86400 div 60)"
proof -
  define y' where "y' = z - D * 86400"
  have y': "y \<le> y'" "y' < a * 60" using assms by (auto simp: y'_def)
  have "z mod 86400 div 60 = y' div 60"
    using day_minute [of y' D] y' assms(3,4) by (simp add: y'_def)
  moreover have "y div 60 \<le> y' div 60" "y' div 60 < a"
    using y' by (auto intro: zdiv_mono1)
  ultimately show ?thesis using assms(1,2) by (auto simp: in_window_def split: if_splits)
qed

lemma closed_until_open_tomorrow:
  assumes "a \<le> b" "b \<le> y div 60" "a < 1440"
    and "0 \<le> y" "y < 86400" "D * 86400 + y \<le> z" "z < (D + 1) * 86400 + a * 60"
  shows "\<not> in_window a b (z mod 86400 div 60)"
proof (cases "z < (D + 1) * 86400")
  case True
  define y' where "y' = z - D * 86400"
  have y': "y \<le> y'" "y' < 86400" using assms True by (auto simp: y'_def)
  have "z mod 86400 div 60 = y' div 60"
    using day_minute [of y' D] y' assms(4) by (simp add: y'_def)
  moreover have "y div 60 \<le> y' div 60" using y' by (auto intro: zdiv_mono1)
  ultimately show ?thesis using assms(1,2) by (simp add: in_window_def)
next
  case False
  define y' where "y' = z - (D + 1) * 86400"
  have y': "0 \<le> y'" "y' < a * 60" using assms False by (auto simp: y'_def)
  have "z mod 86400 div 60 = y' div 60"
    using day_minute [of y' "D + 1"] y' assms(3) by (simp add: y'_def)
  then show ?thesis using assms(1) y' by (simp add: in_window_def)
qed

lemma window_opens:
  assumes "0 \<le> a" "a < 1440" "a \<noteq> b"
  shows "in_window a b ((D * 86400 + a * 60) mod 86400 div 60)"
  using assms day_minute [of "a * 60" D] by (simp add: in_window_def)

text \<open>The local second at which the window opens next, seen from the local second \<open>s\<close>.\<close>

definition next_open_sec :: "int \<Rightarrow> int \<Rightarrow> int \<Rightarrow> int" where
  "next_open_sec a b s =
     (if a \<le> b \<and> a \<le> s mod 86400 div 60 then (s div 86400 + 1) * 86400 + a * 60
      else s div 86400 * 86400 + a * 60)"

lemma next_open_sec_correct:
  assumes ab: "0 \<le> a" "a < 1440" "a \<noteq> b"
    and out: "\<not> in_window a b (s mod 86400 div 60)"
  shows "s < next_open_sec a b s" "in_window a b (next_open_sec a b s mod 86400 div 60)"
    and "s \<le> z \<Longrightarrow> z < next_open_sec a b s \<Longrightarrow> \<not> in_window a b (z mod 86400 div 60)"
proof -
  define D y where "D = s div 86400" and "y = s mod 86400"
  have s: "s = D * 86400 + y" "0 \<le> y" "y < 86400" by (auto simp: D_def y_def)
  have late: "a \<le> y div 60 \<Longrightarrow> a \<le> b \<and> b \<le> y div 60"
    using out by (auto simp: in_window_def y_def split: if_splits)
  show "in_window a b (next_open_sec a b s mod 86400 div 60)"
    unfolding next_open_sec_def
    using window_opens [OF ab, of "s div 86400 + 1"] window_opens [OF ab, of "s div 86400"]
    by presburger
  show "s < next_open_sec a b s"
  proof (cases "a \<le> y div 60")
    case True
    with s late ab(1) show ?thesis
      by (auto simp: next_open_sec_def D_def [symmetric] y_def [symmetric])
  next
    case False
    then have "y < a * 60" by linarith
    with False s show ?thesis by (auto simp: next_open_sec_def D_def [symmetric] y_def [symmetric])
  qed
  assume z: "s \<le> z" "z < next_open_sec a b s"
  show "\<not> in_window a b (z mod 86400 div 60)"
  proof (cases "a \<le> y div 60")
    case True
    with late z s ab show ?thesis
      by (intro closed_until_open_tomorrow [of a b y D])
        (auto simp: next_open_sec_def D_def [symmetric] y_def [symmetric])
  next
    case False
    with z s ab out show ?thesis
      by (intro closed_until_open_today [of a b y D])
        (auto simp: next_open_sec_def D_def [symmetric] y_def [symmetric])
  qed
qed

lemma second_pos [simp]: "0 < second"
  by (simp add: go_defs)

lemma second_nonzero [simp]: "second \<noteq> 0"
  by (simp add: go_defs)

lemma unix_sec_mult [simp]: "unix_sec (k * second) = k"
  by (simp add: unix_sec_def)

lemma less_mult_second: "t < k * second \<longleftrightarrow> unix_sec t < k"
  unfolding unix_sec_def by (simp add: go_defs) linarith

lemma day_hours: "hour = second * 3600"
  by (simp add: go_defs)

lemma NextOpen_fixed:
  assumes pw: "parse_window ll w = Inr (loc, a, b)" and fz: "fixed_zone loc off"
    and out: "IsInWindow ll w t = Inr False"
  shows "NextOpen ll w t = Inr ((next_open_sec a b (local_sec loc t) - off) * second)"
proof -
  have "in_window a b (timeOfDay loc t) = False"
    using out IsInWindow_in_window [OF pw] by simp
  then show ?thesis
    using pw
    by (auto simp: NextOpen_def date_in_fixed [OF fz] next_open_sec_def timeOfDay_minutes day_hours
        Let_def in_window_def algebra_simps split: if_splits)
qed

lemma NextOpen_first:
  assumes pw: "parse_window ll w = Inr (loc, a, b)" and fz: "fixed_zone loc off" and ab: "a \<noteq> b"
    and out: "IsInWindow ll w t = Inr False"
  shows "\<exists>t'. NextOpen ll w t = Inr t' \<and> t < t' \<and> IsInWindow ll w t' = Inr True \<and>
    (\<forall>u. t \<le> u \<and> u < t' \<longrightarrow> IsInWindow ll w u = Inr False)"
proof -
  define n where "n = next_open_sec a b (local_sec loc t)"
  have ls: "local_sec loc u = unix_sec u + off" for u
    using fz by (simp add: local_sec_def fixed_zone_def)
  have ab': "0 \<le> a" "a < 1440" using parse_window_bounds [OF pw] by auto
  have iw: "IsInWindow ll w u = Inr (in_window a b (local_sec loc u mod 86400 div 60))" for u
    using IsInWindow_in_window [OF pw] by (simp add: timeOfDay_minutes)
  then have "\<not> in_window a b (local_sec loc t mod 86400 div 60)" using out by simp
  note nos = next_open_sec_correct [OF ab' ab this, folded n_def]
  have "t < (n - off) * second" using nos(1) by (simp add: less_mult_second ls)
  moreover have "IsInWindow ll w ((n - off) * second) = Inr True"
    using nos(2) by (simp add: iw ls)
  moreover have "IsInWindow ll w u = Inr False" if "t \<le> u" "u < (n - off) * second" for u
    using nos(3) [of "local_sec loc u"] that
    by (simp add: iw ls less_mult_second unix_sec_def zdiv_mono1)
  ultimately show ?thesis
    using NextOpen_fixed [OF pw fz out] by (auto simp: n_def)
qed

subsection \<open>Properties\<close>

text \<open>A zone at a fixed offset, as \<open>time.FixedZone\<close> builds it.\<close>

definition demo_zone :: "string \<Rightarrow> location option" where
  "demo_zone tz = (if tz = ''UTC'' then Some (\<lambda>_. (0, - (2 ^ 63), 2 ^ 63)) else None)"

lemma demo_zone_fixed: "fixed_zone (\<lambda>_. (0, - (2 ^ 63), 2 ^ 63)) 0"
  by (simp add: fixed_zone_def zone_offset_def)

lemma two_digits_eval:
  "two_digits 0 = ''00''" "two_digits 8 = ''08''" "two_digits 17 = ''17''" "two_digits 23 = ''23''"
  "two_digits 59 = ''59''"
  by code_simp+

lemma demo_window:
  "parse_window demo_zone \<lparr>cw_Open = ''08:00'', cw_Close = ''17:00'', cw_TZ = ''UTC''\<rparr> =
     Inr (\<lambda>_. (0, - (2 ^ 63), 2 ^ 63), 480, 1020)"
proof -
  have "parseTOD (two_digits 8 @ CHR '':'' # two_digits 0) = Inr 480"
    "parseTOD (two_digits 17 @ CHR '':'' # two_digits 0) = Inr 1020"
    by (subst parseTOD_two_digits; simp)+
  then have "parseTOD ''08:00'' = Inr 480" "parseTOD ''17:00'' = Inr 1020"
    by (simp_all add: two_digits_eval)
  then show ?thesis by (simp add: parse_window_def demo_zone_def)
qed

text \<open>
  A cutoff window is one circular interval of the day: whether it opens before it closes
  or crosses midnight, an instant is inside iff the minutes since the opening, modulo a day,
  are fewer than the length of the window modulo a day.
\<close>

theorem window_is_circular_interval:
  assumes "parse_window ll w = Inr (loc, a, b)"
  shows "IsInWindow ll w t = Inr ((timeOfDay loc t - a) mod 1440 < (b - a) mod 1440)"
  using assms by (rule IsInWindow_circular)

theorem window_is_circular_interval_witness:
  "IsInWindow demo_zone \<lparr>cw_Open = ''08:00'', cw_Close = ''17:00'', cw_TZ = ''UTC''\<rparr> (9 * hour) = Inr True"
  using window_is_circular_interval [OF demo_window, of "9 * hour"]
  by (simp add: timeOfDay_def local_sec_def zone_offset_def unix_sec_def duration_defs)

text \<open>
  In a zone with a fixed offset, for an instant outside a window that is not empty,
  \<open>NextOpen\<close> returns a later instant at which the window is open, and the window is closed
  at every instant in between.
\<close>

theorem next_open_is_first_opening:
  assumes "parse_window ll w = Inr (loc, a, b)" "fixed_zone loc off" "a \<noteq> b" "IsInWindow ll w t = Inr False"
  shows "\<exists>t'. NextOpen ll w t = Inr t' \<and> t < t' \<and> IsInWindow ll w t' = Inr True \<and>
    (\<forall>u. t \<le> u \<and> u < t' \<longrightarrow> IsInWindow ll w u = Inr False)"
  using assms by (rule NextOpen_first)

theorem next_open_is_first_opening_witness:
  "\<exists>t'. NextOpen demo_zone \<lparr>cw_Open = ''08:00'', cw_Close = ''17:00'', cw_TZ = ''UTC''\<rparr> (18 * hour) = Inr t' \<and>
     18 * hour < t' \<and> IsInWindow demo_zone \<lparr>cw_Open = ''08:00'', cw_Close = ''17:00'', cw_TZ = ''UTC''\<rparr> t' = Inr True"
proof -
  have "IsInWindow demo_zone \<lparr>cw_Open = ''08:00'', cw_Close = ''17:00'', cw_TZ = ''UTC''\<rparr> (18 * hour) = Inr False"
    using IsInWindow_in_window [OF demo_window, of "18 * hour"]
    by (simp add: in_window_def timeOfDay_def local_sec_def zone_offset_def unix_sec_def duration_defs)
  from next_open_is_first_opening [OF demo_window demo_zone_fixed _ this] show ?thesis by auto
qed

end
