(* ===== verification/Audit_Log.thy ===== *)
theory Audit_Log
  imports Schema Json
begin

text \<open>
  The audit log (\<open>internal/audit/log.go\<close>): entries chained by the hash of their JSON
  form. \<open>digest\<close> stands for the hex form of SHA-256 and is a parameter of every
  definition that hashes. A persistent backend is an interface whose result \<open>Append\<close>
  ignores; the log records the calls of \<open>AuditAppend\<close> made on it. The locale
  \<open>hash_chain\<close> carries the argument that a verified chain determines its entries from
  its root; the log and the exported file are its two clients.
\<close>

subsection \<open>Entries and the log\<close>

definition DecisionAllow :: string where "DecisionAllow = ''ALLOW''"
definition DecisionDeny :: string where "DecisionDeny = ''DENY''"
definition DecisionDuplicate :: string where "DecisionDuplicate = ''DUPLICATE''"
definition DecisionDummy :: string where "DecisionDummy = ''ALLOW/DUMMY''"
definition DecisionSettlementFinal :: string where "DecisionSettlementFinal = ''SETTLEMENT/FINAL''"

lemmas decision_defs = DecisionAllow_def DecisionDeny_def DecisionDuplicate_def DecisionDummy_def
  DecisionSettlementFinal_def
declare decision_defs [cfg_defs]

record audit_Entry =
  ae_Seq :: "64 word"
  ae_Timestamp :: int
  ae_Decision :: string
  ae_Reason :: string
  ae_TrustTier :: "32 word"
  ae_SenderRegion :: string
  ae_RecipientRegion :: string
  ae_PolicyVersion :: string
  ae_Profile :: string
  ae_ApplicableLaw :: string
  ae_DedupTTLHours :: "64 word"
  ae_NodeScope :: string
  ae_AllianceID :: string
  ae_NodeRegion :: string
  ae_SchemaType :: string
  ae_SchemaVersion :: string
  ae_RetainLong :: bool
  ae_SettlementFinal :: bool
  ae_PreviousHash :: string
  ae_EntryHash :: string

text \<open>The row that goes to the persistent store (\<open>store.AuditEntry\<close>).\<close>

record store_AuditEntry =
  sa_Seq :: "64 word"
  sa_TimestampUnixMS :: int
  sa_Decision :: string
  sa_SenderRegion :: string
  sa_RecipientRegion :: string
  sa_PolicyVersion :: string
  sa_Profile :: string
  sa_ApplicableLaw :: string
  sa_Reason :: string
  sa_SchemaType :: string
  sa_SchemaVersion :: string
  sa_RetainLong :: bool
  sa_SettlementFinal :: bool

record audit_Log =
  lg_entries :: "audit_Entry list"
  lg_root :: string
  lg_backend :: "store_AuditEntry list option" \<comment> \<open>\<open>None\<close>: no backend; else the rows sent to it\<close>

definition zeroHash :: string where
  "zeroHash = ''sha256:'' @ replicate 64 (CHR ''0'')"

definition audit_New :: audit_Log where
  "audit_New = \<lparr>lg_entries = [], lg_root = zeroHash, lg_backend = None\<rparr>"

definition SetStore :: "audit_Log \<Rightarrow> audit_Log" where
  "SetStore l = l\<lparr>lg_backend := Some []\<rparr>"

subsection \<open>Hashing\<close>

definition opt_str :: "string \<Rightarrow> string \<Rightarrow> (string \<times> jval) list" where
  "opt_str k s = (if s = '''' then [] else [(k, JStr s)])"

definition opt_true :: "string \<Rightarrow> bool \<Rightarrow> (string \<times> jval) list" where
  "opt_true k b = (if b then [(k, JBool True)] else [])"

definition payload_fields :: "audit_Entry \<Rightarrow> (string \<times> jval) list" where
  "payload_fields e =
     [(''seq'', JNum (uint (ae_Seq e))), (''timestamp'', JNum (ae_Timestamp e)),
      (''decision'', JStr (ae_Decision e))] @
     opt_str ''reason'' (ae_Reason e) @
     [(''trust_tier'', JNum (uint (ae_TrustTier e))), (''sender_region'', JStr (ae_SenderRegion e)),
      (''recipient_region'', JStr (ae_RecipientRegion e)), (''policy_version'', JStr (ae_PolicyVersion e)),
      (''profile'', JStr (ae_Profile e)), (''applicable_law'', JStr (ae_ApplicableLaw e)),
      (''dedup_ttl_hours'', JNum (uint (ae_DedupTTLHours e))), (''node_scope'', JStr (ae_NodeScope e)),
      (''alliance_id'', JStr (ae_AllianceID e)), (''node_region'', JStr (ae_NodeRegion e))] @
     opt_str ''schema_type'' (ae_SchemaType e) @ opt_str ''schema_version'' (ae_SchemaVersion e) @
     opt_true ''retain_long'' (ae_RetainLong e) @ opt_true ''settlement_final'' (ae_SettlementFinal e) @
     [(''previous_hash'', JStr (ae_PreviousHash e))]"

definition hashEntry :: "(string \<Rightarrow> string) \<Rightarrow> audit_Entry \<Rightarrow> string" where
  "hashEntry digest e = ''sha256:'' @ digest (json_obj (payload_fields e))"

subsection \<open>Appending and reading\<close>

definition toStoreEntry :: "audit_Entry \<Rightarrow> store_AuditEntry" where
  "toStoreEntry e =
     \<lparr>sa_Seq = ae_Seq e, sa_TimestampUnixMS = ae_Timestamp e, sa_Decision = ae_Decision e,
      sa_SenderRegion = ae_SenderRegion e, sa_RecipientRegion = ae_RecipientRegion e,
      sa_PolicyVersion = ae_PolicyVersion e, sa_Profile = ae_Profile e,
      sa_ApplicableLaw = ae_ApplicableLaw e, sa_Reason = ae_Reason e, sa_SchemaType = ae_SchemaType e,
      sa_SchemaVersion = ae_SchemaVersion e, sa_RetainLong = ae_RetainLong e,
      sa_SettlementFinal = ae_SettlementFinal e\<rparr>"

definition fromStoreEntry :: "store_AuditEntry \<Rightarrow> audit_Entry" where
  "fromStoreEntry e =
     \<lparr>ae_Seq = sa_Seq e, ae_Timestamp = sa_TimestampUnixMS e, ae_Decision = sa_Decision e,
      ae_Reason = sa_Reason e, ae_TrustTier = 0, ae_SenderRegion = sa_SenderRegion e,
      ae_RecipientRegion = sa_RecipientRegion e, ae_PolicyVersion = sa_PolicyVersion e,
      ae_Profile = sa_Profile e, ae_ApplicableLaw = sa_ApplicableLaw e, ae_DedupTTLHours = 0,
      ae_NodeScope = '''', ae_AllianceID = '''', ae_NodeRegion = '''', ae_SchemaType = sa_SchemaType e,
      ae_SchemaVersion = sa_SchemaVersion e, ae_RetainLong = sa_RetainLong e,
      ae_SettlementFinal = sa_SettlementFinal e, ae_PreviousHash = '''', ae_EntryHash = ''''\<rparr>"

definition appendEntry ::
  "(string \<Rightarrow> string) \<Rightarrow> int \<Rightarrow> Config \<Rightarrow> string \<Rightarrow> string \<Rightarrow> 32 word \<Rightarrow> string \<Rightarrow> string \<Rightarrow> string \<Rightarrow> string \<Rightarrow>
   bool \<Rightarrow> bool \<Rightarrow> audit_Log \<Rightarrow> audit_Entry \<times> audit_Log" where
  "appendEntry digest now cfg decision reason trustTier senderRegion recipientRegion schemaType
     schemaVersion retainLong settlementFinal l =
     (let e = \<lparr>ae_Seq = of_nat (length (lg_entries l) + 1), ae_Timestamp = unix_milli now,
               ae_Decision = decision, ae_Reason = reason, ae_TrustTier = trustTier,
               ae_SenderRegion = senderRegion, ae_RecipientRegion = recipientRegion,
               ae_PolicyVersion = nc_PolicyVersion (cfg_Node cfg), ae_Profile = pf_Name (cfg_Profile cfg),
               ae_ApplicableLaw = nc_ApplicableLaw (cfg_Node cfg),
               ae_DedupTTLHours = of_int (go_div (pf_DedupTTL (cfg_Profile cfg)) hour),
               ae_NodeScope = nc_NodeScope (cfg_Node cfg), ae_AllianceID = nc_AllianceID (cfg_Node cfg),
               ae_NodeRegion = nc_Region (cfg_Node cfg), ae_SchemaType = schemaType,
               ae_SchemaVersion = schemaVersion, ae_RetainLong = retainLong,
               ae_SettlementFinal = settlementFinal, ae_PreviousHash = lg_root l, ae_EntryHash = ''''\<rparr>;
          e' = e\<lparr>ae_EntryHash := hashEntry digest e\<rparr>
      in (e', \<lparr>lg_entries = lg_entries l @ [e'], lg_root = ae_EntryHash e',
               lg_backend = map_option (\<lambda>rows. rows @ [toStoreEntry e']) (lg_backend l)\<rparr>))"

definition Append ::
  "(string \<Rightarrow> string) \<Rightarrow> int \<Rightarrow> Config \<Rightarrow> string \<Rightarrow> string \<Rightarrow> 32 word \<Rightarrow> string \<Rightarrow> string \<Rightarrow> string \<Rightarrow> string \<Rightarrow>
   audit_Log \<Rightarrow> audit_Entry \<times> audit_Log" where
  "Append digest now cfg decision reason trustTier senderRegion recipientRegion schemaType schemaVersion l =
     (let retainLong = schemaType = Iso20022 \<or> iso_RetainLong (sr_Iso20022 (cfg_SchemaRegistry cfg)) in
      appendEntry digest now cfg decision reason trustTier senderRegion recipientRegion schemaType
        schemaVersion retainLong False l)"

definition AppendFinality ::
  "(string \<Rightarrow> string) \<Rightarrow> int \<Rightarrow> Config \<Rightarrow> string \<Rightarrow> string \<Rightarrow> string \<Rightarrow> audit_Log \<Rightarrow> audit_Entry \<times> audit_Log" where
  "AppendFinality digest now cfg senderRegion recipientRegion schemaVersion l =
     appendEntry digest now cfg DecisionSettlementFinal ''ISO20022_SETTLEMENT_FINAL'' 0 senderRegion
       recipientRegion Iso20022 schemaVersion True True l"

definition RootHash :: "audit_Log \<Rightarrow> string" where
  "RootHash l = lg_root l"

definition audit_Entries :: "audit_Log \<Rightarrow> audit_Entry list" where
  "audit_Entries l = lg_entries l"

text \<open>\<open>latest\<close> is what \<open>backend.AuditLatest\<close> answers, an error or rows.\<close>

definition Recent :: "(int \<Rightarrow> string + store_AuditEntry list) \<Rightarrow> int \<Rightarrow> audit_Log \<Rightarrow> audit_Entry list" where
  "Recent latest n l =
     (let mem = (if n \<le> 0 \<or> length (lg_entries l) = 0 then []
                 else let n' = (if n > int (length (lg_entries l)) then int (length (lg_entries l)) else n)
                      in map (\<lambda>i. lg_entries l ! (length (lg_entries l) - 1 - i)) [0 ..< nat n'])
      in if lg_backend l \<noteq> None then
           (case latest n of
              Inr rows \<Rightarrow> if length rows > 0 then map fromStoreEntry rows else mem
            | Inl _ \<Rightarrow> mem)
         else mem)"

subsection \<open>Verification\<close>

datatype verify_error =
    PreviousHashMismatch nat | EntryHashMismatch nat | EmptyLogRootMismatch | RootHashMismatch

text \<open>The loop shared by \<open>Verify\<close> and \<open>VerifyFile\<close>: \<open>i\<close> counts entries from 1.\<close>

fun verify_entries :: "(string \<Rightarrow> string) \<Rightarrow> nat \<Rightarrow> string \<Rightarrow> audit_Entry list \<Rightarrow> verify_error option" where
  "verify_entries digest i expectedPrev [] = None"
| "verify_entries digest i expectedPrev (e # es) =
     (if ae_PreviousHash e \<noteq> expectedPrev then Some (PreviousHashMismatch i)
      else if hashEntry digest e \<noteq> ae_EntryHash e then Some (EntryHashMismatch i)
      else verify_entries digest (Suc i) (ae_EntryHash e) es)"

definition Verify :: "(string \<Rightarrow> string) \<Rightarrow> audit_Log \<Rightarrow> verify_error option" where
  "Verify digest l =
     (case verify_entries digest 1 zeroHash (lg_entries l) of
        Some err \<Rightarrow> Some err
      | None \<Rightarrow>
          if length (lg_entries l) = 0 \<and> lg_root l \<noteq> zeroHash then Some EmptyLogRootMismatch
          else if length (lg_entries l) > 0 \<and> lg_root l \<noteq> ae_EntryHash (last (lg_entries l))
            then Some RootHashMismatch
          else None)"

text \<open>\<open>VerifyFile\<close> after the file has been decoded to its entries.\<close>

definition VerifyFile :: "(string \<Rightarrow> string) \<Rightarrow> audit_Entry list \<Rightarrow> verify_error + string" where
  "VerifyFile digest es =
     (case verify_entries digest 1 zeroHash es of
        Some err \<Rightarrow> Inl err
      | None \<Rightarrow> if length es = 0 then Inr zeroHash else Inr (ae_EntryHash (last es)))"

subsection \<open>Hash chains\<close>

text \<open>
  A chain of items, each naming the hash of its predecessor. The hash function is
  only assumed not to collide on the admissible items and never to yield the initial
  value on them.
\<close>

locale hash_chain =
  fixes hash :: "'e \<Rightarrow> string"
    and prev :: "'e \<Rightarrow> string"
    and own :: "'e \<Rightarrow> string"
    and seal :: "string \<Rightarrow> 'e \<Rightarrow> 'e"
    and init :: string
  assumes seal_prev: "prev (seal p e) = p"
    and seal_own: "own (seal p e) = hash (seal p e)"
begin

fun chain :: "string \<Rightarrow> 'e list \<Rightarrow> bool" where
  "chain p [] = True"
| "chain p (e # es) = (prev e = p \<and> own e = hash e \<and> chain (own e) es)"

definition tip :: "'e list \<Rightarrow> string" where
  "tip es = (if es = [] then init else own (last es))"

lemma chain_snoc: "chain p (es @ [e]) \<longleftrightarrow> chain p es \<and> prev e = (if es = [] then p else own (last es)) \<and> own e = hash e"
  by (induction es arbitrary: p) auto

lemma tip_snoc [simp]: "tip (es @ [e]) = own e"
  by (simp add: tip_def)

lemma chain_extend: "chain init es \<Longrightarrow> chain init (es @ [seal (tip es) e])"
  by (auto simp: chain_snoc tip_def seal_prev seal_own)

text \<open>The tip of a chain determines the chain.\<close>

lemma tip_determines:
  assumes "chain init es" "chain init es'" "tip es = tip es'"
    and nz: "\<And>e. e \<in> set es \<union> set es' \<Longrightarrow> hash e \<noteq> init"
    and inj: "\<And>e e'. e \<in> set es \<Longrightarrow> e' \<in> set es' \<Longrightarrow> hash e = hash e' \<Longrightarrow> own e = own e' \<Longrightarrow> e = e'"
  shows "es = es'"
  using assms
proof (induction es arbitrary: es' rule: rev_induct)
  case Nil
  show ?case
  proof (cases es' rule: rev_cases)
    case (snoc xs x)
    with Nil show ?thesis by (auto simp: chain_snoc tip_def)
  qed simp
next
  case (snoc e es)
  show ?case
  proof (cases es' rule: rev_cases)
    case Nil
    with snoc.prems show ?thesis by (auto simp: chain_snoc tip_def)
  next
    case es': (snoc xs x)
    have own: "own e = own x" "own e = hash e" "own x = hash x"
      using snoc.prems es' by (simp_all add: chain_snoc)
    then have "e = x" using snoc.prems(5) [of e x] es' by simp
    moreover have "tip es = tip xs"
      using snoc.prems es' \<open>e = x\<close> by (simp add: chain_snoc tip_def split: if_splits)
    ultimately show ?thesis
      using snoc.IH [of xs] snoc.prems es' by (auto simp: chain_snoc)
  qed
qed

end

text \<open>The hash of an entry does not depend on its own hash field.\<close>

lemma hashEntry_own [simp]: "hashEntry digest (e\<lparr>ae_EntryHash := h\<rparr>) = hashEntry digest e"
  by (simp add: hashEntry_def payload_fields_def)

definition seal_entry :: "(string \<Rightarrow> string) \<Rightarrow> string \<Rightarrow> audit_Entry \<Rightarrow> audit_Entry" where
  "seal_entry digest p e =
     e\<lparr>ae_PreviousHash := p, ae_EntryHash := hashEntry digest (e\<lparr>ae_PreviousHash := p\<rparr>)\<rparr>"

interpretation achain: hash_chain "hashEntry digest" ae_PreviousHash ae_EntryHash "seal_entry digest" zeroHash
  for digest
  by unfold_locales (simp_all add: seal_entry_def)

subsection \<open>The log is a chain\<close>

lemma verify_entries_chain: "verify_entries digest i p es = None \<longleftrightarrow> achain.chain digest p es"
  by (induction digest i p es rule: verify_entries.induct) auto

lemma VerifyFile_iff:
  "VerifyFile digest es = Inr r \<longleftrightarrow> achain.chain digest zeroHash es \<and> r = achain.tip es"
  using verify_entries_chain [of digest 1 zeroHash es]
  by (cases "verify_entries digest 1 zeroHash es") (auto simp: VerifyFile_def achain.tip_def)

lemma Verify_iff:
  "Verify digest l = None \<longleftrightarrow> achain.chain digest zeroHash (lg_entries l) \<and> lg_root l = achain.tip (lg_entries l)"
  using verify_entries_chain [of digest 1 zeroHash "lg_entries l"]
  by (cases "verify_entries digest 1 zeroHash (lg_entries l)") (auto simp: Verify_def achain.tip_def)

definition numbered :: "audit_Entry list \<Rightarrow> bool" where
  "numbered es \<longleftrightarrow> (\<forall>i < length es. ae_Seq (es ! i) = of_nat (i + 1))"

definition log_inv :: "(string \<Rightarrow> string) \<Rightarrow> audit_Log \<Rightarrow> bool" where
  "log_inv digest l \<longleftrightarrow> Verify digest l = None \<and> numbered (lg_entries l)"

lemma log_inv_New [simp]: "log_inv digest audit_New"
  by (simp add: log_inv_def Verify_def audit_New_def numbered_def)

lemma numbered_snoc: "numbered (es @ [e]) \<longleftrightarrow> numbered es \<and> ae_Seq e = of_nat (length es + 1)"
  by (auto simp: numbered_def nth_append less_Suc_eq)

lemma appendEntry_shape:
  assumes "appendEntry digest now cfg d r tt sr rr st sv rl sf l = (e, l')"
  shows "lg_entries l' = lg_entries l @ [e]" "lg_root l' = ae_EntryHash e"
    "ae_PreviousHash e = lg_root l" "ae_EntryHash e = hashEntry digest e"
    "ae_Seq e = of_nat (length (lg_entries l) + 1)" "ae_Decision e = d" "ae_Reason e = r"
    "ae_TrustTier e = tt" "ae_SenderRegion e = sr" "ae_RecipientRegion e = rr" "ae_SchemaType e = st"
    "ae_SchemaVersion e = sv" "ae_RetainLong e = rl" "ae_SettlementFinal e = sf"
    "ae_Profile e = pf_Name (cfg_Profile cfg)"
    "ae_PolicyVersion e = nc_PolicyVersion (cfg_Node cfg)"
    "ae_ApplicableLaw e = nc_ApplicableLaw (cfg_Node cfg)"
    "lg_backend l' = map_option (\<lambda>rows. rows @ [toStoreEntry e]) (lg_backend l)"
    "e = seal_entry digest (lg_root l) e"
  using assms
  by (auto simp: appendEntry_def Let_def seal_entry_def hashEntry_def payload_fields_def)

lemma appendEntry_inv:
  assumes "log_inv digest l" "appendEntry digest now cfg d r tt sr rr st sv rl sf l = (e, l')"
  shows "log_inv digest l'"
proof -
  note sh = appendEntry_shape [OF assms(2)]
  have c: "achain.chain digest zeroHash (lg_entries l)" "lg_root l = achain.tip (lg_entries l)"
    using assms(1) by (simp_all add: log_inv_def Verify_iff)
  then have "achain.chain digest zeroHash (lg_entries l @ [e])"
    using achain.chain_extend [of digest "lg_entries l" e] sh(19) by simp
  then show ?thesis
    using assms(1) sh(1,2,5) by (simp add: log_inv_def Verify_iff numbered_snoc)
qed

lemma Append_inv [simp]:
  "log_inv digest l \<Longrightarrow> log_inv digest (snd (Append digest now cfg d r tt sr rr st sv l))"
  by (metis Append_def appendEntry_inv surjective_pairing)

lemma AppendFinality_inv [simp]:
  "log_inv digest l \<Longrightarrow> log_inv digest (snd (AppendFinality digest now cfg sr rr sv l))"
  by (metis AppendFinality_def appendEntry_inv surjective_pairing)

lemma Append_entries:
  "lg_entries (snd (Append digest now cfg d r tt sr rr st sv l)) =
     lg_entries l @ [fst (Append digest now cfg d r tt sr rr st sv l)]"
  by (simp add: Append_def appendEntry_def Let_def)

lemma Append_fields:
  "ae_Decision (fst (Append digest now cfg d r tt sr rr st sv l)) = d"
  "ae_Reason (fst (Append digest now cfg d r tt sr rr st sv l)) = r"
  "ae_TrustTier (fst (Append digest now cfg d r tt sr rr st sv l)) = tt"
  "ae_SenderRegion (fst (Append digest now cfg d r tt sr rr st sv l)) = sr"
  "ae_RecipientRegion (fst (Append digest now cfg d r tt sr rr st sv l)) = rr"
  "ae_SchemaType (fst (Append digest now cfg d r tt sr rr st sv l)) = st"
  "ae_RetainLong (fst (Append digest now cfg d r tt sr rr st sv l)) \<longleftrightarrow>
     st = Iso20022 \<or> iso_RetainLong (sr_Iso20022 (cfg_SchemaRegistry cfg))"
  by (simp_all add: Append_def appendEntry_def Let_def)

lemma AppendFinality_entries:
  "lg_entries (snd (AppendFinality digest now cfg sr rr sv l)) =
     lg_entries l @ [fst (AppendFinality digest now cfg sr rr sv l)]"
  "ae_Decision (fst (AppendFinality digest now cfg sr rr sv l)) = DecisionSettlementFinal"
  "ae_RetainLong (fst (AppendFinality digest now cfg sr rr sv l))"
  "ae_SettlementFinal (fst (AppendFinality digest now cfg sr rr sv l))"
  by (simp_all add: AppendFinality_def appendEntry_def Let_def)

subsection \<open>What the hash covers\<close>

definition entry_valid :: "audit_Entry \<Rightarrow> bool" where
  "entry_valid e \<longleftrightarrow> jfields_valid (payload_fields e)"

lemma payload_lookup:
  "map_of (payload_fields e) ''seq'' = Some (JNum (uint (ae_Seq e)))"
  "map_of (payload_fields e) ''timestamp'' = Some (JNum (ae_Timestamp e))"
  "map_of (payload_fields e) ''decision'' = Some (JStr (ae_Decision e))"
  "map_of (payload_fields e) ''trust_tier'' = Some (JNum (uint (ae_TrustTier e)))"
  "map_of (payload_fields e) ''sender_region'' = Some (JStr (ae_SenderRegion e))"
  "map_of (payload_fields e) ''recipient_region'' = Some (JStr (ae_RecipientRegion e))"
  "map_of (payload_fields e) ''policy_version'' = Some (JStr (ae_PolicyVersion e))"
  "map_of (payload_fields e) ''profile'' = Some (JStr (ae_Profile e))"
  "map_of (payload_fields e) ''applicable_law'' = Some (JStr (ae_ApplicableLaw e))"
  "map_of (payload_fields e) ''dedup_ttl_hours'' = Some (JNum (uint (ae_DedupTTLHours e)))"
  "map_of (payload_fields e) ''node_scope'' = Some (JStr (ae_NodeScope e))"
  "map_of (payload_fields e) ''alliance_id'' = Some (JStr (ae_AllianceID e))"
  "map_of (payload_fields e) ''node_region'' = Some (JStr (ae_NodeRegion e))"
  "map_of (payload_fields e) ''previous_hash'' = Some (JStr (ae_PreviousHash e))"
  "map_of (payload_fields e) ''reason'' = (if ae_Reason e = '''' then None else Some (JStr (ae_Reason e)))"
  "map_of (payload_fields e) ''schema_type'' = (if ae_SchemaType e = '''' then None else Some (JStr (ae_SchemaType e)))"
  "map_of (payload_fields e) ''schema_version'' = (if ae_SchemaVersion e = '''' then None else Some (JStr (ae_SchemaVersion e)))"
  "map_of (payload_fields e) ''retain_long'' = (if ae_RetainLong e then Some (JBool True) else None)"
  "map_of (payload_fields e) ''settlement_final'' = (if ae_SettlementFinal e then Some (JBool True) else None)"
  unfolding payload_fields_def opt_str_def opt_true_def by simp_all

lemma payload_fields_inject:
  assumes "payload_fields e = payload_fields e'" "ae_EntryHash e = ae_EntryHash e'"
  shows "e = e'"
proof -
  have eq: "map_of (payload_fields e) k = map_of (payload_fields e') k" for k
    by (simp only: assms(1))
  have req: "(uint (ae_Seq e)) = (uint (ae_Seq e'))"
    "(ae_Timestamp e) = (ae_Timestamp e')"
    "(ae_Decision e) = (ae_Decision e')"
    "(uint (ae_TrustTier e)) = (uint (ae_TrustTier e'))"
    "(ae_SenderRegion e) = (ae_SenderRegion e')"
    "(ae_RecipientRegion e) = (ae_RecipientRegion e')"
    "(ae_PolicyVersion e) = (ae_PolicyVersion e')"
    "(ae_Profile e) = (ae_Profile e')"
    "(ae_ApplicableLaw e) = (ae_ApplicableLaw e')"
    "(uint (ae_DedupTTLHours e)) = (uint (ae_DedupTTLHours e'))"
    "(ae_NodeScope e) = (ae_NodeScope e')"
    "(ae_AllianceID e) = (ae_AllianceID e')"
    "(ae_NodeRegion e) = (ae_NodeRegion e')"
    "(ae_PreviousHash e) = (ae_PreviousHash e')"
    using eq [of "''seq''"] eq [of "''timestamp''"] eq [of "''decision''"] eq [of "''trust_tier''"] eq [of "''sender_region''"] eq [of "''recipient_region''"] eq [of "''policy_version''"] eq [of "''profile''"] eq [of "''applicable_law''"] eq [of "''dedup_ttl_hours''"] eq [of "''node_scope''"] eq [of "''alliance_id''"] eq [of "''node_region''"] eq [of "''previous_hash''"]
    by (simp_all only: payload_lookup option.inject jval.inject)
  have opt: "ae_Reason e = ae_Reason e'" "ae_SchemaType e = ae_SchemaType e'"
    "ae_SchemaVersion e = ae_SchemaVersion e'" "ae_RetainLong e = ae_RetainLong e'"
    "ae_SettlementFinal e = ae_SettlementFinal e'"
    using eq [of "''reason''"] eq [of "''schema_type''"] eq [of "''schema_version''"] eq [of "''retain_long''"] eq [of "''settlement_final''"]
    by (simp_all add: payload_lookup split: if_splits)
  show ?thesis
    using req opt assms(2) by (intro audit_Entry.equality) (simp_all add: word_uint_eq_iff)
qed

lemma hashEntry_inject:
  assumes "hashEntry digest e = hashEntry digest e'" "ae_EntryHash e = ae_EntryHash e'"
    and "entry_valid e" "entry_valid e'"
    and "inj_on digest S" "json_obj (payload_fields e) \<in> S" "json_obj (payload_fields e') \<in> S"
  shows "e = e'"
proof -
  have "json_obj (payload_fields e) = json_obj (payload_fields e')"
    using assms(1,5-7) by (auto simp: hashEntry_def dest: inj_onD)
  then have "payload_fields e = payload_fields e'"
    using assms(3,4) by (auto simp: entry_valid_def intro: json_obj_inject)
  then show ?thesis using assms(2) by (rule payload_fields_inject)
qed

subsection \<open>Properties\<close>

text \<open>
  C7. Tamper evidence. Two exported logs that \<open>VerifyFile\<close> accepts with the same root hash
  are equal entry by entry, provided the digest has no collision on the entries of the two
  logs and yields no entry the hash that starts the chain.
\<close>

theorem same_root_same_log:
  assumes "VerifyFile digest es = Inr r" "VerifyFile digest es' = Inr r"
    and "\<forall>e \<in> set es \<union> set es'. entry_valid e \<and> hashEntry digest e \<noteq> zeroHash"
    and "inj_on digest ((\<lambda>e. json_obj (payload_fields e)) ` (set es \<union> set es'))"
  shows "es = es'"
proof (rule achain.tip_determines)
  show "achain.chain digest zeroHash es" "achain.chain digest zeroHash es'" "achain.tip es = achain.tip es'"
    using assms(1,2) by (auto simp: VerifyFile_iff)
  show "hashEntry digest e \<noteq> zeroHash" if "e \<in> set es \<union> set es'" for e
    using assms(3) that by blast
  show "e = e'" if "e \<in> set es" "e' \<in> set es'" "hashEntry digest e = hashEntry digest e'"
    "ae_EntryHash e = ae_EntryHash e'" for e e'
    using hashEntry_inject [OF that(3,4) _ _ assms(4)] assms(3) that by blast
qed

definition demo_log :: audit_Log where
  "demo_log = snd (Append (\<lambda>s. s) 0 DefaultBalancedConfig DecisionAllow ''ok'' 1 ''RS'' ''RU'' '''' '''' audit_New)"

theorem same_root_same_log_witness:
  "\<exists>r. VerifyFile (\<lambda>s. s) (lg_entries demo_log) = Inr r \<and>
     (\<forall>es'. VerifyFile (\<lambda>s. s) es' = Inr r \<longrightarrow> set es' \<subseteq> set (lg_entries demo_log) \<longrightarrow> es' = lg_entries demo_log)"
proof -
  have "log_inv (\<lambda>s. s) demo_log" by (simp add: demo_log_def)
  then obtain r where r: "VerifyFile (\<lambda>s. s) (lg_entries demo_log) = Inr r"
    by (metis VerifyFile_iff Verify_iff log_inv_def)
  have h: "hashEntry (\<lambda>s. s) e \<noteq> zeroHash" for e
    by (auto simp: hashEntry_def zeroHash_def json_obj_def dest!: arg_cong [where f = hd])
  have "entry_valid e" if "e \<in> set (lg_entries demo_log)" for e
    using that
    by (auto simp: demo_log_def Append_def appendEntry_def audit_New_def Let_def entry_valid_def jfields_valid_def
        jval_valid_def payload_fields_def opt_str_def opt_true_def zeroHash_def cfg_defs is_ascii_def
        intro!: utf8_valid_ascii)
  note v = this h
  have "es' = lg_entries demo_log" if "VerifyFile (\<lambda>s. s) es' = Inr r" "set es' \<subseteq> set (lg_entries demo_log)" for es'
    by (rule same_root_same_log [OF that(1) r]) (use v that(2) in \<open>auto simp: inj_on_def\<close>)
  then show ?thesis using r by blast
qed

text \<open>Without a backend \<open>Recent\<close> lists the last entries, newest first.\<close>

lemma recent_newest_first:
  assumes "lg_backend l = None"
  shows "Recent latest n l = take (nat n) (rev (lg_entries l))"
proof (cases "n \<le> 0 \<or> lg_entries l = []")
  case True
  then show ?thesis using assms by (auto simp: Recent_def)
next
  case False
  then show ?thesis using assms
    by (intro nth_equalityI) (auto simp: Recent_def Let_def rev_nth split: if_splits)
qed

end
