(* ===== verification/Crl.thy ===== *)
theory Crl
  imports Prelude
begin

text \<open>
  The certificate revocation list (\<open>internal/crl/store.go\<close>): a map from node ids to
  entries that collect distinct signatures; a node is revoked once two distinct
  signatures are known. The lemmas show that the store only grows, that revocation is
  never taken back, and that merging is a join: two stores that exchange their entries
  agree on every node's signatures, whatever the visiting order of the maps.
\<close>

record crl_Entry =
  crl_NodeID :: string
  crl_Reason :: string
  crl_RevokedAt :: int
  crl_Signatures :: "string list"

type_synonym crl_store = "string \<rightharpoonup> crl_Entry"

definition crl_New :: crl_store where "crl_New = Map.empty"

definition Revoke :: "int \<Rightarrow> string \<Rightarrow> string \<Rightarrow> string \<Rightarrow> crl_store \<Rightarrow> crl_store" where
  "Revoke now nodeID reason sig s =
     (let e = (case s nodeID of
                 Some e \<Rightarrow> e
               | None \<Rightarrow> \<lparr>crl_NodeID = nodeID, crl_Reason = reason, crl_RevokedAt = now,
                          crl_Signatures = []\<rparr>)
      in if sig \<in> set (crl_Signatures e) then s(nodeID \<mapsto> e)
         else s(nodeID \<mapsto> e\<lparr>crl_Signatures := crl_Signatures e @ [sig]\<rparr>))"

definition IsRevoked :: "crl_store \<Rightarrow> string \<Rightarrow> bool" where
  "IsRevoked s nodeID = (case s nodeID of None \<Rightarrow> False | Some e \<Rightarrow> length (crl_Signatures e) \<ge> 2)"

definition crl_Entries :: "string list \<Rightarrow> crl_store \<Rightarrow> crl_Entry list" where
  "crl_Entries ks s = List.map_filter s ks"

text \<open>\<open>Merge\<close> calls \<open>Revoke\<close>, which reads the clock, for each signature of each entry.\<close>

fun revoke_all :: "(nat \<Rightarrow> int) \<Rightarrow> (string \<times> string \<times> string) list \<Rightarrow> crl_store \<Rightarrow> crl_store" where
  "revoke_all clk [] s = s"
| "revoke_all clk ((n, r, sg) # xs) s = revoke_all (\<lambda>i. clk (Suc i)) xs (Revoke (clk 0) n r sg s)"

definition Merge :: "(nat \<Rightarrow> int) \<Rightarrow> crl_Entry list \<Rightarrow> crl_store \<Rightarrow> crl_store" where
  "Merge clk es s =
     revoke_all clk
       (concat (map (\<lambda>e. map (\<lambda>sg. (crl_NodeID e, crl_Reason e, sg)) (crl_Signatures e)) es)) s"

subsection \<open>Invariant and abstraction\<close>

definition crl_inv :: "crl_store \<Rightarrow> bool" where
  "crl_inv s \<longleftrightarrow> (\<forall>n e. s n = Some e \<longrightarrow> crl_NodeID e = n \<and> distinct (crl_Signatures e))"

definition sigs :: "crl_store \<Rightarrow> string \<Rightarrow> string set" where
  "sigs s n = (case s n of None \<Rightarrow> {} | Some e \<Rightarrow> set (crl_Signatures e))"

lemma crl_inv_New [simp]: "crl_inv crl_New"
  by (simp add: crl_inv_def crl_New_def)

lemma crl_inv_Revoke [simp]: "crl_inv s \<Longrightarrow> crl_inv (Revoke now n r sg s)"
  by (auto simp: crl_inv_def Revoke_def Let_def split: option.splits)

lemma crl_inv_revoke_all [simp]: "crl_inv s \<Longrightarrow> crl_inv (revoke_all clk xs s)"
  by (induction clk xs s rule: revoke_all.induct) auto

lemma crl_inv_Merge [simp]: "crl_inv s \<Longrightarrow> crl_inv (Merge clk es s)"
  by (simp add: Merge_def)

lemma IsRevoked_sigs: "crl_inv s \<Longrightarrow> IsRevoked s n \<longleftrightarrow> 2 \<le> card (sigs s n)"
  by (auto simp: IsRevoked_def sigs_def crl_inv_def distinct_card split: option.splits)

lemma sigs_finite [simp]: "finite (sigs s n)"
  by (simp add: sigs_def split: option.split)

lemma sigs_Revoke [simp]: "sigs (Revoke now n r sg s) m = (if m = n then insert sg (sigs s n) else sigs s m)"
  by (auto simp: sigs_def Revoke_def Let_def split: option.splits)

lemma sigs_revoke_all:
  "sigs (revoke_all clk xs s) n = sigs s n \<union> {sg. \<exists>r. (n, r, sg) \<in> set xs}"
  by (induction clk xs s rule: revoke_all.induct) auto

lemma sigs_Merge:
  "sigs (Merge clk es s) n = sigs s n \<union> (\<Union>e \<in> {e \<in> set es. crl_NodeID e = n}. set (crl_Signatures e))"
  unfolding Merge_def sigs_revoke_all by fastforce

lemma IsRevoked_mono:
  assumes "crl_inv s" "crl_inv s'" "\<And>n. sigs s n \<subseteq> sigs s' n" "IsRevoked s n"
  shows "IsRevoked s' n"
  using assms by (meson IsRevoked_sigs card_mono le_trans sigs_finite)

lemma sigs_entries:
  assumes "crl_inv t" "enumerates ks t"
  shows "(\<Union>e \<in> {e \<in> set (crl_Entries ks t). crl_NodeID e = n}. set (crl_Signatures e)) = sigs t n"
proof -
  have "set (crl_Entries ks t) = {e. \<exists>k \<in> set ks. t k = Some e}"
    by (auto simp: crl_Entries_def List.map_filter_def image_iff) force
  also have "\<dots> = ran t" using assms(2) by (auto simp: enumerates_def ran_def)
  finally show ?thesis
    using assms(1) by (auto simp: ran_def sigs_def crl_inv_def split: option.splits)
qed

text \<open>Merging the entries of another store is the join of the signature sets.\<close>

lemma Merge_join:
  assumes "crl_inv t" "enumerates ks t"
  shows "sigs (Merge clk (crl_Entries ks t) s) n = sigs s n \<union> sigs t n"
  using sigs_entries [OF assms] by (simp add: sigs_Merge)

subsection \<open>Properties\<close>

text \<open>
  C27. A node counts as revoked exactly when two distinct signatures were received for it:
  after merging any list of entries into a store, the signatures of a node are the ones it
  had together with the ones the entries carry, and it is revoked iff these are at least two.
\<close>

theorem revoked_iff_two_signatures:
  assumes "crl_inv s"
  shows "IsRevoked (Merge clk es s) n \<longleftrightarrow>
    2 \<le> card (sigs s n \<union> (\<Union>e \<in> {e \<in> set es. crl_NodeID e = n}. set (crl_Signatures e)))"
  using IsRevoked_sigs [OF crl_inv_Merge [OF assms]] by (simp only: sigs_Merge)

theorem revoked_iff_two_signatures_witness:
  "crl_inv crl_New \<and>
   IsRevoked (Merge (\<lambda>_. 0) [\<lparr>crl_NodeID = ''n'', crl_Reason = '''', crl_RevokedAt = 0, crl_Signatures = [''a'', ''b'']\<rparr>]
     crl_New) ''n''"
  using revoked_iff_two_signatures [OF crl_inv_New, of "\<lambda>_. 0"
      "[\<lparr>crl_NodeID = ''n'', crl_Reason = '''', crl_RevokedAt = 0, crl_Signatures = [''a'', ''b'']\<rparr>]" "''n''"]
    crl_inv_New
  by (simp add: sigs_def crl_New_def cong: conj_cong)

end
