(* ===== verification/Policy.thy ===== *)
theory Policy
  imports Audit_Log Crl
begin

text \<open>
  The policy engine (\<open>internal/policy/engine.go\<close>). An engine holds its configuration and
  two pointers that may be nil, to the audit log and to the revocation list: both are
  options here, and \<open>Evaluate\<close> returns the engine with the extended log. The lemmas give
  the decision as one declarative predicate, \<open>policy_allows\<close>, and show that every
  evaluation, whatever its branch, appends exactly one entry with its result.
\<close>

subsection \<open>Requests, results, engine\<close>

record policy_Request =
  pr_SenderNodeID :: string
  pr_SenderRegion :: string
  pr_RecipientRegion :: string
  pr_TrustTier :: "32 word"
  pr_SchemaType :: string
  pr_SchemaVersion :: string

record policy_Result =
  res_Decision :: string
  res_Reason :: string
  res_Profile :: string

record policy_Engine =
  en_cfg :: Config
  en_audit :: "audit_Log option"
  en_crl :: "crl_store option"

record policy_DiscoveryRequest =
  dr_OriginAppID :: string
  dr_NodeAppID :: string

definition ReasonTrustTierBelowMinimum :: string where
  "ReasonTrustTierBelowMinimum = ''TRUST_TIER_BELOW_MINIMUM''"
definition ReasonAppIsolationViolation :: string where
  "ReasonAppIsolationViolation = ''APP_ISOLATION_VIOLATION''"
definition ReasonJurisdictionIsolationTier :: string where
  "ReasonJurisdictionIsolationTier = ''JURISDICTION_ISOLATION_TIER_DENIED''"
definition ReasonJurisdictionIsolationRegion :: string where
  "ReasonJurisdictionIsolationRegion = ''JURISDICTION_ISOLATION_REGION_DENIED''"
definition ReasonJurisdictionIsolationProfile :: string where
  "ReasonJurisdictionIsolationProfile = ''JURISDICTION_ISOLATION_PROFILE_MISMATCH''"
definition ReasonHl7FhirNonRegionalNode :: string where
  "ReasonHl7FhirNonRegionalNode = ''HL7FHIR_NON_REGIONAL_NODE''"
definition ReasonHl7FhirRequiresStrictProfile :: string where
  "ReasonHl7FhirRequiresStrictProfile = ''HL7FHIR_REQUIRES_STRICT_PROFILE''"
definition ReasonEdifactNodeTierDenied :: string where
  "ReasonEdifactNodeTierDenied = ''EDIFACT_NODE_TIER_DENIED''"
definition ReasonEdifactRequiresBalancedProfile :: string where
  "ReasonEdifactRequiresBalancedProfile = ''EDIFACT_REQUIRES_BALANCED_PROFILE''"

lemmas reason_defs = ReasonTrustTierBelowMinimum_def ReasonAppIsolationViolation_def
  ReasonJurisdictionIsolationTier_def ReasonJurisdictionIsolationRegion_def
  ReasonJurisdictionIsolationProfile_def ReasonHl7FhirNonRegionalNode_def
  ReasonHl7FhirRequiresStrictProfile_def ReasonEdifactNodeTierDenied_def
  ReasonEdifactRequiresBalancedProfile_def
declare reason_defs [cfg_defs]

definition deny :: "Config \<Rightarrow> string \<Rightarrow> policy_Result" where
  "deny cfg reason =
     \<lparr>res_Decision = DecisionDeny, res_Reason = reason, res_Profile = pf_Name (cfg_Profile cfg)\<rparr>"

definition accept :: "Config \<Rightarrow> string \<Rightarrow> policy_Result" where
  "accept cfg reason =
     \<lparr>res_Decision = DecisionAllow, res_Reason = reason, res_Profile = pf_Name (cfg_Profile cfg)\<rparr>"

definition NewEngine ::
  "string list \<Rightarrow> Config \<Rightarrow> audit_Log option \<Rightarrow> crl_store option \<Rightarrow> config_error + policy_Engine" where
  "NewEngine ks cfg al cs =
     (case Validate ks cfg of
        Some e \<Rightarrow> Inl e
      | None \<Rightarrow> Inr \<lparr>en_cfg = cfg, en_audit = al, en_crl = cs\<rparr>)"

definition Reload :: "string list \<Rightarrow> Config \<Rightarrow> policy_Engine \<Rightarrow> config_error option \<times> policy_Engine" where
  "Reload ks cfg e =
     (case Validate ks cfg of
        Some err \<Rightarrow> (Some err, e)
      | None \<Rightarrow> (None, e\<lparr>en_cfg := cfg\<rparr>))"

subsection \<open>The schema-specific checks\<close>

text \<open>Each check returns the denial, or \<open>None\<close> when the envelope may proceed.\<close>

definition enforceHl7FhirPolicy :: "Config \<Rightarrow> policy_Result option" where
  "enforceHl7FhirPolicy cfg =
     (if nc_NodeScope (cfg_Node cfg) \<noteq> ''regional'' then Some (deny cfg ReasonHl7FhirNonRegionalNode)
      else if \<not> equal_fold (pf_Name (cfg_Profile cfg)) ''strict''
        then Some (deny cfg ReasonHl7FhirRequiresStrictProfile)
      else None)"

definition enforceEdifactDefaults :: "Config \<Rightarrow> policy_Result option" where
  "enforceEdifactDefaults cfg =
     (let scope = nc_NodeScope (cfg_Node cfg) in
      if scope \<noteq> ''regional'' \<and> scope \<noteq> ''alliance'' then Some (deny cfg ReasonEdifactNodeTierDenied)
      else let profile = to_lower (pf_Name (cfg_Profile cfg)) in
      if profile \<noteq> ''balanced'' \<and> profile \<noteq> ''strict''
        then Some (deny cfg ReasonEdifactRequiresBalancedProfile)
      else None)"

fun hasIsolationRule_loop :: "JurisdictionIsolationRule list \<Rightarrow> string \<Rightarrow> bool" where
  "hasIsolationRule_loop [] schemaType = False"
| "hasIsolationRule_loop (r # rs) schemaType =
     (if ji_SchemaType r = schemaType then True else hasIsolationRule_loop rs schemaType)"

definition hasIsolationRule :: "Config \<Rightarrow> string \<Rightarrow> bool" where
  "hasIsolationRule cfg schemaType = hasIsolationRule_loop (pol_Rules (cfg_Policy cfg)) schemaType"

fun isolation_loop ::
  "Config \<Rightarrow> policy_Request \<Rightarrow> string \<Rightarrow> JurisdictionIsolationRule list \<Rightarrow> policy_Result option" where
  "isolation_loop cfg req schemaType [] = None"
| "isolation_loop cfg req schemaType (rule # rules) =
     (if ji_SchemaType rule \<noteq> schemaType then isolation_loop cfg req schemaType rules
      else if length (ji_AllowTiers rule) > 0 \<and> nc_NodeScope (cfg_Node cfg) \<notin> set (ji_AllowTiers rule)
        then Some (deny cfg ReasonJurisdictionIsolationTier)
      else if length (ji_AllowJurisdictions rule) > 0 \<and>
              (pr_SenderRegion req \<notin> set (ji_AllowJurisdictions rule) \<or>
               pr_RecipientRegion req \<notin> set (ji_AllowJurisdictions rule))
        then Some (deny cfg ReasonJurisdictionIsolationRegion)
      else if ji_RequireProfile rule \<noteq> '''' \<and>
              \<not> equal_fold (pf_Name (cfg_Profile cfg)) (ji_RequireProfile rule)
        then Some (deny cfg ReasonJurisdictionIsolationProfile)
      else None)"

definition evaluateJurisdictionIsolation :: "Config \<Rightarrow> policy_Request \<Rightarrow> policy_Result option" where
  "evaluateJurisdictionIsolation cfg req =
     (let rules = pol_Rules (cfg_Policy cfg) in
      if length rules = 0 then None
      else isolation_loop cfg req (Normalize (pr_SchemaType req)) rules)"

subsection \<open>Evaluation\<close>

definition appendAudit ::
  "(string \<Rightarrow> string) \<Rightarrow> int \<Rightarrow> Config \<Rightarrow> policy_Result \<Rightarrow> policy_Request \<Rightarrow> audit_Log option \<Rightarrow> audit_Log option" where
  "appendAudit digest now cfg result req al =
     (case al of
        None \<Rightarrow> None
      | Some l \<Rightarrow> Some (snd (Append digest now cfg (res_Decision result) (res_Reason result)
                     (pr_TrustTier req) (pr_SenderRegion req) (pr_RecipientRegion req)
                     (pr_SchemaType req) (pr_SchemaVersion req) l)))"

definition schema_checks :: "Config \<Rightarrow> policy_Request \<Rightarrow> policy_Result option" where
  "schema_checks cfg req =
     (case (if Normalize (pr_SchemaType req) = Hl7Fhir then enforceHl7FhirPolicy cfg else None) of
        Some r \<Rightarrow> Some r
      | None \<Rightarrow>
        (case (if Normalize (pr_SchemaType req) = Edifact \<and> \<not> hasIsolationRule cfg Edifact
               then enforceEdifactDefaults cfg else None) of
           Some r \<Rightarrow> Some r
         | None \<Rightarrow> evaluateJurisdictionIsolation cfg req))"

text \<open>The result of the chain of checks, in the order of the source.\<close>

definition evaluate_result :: "Config \<Rightarrow> crl_store option \<Rightarrow> policy_Request \<Rightarrow> policy_Result" where
  "evaluate_result cfg cs req =
     (if (case cs of None \<Rightarrow> False | Some s \<Rightarrow> IsRevoked s (pr_SenderNodeID req))
        then deny cfg ''NODE_REVOKED''
      else if pr_TrustTier req < pol_MinTrustTier (cfg_Policy cfg)
        then deny cfg ReasonTrustTierBelowMinimum
      else if pr_RecipientRegion req \<in> set (ob_DenyTo (pol_Outbound (cfg_Policy cfg)))
        then deny cfg ''RECIPIENT_REGION_DENIED''
      else
        let isLocalDestination = nc_Region (cfg_Node cfg) \<noteq> '''' \<and>
                                 pr_RecipientRegion req = nc_Region (cfg_Node cfg);
            allowTo = ob_AllowTo (pol_Outbound (cfg_Policy cfg))
        in if \<not> isLocalDestination \<and> length allowTo > 0 \<and> pr_RecipientRegion req \<notin> set allowTo
             then deny cfg ''RECIPIENT_REGION_NOT_IN_ALLOW_LIST''
      else case schema_checks cfg req of
        Some r \<Rightarrow> r
      | None \<Rightarrow> accept cfg ''POLICY_ACCEPTED'')"

definition Evaluate ::
  "(string \<Rightarrow> string) \<Rightarrow> int \<Rightarrow> policy_Request \<Rightarrow> policy_Engine \<Rightarrow> policy_Result \<times> policy_Engine" where
  "Evaluate digest now req e =
     (let cfg = en_cfg e; result = evaluate_result cfg (en_crl e) req
      in (result, e\<lparr>en_audit := appendAudit digest now cfg result req (en_audit e)\<rparr>))"

definition EvaluateDiscovery :: "policy_DiscoveryRequest \<Rightarrow> policy_Engine \<Rightarrow> policy_Result" where
  "EvaluateDiscovery req e =
     (let cfg = en_cfg e;
          trimmed = to_upper (trim_space (dp_AppIsolation (pol_Discovery (cfg_Policy cfg))));
          isolation = (if trimmed = '''' then ''SAME_APP_ONLY'' else trimmed);
          allowed = (if isolation = ''OPEN'' then True
                     else if isolation = ''WHITELIST''
                       then dr_OriginAppID req \<in> set (dp_AllowedAppIDs (pol_Discovery (cfg_Policy cfg)))
                     else equal_fold (dr_OriginAppID req) (dr_NodeAppID req))
      in if \<not> allowed then deny cfg ReasonAppIsolationViolation
         else accept cfg ''DISCOVERY_POLICY_ACCEPTED'')"

subsection \<open>The decision as one predicate\<close>

definition schema_of :: "policy_Request \<Rightarrow> string" where
  "schema_of req = Normalize (pr_SchemaType req)"

definition first_rule :: "Config \<Rightarrow> string \<Rightarrow> JurisdictionIsolationRule option" where
  "first_rule cfg st = find (\<lambda>r. ji_SchemaType r = st) (pol_Rules (cfg_Policy cfg))"

definition rule_admits :: "Config \<Rightarrow> policy_Request \<Rightarrow> JurisdictionIsolationRule \<Rightarrow> bool" where
  "rule_admits cfg req r \<longleftrightarrow>
     (ji_AllowTiers r = [] \<or> nc_NodeScope (cfg_Node cfg) \<in> set (ji_AllowTiers r)) \<and>
     (ji_AllowJurisdictions r = [] \<or>
        pr_SenderRegion req \<in> set (ji_AllowJurisdictions r) \<and>
        pr_RecipientRegion req \<in> set (ji_AllowJurisdictions r)) \<and>
     (ji_RequireProfile r = '''' \<or> equal_fold (pf_Name (cfg_Profile cfg)) (ji_RequireProfile r))"

definition outbound_admits :: "Config \<Rightarrow> string \<Rightarrow> bool" where
  "outbound_admits cfg region \<longleftrightarrow>
     region \<notin> set (ob_DenyTo (pol_Outbound (cfg_Policy cfg))) \<and>
     (ob_AllowTo (pol_Outbound (cfg_Policy cfg)) = [] \<or>
      region \<in> set (ob_AllowTo (pol_Outbound (cfg_Policy cfg))) \<or>
      nc_Region (cfg_Node cfg) \<noteq> '''' \<and> region = nc_Region (cfg_Node cfg))"

definition policy_allows :: "Config \<Rightarrow> crl_store option \<Rightarrow> policy_Request \<Rightarrow> bool" where
  "policy_allows cfg cs req \<longleftrightarrow>
     (\<forall>s. cs = Some s \<longrightarrow> \<not> IsRevoked s (pr_SenderNodeID req)) \<and>
     pol_MinTrustTier (cfg_Policy cfg) \<le> pr_TrustTier req \<and>
     outbound_admits cfg (pr_RecipientRegion req) \<and>
     (schema_of req = Hl7Fhir \<longrightarrow>
        nc_NodeScope (cfg_Node cfg) = ''regional'' \<and> equal_fold (pf_Name (cfg_Profile cfg)) ''strict'') \<and>
     (schema_of req = Edifact \<longrightarrow> first_rule cfg Edifact = None \<longrightarrow>
        nc_NodeScope (cfg_Node cfg) \<in> {''regional'', ''alliance''} \<and>
        to_lower (pf_Name (cfg_Profile cfg)) \<in> {''balanced'', ''strict''}) \<and>
     (\<forall>r. first_rule cfg (schema_of req) = Some r \<longrightarrow> rule_admits cfg req r)"

lemma decisions_distinct [simp]:
  "DecisionAllow \<noteq> DecisionDeny" "DecisionDeny \<noteq> DecisionAllow"
  "DecisionDuplicate \<noteq> DecisionAllow" "DecisionDuplicate \<noteq> DecisionDeny"
  "DecisionAllow \<noteq> DecisionDuplicate" "DecisionDeny \<noteq> DecisionDuplicate"
  "DecisionDummy \<noteq> DecisionAllow" "DecisionSettlementFinal \<noteq> DecisionAllow"
  by (simp_all add: decision_defs)

lemma res_simps [simp]:
  "res_Decision (deny cfg r) = DecisionDeny" "res_Reason (deny cfg r) = r"
  "res_Decision (accept cfg r) = DecisionAllow" "res_Reason (accept cfg r) = r"
  "res_Profile (deny cfg r) = pf_Name (cfg_Profile cfg)"
  "res_Profile (accept cfg r) = pf_Name (cfg_Profile cfg)"
  by (simp_all add: deny_def accept_def)

lemma hasIsolationRule_iff: "hasIsolationRule cfg st \<longleftrightarrow> first_rule cfg st \<noteq> None"
proof -
  have "hasIsolationRule_loop rs st \<longleftrightarrow> find (\<lambda>r. ji_SchemaType r = st) rs \<noteq> None" for rs
    by (induction rs) auto
  then show ?thesis by (simp add: hasIsolationRule_def first_rule_def)
qed

lemma isolation_loop_None:
  "isolation_loop cfg req st rs = None \<longleftrightarrow>
     (\<forall>r. find (\<lambda>r. ji_SchemaType r = st) rs = Some r \<longrightarrow> rule_admits cfg req r)"
  by (induction rs) (auto simp: rule_admits_def)

lemma isolation_loop_deny:
  "isolation_loop cfg req st rs = Some r \<Longrightarrow>
     res_Decision r = DecisionDeny \<and> res_Profile r = pf_Name (cfg_Profile cfg)"
  by (induction rs) (auto split: if_splits)

lemma evaluateJurisdictionIsolation_None:
  "evaluateJurisdictionIsolation cfg req = None \<longleftrightarrow>
     (\<forall>r. first_rule cfg (schema_of req) = Some r \<longrightarrow> rule_admits cfg req r)"
  by (simp add: evaluateJurisdictionIsolation_def isolation_loop_None first_rule_def schema_of_def Let_def)

lemma evaluateJurisdictionIsolation_deny:
  "evaluateJurisdictionIsolation cfg req = Some r \<Longrightarrow>
     res_Decision r = DecisionDeny \<and> res_Profile r = pf_Name (cfg_Profile cfg)"
  by (auto simp: evaluateJurisdictionIsolation_def Let_def split: if_splits dest: isolation_loop_deny)

lemma enforce_None:
  "enforceHl7FhirPolicy cfg = None \<longleftrightarrow>
     nc_NodeScope (cfg_Node cfg) = ''regional'' \<and> equal_fold (pf_Name (cfg_Profile cfg)) ''strict''"
  "enforceEdifactDefaults cfg = None \<longleftrightarrow>
     nc_NodeScope (cfg_Node cfg) \<in> {''regional'', ''alliance''} \<and>
     to_lower (pf_Name (cfg_Profile cfg)) \<in> {''balanced'', ''strict''}"
  by (auto simp: enforceHl7FhirPolicy_def enforceEdifactDefaults_def Let_def)

lemma enforce_deny:
  "enforceHl7FhirPolicy cfg = Some r \<Longrightarrow>
     res_Decision r = DecisionDeny \<and> res_Profile r = pf_Name (cfg_Profile cfg)"
  "enforceEdifactDefaults cfg = Some r \<Longrightarrow>
     res_Decision r = DecisionDeny \<and> res_Profile r = pf_Name (cfg_Profile cfg)"
  by (auto simp: enforceHl7FhirPolicy_def enforceEdifactDefaults_def Let_def split: if_splits)

lemma schema_checks_None:
  "schema_checks cfg req = None \<longleftrightarrow>
     (schema_of req = Hl7Fhir \<longrightarrow> enforceHl7FhirPolicy cfg = None) \<and>
     (schema_of req = Edifact \<longrightarrow> first_rule cfg Edifact = None \<longrightarrow> enforceEdifactDefaults cfg = None) \<and>
     evaluateJurisdictionIsolation cfg req = None"
  unfolding schema_checks_def schema_of_def hasIsolationRule_iff
  by (cases "enforceHl7FhirPolicy cfg"; cases "enforceEdifactDefaults cfg") simp_all

lemma schema_checks_deny:
  assumes "schema_checks cfg req = Some r"
  shows "res_Decision r = DecisionDeny" "res_Profile r = pf_Name (cfg_Profile cfg)"
proof -
  have "enforceHl7FhirPolicy cfg = Some r \<or> enforceEdifactDefaults cfg = Some r \<or>
      evaluateJurisdictionIsolation cfg req = Some r"
    using assms unfolding schema_checks_def by (auto split: option.splits if_splits)
  then show "res_Decision r = DecisionDeny" "res_Profile r = pf_Name (cfg_Profile cfg)"
    using enforce_deny evaluateJurisdictionIsolation_deny by blast+
qed

text \<open>The conditions tested before the schema-specific checks.\<close>

definition base_checks :: "Config \<Rightarrow> crl_store option \<Rightarrow> policy_Request \<Rightarrow> bool" where
  "base_checks cfg cs req \<longleftrightarrow>
     (\<forall>s. cs = Some s \<longrightarrow> \<not> IsRevoked s (pr_SenderNodeID req)) \<and>
     pol_MinTrustTier (cfg_Policy cfg) \<le> pr_TrustTier req \<and>
     outbound_admits cfg (pr_RecipientRegion req)"

lemma evaluate_result_pass:
  "base_checks cfg cs req \<Longrightarrow>
     evaluate_result cfg cs req =
       (case schema_checks cfg req of Some r \<Rightarrow> r | None \<Rightarrow> accept cfg ''POLICY_ACCEPTED'')"
  unfolding base_checks_def evaluate_result_def outbound_admits_def Let_def
  by (cases cs) (auto simp: not_less)

lemma evaluate_result_fail:
  "\<not> base_checks cfg cs req \<Longrightarrow> \<exists>reason. evaluate_result cfg cs req = deny cfg reason"
  unfolding base_checks_def evaluate_result_def outbound_admits_def Let_def
  by (cases cs) (auto simp: not_le)

lemma evaluate_result_allow:
  "res_Decision (evaluate_result cfg cs req) = DecisionAllow \<longleftrightarrow> policy_allows cfg cs req"
proof -
  have pa: "policy_allows cfg cs req \<longleftrightarrow> base_checks cfg cs req \<and> schema_checks cfg req = None"
    unfolding policy_allows_def base_checks_def schema_checks_None enforce_None
      evaluateJurisdictionIsolation_None by blast
  show ?thesis
  proof (cases "base_checks cfg cs req")
    case True
    then show ?thesis
      by (cases "schema_checks cfg req") (auto simp: evaluate_result_pass pa dest: schema_checks_deny)
  next
    case False
    with evaluate_result_fail [OF False] show ?thesis by (auto simp: pa)
  qed
qed

lemma evaluate_result_cases:
  "res_Decision (evaluate_result cfg cs req) = DecisionAllow \<and>
     res_Reason (evaluate_result cfg cs req) = ''POLICY_ACCEPTED'' \<or>
   res_Decision (evaluate_result cfg cs req) = DecisionDeny"
proof (cases "base_checks cfg cs req")
  case True
  then show ?thesis
    by (cases "schema_checks cfg req") (auto simp: evaluate_result_pass dest: schema_checks_deny)
next
  case False
  from evaluate_result_fail [OF False] show ?thesis by auto
qed

lemma evaluate_result_profile: "res_Profile (evaluate_result cfg cs req) = pf_Name (cfg_Profile cfg)"
proof (cases "base_checks cfg cs req")
  case True
  then show ?thesis
    by (cases "schema_checks cfg req") (auto simp: evaluate_result_pass dest: schema_checks_deny)
next
  case False
  from evaluate_result_fail [OF False] show ?thesis by auto
qed

text \<open>Evaluation changes nothing but the log, and extends it by exactly the result.\<close>

lemma Evaluate_result [simp]: "fst (Evaluate digest now req e) = evaluate_result (en_cfg e) (en_crl e) req"
  by (simp add: Evaluate_def Let_def)

lemma Evaluate_frame [simp]:
  "en_cfg (snd (Evaluate digest now req e)) = en_cfg e"
  "en_crl (snd (Evaluate digest now req e)) = en_crl e"
  by (simp_all add: Evaluate_def Let_def)

lemma Evaluate_audit:
  assumes "en_audit e = Some l"
  obtains l' a where "en_audit (snd (Evaluate digest now req e)) = Some l'"
    "lg_entries l' = lg_entries l @ [a]"
    "ae_Decision a = res_Decision (evaluate_result (en_cfg e) (en_crl e) req)"
    "ae_Reason a = res_Reason (evaluate_result (en_cfg e) (en_crl e) req)"
    "ae_SenderRegion a = pr_SenderRegion req" "ae_RecipientRegion a = pr_RecipientRegion req"
    "ae_TrustTier a = pr_TrustTier req"
  using that assms
  by (simp add: Evaluate_def appendAudit_def Let_def Append_entries Append_fields)

lemma Evaluate_log_inv:
  assumes "\<And>l. en_audit e = Some l \<Longrightarrow> log_inv digest l"
    and "en_audit (snd (Evaluate digest now req e)) = Some l'"
  shows "log_inv digest l'"
  using assms by (auto simp: Evaluate_def appendAudit_def Let_def split: option.splits)

subsection \<open>Properties\<close>

text \<open>
  C18. Every evaluation is on the record: \<open>Evaluate\<close> returns ALLOW exactly for the requests
  that the declarative policy admits and DENY for all others, appends exactly one entry with
  this decision, its reason and the request's regions to the log, keeps the log verifiable,
  and changes neither configuration nor revocation list.
\<close>

theorem evaluate_decides_and_records:
  assumes "en_audit e = Some l" "log_inv digest l"
  shows "res_Decision (fst (Evaluate digest now req e)) =
      (if policy_allows (en_cfg e) (en_crl e) req then DecisionAllow else DecisionDeny) \<and>
    (\<exists>l' a. en_audit (snd (Evaluate digest now req e)) = Some l' \<and> lg_entries l' = lg_entries l @ [a] \<and>
       ae_Decision a = res_Decision (fst (Evaluate digest now req e)) \<and>
       ae_Reason a = res_Reason (fst (Evaluate digest now req e)) \<and>
       ae_SenderRegion a = pr_SenderRegion req \<and> ae_RecipientRegion a = pr_RecipientRegion req \<and>
       log_inv digest l') \<and>
    en_cfg (snd (Evaluate digest now req e)) = en_cfg e \<and> en_crl (snd (Evaluate digest now req e)) = en_crl e"
proof -
  obtain l' a where l': "en_audit (snd (Evaluate digest now req e)) = Some l'" "lg_entries l' = lg_entries l @ [a]"
    "ae_Decision a = res_Decision (evaluate_result (en_cfg e) (en_crl e) req)"
    "ae_Reason a = res_Reason (evaluate_result (en_cfg e) (en_crl e) req)"
    "ae_SenderRegion a = pr_SenderRegion req" "ae_RecipientRegion a = pr_RecipientRegion req"
    by (rule Evaluate_audit [OF assms(1)])
  moreover have "log_inv digest l'" using Evaluate_log_inv [OF _ l'(1)] assms by simp
  ultimately show ?thesis
    using evaluate_result_allow [of "en_cfg e" "en_crl e" req] evaluate_result_cases [of "en_cfg e" "en_crl e" req]
    by auto
qed

definition demo_request :: policy_Request where
  "demo_request = \<lparr>pr_SenderNodeID = ''n1'', pr_SenderRegion = ''RS'', pr_RecipientRegion = ''RU'',
     pr_TrustTier = 1, pr_SchemaType = Hl7Fhir, pr_SchemaVersion = ''4.0.1''\<rparr>"

definition demo_engine :: policy_Engine where
  "demo_engine = \<lparr>en_cfg = DefaultConfigForProfile ''strict'', en_audit = Some audit_New, en_crl = Some crl_New\<rparr>"

theorem evaluate_decides_and_records_witness:
  "\<exists>l' a. en_audit (snd (Evaluate (\<lambda>s. s) 0 demo_request demo_engine)) = Some l' \<and> lg_entries l' = [a] \<and>
     log_inv (\<lambda>s. s) l'"
  using evaluate_decides_and_records [of demo_engine audit_New "\<lambda>s. s" 0 demo_request]
  by (auto simp: demo_engine_def audit_New_def log_inv_New [unfolded audit_New_def])

text \<open>
  The HL7 FHIR guard cannot be configured away: whatever the jurisdiction rules, the
  outbound lists and the tiers say, an engine that allows a FHIR request runs on a regional
  node under the strict profile.
\<close>

theorem hl7fhir_guard_not_relaxable:
  assumes "Normalize (pr_SchemaType req) = Hl7Fhir"
    and "res_Decision (fst (Evaluate digest now req e)) = DecisionAllow"
  shows "nc_NodeScope (cfg_Node (en_cfg e)) = ''regional'' \<and>
    equal_fold (pf_Name (cfg_Profile (en_cfg e))) ''strict''"
  using assms by (simp add: evaluate_result_allow policy_allows_def schema_of_def)

lemma demo_request_allowed: "policy_allows (en_cfg demo_engine) (en_crl demo_engine) demo_request"
proof -
  have "schema_of demo_request = Hl7Fhir" by (simp add: schema_of_def demo_request_def)
  then show ?thesis
    by (simp add: policy_allows_def demo_engine_def demo_request_def IsRevoked_def crl_New_def outbound_admits_def
        first_rule_def preset_base_def profile_strict_def DefaultConfigForProfile_def Let_def)
qed

theorem hl7fhir_guard_not_relaxable_witness:
  "res_Decision (fst (Evaluate (\<lambda>s. s) 0 demo_request demo_engine)) = DecisionAllow \<and>
   nc_NodeScope (cfg_Node (en_cfg demo_engine)) = ''regional''"
proof -
  have "res_Decision (fst (Evaluate (\<lambda>s. s) 0 demo_request demo_engine)) = DecisionAllow"
    using demo_request_allowed by (simp add: evaluate_result_allow)
  moreover have "Normalize (pr_SchemaType demo_request) = Hl7Fhir" by (simp add: demo_request_def)
  ultimately show ?thesis using hl7fhir_guard_not_relaxable by blast
qed

text \<open>
  C19. A reload is all or nothing: the engine takes over a configuration exactly when it is
  valid, and otherwise reports the error and keeps evaluating the previous one; the audit
  log and the revocation list stay.
\<close>

theorem reload_all_or_nothing:
  assumes "enumerates ks (nw_Peers (cfg_Network cfg))"
  shows "(fst (Reload ks cfg e) = None \<longleftrightarrow> config_ok cfg) \<and>
    snd (Reload ks cfg e) = (if config_ok cfg then e\<lparr>en_cfg := cfg\<rparr> else e)"
  using Validate_None_iff [OF assms] by (auto simp: Reload_def split: option.splits)

theorem reload_all_or_nothing_witness:
  "snd (Reload [] preset_base demo_engine) = demo_engine \<and> fst (Reload [] preset_base demo_engine) \<noteq> None"
proof -
  have "enumerates [] (nw_Peers (cfg_Network preset_base))" "\<not> config_ok preset_base"
    by (simp_all add: preset_base_def config_ok_def)
  then show ?thesis using reload_all_or_nothing [of "[]" preset_base demo_engine] by simp
qed

end
