(* ===== verification/Dedup.thy ===== *)
theory Dedup
  imports Prelude
begin

text \<open>
  The deduplication index (\<open>internal/dedup/index.go\<close>): idempotency keys with an expiry
  time in sixteen shards, the shard of a key chosen by its FNV-1a hash. The contract that
  the gateway and the discovery broadcaster rely on is the locale \<open>dedup_contract\<close>;
  its interpretation on the sharded index is the refinement to one map from keys to
  expiry times.
\<close>

unbundle bit_operations_syntax

subsection \<open>The sharded index\<close>

definition numShards :: nat where "numShards = 16"

record dedup_Index =
  ix_shards :: "(string \<rightharpoonup> int) list"
  ix_ttl :: int

definition dedup_New :: "int \<Rightarrow> dedup_Index" where
  "dedup_New ttl = \<lparr>ix_shards = replicate numShards Map.empty, ix_ttl = ttl\<rparr>"

text \<open>\<open>hash/fnv\<close> New32a: xor with the byte, then multiply by the FNV prime, modulo \<open>2^32\<close>.\<close>

definition fnv32a :: "string \<Rightarrow> 32 word" where
  "fnv32a key = foldl (\<lambda>h c. (h XOR of_nat (of_char c)) * 16777619) 2166136261 key"

definition shardFor :: "string \<Rightarrow> nat" where
  "shardFor key = unat (fnv32a key AND (of_nat numShards - 1))"

definition SeenOrAddWithTTL :: "int \<Rightarrow> string \<Rightarrow> int \<Rightarrow> dedup_Index \<Rightarrow> bool \<times> dedup_Index" where
  "SeenOrAddWithTTL now key ttl idx =
     (let i = shardFor key; s = ix_shards idx ! i in
      case s key of
        Some exp \<Rightarrow>
          if now < exp then (True, idx)
          else (False, idx\<lparr>ix_shards := (ix_shards idx)[i := s(key \<mapsto> now + ttl)]\<rparr>)
      | None \<Rightarrow> (False, idx\<lparr>ix_shards := (ix_shards idx)[i := s(key \<mapsto> now + ttl)]\<rparr>))"

definition SeenOrAdd :: "int \<Rightarrow> string \<Rightarrow> dedup_Index \<Rightarrow> bool \<times> dedup_Index" where
  "SeenOrAdd now key idx =
     (let i = shardFor key; s = ix_shards idx ! i in
      case s key of
        Some exp \<Rightarrow>
          if now < exp then (True, idx)
          else (False, idx\<lparr>ix_shards := (ix_shards idx)[i := s(key \<mapsto> now + ix_ttl idx)]\<rparr>)
      | None \<Rightarrow> (False, idx\<lparr>ix_shards := (ix_shards idx)[i := s(key \<mapsto> now + ix_ttl idx)]\<rparr>))"

text \<open>\<open>orders\<close> gives the visiting order of each shard.\<close>

definition dedup_Purge :: "int \<Rightarrow> string list list \<Rightarrow> dedup_Index \<Rightarrow> dedup_Index" where
  "dedup_Purge now orders idx =
     idx\<lparr>ix_shards := map2 (\<lambda>ks s. delete_if (\<lambda>exp. now > exp) ks s) orders (ix_shards idx)\<rparr>"

definition dedup_Len :: "int \<Rightarrow> string list list \<Rightarrow> dedup_Index \<Rightarrow> nat" where
  "dedup_Len now orders idx =
     sum_list (map2 (\<lambda>ks s. length (filter (\<lambda>k. case s k of Some exp \<Rightarrow> now < exp | None \<Rightarrow> False) ks))
       orders (ix_shards idx))"

subsection \<open>Invariant and abstraction\<close>

definition dedup_inv :: "dedup_Index \<Rightarrow> bool" where
  "dedup_inv idx \<longleftrightarrow>
     length (ix_shards idx) = numShards \<and>
     (\<forall>i < numShards. finite (dom (ix_shards idx ! i)) \<and> (\<forall>k \<in> dom (ix_shards idx ! i). shardFor k = i))"

definition expiry :: "dedup_Index \<Rightarrow> string \<rightharpoonup> int" where
  "expiry idx k = (ix_shards idx ! shardFor k) k"

lemma shardFor_less [simp]: "shardFor key < numShards"
proof -
  have "unat (fnv32a key AND 15) \<le> unat (15 :: 32 word)"
    by (rule word_and_le1 [THEN word_le_nat_alt [THEN iffD1]])
  then show ?thesis by (simp add: shardFor_def numShards_def)
qed

lemma dedup_inv_New [simp]: "dedup_inv (dedup_New ttl)"
  by (simp add: dedup_inv_def dedup_New_def)

lemma expiry_New [simp]: "expiry (dedup_New ttl) = Map.empty"
  by (rule ext) (simp add: expiry_def dedup_New_def)

definition put_key :: "string \<Rightarrow> int \<Rightarrow> dedup_Index \<Rightarrow> dedup_Index" where
  "put_key key exp idx =
     idx\<lparr>ix_shards := (ix_shards idx)[shardFor key := (ix_shards idx ! shardFor key)(key \<mapsto> exp)]\<rparr>"

lemma SeenOrAddWithTTL_eq:
  "SeenOrAddWithTTL now key ttl idx =
     (case expiry idx key of
        Some exp \<Rightarrow> if now < exp then (True, idx) else (False, put_key key (now + ttl) idx)
      | None \<Rightarrow> (False, put_key key (now + ttl) idx))"
  by (simp add: SeenOrAddWithTTL_def expiry_def put_key_def Let_def split: option.split)

lemma SeenOrAdd_eq_WithTTL: "SeenOrAdd now key idx = SeenOrAddWithTTL now key (ix_ttl idx) idx"
  by (simp add: SeenOrAdd_def SeenOrAddWithTTL_def)

lemma put_key_ttl [simp]: "ix_ttl (put_key key exp idx) = ix_ttl idx"
  by (simp add: put_key_def)

lemma put_key_inv [simp]: "dedup_inv idx \<Longrightarrow> dedup_inv (put_key key exp idx)"
  by (auto simp: dedup_inv_def put_key_def nth_list_update)

lemma expiry_put_key [simp]:
  "dedup_inv idx \<Longrightarrow> expiry (put_key key exp idx) = (expiry idx)(key \<mapsto> exp)"
  by (rule ext) (auto simp: dedup_inv_def expiry_def put_key_def nth_list_update)

subsection \<open>The contract of a deduplication index\<close>

text \<open>
  \<open>live s\<close> is the map from keys to expiry times a state stands for. A call with a live
  key reports a duplicate and changes nothing; any other call registers the key for its
  time to live.
\<close>

locale dedup_contract =
  fixes inv :: "'s \<Rightarrow> bool"
    and live :: "'s \<Rightarrow> string \<Rightarrow> int option"
    and seen :: "int \<Rightarrow> string \<Rightarrow> int \<Rightarrow> 's \<Rightarrow> bool \<times> 's"
  assumes seen_dup: "inv s \<Longrightarrow> live s k = Some e \<Longrightarrow> now < e \<Longrightarrow> seen now k ttl s = (True, s)"
    and seen_new: "inv s \<Longrightarrow> (\<And>e. live s k = Some e \<Longrightarrow> e \<le> now) \<Longrightarrow> \<not> fst (seen now k ttl s)"
    and seen_add: "inv s \<Longrightarrow> (\<And>e. live s k = Some e \<Longrightarrow> e \<le> now) \<Longrightarrow>
      live (snd (seen now k ttl s)) = (live s)(k \<mapsto> now + ttl)"
    and seen_inv: "inv s \<Longrightarrow> inv (snd (seen now k ttl s))"
begin

lemma seen_iff: "inv s \<Longrightarrow> fst (seen now k ttl s) \<longleftrightarrow> (\<exists>e. live s k = Some e \<and> now < e)"
  by (metis fst_conv leI seen_dup seen_new)

lemma live_kept:
  assumes "inv s" "live s k = Some e" "now < e"
  shows "live (snd (seen now k' ttl s)) k = Some e"
proof (cases "\<exists>e'. live s k' = Some e' \<and> now < e'")
  case True
  then show ?thesis using assms by (metis seen_dup snd_conv)
next
  case False
  then have "live (snd (seen now k' ttl s)) = (live s)(k' \<mapsto> now + ttl)"
    using assms(1) by (intro seen_add) force+
  moreover have "k' \<noteq> k" using False assms by auto
  ultimately show ?thesis using assms(2) by simp
qed

text \<open>A history of calls, each with its clock reading, key and time to live.\<close>

fun calls :: "(int \<times> string \<times> int) list \<Rightarrow> 's \<Rightarrow> bool list \<times> 's" where
  "calls [] s = ([], s)"
| "calls ((now, k, ttl) # cs) s =
     (case seen now k ttl s of (d, s1) \<Rightarrow> (case calls cs s1 of (ds, s2) \<Rightarrow> (d # ds, s2)))"

lemma calls_inv: "inv s \<Longrightarrow> inv (snd (calls cs s))"
proof (induction cs arbitrary: s)
  case (Cons c cs)
  then show ?case
    by (cases c) (auto split: prod.split dest: seen_inv, metis seen_inv snd_conv)
qed simp

lemma calls_kept:
  assumes "inv s" "live s k = Some e" "\<forall>(now, _, _) \<in> set cs. now < e"
  shows "live (snd (calls cs s)) k = Some e"
  using assms
proof (induction cs arbitrary: s)
  case (Cons c cs)
  obtain now k' ttl where c: "c = (now, k', ttl)" by (cases c)
  obtain d s1 where s1: "seen now k' ttl s = (d, s1)" by force
  have "now < e" using Cons.prems c by simp
  then have "live s1 k = Some e" "inv s1"
    using live_kept [OF Cons.prems(1,2)] seen_inv [OF Cons.prems(1)] s1 by (metis snd_conv)+
  then have "live (snd (calls cs s1)) k = Some e"
    using Cons.IH Cons.prems(3) by simp
  then show ?case by (auto simp: c s1 split: prod.split)
qed simp

text \<open>Once a key is registered, every later call with it before the expiry is a duplicate.\<close>

lemma duplicate_within_ttl:
  assumes "inv s" "\<not> fst (seen t k ttl s)" "\<forall>(now, _, _) \<in> set cs. now < t + ttl" "now < t + ttl"
  shows "fst (seen now k ttl' (snd (calls cs (snd (seen t k ttl s)))))"
proof -
  have "live (snd (seen t k ttl s)) k = Some (t + ttl)"
    using assms(1,2) seen_iff [OF assms(1)] by (subst seen_add) (auto simp: not_less)
  then have "live (snd (calls cs (snd (seen t k ttl s)))) k = Some (t + ttl)"
    using assms by (intro calls_kept seen_inv)
  then show ?thesis
    using assms by (simp add: seen_dup calls_inv seen_inv)
qed

end

subsection \<open>The sharded index fulfils the contract\<close>

interpretation dix: dedup_contract dedup_inv expiry SeenOrAddWithTTL
proof unfold_locales
  fix s k e now ttl
  assume "dedup_inv s" "expiry s k = Some e" "now < e"
  then show "SeenOrAddWithTTL now k ttl s = (True, s)"
    by (simp add: SeenOrAddWithTTL_eq)
next
  fix s k now ttl
  assume "dedup_inv s" "\<And>e. expiry s k = Some e \<Longrightarrow> e \<le> now"
  then show "\<not> fst (SeenOrAddWithTTL now k ttl s)"
    by (auto simp: SeenOrAddWithTTL_eq split: option.split)
next
  fix s k now ttl
  assume "dedup_inv s" "\<And>e. expiry s k = Some e \<Longrightarrow> e \<le> now"
  then show "expiry (snd (SeenOrAddWithTTL now k ttl s)) = (expiry s)(k \<mapsto> now + ttl)"
    by (auto simp: SeenOrAddWithTTL_eq split: option.split)
next
  fix s k now ttl
  assume "dedup_inv s"
  then show "dedup_inv (snd (SeenOrAddWithTTL now k ttl s))"
    by (auto simp: SeenOrAddWithTTL_eq split: option.split)
qed

lemma SeenOrAddWithTTL_ttl [simp]: "ix_ttl (snd (SeenOrAddWithTTL now k ttl idx)) = ix_ttl idx"
  by (auto simp: SeenOrAddWithTTL_eq split: option.split)

subsection \<open>Purging\<close>

definition shard_orders :: "string list list \<Rightarrow> dedup_Index \<Rightarrow> bool" where
  "shard_orders orders idx \<longleftrightarrow> list_all2 enumerates orders (ix_shards idx)"

lemma expiry_Purge:
  assumes "dedup_inv idx" "shard_orders orders idx"
  shows "expiry (dedup_Purge now orders idx) k =
    (case expiry idx k of Some e \<Rightarrow> if e < now then None else Some e | None \<Rightarrow> None)"
proof -
  have l: "length (ix_shards idx) = numShards" using assms(1) by (simp add: dedup_inv_def)
  have "length orders = numShards" "enumerates (orders ! shardFor k) (ix_shards idx ! shardFor k)"
    using assms(2) l by (auto simp: shard_orders_def list_all2_conv_all_nth)
  then show ?thesis
    using l by (simp add: expiry_def dedup_Purge_def delete_if_enum)
qed

text \<open>Purging is invisible to later calls: only keys that have expired disappear.\<close>

lemma Purge_invisible:
  assumes "dedup_inv idx" "shard_orders orders idx" "now \<le> now'"
  shows "fst (SeenOrAddWithTTL now' k ttl (dedup_Purge now orders idx)) =
    fst (SeenOrAddWithTTL now' k ttl idx)"
  using expiry_Purge [OF assms(1,2), of now k] assms(3)
  by (auto simp: SeenOrAddWithTTL_eq split: option.splits if_splits)

subsection \<open>Properties\<close>

text \<open>
  C21. The sharded index refines one map from keys to expiry times: on every index the
  operations build, \<open>SeenOrAdd\<close> reports a duplicate exactly when the key's expiry lies in
  the future, then changes nothing, and otherwise sets the expiry of that key only.
\<close>

theorem dedup_refines_map:
  assumes "dedup_inv idx"
  shows "(fst (SeenOrAdd now key idx) \<longleftrightarrow> (\<exists>e. expiry idx key = Some e \<and> now < e)) \<and>
    expiry (snd (SeenOrAdd now key idx)) =
      (if fst (SeenOrAdd now key idx) then expiry idx else (expiry idx)(key \<mapsto> now + ix_ttl idx)) \<and>
    dedup_inv (snd (SeenOrAdd now key idx))"
  using assms by (auto simp: SeenOrAdd_eq_WithTTL SeenOrAddWithTTL_eq split: option.splits)

theorem dedup_refines_map_witness:
  "dedup_inv (dedup_New 10) \<and> \<not> fst (SeenOrAdd 0 ''k'' (dedup_New 10)) \<and>
   expiry (snd (SeenOrAdd 0 ''k'' (dedup_New 10))) = [''k'' \<mapsto> 10]"
proof -
  have "ix_ttl (dedup_New 10) = 10" by (simp add: dedup_New_def)
  then show ?thesis using dedup_refines_map [OF dedup_inv_New, of 0 "''k''" 10] by simp
qed

text \<open>
  A key that was registered for \<open>ttl\<close> at time \<open>t\<close> is reported as a duplicate by every
  later call before \<open>t + ttl\<close>, whatever calls on this or other keys come between; and a
  purge of the index at an earlier time cannot be noticed by any later call.
\<close>

theorem duplicate_until_expiry:
  assumes "dedup_inv idx" "\<not> fst (SeenOrAddWithTTL t k ttl idx)"
    and "\<forall>(now, _, _) \<in> set cs. now < t + ttl" "now < t + ttl"
    and "shard_orders orders idx'" "idx' = snd (dix.calls cs (snd (SeenOrAddWithTTL t k ttl idx)))" "p \<le> now"
  shows "fst (SeenOrAddWithTTL now k ttl' idx') \<and>
    fst (SeenOrAddWithTTL now k ttl' (dedup_Purge p orders idx'))"
proof -
  have "fst (SeenOrAddWithTTL now k ttl' idx')" unfolding assms(6)
    using assms(1-4) by (rule dix.duplicate_within_ttl)
  moreover have "dedup_inv idx'"
    unfolding assms(6) using assms(1) by (intro dix.calls_inv dix.seen_inv)
  ultimately show ?thesis using Purge_invisible [OF _ assms(5,7)] by simp
qed

lemma dedup_New_orders: "shard_orders (replicate numShards []) (dedup_New ttl)"
  by (simp add: shard_orders_def dedup_New_def list_all2_conv_all_nth)

lemma put_key_orders:
  "shard_orders ((replicate numShards [])[shardFor k := [k]]) (put_key k e (dedup_New ttl))"
  by (auto simp: shard_orders_def dedup_New_def put_key_def list_all2_conv_all_nth nth_list_update enumerates_def)

theorem duplicate_until_expiry_witness:
  "fst (SeenOrAddWithTTL 9 ''k'' 10 (snd (SeenOrAddWithTTL 0 ''k'' 10 (dedup_New 10)))) \<and>
   fst (SeenOrAddWithTTL 9 ''k'' 10 (dedup_Purge 8 ((replicate numShards [])[shardFor ''k'' := [''k'']])
          (snd (SeenOrAddWithTTL 0 ''k'' 10 (dedup_New 10)))))"
  by (rule duplicate_until_expiry [of "dedup_New 10" 0 "''k''" 10 "[]"])
     (simp_all add: SeenOrAddWithTTL_eq put_key_orders)

end
