(* ===== verification/Gateway.thy ===== *)
theory Gateway
  imports Policy Dedup Envelope_Types
begin

text \<open>
  The gateway core (\<open>internal/core/gateway.go\<close>): the handler \<open>SendEnvelope\<close> and the state it
  keeps. The gateway, its policy engine and the node share one audit log and one revocation
  list by pointer; here the gateway's state holds each of them once and \<open>engine_of\<close> is the
  policy engine's view of it. The forwarder behind the \<open>Forwarder\<close> interface is a parameter:
  a function over a state of its own (\<open>None\<close> when forwarding is disabled). Callbacks and
  webhook notifications are the list of events the handler emits. The four reads of the
  clock are \<open>clk 0\<close> (deduplication), \<open>clk 1\<close> (audit), \<open>clk 2\<close> (forwarder) and \<open>clk 3\<close>
  (settlement finality); \<open>cancelled\<close> says whether the context ends during the jitter sleep.
\<close>

subsection \<open>State and messages\<close>

record SendResponse =
  rs_Decision :: string
  rs_Reason :: string
  rs_Profile :: string
  rs_NodeID :: string
  rs_AuditRootHash :: string
  rs_PeerAuditRootHash :: string

record NodeInfo =
  ni_NodeID :: string
  ni_NodeScope :: string
  ni_Region :: string
  ni_ApplicableLaw :: string
  ni_Profile :: string

datatype gateway_error = ErrEmptyIdempotencyKey

datatype gw_event = OnAllow Envelope | NotifyAll Envelope | OnDeny string | OnDuplicate

record gateway =
  gw_cfg :: Config
  gw_policyCfg :: Config \<comment> \<open>the configuration the engine evaluates, replaced by \<open>Reload\<close>\<close>
  gw_crl :: "crl_store option"
  gw_audit :: audit_Log
  gw_dedup :: dedup_Index
  gw_onAllow :: bool \<comment> \<open>whether the callback is registered\<close>
  gw_onDeny :: bool
  gw_onDuplicate :: bool
  gw_notifier :: bool

type_synonym ('e, 's) forward_fun = "int \<Rightarrow> Envelope \<Rightarrow> 's \<Rightarrow> ('e + string) \<times> 's"

definition engine_of :: "gateway \<Rightarrow> policy_Engine" where
  "engine_of g = \<lparr>en_cfg = gw_policyCfg g, en_audit = Some (gw_audit g), en_crl = gw_crl g\<rparr>"

definition put_engine :: "policy_Engine \<Rightarrow> gateway \<Rightarrow> gateway" where
  "put_engine e g =
     g\<lparr>gw_policyCfg := en_cfg e, gw_crl := en_crl e,
       gw_audit := (case en_audit e of Some l \<Rightarrow> l | None \<Rightarrow> gw_audit g)\<rparr>"

definition NewGateway :: "Config \<Rightarrow> policy_Engine \<Rightarrow> audit_Log \<Rightarrow> dedup_Index \<Rightarrow> gateway" where
  "NewGateway cfg engine auditLog dedupIndex =
     \<lparr>gw_cfg = cfg, gw_policyCfg = en_cfg engine, gw_crl = en_crl engine, gw_audit = auditLog,
      gw_dedup = dedupIndex, gw_onAllow = False, gw_onDeny = False, gw_onDuplicate = False,
      gw_notifier = False\<rparr>"

definition SetOnAllow :: "gateway \<Rightarrow> gateway" where "SetOnAllow g = g\<lparr>gw_onAllow := True\<rparr>"
definition SetOnDeny :: "gateway \<Rightarrow> gateway" where "SetOnDeny g = g\<lparr>gw_onDeny := True\<rparr>"
definition SetOnDuplicate :: "gateway \<Rightarrow> gateway" where "SetOnDuplicate g = g\<lparr>gw_onDuplicate := True\<rparr>"
definition SetNotifier :: "gateway \<Rightarrow> gateway" where "SetNotifier g = g\<lparr>gw_notifier := True\<rparr>"

subsection \<open>The handler\<close>

text \<open>\<open>time.Duration(dedupH) * time.Hour\<close> with the floor of 72 hours.\<close>

definition iso20022_ttl :: "Config \<Rightarrow> int" where
  "iso20022_ttl cfg =
     (let dedupH = iso_DedupTTLH (sr_Iso20022 (cfg_SchemaRegistry cfg));
          dedupH' = (if dedupH < 72 then 72 else dedupH)
      in int64_wrap (dedupH' * hour))"

definition applyJitter :: "bool \<Rightarrow> int \<Rightarrow> bool" where
  "applyJitter cancelled max' = (if max' \<le> 0 then True else \<not> cancelled)" \<comment> \<open>no error\<close>

definition request_of :: "Envelope \<Rightarrow> policy_Request" where
  "request_of env =
     \<lparr>pr_SenderNodeID = ev_SenderNodeID env, pr_SenderRegion = ev_SenderRegion env,
      pr_RecipientRegion = ev_RecipientRegion env, pr_TrustTier = ev_TrustTier env,
      pr_SchemaType = ev_SchemaType env, pr_SchemaVersion = ev_SchemaVersion env\<rparr>"

definition register_key :: "int \<Rightarrow> Envelope \<Rightarrow> gateway \<Rightarrow> bool \<times> gateway" where
  "register_key now env g =
     (case (if ev_SchemaType env = Iso20022
            then SeenOrAddWithTTL now (ev_IdempotencyKey env) (iso20022_ttl (gw_cfg g)) (gw_dedup g)
            else SeenOrAdd now (ev_IdempotencyKey env) (gw_dedup g)) of
        (isDup, idx) \<Rightarrow> (isDup, g\<lparr>gw_dedup := idx\<rparr>))"

text \<open>The branch of an allowed envelope: callbacks, then forwarding and settlement finality.\<close>

definition forward_allowed ::
  "(string \<Rightarrow> string) \<Rightarrow> (nat \<Rightarrow> int) \<Rightarrow> bool \<Rightarrow> ('e, 's) forward_fun option \<Rightarrow> Envelope \<Rightarrow> gateway \<Rightarrow> 's \<Rightarrow>
   string \<times> gateway \<times> 's" where
  "forward_allowed digest clk cancelled fwd env g s =
     (case fwd of
        None \<Rightarrow> ('''', g, s)
      | Some Forward \<Rightarrow>
          if applyJitter cancelled (pf_TimingJitterMax (cfg_Profile (gw_cfg g))) then
            (case Forward (clk 2) (applyPadding env (pf_PaddingBucket (cfg_Profile (gw_cfg g)))) s of
               (Inr ph, s') \<Rightarrow>
                 if ev_SchemaType env = Iso20022 \<and>
                    iso_SettlementFinality (sr_Iso20022 (cfg_SchemaRegistry (gw_cfg g)))
                 then (ph, g\<lparr>gw_audit := snd (AppendFinality digest (clk 3) (gw_cfg g) (ev_SenderRegion env)
                               (ev_RecipientRegion env) (ev_SchemaVersion env) (gw_audit g))\<rparr>, s')
                 else (ph, g, s')
             | (Inl _, s') \<Rightarrow> ('''', g, s'))
          else ('''', g, s))"

definition SendEnvelope ::
  "(string \<Rightarrow> string) \<Rightarrow> (nat \<Rightarrow> int) \<Rightarrow> bool \<Rightarrow> ('e, 's) forward_fun option \<Rightarrow> Envelope \<Rightarrow> gateway \<Rightarrow> 's \<Rightarrow>
   (gateway_error + SendResponse) \<times> gateway \<times> 's \<times> gw_event list" where
  "SendEnvelope digest clk cancelled fwd env0 g s =
     (if ev_IdempotencyKey env0 = '''' then (Inl ErrEmptyIdempotencyKey, g, s, [])
      else let env = env0\<lparr>ev_SchemaType := Normalize (ev_SchemaType env0)\<rparr>; cfg = gw_cfg g in
      if ev_IsDummy env then
        (let g' = g\<lparr>gw_audit := snd (Append digest (clk 1) cfg DecisionDummy ''DUMMY_TRAFFIC'' 0
                       (ev_SenderRegion env) (ev_RecipientRegion env) '''' '''' (gw_audit g))\<rparr>
         in (Inr \<lparr>rs_Decision = DecisionAllow, rs_Reason = ''DUMMY_TRAFFIC'',
                   rs_Profile = pf_Name (cfg_Profile cfg), rs_NodeID = nc_NodeID (cfg_Node cfg),
                   rs_AuditRootHash = RootHash (gw_audit g'), rs_PeerAuditRootHash = ''''\<rparr>, g', s, []))
      else case register_key (clk 0) env g of
        (True, g1) \<Rightarrow>
          (let g' = g1\<lparr>gw_audit := snd (Append digest (clk 1) cfg DecisionDuplicate
                         ''DUPLICATE_IDEMPOTENCY_KEY'' (ev_TrustTier env) (ev_SenderRegion env)
                         (ev_RecipientRegion env) (ev_SchemaType env) (ev_SchemaVersion env) (gw_audit g1))\<rparr>
           in (Inr \<lparr>rs_Decision = DecisionDuplicate, rs_Reason = ''idempotency_key already processed'',
                     rs_Profile = pf_Name (cfg_Profile cfg), rs_NodeID = nc_NodeID (cfg_Node cfg),
                     rs_AuditRootHash = RootHash (gw_audit g'), rs_PeerAuditRootHash = ''''\<rparr>, g', s,
               if gw_onDuplicate g then [OnDuplicate] else []))
      | (False, g1) \<Rightarrow>
          (case Evaluate digest (clk 1) (request_of env) (engine_of g1) of
             (result, e) \<Rightarrow>
               let g2 = put_engine e g1;
                   (peerRootHash, g3, s', evs) =
                     (if res_Decision result = DecisionAllow
                      then case forward_allowed digest clk cancelled fwd env g2 s of
                             (ph, g', s') \<Rightarrow>
                               (ph, g', s', (if gw_onAllow g then [OnAllow env] else []) @
                                            (if gw_notifier g then [NotifyAll env] else []))
                      else ('''', g2, s, if gw_onDeny g then [OnDeny (res_Reason result)] else []))
               in (Inr \<lparr>rs_Decision = res_Decision result, rs_Reason = res_Reason result,
                         rs_Profile = res_Profile result, rs_NodeID = nc_NodeID (cfg_Node cfg),
                         rs_AuditRootHash = RootHash (gw_audit g3),
                         rs_PeerAuditRootHash = peerRootHash\<rparr>, g3, s', evs)))"

definition GetNodeInfo :: "gateway \<Rightarrow> NodeInfo" where
  "GetNodeInfo g =
     \<lparr>ni_NodeID = nc_NodeID (cfg_Node (gw_cfg g)), ni_NodeScope = nc_NodeScope (cfg_Node (gw_cfg g)),
      ni_Region = nc_Region (cfg_Node (gw_cfg g)), ni_ApplicableLaw = nc_ApplicableLaw (cfg_Node (gw_cfg g)),
      ni_Profile = pf_Name (cfg_Profile (gw_cfg g))\<rparr>"

subsection \<open>The branches of the handler\<close>

definition norm_env :: "Envelope \<Rightarrow> Envelope" where
  "norm_env env = env\<lparr>ev_SchemaType := Normalize (ev_SchemaType env)\<rparr>"

lemma norm_env_simps [simp]:
  "ev_IdempotencyKey (norm_env env) = ev_IdempotencyKey env" "ev_IsDummy (norm_env env) = ev_IsDummy env"
  "ev_SchemaType (norm_env env) = Normalize (ev_SchemaType env)"
  "ev_SenderRegion (norm_env env) = ev_SenderRegion env" "ev_RecipientRegion (norm_env env) = ev_RecipientRegion env"
  "ev_TrustTier (norm_env env) = ev_TrustTier env"
  by (simp_all add: norm_env_def)

definition key_ttl :: "gateway \<Rightarrow> Envelope \<Rightarrow> int" where
  "key_ttl g env = (if ev_SchemaType env = Iso20022 then iso20022_ttl (gw_cfg g) else ix_ttl (gw_dedup g))"

lemma register_key_eq:
  "register_key now env g =
     (case SeenOrAddWithTTL now (ev_IdempotencyKey env) (key_ttl g env) (gw_dedup g) of
        (isDup, idx) \<Rightarrow> (isDup, g\<lparr>gw_dedup := idx\<rparr>))"
  by (simp add: register_key_def key_ttl_def SeenOrAdd_eq_WithTTL)

text \<open>What the policy engine decides on an envelope.\<close>

definition decision_of :: "gateway \<Rightarrow> Envelope \<Rightarrow> policy_Result" where
  "decision_of g env = evaluate_result (gw_policyCfg g) (gw_crl g) (request_of env)"

definition is_duplicate :: "gateway \<Rightarrow> int \<Rightarrow> string \<Rightarrow> bool" where
  "is_duplicate g now key \<longleftrightarrow> (\<exists>e. expiry (gw_dedup g) key = Some e \<and> now < e)"

definition after_register :: "int \<Rightarrow> Envelope \<Rightarrow> gateway \<Rightarrow> gateway" where
  "after_register now env g = g\<lparr>gw_dedup := put_key (ev_IdempotencyKey env) (now + key_ttl g env) (gw_dedup g)\<rparr>"

lemma register_key_cases:
  "register_key now env g =
     (if is_duplicate g now (ev_IdempotencyKey env) then (True, g) else (False, after_register now env g))"
  by (auto simp: register_key_eq is_duplicate_def after_register_def SeenOrAddWithTTL_eq split: option.splits)

definition after_evaluate :: "(string \<Rightarrow> string) \<Rightarrow> (nat \<Rightarrow> int) \<Rightarrow> Envelope \<Rightarrow> gateway \<Rightarrow> gateway" where
  "after_evaluate digest clk env g =
     (let r = decision_of g env in
      (after_register (clk 0) env g)\<lparr>gw_audit := snd (Append digest (clk 1) (gw_policyCfg g) (res_Decision r)
        (res_Reason r) (ev_TrustTier env) (ev_SenderRegion env) (ev_RecipientRegion env)
        (ev_SchemaType env) (ev_SchemaVersion env) (gw_audit g))\<rparr>)"

lemma Evaluate_gateway:
  "Evaluate digest (clk 1) (request_of env) (engine_of (after_register (clk 0) env g)) = (r, e) \<Longrightarrow>
     r = decision_of g env \<and> put_engine e (after_register (clk 0) env g) = after_evaluate digest clk env g"
  by (auto simp: Evaluate_def Let_def engine_of_def put_engine_def appendAudit_def decision_of_def
      after_evaluate_def after_register_def request_of_def)

lemma SendEnvelope_empty:
  "ev_IdempotencyKey env = '''' \<Longrightarrow> SendEnvelope digest clk c fwd env g s = (Inl ErrEmptyIdempotencyKey, g, s, [])"
  by (simp add: SendEnvelope_def)

lemma SendEnvelope_dummy:
  assumes "ev_IdempotencyKey env \<noteq> ''''" "ev_IsDummy env"
  obtains r a where "SendEnvelope digest clk c fwd env g s = (Inr r, g\<lparr>gw_audit := a\<rparr>, s, [])"
    "a = snd (Append digest (clk 1) (gw_cfg g) DecisionDummy ''DUMMY_TRAFFIC'' 0
           (ev_SenderRegion env) (ev_RecipientRegion env) '''' '''' (gw_audit g))"
    "rs_Decision r = DecisionAllow" "rs_Reason r = ''DUMMY_TRAFFIC''" "rs_AuditRootHash r = lg_root a"
    "rs_PeerAuditRootHash r = ''''"
  using assms by (auto simp: SendEnvelope_def Let_def RootHash_def)

lemma SendEnvelope_duplicate:
  assumes "ev_IdempotencyKey env \<noteq> ''''" "\<not> ev_IsDummy env" "is_duplicate g (clk 0) (ev_IdempotencyKey env)"
  obtains r a where "SendEnvelope digest clk c fwd env g s =
      (Inr r, g\<lparr>gw_audit := a\<rparr>, s, if gw_onDuplicate g then [OnDuplicate] else [])"
    "a = snd (Append digest (clk 1) (gw_cfg g) DecisionDuplicate ''DUPLICATE_IDEMPOTENCY_KEY'' (ev_TrustTier env)
           (ev_SenderRegion env) (ev_RecipientRegion env) (Normalize (ev_SchemaType env)) (ev_SchemaVersion env)
           (gw_audit g))"
    "rs_Decision r = DecisionDuplicate" "rs_AuditRootHash r = lg_root a" "rs_PeerAuditRootHash r = ''''"
  using assms by (auto simp: SendEnvelope_def Let_def RootHash_def register_key_cases)

lemma SendEnvelope_deny:
  assumes "ev_IdempotencyKey env \<noteq> ''''" "\<not> ev_IsDummy env" "\<not> is_duplicate g (clk 0) (ev_IdempotencyKey env)"
    and "res_Decision (decision_of g (norm_env env)) \<noteq> DecisionAllow"
  obtains r where "SendEnvelope digest clk c fwd env g s =
      (Inr r, after_evaluate digest clk (norm_env env) g, s,
       if gw_onDeny g then [OnDeny (res_Reason (decision_of g (norm_env env)))] else [])"
    "rs_Decision r = res_Decision (decision_of g (norm_env env))"
    "rs_Reason r = res_Reason (decision_of g (norm_env env))"
    "rs_AuditRootHash r = lg_root (gw_audit (after_evaluate digest clk (norm_env env) g))"
    "rs_PeerAuditRootHash r = ''''"
proof -
  obtain r e where "Evaluate digest (clk 1) (request_of (norm_env env))
      (engine_of (after_register (clk 0) (norm_env env) g)) = (r, e)" by force
  note * = this Evaluate_gateway [OF this]
  show thesis
    using assms * by (intro that) (auto simp: SendEnvelope_def Let_def RootHash_def register_key_cases norm_env_def)
qed

lemma SendEnvelope_allow:
  assumes "ev_IdempotencyKey env \<noteq> ''''" "\<not> ev_IsDummy env" "\<not> is_duplicate g (clk 0) (ev_IdempotencyKey env)"
    and "res_Decision (decision_of g (norm_env env)) = DecisionAllow"
    and fa: "forward_allowed digest clk c fwd (norm_env env) (after_evaluate digest clk (norm_env env) g) s = (ph, g', s')"
  obtains r where "SendEnvelope digest clk c fwd env g s =
      (Inr r, g', s', (if gw_onAllow g then [OnAllow (norm_env env)] else []) @
                      (if gw_notifier g then [NotifyAll (norm_env env)] else []))"
    "rs_Decision r = DecisionAllow" "rs_Reason r = res_Reason (decision_of g (norm_env env))"
    "rs_AuditRootHash r = lg_root (gw_audit g')" "rs_PeerAuditRootHash r = ph"
proof -
  obtain r e where "Evaluate digest (clk 1) (request_of (norm_env env))
      (engine_of (after_register (clk 0) (norm_env env) g)) = (r, e)" by force
  note * = this Evaluate_gateway [OF this]
  show thesis
    using assms * by (intro that) (auto simp: SendEnvelope_def Let_def RootHash_def register_key_cases norm_env_def)
qed

lemma forward_allowed_cases:
  assumes "forward_allowed digest clk c fwd env g s = (ph, g', s')"
  obtains (skip) "ph = ''''" "g' = g" "s' = s"
    "fwd = None \<or> \<not> applyJitter c (pf_TimingJitterMax (cfg_Profile (gw_cfg g)))"
  | (failed) F e where "fwd = Some F" "F (clk 2) (applyPadding env (pf_PaddingBucket (cfg_Profile (gw_cfg g)))) s = (Inl e, s')"
      "ph = ''''" "g' = g"
  | (sent) F where "fwd = Some F" "F (clk 2) (applyPadding env (pf_PaddingBucket (cfg_Profile (gw_cfg g)))) s = (Inr ph, s')"
      "g' = g"
      "\<not> (ev_SchemaType env = Iso20022 \<and> iso_SettlementFinality (sr_Iso20022 (cfg_SchemaRegistry (gw_cfg g))))"
  | (final) F where "fwd = Some F" "F (clk 2) (applyPadding env (pf_PaddingBucket (cfg_Profile (gw_cfg g)))) s = (Inr ph, s')"
      "g' = g\<lparr>gw_audit := snd (AppendFinality digest (clk 3) (gw_cfg g) (ev_SenderRegion env)
                               (ev_RecipientRegion env) (ev_SchemaVersion env) (gw_audit g))\<rparr>"
      "ev_SchemaType env = Iso20022" "iso_SettlementFinality (sr_Iso20022 (cfg_SchemaRegistry (gw_cfg g)))"
proof (cases fwd)
  case None
  then show thesis using assms skip by (simp add: forward_allowed_def)
next
  case (Some F)
  let ?cfg = "gw_cfg g"
  obtain res s1 where r: "F (clk 2) (applyPadding env (pf_PaddingBucket (cfg_Profile ?cfg))) s = (res, s1)"
    by force
  show thesis
  proof (cases "applyJitter c (pf_TimingJitterMax (cfg_Profile ?cfg))")
    case False
    then show thesis using assms skip Some by (simp add: forward_allowed_def)
  next
    case True
    show thesis
    proof (cases res)
      case (Inl e)
      then have "ph = []" "g' = g" "s' = s1" using assms Some True r by (simp_all add: forward_allowed_def)
      then show thesis using r Inl by (intro failed [OF Some]) simp_all
    next
      case (Inr h)
      show thesis
      proof (cases "ev_SchemaType env = Iso20022 \<and> iso_SettlementFinality (sr_Iso20022 (cfg_SchemaRegistry ?cfg))")
        case fin: True
        then have "ph = h" "s' = s1" "g' = g\<lparr>gw_audit := snd (AppendFinality digest (clk 3) ?cfg (ev_SenderRegion env)
                               (ev_RecipientRegion env) (ev_SchemaVersion env) (gw_audit g))\<rparr>"
          using assms Some True r Inr by (simp_all add: forward_allowed_def)
        then show thesis using r Inr fin by (intro final [OF Some]) simp_all
      next
        case nofin: False
        then have "ph = h" "g' = g" "s' = s1"
          using assms Some True r Inr by (auto simp: forward_allowed_def)
        then show thesis using r Inr nofin by (intro sent [OF Some]) simp_all
      qed
    qed
  qed
qed

lemma SendEnvelope_elim:
  assumes "SendEnvelope digest clk c fwd env g s = (res, g', s', evs)"
  obtains
    (empty) "ev_IdempotencyKey env = ''''" "res = Inl ErrEmptyIdempotencyKey" "g' = g" "s' = s" "evs = []"
  | (dummy) r where "ev_IdempotencyKey env \<noteq> ''''" "ev_IsDummy env" "res = Inr r" "s' = s" "evs = []"
      "g' = g\<lparr>gw_audit := snd (Append digest (clk 1) (gw_cfg g) DecisionDummy ''DUMMY_TRAFFIC'' 0
           (ev_SenderRegion env) (ev_RecipientRegion env) '''' '''' (gw_audit g))\<rparr>"
      "rs_Decision r = DecisionAllow" "rs_PeerAuditRootHash r = ''''" "rs_AuditRootHash r = lg_root (gw_audit g')"
  | (dup) r where "ev_IdempotencyKey env \<noteq> ''''" "\<not> ev_IsDummy env" "res = Inr r" "s' = s"
      "is_duplicate g (clk 0) (ev_IdempotencyKey env)" "evs = (if gw_onDuplicate g then [OnDuplicate] else [])"
      "g' = g\<lparr>gw_audit := snd (Append digest (clk 1) (gw_cfg g) DecisionDuplicate ''DUPLICATE_IDEMPOTENCY_KEY''
           (ev_TrustTier env) (ev_SenderRegion env) (ev_RecipientRegion env) (Normalize (ev_SchemaType env))
           (ev_SchemaVersion env) (gw_audit g))\<rparr>"
      "rs_Decision r = DecisionDuplicate" "rs_PeerAuditRootHash r = ''''" "rs_AuditRootHash r = lg_root (gw_audit g')"
  | (denied) r where "ev_IdempotencyKey env \<noteq> ''''" "\<not> ev_IsDummy env" "res = Inr r" "s' = s"
      "\<not> is_duplicate g (clk 0) (ev_IdempotencyKey env)"
      "res_Decision (decision_of g (norm_env env)) \<noteq> DecisionAllow"
      "g' = after_evaluate digest clk (norm_env env) g"
      "evs = (if gw_onDeny g then [OnDeny (res_Reason (decision_of g (norm_env env)))] else [])"
      "rs_Decision r = res_Decision (decision_of g (norm_env env))"
      "rs_PeerAuditRootHash r = ''''" "rs_AuditRootHash r = lg_root (gw_audit g')"
  | (allowed) r where "ev_IdempotencyKey env \<noteq> ''''" "\<not> ev_IsDummy env" "res = Inr r"
      "\<not> is_duplicate g (clk 0) (ev_IdempotencyKey env)"
      "res_Decision (decision_of g (norm_env env)) = DecisionAllow"
      "forward_allowed digest clk c fwd (norm_env env) (after_evaluate digest clk (norm_env env) g) s =
         (rs_PeerAuditRootHash r, g', s')"
      "evs = (if gw_onAllow g then [OnAllow (norm_env env)] else []) @
             (if gw_notifier g then [NotifyAll (norm_env env)] else [])"
      "rs_Decision r = DecisionAllow" "rs_AuditRootHash r = lg_root (gw_audit g')"
proof -
  consider "ev_IdempotencyKey env = ''''" | "ev_IdempotencyKey env \<noteq> ''''" "ev_IsDummy env"
    | "ev_IdempotencyKey env \<noteq> ''''" "\<not> ev_IsDummy env" "is_duplicate g (clk 0) (ev_IdempotencyKey env)"
    | "ev_IdempotencyKey env \<noteq> ''''" "\<not> ev_IsDummy env" "\<not> is_duplicate g (clk 0) (ev_IdempotencyKey env)"
      "res_Decision (decision_of g (norm_env env)) \<noteq> DecisionAllow"
    | "ev_IdempotencyKey env \<noteq> ''''" "\<not> ev_IsDummy env" "\<not> is_duplicate g (clk 0) (ev_IdempotencyKey env)"
      "res_Decision (decision_of g (norm_env env)) = DecisionAllow"
    by blast
  then show thesis
  proof cases
    case 1
    then show thesis using assms by (intro empty) (auto simp: SendEnvelope_empty)
  next
    case 2
    show thesis
      apply (rule SendEnvelope_dummy [where digest = digest and clk = clk and c = c and fwd = fwd and g = g and s = s, OF 2])
      subgoal for r a using assms 2 by (intro dummy [of r]) auto
      done
  next
    case 3
    show thesis
      apply (rule SendEnvelope_duplicate [where digest = digest and clk = clk and c = c and fwd = fwd and s = s, OF 3])
      subgoal for r a using assms 3 by (intro dup [of r]) (auto split del: if_split)
      done
  next
    case 4
    show thesis
      apply (rule SendEnvelope_deny [where digest = digest and clk = clk and c = c and fwd = fwd and s = s, OF 4])
      subgoal for r using assms 4 by (intro denied [of r]) (auto split del: if_split)
      done
  next
    case 5
    obtain ph g1 s1 where fa: "forward_allowed digest clk c fwd (norm_env env)
        (after_evaluate digest clk (norm_env env) g) s = (ph, g1, s1)"
      by (metis prod_cases3)
    show thesis
      apply (rule SendEnvelope_allow [OF 5 fa])
      subgoal for r using assms 5 fa by (intro allowed [of r]) (auto split del: if_split)
      done
  qed
qed

subsection \<open>Invariant\<close>

definition gw_inv :: "(string \<Rightarrow> string) \<Rightarrow> gateway \<Rightarrow> bool" where
  "gw_inv digest g \<longleftrightarrow>
     log_inv digest (gw_audit g) \<and> dedup_inv (gw_dedup g) \<and> config_ok (gw_policyCfg g) \<and>
     (\<forall>cs. gw_crl g = Some cs \<longrightarrow> crl_inv cs)"

lemma after_evaluate_simps [simp]:
  "gw_cfg (after_evaluate digest clk env g) = gw_cfg g"
  "gw_policyCfg (after_evaluate digest clk env g) = gw_policyCfg g"
  "gw_crl (after_evaluate digest clk env g) = gw_crl g"
  "gw_dedup (after_evaluate digest clk env g) =
     put_key (ev_IdempotencyKey env) (clk 0 + key_ttl g env) (gw_dedup g)"
  "gw_audit (after_evaluate digest clk env g) =
     snd (Append digest (clk 1) (gw_policyCfg g) (res_Decision (decision_of g env))
        (res_Reason (decision_of g env)) (ev_TrustTier env) (ev_SenderRegion env) (ev_RecipientRegion env)
        (ev_SchemaType env) (ev_SchemaVersion env) (gw_audit g))"
  by (simp_all add: after_evaluate_def after_register_def Let_def)

lemma SendEnvelope_frame:
  assumes "SendEnvelope digest clk c fwd env g s = (res, g', s', evs)"
  shows "gw_cfg g' = gw_cfg g" "gw_policyCfg g' = gw_policyCfg g" "gw_crl g' = gw_crl g"
  using assms
  by (cases rule: SendEnvelope_elim; auto elim!: forward_allowed_cases)+

lemma SendEnvelope_dedup:
  assumes "SendEnvelope digest clk c fwd env g s = (res, g', s', evs)"
  shows "gw_dedup g' = gw_dedup g \<or>
    \<not> is_duplicate g (clk 0) (ev_IdempotencyKey env) \<and>
    gw_dedup g' = put_key (ev_IdempotencyKey env) (clk 0 + key_ttl g (norm_env env)) (gw_dedup g)"
  using assms
  by (cases rule: SendEnvelope_elim; auto elim!: forward_allowed_cases)

lemma SendEnvelope_inv:
  assumes "gw_inv digest g" "SendEnvelope digest clk c fwd env g s = (res, g', s', evs)"
  shows "gw_inv digest g'"
proof -
  have "log_inv digest (gw_audit g')"
    using assms(2)
    by (cases rule: SendEnvelope_elim; use assms(1) in \<open>auto simp: gw_inv_def elim!: forward_allowed_cases\<close>)
  then show ?thesis
    using SendEnvelope_frame [OF assms(2)] SendEnvelope_dedup [OF assms(2)] assms(1)
    by (auto simp: gw_inv_def)
qed

text \<open>A request appends nothing (empty key), one entry, or two (with settlement finality).\<close>

lemma SendEnvelope_audit:
  assumes "SendEnvelope digest clk c fwd env g s = (res, g', s', evs)"
  shows "\<exists>new. lg_entries (gw_audit g') = lg_entries (gw_audit g) @ new \<and>
    (case res of
       Inl _ \<Rightarrow> new = []
     | Inr r \<Rightarrow> \<exists>a fin. new = a # fin \<and>
         ae_Decision a = (if ev_IsDummy env then DecisionDummy else rs_Decision r) \<and>
         ae_SenderRegion a = ev_SenderRegion env \<and> ae_RecipientRegion a = ev_RecipientRegion env \<and>
         (fin = [] \<or> rs_Decision r = DecisionAllow \<and> Normalize (ev_SchemaType env) = Iso20022 \<and>
            (\<exists>f. fin = [f] \<and> ae_Decision f = DecisionSettlementFinal)) \<and>
         rs_AuditRootHash r = lg_root (gw_audit g'))"
  using assms
proof (cases rule: SendEnvelope_elim)
  case (allowed r)
  from allowed(6) show ?thesis
    by (cases rule: forward_allowed_cases)
       (use allowed in \<open>auto simp: Append_entries AppendFinality_entries Append_fields\<close>)
qed (auto simp: Append_entries Append_fields)

lemma SendEnvelope_decision:
  assumes "ev_IdempotencyKey env \<noteq> ''''" "\<not> ev_IsDummy env"
  shows "\<exists>r. fst (SendEnvelope digest clk c fwd env g s) = Inr r \<and>
    rs_Decision r =
      (if is_duplicate g (clk 0) (ev_IdempotencyKey env) then DecisionDuplicate
       else if policy_allows (gw_policyCfg g) (gw_crl g) (request_of (norm_env env)) then DecisionAllow
       else DecisionDeny)"
proof -
  obtain res g' s' evs where S: "SendEnvelope digest clk c fwd env g s = (res, g', s', evs)"
    by (metis prod_cases4)
  have d: "res_Decision (decision_of g (norm_env env)) =
      (if policy_allows (gw_policyCfg g) (gw_crl g) (request_of (norm_env env)) then DecisionAllow else DecisionDeny)"
    unfolding decision_of_def
    using evaluate_result_allow [of "gw_policyCfg g" "gw_crl g" "request_of (norm_env env)"]
      evaluate_result_cases [of "gw_policyCfg g" "gw_crl g" "request_of (norm_env env)"] by auto
  from S show ?thesis
    by (cases rule: SendEnvelope_elim) (use assms d in \<open>auto simp: S split: if_splits\<close>)
qed

subsection \<open>Properties\<close>

text \<open>
  C35. The deduplication time of an ISO 20022 envelope is at least 72 hours and at least the
  configured number of hours, as long as that number fits into a \<open>time.Duration\<close> (2562047
  hours); one hour more and the product overflows to a negative duration, with which no
  envelope is ever a duplicate.
\<close>

theorem iso20022_dedup_floor:
  assumes "iso_DedupTTLH (sr_Iso20022 (cfg_SchemaRegistry cfg)) = h"
  shows "(h \<le> 2562047 \<longrightarrow> iso20022_ttl cfg = max 72 h * hour) \<and> (h = 2562048 \<longrightarrow> iso20022_ttl cfg < 0)"
proof -
  have "int64_wrap (max 72 h * hour) = max 72 h * hour" if "h \<le> 2562047"
    using that by (intro int64_wrap_id) (auto simp: duration_defs max_def)
  moreover have "int64_wrap (2562048 * hour) < 0" by (simp add: int64_wrap_def duration_defs)
  ultimately show ?thesis using assms by (auto simp: iso20022_ttl_def Let_def max_def)
qed

theorem iso20022_dedup_floor_witness: "iso20022_ttl DefaultBalancedConfig = 72 * hour"
  using iso20022_dedup_floor [of DefaultBalancedConfig 0] by (simp add: cfg_defs Let_def)

end
