(* ===== verification/Float64.thy ===== *)
theory Float64
  imports Complex_Main "HOL-Library.Log_Nat" Prelude
begin

text \<open>
  Finite \<open>float64\<close> arithmetic of Go. A number is represented by its exact value, a rational;
  \<open>round64\<close> is the rounding of IEEE 754 to the nearest number with a significand of 53 bits, ties
  to even, with the smallest exponent of subnormal numbers. \<open>int64_of\<close> is the conversion to
  \<open>int64\<close>: the fraction is dropped, and a value outside the range gives what the parameter \<open>ovf\<close>
  says, since the language leaves it to the implementation (the smallest \<open>int64\<close> on amd64, the
  nearest bound on arm64). A product beyond the largest \<open>float64\<close>, which is infinite in Go, is
  outside that range as well.
\<close>

subsection \<open>Rounding\<close>

text \<open>The binary exponent of a positive number: \<open>2 powi binexp x \<le> x < 2 powi (binexp x + 1)\<close>.\<close>

definition binexp :: "rat \<Rightarrow> int" where
  "binexp x =
     (case quotient_of x of (p, q) \<Rightarrow>
        let k = bitlen p - bitlen q in if 2 powi k \<le> x then k else k - 1)"

definition half_even :: "rat \<Rightarrow> int" where
  "half_even x =
     (let n = \<lfloor>x\<rfloor>; r = x - of_int n in
      if r < 1 / 2 then n else if 1 / 2 < r then n + 1 else if even n then n else n + 1)"

text \<open>The exponent of the last place.\<close>

definition ulp64 :: "rat \<Rightarrow> int" where
  "ulp64 x = max (binexp x - 52) (- 1074)"

definition round64 :: "rat \<Rightarrow> rat" where
  "round64 x =
     (if x = 0 then 0
      else let u = ulp64 \<bar>x\<bar>; m = of_int (half_even (\<bar>x\<bar> / 2 powi u)) * 2 powi u
           in if x < 0 then - m else m)"

definition truncate_rat :: "rat \<Rightarrow> int" where
  "truncate_rat x = (if 0 \<le> x then \<lfloor>x\<rfloor> else \<lceil>x\<rceil>)"

definition int64_of :: "(rat \<Rightarrow> int) \<Rightarrow> rat \<Rightarrow> int" where
  "int64_of ovf x =
     (let n = truncate_rat x in if - (2 ^ 63) \<le> n \<and> n < 2 ^ 63 then n else ovf x)"

text \<open>The conversion instruction of amd64 gives the smallest \<open>int64\<close>.\<close>

definition amd64 :: "rat \<Rightarrow> int" where "amd64 x = - (2 ^ 63)"

definition mul64 :: "rat \<Rightarrow> rat \<Rightarrow> rat" where
  "mul64 x y = round64 (x * y)"

subsection \<open>Lemmas\<close>

lemma bitlen_powi:
  assumes "0 < (x :: int)"
  shows "(2 :: rat) powi (bitlen x - 1) \<le> of_int x" "of_int x < (2 :: rat) powi bitlen x"
proof -
  have b: "1 \<le> bitlen x" using assms by (simp add: bitlen_alt_def)
  have "(of_int (2 ^ nat (bitlen x - 1)) :: rat) \<le> of_int x" "of_int x < (of_int (2 ^ nat (bitlen x)) :: rat)"
    unfolding of_int_le_iff of_int_less_iff using bitlen_bounds [OF assms] by blast+
  then show "(2 :: rat) powi (bitlen x - 1) \<le> of_int x" "of_int x < (2 :: rat) powi bitlen x"
    using b by (simp_all add: power_int_def)
qed

lemma binexp_bounds:
  assumes "0 < x"
  shows "2 powi binexp x \<le> x" "x < 2 powi (binexp x + 1)"
proof -
  obtain p q where pq: "quotient_of x = (p, q)" by force
  have q: "0 < q" and x: "x = of_int p / of_int q"
    using quotient_of_denom_pos [OF pq] quotient_of_div [OF pq] by auto
  then have p: "0 < p" using assms by (simp add: zero_less_divide_iff)
  let ?k = "bitlen p - bitlen q"
  have "of_int p / of_int q < (2 :: rat) powi bitlen p / 2 powi (bitlen q - 1)"
    by (rule frac_less)
       (use bitlen_powi [OF p] bitlen_powi [OF q] p q in \<open>auto\<close>)
  then have hi: "x < 2 powi (?k + 1)" by (simp add: x power_int_diff [symmetric] algebra_simps)
  have "(2 :: rat) powi (bitlen p - 1) / 2 powi bitlen q \<le> of_int p / of_int q"
    by (rule frac_le) (use bitlen_powi [OF p] bitlen_powi [OF q] p q in \<open>auto\<close>)
  then have lo: "2 powi (?k - 1) \<le> x" by (simp add: x power_int_diff [symmetric] algebra_simps)
  show "2 powi binexp x \<le> x" "x < 2 powi (binexp x + 1)"
    using hi lo by (auto simp: binexp_def pq Let_def)
qed

lemma powi_less_iff: "(2 :: rat) powi a < 2 powi b \<longleftrightarrow> a < b"
  using power_int_strict_increasing [of a b "2 :: rat"] power_int_increasing [of b a "2 :: rat"] by fastforce

lemma powi_nat: "0 \<le> k \<Longrightarrow> (2 :: rat) powi k = of_int (2 ^ nat k)"
  by (simp add: power_int_def)

lemma binexp_mono:
  assumes "0 < x" "x \<le> y"
  shows "binexp x \<le> binexp y"
proof -
  have "2 powi binexp x < (2 :: rat) powi (binexp y + 1)"
    using binexp_bounds(1) [OF assms(1)] binexp_bounds(2) [of y] assms by linarith
  then show ?thesis by (simp add: powi_less_iff)
qed

lemma half_even_int [simp]: "half_even (of_int n) = n"
  by (simp add: half_even_def)

lemma half_even_near: "of_int (half_even x) - 1 / 2 \<le> x" "x \<le> of_int (half_even x) + 1 / 2"
  by (auto simp: half_even_def Let_def) linarith+

lemma half_even_mono:
  assumes "x \<le> y"
  shows "half_even x \<le> half_even y"
proof (cases "\<lfloor>x\<rfloor> = \<lfloor>y\<rfloor>")
  case True
  then show ?thesis using assms by (auto simp: half_even_def Let_def)
next
  case False
  then have "\<lfloor>x\<rfloor> + 1 \<le> \<lfloor>y\<rfloor>" using floor_mono [OF assms] by simp
  moreover have "half_even x \<le> \<lfloor>x\<rfloor> + 1" "\<lfloor>y\<rfloor> \<le> half_even y" by (auto simp: half_even_def Let_def)
  ultimately show ?thesis by simp
qed

text \<open>For a positive number the rounding is that of its significand.\<close>

lemma round64_pos: "0 < x \<Longrightarrow> round64 x = of_int (half_even (x / 2 powi ulp64 x)) * 2 powi ulp64 x"
  by (simp add: round64_def Let_def)

lemma round64_zero [simp]: "round64 0 = 0"
  by (simp add: round64_def)

lemma round64_minus: "round64 (- x) = - round64 x"
  by (auto simp: round64_def Let_def)

lemma round64_below:
  assumes "0 < x" "x \<le> 2 powi k" "ulp64 x \<le> k"
  shows "round64 x \<le> 2 powi k"
proof -
  have k: "(2 :: rat) powi k = 2 powi (k - ulp64 x) * 2 powi ulp64 x" by (simp add: power_int_diff)
  have "x / 2 powi ulp64 x \<le> of_int (2 ^ nat (k - ulp64 x))"
    using assms by (simp add: divide_le_eq k powi_nat)
  from half_even_mono [OF this]
  have "(of_int (half_even (x / 2 powi ulp64 x)) :: rat) \<le> of_int (2 ^ nat (k - ulp64 x))"
    unfolding of_int_le_iff half_even_int .
  then show ?thesis using assms by (simp add: round64_pos k powi_nat)
qed

lemma round64_above:
  assumes "0 < x" "2 powi k \<le> x" "ulp64 x \<le> k"
  shows "2 powi k \<le> round64 x"
proof -
  have k: "(2 :: rat) powi k = 2 powi (k - ulp64 x) * 2 powi ulp64 x" by (simp add: power_int_diff)
  have "of_int (2 ^ nat (k - ulp64 x)) \<le> x / 2 powi ulp64 x"
    using assms by (simp add: le_divide_eq k powi_nat)
  from half_even_mono [OF this]
  have "(of_int (2 ^ nat (k - ulp64 x)) :: rat) \<le> of_int (half_even (x / 2 powi ulp64 x))"
    unfolding of_int_le_iff half_even_int .
  then show ?thesis using assms by (simp add: round64_pos k powi_nat)
qed

lemma round64_mono_pos:
  assumes "0 < x" "x \<le> y"
  shows "round64 x \<le> round64 y"
proof (cases "ulp64 x = ulp64 y")
  case True
  have "x / 2 powi ulp64 y \<le> y / 2 powi ulp64 y" using assms by (simp add: divide_right_mono)
  from half_even_mono [OF this] show ?thesis using assms True by (simp add: round64_pos)
next
  case False
  with binexp_mono [OF assms] have u: "ulp64 x < ulp64 y" "ulp64 y = binexp y - 52" "binexp x < binexp y"
    by (auto simp: ulp64_def max_def split: if_splits)
  have y: "2 powi binexp y \<le> y" using binexp_bounds(1) [of y] assms by simp
  have "(2 :: rat) powi (binexp x + 1) \<le> 2 powi binexp y" using u by (intro power_int_increasing) auto
  then have "x \<le> 2 powi binexp y" using binexp_bounds(2) [OF assms(1)] by linarith
  then have "round64 x \<le> 2 powi binexp y" using assms u by (intro round64_below) auto
  also have "\<dots> \<le> round64 y" using assms y u by (intro round64_above) auto
  finally show ?thesis .
qed

lemma round64_nonneg: "0 \<le> x \<Longrightarrow> 0 \<le> round64 x"
  using half_even_mono [of 0 "x / 2 powi ulp64 x"] half_even_int [of 0] by (cases "x = 0") (simp_all add: round64_pos)

theorem round64_mono: "x \<le> y \<Longrightarrow> round64 x \<le> round64 y"
proof -
  assume "x \<le> y"
  then consider "0 < x" | "y < 0" | "x \<le> 0" "0 \<le> y" by linarith
  then show ?thesis
  proof cases
    case 2
    then have "round64 (- y) \<le> round64 (- x)" using \<open>x \<le> y\<close> by (intro round64_mono_pos) auto
    then show ?thesis by (simp add: round64_minus)
  next
    case 3
    then show ?thesis using round64_nonneg [of "- x"] round64_nonneg [of y] by (simp add: round64_minus)
  qed (use \<open>x \<le> y\<close> round64_mono_pos in auto)
qed

text \<open>Numbers with a significand of 53 bits are exact.\<close>

lemma round64_exact_pos:
  assumes "0 < m" "m \<le> 2 ^ 53" "- 1074 \<le> e" "x = of_int m * 2 powi e"
  shows "round64 x = x"
proof -
  have x: "0 < x" using assms(1,4) by simp
  obtain n :: int where n: "x / 2 powi ulp64 x = of_int n"
  proof (cases "ulp64 x \<le> e")
    case True
    have "x / 2 powi ulp64 x = of_int m * 2 powi (e - ulp64 x)" by (simp add: assms(4) power_int_diff)
    also have "\<dots> = of_int (m * 2 ^ nat (e - ulp64 x))" using True by (simp add: powi_nat)
    finally show thesis by (rule that)
  next
    case False
    then have u: "ulp64 x = binexp x - 52" "e < binexp x - 52" using assms(3) by (auto simp: ulp64_def)
    have "(of_int m :: rat) \<le> of_int (2 ^ 53)" unfolding of_int_le_iff by (rule assms(2))
    then have le: "x \<le> 2 powi (53 + e)" by (simp add: assms(4) power_int_add)
    then have "2 powi binexp x \<le> (2 :: rat) powi (53 + e)" using binexp_bounds(1) [OF x] by linarith
    then have "binexp x \<le> 53 + e" using powi_less_iff [of "53 + e" "binexp x"] by linarith
    then have b: "binexp x = 53 + e" using u by simp
    then have "x = 2 powi (53 + e)" using le binexp_bounds(1) [OF x] by simp
    then have "x / 2 powi ulp64 x = of_int (2 ^ 52)" using u b by (simp add: power_int_diff [symmetric] powi_nat)
    then show thesis by (rule that)
  qed
  then have "x = of_int n * 2 powi ulp64 x" by (simp add: field_simps)
  then show ?thesis using round64_pos [OF x] n by simp
qed

theorem round64_exact:
  assumes "\<bar>m\<bar> \<le> 2 ^ 53" "- 1074 \<le> e"
  shows "round64 (of_int m * 2 powi e) = of_int m * 2 powi e"
proof (cases m "0 :: int" rule: linorder_cases)
  case less
  then have "round64 (of_int (- m) * 2 powi e) = of_int (- m) * 2 powi e"
    using assms by (intro round64_exact_pos [of "- m" e]) auto
  then show ?thesis using round64_minus [of "of_int (- m) * 2 powi e"] by simp
qed (use assms round64_exact_pos [of m e] in auto)

lemma round64_int: "\<bar>m\<bar> \<le> 2 ^ 53 \<Longrightarrow> round64 (of_int m) = of_int m"
  using round64_exact [of m 0] by simp

lemma int64_of_int: "- (2 ^ 63) \<le> n \<Longrightarrow> n < 2 ^ 63 \<Longrightarrow> int64_of ovf (of_int n) = n"
  by (simp add: int64_of_def truncate_rat_def Let_def)

lemma mul64_int: "\<bar>m * n\<bar> \<le> 2 ^ 53 \<Longrightarrow> mul64 (of_int m) (of_int n) = of_int (m * n)"
  using round64_int [of "m * n"] by (simp add: mul64_def)

subsection \<open>Laws\<close>

text \<open>
  Where the code outside the retry loop computes in \<open>float64\<close> the rounding is a parameter, and what
  is relied on is that it is monotone and exact on the numbers with a significand of 53 bits.
\<close>

definition float64_rounding :: "(rat \<Rightarrow> rat) \<Rightarrow> bool" where
  "float64_rounding fl \<longleftrightarrow>
     (\<forall>x y. x \<le> y \<longrightarrow> fl x \<le> fl y) \<and>
     (\<forall>(m::int) k. \<bar>m\<bar> \<le> 2 ^ 53 \<and> k \<le> 1074 \<longrightarrow> fl (of_int m / 2 ^ k) = of_int m / 2 ^ k)"

lemma fl64_mono: "float64_rounding fl \<Longrightarrow> x \<le> y \<Longrightarrow> fl x \<le> fl y"
  by (simp add: float64_rounding_def)

lemma fl64_exact: "float64_rounding fl \<Longrightarrow> \<bar>m\<bar> \<le> 2 ^ 53 \<Longrightarrow> k \<le> 1074 \<Longrightarrow> fl (of_int m / 2 ^ k) = of_int m / 2 ^ k"
  unfolding float64_rounding_def by blast

lemma fl64_int: "float64_rounding fl \<Longrightarrow> \<bar>m\<bar> \<le> 2 ^ 53 \<Longrightarrow> fl (of_int m) = of_int m"
  using fl64_exact [of fl m 0] by simp

lemma float64_rounding_round64: "float64_rounding round64"
proof -
  have "round64 (of_int m / 2 ^ k) = of_int m / 2 ^ k" if "\<bar>m\<bar> \<le> 2 ^ 53" "k \<le> 1074" for m :: int and k :: nat
    using round64_exact [OF that(1), of "- int k"] that(2) by (simp add: power_int_minus divide_inverse)
  then show ?thesis using round64_mono by (auto simp: float64_rounding_def)
qed

end
