(* ===== verification/Delivery.thy ===== *)
theory Delivery
  imports Float64 Envelope_Types
begin

text \<open>
  The dead-letter queue (\<open>internal/delivery/dlq.go\<close>) and the retry loop
  (\<open>retry.go\<close>). \<open>SendWithRetry\<close> runs a send function over an arbitrary state of the
  outside world; the context is the function \<open>cancelled\<close>, which says after which attempt
  the wait is interrupted, and the clock is a function of the attempt. The backoff is computed in
  \<open>float64\<close>: the multiplier is a finite \<open>float64\<close>, given by its value, and \<open>ovf\<close> is the result of
  converting a product outside \<open>int64\<close>. The loop also returns the delays it waited for.
\<close>

subsection \<open>Dead-letter queue\<close>

record DLQEntry =
  dq_Envelope :: Envelope
  dq_PeerAddr :: string
  dq_Attempts :: int
  dq_LastErr :: "string option"
  dq_FirstSeenUnix :: int
  dq_LastAttemptUnix :: int
  dq_Reason :: string
  dq_NextOpenUnix :: int

type_synonym DLQ = "DLQEntry list"

definition NewDLQ :: DLQ where "NewDLQ = []"

definition new_entry :: "Envelope \<Rightarrow> string \<Rightarrow> DLQEntry" where
  "new_entry env addr =
     \<lparr>dq_Envelope = env, dq_PeerAddr = addr, dq_Attempts = 0, dq_LastErr = None, dq_FirstSeenUnix = 0,
      dq_LastAttemptUnix = 0, dq_Reason = '''', dq_NextOpenUnix = 0\<rparr>"

definition dlq_Append :: "int \<Rightarrow> DLQEntry \<Rightarrow> DLQ \<Rightarrow> DLQ" where
  "dlq_Append now e d =
     d @ [if dq_FirstSeenUnix e = 0 then e\<lparr>dq_FirstSeenUnix := unix_sec now\<rparr> else e]"

definition dlq_Entries :: "DLQ \<Rightarrow> DLQEntry list" where "dlq_Entries d = d"

definition dlq_Remove :: "int \<Rightarrow> DLQ \<Rightarrow> DLQ" where
  "dlq_Remove index d =
     (if index < 0 \<or> index \<ge> int (length d) then d
      else take (nat index) d @ drop (nat index + 1) d)"

definition dlq_Size :: "DLQ \<Rightarrow> nat" where "dlq_Size d = length d"

lemma dlq_Append_envelopes [simp]: "map dq_Envelope (dlq_Append now e d) = map dq_Envelope d @ [dq_Envelope e]"
  by (simp add: dlq_Append_def)

lemma dlq_Remove_size:
  "dlq_Size (dlq_Remove i d) = (if 0 \<le> i \<and> i < int (dlq_Size d) then dlq_Size d - 1 else dlq_Size d)"
  by (auto simp: dlq_Remove_def dlq_Size_def)

lemma dlq_Remove_nth:
  assumes "0 \<le> i" "i < int (length d)" "Suc j < length d"
  shows "dlq_Remove i d ! j = (if j < nat i then d ! j else d ! Suc j)"
  using assms by (auto simp: dlq_Remove_def nth_append min_def)

subsection \<open>Retry\<close>

record RetryPolicy =
  rt_BaseDelay :: int
  rt_Multiplier :: rat
  rt_Cap :: int
  rt_MaxAttempts :: int

definition DefaultRetryPolicy :: RetryPolicy where
  "DefaultRetryPolicy =
     \<lparr>rt_BaseDelay = second, rt_Multiplier = 2, rt_Cap = 5 * minute, rt_MaxAttempts = 10\<rparr>"

text \<open>\<open>round64\<close> of the multiplier changes nothing when it is a \<open>float64\<close>; a decimal literal is rounded so.\<close>

definition next_delay :: "(rat \<Rightarrow> int) \<Rightarrow> RetryPolicy \<Rightarrow> int \<Rightarrow> int" where
  "next_delay ovf pol delay =
     (let d = int64_of ovf (mul64 (round64 (of_int delay)) (round64 (rt_Multiplier pol)))
      in if d > rt_Cap pol then rt_Cap pol else d)"

datatype retry_outcome = RSent | RCancelled string | RExhausted "string option" DLQEntry

function retry_loop ::
  "(rat \<Rightarrow> int) \<Rightarrow> ('s \<Rightarrow> string option \<times> 's) \<Rightarrow> RetryPolicy \<Rightarrow> (int \<Rightarrow> string option) \<Rightarrow> (int \<Rightarrow> int) \<Rightarrow>
   int \<Rightarrow> int \<Rightarrow> string option \<Rightarrow> DLQEntry \<Rightarrow> 's \<Rightarrow> retry_outcome \<times> int list \<times> 's" where
  "retry_loop ovf send pol cancelled clk attempt delay lastErr entry s =
     (if attempt > rt_MaxAttempts pol then (RExhausted lastErr entry, [], s)
      else case send s of
        (None, s1) \<Rightarrow> (RSent, [], s1)
      | (Some err, s1) \<Rightarrow>
          let entry' = entry\<lparr>dq_Attempts := attempt, dq_LastErr := Some err,
                             dq_LastAttemptUnix := unix_sec (clk attempt)\<rparr>
          in if attempt = rt_MaxAttempts pol then (RExhausted (Some err) entry', [], s1)
             else case cancelled attempt of
               Some e \<Rightarrow> (RCancelled e, [], s1)
             | None \<Rightarrow>
                 (case retry_loop ovf send pol cancelled clk (attempt + 1) (next_delay ovf pol delay) (Some err)
                         entry' s1 of
                    (out, waits, s2) \<Rightarrow> (out, delay # waits, s2)))"
  by pat_completeness auto
termination
  by (relation "measure (\<lambda>(ovf, send, pol, c, clk, attempt, d, l, e, s). nat (rt_MaxAttempts pol + 1 - attempt))") auto

declare retry_loop.simps [simp del]

definition SendWithRetry ::
  "(rat \<Rightarrow> int) \<Rightarrow> ('s \<Rightarrow> string option \<times> 's) \<Rightarrow> RetryPolicy \<Rightarrow> (int \<Rightarrow> string option) \<Rightarrow> (int \<Rightarrow> int) \<Rightarrow> DLQ option \<Rightarrow>
   DLQEntry \<Rightarrow> 's \<Rightarrow> string option \<times> int list \<times> DLQ option \<times> 's" where
  "SendWithRetry ovf send pol cancelled clk dlq entry s =
     (case retry_loop ovf send pol cancelled clk 1 (rt_BaseDelay pol) None entry s of
        (RSent, waits, s') \<Rightarrow> (None, waits, dlq, s')
      | (RCancelled e, waits, s') \<Rightarrow> (Some e, waits, dlq, s')
      | (RExhausted lastErr entry', waits, s') \<Rightarrow>
          (lastErr, waits, map_option (dlq_Append (clk (rt_MaxAttempts pol + 1)) entry') dlq, s'))"

subsection \<open>Lemmas on the retry loop\<close>

text \<open>The backoff schedule: the delay before attempt \<open>n + 2\<close>.\<close>

fun backoff :: "(rat \<Rightarrow> int) \<Rightarrow> RetryPolicy \<Rightarrow> nat \<Rightarrow> int" where
  "backoff ovf pol 0 = rt_BaseDelay pol"
| "backoff ovf pol (Suc n) = next_delay ovf pol (backoff ovf pol n)"

lemma next_delay_le_cap: "next_delay ovf pol d \<le> rt_Cap pol"
  by (simp add: next_delay_def Let_def)

lemma backoff_le_cap: "rt_BaseDelay pol \<le> rt_Cap pol \<Longrightarrow> backoff ovf pol n \<le> rt_Cap pol"
  by (cases n) (simp_all add: next_delay_le_cap)

lemma retry_loop_waits:
  assumes "retry_loop ovf send pol c clk attempt (backoff ovf pol k) l e s = (out, waits, s')"
  shows "waits = map (backoff ovf pol) [k ..< k + length waits] \<and> (waits \<noteq> [] \<longrightarrow> attempt + int (length waits) \<le> rt_MaxAttempts pol)"
  using assms
proof (induction ovf send pol c clk attempt "backoff ovf pol k" l e s arbitrary: k out waits s' rule: retry_loop.induct)
  case (1 ovf send pol c clk attempt l e s)
  show ?case
  proof (cases "attempt < rt_MaxAttempts pol \<and> (\<exists>err s1. send s = (Some err, s1) \<and> c attempt = None)")
    case True
    then obtain err s1 where t: "attempt < rt_MaxAttempts pol" "send s = (Some err, s1)" "c attempt = None"
      by auto
    define e' where "e' = e\<lparr>dq_Attempts := attempt, dq_LastErr := Some err, dq_LastAttemptUnix := unix_sec (clk attempt)\<rparr>"
    obtain out' ws s2 where r: "retry_loop ovf send pol c clk (attempt + 1) (backoff ovf pol (Suc k)) (Some err) e' s1 = (out', ws, s2)"
      by (metis prod_cases3)
    have w: "waits = backoff ovf pol k # ws"
      using "1.prems" t r by (subst (asm) retry_loop.simps) (simp add: e'_def)
    have "ws = map (backoff ovf pol) [Suc k ..< Suc k + length ws] \<and> (ws \<noteq> [] \<longrightarrow> attempt + 1 + int (length ws) \<le> rt_MaxAttempts pol)"
      by (rule "1.hyps" [OF _ t(2) [symmetric] refl e'_def _ t(3), of "Suc k" out' ws s2])
         (use t(1) r in \<open>simp_all\<close>)
    then show ?thesis
      using t(1) by (cases ws) (auto simp: w upt_rec)
  next
    case False
    then have "waits = []"
      using "1.prems" by (subst (asm) retry_loop.simps) (auto simp: Let_def split: prod.splits option.splits if_splits)
    then show ?thesis by simp
  qed
qed

text \<open>Reference: up to \<open>n\<close> sends, stopping at the first that succeeds.\<close>

fun first_success :: "('s \<Rightarrow> string option \<times> 's) \<Rightarrow> nat \<Rightarrow> 's \<Rightarrow> bool \<times> 's" where
  "first_success send 0 s = (False, s)"
| "first_success send (Suc n) s =
     (case send s of (None, s1) \<Rightarrow> (True, s1) | (Some err, s1) \<Rightarrow> first_success send n s1)"

lemma retry_loop_first_success:
  assumes "attempt + int n = rt_MaxAttempts pol + 1"
  shows "case retry_loop ovf send pol (\<lambda>_. None) clk attempt d l e s of
           (RSent, w, s') \<Rightarrow> first_success send n s = (True, s')
         | (RCancelled err, w, s') \<Rightarrow> False
         | (RExhausted l' e', w, s') \<Rightarrow> first_success send n s = (False, s') \<and> (0 < n \<longrightarrow> l' \<noteq> None) \<and>
             dq_Envelope e' = dq_Envelope e \<and> dq_PeerAddr e' = dq_PeerAddr e"
  using assms
proof (induction n arbitrary: attempt d l e s)
  case 0
  then show ?case by (simp add: retry_loop.simps)
next
  case (Suc n)
  show ?case
  proof (cases "send s")
    case (Pair r s1)
    show ?thesis
    proof (cases r)
      case None
      then show ?thesis using Suc.prems Pair by (simp add: retry_loop.simps)
    next
      case (Some err)
      let ?e = "e\<lparr>dq_Attempts := attempt, dq_LastErr := Some err, dq_LastAttemptUnix := unix_sec (clk attempt)\<rparr>"
      show ?thesis
      proof (cases "n = 0")
        case True
        then show ?thesis using Suc.prems Pair Some by (simp add: retry_loop.simps)
      next
        case False
        then have n: "attempt < rt_MaxAttempts pol" "attempt \<noteq> rt_MaxAttempts pol" using Suc.prems by auto
        have IH: "attempt + 1 + int n = rt_MaxAttempts pol + 1" using Suc.prems by simp
        show ?thesis
          using Suc.IH [OF IH, where d = "next_delay ovf pol d" and l = "Some err" and e = ?e and s = s1] n Pair Some False
          by (subst retry_loop.simps) (auto simp: Let_def split: prod.splits retry_outcome.splits)
      qed
    qed
  qed
qed

lemma SendWithRetry_first_success:
  assumes "1 \<le> rt_MaxAttempts pol"
  obtains w d' where
    "SendWithRetry ovf send pol (\<lambda>_. None) clk None entry s =
       (if fst (first_success send (nat (rt_MaxAttempts pol)) s) then None else d', w, None,
        snd (first_success send (nat (rt_MaxAttempts pol)) s))"
    "d' \<noteq> None"
proof -
  have *: "1 + int (nat (rt_MaxAttempts pol)) = rt_MaxAttempts pol + 1" using assms by simp
  show ?thesis
    using retry_loop_first_success [OF *, where ovf = ovf and send = send and clk = clk and d = "rt_BaseDelay pol" and l = None and e = entry and s = s] assms
    by (intro that [of "case fst (retry_loop ovf send pol (\<lambda>_. None) clk 1 (rt_BaseDelay pol) None entry s) of
                          RExhausted l e \<Rightarrow> l | _ \<Rightarrow> Some []"
                       "fst (snd (retry_loop ovf send pol (\<lambda>_. None) clk 1 (rt_BaseDelay pol) None entry s))"])
       (auto simp: SendWithRetry_def split: prod.splits retry_outcome.splits)
qed

lemma retry_loop_RSent:
  "retry_loop ovf send pol c clk attempt d l e s = (RSent, w, s') \<Longrightarrow> \<exists>s0. send s0 = (None, s')"
proof (induction ovf send pol c clk attempt d l e s arbitrary: w rule: retry_loop.induct)
  case (1 ovf send pol c clk attempt d l e s)
  show ?case
    using "1.prems"
    by (subst (asm) retry_loop.simps)
       (auto simp: Let_def split: if_splits prod.splits option.splits dest: "1.IH" [OF _ _ _ refl])
qed

lemma retry_loop_RExhausted_err:
  assumes "retry_loop ovf send pol c clk attempt d l e s = (RExhausted l' e', w, s')" "attempt \<le> rt_MaxAttempts pol"
  shows "\<exists>err. l' = Some err"
proof -
  have "retry_loop ovf send pol c clk attempt d l e s = (RExhausted l' e', w, s') \<Longrightarrow> \<exists>err. l' = Some err"
    if "attempt + int n = rt_MaxAttempts pol" for n
    using that
  proof (induction n arbitrary: attempt d l e s w)
    case 0
    then show ?case
      by (subst (asm) retry_loop.simps) (auto simp: Let_def split: prod.splits option.splits)
  next
    case (Suc n)
    then show ?case
      by (subst (asm) (2) retry_loop.simps) (force simp: Let_def split: prod.splits option.splits if_splits)
  qed
  then show ?thesis using assms by (metis zle_iff_zadd)
qed

lemma SendWithRetry_ok:
  assumes "SendWithRetry ovf send pol c clk dlq entry s = (None, w, dlq', s')" "1 \<le> rt_MaxAttempts pol"
  shows "dlq' = dlq" "\<exists>s0. send s0 = (None, s')"
proof -
  obtain out ws s1 where r: "retry_loop ovf send pol c clk 1 (rt_BaseDelay pol) None entry s = (out, ws, s1)"
    by (metis prod_cases3)
  have "out = RSent \<and> dlq' = dlq \<and> s1 = s'"
    using assms(1) retry_loop_RExhausted_err [where l' = None, OF _ assms(2)] r
    by (cases out) (auto simp: SendWithRetry_def)
  then show "dlq' = dlq" "\<exists>s0. send s0 = (None, s')" using retry_loop_RSent r by auto
qed

lemma SendWithRetry_first_ok:
  assumes "send s = (None, s')" "1 \<le> rt_MaxAttempts pol"
  shows "SendWithRetry ovf send pol c clk dlq entry s = (None, [], dlq, s')"
  using assms by (simp add: SendWithRetry_def retry_loop.simps)

lemma retry_loop_failing:
  assumes fail: "\<And>s. \<exists>e s'. send s = (Some e, s')" and "attempt + int n = rt_MaxAttempts pol"
  shows "\<exists>err e' s'. retry_loop ovf send pol (\<lambda>_. None) clk attempt (backoff ovf pol k) l e s =
      (RExhausted (Some err) e', map (backoff ovf pol) [k ..< k + n], s') \<and>
    dq_Attempts e' = rt_MaxAttempts pol \<and> dq_Envelope e' = dq_Envelope e"
  using assms(2)
proof (induction n arbitrary: attempt k l e s)
  case 0
  obtain er s1 where "send s = (Some er, s1)" using fail by blast
  then show ?case using 0 by (simp add: retry_loop.simps)
next
  case (Suc n)
  obtain er s1 where s1: "send s = (Some er, s1)" using fail by blast
  let ?e = "e\<lparr>dq_Attempts := attempt, dq_LastErr := Some er, dq_LastAttemptUnix := unix_sec (clk attempt)\<rparr>"
  have "attempt + 1 + int n = rt_MaxAttempts pol" using Suc.prems by simp
  from Suc.IH [OF this, of "Suc k" "Some er" ?e s1] obtain err e' s' where
    "retry_loop ovf send pol (\<lambda>_. None) clk (attempt + 1) (backoff ovf pol (Suc k)) (Some er) ?e s1 =
      (RExhausted (Some err) e', map (backoff ovf pol) [Suc k ..< Suc k + n], s')"
    "dq_Attempts e' = rt_MaxAttempts pol" "dq_Envelope e' = dq_Envelope e" by auto
  then show ?case using s1 Suc.prems
    by (subst retry_loop.simps) (simp add: upt_conv_Cons del: upt_Suc)
qed

lemma default_next_delay: "0 \<le> d \<Longrightarrow> d \<le> 5 * minute \<Longrightarrow> next_delay ovf DefaultRetryPolicy d = min (2 * d) (5 * minute)"
  using round64_int [of d] round64_int [of 2] mul64_int [of d 2] int64_of_int [of "d * 2" ovf]
  by (simp add: next_delay_def DefaultRetryPolicy_def duration_defs Let_def min_def)

lemma default_backoff: "i < 9 \<Longrightarrow> backoff ovf DefaultRetryPolicy i = 2 ^ i * second"
proof (induction i)
  case 0
  then show ?case by (simp add: DefaultRetryPolicy_def)
next
  case (Suc i)
  have "(2 :: int) ^ Suc i \<le> 2 ^ 8" using Suc.prems by (intro power_increasing) auto
  then show ?case using Suc default_next_delay [of "2 ^ i * second" ovf] by (simp add: duration_defs)
qed

text \<open>
  The rounding shows in the delays, and the cap does not hold back an overflow: 100 ns grow to
  114 ns under a multiplier of 1.15, and on amd64 a delay that leaves \<open>int64\<close> becomes negative.
\<close>

lemma next_delay_rounds:
  "next_delay ovf \<lparr>rt_BaseDelay = 100, rt_Multiplier = 23 / 20, rt_Cap = second, rt_MaxAttempts = 10\<rparr> 100 = 114"
proof -
  have x: "mul64 (round64 100) (round64 (23 / 20)) = 8092405580431359 / 70368744177664" by code_simp
  show ?thesis by (simp add: next_delay_def x int64_of_def truncate_rat_def duration_defs Let_def floor_eq_iff)
qed

lemma next_delay_overflows:
  "next_delay amd64 \<lparr>rt_BaseDelay = second, rt_Multiplier = 10 ^ 10, rt_Cap = 5 * minute, rt_MaxAttempts = 10\<rparr> second = - (2 ^ 63)"
  by code_simp

definition demo_dlq_entry :: DLQEntry where
  "demo_dlq_entry = new_entry demo_padding ''10.0.0.2:7777''"

subsection \<open>Properties\<close>


text \<open>A send that fails while the counter is positive.\<close>

definition flaky :: "nat \<Rightarrow> string option \<times> nat" where
  "flaky n = (case n of 0 \<Rightarrow> (None, 0) | Suc m \<Rightarrow> (Some ''down'', m))"


text \<open>
  The default policy (ADR-007): the ninth wait is 256 s, so a peer that always fails is
  tried ten times with delays 1, 2, 4, ..., 256 s between the tries, and the envelope ends
  in the dead-letter queue exactly once, with ten attempts recorded.
\<close>

theorem default_policy_exhaustion:
  assumes "\<And>s. \<exists>e s'. send s = (Some e, s')"
    and "SendWithRetry ovf send DefaultRetryPolicy (\<lambda>_. None) clk (Some d) entry s = (err, waits, dlq, s')"
  shows "waits = map (\<lambda>i. 2 ^ i * second) [0 ..< 9] \<and> err \<noteq> None \<and>
    (\<exists>x. dlq = Some (d @ [x]) \<and> dq_Envelope x = dq_Envelope entry \<and> dq_Attempts x = 10)"
proof -
  let ?p = DefaultRetryPolicy
  have p: "1 + int 9 = rt_MaxAttempts ?p" "rt_BaseDelay ?p = backoff ovf ?p 0" "rt_MaxAttempts ?p = 10"
    by (simp_all add: DefaultRetryPolicy_def)
  from retry_loop_failing [where send = send, OF assms(1) p(1), where ovf = ovf and k = 0 and clk = clk and l = None and e = entry and s = s]
  obtain er e' s1 where r: "retry_loop ovf send ?p (\<lambda>_. None) clk 1 (rt_BaseDelay ?p) None entry s =
      (RExhausted (Some er) e', map (backoff ovf ?p) [0 ..< 9], s1)"
    "dq_Attempts e' = 10" "dq_Envelope e' = dq_Envelope entry"
    by (auto simp: p simp del: backoff.simps)
  have "waits = map (backoff ovf ?p) [0 ..< 9]" "err = Some er" "dlq = Some (dlq_Append (clk (rt_MaxAttempts ?p + 1)) e' d)"
    using assms(2) r(1) by (auto simp: SendWithRetry_def)
  moreover have "map (backoff ovf ?p) [0 ..< 9] = map (\<lambda>i. 2 ^ i * second) [0 ..< 9]"
    by (rule map_cong [OF refl]) (simp add: default_backoff)
  ultimately show ?thesis using r(2,3) by (auto simp: dlq_Append_def)
qed

theorem default_policy_exhaustion_witness:
  "\<exists>err dlq. SendWithRetry amd64 (\<lambda>n. (Some ''down'', Suc n)) DefaultRetryPolicy (\<lambda>_. None) (\<lambda>_. 0) (Some []) demo_dlq_entry 0 =
     (err, map (\<lambda>i. 2 ^ i * second) [0 ..< 9], dlq, 10) \<and> err \<noteq> None"
proof -
  obtain err waits dlq s' where r:
    "SendWithRetry amd64 (\<lambda>n. (Some ''down'', Suc n)) DefaultRetryPolicy (\<lambda>_. None) (\<lambda>_. 0) (Some []) demo_dlq_entry 0 = (err, waits, dlq, s')"
    by (metis prod_cases4)
  have "first_success (\<lambda>n. (Some ''down'', Suc n)) 10 0 = (False, 10)" by (simp add: eval_nat_numeral)
  then have "s' = 10"
    using r retry_loop_first_success [where ovf = amd64 and attempt = 1 and n = 10 and pol = DefaultRetryPolicy
        and send = "\<lambda>n. (Some ''down'', Suc n)" and clk = "\<lambda>_. 0" and d = "rt_BaseDelay DefaultRetryPolicy"
        and l = None and e = demo_dlq_entry and s = 0]
    by (auto simp: SendWithRetry_def DefaultRetryPolicy_def split: prod.splits retry_outcome.splits)
  then show ?thesis using default_policy_exhaustion [OF _ r] r by auto
qed

end
