(* ===== verification/Transit.thy ===== *)
theory Transit
  imports Envelope_Types
begin

text \<open>
  The in-memory relay buffer (\<open>internal/transit/cache.go\<close>): a map from idempotency keys to
  entries with an expiry, bounded by \<open>maxEntries\<close>. Reads of the clock are the argument
  \<open>now\<close> (nanoseconds) and the order in which a \<open>range\<close> loop meets the keys is the argument
  \<open>ks\<close>. The lemmas show the bound on the size, that \<open>Drain\<close> and \<open>Pending\<close> split the
  buffer, and that the entry a full buffer gives up is one with the earliest expiry.
\<close>

definition maxEntries :: nat where "maxEntries = 1000"

definition maxTTL :: int where "maxTTL = 60 * second"

record transit_Entry =
  te_Env :: Envelope
  te_PeerAddr :: string
  te_Expires :: int

record transit_Cache =
  tc_entries :: "string \<rightharpoonup> transit_Entry"
  tc_ttl :: int

definition transit_New :: "int \<Rightarrow> transit_Cache" where
  "transit_New ttl =
     (let ttl1 = (if ttl \<le> 0 then 30 * second else ttl);
          ttl2 = (if ttl1 > maxTTL then maxTTL else ttl1)
      in \<lparr>tc_entries = Map.empty, tc_ttl = ttl2\<rparr>)"

fun evict_scan :: "(string \<rightharpoonup> transit_Entry) \<Rightarrow> string list \<Rightarrow> string \<Rightarrow> int \<Rightarrow> string" where
  "evict_scan m [] oldestKey oldestExp = oldestKey"
| "evict_scan m (k # ks) oldestKey oldestExp =
     (case m k of
        None \<Rightarrow> evict_scan m ks oldestKey oldestExp
      | Some e \<Rightarrow>
          if oldestKey = '''' \<or> te_Expires e < oldestExp then evict_scan m ks k (te_Expires e)
          else evict_scan m ks oldestKey oldestExp)"

definition evictOldest :: "string list \<Rightarrow> transit_Cache \<Rightarrow> transit_Cache" where
  "evictOldest ks c =
     c\<lparr>tc_entries := (tc_entries c)(evict_scan (tc_entries c) ks '''' 0 := None)\<rparr>"

definition transit_Len :: "transit_Cache \<Rightarrow> nat" where
  "transit_Len c = card (dom (tc_entries c))"

definition transit_Put :: "string list \<Rightarrow> int \<Rightarrow> Envelope \<Rightarrow> string \<Rightarrow> transit_Cache \<Rightarrow> transit_Cache" where
  "transit_Put ks now env peerAddr c =
     (let c1 = (if transit_Len c \<ge> maxEntries then evictOldest ks c else c) in
      c1\<lparr>tc_entries := (tc_entries c1)(ev_IdempotencyKey env \<mapsto>
            \<lparr>te_Env = env, te_PeerAddr = peerAddr, te_Expires = now + tc_ttl c1\<rparr>)\<rparr>)"

definition Pending :: "string list \<Rightarrow> int \<Rightarrow> transit_Cache \<Rightarrow> transit_Entry list" where
  "Pending ks now c =
     filter (\<lambda>e. \<not> now > te_Expires e) (List.map_filter (tc_entries c) ks)"

definition Drain :: "string list \<Rightarrow> int \<Rightarrow> transit_Cache \<Rightarrow> transit_Entry list \<times> transit_Cache" where
  "Drain ks now c =
     (filter (\<lambda>e. now > te_Expires e) (List.map_filter (tc_entries c) ks),
      c\<lparr>tc_entries := delete_if (\<lambda>e. now > te_Expires e) ks (tc_entries c)\<rparr>)"

definition transit_Delete :: "string \<Rightarrow> transit_Cache \<Rightarrow> transit_Cache" where
  "transit_Delete key c = c\<lparr>tc_entries := (tc_entries c)(key := None)\<rparr>"

subsection \<open>Invariant\<close>

definition transit_inv :: "transit_Cache \<Rightarrow> bool" where
  "transit_inv c \<longleftrightarrow>
     finite (dom (tc_entries c)) \<and> transit_Len c \<le> maxEntries \<and> 0 < tc_ttl c \<and> tc_ttl c \<le> maxTTL \<and>
     (\<forall>k e. tc_entries c k = Some e \<longrightarrow> ev_IdempotencyKey (te_Env e) = k)"

lemma transit_New_inv: "transit_inv (transit_New ttl)"
  by (simp add: transit_inv_def transit_New_def Let_def transit_Len_def maxTTL_def duration_defs)

lemma evict_scan_dom:
  "\<lbrakk>set ks \<subseteq> dom m; ks \<noteq> [] \<or> key \<in> dom m; key = '''' \<or> key \<in> dom m\<rbrakk> \<Longrightarrow> evict_scan m ks key ex \<in> dom m"
proof (induction ks arbitrary: key ex)
  case (Cons k ks)
  then obtain e where "m k = Some e" by auto
  then show ?case using Cons by (cases "key = ''''"; cases "ks = []") (auto simp: domIff)
qed auto

lemma evict_scan_least:
  "\<lbrakk>'''' \<notin> dom m; set ks \<subseteq> dom m; key = '''' \<or> (\<exists>e. m key = Some e \<and> te_Expires e = ex);
    k \<in> set ks \<union> {key}; m k = Some e; m (evict_scan m ks key ex) = Some e0\<rbrakk> \<Longrightarrow> te_Expires e0 \<le> te_Expires e"
proof (induction ks arbitrary: key ex k e)
  case (Cons j ks)
  then obtain e1 where e1: "m j = Some e1" by auto
  show ?case
  proof (cases "key = '''' \<or> te_Expires e1 < ex")
    case True
    have j: "te_Expires e0 \<le> te_Expires e1"
      by (rule Cons.IH [of j "te_Expires e1" j e1]) (use Cons.prems e1 True in auto)
    show ?thesis
    proof (cases "k \<in> set ks \<union> {j}")
      case in_ks: True
      show ?thesis by (rule Cons.IH [of j "te_Expires e1" k e]) (use Cons.prems e1 True in_ks in auto)
    next
      case False
      then have "k = key" "key \<noteq> ''''" using Cons.prems by auto
      then show ?thesis using j True Cons.prems by auto
    qed
  next
    case False
    have key: "te_Expires e0 \<le> ex"
      using Cons.IH [of key ex key] Cons.prems e1 False by auto
    show ?thesis
    proof (cases "k = j")
      case True
      then show ?thesis using key e1 Cons.prems False by auto
    next
      case neq: False
      show ?thesis by (rule Cons.IH [of key ex k e]) (use Cons.prems e1 False neq in auto)
    qed
  qed
qed auto

lemma evictOldest_size:
  assumes "enumerates ks (tc_entries c)" "0 < transit_Len c"
  shows "Suc (transit_Len (evictOldest ks c)) = transit_Len c"
proof -
  have "ks \<noteq> []" using assms by (auto simp: enumerates_def transit_Len_def)
  then have "evict_scan (tc_entries c) ks '''' 0 \<in> dom (tc_entries c)"
    using assms by (intro evict_scan_dom) (auto simp: enumerates_def)
  then show ?thesis using enumerates_finite [OF assms(1)] assms(2)
    by (simp add: evictOldest_def transit_Len_def card_Suc_Diff1 del: card_Diff_insert)
qed

lemma transit_Put_inv:
  assumes "transit_inv c" "enumerates ks (tc_entries c)"
  shows "transit_inv (transit_Put ks now env addr c)"
proof -
  define c1 where "c1 = (if transit_Len c \<ge> maxEntries then evictOldest ks c else c)"
  have c1: "transit_Len c1 < maxEntries" "tc_ttl c1 = tc_ttl c" "dom (tc_entries c1) \<subseteq> dom (tc_entries c)"
    "\<And>k e. tc_entries c1 k = Some e \<Longrightarrow> tc_entries c k = Some e"
    using evictOldest_size [OF assms(2)] assms(1)
    by (auto simp: c1_def transit_inv_def maxEntries_def evictOldest_def split: if_splits)
  then have "finite (dom (tc_entries c1))"
    using assms(1) by (auto simp: transit_inv_def intro: finite_subset)
  moreover have "transit_Put ks now env addr c =
      c1\<lparr>tc_entries := (tc_entries c1)(ev_IdempotencyKey env \<mapsto>
            \<lparr>te_Env = env, te_PeerAddr = addr, te_Expires = now + tc_ttl c1\<rparr>)\<rparr>"
    by (simp add: transit_Put_def Let_def c1_def)
  ultimately show ?thesis
    using c1 assms(1) by (auto simp: transit_inv_def transit_Len_def card_insert_if)
qed

lemma Drain_inv: "transit_inv c \<Longrightarrow> transit_inv (snd (Drain ks now c))"
  using delete_if_dom [of "\<lambda>e. now > te_Expires e" ks "tc_entries c"]
  by (auto simp: transit_inv_def Drain_def transit_Len_def delete_if_lookup
      intro: finite_subset order_trans [OF card_mono] split: option.splits if_splits)

lemma transit_Delete_inv: "transit_inv c \<Longrightarrow> transit_inv (transit_Delete k c)"
  by (auto simp: transit_inv_def transit_Delete_def transit_Len_def
      intro: order_trans [OF card_mono])

lemma set_Pending:
  "enumerates ks (tc_entries c) \<Longrightarrow>
   set (Pending ks now c) = {e. e \<in> ran (tc_entries c) \<and> now \<le> te_Expires e}"
  by (auto simp: Pending_def set_map_filter_enum)

lemma set_Drain:
  "enumerates ks (tc_entries c) \<Longrightarrow>
   set (fst (Drain ks now c)) = {e. e \<in> ran (tc_entries c) \<and> te_Expires e < now}"
  by (auto simp: Drain_def set_map_filter_enum)

lemma Drain_entries:
  "enumerates ks (tc_entries c) \<Longrightarrow>
   tc_entries (snd (Drain ks now c)) k =
     (case tc_entries c k of Some e \<Rightarrow> if te_Expires e < now then None else Some e | None \<Rightarrow> None)"
  by (simp add: Drain_def delete_if_enum cong: option.case_cong)

subsection \<open>Properties\<close>

text \<open>
  The transit buffer is bounded: \<open>New\<close> yields a time to live within 60 s, and every
  \<open>Put\<close>, \<open>Drain\<close> and \<open>Delete\<close> keeps at most 1000 entries, each stored under its own
  idempotency key. A \<open>Put\<close> into a full buffer removes one entry that expires no later than
  any other, as long as no entry has the empty key.
\<close>

theorem transit_bounded:
  assumes "transit_inv c" "enumerates ks (tc_entries c)"
  shows "transit_inv (transit_New ttl) \<and> transit_inv (transit_Put ks now env addr c) \<and>
    transit_inv (snd (Drain ks now c)) \<and> transit_inv (transit_Delete key c) \<and>
    ('''' \<notin> dom (tc_entries c) \<longrightarrow> maxEntries \<le> transit_Len c \<longrightarrow>
      (\<exists>k e. tc_entries c k = Some e \<and> evictOldest ks c = c\<lparr>tc_entries := (tc_entries c)(k := None)\<rparr> \<and>
         (\<forall>k' e'. tc_entries c k' = Some e' \<longrightarrow> te_Expires e \<le> te_Expires e')))"
proof -
  have "\<exists>k e. tc_entries c k = Some e \<and> evictOldest ks c = c\<lparr>tc_entries := (tc_entries c)(k := None)\<rparr> \<and>
         (\<forall>k' e'. tc_entries c k' = Some e' \<longrightarrow> te_Expires e \<le> te_Expires e')"
    if key: "'''' \<notin> dom (tc_entries c)" and full: "maxEntries \<le> transit_Len c"
  proof -
    let ?k = "evict_scan (tc_entries c) ks '''' 0"
    have ks: "ks \<noteq> []" "set ks = dom (tc_entries c)"
      using full assms(2) by (auto simp: enumerates_def transit_Len_def maxEntries_def)
    then have "?k \<in> dom (tc_entries c)" by (intro evict_scan_dom) auto
    then obtain e where e: "tc_entries c ?k = Some e" by blast
    have "te_Expires e \<le> te_Expires e'" if "tc_entries c k' = Some e'" for k' e'
      by (rule evict_scan_least [OF key _ _ _ that e]) (use ks that in auto)
    then show ?thesis using e by (intro exI [of _ ?k] exI [of _ e]) (simp add: evictOldest_def)
  qed
  then show ?thesis
    using transit_New_inv transit_Put_inv [OF assms] Drain_inv [OF assms(1)] transit_Delete_inv [OF assms(1)] by blast
qed

theorem transit_bounded_witness:
  "transit_inv (transit_Put [] 0 demo_padding ''a'' (transit_New 0))"
  using transit_bounded [OF transit_New_inv, of "[]" 0] by (simp add: transit_New_def Let_def)

text \<open>
  \<open>Drain\<close> takes out exactly the expired entries and \<open>Pending\<close> lists exactly the others:
  what is drained and what is left partition the buffer, and after a drain every remaining
  entry is pending.
\<close>

theorem drain_partitions:
  assumes "enumerates ks (tc_entries c)" "Drain ks now c = (out, c')"
  shows "set out = {e \<in> ran (tc_entries c). te_Expires e < now} \<and>
    set (Pending ks now c) = {e \<in> ran (tc_entries c). now \<le> te_Expires e} \<and>
    ran (tc_entries c') = set (Pending ks now c)"
proof -
  have "ran (tc_entries c') = {e \<in> ran (tc_entries c). now \<le> te_Expires e}"
    using Drain_entries [OF assms(1), of now] assms(2)
    by (fastforce simp: ran_def split: option.splits if_splits)
  then show ?thesis using set_Drain [OF assms(1), of now] set_Pending [OF assms(1), of now] assms(2) by simp
qed

theorem drain_partitions_witness:
  "\<exists>out c'. Drain [''k''] 100 (transit_Put [] 0 demo_padding ''a'' (transit_New 1)) = (out, c') \<and>
     map te_Env out = [demo_padding] \<and> ran (tc_entries c') = {}"
proof -
  let ?c = "transit_Put [] 0 demo_padding ''a'' (transit_New 1)"
  obtain out c' where d: "Drain [''k''] 100 ?c = (out, c')" by force
  have c: "tc_entries ?c = [''k'' \<mapsto> \<lparr>te_Env = demo_padding, te_PeerAddr = ''a'', te_Expires = 1\<rparr>]"
    by (simp add: transit_Put_def transit_New_def transit_Len_def maxEntries_def maxTTL_def duration_defs demo_padding_def Let_def)
  then have e: "enumerates [''k''] (tc_entries ?c)" by (simp add: enumerates_def)
  have "map te_Env out = [demo_padding]"
    using d by (auto simp: Drain_def c List.map_filter_def)
  then show ?thesis using drain_partitions [OF e d] d
    by (auto simp: Pending_def c List.map_filter_def)
qed

end
