(* ===== verification/Forwarder.thy ===== *)
theory Forwarder
  imports "HOL-Library.Multiset" Schema Delivery Transit
begin

text \<open>
  Path selection and forwarding (\<open>internal/delivery/forwarder.go\<close>). The transport function
  \<open>send\<close> is a parameter: it maps an address, an envelope and the state of the outside
  world to the peer's root hash, an optional error and the new state of the world. The
  order in which the peer map is ranged over is \<open>ks\<close>, the one for the transit buffer is
  \<open>tks\<close>; the context of the call is \<open>cancelled\<close>, indexed by the position of the peer and
  the attempt. The clock of the window check is \<open>now\<close>; \<open>clk\<close> gives the later readings, by the
  number of peers tried before and the attempt, with attempt 0 for the time an envelope is set aside.
  \<open>ovf\<close> is that of the backoff. The dead-letter queue and the transit buffer are part of the state.
\<close>

record forwarder =
  fw_cfg :: Config
  fw_dlq :: "DLQ option"
  fw_transitCache :: "transit_Cache option"
  fw_retryPolicy :: RetryPolicy

datatype fwd_error =
    CutoffCheck window_error
  | OutsideWindow string
  | NoPeer string
  | Buffered string
  | Exhausted string

definition NewForwarder :: "Config \<Rightarrow> DLQ option \<Rightarrow> transit_Cache option \<Rightarrow> forwarder" where
  "NewForwarder cfg dlq tc =
     \<lparr>fw_cfg = cfg, fw_dlq = dlq, fw_transitCache = tc, fw_retryPolicy = DefaultRetryPolicy\<rparr>"

definition NewForwarderWithPolicy ::
  "Config \<Rightarrow> DLQ option \<Rightarrow> transit_Cache option \<Rightarrow> RetryPolicy \<Rightarrow> forwarder" where
  "NewForwarderWithPolicy cfg dlq tc pol =
     \<lparr>fw_cfg = cfg, fw_dlq = dlq, fw_transitCache = tc, fw_retryPolicy = pol\<rparr>"

fun peers_loop ::
  "string list \<Rightarrow> (string \<rightharpoonup> PeerConfig) \<Rightarrow> string \<Rightarrow> string list \<Rightarrow>
   PeerConfig list \<Rightarrow> PeerConfig list \<Rightarrow> PeerConfig list \<Rightarrow> PeerConfig list" where
  "peers_loop allowVia peers region [] regional alliance global = (regional @ alliance) @ global"
| "peers_loop allowVia peers region (key # ks) regional alliance global =
     (case peers key of
        None \<Rightarrow> peers_loop allowVia peers region ks regional alliance global
      | Some peer \<Rightarrow>
          if allowVia \<noteq> [] \<and> pc_NodeScope peer \<notin> set allowVia
          then peers_loop allowVia peers region ks regional alliance global
          else if pc_NodeScope peer = ''regional''
          then peers_loop allowVia peers region ks
                 (if key = region then regional @ [peer] else regional) alliance global
          else if pc_NodeScope peer = ''alliance''
          then peers_loop allowVia peers region ks regional
                 (if region \<in> set (pc_Regions peer) then alliance @ [peer] else alliance) global
          else if pc_NodeScope peer = ''global''
          then peers_loop allowVia peers region ks regional alliance (global @ [peer])
          else peers_loop allowVia peers region ks regional alliance global)"

definition PeersFor :: "Config \<Rightarrow> string list \<Rightarrow> string \<Rightarrow> PeerConfig list" where
  "PeersFor cfg ks recipientRegion =
     peers_loop (pol_AllowVia (cfg_Policy cfg)) (nw_Peers (cfg_Network cfg)) recipientRegion ks [] [] []"

fun reorder_from :: "PeerConfig list \<Rightarrow> PeerConfig list \<Rightarrow> string \<Rightarrow> PeerConfig list" where
  "reorder_from pre [] hint = pre"
| "reorder_from pre (p # ps) hint =
     (if pc_Region p = hint then p # pre @ ps else reorder_from (pre @ [p]) ps hint)"

definition reorderByHint :: "PeerConfig list \<Rightarrow> string \<Rightarrow> PeerConfig list" where
  "reorderByHint peers hint = reorder_from [] peers hint"

text \<open>The result is the next opening (\<open>None\<close> is the zero time) and the error.\<close>

definition checkCutoffWindow ::
  "(string \<Rightarrow> location option) \<Rightarrow> Config \<Rightarrow> int \<Rightarrow> Envelope \<Rightarrow> int option \<times> fwd_error option" where
  "checkCutoffWindow LoadLocation cfg now env =
     (let windows = iso_CutoffWindows (sr_Iso20022 (cfg_SchemaRegistry cfg));
          corridorKey = ev_SenderRegion env @ ''-'' @ ev_RecipientRegion env
      in case windows corridorKey of
           None \<Rightarrow> (None, None)
         | Some w \<Rightarrow>
             (case IsInWindow LoadLocation w now of
                Inl err \<Rightarrow> (None, Some (CutoffCheck err))
              | Inr inWindow \<Rightarrow>
                  if \<not> inWindow
                  then (case NextOpen LoadLocation w now of Inr no \<Rightarrow> Some no | Inl _ \<Rightarrow> None,
                        Some (OutsideWindow corridorKey))
                  else (None, None)))"

type_synonym 'w transport = "string \<Rightarrow> Envelope \<Rightarrow> 'w \<Rightarrow> (string \<times> string option) \<times> 'w"

text \<open>The closure passed to \<open>SendWithRetry\<close>: it assigns the captured \<open>peerRootHash\<close>.\<close>

definition send_closure ::
  "'w transport \<Rightarrow> string \<Rightarrow> Envelope \<Rightarrow> string \<times> 'w \<Rightarrow> string option \<times> string \<times> 'w" where
  "send_closure send addr env st =
     (case st of (peerRootHash, w) \<Rightarrow>
        (case send addr env w of ((h, sendErr), w') \<Rightarrow> (sendErr, h, w')))"

fun forward_peers ::
  "(rat \<Rightarrow> int) \<Rightarrow> 'w transport \<Rightarrow> RetryPolicy \<Rightarrow> (nat \<Rightarrow> int \<Rightarrow> string option) \<Rightarrow> (nat \<Rightarrow> int \<Rightarrow> int) \<Rightarrow> nat \<Rightarrow>
   Envelope \<Rightarrow> PeerConfig list \<Rightarrow> 'w \<Rightarrow> string option \<times> 'w" where
  "forward_peers ovf send pol cancelled clk i env [] w = (None, w)"
| "forward_peers ovf send pol cancelled clk i env (peer # peers) w =
     (case SendWithRetry ovf (send_closure send (pc_Addr peer) env) pol (cancelled i) (clk i) None
             (new_entry env (pc_Addr peer)) ('''', w) of
        (None, _, _, (peerRootHash, w')) \<Rightarrow> (Some peerRootHash, w')
      | (Some _, _, _, (_, w')) \<Rightarrow> forward_peers ovf send pol cancelled clk (Suc i) env peers w')"

text \<open>What \<open>Forward\<close> does after the window check.\<close>

definition forward_route ::
  "(rat \<Rightarrow> int) \<Rightarrow> 'w transport \<Rightarrow> (nat \<Rightarrow> int \<Rightarrow> string option) \<Rightarrow> (nat \<Rightarrow> int \<Rightarrow> int) \<Rightarrow> string list \<Rightarrow> string list \<Rightarrow>
   Envelope \<Rightarrow> forwarder \<Rightarrow> 'w \<Rightarrow> (fwd_error + string) \<times> forwarder \<times> 'w" where
  "forward_route ovf send cancelled clk ks tks env f w =
     (let region = ev_RecipientRegion env; peers0 = PeersFor (fw_cfg f) ks region in
      if peers0 = [] then (Inl (NoPeer region), f, w)
      else
        let peers = (if ev_RoutingHint env \<noteq> '''' then reorderByHint peers0 (ev_RoutingHint env) else peers0) in
        case forward_peers ovf send (fw_retryPolicy f) cancelled clk 0 env peers w of
          (Some peerRootHash, w') \<Rightarrow> (Inr peerRootHash, f, w')
        | (None, w') \<Rightarrow>
            (case fw_transitCache f of
               Some tc \<Rightarrow>
                 (Inl (Buffered region),
                  f\<lparr>fw_transitCache := Some (transit_Put tks (clk (length peers) 0) env (pc_Addr (hd peers)) tc)\<rparr>, w')
             | None \<Rightarrow>
                 (Inl (Exhausted region),
                  f\<lparr>fw_dlq := map_option (dlq_Append (clk (length peers) 0) (new_entry env (pc_Addr (hd peers)))) (fw_dlq f)\<rparr>, w')))"

definition Forward ::
  "(rat \<Rightarrow> int) \<Rightarrow> (string \<Rightarrow> location option) \<Rightarrow> 'w transport \<Rightarrow> (nat \<Rightarrow> int \<Rightarrow> string option) \<Rightarrow> (nat \<Rightarrow> int \<Rightarrow> int) \<Rightarrow>
   int \<Rightarrow> string list \<Rightarrow> string list \<Rightarrow> Envelope \<Rightarrow> forwarder \<Rightarrow> 'w \<Rightarrow>
   (fwd_error + string) \<times> forwarder \<times> 'w" where
  "Forward ovf LoadLocation send cancelled clk now ks tks env f w =
     (case (if ev_SchemaType env = Iso20022 then checkCutoffWindow LoadLocation (fw_cfg f) now env
            else (None, None)) of
        (nextOpen, Some err) \<Rightarrow>
          (let e = (new_entry env '''')\<lparr>dq_Reason := ''outside_cutoff_window''\<rparr>;
               e' = (case nextOpen of Some t \<Rightarrow> e\<lparr>dq_NextOpenUnix := unix_milli t\<rparr> | None \<Rightarrow> e)
           in (Inl err, f\<lparr>fw_dlq := map_option (dlq_Append (clk 0 0) e') (fw_dlq f)\<rparr>, w))
      | (_, None) \<Rightarrow> forward_route ovf send cancelled clk ks tks env f w)"

subsection \<open>Path selection\<close>

text \<open>Which peers may carry traffic for a region, and how far they are.\<close>

definition candidate :: "Config \<Rightarrow> string \<Rightarrow> string \<Rightarrow> PeerConfig \<Rightarrow> bool" where
  "candidate cfg region key peer \<longleftrightarrow>
     (pol_AllowVia (cfg_Policy cfg) = [] \<or> pc_NodeScope peer \<in> set (pol_AllowVia (cfg_Policy cfg))) \<and>
     (pc_NodeScope peer = ''regional'' \<and> key = region \<or>
      pc_NodeScope peer = ''alliance'' \<and> region \<in> set (pc_Regions peer) \<or>
      pc_NodeScope peer = ''global'')"

definition tier_rank :: "PeerConfig \<Rightarrow> nat" where
  "tier_rank p = (if pc_NodeScope p = ''regional'' then 0 else if pc_NodeScope p = ''alliance'' then 1 else 2)"

definition tier_peers :: "Config \<Rightarrow> string \<Rightarrow> string \<Rightarrow> string list \<Rightarrow> PeerConfig list" where
  "tier_peers cfg region tier ks =
     concat (map (\<lambda>k. case nw_Peers (cfg_Network cfg) k of
                         Some p \<Rightarrow> if candidate cfg region k p \<and> pc_NodeScope p = tier then [p] else []
                       | None \<Rightarrow> []) ks)"

lemma peers_loop_tiers:
  "peers_loop (pol_AllowVia (cfg_Policy cfg)) (nw_Peers (cfg_Network cfg)) region ks r a g =
     r @ tier_peers cfg region ''regional'' ks @ a @ tier_peers cfg region ''alliance'' ks @
     g @ tier_peers cfg region ''global'' ks"
  by (induction ks arbitrary: r a g) (auto simp: tier_peers_def candidate_def split: option.splits)

lemma PeersFor_tiers:
  "PeersFor cfg ks region =
     tier_peers cfg region ''regional'' ks @ tier_peers cfg region ''alliance'' ks @
     tier_peers cfg region ''global'' ks"
  by (simp add: PeersFor_def peers_loop_tiers)

lemma set_tier_peers:
  "enumerates ks (nw_Peers (cfg_Network cfg)) \<Longrightarrow>
   set (tier_peers cfg region tier ks) =
     {p. \<exists>k. nw_Peers (cfg_Network cfg) k = Some p \<and> candidate cfg region k p \<and> pc_NodeScope p = tier}"
  by (auto simp: tier_peers_def enumerates_def dom_def split: option.splits if_splits)

lemma set_PeersFor:
  "enumerates ks (nw_Peers (cfg_Network cfg)) \<Longrightarrow>
   set (PeersFor cfg ks region) = {p. \<exists>k. nw_Peers (cfg_Network cfg) k = Some p \<and> candidate cfg region k p}"
  by (auto simp: PeersFor_tiers set_tier_peers candidate_def)

lemma tier_peers_rank: "p \<in> set (tier_peers cfg region tier ks) \<Longrightarrow> pc_NodeScope p = tier"
  by (auto simp: tier_peers_def split: option.splits if_splits)

lemma sorted_map_const: "(\<And>x. x \<in> set xs \<Longrightarrow> f x = c) \<Longrightarrow> sorted (map f xs)"
  by (induction xs) auto

lemma PeersFor_sorted: "sorted (map tier_rank (PeersFor cfg ks region))"
  by (auto simp: PeersFor_tiers sorted_append tier_rank_def dest!: tier_peers_rank
      intro!: sorted_map_const)

lemma reorder_from_cases:
  "(\<exists>i < length ps. pc_Region (ps ! i) = hint \<and> (\<forall>j<i. pc_Region (ps ! j) \<noteq> hint) \<and>
      reorder_from pre ps hint = ps ! i # pre @ take i ps @ drop (Suc i) ps) \<or>
   (\<forall>p \<in> set ps. pc_Region p \<noteq> hint) \<and> reorder_from pre ps hint = pre @ ps"
proof (induction ps arbitrary: pre)
  case (Cons p ps)
  show ?case
  proof (cases "pc_Region p = hint")
    case True
    then show ?thesis by (intro disjI1 exI [of _ 0]) simp
  next
    case False
    from Cons.IH [of "pre @ [p]"] show ?thesis
    proof (elim disjE exE conjE)
      fix i assume i: "i < length ps" "pc_Region (ps ! i) = hint" "\<forall>j<i. pc_Region (ps ! j) \<noteq> hint"
        "reorder_from (pre @ [p]) ps hint = ps ! i # (pre @ [p]) @ take i ps @ drop (Suc i) ps"
      then show ?thesis using False
        by (intro disjI1 exI [of _ "Suc i"]) (auto simp: less_Suc_eq_0_disj)
    qed (use False in auto)
  qed
qed auto

lemma reorderByHint_mset: "mset (reorderByHint peers hint) = mset peers"
proof -
  have "mset (reorder_from pre ps hint) = mset pre + mset ps" for pre ps
    by (induction pre ps hint rule: reorder_from.induct) auto
  then show ?thesis by (simp add: reorderByHint_def)
qed

lemma reorderByHint_set [simp]: "set (reorderByHint peers hint) = set peers"
  by (metis reorderByHint_mset set_mset_mset)

lemma reorderByHint_Nil [simp]: "reorderByHint peers hint = [] \<longleftrightarrow> peers = []"
  by (metis reorderByHint_set set_empty)

subsection \<open>What becomes of an envelope\<close>

definition dlq_envelopes :: "forwarder \<Rightarrow> Envelope list" where
  "dlq_envelopes f = (case fw_dlq f of Some d \<Rightarrow> map dq_Envelope d | None \<Rightarrow> [])"

definition in_transit :: "forwarder \<Rightarrow> Envelope \<Rightarrow> bool" where
  "in_transit f env \<longleftrightarrow>
     (\<exists>tc e. fw_transitCache f = Some tc \<and> tc_entries tc (ev_IdempotencyKey env) = Some e \<and> te_Env e = env)"

lemma transit_Put_present:
  "\<exists>e. tc_entries (transit_Put ks now env addr c) (ev_IdempotencyKey env) = Some e \<and> te_Env e = env"
  by (simp add: transit_Put_def Let_def)

lemma Forward_cases:
  obtains
    (sent) h w' where "Forward ovf ll send c clk now ks tks env f w = (Inr h, f, w')"
  | (cutoff) err d t where "Forward ovf ll send c clk now ks tks env f w =
        (Inl err, f\<lparr>fw_dlq := map_option (dlq_Append t d) (fw_dlq f)\<rparr>, w)"
      "ev_SchemaType env = Iso20022" "dq_Envelope d = env" "dq_Reason d = ''outside_cutoff_window''"
  | (nopeer) "Forward ovf ll send c clk now ks tks env f w = (Inl (NoPeer (ev_RecipientRegion env)), f, w)"
      "PeersFor (fw_cfg f) ks (ev_RecipientRegion env) = []"
  | (buffered) tc addr w' t where "Forward ovf ll send c clk now ks tks env f w =
        (Inl (Buffered (ev_RecipientRegion env)), f\<lparr>fw_transitCache := Some (transit_Put tks t env addr tc)\<rparr>, w')"
      "fw_transitCache f = Some tc"
  | (exhausted) addr w' t where "Forward ovf ll send c clk now ks tks env f w =
        (Inl (Exhausted (ev_RecipientRegion env)),
         f\<lparr>fw_dlq := map_option (dlq_Append t (new_entry env addr)) (fw_dlq f)\<rparr>, w')"
      "fw_transitCache f = None"
proof -
  have route: thesis if "Forward ovf ll send c clk now ks tks env f w = forward_route ovf send c clk ks tks env f w"
    using that sent nopeer buffered exhausted
    by (auto simp: forward_route_def Let_def split: if_splits option.splits prod.splits)
  show thesis
  proof (cases "if ev_SchemaType env = Iso20022 then checkCutoffWindow ll (fw_cfg f) now env else (None, None)")
    case (Pair no err)
    then show thesis
      using route cutoff [where d = "case no of
          Some t \<Rightarrow> (new_entry env '''')\<lparr>dq_Reason := ''outside_cutoff_window'', dq_NextOpenUnix := unix_milli t\<rparr>
        | None \<Rightarrow> (new_entry env '''')\<lparr>dq_Reason := ''outside_cutoff_window''\<rparr>"]
      by (cases err; cases no) (auto simp: Forward_def Let_def new_entry_def split: if_splits)
  qed
qed

lemma forward_peers_sent:
  assumes "forward_peers ovf send pol c clk i env peers w = (Some h, w')" "1 \<le> rt_MaxAttempts pol"
  shows "\<exists>p \<in> set peers. \<exists>w0. send (pc_Addr p) env w0 = ((h, None), w')"
  using assms
proof (induction ovf send pol c clk i env peers w rule: forward_peers.induct)
  case (2 ovf send pol c clk i env peer peers w)
  obtain err ws d h1 w1 where r: "SendWithRetry ovf (send_closure send (pc_Addr peer) env) pol (c i) (clk i) None
             (new_entry env (pc_Addr peer)) ('''', w) = (err, ws, d, (h1, w1))"
    by (metis prod.collapse)
  show ?case
  proof (cases err)
    case None
    then obtain s0 where "send_closure send (pc_Addr peer) env s0 = (None, h1, w1)"
      using SendWithRetry_ok(2) [OF r [unfolded None] 2(3)] by auto
    then have "\<exists>w0. send (pc_Addr peer) env w0 = ((h1, None), w1)"
      by (auto simp: send_closure_def split: prod.splits)
    then show ?thesis using 2(2) r None by auto
  next
    case (Some e)
    then show ?thesis using 2 r by fastforce
  qed
qed simp

lemma forward_peers_live:
  assumes "p \<in> set peers" "\<And>w. snd (fst (send (pc_Addr p) env w)) = None" "1 \<le> rt_MaxAttempts pol"
  shows "\<exists>h w'. forward_peers ovf send pol c clk i env peers w = (Some h, w')"
  using assms(1)
proof (induction peers arbitrary: i w)
  case (Cons q peers)
  obtain err ws d h1 w1 where r: "SendWithRetry ovf (send_closure send (pc_Addr q) env) pol (c i) (clk i) None
             (new_entry env (pc_Addr q)) ('''', w) = (err, ws, d, (h1, w1))"
    by (metis prod.collapse)
  show ?case
  proof (cases err)
    case (Some e)
    have "p \<noteq> q"
    proof
      assume "p = q"
      then obtain h0 w0 where "send_closure send (pc_Addr q) env ('''', w) = (None, h0, w0)"
        using assms(2) [of w] by (cases "send (pc_Addr q) env w") (auto simp: send_closure_def)
      then show False using SendWithRetry_first_ok [OF _ assms(3)] r Some by fastforce
    qed
    then show ?thesis using Cons r Some by auto
  qed (use r in auto)
qed simp

lemma Forward_sent:
  assumes "Forward ovf ll send c clk now ks tks env f w = (Inr h, f', w')" "1 \<le> rt_MaxAttempts (fw_retryPolicy f)"
  shows "f' = f" "\<exists>p \<in> set (PeersFor (fw_cfg f) ks (ev_RecipientRegion env)).
           \<exists>w0. send (pc_Addr p) env w0 = ((h, None), w')"
proof -
  show "f' = f" using assms(1) by (cases rule: Forward_cases [of ovf ll send c clk now ks tks env f w]) auto
  have "forward_route ovf send c clk ks tks env f w = (Inr h, f', w')"
    using assms(1) by (auto simp: Forward_def Let_def split: prod.splits option.splits)
  then show "\<exists>p \<in> set (PeersFor (fw_cfg f) ks (ev_RecipientRegion env)).
           \<exists>w0. send (pc_Addr p) env w0 = ((h, None), w')"
    using forward_peers_sent [OF _ assms(2)]
    by (fastforce simp: forward_route_def Let_def split: if_splits option.splits prod.splits)
qed

subsection \<open>Properties\<close>

text \<open>
  C23. Path selection. The candidates for a region are exactly the configured peers the
  routing policy admits for it, regional before alliance before global, in every order in
  which Go may range over the peer map; a routing hint only moves the first matching peer to
  the front.
\<close>

theorem peers_for_region:
  assumes "enumerates ks (nw_Peers (cfg_Network cfg))"
  shows "set (PeersFor cfg ks region) =
      {p. \<exists>k. nw_Peers (cfg_Network cfg) k = Some p \<and> candidate cfg region k p} \<and>
    sorted (map tier_rank (PeersFor cfg ks region)) \<and>
    mset (reorderByHint (PeersFor cfg ks region) hint) = mset (PeersFor cfg ks region) \<and>
    (\<forall>p \<in> set (PeersFor cfg ks region). pc_Region p = hint \<longrightarrow>
       pc_Region (hd (reorderByHint (PeersFor cfg ks region) hint)) = hint)"
proof -
  have "pc_Region (hd (reorderByHint ps hint)) = hint" if "p \<in> set ps" "pc_Region p = hint" for p ps
    using reorder_from_cases [of ps hint "[]"] that by (auto simp: reorderByHint_def)
  then show ?thesis using set_PeersFor [OF assms] PeersFor_sorted reorderByHint_mset by blast
qed

definition demo_routes :: Config where
  "demo_routes = DefaultBalancedConfig\<lparr>cfg_Network := (cfg_Network DefaultBalancedConfig)
     \<lparr>nw_Peers := [''RU'' \<mapsto> \<lparr>pc_Region = ''RU'', pc_Addr = ''10.0.0.2:7777'', pc_NodeScope = ''regional'', pc_Regions = []\<rparr>]\<rparr>\<rparr>"

lemma demo_routes_peers:
  "nw_Peers (cfg_Network demo_routes) =
     [''RU'' \<mapsto> \<lparr>pc_Region = ''RU'', pc_Addr = ''10.0.0.2:7777'', pc_NodeScope = ''regional'', pc_Regions = []\<rparr>]"
  by (simp add: demo_routes_def)

theorem peers_for_region_witness:
  "enumerates [''RU''] (nw_Peers (cfg_Network demo_routes)) \<and>
   sorted (map tier_rank (PeersFor demo_routes [''RU''] ''RU''))"
proof -
  have e: "enumerates [''RU''] (nw_Peers (cfg_Network demo_routes))"
    by (simp add: demo_routes_peers enumerates_def)
  then show ?thesis using peers_for_region [OF e] by simp
qed

text \<open>
  C24. Liveness of forwarding. When the envelope is not held back by a cutoff window, one
  candidate peer accepts every send, and the retry policy allows at least one attempt, then
  \<open>Forward\<close> succeeds, whatever the other peers do and wherever the context is cancelled; the
  envelope was acknowledged by a candidate and neither queue nor buffer is touched.
\<close>

theorem forward_succeeds:
  assumes "ev_SchemaType env \<noteq> Iso20022 \<or> snd (checkCutoffWindow ll (fw_cfg f) now env) = None"
    and "p \<in> set (PeersFor (fw_cfg f) ks (ev_RecipientRegion env))"
    and "\<And>w. snd (fst (send (pc_Addr p) env w)) = None" "1 \<le> rt_MaxAttempts (fw_retryPolicy f)"
  shows "\<exists>h w'. Forward ovf ll send c clk now ks tks env f w = (Inr h, f, w') \<and>
    (\<exists>q \<in> set (PeersFor (fw_cfg f) ks (ev_RecipientRegion env)). \<exists>w0. send (pc_Addr q) env w0 = ((h, None), w'))"
proof -
  define peers where "peers = (if ev_RoutingHint env \<noteq> ''''
      then reorderByHint (PeersFor (fw_cfg f) ks (ev_RecipientRegion env)) (ev_RoutingHint env)
      else PeersFor (fw_cfg f) ks (ev_RecipientRegion env))"
  have "p \<in> set peers" using assms(2) by (simp add: peers_def)
  then obtain h w' where fp: "forward_peers ovf send (fw_retryPolicy f) c clk 0 env peers w = (Some h, w')"
    using forward_peers_live [where send = send and env = env, OF _ assms(3,4)] by blast
  have "PeersFor (fw_cfg f) ks (ev_RecipientRegion env) \<noteq> []" using assms(2) by auto
  then have "forward_route ovf send c clk ks tks env f w = (Inr h, f, w')"
    using fp by (simp add: forward_route_def Let_def peers_def)
  moreover have "Forward ovf ll send c clk now ks tks env f w = forward_route ovf send c clk ks tks env f w"
    using assms(1) by (cases "checkCutoffWindow ll (fw_cfg f) now env") (auto simp: Forward_def)
  ultimately have F: "Forward ovf ll send c clk now ks tks env f w = (Inr h, f, w')" by simp
  show ?thesis using F Forward_sent(2) [OF F assms(4)] by auto
qed

theorem forward_succeeds_witness:
  "\<exists>h w'. Forward amd64 (\<lambda>_. None) (\<lambda>addr env w. ((''root'', None), Suc w)) (\<lambda>_ _. None) (\<lambda>_ _. 0) 0 [''RU''] [] demo_padding
     (NewForwarder demo_routes (Some NewDLQ) None) (0 :: nat) = (Inr h, NewForwarder demo_routes (Some NewDLQ) None, w')"
proof -
  let ?p = "\<lparr>pc_Region = ''RU'', pc_Addr = ''10.0.0.2:7777'', pc_NodeScope = ''regional'', pc_Regions = []\<rparr>"
  have "?p \<in> set (PeersFor (fw_cfg (NewForwarder demo_routes (Some NewDLQ) None)) [''RU''] (ev_RecipientRegion demo_padding))"
    by (simp add: NewForwarder_def PeersFor_def demo_routes_def demo_padding_def DefaultBalancedConfig_def
        DefaultConfigForProfile_def preset_base_def Let_def)
  from forward_succeeds [OF _ this, where ovf = amd64 and ll = "\<lambda>_. None" and send = "\<lambda>addr env w. ((''root'', None), Suc w)"
      and c = "\<lambda>_ _. None" and clk = "\<lambda>_ _. 0" and now = 0 and tks = "[]" and w = 0]
  show ?thesis by (auto simp: demo_padding_def Iso20022_def NewForwarder_def DefaultRetryPolicy_def)
qed

subsection \<open>Forwarding ends\<close>

text \<open>A transport that counts its calls.\<close>

definition counted :: "'w transport \<Rightarrow> (nat \<times> 'w) transport" where
  "counted send addr env nw = (case send addr env (snd nw) of (r, w') \<Rightarrow> (r, (Suc (fst nw), w')))"

lemma retry_loop_calls:
  assumes "\<And>s. \<mu> (snd (send s)) = Suc (\<mu> s)"
    and "retry_loop ovf send pol c clk attempt delay l e s = (out, waits, s')"
  shows "\<mu> s \<le> \<mu> s' \<and> \<mu> s' \<le> \<mu> s + nat (rt_MaxAttempts pol + 1 - attempt)"
  using assms
proof (induction ovf send pol c clk attempt delay l e s arbitrary: out waits s' rule: retry_loop.induct)
  case (1 ovf send pol c clk attempt delay l e s)
  obtain err s1 where s1: "send s = (err, s1)" by fastforce
  then have \<mu>1: "\<mu> s1 = Suc (\<mu> s)" using "1.prems"(1) [of s] by simp
  consider "attempt > rt_MaxAttempts pol" | "attempt \<le> rt_MaxAttempts pol" "s' = s1"
    | out' ws e' err' where "attempt < rt_MaxAttempts pol" "err = Some err'"
      "c attempt = None" "e' = e\<lparr>dq_Attempts := attempt, dq_LastErr := Some err', dq_LastAttemptUnix := unix_sec (clk attempt)\<rparr>"
      "retry_loop ovf send pol c clk (attempt + 1) (next_delay ovf pol delay) (Some err') e' s1 = (out', ws, s')"
    using "1.prems"(2) s1 by (subst (asm) retry_loop.simps) (auto simp: Let_def split: if_splits option.splits prod.splits)
  then show ?case
  proof cases
    case 1
    then show ?thesis using "1.prems"(2) by (subst (asm) retry_loop.simps) auto
  next
    case 2
    then show ?thesis using \<mu>1 by simp
  next
    case 3
    have "\<mu> s1 \<le> \<mu> s' \<and> \<mu> s' \<le> \<mu> s1 + nat (rt_MaxAttempts pol + 1 - (attempt + 1))"
      using "1.IH" [OF _ s1 [symmetric] _ _ _ _ "1.prems"(1)] 3 by fastforce
    then show ?thesis using \<mu>1 3(1) by linarith
  qed
qed

text \<open>Counting does not change a run.\<close>

lemma retry_loop_project:
  assumes "\<And>s. fst (send' s) = fst (send (\<pi> s)) \<and> \<pi> (snd (send' s)) = snd (send (\<pi> s))"
  shows "retry_loop ovf send pol c clk attempt delay l e (\<pi> s) =
    (case retry_loop ovf send' pol c clk attempt delay l e s of (out, waits, s') \<Rightarrow> (out, waits, \<pi> s'))"
  using assms
proof (induction ovf send' pol c clk attempt delay l e s rule: retry_loop.induct)
  case (1 ovf send' pol c clk attempt delay l e s)
  obtain err s1 where s1: "send' s = (err, s1)" by fastforce
  then have p1: "send (\<pi> s) = (err, \<pi> s1)" using "1.prems" [of s] by (metis fst_conv prod.collapse snd_conv)
  show ?case
  proof (cases "attempt < rt_MaxAttempts pol \<and> err \<noteq> None \<and> c attempt = None")
    case True
    then obtain err' where e: "err = Some err'" by auto
    let ?e = "e\<lparr>dq_Attempts := attempt, dq_LastErr := Some err', dq_LastAttemptUnix := unix_sec (clk attempt)\<rparr>"
    have "retry_loop ovf send pol c clk (attempt + 1) (next_delay ovf pol delay) (Some err') ?e (\<pi> s1) =
        (case retry_loop ovf send' pol c clk (attempt + 1) (next_delay ovf pol delay) (Some err') ?e s1 of
           (out, waits, s') \<Rightarrow> (out, waits, \<pi> s'))"
      using "1.IH" [OF _ s1 [symmetric] e refl _ _ "1.prems"] True by simp
    with True e s1 p1 show ?thesis
      by (subst (1 2) retry_loop.simps) (simp add: Let_def split: prod.split)
  next
    case False
    with s1 p1 show ?thesis
      by (subst (1 2) retry_loop.simps) (auto simp: Let_def split: option.split)
  qed
qed

lemma SendWithRetry_counted:
  assumes "SendWithRetry ovf (send_closure (counted send) addr env) pol c clk None e (h, nw) = (err, ws, d, (h', nw'))"
  shows "SendWithRetry ovf (send_closure send addr env) pol c clk None e (h, snd nw) = (err, ws, d, (h', snd nw'))"
    and "fst nw \<le> fst nw' \<and> fst nw' \<le> fst nw + nat (rt_MaxAttempts pol)"
proof -
  let ?cs = "send_closure (counted send) addr env" and ?s = "send_closure send addr env"
  obtain out ws' h1 nw1 where loop: "retry_loop ovf ?cs pol c clk 1 (rt_BaseDelay pol) None e (h, nw) = (out, ws', (h1, nw1))"
    by (metis prod.collapse)
  have "fst (?cs x) = fst (?s (apsnd snd x)) \<and> apsnd snd (snd (?cs x)) = snd (?s (apsnd snd x))" for x
    by (auto simp: send_closure_def counted_def split: prod.split)
  from retry_loop_project [where \<pi> = "apsnd snd" and send = ?s, OF this, of ovf pol c clk 1 "rt_BaseDelay pol" None e "(h, nw)"]
  have "retry_loop ovf ?s pol c clk 1 (rt_BaseDelay pol) None e (h, snd nw) = (out, ws', (h1, snd nw1))"
    using loop by simp
  with loop assms show "SendWithRetry ovf ?s pol c clk None e (h, snd nw) = (err, ws, d, (h', snd nw'))"
    by (auto simp: SendWithRetry_def split: retry_outcome.splits)
  have "fst (snd (snd (?cs x))) = Suc (fst (snd x))" for x
    by (auto simp: send_closure_def counted_def split: prod.split)
  from retry_loop_calls [where \<mu> = "\<lambda>x. fst (snd x)", OF this loop] loop assms
  show "fst nw \<le> fst nw' \<and> fst nw' \<le> fst nw + nat (rt_MaxAttempts pol)"
    by (auto simp: SendWithRetry_def split: retry_outcome.splits)
qed

lemma forward_peers_counted:
  assumes "forward_peers ovf (counted send) pol c clk i env peers nw = (r, nw')"
  shows "forward_peers ovf send pol c clk i env peers (snd nw) = (r, snd nw') \<and>
    fst nw \<le> fst nw' \<and> fst nw' \<le> fst nw + nat (rt_MaxAttempts pol) * length peers"
  using assms
proof (induction peers arbitrary: i nw)
  case (Cons p peers)
  obtain err ws d h1 nw1 where S: "SendWithRetry ovf (send_closure (counted send) (pc_Addr p) env) pol (c i) (clk i) None
      (new_entry env (pc_Addr p)) ('''', nw) = (err, ws, d, (h1, nw1))"
    by (metis prod.collapse)
  note S' = SendWithRetry_counted [OF S]
  show ?case
  proof (cases err)
    case None
    then show ?thesis using Cons.prems S S' by (auto intro: trans_le_add1)
  next
    case (Some x)
    then have "forward_peers ovf (counted send) pol c clk (Suc i) env peers nw1 = (r, nw')" using Cons.prems S by simp
    from Cons.IH [OF this] show ?thesis using Some S' by auto
  qed
qed simp

text \<open>
  C25. Forwarding ends. Whatever the transport answers, \<open>Forward\<close> returns after at most the number
  of attempts of the retry policy for each peer that serves the region; counting the calls does
  not change what it does.
\<close>

theorem forward_attempts_bounded:
  assumes "Forward ovf ll (counted send) c clk now ks tks env f (0, w) = (r, f', (n, w'))"
  shows "Forward ovf ll send c clk now ks tks env f w = (r, f', w') \<and>
    n \<le> nat (rt_MaxAttempts (fw_retryPolicy f)) * length (PeersFor (fw_cfg f) ks (ev_RecipientRegion env))"
proof -
  let ?peers = "PeersFor (fw_cfg f) ks (ev_RecipientRegion env)"
  have len: "length (reorderByHint ?peers h) = length ?peers" for h
    by (metis reorderByHint_mset size_mset)
  have route: "forward_route ovf send c clk ks tks env f w = (r, f', w') \<and> n \<le> nat (rt_MaxAttempts (fw_retryPolicy f)) * length ?peers"
    if R: "forward_route ovf (counted send) c clk ks tks env f (0, w) = (r, f', (n, w'))"
  proof (cases "?peers = []")
    case True
    with R show ?thesis by (simp add: forward_route_def Let_def)
  next
    case False
    define ps where "ps = (if ev_RoutingHint env \<noteq> '''' then reorderByHint ?peers (ev_RoutingHint env) else ?peers)"
    obtain x nw where F: "forward_peers ovf (counted send) (fw_retryPolicy f) c clk 0 env ps (0, w) = (x, nw)" by (metis surj_pair)
    have lps: "length ps = length ?peers" by (simp add: ps_def len)
    from forward_peers_counted [OF F] have "fst nw \<le> nat (rt_MaxAttempts (fw_retryPolicy f)) * length ?peers"
      and "forward_peers ovf send (fw_retryPolicy f) c clk 0 env ps w = (x, snd nw)" by (simp_all add: lps)
    with R F False show ?thesis
      by (cases "ev_RoutingHint env = []"; cases x)
        (auto simp: forward_route_def Let_def ps_def split: option.splits)
  qed
  show ?thesis
  proof (cases "if ev_SchemaType env = Iso20022 then checkCutoffWindow ll (fw_cfg f) now env else (None, None)")
    case (Pair no err)
    with assms route show ?thesis by (cases err) (auto simp: Forward_def Let_def split: option.splits)
  qed
qed

theorem forward_attempts_bounded_witness:
  "\<exists>r f' n. Forward amd64 (\<lambda>_. None) (counted (\<lambda>addr env w. (('''', Some ''down''), w))) (\<lambda>_ _. None) (\<lambda>_ _. 0) 0 [''RU''] []
     demo_padding (NewForwarder demo_routes (Some NewDLQ) None) (0, ()) = (r, f', (n, ())) \<and> n \<le> 10"
proof -
  let ?f = "NewForwarder demo_routes (Some NewDLQ) None" and ?send = "\<lambda>addr env w. (('''', Some ''down''), w)"
  let ?run = "Forward amd64 (\<lambda>_. None) (counted ?send) (\<lambda>_ _. None) (\<lambda>_ _. 0) 0 [''RU''] [] demo_padding ?f (0, ())"
  obtain r f' n u where F0: "?run = (r, f', (n, u))" by (rule prod_cases4)
  have F: "?run = (r, f', (n, ()))" unfolding F0 by simp
  have "length (PeersFor (fw_cfg ?f) [''RU''] (ev_RecipientRegion demo_padding)) = 1"
    by (simp add: NewForwarder_def PeersFor_def demo_routes_def demo_padding_def DefaultBalancedConfig_def
        DefaultConfigForProfile_def preset_base_def Let_def)
  then show ?thesis
    using F forward_attempts_bounded [OF F] by (auto simp: NewForwarder_def DefaultRetryPolicy_def)
qed

end
