(* ===== verification/Gateway_Runs.thy ===== *)
theory Gateway_Runs
  imports "HOL-Library.Sublist" Gateway Forwarder
begin

text \<open>
  The gateway over time. \<open>gw_step\<close> is one operation on the shared state: a request handled
  by \<open>SendEnvelope\<close>, a configuration reload (\<open>policy.Engine.Reload\<close>), an update of the
  revocation list (\<open>crl.Store.Revoke\<close>, \<open>Merge\<close>), a purge of the deduplication index, or a
  change of the forwarder's own state (peers, the retry of buffered envelopes).
  \<open>gw_run\<close> is a sequence of such steps with their labels. The locale \<open>custody\<close> states what
  a client may rely on from a forwarder; it is interpreted on \<open>Forward\<close>.
\<close>

subsection \<open>Steps and runs\<close>

datatype gw_label =
    LSend "nat \<Rightarrow> int" Envelope "gateway_error + SendResponse" "gw_event list"
  | LReload Config
  | LRevoke string
  | LMerge "crl_Entry list"
  | LPurge int
  | LWorld

inductive gw_step ::
  "(string \<Rightarrow> string) \<Rightarrow> ('e, 's) forward_fun option \<Rightarrow> gateway \<times> 's \<Rightarrow> gw_label \<Rightarrow> gateway \<times> 's \<Rightarrow> bool"
  for digest fwd where
  step_send: "SendEnvelope digest clk c fwd env g s = (res, g', s', evs) \<Longrightarrow>
     gw_step digest fwd (g, s) (LSend clk env res evs) (g', s')"
| step_reload: "\<lbrakk>enumerates ks (nw_Peers (cfg_Network cfg)); Reload ks cfg (engine_of g) = (err, e)\<rbrakk> \<Longrightarrow>
     gw_step digest fwd (g, s) (LReload cfg) (put_engine e g, s)"
| step_revoke: "gw_crl g = Some cs \<Longrightarrow>
     gw_step digest fwd (g, s) (LRevoke n) (g\<lparr>gw_crl := Some (Revoke now n reason sg cs)\<rparr>, s)"
| step_merge: "gw_crl g = Some cs \<Longrightarrow>
     gw_step digest fwd (g, s) (LMerge es) (g\<lparr>gw_crl := Some (Merge clk es cs)\<rparr>, s)"
| step_purge: "shard_orders orders (gw_dedup g) \<Longrightarrow>
     gw_step digest fwd (g, s) (LPurge now) (g\<lparr>gw_dedup := dedup_Purge now orders (gw_dedup g)\<rparr>, s)"
| step_world: "gw_step digest fwd (g, s) LWorld (g, s')"

inductive_cases gw_stepE: "gw_step digest fwd st l st'"
inductive_cases gw_send_stepE: "gw_step digest fwd (g, s) (LSend clk env res evs) (g', s')"

inductive gw_run ::
  "(string \<Rightarrow> string) \<Rightarrow> ('e, 's) forward_fun option \<Rightarrow> gateway \<times> 's \<Rightarrow> gw_label list \<Rightarrow> gateway \<times> 's \<Rightarrow> bool"
  for digest fwd where
  run_nil: "gw_run digest fwd st [] st"
| run_snoc: "\<lbrakk>gw_run digest fwd st ls st1; gw_step digest fwd st1 l st2\<rbrakk> \<Longrightarrow> gw_run digest fwd st (ls @ [l]) st2"

text \<open>The time at which a step reads or purges the deduplication index.\<close>

fun label_time :: "gw_label \<Rightarrow> int option" where
  "label_time (LSend clk env res evs) = Some (clk 0)"
| "label_time (LPurge now) = Some now"
| "label_time _ = None"

subsection \<open>The invariant over runs\<close>

lemma dedup_inv_Purge:
  assumes "dedup_inv idx" "shard_orders orders idx"
  shows "dedup_inv (dedup_Purge now orders idx)"
proof -
  have l: "length orders = numShards" "length (ix_shards idx) = numShards"
    using assms by (auto simp: shard_orders_def dedup_inv_def list_all2_lengthD)
  have *: "finite (dom (delete_if P ks m)) \<and> (\<forall>k \<in> dom (delete_if P ks m). shardFor k = i)"
    if "finite (dom m)" "\<forall>k \<in> dom m. shardFor k = i" for P ks i and m :: "string \<rightharpoonup> int"
    using that delete_if_dom [of P ks m] finite_subset by blast
  show ?thesis using assms(1) l *
    unfolding dedup_inv_def dedup_Purge_def by (simp del: Ball_def) blast
qed

lemma gw_step_inv:
  assumes "gw_step digest fwd st l st'" "gw_inv digest (fst st)"
  shows "gw_inv digest (fst st')"
  using assms
proof (cases rule: gw_step.cases)
  case (step_send clk c env g s res g' s' evs)
  then show ?thesis using assms SendEnvelope_inv by fastforce
next
  case (step_reload ks cfg g err e s)
  then show ?thesis using assms(2) Validate_None_iff [OF step_reload(4)]
    by (auto simp: Reload_def gw_inv_def engine_of_def put_engine_def split: option.splits)
qed (auto simp: gw_inv_def dedup_inv_Purge)

lemma gw_run_inv:
  assumes "gw_run digest fwd st ls st'" "gw_inv digest (fst st)"
  shows "gw_inv digest (fst st')"
  using assms by (induction rule: gw_run.induct) (auto intro: gw_step_inv)

lemma gw_step_prefix:
  assumes "gw_step digest fwd st l st'"
  shows "prefix (lg_entries (gw_audit (fst st))) (lg_entries (gw_audit (fst st')))"
  using assms
proof (cases rule: gw_step.cases)
  case (step_send clk c env g s res g' s' evs)
  then show ?thesis using SendEnvelope_audit [OF step_send(4)] by (auto simp: prefix_def)
qed (auto simp: Reload_def engine_of_def put_engine_def split: option.splits)

lemma gw_run_prefix:
  assumes "gw_run digest fwd st ls st'"
  shows "prefix (lg_entries (gw_audit (fst st))) (lg_entries (gw_audit (fst st')))"
  using assms by (induction rule: gw_run.induct) (auto intro: gw_step_prefix prefix_order.trans)

subsection \<open>Live keys stay live\<close>

lemma gw_step_live:
  assumes "gw_step digest fwd st l st'" "gw_inv digest (fst st)" "expiry (gw_dedup (fst st)) k = Some e"
    and "\<And>t. label_time l = Some t \<Longrightarrow> t < e"
  shows "expiry (gw_dedup (fst st')) k = Some e"
  using assms(1)
proof (cases rule: gw_step.cases)
  case (step_send clk c env g s res g' s' evs)
  then show ?thesis
    using SendEnvelope_dedup [OF step_send(4)] assms(2-4) by (auto simp: is_duplicate_def gw_inv_def)
next
  case (step_purge orders g s now)
  then show ?thesis using assms(2-4) expiry_Purge [of "gw_dedup g" orders now k]
    by (auto simp: gw_inv_def)
qed (use assms(3) in \<open>auto simp: Reload_def engine_of_def put_engine_def split: option.splits\<close>)

lemma gw_run_live:
  assumes "gw_run digest fwd st ls st'" "gw_inv digest (fst st)" "expiry (gw_dedup (fst st)) k = Some e"
    and "\<forall>l \<in> set ls. \<forall>t. label_time l = Some t \<longrightarrow> t < e"
  shows "expiry (gw_dedup (fst st')) k = Some e"
  using assms
proof (induction rule: gw_run.induct)
  case (run_snoc st ls st1 l st2)
  then show ?case by (intro gw_step_live [OF run_snoc(2)] gw_run_inv [OF run_snoc(1)]) auto
qed simp

lemma first_send_registers:
  assumes "gw_inv digest g" "SendEnvelope digest clk c fwd env g s = (Inr r, g', s', evs)"
    and "\<not> ev_IsDummy env" "rs_Decision r \<noteq> DecisionDuplicate"
  shows "expiry (gw_dedup g') (ev_IdempotencyKey env) = Some (clk 0 + key_ttl g (norm_env env))"
  using assms(2)
  by (cases rule: SendEnvelope_elim)
     (use assms in \<open>auto simp: gw_inv_def elim!: forward_allowed_cases\<close>)

subsection \<open>Revocations stay\<close>

lemma gw_step_revoked:
  assumes "gw_step digest fwd st l st'" "gw_inv digest (fst st)"
    and "gw_crl (fst st) = Some cs" "IsRevoked cs n"
  shows "\<exists>cs'. gw_crl (fst st') = Some cs' \<and> IsRevoked cs' n"
  using assms(1)
proof (cases rule: gw_step.cases)
  case (step_send clk c env g s res g' s' evs)
  then show ?thesis using SendEnvelope_frame [OF step_send(4)] assms by simp
next
  case (step_revoke g cs0 s m now reason sg)
  then show ?thesis using assms
    by (auto simp: gw_inv_def intro!: IsRevoked_mono [of cs])
next
  case (step_merge g cs0 s es clk)
  then show ?thesis using assms
    by (auto simp: gw_inv_def sigs_Merge intro!: IsRevoked_mono [of cs])
qed (use assms in \<open>auto simp: Reload_def engine_of_def put_engine_def split: option.splits\<close>)

lemma gw_run_revoked:
  assumes "gw_run digest fwd st ls st'" "gw_inv digest (fst st)"
    and "gw_crl (fst st) = Some cs" "IsRevoked cs n"
  shows "\<exists>cs'. gw_crl (fst st') = Some cs' \<and> IsRevoked cs' n"
  using assms
proof (induction rule: gw_run.induct)
  case (run_snoc st ls st1 l st2)
  then show ?case using gw_step_revoked gw_run_inv by blast
qed auto

subsection \<open>What the gateway expects of a forwarder\<close>

text \<open>
  A forwarder either hands the envelope to a peer that acknowledges it, or keeps it, or has
  no peer for it.
\<close>

locale custody =
  fixes fwd :: "('e, 's) forward_fun"
    and good :: "'s \<Rightarrow> bool"
    and delivered :: "Envelope \<Rightarrow> string \<Rightarrow> 's \<Rightarrow> bool"
    and held :: "Envelope \<Rightarrow> 's \<Rightarrow> bool"
    and unroutable :: "Envelope \<Rightarrow> 's \<Rightarrow> bool"
  assumes fwd_sent: "good s \<Longrightarrow> fwd now env s = (Inr h, s') \<Longrightarrow> delivered env h s'"
    and fwd_kept: "good s \<Longrightarrow> fwd now env s = (Inl e, s') \<Longrightarrow> held env s' \<or> unroutable env s"
    and fwd_good: "good s \<Longrightarrow> fwd now env s = (r, s') \<Longrightarrow> good s'"
begin

lemma allowed_custody:
  assumes "good s" "SendEnvelope digest clk c (Some fwd) env g s = (Inr r, g', s', evs)"
    and "rs_Decision r = DecisionAllow" "\<not> ev_IsDummy env"
    and "applyJitter c (pf_TimingJitterMax (cfg_Profile (gw_cfg g)))"
    and "penv = applyPadding (norm_env env) (pf_PaddingBucket (cfg_Profile (gw_cfg g)))"
  shows "delivered penv (rs_PeerAuditRootHash r) s' \<or> held penv s' \<or> unroutable penv s"
  using assms(2)
proof (cases rule: SendEnvelope_elim)
  case (denied r0)
  then show ?thesis using assms(3) by simp
next
  case (allowed r0)
  from allowed(6) show ?thesis
  proof (cases rule: forward_allowed_cases)
    case skip
    then show ?thesis using assms(5) by simp
  next
    case (failed F e)
    then show ?thesis using assms(1,6) fwd_kept by auto
  next
    case (sent F)
    then show ?thesis using assms(1,6) allowed fwd_sent by auto
  next
    case (final F)
    then show ?thesis using assms(1,6) allowed fwd_sent by auto
  qed
qed (use assms in auto)

lemma good_preserved:
  assumes "good s" "SendEnvelope digest clk c (Some fwd) env g s = (res, g', s', evs)"
  shows "good s'"
  using assms(2)
  by (cases rule: SendEnvelope_elim; use assms(1) in \<open>auto dest: fwd_good elim!: forward_allowed_cases\<close>)

end

text \<open>
  \<open>Forward\<close> as a function on its queue, its buffer and the outside world; \<open>tord\<close> gives the
  order in which the buffer is ranged over.
\<close>

definition forward_of ::
  "(rat \<Rightarrow> int) \<Rightarrow> (string \<Rightarrow> location option) \<Rightarrow> 'w transport \<Rightarrow> (nat \<Rightarrow> int \<Rightarrow> string option) \<Rightarrow> (nat \<Rightarrow> int \<Rightarrow> int) \<Rightarrow>
   string list \<Rightarrow> ((string \<rightharpoonup> transit_Entry) \<Rightarrow> string list) \<Rightarrow> (fwd_error, forwarder \<times> 'w) forward_fun" where
  "forward_of ovf ll send cancelled clk ks tord now env st =
     (case st of (f, w) \<Rightarrow>
        Forward ovf ll send cancelled clk now ks
          (case fw_transitCache f of Some tc \<Rightarrow> tord (tc_entries tc) | None \<Rightarrow> []) env f w)"

definition forwarder_inv :: "forwarder \<Rightarrow> bool" where
  "forwarder_inv f \<longleftrightarrow> fw_dlq f \<noteq> None \<and> 1 \<le> rt_MaxAttempts (fw_retryPolicy f)"

definition acked :: "'w transport \<Rightarrow> string list \<Rightarrow> Envelope \<Rightarrow> string \<Rightarrow> forwarder \<times> 'w \<Rightarrow> bool" where
  "acked send ks env h st \<longleftrightarrow>
     (\<exists>p \<in> set (PeersFor (fw_cfg (fst st)) ks (ev_RecipientRegion env)). \<exists>w0.
        send (pc_Addr p) env w0 = ((h, None), snd st))"

definition retained :: "Envelope \<Rightarrow> forwarder \<times> 'w \<Rightarrow> bool" where
  "retained env st \<longleftrightarrow> env \<in> set (dlq_envelopes (fst st)) \<or> in_transit (fst st) env"

definition no_peer :: "string list \<Rightarrow> Envelope \<Rightarrow> forwarder \<times> 'w \<Rightarrow> bool" where
  "no_peer ks env st \<longleftrightarrow> PeersFor (fw_cfg (fst st)) ks (ev_RecipientRegion env) = []"

interpretation fc: custody "forward_of ovf ll send cancelled clk ks tord" "\<lambda>st. forwarder_inv (fst st)"
  "acked send ks" retained "no_peer ks"
  for ovf :: "rat \<Rightarrow> int" and ll :: "string \<Rightarrow> location option" and send :: "'w transport" and cancelled clk ks tord
proof (unfold_locales, goal_cases)
  case (1 s now env h s')
  obtain f w f' w' where s: "s = (f, w)" "s' = (f', w')" by force
  then have F: "Forward ovf ll send cancelled clk now ks
      (case fw_transitCache f of Some tc \<Rightarrow> tord (tc_entries tc) | None \<Rightarrow> []) env f w = (Inr h, f', w')"
    and m: "1 \<le> rt_MaxAttempts (fw_retryPolicy f)"
    using 1 by (auto simp: forward_of_def forwarder_inv_def)
  show ?case using Forward_sent [OF F m] by (simp add: s acked_def)
next
  case (2 s now env e s')
  obtain f w where s: "s = (f, w)" by force
  let ?tks = "case fw_transitCache f of Some tc \<Rightarrow> tord (tc_entries tc) | None \<Rightarrow> []"
  show ?case
    by (rule Forward_cases [of ovf ll send cancelled clk now ks ?tks env f w])
       (use 2 transit_Put_present in \<open>auto simp: s forward_of_def forwarder_inv_def retained_def no_peer_def
          dlq_envelopes_def in_transit_def dlq_Append_def new_entry_def\<close>)
next
  case (3 s now env r s')
  obtain f w where s: "s = (f, w)" by force
  let ?tks = "case fw_transitCache f of Some tc \<Rightarrow> tord (tc_entries tc) | None \<Rightarrow> []"
  show ?case
    by (rule Forward_cases [of ovf ll send cancelled clk now ks ?tks env f w])
       (use 3 in \<open>auto simp: s forward_of_def forwarder_inv_def\<close>)
qed

subsection \<open>A concrete node\<close>

text \<open>A node with the balanced preset, used by the examples that show hypotheses can hold.\<close>

definition demo_gateway :: gateway where
  "demo_gateway =
     NewGateway DefaultBalancedConfig
       \<lparr>en_cfg = DefaultBalancedConfig, en_audit = Some audit_New, en_crl = Some crl_New\<rparr>
       audit_New (dedup_New (24 * hour))"

definition demo_envelope :: Envelope where
  "demo_envelope =
     \<lparr>ev_IdempotencyKey = ''k1'', ev_SenderNodeID = ''rs-node-01'', ev_SenderIdentity = '''',
      ev_RecipientIdentity = '''', ev_SenderRegion = ''RS'', ev_RecipientRegion = ''RU'', ev_TrustTier = 2,
      ev_SequenceNumber = 1, ev_Payload = ''hello'', ev_PaddedTo = 0, ev_Timestamp = 1700000000000,
      ev_Signature = '''', ev_IsDummy = False, ev_SchemaType = '''', ev_SchemaVersion = '''',
      ev_RoutingHint = ''''\<rparr>"

lemma demo_inv: "gw_inv digest demo_gateway"
  by (simp add: gw_inv_def demo_gateway_def NewGateway_def DefaultBalancedConfig_def DefaultConfigForProfile_ok)

lemma demo_fresh: "\<not> is_duplicate demo_gateway now key"
  by (simp add: is_duplicate_def demo_gateway_def NewGateway_def)

lemma demo_allowed: "policy_allows (gw_policyCfg demo_gateway) (gw_crl demo_gateway) (request_of (norm_env demo_envelope))"
proof -
  have "schema_of (request_of (norm_env demo_envelope)) = Messaging"
    by (simp add: schema_of_def request_of_def norm_env_def demo_envelope_def)
  then show ?thesis
    by (simp add: policy_allows_def demo_gateway_def NewGateway_def IsRevoked_def crl_New_def outbound_admits_def
        first_rule_def request_of_def norm_env_def demo_envelope_def preset_base_def DefaultBalancedConfig_def
        DefaultConfigForProfile_def Let_def)
qed

lemma demo_send:
  obtains r g s evs where "SendEnvelope digest clk c fwd demo_envelope demo_gateway s0 = (Inr r, g, s, evs)"
    "rs_Decision r = DecisionAllow"
proof -
  have "\<exists>r. fst (SendEnvelope digest clk c fwd demo_envelope demo_gateway s0) = Inr r \<and> rs_Decision r = DecisionAllow"
    using SendEnvelope_decision [of demo_envelope digest clk c fwd demo_gateway s0] demo_fresh demo_allowed
    by (simp add: demo_envelope_def)
  then show thesis using that by (metis prod.collapse)
qed

definition demo_peer :: PeerConfig where
  "demo_peer = \<lparr>pc_Region = ''RU'', pc_Addr = ''10.0.0.2:7777'', pc_NodeScope = ''regional'', pc_Regions = []\<rparr>"

definition demo_forwarder :: forwarder where
  "demo_forwarder =
     NewForwarder (DefaultBalancedConfig\<lparr>cfg_Network := (cfg_Network DefaultBalancedConfig)
         \<lparr>nw_Peers := [''RU'' \<mapsto> demo_peer]\<rparr>\<rparr>) (Some NewDLQ) (Some (transit_New 0))"

definition demo_padded :: Envelope where
  "demo_padded = applyPadding (norm_env demo_envelope) (pf_PaddingBucket (cfg_Profile (gw_cfg demo_gateway)))"

lemma demo_routable: "\<not> no_peer [''RU''] demo_padded (demo_forwarder, w)"
proof -
  have "ev_RecipientRegion demo_padded = ''RU''"
    by (simp add: demo_padded_def applyPadding_frame demo_envelope_def)
  then show ?thesis
    by (simp add: no_peer_def demo_forwarder_def NewForwarder_def PeersFor_def demo_peer_def DefaultBalancedConfig_def
        DefaultConfigForProfile_def preset_base_def Let_def)
qed

end
