(* ===== verification/Token.thy ===== *)
theory Token
  imports Prelude
begin

text \<open>
  The opaque token store (\<open>internal/token/store.go\<close>). The hash function (\<open>hashToken\<close>, the
  hex form of SHA-256) is the parameter \<open>H\<close>; the 32 random bytes of \<open>Issue\<close>, or the failure
  to read them, are the argument \<open>rand\<close>. Only hashes are keys of the table. The locale
  \<open>one_time_tokens\<close> is the contract of a table whose tokens can be redeemed at most once.
\<close>

subsection \<open>Hex encoding\<close>

definition hex_byte :: "char \<Rightarrow> string" where
  "hex_byte c = [hex_digit (of_char c div 16), hex_digit (of_char c mod 16)]"

definition hex_encode :: "string \<Rightarrow> string" where
  "hex_encode s = concat (map hex_byte s)"

lemma hex_encode_length [simp]: "length (hex_encode s) = 2 * length s"
  by (induction s) (auto simp: hex_encode_def hex_byte_def)

lemma of_char_hex_digit: "n < 16 \<Longrightarrow> of_char (hex_digit n) = (if n < 10 then 48 + n else 87 + n)"
  by (simp add: hex_digit_def)

lemma hex_digit_inj:
  assumes "m < 16" "n < 16" "hex_digit m = hex_digit n"
  shows "m = n"
proof -
  have "(if m < 10 then 48 + m else 87 + m) = (if n < 10 then 48 + n else 87 + n)"
    using of_char_hex_digit [OF assms(1)] of_char_hex_digit [OF assms(2)] assms(3) by metis
  then show ?thesis using assms(1,2) by (simp split: if_splits)
qed

lemma hex_byte_inj:
  assumes "hex_byte c = hex_byte d"
  shows "c = d"
proof -
  have "of_char c div 16 = (of_char d div 16 :: nat)" "of_char c mod 16 = (of_char d mod 16 :: nat)"
    using assms nat_of_char_less_256 [of c] nat_of_char_less_256 [of d]
    by (auto simp: hex_byte_def intro!: hex_digit_inj simp del: nat_of_char_less_256)
  then have "of_char c = (of_char d :: nat)" by (metis div_mult_mod_eq)
  then show ?thesis by simp
qed

lemma hex_encode_inj: "hex_encode s = hex_encode t \<Longrightarrow> s = t"
proof (induction s arbitrary: t)
  case Nil
  then show ?case by (cases t) (auto simp: hex_encode_def hex_byte_def)
next
  case (Cons c s)
  then obtain d t' where t: "t = d # t'" by (cases t) (auto simp: hex_encode_def hex_byte_def)
  have "hex_byte c @ hex_encode s = hex_byte d @ hex_encode t'"
    using Cons.prems t by (simp add: hex_encode_def)
  moreover have "length (hex_byte c) = length (hex_byte d)" by (simp add: hex_byte_def)
  ultimately show ?case using Cons.IH hex_byte_inj t by (auto simp: append_eq_append_conv)
qed

subsection \<open>The store\<close>

record token_entry =
  tk_appID :: string
  tk_originNodeID :: string
  tk_expires :: int

type_synonym token_store = "string \<rightharpoonup> token_entry" \<comment> \<open>keyed by the hash of the token\<close>

datatype token_error = ErrNotFound | RandFailed

definition token_New :: token_store where "token_New = Map.empty"

definition Issue ::
  "(string \<Rightarrow> string) \<Rightarrow> int \<Rightarrow> string option \<Rightarrow> string \<Rightarrow> string \<Rightarrow> int \<Rightarrow> token_store \<Rightarrow>
   (token_error + string) \<times> token_store" where
  "Issue H now rand appID originNodeID ttl s =
     (case rand of
        None \<Rightarrow> (Inl RandFailed, s)
      | Some raw \<Rightarrow>
          (let token = hex_encode raw in
           (Inr token, s(H token \<mapsto> \<lparr>tk_appID = appID, tk_originNodeID = originNodeID,
                                     tk_expires = now + ttl\<rparr>))))"

definition token_Resolve ::
  "(string \<Rightarrow> string) \<Rightarrow> int \<Rightarrow> string \<Rightarrow> token_store \<Rightarrow> (token_error + string \<times> string) \<times> token_store" where
  "token_Resolve H now token s =
     (case s (H token) of
        Some e \<Rightarrow> if now > tk_expires e then (Inl ErrNotFound, s(H token := None))
                  else (Inr (tk_appID e, tk_originNodeID e), s)
      | None \<Rightarrow> (Inl ErrNotFound, s(H token := None)))"

definition token_Evict :: "(string \<Rightarrow> string) \<Rightarrow> string \<Rightarrow> token_store \<Rightarrow> token_store" where
  "token_Evict H token s = s(H token := None)"

definition HasActiveToken :: "string list \<Rightarrow> int \<Rightarrow> string \<Rightarrow> token_store \<Rightarrow> bool" where
  "HasActiveToken ks now originNodeID s =
     list_ex (\<lambda>k. case s k of Some e \<Rightarrow> tk_originNodeID e = originNodeID \<and> now < tk_expires e | None \<Rightarrow> False) ks"

definition token_Purge :: "string list \<Rightarrow> int \<Rightarrow> token_store \<Rightarrow> token_store" where
  "token_Purge ks now s = delete_if (\<lambda>e. now > tk_expires e) ks s"

subsection \<open>Tokens are good once\<close>

text \<open>
  \<open>look\<close> is the value and expiry behind a token, \<open>key\<close> the part of a token the table sees,
  \<open>redeem\<close> the operation that consumes it.
\<close>

locale one_time_tokens =
  fixes key :: "string \<Rightarrow> 'k"
    and look :: "'s \<Rightarrow> string \<Rightarrow> ('v \<times> int) option"
    and redeem :: "int \<Rightarrow> string \<Rightarrow> 's \<Rightarrow> 'v option \<times> 's"
  assumes redeem_ok: "look s t = Some (v, ex) \<Longrightarrow> now \<le> ex \<Longrightarrow> fst (redeem now t s) = Some v"
    and redeem_bad: "(\<And>v ex. look s t = Some (v, ex) \<Longrightarrow> ex < now) \<Longrightarrow> fst (redeem now t s) = None"
    and redeem_gone: "key t' = key t \<Longrightarrow> look (snd (redeem now t s)) t' = None"
    and redeem_other: "key t' \<noteq> key t \<Longrightarrow> look (snd (redeem now t s)) t' = look s t'"
begin

fun redeems :: "(int \<times> string) list \<Rightarrow> 's \<Rightarrow> 'v option list \<times> 's" where
  "redeems [] s = ([], s)"
| "redeems ((now, t) # xs) s =
     (case redeem now t s of (r, s1) \<Rightarrow> (case redeems xs s1 of (rs, s2) \<Rightarrow> (r # rs, s2)))"

text \<open>The attempts on one key, with their results.\<close>

definition hits :: "'k \<Rightarrow> (int \<times> string) list \<Rightarrow> 's \<Rightarrow> nat" where
  "hits k xs s = length (filter (\<lambda>(x, r). key (snd x) = k \<and> r \<noteq> None) (zip xs (fst (redeems xs s))))"

lemma hits_gone:
  assumes "\<And>t. key t = k \<Longrightarrow> look s t = None"
  shows "hits k xs s = 0"
  using assms
proof (induction xs arbitrary: s)
  case (Cons x xs)
  obtain now t where x: "x = (now, t)" by force
  have rest: "hits k xs (snd (redeem now t s)) = 0"
  proof (rule Cons.IH)
    show "look (snd (redeem now t s)) t' = None" if "key t' = k" for t'
      using that Cons.prems [of t'] redeem_gone [of t' t] redeem_other [of t' t]
      by (cases "key t' = key t") auto
  qed
  have "fst (redeem now t s) = None" if "key t = k"
    using redeem_bad [of s t now] Cons.prems [OF that] by simp
  then show ?case using rest
    by (auto simp: hits_def x split: prod.splits)
qed (simp add: hits_def)

lemma redeemed_once: "hits k xs s \<le> 1"
proof (induction xs arbitrary: s)
  case (Cons x xs)
  obtain now t where x: "x = (now, t)" by force
  have step: "hits k (x # xs) s = (if key t = k \<and> fst (redeem now t s) \<noteq> None then 1 else 0) +
      hits k xs (snd (redeem now t s))"
    by (auto simp: hits_def x split: prod.splits)
  show ?case
  proof (cases "key t = k")
    case True
    then have "hits k xs (snd (redeem now t s)) = 0" by (intro hits_gone) (auto intro: redeem_gone)
    then show ?thesis by (simp add: step)
  next
    case False
    then show ?thesis using Cons.IH by (simp add: step)
  qed
qed (simp add: hits_def)

end

definition token_redeem ::
  "(string \<Rightarrow> string) \<Rightarrow> int \<Rightarrow> string \<Rightarrow> token_store \<Rightarrow> (string \<times> string) option \<times> token_store" where
  "token_redeem H now token s =
     (case token_Resolve H now token s of
        (Inl _, s1) \<Rightarrow> (None, s1)
      | (Inr v, s1) \<Rightarrow> (Some v, token_Evict H token s1))"

definition token_look :: "(string \<Rightarrow> string) \<Rightarrow> token_store \<Rightarrow> string \<Rightarrow> ((string \<times> string) \<times> int) option" where
  "token_look H s token = map_option (\<lambda>e. ((tk_appID e, tk_originNodeID e), tk_expires e)) (s (H token))"

interpretation tks: one_time_tokens H "token_look H" "token_redeem H" for H :: "string \<Rightarrow> string"
  by unfold_locales
     (auto simp: token_look_def token_redeem_def token_Resolve_def token_Evict_def split: option.splits)

fun redeem_outcomes :: "(string \<Rightarrow> string) \<Rightarrow> (int \<times> string) list \<Rightarrow> token_store \<Rightarrow> (string \<times> string) option list" where
  "redeem_outcomes H [] s = []"
| "redeem_outcomes H ((now, t) # xs) s =
     (case token_redeem H now t s of (r, s1) \<Rightarrow> r # redeem_outcomes H xs s1)"

lemma redeem_outcomes_redeems: "redeem_outcomes H xs s = fst (tks.redeems H xs s)"
  by (induction H xs s rule: redeem_outcomes.induct) (auto split: prod.splits)

lemma HasActiveToken_iff:
  assumes "enumerates ks s"
  shows "HasActiveToken ks now n s \<longleftrightarrow>
    (\<exists>k e. s k = Some e \<and> tk_originNodeID e = n \<and> now < tk_expires e)"
  using assms by (auto simp: HasActiveToken_def list_ex_iff enumerates_def dom_def split: option.splits)

lemma token_Purge_look:
  assumes "enumerates ks s" "now \<le> now'"
  shows "fst (token_Resolve H now' t (token_Purge ks now s)) = fst (token_Resolve H now' t s)"
  using assms by (auto simp: token_Purge_def token_Resolve_def delete_if_enum split: option.splits)

subsection \<open>Properties\<close>

text \<open>
  A token is good once. In any sequence of redemptions (a successful \<open>Resolve\<close> followed
  by \<open>Evict\<close>, one redemption after the other) at any times, at most one of the attempts with
  tokens of the same hash succeeds. Redemptions that overlap are not excluded by the store: two
  calls of \<open>Resolve\<close> before the first \<open>Evict\<close> get the same answer.
\<close>

theorem token_redeemed_at_most_once:
  "length (filter (\<lambda>(x, r). H (snd x) = h \<and> r \<noteq> None) (zip xs (redeem_outcomes H xs s))) \<le> 1 \<and>
   (case token_Resolve H now t s of (r, s1) \<Rightarrow> fst (token_Resolve H now t s1) = r)"
proof
  show "length (filter (\<lambda>(x, r). H (snd x) = h \<and> r \<noteq> None) (zip xs (redeem_outcomes H xs s))) \<le> 1"
    using tks.redeemed_once [of H h xs s] by (simp add: tks.hits_def redeem_outcomes_redeems)
qed (auto simp: token_Resolve_def split: option.splits)

text \<open>
  What \<open>Issue\<close> hands out can be resolved: the token is the 64-digit hex form of the
  random bytes, and until it expires \<open>Resolve\<close> returns the app and the node it was issued
  for, also after a purge of the store; after \<open>Evict\<close> it is not found.
\<close>

theorem issued_token_resolves:
  assumes "length raw = 32" "Issue H now (Some raw) appID origin ttl s = (Inr tok, s')" "t \<le> now + ttl"
    and "enumerates ks s'" "p \<le> t"
  shows "length tok = 64 \<and> fst (token_Resolve H t tok s') = Inr (appID, origin) \<and>
    fst (token_Resolve H t tok (token_Purge ks p s')) = Inr (appID, origin) \<and>
    fst (token_Resolve H t tok (token_Evict H tok s')) = Inl ErrNotFound"
proof -
  have tok: "tok = hex_encode raw" "s' (H tok) = Some \<lparr>tk_appID = appID, tk_originNodeID = origin, tk_expires = now + ttl\<rparr>"
    using assms(2) by (auto simp: Issue_def Let_def)
  then have "fst (token_Resolve H t tok s') = Inr (appID, origin)"
    using assms(3) by (simp add: token_Resolve_def)
  then show ?thesis
    using tok assms(1) token_Purge_look [OF assms(4,5), of H tok] by (simp add: token_Resolve_def token_Evict_def)
qed

theorem issued_token_resolves_witness:
  "\<exists>tok s'. Issue (\<lambda>x. x) 0 (Some (replicate 32 CHR ''x'')) ''app'' ''n1'' 10 token_New = (Inr tok, s') \<and>
     length tok = 64 \<and> fst (token_Resolve (\<lambda>x. x) 10 tok s') = Inr (''app'', ''n1'')"
proof -
  obtain tok s' where i: "Issue (\<lambda>x. x) 0 (Some (replicate 32 CHR ''x'')) ''app'' ''n1'' 10 token_New = (Inr tok, s')"
    by (simp add: Issue_def Let_def)
  then have "enumerates [tok] s'" by (auto simp: Issue_def Let_def token_New_def enumerates_def split: if_splits)
  from issued_token_resolves [OF _ i _ this, of 10 0] show ?thesis using i by simp
qed

end
