(* ===== verification/Registry.thy ===== *)
theory Registry
  imports Config Token
begin

text \<open>
  The app user registry (\<open>internal/registry/registry.go\<close>): \<open>Discover\<close> issues an opaque token
  per matching user and \<open>Connect\<close> consumes one. Fresh UUIDs come from the argument \<open>uuid\<close>,
  a sequence of strings; \<open>aks\<close> and \<open>uks\<close> are the orders of the app and user maps.
\<close>

record DiscoveryResult =
  rr_NodeID :: string
  rr_AppID :: string
  rr_UserID :: string
  rr_DisplayHint :: string
  rr_Region :: string
  rr_OpaqueToken :: string
  rr_TokenExpires :: int

record ConnectResult =
  rc_Status :: string
  rc_SessionID :: string
  rc_ExpiresAt :: int

record tokenEntry =
  rt_appID :: string
  rt_userID :: string
  rt_expires :: int

record user_Registry =
  rg_cfg :: Config
  rg_tokens :: "string \<rightharpoonup> tokenEntry"

definition tokenTTL :: int where "tokenTTL = 5 * minute"

definition registry_New :: "Config \<Rightarrow> user_Registry" where
  "registry_New cfg = \<lparr>rg_cfg = cfg, rg_tokens = Map.empty\<rparr>"

fun contains_str :: "string \<Rightarrow> string \<Rightarrow> bool" where
  "contains_str [] q = (q = [])"
| "contains_str (c # s) q = (starts_with q (c # s) \<or> contains_str s q)"

definition user_matches :: "string \<Rightarrow> string \<Rightarrow> string \<Rightarrow> UserConfig \<Rightarrow> bool" where
  "user_matches query queryType appID u =
     (if queryType = ''app_id'' then equal_fold appID query
      else contains_str (to_lower (uc_DisplayHint u)) (to_lower query))"

text \<open>The users in the order of the two nested loops.\<close>

definition users_in_order ::
  "(string \<rightharpoonup> AppConfig) \<Rightarrow> string list \<Rightarrow> (string \<Rightarrow> string list) \<Rightarrow> (string \<times> string \<times> UserConfig) list" where
  "users_in_order apps aks uks =
     concat (map (\<lambda>a. case apps a of None \<Rightarrow> []
                      | Some app \<Rightarrow> List.map_filter (\<lambda>u. map_option (\<lambda>cfg. (a, u, cfg)) (app_Users app u)) (uks a)) aks)"

fun discover_loop ::
  "string \<Rightarrow> (nat \<Rightarrow> string) \<Rightarrow> int \<Rightarrow> string \<Rightarrow> string \<Rightarrow> (string \<times> string \<times> UserConfig) list \<Rightarrow> nat \<Rightarrow>
   (string \<rightharpoonup> tokenEntry) \<Rightarrow> DiscoveryResult list \<times> (string \<rightharpoonup> tokenEntry)" where
  "discover_loop nid uuid now query queryType [] n tokens = ([], tokens)"
| "discover_loop nid uuid now query queryType ((appID, userID, u) # us) n tokens =
     (if \<not> user_matches query queryType appID u
      then discover_loop nid uuid now query queryType us n tokens
      else let token = uuid n; expires = now + tokenTTL in
        case discover_loop nid uuid now query queryType us (Suc n)
               (tokens(token \<mapsto> \<lparr>rt_appID = appID, rt_userID = userID, rt_expires = expires\<rparr>)) of
          (rs, tokens') \<Rightarrow>
            (\<lparr>rr_NodeID = nid, rr_AppID = appID, rr_UserID = userID, rr_DisplayHint = uc_DisplayHint u,
              rr_Region = uc_Region u, rr_OpaqueToken = token, rr_TokenExpires = unix_sec expires\<rparr> # rs,
             tokens'))"

definition Discover ::
  "(nat \<Rightarrow> string) \<Rightarrow> string list \<Rightarrow> (string \<Rightarrow> string list) \<Rightarrow> int \<Rightarrow> string \<Rightarrow> string \<Rightarrow> user_Registry \<Rightarrow>
   DiscoveryResult list \<times> user_Registry" where
  "Discover uuid aks uks now query queryType r =
     (case discover_loop (nc_NodeID (cfg_Node (rg_cfg r))) uuid now query queryType
             (users_in_order (cfg_Apps (rg_cfg r)) aks uks) 0 (rg_tokens r) of
        (rs, tokens) \<Rightarrow> (rs, r\<lparr>rg_tokens := tokens\<rparr>))"

definition redeem_token :: "int \<Rightarrow> string \<Rightarrow> user_Registry \<Rightarrow> tokenEntry option \<times> user_Registry" where
  "redeem_token now opaqueToken r =
     (case rg_tokens r opaqueToken of
        Some e \<Rightarrow>
          (if now > rt_expires e then None else Some e,
           r\<lparr>rg_tokens := (rg_tokens r)(opaqueToken := None)\<rparr>)
      | None \<Rightarrow> (None, r\<lparr>rg_tokens := (rg_tokens r)(opaqueToken := None)\<rparr>))"

definition accept_status :: "Config \<Rightarrow> AppConfig \<Rightarrow> string \<Rightarrow> string \<Rightarrow> string" where
  "accept_status cfg app requesterID requesterRegion =
     (let autoAccept = (if app_AutoAccept app = '''' then ''manual'' else app_AutoAccept app) in
      if autoAccept = ''auto_all'' then ''ACCEPTED''
      else if autoAccept = ''auto_mutual'' then
        (if list_ex (\<lambda>region. equal_fold region requesterRegion) (ob_AllowTo (pol_Outbound (cfg_Policy cfg)))
         then ''ACCEPTED'' else ''PENDING'')
      else if autoAccept = ''auto_whitelist'' then
        (if app_Users app requesterID \<noteq> None then ''ACCEPTED'' else ''PENDING'')
      else ''PENDING'')"

definition registry_Connect ::
  "string \<Rightarrow> int \<Rightarrow> int \<Rightarrow> string \<Rightarrow> string \<Rightarrow> string \<Rightarrow> user_Registry \<Rightarrow> ConnectResult \<times> user_Registry" where
  "registry_Connect uuid now1 now2 opaqueToken requesterID requesterRegion r =
     (let denied = \<lparr>rc_Status = ''DENIED'', rc_SessionID = '''', rc_ExpiresAt = 0\<rparr> in
      case redeem_token now1 opaqueToken r of
        (None, r1) \<Rightarrow> (denied, r1)
      | (Some e, r1) \<Rightarrow>
          (case cfg_Apps (rg_cfg r1) (rt_appID e) of
             None \<Rightarrow> (denied, r1)
           | Some app \<Rightarrow>
               (\<lparr>rc_Status = accept_status (rg_cfg r1) app requesterID requesterRegion, rc_SessionID = uuid,
                 rc_ExpiresAt = unix_sec (now2 + 24 * hour)\<rparr>, r1)))"

subsection \<open>Tokens of the registry\<close>

definition registry_look :: "user_Registry \<Rightarrow> string \<Rightarrow> (tokenEntry \<times> int) option" where
  "registry_look r t = map_option (\<lambda>e. (e, rt_expires e)) (rg_tokens r t)"

interpretation rtk: one_time_tokens "\<lambda>t. t" registry_look redeem_token
  by unfold_locales (auto simp: registry_look_def redeem_token_def split: option.splits)

lemma registry_Connect_state: "snd (registry_Connect sid t t' tok who region r) = snd (redeem_token t tok r)"
  by (auto simp: registry_Connect_def Let_def split: prod.splits option.splits)

lemma registry_Connect_spent:
  "rc_Status (fst (registry_Connect sid2 t2 t2' tok who2 region2
     (snd (registry_Connect sid t t' tok who region r)))) = ''DENIED''"
proof -
  have "registry_look (snd (redeem_token t tok r)) tok = None" by (rule rtk.redeem_gone) simp
  then have "fst (redeem_token t2 tok (snd (redeem_token t tok r))) = None" by (intro rtk.redeem_bad) simp
  then show ?thesis
    by (simp add: registry_Connect_state) (auto simp: registry_Connect_def Let_def split: prod.splits)
qed

lemma discover_loop_tokens:
  assumes "inj uuid" "discover_loop nid uuid now q qt us n m = (rs, m')"
  shows "map rr_OpaqueToken rs = map uuid [n ..< n + length rs] \<and>
    (\<forall>r \<in> set rs. \<exists>e. m' (rr_OpaqueToken r) = Some e \<and> rt_appID e = rr_AppID r \<and> rt_userID e = rr_UserID r
           \<and> rt_expires e = now + tokenTTL) \<and>
    (\<forall>i < n. m' (uuid i) = m (uuid i))"
  using assms(2)
proof (induction us arbitrary: n m rs)
  case (Cons x us)
  obtain a u cfg where x: "x = (a, u, cfg)" by (cases x)
  show ?case
  proof (cases "user_matches q qt a cfg")
    case False
    then show ?thesis using Cons by (simp add: x)
  next
    case True
    let ?e = "\<lparr>rt_appID = a, rt_userID = u, rt_expires = now + tokenTTL\<rparr>"
    define m1 where "m1 = m(uuid n \<mapsto> ?e)"
    obtain rs1 m2 where r: "discover_loop nid uuid now q qt us (Suc n) m1 = (rs1, m2)" by force
    then have rs: "rs = \<lparr>rr_NodeID = nid, rr_AppID = a, rr_UserID = u, rr_DisplayHint = uc_DisplayHint cfg,
        rr_Region = uc_Region cfg, rr_OpaqueToken = uuid n, rr_TokenExpires = unix_sec (now + tokenTTL)\<rparr> # rs1"
      and m2: "m' = m2"
      using Cons.prems True by (simp_all add: x Let_def m1_def)
    note IH = Cons.IH [OF r [folded m2]]
    have "m' (uuid n) = Some ?e" using IH by (simp add: m1_def)
    moreover have "m' (uuid i) = m (uuid i)" if "i < n" for i
      using IH that assms(1) by (simp add: m1_def inj_eq)
    moreover have "[n ..< n + length rs] = n # [Suc n ..< Suc n + length rs1]"
      by (simp add: rs upt_conv_Cons del: upt_Suc)
    ultimately show ?thesis using IH by (simp add: rs del: upt_Suc)
  qed
qed simp

subsection \<open>Properties\<close>

text \<open>
  What \<open>Discover\<close> reports can be used once. With fresh UUIDs, every result carries its own
  token, and until it expires \<open>Connect\<close> with that token is granted or left pending as the
  app of the reported user says; a second \<open>Connect\<close> with the token is denied.
\<close>

theorem discover_then_connect:
  assumes "inj uuid" "Discover uuid aks uks now query queryType r = (results, r')"
    and "d \<in> set results" "cfg_Apps (rg_cfg r) (rr_AppID d) = Some app" "t \<le> now + tokenTTL"
  shows "distinct (map rr_OpaqueToken results) \<and>
    rc_Status (fst (registry_Connect sid t t' (rr_OpaqueToken d) who region r')) = accept_status (rg_cfg r) app who region \<and>
    rc_Status (fst (registry_Connect sid2 t2 t2' (rr_OpaqueToken d) who2 region2
      (snd (registry_Connect sid t t' (rr_OpaqueToken d) who region r')))) = ''DENIED''"
proof -
  obtain m' where D: "discover_loop (nc_NodeID (cfg_Node (rg_cfg r))) uuid now query queryType
      (users_in_order (cfg_Apps (rg_cfg r)) aks uks) 0 (rg_tokens r) = (results, m')" "r' = r\<lparr>rg_tokens := m'\<rparr>"
    using assms(2) by (auto simp: Discover_def split: prod.splits)
  note T = discover_loop_tokens [OF assms(1) D(1)]
  have "distinct (map rr_OpaqueToken results)"
    using T assms(1) by (auto simp: distinct_map intro: inj_on_subset)
  moreover obtain e where e: "m' (rr_OpaqueToken d) = Some e" "rt_appID e = rr_AppID d" "rt_expires e = now + tokenTTL"
    using T assms(3) by blast
  ultimately show ?thesis
    using assms(4,5) D(2) registry_Connect_spent by (simp add: registry_Connect_def redeem_token_def Let_def)
qed

definition demo_users :: user_Registry where
  "demo_users = registry_New (DefaultBalancedConfig\<lparr>cfg_Apps := [''app'' \<mapsto>
     \<lparr>app_WebhookURL = '''', app_WebhookSecret = '''', app_WebhookTimeout = 5, app_AutoAccept = ''auto_all'',
      app_Users = [''u1'' \<mapsto> \<lparr>uc_DisplayHint = ''Ana'', uc_Region = ''RS''\<rparr>]\<rparr>]\<rparr>)"

theorem discover_then_connect_witness:
  "\<exists>d r'. Discover (\<lambda>n. replicate n CHR ''x'') [''app''] (\<lambda>_. [''u1'']) 0 '''' '''' demo_users = ([d], r') \<and>
     rc_Status (fst (registry_Connect ''s'' 0 0 (rr_OpaqueToken d) ''w'' ''RU'' r')) = ''ACCEPTED''"
proof -
  have "\<exists>d r'. Discover (\<lambda>n. replicate n CHR ''x'') [''app''] (\<lambda>_. [''u1'']) 0 '''' '''' demo_users = ([d], r') \<and> rr_AppID d = ''app''"
    by (simp add: Discover_def demo_users_def registry_New_def users_in_order_def List.map_filter_def user_matches_def
        to_lower_def Let_def)
  then obtain d r' where D: "Discover (\<lambda>n. replicate n CHR ''x'') [''app''] (\<lambda>_. [''u1'']) 0 '''' '''' demo_users = ([d], r')"
    "rr_AppID d = ''app''" by blast
  have "inj (\<lambda>n. replicate n CHR ''x'')" by (metis injI length_replicate)
  from discover_then_connect [OF this D(1)] show ?thesis
    using D by (auto simp: demo_users_def registry_New_def accept_status_def tokenTTL_def duration_defs Let_def)
qed

end
