(* ===== verification/Inbox.thy ===== *)
theory Inbox
  imports Prelude
begin

text \<open>
  The fan-out of allowed envelopes to SSE clients (\<open>internal/inbox/inbox.go\<close>). A buffered
  channel is the list of the events it holds; \<open>inbox_recv\<close> is a client reading its channel.
  An event that meets a full channel is skipped for that client only.
\<close>

record inbox_Event =
  ie_IdempotencyKey :: string
  ie_SenderRegion :: string
  ie_RecipientRegion :: string
  ie_TrustTier :: "32 word"
  ie_Payload :: string
  ie_Timestamp :: int

definition subBufSize :: nat where "subBufSize = 64"

record Inbox_state =
  in_subs :: "64 word \<rightharpoonup> inbox_Event list"
  in_next :: "64 word"

definition inbox_New :: Inbox_state where
  "inbox_New = \<lparr>in_subs = Map.empty, in_next = 0\<rparr>"

definition Subscribe :: "Inbox_state \<Rightarrow> 64 word \<times> Inbox_state" where
  "Subscribe b =
     (let sid = in_next b in (sid, b\<lparr>in_next := sid + 1, in_subs := (in_subs b)(sid \<mapsto> [])\<rparr>))"

definition Unsubscribe :: "64 word \<Rightarrow> Inbox_state \<Rightarrow> Inbox_state" where
  "Unsubscribe sid b =
     (case in_subs b sid of Some c \<Rightarrow> b\<lparr>in_subs := (in_subs b)(sid := None)\<rparr> | None \<Rightarrow> b)"

definition chan_send :: "inbox_Event \<Rightarrow> inbox_Event list \<Rightarrow> inbox_Event list" where
  "chan_send e c = (if length c < subBufSize then c @ [e] else c)"

definition Publish :: "64 word list \<Rightarrow> inbox_Event \<Rightarrow> Inbox_state \<Rightarrow> Inbox_state" where
  "Publish ks e b =
     b\<lparr>in_subs := fold (\<lambda>k m. case m k of Some c \<Rightarrow> m(k \<mapsto> chan_send e c) | None \<Rightarrow> m) ks (in_subs b)\<rparr>"

definition inbox_recv :: "64 word \<Rightarrow> Inbox_state \<Rightarrow> inbox_Event option \<times> Inbox_state" where
  "inbox_recv sid b =
     (case in_subs b sid of
        Some (e # c) \<Rightarrow> (Some e, b\<lparr>in_subs := (in_subs b)(sid \<mapsto> c)\<rparr>)
      | _ \<Rightarrow> (None, b))"

subsection \<open>Properties\<close>

lemma publish_fold:
  assumes "distinct ks"
  shows "fold (\<lambda>k m. case m k of Some c \<Rightarrow> m(k \<mapsto> chan_send e c) | None \<Rightarrow> m) ks m j =
    (if j \<in> set ks then map_option (chan_send e) (m j) else m j)"
  using assms by (induction ks arbitrary: m) (auto split: option.splits)

lemma Publish_lookup:
  assumes "enumerates ks (in_subs b)"
  shows "in_subs (Publish ks e b) k = map_option (chan_send e) (in_subs b k)"
  using assms by (auto simp: Publish_def publish_fold enumerates_def dom_def)

definition inbox_inv :: "Inbox_state \<Rightarrow> bool" where
  "inbox_inv b \<longleftrightarrow> finite (dom (in_subs b)) \<and> (\<forall>k c. in_subs b k = Some c \<longrightarrow> length c \<le> subBufSize)"

lemma chan_send_bound: "length c \<le> subBufSize \<Longrightarrow> length (chan_send e c) \<le> subBufSize"
  by (simp add: chan_send_def)

lemma inbox_inv_ops:
  "inbox_inv inbox_New"
  "inbox_inv b \<Longrightarrow> inbox_inv (snd (Subscribe b))"
  "inbox_inv b \<Longrightarrow> inbox_inv (Unsubscribe k b)"
  "inbox_inv b \<Longrightarrow> inbox_inv (snd (inbox_recv k b))"
  by (auto simp: inbox_inv_def inbox_New_def Subscribe_def Unsubscribe_def inbox_recv_def Let_def
      split: option.splits list.splits) (metis Suc_leD length_Cons)

lemma Publish_inv:
  assumes "inbox_inv b" "enumerates ks (in_subs b)"
  shows "inbox_inv (Publish ks e b)"
proof -
  have "in_subs (Publish ks e b) = (\<lambda>k. map_option (chan_send e) (in_subs b k))"
    by (rule ext) (rule Publish_lookup [OF assms(2)])
  then show ?thesis
    using assms(1) by (auto simp: inbox_inv_def chan_send_bound dom_def)
qed

text \<open>Publishing a list of events, and what one client then finds in its channel.\<close>

fun publish_all :: "64 word list \<Rightarrow> inbox_Event list \<Rightarrow> Inbox_state \<Rightarrow> Inbox_state" where
  "publish_all ks [] b = b"
| "publish_all ks (e # es) b = publish_all ks es (Publish ks e b)"

lemma publish_all_lookup:
  assumes "enumerates ks (in_subs b)" "in_subs b k = Some c" "length c \<le> subBufSize"
  shows "in_subs (publish_all ks es b) k = Some (take subBufSize (c @ es))"
  using assms
proof (induction es arbitrary: b c)
  case (Cons e es)
  have "enumerates ks (in_subs (Publish ks e b))"
    using Cons.prems(1) by (auto simp: enumerates_def dom_def Publish_lookup [OF Cons.prems(1)])
  moreover have "in_subs (Publish ks e b) k = Some (chan_send e c)"
    using Cons.prems by (simp add: Publish_lookup)
  ultimately have "in_subs (publish_all ks es (Publish ks e b)) k = Some (take subBufSize (chan_send e c @ es))"
    using Cons.prems by (intro Cons.IH chan_send_bound)
  then show ?case using Cons.prems(3) by (auto simp: chan_send_def take_Cons' Suc_diff_Suc)
qed simp

subsection \<open>Properties\<close>

text \<open>
  A client of the inbox that does not read sees the first 64 published events in order:
  its channel holds what it held followed by the new events, cut at the buffer size, and no
  client's slowness changes what another receives.
\<close>

theorem inbox_keeps_first_events:
  assumes "enumerates ks (in_subs b)" "in_subs b k = Some c" "length c \<le> subBufSize"
  shows "in_subs (publish_all ks es b) k = Some (take subBufSize (c @ es))"
  using assms by (rule publish_all_lookup)

definition demo_event :: inbox_Event where
  "demo_event = \<lparr>ie_IdempotencyKey = ''k'', ie_SenderRegion = ''RS'', ie_RecipientRegion = ''RU'',
     ie_TrustTier = 1, ie_Payload = '''', ie_Timestamp = 0\<rparr>"

theorem inbox_keeps_first_events_witness:
  "in_subs (publish_all [0] (replicate 70 demo_event) (snd (Subscribe inbox_New))) 0 = Some (replicate 64 demo_event)"
proof -
  have b: "in_subs (snd (Subscribe inbox_New)) = [0 \<mapsto> []]"
    by (simp add: Subscribe_def inbox_New_def Let_def)
  then have "enumerates [0] (in_subs (snd (Subscribe inbox_New)))" by (simp add: enumerates_def)
  from inbox_keeps_first_events [OF this, of 0 "[]" "replicate 70 demo_event"] show ?thesis
    by (simp add: b subBufSize_def)
qed

end
