(* ===== verification/Peers.thy ===== *)
theory Peers
  imports Prelude
begin

text \<open>
  What a node knows of its peers: the registry filled by gossip
  (\<open>internal/peerdiscovery/registry.go\<close>), the cache of the peers' root hashes
  (\<open>internal/peercache/cache.go\<close>) and the trust decay timer
  (\<open>internal/trustdecay/timer.go\<close>). The clock is the argument \<open>now\<close>.
\<close>

subsection \<open>Peer registry\<close>

record PeerInfo =
  pi_NodeID :: string
  pi_Addr :: string
  pi_NodeScope :: string
  pi_Region :: string
  pi_LastSeen :: int

type_synonym peer_Registry = "string \<rightharpoonup> PeerInfo"

definition peerdiscovery_New :: peer_Registry where "peerdiscovery_New = Map.empty"

definition Announce :: "int \<Rightarrow> PeerInfo \<Rightarrow> peer_Registry \<Rightarrow> peer_Registry" where
  "Announce now peer r = r(pi_NodeID peer \<mapsto> peer\<lparr>pi_LastSeen := now\<rparr>)"

definition peer_Evict :: "string \<Rightarrow> peer_Registry \<Rightarrow> peer_Registry" where
  "peer_Evict nodeID r = r(nodeID := None)"

definition Known :: "string list \<Rightarrow> peer_Registry \<Rightarrow> PeerInfo list" where
  "Known ks r = List.map_filter r ks"

definition EvictStale :: "string list \<Rightarrow> int \<Rightarrow> int \<Rightarrow> peer_Registry \<Rightarrow> peer_Registry" where
  "EvictStale ks now maxAge r =
     (let cutoff = now + - maxAge in delete_if (\<lambda>p. pi_LastSeen p < cutoff) ks r)"

definition registry_inv :: "peer_Registry \<Rightarrow> bool" where
  "registry_inv r \<longleftrightarrow> finite (dom r) \<and> (\<forall>k p. r k = Some p \<longrightarrow> pi_NodeID p = k)"

lemma registry_inv_ops:
  "registry_inv peerdiscovery_New"
  "registry_inv r \<Longrightarrow> registry_inv (Announce now p r)"
  "registry_inv r \<Longrightarrow> registry_inv (peer_Evict k r)"
  "registry_inv r \<Longrightarrow> registry_inv (EvictStale ks now maxAge r)"
proof -
  show "registry_inv r \<Longrightarrow> registry_inv (EvictStale ks now maxAge r)"
    using delete_if_dom [of "\<lambda>p. pi_LastSeen p < now - maxAge" ks r]
    by (auto simp: registry_inv_def EvictStale_def Let_def delete_if_lookup
        intro: finite_subset split: option.splits if_splits)
qed (auto simp: registry_inv_def peerdiscovery_New_def Announce_def peer_Evict_def)

lemma set_Known: "enumerates ks r \<Longrightarrow> set (Known ks r) = ran r"
  by (simp add: Known_def set_map_filter_enum)

lemma EvictStale_lookup:
  assumes "enumerates ks r"
  shows "EvictStale ks now maxAge r k =
    (case r k of Some p \<Rightarrow> if pi_LastSeen p < now - maxAge then None else Some p | None \<Rightarrow> None)"
  using assms by (simp add: EvictStale_def delete_if_enum cong: option.case_cong)

subsection \<open>Root hash cache\<close>

record peercache_Entry =
  pce_RootHash :: string
  pce_Timestamp :: int

type_synonym peercache = "string \<rightharpoonup> peercache_Entry"

definition peercache_New :: peercache where "peercache_New = Map.empty"

definition peercache_Store :: "string \<Rightarrow> string \<Rightarrow> int \<Rightarrow> peercache \<Rightarrow> peercache" where
  "peercache_Store nodeID rootHash timestamp c =
     c(nodeID \<mapsto> \<lparr>pce_RootHash = rootHash, pce_Timestamp = timestamp\<rparr>)"

definition peercache_All :: "string list \<Rightarrow> peercache \<Rightarrow> peercache" where
  "peercache_All ks c = foldl (\<lambda>out k. case c k of Some v \<Rightarrow> out(k \<mapsto> v) | None \<Rightarrow> out) Map.empty ks"

lemma peercache_All_copy:
  assumes "enumerates ks c"
  shows "peercache_All ks c = c"
proof
  fix k
  have "foldl (\<lambda>out k. case c k of Some v \<Rightarrow> out(k \<mapsto> v) | None \<Rightarrow> out) m ks k = (if k \<in> set ks \<and> c k \<noteq> None then c k else m k)" for m ks
    by (induction ks arbitrary: m) (auto split: option.splits)
  then show "peercache_All ks c k = c k"
    using assms by (auto simp: peercache_All_def enumerates_def dom_def)
qed

subsection \<open>Trust decay\<close>

record decay_Timer =
  dt_lastValidated :: "string \<rightharpoonup> int"
  dt_DecayWindow :: int
  dt_checkInterval :: int

definition trustdecay_New :: "int \<Rightarrow> decay_Timer" where
  "trustdecay_New decayWindow =
     \<lparr>dt_lastValidated = Map.empty,
      dt_DecayWindow = (if decayWindow \<le> 0 then 30 * 24 * hour else decayWindow),
      dt_checkInterval = hour\<rparr>"

definition RecordValidation :: "int \<Rightarrow> string \<Rightarrow> decay_Timer \<Rightarrow> decay_Timer" where
  "RecordValidation now peerID t = t\<lparr>dt_lastValidated := (dt_lastValidated t)(peerID \<mapsto> now)\<rparr>"

definition EffectiveTier :: "int \<Rightarrow> string \<Rightarrow> 32 word \<Rightarrow> decay_Timer \<Rightarrow> 32 word" where
  "EffectiveTier now peerID announcedTier t =
     (if (case dt_lastValidated t peerID of None \<Rightarrow> True | Some last' \<Rightarrow> now - last' > dt_DecayWindow t)
      then (if announcedTier > 0 then announcedTier - 1 else 0)
      else announcedTier)"

text \<open>One tick of \<open>Run\<close>: the peers the loop warns about.\<close>

definition decay_warnings :: "string list \<Rightarrow> int \<Rightarrow> decay_Timer \<Rightarrow> string list" where
  "decay_warnings ks now t =
     filter (\<lambda>p. case dt_lastValidated t p of Some last' \<Rightarrow> now - last' > dt_DecayWindow t | None \<Rightarrow> False) ks"

lemma word_pred: "0 < w \<Longrightarrow> unat (w - 1 :: 32 word) = unat w - 1"
  by unat_arith

lemma EffectiveTier_unat:
  "unat (EffectiveTier now p tier t) =
     (if \<exists>l. dt_lastValidated t p = Some l \<and> now - l \<le> dt_DecayWindow t then unat tier else unat tier - 1)"
  by (auto simp: EffectiveTier_def word_pred word_gt_0 not_less split: option.splits)

lemma EffectiveTier_bounds:
  "EffectiveTier now p tier t \<le> tier" "unat tier \<le> Suc (unat (EffectiveTier now p tier t))"
  by (auto simp: word_le_nat_alt EffectiveTier_unat)

subsection \<open>Properties\<close>

text \<open>
  The effective tier of a peer is the announced one if the peer was validated within the
  decay window and otherwise one less, never below zero and never above the announced tier.
\<close>

theorem trust_decays_by_one:
  "unat (EffectiveTier now p tier t) =
     (if \<exists>l. dt_lastValidated t p = Some l \<and> now - l \<le> dt_DecayWindow t then unat tier else unat tier - 1) \<and>
   EffectiveTier now p tier (RecordValidation now p (trustdecay_New w)) = tier"
proof -
  have "0 \<le> dt_DecayWindow (trustdecay_New w)" by (simp add: trustdecay_New_def duration_defs)
  then have "EffectiveTier now p tier (RecordValidation now p (trustdecay_New w)) = tier"
    by (simp add: EffectiveTier_def RecordValidation_def)
  then show ?thesis by (simp add: EffectiveTier_unat)
qed

end
