(* ===== verification/Ratelimit.thy ===== *)
theory Ratelimit
  imports Complex_Main Prelude
begin

text \<open>
  The token bucket limiter (\<open>internal/ratelimit/tokenbucket.go\<close>). The \<open>float64\<close> values are
  rationals and every operation whose result the machine rounds is followed by the
  rounding function \<open>fl\<close>, a parameter. What the lemmas rely on is \<open>float_rounding\<close>: IEEE
  rounding is monotone and exact on the integers up to \<open>2^53\<close>. Times are nanoseconds.
\<close>

definition float_rounding :: "(rat \<Rightarrow> rat) \<Rightarrow> bool" where
  "float_rounding fl \<longleftrightarrow>
     (\<forall>x y. x \<le> y \<longrightarrow> fl x \<le> fl y) \<and> (\<forall>n::int. \<bar>n\<bar> \<le> 2 ^ 53 \<longrightarrow> fl (of_int n) = of_int n)"

definition defaultRate :: rat where "defaultRate = 10"
definition defaultBurst :: int where "defaultBurst = 20"
definition idleEvictAfter :: int where "idleEvictAfter = 5 * minute"

record bucket =
  bk_tokens :: rat
  bk_capacity :: rat
  bk_rate :: rat
  bk_lastSeen :: int

text \<open>\<open>Duration.Seconds\<close>: whole seconds plus the remaining nanoseconds over \<open>1e9\<close>.\<close>

definition dur_Seconds :: "(rat \<Rightarrow> rat) \<Rightarrow> int \<Rightarrow> rat" where
  "dur_Seconds fl d =
     fl (fl (of_int (go_div d second)) + fl (fl (of_int (go_mod d second)) / 1000000000))"

definition bucket_allow :: "(rat \<Rightarrow> rat) \<Rightarrow> int \<Rightarrow> bucket \<Rightarrow> bool \<times> bucket" where
  "bucket_allow fl now b =
     (let elapsed = dur_Seconds fl (now - bk_lastSeen b);
          t1 = fl (bk_tokens b + fl (elapsed * bk_rate b));
          t2 = (if t1 > bk_capacity b then bk_capacity b else t1)
      in if t2 < 1 then (False, b\<lparr>bk_lastSeen := now, bk_tokens := t2\<rparr>)
         else (True, b\<lparr>bk_lastSeen := now, bk_tokens := fl (t2 - 1)\<rparr>))"

record Limiter =
  lm_buckets :: "string \<rightharpoonup> bucket"
  lm_rate :: rat
  lm_burst :: rat

definition limiter_New :: "rat \<Rightarrow> int \<Rightarrow> Limiter" where
  "limiter_New rate burst =
     \<lparr>lm_buckets = Map.empty, lm_rate = (if rate \<le> 0 then defaultRate else rate),
      lm_burst = of_int (if burst \<le> 0 then defaultBurst else burst)\<rparr>"

definition limiter_Allow :: "(rat \<Rightarrow> rat) \<Rightarrow> int \<Rightarrow> string \<Rightarrow> Limiter \<Rightarrow> bool \<times> Limiter" where
  "limiter_Allow fl now key l =
     (let b = (case lm_buckets l key of
                 Some b \<Rightarrow> b
               | None \<Rightarrow> \<lparr>bk_tokens = lm_burst l, bk_capacity = lm_burst l, bk_rate = lm_rate l,
                          bk_lastSeen = now\<rparr>)
      in case bucket_allow fl now b of (ok, b') \<Rightarrow> (ok, l\<lparr>lm_buckets := (lm_buckets l)(key \<mapsto> b')\<rparr>))"

definition limiter_Len :: "Limiter \<Rightarrow> nat" where
  "limiter_Len l = card (dom (lm_buckets l))"

text \<open>One tick of the \<open>cleanup\<close> loop.\<close>

definition limiter_cleanup :: "string list \<Rightarrow> int \<Rightarrow> Limiter \<Rightarrow> Limiter" where
  "limiter_cleanup ks now l =
     l\<lparr>lm_buckets := delete_if (\<lambda>b. now - bk_lastSeen b > idleEvictAfter) ks (lm_buckets l)\<rparr>"

subsection \<open>Bounds\<close>

lemma fl_mono: "float_rounding fl \<Longrightarrow> x \<le> y \<Longrightarrow> fl x \<le> fl y"
  by (simp add: float_rounding_def)

lemma fl_int: "float_rounding fl \<Longrightarrow> \<bar>n\<bar> \<le> 2 ^ 53 \<Longrightarrow> fl (of_int n) = of_int n"
  unfolding float_rounding_def by blast

lemma fl_0 [simp]: "float_rounding fl \<Longrightarrow> fl 0 = 0"
  using fl_int [of fl 0] by simp

lemma fl_nonneg: "float_rounding fl \<Longrightarrow> 0 \<le> x \<Longrightarrow> 0 \<le> fl x"
  using fl_mono [of fl 0 x] by simp

lemma dur_Seconds_nonneg:
  assumes "float_rounding fl" "0 \<le> d"
  shows "0 \<le> dur_Seconds fl d"
proof -
  have "0 \<le> go_div d second" "0 \<le> go_mod d second"
    using assms(2) by (simp_all add: go_div_nonneg go_mod_nonneg duration_defs pos_imp_zdiv_nonneg_iff)
  then have "0 \<le> fl (of_int (go_div d second))" "0 \<le> fl (of_int (go_mod d second))"
    by (auto intro: fl_nonneg [OF assms(1), of "of_int (go_div d second)"] fl_nonneg [OF assms(1), of "of_int (go_mod d second)"])
  then show ?thesis
    unfolding dur_Seconds_def using fl_nonneg [OF assms(1), of "fl (of_int (go_mod d second)) / 1000000000"]
    by (simp add: fl_nonneg [OF assms(1)])
qed

lemma dur_Seconds_0 [simp]: "float_rounding fl \<Longrightarrow> dur_Seconds fl 0 = 0"
  by (simp add: dur_Seconds_def go_div_def go_mod_def)

definition bucket_inv :: "bucket \<Rightarrow> bool" where
  "bucket_inv b \<longleftrightarrow> 0 \<le> bk_tokens b \<and> bk_tokens b \<le> bk_capacity b \<and> 0 \<le> bk_rate b \<and>
     (\<exists>n::int. bk_capacity b = of_int n \<and> 1 \<le> n \<and> n \<le> 2 ^ 53)"

lemma bucket_allow_inv:
  assumes fl: "float_rounding fl" and b: "bucket_inv b" and t: "bk_lastSeen b \<le> now"
  shows "bucket_inv (snd (bucket_allow fl now b))"
proof -
  define t1 where "t1 = fl (bk_tokens b + fl (dur_Seconds fl (now - bk_lastSeen b) * bk_rate b))"
  define t2 where "t2 = (if t1 > bk_capacity b then bk_capacity b else t1)"
  have "0 \<le> dur_Seconds fl (now - bk_lastSeen b) * bk_rate b"
    using b t dur_Seconds_nonneg [OF fl] by (simp add: bucket_inv_def)
  then have "0 \<le> bk_tokens b + fl (dur_Seconds fl (now - bk_lastSeen b) * bk_rate b)"
    using b by (simp add: bucket_inv_def fl_nonneg [OF fl])
  then have t1: "0 \<le> t1" unfolding t1_def by (rule fl_nonneg [OF fl])
  obtain n :: int where n: "bk_capacity b = of_int n" "1 \<le> n" "n \<le> 2 ^ 53"
    using b by (auto simp: bucket_inv_def)
  have t2: "0 \<le> t2" "t2 \<le> of_int n" using t1 n by (auto simp: t2_def)
  have cap: "fl (t2 - 1) \<le> of_int n"
  proof -
    have "fl (t2 - 1) \<le> fl (of_int n)" using t2 by (intro fl_mono [OF fl]) simp
    then show ?thesis using fl_int [OF fl, of n] n by simp
  qed
  have "snd (bucket_allow fl now b) =
      b\<lparr>bk_lastSeen := now, bk_tokens := if t2 < 1 then t2 else fl (t2 - 1)\<rparr>"
    by (simp add: bucket_allow_def Let_def t1_def t2_def)
  then show ?thesis
    using b t2 cap n fl_nonneg [OF fl, of "t2 - 1"] by (auto simp: bucket_inv_def)
qed

text \<open>Repeated calls at one instant.\<close>

fun allow_times :: "(rat \<Rightarrow> rat) \<Rightarrow> int \<Rightarrow> string \<Rightarrow> nat \<Rightarrow> Limiter \<Rightarrow> bool list \<times> Limiter" where
  "allow_times fl now key 0 l = ([], l)"
| "allow_times fl now key (Suc n) l =
     (case limiter_Allow fl now key l of (ok, l1) \<Rightarrow>
        (case allow_times fl now key n l1 of (oks, l2) \<Rightarrow> (ok # oks, l2)))"

lemma bucket_allow_exact:
  assumes fl: "float_rounding fl" and b: "bk_lastSeen b = now" "bk_tokens b = of_nat m" "of_nat m \<le> bk_capacity b"
    and m: "m \<le> 2 ^ 53"
  shows "bucket_allow fl now b = (0 < m, b\<lparr>bk_tokens := of_nat (m - 1)\<rparr>)"
proof -
  have f: "fl (of_nat k) = of_nat k" if "k \<le> 2 ^ 53" for k
  proof -
    have "int k \<le> int (2 ^ 53)" using that by (simp only: of_nat_le_iff)
    then show ?thesis using fl_int [OF fl, of "int k"] by simp
  qed
  have "fl (of_nat m - 1) = of_nat (m - 1)" if "0 < m"
    using f [of "m - 1"] m that by (simp add: of_nat_diff)
  then show ?thesis
    using fl b f [OF m] by (cases m) (auto simp: bucket_allow_def Let_def)
qed

lemma allow_times_bucket:
  assumes fl: "float_rounding fl"
    and "lm_buckets l key = Some b" "bk_lastSeen b = now" "bk_tokens b = of_nat m" "of_nat m \<le> bk_capacity b"
    and "m \<le> 2 ^ 53"
  shows "fst (allow_times fl now key n l) = map (\<lambda>i. i < m) [0 ..< n]"
  using assms(2-6)
proof (induction n arbitrary: l b m)
  case (Suc n)
  have e: "bucket_allow fl now b = (0 < m, b\<lparr>bk_tokens := of_nat (m - 1)\<rparr>)"
    using Suc.prems by (intro bucket_allow_exact [OF fl])
  define l1 where "l1 = l\<lparr>lm_buckets := (lm_buckets l)(key \<mapsto> b\<lparr>bk_tokens := of_nat (m - 1)\<rparr>)\<rparr>"
  have step: "limiter_Allow fl now key l = (0 < m, l1)"
    using e Suc.prems by (simp add: limiter_Allow_def l1_def)
  have "of_nat (m - 1) \<le> bk_capacity b"
    using Suc.prems(4) by (rule order_trans [rotated]) simp
  then have IH: "fst (allow_times fl now key n l1) = map (\<lambda>i. i < m - 1) [0 ..< n]"
    using Suc.prems by (intro Suc.IH [where b = "b\<lparr>bk_tokens := of_nat (m - 1)\<rparr>"]) (simp_all add: l1_def)
  have "fst (allow_times fl now key (Suc n) l) = (0 < m) # map (\<lambda>i. i < m - 1) [0 ..< n]"
    using step IH by (cases "allow_times fl now key n l1") simp
  also have "\<dots> = map (\<lambda>i. i < m) [0 ..< Suc n]"
    by (subst upt_conv_Cons, simp, subst map_Suc_upt [symmetric]) auto
  finally show ?case .
qed simp

lemma allow_times_fresh:
  assumes fl: "float_rounding fl" and "lm_buckets l key = None" "lm_burst l = of_nat m" "m \<le> 2 ^ 53"
  shows "fst (allow_times fl now key n l) = map (\<lambda>i. i < m) [0 ..< n]"
proof (cases n)
  case (Suc k)
  let ?b = "\<lparr>bk_tokens = lm_burst l, bk_capacity = lm_burst l, bk_rate = lm_rate l, bk_lastSeen = now\<rparr>"
  have "limiter_Allow fl now key l = limiter_Allow fl now key (l\<lparr>lm_buckets := (lm_buckets l)(key \<mapsto> ?b)\<rparr>)"
    using assms(2) by (simp add: limiter_Allow_def)
  then have "allow_times fl now key n l = allow_times fl now key n (l\<lparr>lm_buckets := (lm_buckets l)(key \<mapsto> ?b)\<rparr>)"
    by (simp add: Suc)
  moreover have "fst (allow_times fl now key n (l\<lparr>lm_buckets := (lm_buckets l)(key \<mapsto> ?b)\<rparr>)) = map (\<lambda>i. i < m) [0 ..< n]"
    using assms by (intro allow_times_bucket [OF fl, where b = ?b]) simp_all
  ultimately show ?thesis by simp
qed simp

subsection \<open>Properties\<close>

text \<open>
  The burst limit is exact: of any number of calls for a new key at one instant, the
  first \<open>burst\<close> are allowed and all others are refused, with the rounding of \<open>float64\<close>.
\<close>

theorem burst_is_exact:
  assumes "float_rounding fl" "lm_buckets l key = None" "lm_burst l = of_nat burst" "burst \<le> 2 ^ 53"
  shows "fst (allow_times fl now key n l) = map (\<lambda>i. i < burst) [0 ..< n]"
  using assms by (rule allow_times_fresh)

lemma exact_rounding: "float_rounding (\<lambda>x. x)"
  by (simp add: float_rounding_def)

theorem burst_is_exact_witness:
  "fst (allow_times (\<lambda>x. x) 0 ''n'' 3 (limiter_New 1 2)) = [True, True, False]"
  using burst_is_exact [OF exact_rounding, of "limiter_New 1 2" "''n''" 2 0 3]
  by (simp add: limiter_New_def upt_rec)

end
