(* ===== verification/Http_Types.thy ===== *)
theory Http_Types
  imports Http_Auth Gateway_Runs Registry Inbox Peers Ratelimit
begin

text \<open>
  The data of the management server (\<open>internal/server/http.go\<close>): its dependencies, what a
  request reads from outside, the request bodies after decoding, and the responses. The
  gateway with its audit log and revocation list and the forwarder with its dead-letter queue
  are the shared objects of the node; a dependency that may be nil is an option or a flag
  (the queue is nil when \<open>fw_dlq\<close> is \<open>None\<close>, the revocation list when \<open>gw_crl\<close> is \<open>None\<close>).
  \<open>http_env\<close> collects the clock, UUIDs, map orders, the JWT library, the signer, the forwarding
  function, the persisted audit rows and the outcome of reading the configuration file.
\<close>

subsection \<open>State\<close>

record http_server =
  sv_cfg :: Config
  sv_startTime :: int
  sv_gw :: gateway
  sv_fwd :: forwarder
  sv_forwarding :: bool
  sv_Engine :: bool
  sv_Audit :: bool
  sv_Gateway :: bool
  sv_PrivKey :: "string option"
  sv_Peers :: "peercache option"
  sv_Inbox :: "Inbox_state option"
  sv_Registry :: "user_Registry option"
  sv_RuntimePeers :: "RuntimePeers option"
  sv_RuntimeApps :: "RuntimeApps option"
  sv_RuntimeAdapters :: "RuntimeAdapters option"
  sv_OnConfigReload :: bool
  sv_OnConfigSave :: bool

record 'w http_env =
  he_jwt :: jwt_lib
  he_clk :: "nat \<Rightarrow> int"
  he_uuid :: "nat \<Rightarrow> string"
  he_digest :: "string \<Rightarrow> string"
  he_sign :: "string \<Rightarrow> string \<Rightarrow> string"
  he_fl :: "rat \<Rightarrow> rat"
  he_cancelled :: bool
  he_fwd :: "(fwd_error, forwarder \<times> 'w) forward_fun"
  he_latest :: "int \<Rightarrow> string + store_AuditEntry list"
  he_load :: "load_error + Config"
  he_order :: "string set \<Rightarrow> string list" \<comment> \<open>the order in which a map is ranged over\<close>
  he_users :: "string \<Rightarrow> string list"

subsection \<open>Responses\<close>

record auditSignPayload =
  asp_ADRVersion :: string
  asp_AppVersion :: string
  asp_ApplicableLaw :: string
  asp_NodeID :: string
  asp_RootHash :: string
  asp_Timestamp :: int
  asp_Version :: int

record dlqDTO =
  dd_Index :: nat
  dd_PeerAddr :: string
  dd_Attempts :: int
  dd_LastError :: string
  dd_FirstSeenUnix :: int
  dd_LastAttemptUnix :: int
  dd_EnvelopeID :: string
  dd_SenderRegion :: string
  dd_RecipientRegion :: string
  dd_Reason :: string
  dd_NextOpenUnix :: int

record crlDTO =
  cd_NodeID :: string
  cd_Reason :: string
  cd_SigCount :: nat
  cd_IsEffective :: bool
  cd_RevokedAt :: int

record peerDTO =
  pd_NodeID :: string
  pd_Addr :: string
  pd_NodeScope :: string
  pd_Region :: string
  pd_Source :: string

record appInfo =
  ai_AppID :: string
  ai_WebhookURL :: string
  ai_LastSeen :: int

record adapterDTO =
  ad_SchemaType :: string
  ad_SchemaVersion :: string
  ad_Builtin :: bool
  ad_Status :: string
  ad_Text :: string
  ad_Tiers :: "string list"
  ad_AllowJurisdictions :: "string list"
  ad_RequireProfile :: string
  ad_HardcodedConstraints :: bool
  ad_ContactInfo :: string

record node_status =
  ns_NodeID :: string
  ns_Region :: string
  ns_NodeScope :: string
  ns_Profile :: string
  ns_ApplicableLaw :: string
  ns_AppVersion :: string
  ns_ADRVersion :: string
  ns_UptimeSeconds :: int

datatype http_cause =
    DecodeFailed string | LoadFailed load_error | ConfigFailed config_error | GatewayFailed gateway_error

datatype http_body =
    NoBody
  | Text string
  | JsonError string
  | JsonErrorOf string http_cause
  | AuditDoc auditSignPayload string
  | PeerHashes peercache
  | Status node_status
  | AuditRows "audit_Entry list"
  | Decided SendResponse
  | Replayed string string
  | DLQList "dlqDTO list"
  | CRLList "crlDTO list"
  | Revocation string bool
  | Streaming "64 word"
  | PeerAdded string
  | PeerList "peerDTO list"
  | Reloaded
  | Found "DiscoveryResult list"
  | Connected ConnectResult
  | AppList "appInfo list"
  | AppKey string string
  | AdapterList "adapterDTO list"
  | AdapterEntry CustomAdapterEntry
  | JwtIssued string string int

type_synonym http_response = "nat \<times> http_body"

definition writeJSONError :: "string \<Rightarrow> nat \<Rightarrow> http_response" where
  "writeJSONError msg code = (code, JsonError msg)"

subsection \<open>Request bodies\<close>

record send_body =
  sb_IdempotencyKey :: string
  sb_SenderRegion :: string
  sb_RecipientRegion :: string
  sb_TrustTier :: "32 word"
  sb_Payload :: string
  sb_SenderIdentity :: string

record crl_body =
  cb_NodeID :: string
  cb_Reason :: string
  cb_SignatureB64 :: string

record revoke_body =
  rb_Reason :: string
  rb_SignatureB64 :: string

record peer_body =
  pb_NodeID :: string
  pb_Addr :: string
  pb_NodeScope :: string
  pb_Region :: string

record connect_body =
  nb_OpaqueToken :: string
  nb_RequesterID :: string
  nb_RequesterRegion :: string

record app_body =
  ab_AppID :: string
  ab_WebhookURL :: string
  ab_WebhookSecret :: string

record token_body =
  tb_Scope :: string
  tb_TTLMinutes :: int

end
