(* ===== verification/Http.thy ===== *)
theory Http
  imports Http_Types
begin

text \<open>
  The handlers of the management server (\<open>internal/server/http.go\<close>), one definition each in
  the order of \<open>NewHTTPServer\<close>, and \<open>ServeHTTP\<close>, which wraps them as the source does. Which
  handler a request reaches is the constructor of \<open>http_call\<close>, one per registered pattern,
  with its path values and decoded body.
\<close>

subsection \<open>Callbacks of the node\<close>

text \<open>The closures \<open>onReload\<close> and \<open>onConfigSave\<close> that \<open>app.Run\<close> hands to the server.\<close>

definition onReload :: "(string set \<Rightarrow> string list) \<Rightarrow> load_error + Config \<Rightarrow> gateway \<Rightarrow> http_cause option \<times> gateway" where
  "onReload order loaded g =
     (case loaded of
        Inl err \<Rightarrow> (Some (LoadFailed err), g)
      | Inr newCfg \<Rightarrow>
          (case Reload (order (dom (nw_Peers (cfg_Network newCfg)))) newCfg (engine_of g) of
             (err, e) \<Rightarrow> (map_option ConfigFailed err, put_engine e g)))"

definition onConfigSave :: "(string set \<Rightarrow> string list) \<Rightarrow> Config \<Rightarrow> gateway \<Rightarrow> http_cause option \<times> gateway" where
  "onConfigSave order newCfg g =
     (let ks = order (dom (nw_Peers (cfg_Network newCfg))) in
      case Validate ks newCfg of
        Some err \<Rightarrow> (Some (ConfigFailed err), g)
      | None \<Rightarrow> (case Reload ks newCfg (engine_of g) of
                   (err, e) \<Rightarrow> (map_option ConfigFailed err, put_engine e g)))"

subsection \<open>Health and audit documents\<close>

definition version_ADR :: string where "version_ADR = ''0.9''"

definition handle_healthz :: http_response where "handle_healthz = (200, Text ''ok'')"

definition handle_readyz :: "http_server \<Rightarrow> http_response" where
  "handle_readyz s =
     (if \<not> sv_Engine s then writeJSONError ''policy engine not ready'' 503 else (200, Text ''ready''))"

definition sign_fields :: "auditSignPayload \<Rightarrow> (string \<times> jval) list" where
  "sign_fields p =
     [(''adr_version'', JStr (asp_ADRVersion p)), (''app_version'', JStr (asp_AppVersion p)),
      (''applicable_law'', JStr (asp_ApplicableLaw p)), (''node_id'', JStr (asp_NodeID p)),
      (''root_hash'', JStr (asp_RootHash p)), (''timestamp'', JNum (asp_Timestamp p)),
      (''version'', JNum (asp_Version p))]"

definition handle_wellknown :: "'w http_env \<Rightarrow> http_server \<Rightarrow> http_response" where
  "handle_wellknown E s =
     (if \<not> ap_HTTPSWellKnown (pol_Audit (cfg_Policy (sv_cfg s))) then (404, Text ''404 page not found'')
      else
        let rootHash = (if sv_Audit s then RootHash (gw_audit (sv_gw s)) else ''sha256:BOOTSTRAP_PLACEHOLDER'');
            payload = \<lparr>asp_ADRVersion = version_ADR, asp_AppVersion = version_App,
                       asp_ApplicableLaw = nc_ApplicableLaw (cfg_Node (sv_cfg s)),
                       asp_NodeID = nc_NodeID (cfg_Node (sv_cfg s)), asp_RootHash = rootHash,
                       asp_Timestamp = unix_sec (he_clk E 0), asp_Version = 1\<rparr>;
            sig = (case sv_PrivKey s of
                     None \<Rightarrow> ''''
                   | Some key \<Rightarrow> ''ed25519:'' @ base64 (he_sign E key (json_obj (sign_fields payload))))
        in (200, AuditDoc payload sig))"

definition handle_peers_audit :: "'w http_env \<Rightarrow> http_server \<Rightarrow> http_response" where
  "handle_peers_audit E s =
     (200, PeerHashes (case sv_Peers s of
                         None \<Rightarrow> Map.empty
                       | Some c \<Rightarrow> peercache_All (he_order E (dom c)) c))"

definition handle_status :: "'w http_env \<Rightarrow> http_server \<Rightarrow> http_response" where
  "handle_status E s =
     (let n = cfg_Node (sv_cfg s) in
      (200, Status \<lparr>ns_NodeID = nc_NodeID n, ns_Region = nc_Region n, ns_NodeScope = nc_NodeScope n,
                    ns_Profile = pf_Name (cfg_Profile (sv_cfg s)), ns_ApplicableLaw = nc_ApplicableLaw n,
                    ns_AppVersion = version_App, ns_ADRVersion = version_ADR,
                    ns_UptimeSeconds = truncate_rat (dur_Seconds (he_fl E) (he_clk E 0 - sv_startTime s))\<rparr>))"

definition latest_count :: "string \<Rightarrow> int" where
  "latest_count q =
     (if q \<noteq> '''' then (case atoi q of
                          Some v \<Rightarrow> if v > 0 \<and> v \<le> 200 then v else 20
                        | None \<Rightarrow> 20)
      else 20)"

definition handle_audit_latest :: "'w http_env \<Rightarrow> http_request \<Rightarrow> http_server \<Rightarrow> http_response" where
  "handle_audit_latest E r s =
     (if \<not> sv_Audit s then writeJSONError ''audit log not available'' 503
      else (200, AuditRows (Recent (he_latest E) (latest_count (rq_Query r ''n'')) (gw_audit (sv_gw s)))))"

subsection \<open>Envelopes and the dead-letter queue\<close>

text \<open>The call of the gateway: the clock is read \<open>n\<close> times before it.\<close>

definition gateway_send ::
  "'w http_env \<Rightarrow> nat \<Rightarrow> Envelope \<Rightarrow> http_server \<Rightarrow> 'w \<Rightarrow>
   (gateway_error + SendResponse) \<times> http_server \<times> 'w \<times> gw_event list" where
  "gateway_send E n env s w =
     (case SendEnvelope (he_digest E) (\<lambda>i. he_clk E (n + i)) (he_cancelled E)
             (if sv_forwarding s then Some (he_fwd E) else None) env (sv_gw s) (sv_fwd s, w) of
        (res, g, (f, w'), evs) \<Rightarrow> (res, s\<lparr>sv_gw := g, sv_fwd := f\<rparr>, w', evs))"

definition envelope_of_body :: "int \<Rightarrow> send_body \<Rightarrow> Envelope" where
  "envelope_of_body now b =
     \<lparr>ev_IdempotencyKey = sb_IdempotencyKey b, ev_SenderNodeID = '''', ev_SenderIdentity = sb_SenderIdentity b,
      ev_RecipientIdentity = '''', ev_SenderRegion = sb_SenderRegion b, ev_RecipientRegion = sb_RecipientRegion b,
      ev_TrustTier = sb_TrustTier b, ev_SequenceNumber = 0, ev_Payload = sb_Payload b, ev_PaddedTo = 0,
      ev_Timestamp = unix_milli now, ev_Signature = '''', ev_IsDummy = False, ev_SchemaType = '''',
      ev_SchemaVersion = '''', ev_RoutingHint = ''''\<rparr>"

definition handle_envelopes ::
  "'w http_env \<Rightarrow> send_body option \<Rightarrow> http_server \<Rightarrow> 'w \<Rightarrow> http_response \<times> http_server \<times> 'w \<times> gw_event list" where
  "handle_envelopes E body s w =
     (if \<not> sv_Gateway s then (writeJSONError ''gateway not available'' 503, s, w, [])
      else case body of
        None \<Rightarrow> (writeJSONError ''invalid request body'' 400, s, w, [])
      | Some b \<Rightarrow>
          if sb_IdempotencyKey b = '''' then (writeJSONError ''idempotency_key is required'' 400, s, w, [])
          else case gateway_send E 1 (envelope_of_body (he_clk E 0) b) s w of
            (Inl err, s', w', evs) \<Rightarrow> ((400, JsonErrorOf '''' (GatewayFailed err)), s', w', evs)
          | (Inr resp, s', w', evs) \<Rightarrow> ((200, Decided resp), s', w', evs))"

definition dlq_dto :: "nat \<Rightarrow> DLQEntry \<Rightarrow> dlqDTO" where
  "dlq_dto i e =
     \<lparr>dd_Index = i, dd_PeerAddr = dq_PeerAddr e, dd_Attempts = dq_Attempts e,
      dd_LastError = (case dq_LastErr e of None \<Rightarrow> '''' | Some err \<Rightarrow> err),
      dd_FirstSeenUnix = dq_FirstSeenUnix e, dd_LastAttemptUnix = dq_LastAttemptUnix e,
      dd_EnvelopeID = ev_IdempotencyKey (dq_Envelope e), dd_SenderRegion = ev_SenderRegion (dq_Envelope e),
      dd_RecipientRegion = ev_RecipientRegion (dq_Envelope e), dd_Reason = dq_Reason e,
      dd_NextOpenUnix = dq_NextOpenUnix e\<rparr>"

definition handle_dlq_list :: "http_server \<Rightarrow> http_response" where
  "handle_dlq_list s =
     (case fw_dlq (sv_fwd s) of
        None \<Rightarrow> (200, DLQList [])
      | Some d \<Rightarrow> (200, DLQList (map (\<lambda>(i, e). dlq_dto i e) (enumerate 0 (dlq_Entries d)))))"

definition parse_index :: "string \<Rightarrow> int option" where
  "parse_index v = (case atoi v of Some i \<Rightarrow> if i < 0 then None else Some i | None \<Rightarrow> None)"

definition dlq_set :: "DLQ \<Rightarrow> http_server \<Rightarrow> http_server" where
  "dlq_set d s = s\<lparr>sv_fwd := (sv_fwd s)\<lparr>fw_dlq := Some d\<rparr>\<rparr>"

text \<open>The same body serves \<open>DELETE .../{index}\<close> and \<open>POST .../{index}/discard\<close>.\<close>

definition handle_dlq_delete :: "string \<Rightarrow> http_server \<Rightarrow> http_response \<times> http_server" where
  "handle_dlq_delete index s =
     (case fw_dlq (sv_fwd s) of
        None \<Rightarrow> (writeJSONError ''dlq not available'' 503, s)
      | Some d \<Rightarrow>
          (case parse_index index of
             None \<Rightarrow> (writeJSONError ''invalid index'' 400, s)
           | Some idx \<Rightarrow> ((204, NoBody), dlq_set (dlq_Remove idx d) s)))"

definition dlq_remove_now :: "int \<Rightarrow> http_server \<Rightarrow> http_server" where
  "dlq_remove_now idx s =
     (case fw_dlq (sv_fwd s) of None \<Rightarrow> s | Some d \<Rightarrow> dlq_set (dlq_Remove idx d) s)"

definition handle_dlq_replay ::
  "'w http_env \<Rightarrow> string \<Rightarrow> http_server \<Rightarrow> 'w \<Rightarrow> http_response \<times> http_server \<times> 'w \<times> gw_event list" where
  "handle_dlq_replay E index s w =
     (case fw_dlq (sv_fwd s) of
        None \<Rightarrow> (writeJSONError ''dlq or gateway not available'' 503, s, w, [])
      | Some d \<Rightarrow>
          if \<not> sv_Gateway s then (writeJSONError ''dlq or gateway not available'' 503, s, w, [])
          else case parse_index index of
            None \<Rightarrow> (writeJSONError ''invalid index'' 400, s, w, [])
          | Some idx \<Rightarrow>
              let entries = dlq_Entries d in
              if idx \<ge> int (length entries) then (writeJSONError ''index out of range'' 404, s, w, [])
              else case gateway_send E 0 (dq_Envelope (entries ! nat idx)) s w of
                (Inl err, s', w', evs) \<Rightarrow> ((500, JsonErrorOf ''replay failed'' (GatewayFailed err)), s', w', evs)
              | (Inr resp, s', w', evs) \<Rightarrow>
                  ((200, Replayed (rs_Decision resp) (rs_Reason resp)), dlq_remove_now idx s', w', evs))"

subsection \<open>Revocation\<close>

definition crl_dto :: "crl_Entry \<Rightarrow> crlDTO" where
  "crl_dto e =
     \<lparr>cd_NodeID = crl_NodeID e, cd_Reason = crl_Reason e, cd_SigCount = length (crl_Signatures e),
      cd_IsEffective = (length (crl_Signatures e) \<ge> 2), cd_RevokedAt = unix_sec (crl_RevokedAt e)\<rparr>"

definition handle_crl_list :: "'w http_env \<Rightarrow> http_server \<Rightarrow> http_response" where
  "handle_crl_list E s =
     (case gw_crl (sv_gw s) of
        None \<Rightarrow> (200, CRLList [])
      | Some cs \<Rightarrow> (200, CRLList (map crl_dto (crl_Entries (he_order E (dom cs)) cs))))"

definition crl_set :: "crl_store \<Rightarrow> http_server \<Rightarrow> http_server" where
  "crl_set cs s = s\<lparr>sv_gw := (sv_gw s)\<lparr>gw_crl := Some cs\<rparr>\<rparr>"

definition handle_crl_post :: "'w http_env \<Rightarrow> crl_body option \<Rightarrow> http_server \<Rightarrow> http_response \<times> http_server" where
  "handle_crl_post E body s =
     (case gw_crl (sv_gw s) of
        None \<Rightarrow> (writeJSONError ''crl store not available'' 503, s)
      | Some cs \<Rightarrow>
          (case body of
             None \<Rightarrow> (writeJSONError ''invalid request body'' 400, s)
           | Some b \<Rightarrow>
               if cb_NodeID b = '''' \<or> cb_SignatureB64 b = ''''
               then (writeJSONError ''node_id and signature_b64 are required'' 400, s)
               else (case b64_decode (cb_SignatureB64 b) of
                       None \<Rightarrow> (writeJSONError ''invalid signature_b64 encoding'' 400, s)
                     | Some sig \<Rightarrow>
                         (let cs' = Revoke (he_clk E 0) (cb_NodeID b) (cb_Reason b) sig cs in
                          ((200, Revocation (cb_NodeID b) (IsRevoked cs' (cb_NodeID b))), crl_set cs' s)))))"

definition handle_revoke ::
  "'w http_env \<Rightarrow> string \<Rightarrow> revoke_body option \<Rightarrow> http_server \<Rightarrow> http_response \<times> http_server" where
  "handle_revoke E nodeID body s =
     (case gw_crl (sv_gw s) of
        None \<Rightarrow> (writeJSONError ''crl store not available'' 503, s)
      | Some cs \<Rightarrow>
          (case body of
             None \<Rightarrow> (writeJSONError ''reason and signature_b64 required'' 400, s)
           | Some b \<Rightarrow>
               if rb_SignatureB64 b = '''' then (writeJSONError ''reason and signature_b64 required'' 400, s)
               else (case b64_decode (rb_SignatureB64 b) of
                       None \<Rightarrow> (writeJSONError ''invalid signature_b64'' 400, s)
                     | Some sig \<Rightarrow>
                         (let cs' = Revoke (he_clk E 0) nodeID (rb_Reason b) sig cs in
                          ((200, Revocation nodeID (IsRevoked cs' nodeID)), crl_set cs' s)))))"

subsection \<open>The event stream\<close>

text \<open>The loop of the stream handler: subscribe, take events one at a time, unsubscribe at the end.\<close>

definition stream_open :: "http_server \<Rightarrow> http_response \<times> http_server" where
  "stream_open s =
     (case sv_Inbox s of
        None \<Rightarrow> (writeJSONError ''inbox not available'' 503, s)
      | Some ib \<Rightarrow> (case Subscribe ib of (sid, ib') \<Rightarrow> ((200, Streaming sid), s\<lparr>sv_Inbox := Some ib'\<rparr>)))"

definition stream_next :: "64 word \<Rightarrow> http_server \<Rightarrow> inbox_Event option \<times> http_server" where
  "stream_next sid s =
     (case sv_Inbox s of
        None \<Rightarrow> (None, s)
      | Some ib \<Rightarrow> (case inbox_recv sid ib of (ev, ib') \<Rightarrow> (ev, s\<lparr>sv_Inbox := Some ib'\<rparr>)))"

definition stream_close :: "64 word \<Rightarrow> http_server \<Rightarrow> http_server" where
  "stream_close sid s = s\<lparr>sv_Inbox := map_option (Unsubscribe sid) (sv_Inbox s)\<rparr>"

subsection \<open>Peers and configuration\<close>

definition handle_register_peer :: "peer_body option \<Rightarrow> http_server \<Rightarrow> http_response \<times> http_server" where
  "handle_register_peer body s =
     (case body of
        None \<Rightarrow> (writeJSONError ''invalid request body'' 400, s)
      | Some b \<Rightarrow>
          if pb_Addr b = '''' then (writeJSONError ''addr is required'' 400, s)
          else ((200, PeerAdded (pb_Addr b)),
                s\<lparr>sv_RuntimePeers :=
                    map_option (rpeers_Add \<lparr>pc_Region = pb_Region b, pc_Addr = pb_Addr b,
                                            pc_NodeScope = pb_NodeScope b, pc_Regions = []\<rparr>)
                      (sv_RuntimePeers s)\<rparr>))"

definition peer_dto :: "string \<Rightarrow> string \<Rightarrow> PeerConfig \<Rightarrow> peerDTO" where
  "peer_dto source nodeID p =
     \<lparr>pd_NodeID = nodeID, pd_Addr = pc_Addr p, pd_NodeScope = pc_NodeScope p, pd_Region = pc_Region p,
      pd_Source = source\<rparr>"

definition handle_peers :: "'w http_env \<Rightarrow> http_server \<Rightarrow> http_response" where
  "handle_peers E s =
     (let peers = nw_Peers (cfg_Network (sv_cfg s)) in
      (200, PeerList
        (List.map_filter (\<lambda>k. map_option (peer_dto ''config'' k) (peers k)) (he_order E (dom peers)) @
         (case sv_RuntimePeers s of None \<Rightarrow> [] | Some rp \<Rightarrow> map (peer_dto ''runtime'' '''') (rpeers_All rp)))))"

definition handle_config_reload :: "'w http_env \<Rightarrow> http_server \<Rightarrow> http_response \<times> http_server" where
  "handle_config_reload E s =
     (if \<not> sv_OnConfigReload s then (writeJSONError ''config reload not available'' 503, s)
      else case onReload (he_order E) (he_load E) (sv_gw s) of
        (Some err, g) \<Rightarrow> ((500, JsonErrorOf ''reload failed'' err), s\<lparr>sv_gw := g\<rparr>)
      | (None, g) \<Rightarrow> ((200, Reloaded), s\<lparr>sv_gw := g\<rparr>))"

definition handle_put_config ::
  "'w http_env \<Rightarrow> string + Config \<Rightarrow> http_server \<Rightarrow> http_response \<times> http_server" where
  "handle_put_config E body s =
     (if \<not> sv_OnConfigSave s then (writeJSONError ''config save not available'' 503, s)
      else case body of
        Inl err \<Rightarrow> ((400, JsonErrorOf ''invalid config JSON'' (DecodeFailed err)), s)
      | Inr incoming \<Rightarrow>
          (case onConfigSave (he_order E) incoming (sv_gw s) of
             (Some err, g) \<Rightarrow> ((400, JsonErrorOf ''config save failed'' err), s\<lparr>sv_gw := g\<rparr>)
           | (None, g) \<Rightarrow> ((204, NoBody), s\<lparr>sv_gw := g\<rparr>)))"

subsection \<open>User discovery\<close>

definition handle_discover :: "'w http_env \<Rightarrow> http_request \<Rightarrow> http_server \<Rightarrow> http_response \<times> http_server" where
  "handle_discover E r s =
     (case sv_Registry s of
        None \<Rightarrow> ((200, Found []), s)
      | Some reg \<Rightarrow>
          (case Discover (he_uuid E) (he_order E (dom (cfg_Apps (rg_cfg reg)))) (he_users E) (he_clk E 0)
                  (rq_Query r ''q'') (rq_Query r ''type'') reg of
             (results, reg') \<Rightarrow> ((200, Found results), s\<lparr>sv_Registry := Some reg'\<rparr>)))"

definition handle_connect :: "'w http_env \<Rightarrow> connect_body option \<Rightarrow> http_server \<Rightarrow> http_response \<times> http_server" where
  "handle_connect E body s =
     (case sv_Registry s of
        None \<Rightarrow> (writeJSONError ''registry not available'' 503, s)
      | Some reg \<Rightarrow>
          (case body of
             None \<Rightarrow> (writeJSONError ''opaque_token required'' 400, s)
           | Some b \<Rightarrow>
               if nb_OpaqueToken b = '''' then (writeJSONError ''opaque_token required'' 400, s)
               else (case registry_Connect (he_uuid E 0) (he_clk E 0) (he_clk E 1) (nb_OpaqueToken b)
                            (nb_RequesterID b) (nb_RequesterRegion b) reg of
                       (result, reg') \<Rightarrow> ((200, Connected result), s\<lparr>sv_Registry := Some reg'\<rparr>))))"

subsection \<open>Apps\<close>

definition handle_apps :: "'w http_env \<Rightarrow> http_server \<Rightarrow> http_response" where
  "handle_apps E s =
     (let apps = cfg_Apps (sv_cfg s) in
      (200, AppList
        (List.map_filter
           (\<lambda>i. map_option (\<lambda>a. \<lparr>ai_AppID = i, ai_WebhookURL = app_WebhookURL a, ai_LastSeen = 0\<rparr>) (apps i))
           (he_order E (dom apps)) @
         (case sv_RuntimeApps s of
            None \<Rightarrow> []
          | Some ra \<Rightarrow>
              map (\<lambda>a. \<lparr>ai_AppID = rap_AppID a, ai_WebhookURL = rap_WebhookURL a, ai_LastSeen = rap_LastSeen a\<rparr>)
                (rapps_All (he_order E (dom ra)) ra)))))"

definition handle_register_app :: "'w http_env \<Rightarrow> app_body option \<Rightarrow> http_server \<Rightarrow> http_response \<times> http_server" where
  "handle_register_app E body s =
     (case sv_RuntimeApps s of
        None \<Rightarrow> (writeJSONError ''app registry not available'' 503, s)
      | Some ra \<Rightarrow>
          (case body of
             None \<Rightarrow> (writeJSONError ''app_id required'' 400, s)
           | Some b \<Rightarrow>
               if ab_AppID b = '''' then (writeJSONError ''app_id required'' 400, s)
               else ((201, AppKey (ab_AppID b) (he_uuid E 0)),
                     s\<lparr>sv_RuntimeApps := Some (rapps_Register
                         \<lparr>rap_AppID = ab_AppID b, rap_WebhookURL = ab_WebhookURL b, rap_APIKey = he_uuid E 0,
                          rap_LastSeen = unix_sec (he_clk E 0)\<rparr> ra)\<rparr>)))"

definition handle_delete_app :: "string \<Rightarrow> http_server \<Rightarrow> http_response \<times> http_server" where
  "handle_delete_app appID s =
     (case sv_RuntimeApps s of
        None \<Rightarrow> (writeJSONError ''app registry not available'' 503, s)
      | Some ra \<Rightarrow>
          (case rapps_Delete appID ra of
             (found, ra') \<Rightarrow>
               (if \<not> found then writeJSONError ''app not found'' 404 else (204, NoBody),
                s\<lparr>sv_RuntimeApps := Some ra'\<rparr>)))"

subsection \<open>Schema adapters\<close>

fun tomlRule :: "JurisdictionIsolationRule list \<Rightarrow> string \<Rightarrow> JurisdictionIsolationRule option" where
  "tomlRule [] schemaType = None"
| "tomlRule (r # rs) schemaType = (if ji_SchemaType r = schemaType then Some r else tomlRule rs schemaType)"

definition rule_tiers :: "JurisdictionIsolationRule option \<Rightarrow> string list" where
  "rule_tiers r = (case r of Some x \<Rightarrow> if length (ji_AllowTiers x) > 0 then ji_AllowTiers x else [] | None \<Rightarrow> [])"

definition rule_jurisdictions :: "JurisdictionIsolationRule option \<Rightarrow> string list" where
  "rule_jurisdictions r =
     (case r of Some x \<Rightarrow> if length (ji_AllowJurisdictions x) > 0 then ji_AllowJurisdictions x else [] | None \<Rightarrow> [])"

definition rule_profile :: "JurisdictionIsolationRule option \<Rightarrow> string" where
  "rule_profile r = (case r of Some x \<Rightarrow> ji_RequireProfile x | None \<Rightarrow> '''')"

definition quoted :: "string \<Rightarrow> string" where "quoted x = CHR 0x27 # x @ [CHR 0x27]"

definition em_dash :: string where "em_dash = [CHR 0x20, CHR 0xE2, CHR 0x80, CHR 0x94, CHR 0x20]"

definition builtin_adapter ::
  "string \<Rightarrow> string \<Rightarrow> string list \<Rightarrow> string list \<Rightarrow> string \<Rightarrow> bool \<Rightarrow> adapterDTO" where
  "builtin_adapter schemaType description tiers jurisdictions profile hard =
     \<lparr>ad_SchemaType = schemaType, ad_SchemaVersion = ''1.0.0'', ad_Builtin = True, ad_Status = ''enabled'',
      ad_Text = description, ad_Tiers = tiers, ad_AllowJurisdictions = jurisdictions,
      ad_RequireProfile = profile, ad_HardcodedConstraints = hard, ad_ContactInfo = ''''\<rparr>"

definition custom_adapter :: "CustomAdapterEntry \<Rightarrow> adapterDTO" where
  "custom_adapter a =
     \<lparr>ad_SchemaType = cae_SchemaType a, ad_SchemaVersion = cae_SchemaVersion a, ad_Builtin = False,
      ad_Status = ''enabled'', ad_Text = cae_Description a, ad_Tiers = cae_AllowTiers a,
      ad_AllowJurisdictions = [], ad_RequireProfile = cae_RequireProfile a, ad_HardcodedConstraints = False,
      ad_ContactInfo = cae_Contact a\<rparr>"

definition builtin_adapters :: "JurisdictionIsolationRule list \<Rightarrow> adapterDTO list" where
  "builtin_adapters rules =
     (let ruMessaging = tomlRule rules ''messaging''; ruIso20022 = tomlRule rules ''iso20022'';
          ruEdifact = tomlRule rules ''edifact''
      in [builtin_adapter ''messaging''
            (''Default cross-border messaging'' @ em_dash @ ''backward-compatible with v0.8 envelopes.'')
            (rule_tiers ruMessaging) (rule_jurisdictions ruMessaging) (rule_profile ruMessaging) False,
          builtin_adapter ''iso20022''
            ''ISO 20022 financial messages (ADR-016): 72h dedup, retain_long, settlement finality.''
            (rule_tiers ruIso20022) (rule_jurisdictions ruIso20022) (rule_profile ruIso20022) False,
          builtin_adapter ''hl7fhir''
            (''HL7 FHIR R4 health data'' @ em_dash @ ''hardcoded regional+strict constraints (ADR-015).'')
            [''regional''] (rule_jurisdictions (tomlRule rules ''hl7fhir'')) ''strict'' True,
          builtin_adapter ''edifact''
            (''UN/EDIFACT logistics and supply-chain'' @ em_dash @ ''regional+alliance by default (ADR-015).'')
            (case ruEdifact of
               Some r \<Rightarrow> if length (ji_AllowTiers r) > 0 then ji_AllowTiers r else [''regional'', ''alliance'']
             | None \<Rightarrow> [''regional'', ''alliance''])
            (rule_jurisdictions ruEdifact)
            (case ruEdifact of
               Some r \<Rightarrow> if ji_RequireProfile r \<noteq> '''' then ji_RequireProfile r else ''balanced''
             | None \<Rightarrow> ''balanced'') False])"

definition handle_adapters :: "'w http_env \<Rightarrow> http_server \<Rightarrow> http_response" where
  "handle_adapters E s =
     (200, AdapterList
        (builtin_adapters (pol_Rules (cfg_Policy (sv_cfg s))) @
         (case sv_RuntimeAdapters s of
            None \<Rightarrow> []
          | Some ra \<Rightarrow> map custom_adapter (radapters_All (he_order E (dom ra)) ra))))"

definition handle_register_adapter ::
  "'w http_env \<Rightarrow> CustomAdapterEntry option \<Rightarrow> http_server \<Rightarrow> http_response \<times> http_server" where
  "handle_register_adapter E body s =
     (case sv_RuntimeAdapters s of
        None \<Rightarrow> (writeJSONError ''schema adapter registry not available'' 503, s)
      | Some ra \<Rightarrow>
          (case body of
             None \<Rightarrow> (writeJSONError ''invalid request body'' 400, s)
           | Some req \<Rightarrow>
               if \<not> starts_with ''custom:'' (cae_SchemaType req)
               then (writeJSONError (''schema_type must start with '' @ quoted ''custom:'') 400, s)
               else
                 let req1 = (if cae_SchemaVersion req = '''' then req\<lparr>cae_SchemaVersion := ''1.0.0''\<rparr> else req);
                     req2 = req1\<lparr>cae_RegisteredAt := unix_sec (he_clk E 0)\<rparr>
                 in ((201, AdapterEntry req2), s\<lparr>sv_RuntimeAdapters := Some (radapters_Register req2 ra)\<rparr>)))"

definition handle_delete_adapter :: "string \<Rightarrow> http_server \<Rightarrow> http_response \<times> http_server" where
  "handle_delete_adapter schemaType s =
     (case sv_RuntimeAdapters s of
        None \<Rightarrow> (writeJSONError ''schema adapter registry not available'' 503, s)
      | Some ra \<Rightarrow>
          if \<not> starts_with ''custom:'' schemaType
          then (writeJSONError ''built-in adapters cannot be removed'' 403, s)
          else (case radapters_Delete schemaType ra of
                  (found, ra') \<Rightarrow>
                    (if \<not> found then writeJSONError ''adapter not found'' 404 else (204, NoBody),
                     s\<lparr>sv_RuntimeAdapters := Some ra'\<rparr>)))"

subsection \<open>Tokens of the management API\<close>

definition token_scope :: "token_body \<Rightarrow> string" where
  "token_scope b = (if tb_Scope b \<noteq> ''read'' \<and> tb_Scope b \<noteq> ''operator'' then ''read'' else tb_Scope b)"

definition token_minutes :: "token_body \<Rightarrow> int" where
  "token_minutes b = (if tb_TTLMinutes b \<le> 0 \<or> tb_TTLMinutes b > 1440 then 60 else tb_TTLMinutes b)"

definition handle_token ::
  "'w http_env \<Rightarrow> http_request \<Rightarrow> token_body option \<Rightarrow> http_server \<Rightarrow> http_response" where
  "handle_token E r body s =
     (let api = cfg_API (sv_cfg s) in
      if \<not> checkAuth (he_jwt E) (he_clk E 0) (api_APIKey api) '''' ''read'' r
      then writeJSONError ''unauthorized'' 401
      else if api_JWTSecret api = '''' then writeJSONError ''JWT not configured on this node'' 503
      else case body of
        None \<Rightarrow> writeJSONError ''invalid request body'' 400
      | Some b \<Rightarrow>
          let expiresAt = he_clk E 1 + token_minutes b * minute;
              claims = [''scope'' \<mapsto> JStr (token_scope b), ''exp'' \<mapsto> JNum (unix_sec expiresAt),
                        ''iat'' \<mapsto> JNum (unix_sec (he_clk E 2)), ''jti'' \<mapsto> JStr (he_uuid E 0)]
          in (case jl_sign (he_jwt E) (api_JWTSecret api) claims of
                None \<Rightarrow> writeJSONError ''token signing failed'' 500
              | Some tok \<Rightarrow> (200, JwtIssued tok (token_scope b) (unix_sec expiresAt))))"

subsection \<open>The server\<close>

datatype http_call =
    Healthz | Readyz | WellKnownAudit | PeersAudit | GetStatus | AuditLatest
  | PostEnvelopes "send_body option"
  | GetDLQ | DeleteDLQ string | ReplayDLQ string
  | GetCRL | PostCRL "crl_body option" | GetStream
  | RegisterPeer "peer_body option" | GetPeers | DiscardDLQ string | ConfigReload
  | RevokeNode string "revoke_body option"
  | DiscoverUsers | ConnectUser "connect_body option"
  | PutConfig "string + Config"
  | GetApps | RegisterApp "app_body option" | DeleteApp string
  | GetAdapters | PostAdapter "CustomAdapterEntry option" | DeleteAdapter string
  | PostToken "token_body option"

type_synonym 'w http_result = "http_response \<times> http_server \<times> 'w \<times> gw_event list"

definition reading :: "http_response \<Rightarrow> http_server \<Rightarrow> 'w \<Rightarrow> 'w http_result" where
  "reading resp s w = (resp, s, w, [])"

definition writing :: "http_response \<times> http_server \<Rightarrow> 'w \<Rightarrow> 'w http_result" where
  "writing rs w = (fst rs, snd rs, w, [])"

text \<open>The wrappers \<open>auth\<close> and \<open>authOp\<close>.\<close>

definition with_scope ::
  "string \<Rightarrow> 'w http_env \<Rightarrow> http_request \<Rightarrow> 'w http_result \<Rightarrow> http_server \<Rightarrow> 'w \<Rightarrow> 'w http_result" where
  "with_scope scope E r h s w =
     (let api = cfg_API (sv_cfg s) in
      if rq_Method r = ''OPTIONS'' then ((204, NoBody), s, w, [])
      else if \<not> checkAuth (he_jwt E) (he_clk E 0) (api_APIKey api) (api_JWTSecret api) scope r
      then (writeJSONError ''unauthorized'' 401, s, w, [])
      else h)"

abbreviation "auth \<equiv> with_scope ''read''"
abbreviation "authOp \<equiv> with_scope ''operator''"

definition mux :: "'w http_env \<Rightarrow> http_request \<Rightarrow> http_call \<Rightarrow> http_server \<Rightarrow> 'w \<Rightarrow> 'w http_result" where
  "mux E r call s w =
     (case call of
        Healthz \<Rightarrow> reading handle_healthz s w
      | Readyz \<Rightarrow> reading (handle_readyz s) s w
      | WellKnownAudit \<Rightarrow> reading (handle_wellknown E s) s w
      | PeersAudit \<Rightarrow> reading (handle_peers_audit E s) s w
      | GetStatus \<Rightarrow> reading (handle_status E s) s w
      | AuditLatest \<Rightarrow> reading (handle_audit_latest E r s) s w
      | PostEnvelopes b \<Rightarrow> handle_envelopes E b s w
      | GetDLQ \<Rightarrow> reading (handle_dlq_list s) s w
      | DeleteDLQ i \<Rightarrow> writing (handle_dlq_delete i s) w
      | ReplayDLQ i \<Rightarrow> handle_dlq_replay E i s w
      | GetCRL \<Rightarrow> reading (handle_crl_list E s) s w
      | PostCRL b \<Rightarrow> writing (handle_crl_post E b s) w
      | GetStream \<Rightarrow> writing (stream_open s) w
      | RegisterPeer b \<Rightarrow> auth E r (writing (handle_register_peer b s) w) s w
      | GetPeers \<Rightarrow> auth E r (reading (handle_peers E s) s w) s w
      | DiscardDLQ i \<Rightarrow> auth E r (writing (handle_dlq_delete i s) w) s w
      | ConfigReload \<Rightarrow> auth E r (writing (handle_config_reload E s) w) s w
      | RevokeNode n b \<Rightarrow> auth E r (writing (handle_revoke E n b s) w) s w
      | DiscoverUsers \<Rightarrow> writing (handle_discover E r s) w
      | ConnectUser b \<Rightarrow> writing (handle_connect E b s) w
      | PutConfig b \<Rightarrow> authOp E r (writing (handle_put_config E b s) w) s w
      | GetApps \<Rightarrow> auth E r (reading (handle_apps E s) s w) s w
      | RegisterApp b \<Rightarrow> authOp E r (writing (handle_register_app E b s) w) s w
      | DeleteApp a \<Rightarrow> authOp E r (writing (handle_delete_app a s) w) s w
      | GetAdapters \<Rightarrow> auth E r (reading (handle_adapters E s) s w) s w
      | PostAdapter b \<Rightarrow> authOp E r (writing (handle_register_adapter E b s) w) s w
      | DeleteAdapter t \<Rightarrow> authOp E r (writing (handle_delete_adapter t s) w) s w
      | PostToken b \<Rightarrow> reading (handle_token E r b s) s w)"

text \<open>The outer handler answers every preflight request itself.\<close>

definition ServeHTTP :: "'w http_env \<Rightarrow> http_request \<Rightarrow> http_call \<Rightarrow> http_server \<Rightarrow> 'w \<Rightarrow> 'w http_result" where
  "ServeHTTP E r call s w =
     (if rq_Method r = ''OPTIONS'' then ((204, NoBody), s, w, []) else mux E r call s w)"

end
