(* ===== verification/Http_Props.thy ===== *)
theory Http_Props
  imports Http
begin

text \<open>
  What the management server guarantees. Every request is a run of the gateway of
  \<open>Gateway_Runs\<close> (\<open>ServeHTTP_run\<close>), so the invariants and the properties of such runs hold for
  a node driven over HTTP; the runtime tables keep their own invariants; guarded requests
  without authority change nothing; and the tokens the server signs open it.
\<close>

subsection \<open>Requests are runs of the gateway\<close>

definition gw_fwd :: "'w http_env \<Rightarrow> http_server \<Rightarrow> (fwd_error, forwarder \<times> 'w) forward_fun option" where
  "gw_fwd E s = (if sv_forwarding s then Some (he_fwd E) else None)"

text \<open>The order of a range loop is a permutation of the keys; decoded maps are finite.\<close>

definition config_finite :: "Config \<Rightarrow> bool" where
  "config_finite cfg \<longleftrightarrow> finite (dom (nw_Peers (cfg_Network cfg)))"

definition env_ok :: "'w http_env \<Rightarrow> http_call \<Rightarrow> bool" where
  "env_ok E call \<longleftrightarrow>
     (\<forall>A. finite A \<longrightarrow> distinct (he_order E A) \<and> set (he_order E A) = A) \<and>
     (\<forall>cfg. he_load E = Inr cfg \<or> call = PutConfig (Inr cfg) \<longrightarrow> config_finite cfg)"

lemma env_ok_enumerates:
  assumes "env_ok E call" "he_load E = Inr cfg \<or> call = PutConfig (Inr cfg)"
  shows "enumerates (he_order E (dom (nw_Peers (cfg_Network cfg)))) (nw_Peers (cfg_Network cfg))"
  using assms by (auto simp: env_ok_def config_finite_def enumerates_def)

definition http_run :: "'w http_env \<Rightarrow> http_server \<Rightarrow> 'w \<Rightarrow> gw_label list \<Rightarrow> http_server \<Rightarrow> 'w \<Rightarrow> bool" where
  "http_run E s w ls s' w' \<longleftrightarrow>
     gw_run (he_digest E) (gw_fwd E s) (sv_gw s, sv_fwd s, w) ls (sv_gw s', sv_fwd s', w') \<and>
     (\<forall>l \<in> set ls. \<forall>t. label_time l = Some t \<longrightarrow> (\<exists>i. t = he_clk E i))"

lemma gw_run_one: "gw_step digest fwd st l st' \<Longrightarrow> gw_run digest fwd st [l] st'"
  using run_snoc [OF run_nil] by fastforce

lemma http_run_same:
  "sv_gw s' = sv_gw s \<Longrightarrow> sv_fwd s' = sv_fwd s \<Longrightarrow> http_run E s w [] s' w"
  by (simp add: http_run_def run_nil)

lemma http_run_world: "sv_gw s' = sv_gw s \<Longrightarrow> http_run E s w [LWorld] s' w'"
  by (simp add: http_run_def gw_run_one step_world)

lemma http_run_revoke:
  "gw_crl (sv_gw s) = Some cs \<Longrightarrow> http_run E s w [LRevoke n] (crl_set (Revoke now n reason sg cs) s) w"
  by (auto simp: http_run_def crl_set_def intro!: gw_run_one step_revoke)

lemma http_run_reload:
  assumes "enumerates ks (nw_Peers (cfg_Network cfg))" "Reload ks cfg (engine_of (sv_gw s)) = (err, e)"
  shows "http_run E s w [LReload cfg] (s\<lparr>sv_gw := put_engine e (sv_gw s)\<rparr>) w"
  using assms by (auto simp: http_run_def intro!: gw_run_one step_reload)

lemma http_run_send:
  assumes "gateway_send E n env s w = (res, s', w', evs)"
  shows "http_run E s w [LSend (\<lambda>i. he_clk E (n + i)) env res evs] s' w'"
  using assms
  by (auto simp: http_run_def gateway_send_def gw_fwd_def intro!: gw_run_one step_send split: prod.splits)

lemma gateway_send_forwarding: "gateway_send E n env s w = (res, s', w', evs) \<Longrightarrow> sv_forwarding s' = sv_forwarding s"
  by (auto simp: gateway_send_def split: prod.splits)

lemma http_run_send_world:
  assumes "gateway_send E n env s w = (res, s1, w', evs)" "sv_gw s' = sv_gw s1"
  shows "http_run E s w [LSend (\<lambda>i. he_clk E (n + i)) env res evs, LWorld] s' w''"
proof -
  have "gw_run (he_digest E) (gw_fwd E s) (sv_gw s, sv_fwd s, w) [LSend (\<lambda>i. he_clk E (n + i)) env res evs]
      (sv_gw s1, sv_fwd s1, w')"
    using http_run_send [OF assms(1)] by (simp add: http_run_def)
  from run_snoc [OF this step_world, of "(sv_fwd s', w'')"] show ?thesis
    using assms(2) by (auto simp: http_run_def)
qed

lemma onReload_run:
  assumes "env_ok E call" "onReload (he_order E) (he_load E) (sv_gw s) = (err, g)"
  shows "\<exists>ls. http_run E s w ls (s\<lparr>sv_gw := g\<rparr>) w"
proof (cases "he_load E")
  case (Inl e)
  then have "g = sv_gw s" using assms(2) by (simp add: onReload_def)
  then show ?thesis using http_run_same [of "s\<lparr>sv_gw := g\<rparr>" s E w] by auto
next
  case (Inr cfg)
  then show ?thesis
    using assms(2) http_run_reload [OF env_ok_enumerates [OF assms(1)], of cfg s]
    by (fastforce simp: onReload_def split: prod.splits)
qed

lemma onConfigSave_run:
  assumes "env_ok E (PutConfig (Inr cfg))" "onConfigSave (he_order E) cfg (sv_gw s) = (err, g)"
  shows "\<exists>ls. http_run E s w ls (s\<lparr>sv_gw := g\<rparr>) w"
proof (cases "Validate (he_order E (dom (nw_Peers (cfg_Network cfg)))) cfg")
  case None
  then show ?thesis
    using assms(2) http_run_reload [OF env_ok_enumerates [OF assms(1)], of cfg s]
    by (fastforce simp: onConfigSave_def split: prod.splits)
next
  case (Some e)
  then have "g = sv_gw s" using assms(2) by (simp add: onConfigSave_def Let_def)
  then show ?thesis using http_run_same [of "s\<lparr>sv_gw := g\<rparr>" s E w] by auto
qed

text \<open>What the handlers that neither send nor configure leave alone.\<close>

lemma local_handlers_frame:
  "sv_gw (snd (handle_register_peer pb s)) = sv_gw s" "sv_fwd (snd (handle_register_peer pb s)) = sv_fwd s"
  "sv_gw (snd (handle_discover E r s)) = sv_gw s" "sv_fwd (snd (handle_discover E r s)) = sv_fwd s"
  "sv_gw (snd (handle_connect E nb s)) = sv_gw s" "sv_fwd (snd (handle_connect E nb s)) = sv_fwd s"
  "sv_gw (snd (handle_register_app E ab s)) = sv_gw s" "sv_fwd (snd (handle_register_app E ab s)) = sv_fwd s"
  "sv_gw (snd (handle_delete_app n s)) = sv_gw s" "sv_fwd (snd (handle_delete_app n s)) = sv_fwd s"
  "sv_gw (snd (handle_register_adapter E cb s)) = sv_gw s" "sv_fwd (snd (handle_register_adapter E cb s)) = sv_fwd s"
  "sv_gw (snd (handle_delete_adapter n s)) = sv_gw s" "sv_fwd (snd (handle_delete_adapter n s)) = sv_fwd s"
  "sv_gw (snd (stream_open s)) = sv_gw s" "sv_fwd (snd (stream_open s)) = sv_fwd s"
  "sv_gw (snd (handle_dlq_delete i s)) = sv_gw s"
  by (auto simp: handle_register_peer_def handle_discover_def handle_connect_def handle_register_app_def
      handle_delete_app_def handle_register_adapter_def handle_delete_adapter_def stream_open_def
      handle_dlq_delete_def dlq_set_def Let_def split: option.splits prod.splits)

lemma handle_crl_post_run: "\<exists>ls. http_run E s w ls (snd (handle_crl_post E b s)) w"
  by (auto simp: handle_crl_post_def Let_def split: option.splits intro: http_run_same http_run_revoke)

lemma handle_revoke_run: "\<exists>ls. http_run E s w ls (snd (handle_revoke E n b s)) w"
  by (auto simp: handle_revoke_def Let_def split: option.splits intro: http_run_same http_run_revoke)

lemma handle_envelopes_run:
  "handle_envelopes E b s w = (resp, s', w', evs) \<Longrightarrow> \<exists>ls. http_run E s w ls s' w'"
  by (auto simp: handle_envelopes_def split: if_splits option.splits prod.splits sum.splits
      intro: http_run_same http_run_send)

lemma dlq_remove_now_gw [simp]: "sv_gw (dlq_remove_now i s) = sv_gw s"
  by (simp add: dlq_remove_now_def dlq_set_def split: option.splits)

lemma handle_dlq_replay_run:
  assumes "handle_dlq_replay E i s w = (resp, s', w', evs)"
  shows "\<exists>ls. http_run E s w ls s' w'"
proof -
  have "\<exists>ls. http_run E s w ls (dlq_remove_now j s1) w1" if "gateway_send E n env s w = (res, s1, w1, evs)"
    for n env res s1 w1 j
    using http_run_send_world [OF that dlq_remove_now_gw] by blast
  then show ?thesis using assms
    by (auto simp: handle_dlq_replay_def Let_def split: if_splits option.splits prod.splits sum.splits
        intro: http_run_same http_run_send)
qed

lemma handle_config_reload_run:
  assumes "env_ok E call"
  shows "\<exists>ls. http_run E s w ls (snd (handle_config_reload E s)) w"
  using onReload_run [OF assms]
  by (auto simp: handle_config_reload_def split: option.splits prod.splits intro: http_run_same)

lemma handle_put_config_run:
  assumes "env_ok E (PutConfig b)"
  shows "\<exists>ls. http_run E s w ls (snd (handle_put_config E b s)) w"
proof (cases b)
  case (Inr cfg)
  then show ?thesis using onConfigSave_run [of E cfg s] assms
    by (auto simp: handle_put_config_def split: option.splits prod.splits intro: http_run_same)
qed (auto simp: handle_put_config_def intro: http_run_same)

lemma with_scope_cases:
  "with_scope scope E r h s w = h \<or>
   with_scope scope E r h s w \<in> {((204, NoBody), s, w, []), (writeJSONError ''unauthorized'' 401, s, w, [])}"
  by (simp add: with_scope_def Let_def)

lemma writing_run:
  assumes "\<exists>ls. http_run E s w ls (snd h) w" "with_scope scope E r (writing h w) s w = (resp, s', w', evs)"
  shows "\<exists>ls. http_run E s w ls s' w'"
  using with_scope_cases [of scope E r "writing h w" s w] assms http_run_same [of s s E w]
  by (auto simp: writing_def)

lemma mux_run:
  assumes "env_ok E call" "mux E r call s w = (resp, s', w', evs)"
  shows "\<exists>ls. http_run E s w ls s' w'"
proof (cases call)
  case (PostEnvelopes b)
  then show ?thesis using assms(2) by (intro handle_envelopes_run) (simp add: mux_def)
next
  case (ReplayDLQ i)
  then show ?thesis using assms(2) by (intro handle_dlq_replay_run) (simp add: mux_def)
next
  case (PostCRL b)
  then show ?thesis using assms(2) handle_crl_post_run [of E s w b] by (auto simp: mux_def writing_def)
next
  case (RevokeNode n b)
  then show ?thesis using assms(2) by (simp add: mux_def) (erule writing_run [OF handle_revoke_run])
next
  case ConfigReload
  then show ?thesis using assms(2) by (simp add: mux_def) (erule writing_run [OF handle_config_reload_run [OF assms(1)]])
next
  case (PutConfig b)
  then show ?thesis using assms by (simp add: mux_def) (erule writing_run [OF handle_put_config_run])
next
  case (DiscardDLQ i)
  have "\<exists>ls. http_run E s w ls (snd (handle_dlq_delete i s)) w" by (auto intro: http_run_world local_handlers_frame)
  then show ?thesis using assms(2) DiscardDLQ by (simp add: mux_def) (erule (1) writing_run)
next
  case (DeleteDLQ i)
  have "\<exists>ls. http_run E s w ls (snd (handle_dlq_delete i s)) w" by (auto intro: http_run_world local_handlers_frame)
  then show ?thesis using assms(2) DeleteDLQ by (auto simp: mux_def writing_def)
qed (use assms(2) local_handlers_frame in
  \<open>auto simp: mux_def with_scope_def reading_def writing_def Let_def split: if_splits intro!: exI [of _ "[]"] http_run_same\<close>)

lemma ServeHTTP_run:
  assumes "env_ok E call" "ServeHTTP E r call s w = (resp, s', w', evs)"
  shows "\<exists>ls. http_run E s w ls s' w'"
  using assms http_run_same [of s s E w]
  by (auto dest: mux_run simp: ServeHTTP_def split: if_splits)

subsection \<open>The invariant of the server\<close>

definition tables_inv :: "http_server \<Rightarrow> bool" where
  "tables_inv s \<longleftrightarrow>
     (\<forall>ra. sv_RuntimeAdapters s = Some ra \<longrightarrow> adapters_inv ra) \<and>
     (\<forall>ra. sv_RuntimeApps s = Some ra \<longrightarrow> apps_inv ra) \<and>
     (\<forall>ib. sv_Inbox s = Some ib \<longrightarrow> inbox_inv ib)"

definition http_inv :: "(string \<Rightarrow> string) \<Rightarrow> http_server \<Rightarrow> bool" where
  "http_inv digest s \<longleftrightarrow> gw_inv digest (sv_gw s) \<and> tables_inv s"

lemma tables_inv_updates [simp]:
  "tables_inv (s\<lparr>sv_gw := g\<rparr>) = tables_inv s" "tables_inv (s\<lparr>sv_fwd := f\<rparr>) = tables_inv s"
  "tables_inv (s\<lparr>sv_Registry := reg\<rparr>) = tables_inv s" "tables_inv (s\<lparr>sv_RuntimePeers := rp\<rparr>) = tables_inv s"
  by (simp_all add: tables_inv_def)

lemma handle_register_adapter_inv:
  "tables_inv s \<Longrightarrow> tables_inv (snd (handle_register_adapter E b s))"
  by (auto simp: handle_register_adapter_def tables_inv_def Let_def intro: adapters_inv_ops split: option.splits)

lemma handle_delete_adapter_inv: "tables_inv s \<Longrightarrow> tables_inv (snd (handle_delete_adapter t s))"
  using adapters_inv_ops(3)
  by (auto simp: handle_delete_adapter_def tables_inv_def split: option.splits prod.splits) (metis snd_conv)+

lemma handle_register_app_inv: "tables_inv s \<Longrightarrow> tables_inv (snd (handle_register_app E b s))"
  by (auto simp: handle_register_app_def tables_inv_def intro: apps_inv_ops split: option.splits)

lemma handle_delete_app_inv: "tables_inv s \<Longrightarrow> tables_inv (snd (handle_delete_app a s))"
  using apps_inv_ops(3)
  by (auto simp: handle_delete_app_def tables_inv_def split: option.splits prod.splits) (metis snd_conv)+

lemma stream_inv:
  "tables_inv s \<Longrightarrow> tables_inv (snd (stream_open s))"
  "tables_inv s \<Longrightarrow> tables_inv (snd (stream_next i s))"
  "tables_inv s \<Longrightarrow> tables_inv (stream_close i s)"
  using inbox_inv_ops
  by (auto simp: stream_open_def stream_next_def stream_close_def tables_inv_def split: option.splits prod.splits)
     (metis snd_conv)+

lemma other_handlers_tables:
  "tables_inv (snd (handle_register_peer pb s)) = tables_inv s"
  "tables_inv (snd (handle_discover E r s)) = tables_inv s"
  "tables_inv (snd (handle_connect E nb s)) = tables_inv s"
  "tables_inv (snd (handle_dlq_delete i s)) = tables_inv s"
  "tables_inv (snd (handle_crl_post E cb s)) = tables_inv s"
  "tables_inv (snd (handle_revoke E n vb s)) = tables_inv s"
  "tables_inv (snd (handle_config_reload E s)) = tables_inv s"
  "tables_inv (snd (handle_put_config E fb s)) = tables_inv s"
  by (auto simp: handle_register_peer_def handle_discover_def handle_connect_def handle_dlq_delete_def
      handle_crl_post_def handle_revoke_def handle_config_reload_def handle_put_config_def dlq_set_def crl_set_def
      Let_def split: option.splits prod.splits sum.splits)

lemma gateway_send_tables: "gateway_send E n env s w = (res, s', w', evs) \<Longrightarrow> tables_inv s' = tables_inv s"
  by (auto simp: gateway_send_def split: prod.splits)

lemma dlq_remove_now_tables: "tables_inv (dlq_remove_now i s) = tables_inv s"
  by (auto simp: dlq_remove_now_def dlq_set_def split: option.splits)

lemma sending_handlers_tables:
  "handle_envelopes E b s w = (resp, s', w', evs) \<Longrightarrow> tables_inv s' = tables_inv s"
  "handle_dlq_replay E i s w = (resp, s', w', evs) \<Longrightarrow> tables_inv s' = tables_inv s"
  by (auto simp: handle_envelopes_def handle_dlq_replay_def Let_def dlq_remove_now_tables
      dest!: gateway_send_tables split: if_splits option.splits prod.splits sum.splits)

lemma mux_tables:
  assumes "tables_inv s" "mux E r call s w = (resp, s', w', evs)"
  shows "tables_inv s'"
  using assms
  by (cases call)
     (auto dest!: sending_handlers_tables simp: mux_def with_scope_def reading_def writing_def Let_def other_handlers_tables stream_inv
        handle_register_adapter_inv handle_delete_adapter_inv handle_register_app_inv handle_delete_app_inv
        split: if_splits)

lemma ServeHTTP_inv:
  assumes "env_ok E call" "ServeHTTP E r call s w = (resp, s', w', evs)" "http_inv (he_digest E) s"
  shows "http_inv (he_digest E) s'"
proof -
  obtain ls where "http_run E s w ls s' w'" using ServeHTTP_run [OF assms(1,2)] by blast
  then have "gw_inv (he_digest E) (sv_gw s')"
    using gw_run_inv assms(3) by (fastforce simp: http_run_def http_inv_def)
  moreover have "tables_inv s'"
    using assms(2,3) by (auto dest: mux_tables simp: ServeHTTP_def http_inv_def split: if_splits)
  ultimately show ?thesis by (simp add: http_inv_def)
qed

subsection \<open>Who may do what\<close>

fun required_scope :: "http_call \<Rightarrow> string option" where
  "required_scope (RegisterPeer b) = Some ''read''"
| "required_scope GetPeers = Some ''read''"
| "required_scope (DiscardDLQ i) = Some ''read''"
| "required_scope ConfigReload = Some ''read''"
| "required_scope (RevokeNode n b) = Some ''read''"
| "required_scope GetApps = Some ''read''"
| "required_scope GetAdapters = Some ''read''"
| "required_scope (PutConfig b) = Some ''operator''"
| "required_scope (RegisterApp b) = Some ''operator''"
| "required_scope (DeleteApp a) = Some ''operator''"
| "required_scope (PostAdapter b) = Some ''operator''"
| "required_scope (DeleteAdapter t) = Some ''operator''"
| "required_scope call = None"

definition authority :: "'w http_env \<Rightarrow> http_request \<Rightarrow> http_server \<Rightarrow> string \<Rightarrow> bool" where
  "authority E r s scope \<longleftrightarrow>
     (let api = cfg_API (sv_cfg s) in
      (api_APIKey api = '''' \<and> api_JWTSecret api = '''') \<or>
      grants (api_APIKey api) scope (credential_of (he_jwt E) (he_clk E 0) (api_JWTSecret api) r))"

lemma with_scope_authority:
  "with_scope scope E r h s w =
     (if rq_Method r = ''OPTIONS'' then ((204, NoBody), s, w, [])
      else if authority E r s scope then h else (writeJSONError ''unauthorized'' 401, s, w, []))"
  by (simp add: with_scope_def authority_def Let_def checkAuth_grants)

lemma mux_guarded:
  "required_scope call = Some scope \<Longrightarrow> rq_Method r \<noteq> ''OPTIONS'' \<Longrightarrow> \<not> authority E r s scope \<Longrightarrow>
   mux E r call s w = (writeJSONError ''unauthorized'' 401, s, w, [])"
  by (cases call) (auto simp: mux_def with_scope_authority)

lemma gateway_send_policy:
  "gateway_send E n env s w = (res, s', w', evs) \<Longrightarrow> gw_policyCfg (sv_gw s') = gw_policyCfg (sv_gw s)"
  by (auto simp: gateway_send_def split: prod.splits dest: SendEnvelope_frame)

lemma sending_handlers_policy:
  "handle_envelopes E b s w = (resp, s', w', evs) \<Longrightarrow> gw_policyCfg (sv_gw s') = gw_policyCfg (sv_gw s)"
  "handle_dlq_replay E i s w = (resp, s', w', evs) \<Longrightarrow> gw_policyCfg (sv_gw s') = gw_policyCfg (sv_gw s)"
  by (auto simp: handle_envelopes_def handle_dlq_replay_def Let_def
      dest!: gateway_send_policy split: if_splits option.splits prod.splits sum.splits)

lemma crl_handlers_policy:
  "gw_policyCfg (sv_gw (snd (handle_crl_post E cb s))) = gw_policyCfg (sv_gw s)"
  "gw_policyCfg (sv_gw (snd (handle_revoke E n vb s))) = gw_policyCfg (sv_gw s)"
  by (auto simp: handle_crl_post_def handle_revoke_def crl_set_def Let_def split: option.splits)

text \<open>The configuration that a request asks the engine to take over.\<close>

definition requested_config :: "'w http_env \<Rightarrow> http_call \<Rightarrow> Config option" where
  "requested_config E call =
     (case call of
        ConfigReload \<Rightarrow> (case he_load E of Inr c \<Rightarrow> Some c | Inl _ \<Rightarrow> None)
      | PutConfig (Inr c) \<Rightarrow> Some c
      | _ \<Rightarrow> None)"

lemma handle_config_reload_policy:
  "gw_policyCfg (sv_gw (snd (handle_config_reload E s))) = gw_policyCfg (sv_gw s) \<or>
   requested_config E ConfigReload = Some (gw_policyCfg (sv_gw (snd (handle_config_reload E s))))"
  by (auto simp: handle_config_reload_def requested_config_def onReload_def Reload_def engine_of_def put_engine_def
      split: option.splits prod.splits sum.splits)

lemma handle_put_config_policy:
  "gw_policyCfg (sv_gw (snd (handle_put_config E b s))) = gw_policyCfg (sv_gw s) \<or>
   requested_config E (PutConfig b) = Some (gw_policyCfg (sv_gw (snd (handle_put_config E b s))))"
  by (auto simp: handle_put_config_def requested_config_def onConfigSave_def Reload_def engine_of_def put_engine_def Let_def
      split: option.splits prod.splits sum.splits)

lemma mux_policy:
  assumes "mux E r call s w = (resp, s', w', evs)" "gw_policyCfg (sv_gw s') \<noteq> gw_policyCfg (sv_gw s)"
    and "rq_Method r \<noteq> ''OPTIONS''"
  shows "requested_config E call = Some (gw_policyCfg (sv_gw s')) \<and>
    (\<exists>scope. required_scope call = Some scope \<and> authority E r s scope)"
proof (cases call)
  case ConfigReload
  then show ?thesis using assms handle_config_reload_policy [of E s]
    by (auto simp: mux_def with_scope_authority writing_def split: if_splits)
next
  case (PutConfig b)
  then show ?thesis using assms handle_put_config_policy [of E b s]
    by (auto simp: mux_def with_scope_authority writing_def split: if_splits)
qed (use assms in \<open>auto dest!: sending_handlers_policy simp: mux_def with_scope_authority reading_def writing_def
       local_handlers_frame crl_handlers_policy split: if_splits\<close>)

subsection \<open>Replaying the dead-letter queue\<close>

lemma parse_index_show: "int64_range (int i) \<Longrightarrow> parse_index (show_nat i) = Some (int i)"
  by (simp add: parse_index_def atoi_show_nat)

lemma gateway_send_duplicate:
  assumes "ev_IdempotencyKey env \<noteq> ''''" "\<not> ev_IsDummy env"
    and "is_duplicate (sv_gw s) (he_clk E n) (ev_IdempotencyKey env)"
  obtains r a evs where "gateway_send E n env s w = (Inr r, s\<lparr>sv_gw := (sv_gw s)\<lparr>gw_audit := a\<rparr>\<rparr>, w, evs)"
    "rs_Decision r = DecisionDuplicate"
proof -
  have dup: "is_duplicate (sv_gw s) ((\<lambda>i. he_clk E (n + i)) 0) (ev_IdempotencyKey env)" using assms(3) by simp
  note SendEnvelope_duplicate [of env "sv_gw s" "\<lambda>i. he_clk E (n + i)" "he_digest E" "he_cancelled E"
      "if sv_forwarding s then Some (he_fwd E) else None" "(sv_fwd s, w)", OF assms(1,2) dup]
  then
  obtain r a evs where "SendEnvelope (he_digest E) (\<lambda>i. he_clk E (n + i)) (he_cancelled E)
      (if sv_forwarding s then Some (he_fwd E) else None) env (sv_gw s) (sv_fwd s, w) =
      (Inr r, (sv_gw s)\<lparr>gw_audit := a\<rparr>, (sv_fwd s, w), evs)" "rs_Decision r = DecisionDuplicate"
    by metis
  then show thesis using that by (simp add: gateway_send_def)
qed

subsection \<open>Tokens\<close>

lemma token_scope_cases: "token_scope b = ''read'' \<or> token_scope b = ''operator''"
  by (auto simp: token_scope_def)

lemma token_minutes_bounds: "1 \<le> token_minutes b \<and> token_minutes b \<le> 1440"
  by (auto simp: token_minutes_def)

lemma handle_token_issued:
  assumes "handle_token E r body s = (200, JwtIssued tok scope ex)"
  obtains b claims where "body = Some b" "scope = token_scope b"
    "jl_sign (he_jwt E) (api_JWTSecret (cfg_API (sv_cfg s))) claims = Some tok"
    "claims ''scope'' = Some (JStr scope)" "claims ''exp'' = Some (JNum ex)" "claims ''nbf'' = None"
    "ex = unix_sec (he_clk E 1 + token_minutes b * minute)"
    "checkAuth (he_jwt E) (he_clk E 0) (api_APIKey (cfg_API (sv_cfg s))) '''' ''read'' r"
    "api_JWTSecret (cfg_API (sv_cfg s)) \<noteq> ''''"
  using assms by (auto simp: handle_token_def writeJSONError_def Let_def split: if_splits option.splits)

lemma jwt_Parse_signed:
  assumes "jwt_laws lib" "jl_sign lib secret claims = Some tok" "claims ''exp'' = Some (JNum ex)" "claims ''nbf'' = None"
    and "0 < ex" "ex \<le> 2 ^ 53"
  obtains claims' where "\<And>now. jwt_Parse lib now secret tok = (if now < ex * second then Some claims' else None)"
    "carries claims' claims"
proof -
  obtain claims' where c: "jl_decode lib tok = Some (SigningMethodHMAC, claims')" "carries claims' claims"
    "jl_sig_ok lib SigningMethodHMAC secret tok"
    using assms(1,2) unfolding jwt_laws_def by blast
  have k: "list_all is_ascii ''exp''" "list_all is_ascii ''nbf''" by (simp_all add: is_ascii_def)
  have "claims' ''exp'' = Some (JNum ex)"
    using c(2) [unfolded carries_def, rule_format, OF k(1)] assms(3,5,6) by (simp add: exact_claim_def)
  moreover have "claims' ''nbf'' = None"
    using c(2) [unfolded carries_def, rule_format, OF k(2)] assms(4) by simp
  ultimately have "jl_claims_ok lib now claims' \<longleftrightarrow> now < ex * second" for now
    using assms(1,5,6) unfolding jwt_laws_def by auto
  then show thesis using that [of claims'] c by (simp add: jwt_Parse_def)
qed

lemma carries_scope:
  assumes "carries claims' claims" "claims ''scope'' = Some (JStr scope)" "utf8_valid scope"
  shows "string_claim claims' ''scope'' = scope"
proof -
  have "list_all is_ascii ''scope''" by (simp add: is_ascii_def)
  then have "claims' ''scope'' = Some (JStr scope)"
    using assms(1) [unfolded carries_def, rule_format, of "''scope''"] assms(2,3) by (simp add: exact_claim_def)
  then show ?thesis by (simp add: string_claim_def)
qed

definition bearer :: "string \<Rightarrow> http_request" where
  "bearer tok = \<lparr>rq_Method = ''GET'', rq_Header = (\<lambda>h. if h = ''Authorization'' then ''Bearer '' @ tok else ''''),
     rq_Query = (\<lambda>_. '''')\<rparr>"

lemma credential_bearer:
  "secret \<noteq> '''' \<Longrightarrow> credential_of lib now secret (bearer tok) =
     (case jwt_Parse lib now secret tok of None \<Rightarrow> BadToken | Some c \<Rightarrow> Scoped (string_claim c ''scope''))"
  by (simp add: credential_of_def bearer_def)

subsection \<open>Properties\<close>

text \<open>
  Every HTTP request, whatever its route, body and credentials, acts on the gateway, the
  forwarder and their environment as a run of the gateway state machine whose times are
  readings of the clock; hence it keeps the invariant of the server: the audit log verifies,
  the deduplication index and the revocation list are well formed, the configuration of
  the engine is valid, the runtime tables file their entries under their own names (custom
  adapters under custom names) and no client queue exceeds its bound.
\<close>

theorem http_refines_gateway_runs:
  assumes "env_ok E call" "ServeHTTP E r call s w = (resp, s', w', evs)"
  shows "(\<exists>ls. gw_run (he_digest E) (gw_fwd E s) (sv_gw s, sv_fwd s, w) ls (sv_gw s', sv_fwd s', w') \<and>
      (\<forall>l \<in> set ls. \<forall>t. label_time l = Some t \<longrightarrow> (\<exists>i. t = he_clk E i))) \<and>
    (http_inv (he_digest E) s \<longrightarrow> http_inv (he_digest E) s')"
  using ServeHTTP_run [OF assms] ServeHTTP_inv [OF assms] by (auto simp: http_run_def)

text \<open>
  C12. Authority. A request to a guarded route without the authority its scope requires is
  answered 401 and changes nothing; authority is an API key equal to the configured one, or a
  token that the library accepts whose scope is \<open>operator\<close>, or \<open>read\<close> where the route does
  not ask for \<open>operator\<close>, or the absence of both an API key and a JWT secret. The engine's
  configuration changes only to the configuration the request asks for, only with authority,
  and only to a valid one.
\<close>

theorem http_authority:
  assumes "env_ok E call" "ServeHTTP E r call s w = (resp, s', w', evs)" "rq_Method r \<noteq> ''OPTIONS''"
  shows "(required_scope call = Some scope \<and> \<not> authority E r s scope \<longrightarrow>
      resp = (401, JsonError ''unauthorized'') \<and> s' = s \<and> w' = w \<and> evs = []) \<and>
    (gw_policyCfg (sv_gw s') \<noteq> gw_policyCfg (sv_gw s) \<and> http_inv (he_digest E) s \<longrightarrow>
      requested_config E call = Some (gw_policyCfg (sv_gw s')) \<and> config_ok (gw_policyCfg (sv_gw s')) \<and>
      (\<exists>sc. required_scope call = Some sc \<and> authority E r s sc))"
proof (intro conjI impI)
  have m: "mux E r call s w = (resp, s', w', evs)" using assms(2,3) by (simp add: ServeHTTP_def)
  show "resp = (401, JsonError ''unauthorized'')" "s' = s" "w' = w" "evs = []"
    if "required_scope call = Some scope \<and> \<not> authority E r s scope"
    using m mux_guarded [OF conjunct1 [OF that] assms(3) conjunct2 [OF that], of w] by (auto simp: writeJSONError_def)
  assume c: "gw_policyCfg (sv_gw s') \<noteq> gw_policyCfg (sv_gw s) \<and> http_inv (he_digest E) s"
  then show "requested_config E call = Some (gw_policyCfg (sv_gw s'))"
    "\<exists>sc. required_scope call = Some sc \<and> authority E r s sc"
    using mux_policy [OF m _ assms(3)] by auto
  show "config_ok (gw_policyCfg (sv_gw s'))"
    using ServeHTTP_inv [OF assms(1,2) conjunct2 [OF c]] unfolding http_inv_def gw_inv_def by blast
qed

text \<open>
  Replaying an entry of the dead-letter queue while its key is live in the deduplication
  index: the gateway answers DUPLICATE, nothing is forwarded (transport and transit cache are
  untouched), and the entry is removed from the queue all the same, so the envelope is gone.
\<close>

theorem replay_of_live_key_discards:
  assumes "fw_dlq (sv_fwd s) = Some d" "sv_Gateway s" "i < length d" "int64_range (int i)"
    and "ev_IdempotencyKey (dq_Envelope (d ! i)) \<noteq> ''''" "\<not> ev_IsDummy (dq_Envelope (d ! i))"
    and "is_duplicate (sv_gw s) (he_clk E 0) (ev_IdempotencyKey (dq_Envelope (d ! i)))"
    and "rq_Method r = ''POST''"
  shows "\<exists>reason s' evs. ServeHTTP E r (ReplayDLQ (show_nat i)) s w = ((200, Replayed DecisionDuplicate reason), s', w, evs) \<and>
    fw_dlq (sv_fwd s') = Some (take i d @ drop (Suc i) d) \<and>
    fw_transitCache (sv_fwd s') = fw_transitCache (sv_fwd s)"
proof -
  obtain x a evs where "gateway_send E 0 (dq_Envelope (d ! i)) s w =
      (Inr x, s\<lparr>sv_gw := (sv_gw s)\<lparr>gw_audit := a\<rparr>\<rparr>, w, evs)" "rs_Decision x = DecisionDuplicate"
    using gateway_send_duplicate [OF assms(5-7)] by metis
  moreover have "dlq_Remove (int i) d = take i d @ drop (Suc i) d" using assms(3) by (simp add: dlq_Remove_def)
  ultimately show ?thesis
    using assms(1-3,8) parse_index_show [OF assms(4)]
    by (simp add: ServeHTTP_def mux_def handle_dlq_replay_def dlq_Entries_def dlq_remove_now_def dlq_set_def)
qed

text \<open>
  The token endpoint and the check of tokens agree. A token it issues carries the scope
  and expiry it reports, expires within a day, and until then a request that presents it
  is authorised for \<open>read\<close>, and for \<open>operator\<close> exactly when that is its scope; from the
  expiry on it is refused. Whoever is let in by the API key check can ask for any scope.
\<close>

theorem issued_jwt_authorises:
  assumes "jwt_laws (he_jwt E)" "handle_token E r (Some b) s = (200, JwtIssued tok scope ex)"
    and "api = cfg_API (sv_cfg s)" "0 < ex" "ex \<le> 2 ^ 53"
  shows "(tb_Scope b \<in> {''read'', ''operator''} \<longrightarrow> scope = tb_Scope b) \<and>
    ex \<le> unix_sec (he_clk E 1 + 24 * hour) \<and>
    (checkAuth (he_jwt E) now (api_APIKey api) (api_JWTSecret api) ''read'' (bearer tok) \<longleftrightarrow> now < ex * second) \<and>
    (checkAuth (he_jwt E) now (api_APIKey api) (api_JWTSecret api) ''operator'' (bearer tok) \<longleftrightarrow>
       now < ex * second \<and> scope = ''operator'')"
proof -
  obtain claims where C: "scope = token_scope b" "jl_sign (he_jwt E) (api_JWTSecret api) claims = Some tok"
    "claims ''scope'' = Some (JStr scope)" "claims ''exp'' = Some (JNum ex)" "claims ''nbf'' = None"
    "ex = unix_sec (he_clk E 1 + token_minutes b * minute)" "api_JWTSecret api \<noteq> ''''"
    using handle_token_issued [OF assms(2)] assms(3) by (metis option.inject)
  obtain claims' where P: "\<And>now. jwt_Parse (he_jwt E) now (api_JWTSecret api) tok = (if now < ex * second then Some claims' else None)"
    "carries claims' claims"
    by (rule jwt_Parse_signed [OF assms(1) C(2,4,5) assms(4,5)]) blast
  have "utf8_valid scope" using C(1) token_scope_cases [of b] by (auto simp: is_ascii_def)
  note sc = carries_scope [OF P(2) C(3) this]
  have "ex \<le> unix_sec (he_clk E 1 + 24 * hour)"
    using C(6) token_minutes_bounds [of b] by (auto simp: unix_sec_def duration_defs intro!: zdiv_mono1)
  then show ?thesis using C token_scope_cases [of b] P(1) sc
    by (auto simp: checkAuth_grants credential_bearer token_scope_def)
qed

text \<open>
  Anyone who reaches the server can revoke a node: the endpoint asks for no authority and
  does not verify signatures, so two requests with different non-empty signature strings make
  the revocation of any node effective, whatever their credentials, and the answer says so.
\<close>

theorem open_revocation:
  assumes "gw_crl (sv_gw s) = Some cs" "crl_inv cs" "n \<noteq> ''''" "sig1 \<noteq> ''''" "sig2 \<noteq> ''''" "sig1 \<noteq> sig2"
    and "rq_Method r1 \<noteq> ''OPTIONS''" "rq_Method r2 \<noteq> ''OPTIONS''"
    and "ServeHTTP E1 r1 (PostCRL (Some \<lparr>cb_NodeID = n, cb_Reason = x1, cb_SignatureB64 = base64 sig1\<rparr>)) s w = (resp1, s1, w1, evs1)"
    and "ServeHTTP E2 r2 (PostCRL (Some \<lparr>cb_NodeID = n, cb_Reason = x2, cb_SignatureB64 = base64 sig2\<rparr>)) s1 w1 = (resp2, s2, w2, evs2)"
  shows "resp2 = (200, Revocation n True) \<and> (\<exists>cs2. gw_crl (sv_gw s2) = Some cs2 \<and> IsRevoked cs2 n)"
proof -
  have ne: "base64 x \<noteq> ''''" if "x \<noteq> ''''" for x using that by (cases x rule: base64.cases) auto
  let ?c1 = "Revoke (he_clk E1 0) n x1 sig1 cs"
  let ?c2 = "Revoke (he_clk E2 0) n x2 sig2 ?c1"
  have s1: "s1 = crl_set ?c1 s" "w1 = w"
    using assms ne by (auto simp: ServeHTTP_def mux_def writing_def handle_crl_post_def Let_def)
  have i: "crl_inv ?c1" "crl_inv ?c2" using assms(2) by (auto intro!: crl_inv_Revoke)
  have "{sig1, sig2} \<subseteq> sigs ?c2 n" by simp
  then have "card {sig1, sig2} \<le> card (sigs ?c2 n)" by (rule card_mono [OF sigs_finite])
  then have "2 \<le> card (sigs ?c2 n)" using assms(6) by (simp del: sigs_Revoke)
  then have "IsRevoked ?c2 n" using i by (simp add: IsRevoked_sigs)
  then show ?thesis
    using assms(3,5,8,10) ne [OF assms(5)] s1
    by (auto simp: ServeHTTP_def mux_def writing_def handle_crl_post_def crl_set_def Let_def)
qed

subsection \<open>The shape of answers\<close>

fun is_error_body :: "http_body \<Rightarrow> bool" where
  "is_error_body (JsonError m) = True"
| "is_error_body (JsonErrorOf m c) = True"
| "is_error_body _ = False"

definition well_shaped :: "http_response \<Rightarrow> bool" where
  "well_shaped resp \<longleftrightarrow>
     fst resp \<in> {200, 201, 204, 400, 401, 403, 404, 500, 503} \<and>
     (400 \<le> fst resp \<longleftrightarrow> is_error_body (snd resp) \<or> resp = (404, Text ''404 page not found'')) \<and>
     (fst resp = 204 \<longleftrightarrow> snd resp = NoBody)"

lemma reading_shapes:
  "well_shaped handle_healthz" "well_shaped (handle_readyz s)" "well_shaped (handle_wellknown E s)"
  "well_shaped (handle_peers_audit E s)" "well_shaped (handle_status E s)" "well_shaped (handle_audit_latest E r s)"
  "well_shaped (handle_dlq_list s)" "well_shaped (handle_crl_list E s)" "well_shaped (handle_peers E s)"
  "well_shaped (handle_apps E s)" "well_shaped (handle_adapters E s)" "well_shaped (handle_token E r tb s)"
  by (auto simp: well_shaped_def handle_healthz_def handle_readyz_def handle_wellknown_def handle_peers_audit_def
      handle_status_def handle_audit_latest_def handle_dlq_list_def handle_crl_list_def handle_peers_def
      handle_apps_def handle_adapters_def handle_token_def writeJSONError_def Let_def split: option.splits)

lemma writing_shapes:
  "well_shaped (fst (handle_dlq_delete i s))" "well_shaped (fst (handle_crl_post E cb s))"
  "well_shaped (fst (stream_open s))" "well_shaped (fst (handle_register_peer pb s))"
  "well_shaped (fst (handle_config_reload E s))" "well_shaped (fst (handle_revoke E n vb s))"
  "well_shaped (fst (handle_discover E r s))" "well_shaped (fst (handle_connect E nb s))"
  "well_shaped (fst (handle_put_config E fb s))" "well_shaped (fst (handle_register_app E ab s))"
  "well_shaped (fst (handle_delete_app a s))" "well_shaped (fst (handle_register_adapter E xb s))"
  "well_shaped (fst (handle_delete_adapter t s))"
  by (auto simp: well_shaped_def handle_dlq_delete_def handle_crl_post_def stream_open_def handle_register_peer_def
      handle_config_reload_def handle_revoke_def handle_discover_def handle_connect_def handle_put_config_def
      handle_register_app_def handle_delete_app_def handle_register_adapter_def handle_delete_adapter_def
      writeJSONError_def Let_def split: option.splits prod.splits sum.splits)

lemma sending_shapes:
  "well_shaped (fst (handle_envelopes E b s w))" "well_shaped (fst (handle_dlq_replay E i s w))"
  by (auto simp: well_shaped_def handle_envelopes_def handle_dlq_replay_def writeJSONError_def Let_def
      split: option.splits prod.splits sum.splits)

lemma fixed_shapes: "well_shaped (204, NoBody)" "well_shaped (writeJSONError m 401)"
  by (simp_all add: well_shaped_def writeJSONError_def)

text \<open>
  The shape of what the handlers answer to a call that was routed: the status is one of nine, a
  client or server error carries a JSON error body and nothing else does (the one exception is the
  plain-text 404 of the unpublished audit document), and 204 is sent without a body.
\<close>

theorem http_response_shape: "well_shaped (fst (ServeHTTP E r call s w))"
  by (cases call)
     (auto simp: ServeHTTP_def mux_def with_scope_authority reading_def writing_def
       reading_shapes writing_shapes sending_shapes fixed_shapes)

subsection \<open>The adapter listing\<close>

lemma adapters_listing_distinct:
  assumes "adapters_inv ra" "enumerates ks ra"
  shows "distinct (map cae_SchemaType (radapters_All ks ra)) \<and>
    (\<forall>a \<in> set (radapters_All ks ra). starts_with ''custom:'' (cae_SchemaType a))"
proof -
  have "\<forall>k \<in> set ks. \<exists>a. ra k = Some a \<and> cae_SchemaType a = k \<and> starts_with ''custom:'' k"
    using assms by (auto simp: adapters_inv_def enumerates_def dom_def)
  then have "map cae_SchemaType (radapters_All ks ra) = ks"
    and "\<forall>a \<in> set (radapters_All ks ra). starts_with ''custom:'' (cae_SchemaType a)"
    by (induction ks) (auto simp: radapters_All_def List.map_filter_def)
  then show ?thesis using assms(2) by (simp add: enumerates_def)
qed

text \<open>
  The adapter listing names every schema type once: the four built-in types come first
  with the policies of the configuration, and no runtime registration can shadow them, since
  only custom names are accepted.
\<close>

theorem adapter_listing_names_once:
  assumes "env_ok E GetAdapters" "tables_inv s" "handle_adapters E s = (code, AdapterList as)"
  shows "code = 200 \<and> distinct (map ad_SchemaType as) \<and>
    map ad_SchemaType (take 4 as) = [''messaging'', ''iso20022'', ''hl7fhir'', ''edifact''] \<and>
    (\<forall>a \<in> set (drop 4 as). \<not> ad_Builtin a \<and> starts_with ''custom:'' (ad_SchemaType a))"
proof -
  let ?B = "builtin_adapters (pol_Rules (cfg_Policy (sv_cfg s)))"
  have B: "map ad_SchemaType ?B = [''messaging'', ''iso20022'', ''hl7fhir'', ''edifact'']" "length ?B = 4"
    by (simp_all add: builtin_adapters_def builtin_adapter_def Let_def)
  have C: "ad_SchemaType (custom_adapter a) = cae_SchemaType a" "\<not> ad_Builtin (custom_adapter a)" for a
    by (simp_all add: custom_adapter_def)
  show ?thesis
  proof (cases "sv_RuntimeAdapters s")
    case None
    then have "as = ?B \<and> code = 200" using assms(3) by (auto simp: handle_adapters_def)
    then show ?thesis using B by auto
  next
    case (Some ra)
    let ?L = "radapters_All (he_order E (dom ra)) ra"
    have as: "as = ?B @ map custom_adapter ?L \<and> code = 200" using assms(3) Some by (auto simp: handle_adapters_def)
    have i: "adapters_inv ra" using assms(2) Some by (simp add: tables_inv_def)
    then have "enumerates (he_order E (dom ra)) ra"
      using assms(1) by (simp add: env_ok_def enumerates_def adapters_inv_def)
    note D = adapters_listing_distinct [OF i this]
    have n: "map ad_SchemaType (map custom_adapter ?L) = map cae_SchemaType ?L" by (simp add: C(1))
    have c: "t \<notin> set (map cae_SchemaType ?L)" if "\<not> starts_with ''custom:'' t" for t
      using D that by auto
    have "set (map cae_SchemaType ?L) \<inter> set (map ad_SchemaType ?B) = {}"
      unfolding B(1) using c [of "''messaging''"] c [of "''iso20022''"] c [of "''hl7fhir''"] c [of "''edifact''"] by auto
    then have "distinct (map ad_SchemaType (?B @ map custom_adapter ?L))"
      unfolding map_append n distinct_append B(1) using D B(1) by auto
    then show ?thesis using as B D C by auto
  qed
qed

subsection \<open>Examples\<close>

definition demo_claims :: jwt_claims where
  "demo_claims = [''scope'' \<mapsto> JStr ''operator'', ''exp'' \<mapsto> JNum 3600, ''iat'' \<mapsto> JNum 0, ''jti'' \<mapsto> JStr ''u'']"

text \<open>A library that can sign one set of claims.\<close>

definition demo_jwt :: jwt_lib where
  "demo_jwt =
     \<lparr>jl_decode = (\<lambda>tok. if tok = ''tok'' then Some (SigningMethodHMAC, demo_claims) else None),
      jl_sig_ok = (\<lambda>m secret tok. tok = ''tok''),
      jl_claims_ok = (\<lambda>now claims. case claims ''exp'' of Some (JNum ex) \<Rightarrow> now < ex * second | _ \<Rightarrow> False),
      jl_sign = (\<lambda>secret claims. if claims = demo_claims then Some ''tok'' else None)\<rparr>"

lemma demo_jwt_laws: "jwt_laws demo_jwt"
  by (auto simp: jwt_laws_def carries_def demo_jwt_def split: if_splits option.splits)

definition demo_http_env :: "(string set \<Rightarrow> string list) \<Rightarrow> unit http_env" where
  "demo_http_env order =
     \<lparr>he_jwt = demo_jwt, he_clk = (\<lambda>_. 0), he_uuid = (\<lambda>_. ''u''), he_digest = (\<lambda>x. x), he_sign = (\<lambda>k m. m),
      he_fl = (\<lambda>x. x), he_cancelled = False, he_fwd = (\<lambda>now env st. (Inl (NoPeer ''''), st)),
      he_latest = (\<lambda>_. Inr []), he_load = Inr DefaultBalancedConfig, he_order = order, he_users = (\<lambda>_. [])\<rparr>"

definition demo_api :: Config where
  "demo_api = DefaultBalancedConfig\<lparr>cfg_API := \<lparr>api_APIKey = ''k'', api_JWTSecret = ''s''\<rparr>\<rparr>"

definition demo_server :: http_server where
  "demo_server =
     \<lparr>sv_cfg = demo_api, sv_startTime = 0, sv_gw = demo_gateway,
      sv_fwd = NewForwarder DefaultBalancedConfig (Some [new_entry demo_envelope ''a'']) None,
      sv_forwarding = False, sv_Engine = True, sv_Audit = True, sv_Gateway = True, sv_PrivKey = None, sv_Peers = None,
      sv_Inbox = Some inbox_New, sv_Registry = None, sv_RuntimePeers = Some NewRuntimePeers,
      sv_RuntimeApps = Some NewRuntimeApps, sv_RuntimeAdapters = Some NewRuntimeAdapters,
      sv_OnConfigReload = True, sv_OnConfigSave = True\<rparr>"

definition demo_get :: http_request where
  "demo_get = \<lparr>rq_Method = ''GET'', rq_Header = (\<lambda>_. ''''), rq_Query = (\<lambda>_. '''')\<rparr>"

definition demo_keyed :: http_request where
  "demo_keyed = demo_get\<lparr>rq_Method := ''POST'', rq_Header := (\<lambda>h. if h = ''X-MRMI-Key'' then ''k'' else '''')\<rparr>"

lemma demo_server_inv: "http_inv digest demo_server"
  by (simp add: http_inv_def tables_inv_def demo_server_def demo_inv adapters_inv_ops apps_inv_ops inbox_inv_ops)

lemma demo_env_ok:
  obtains order where "\<And>call. (\<And>cfg. call \<noteq> PutConfig (Inr cfg)) \<Longrightarrow> env_ok (demo_http_env order) call"
proof -
  have "\<exists>order. \<forall>A :: string set. finite A \<longrightarrow> distinct (order A) \<and> set (order A) = A"
    by (metis finite_distinct_list)
  then obtain order where "\<forall>A :: string set. finite A \<longrightarrow> distinct (order A) \<and> set (order A) = A" by blast
  moreover have "config_finite DefaultBalancedConfig"
    by (simp add: config_finite_def DefaultBalancedConfig_def DefaultConfigForProfile_def preset_base_def Let_def)
  ultimately show thesis using that by (auto simp: env_ok_def demo_http_env_def)
qed

theorem http_refines_gateway_runs_witness:
  "\<exists>order resp s' evs. ServeHTTP (demo_http_env order) demo_keyed ConfigReload demo_server () = (resp, s', (), evs) \<and>
     http_inv (\<lambda>x. x) s'"
proof -
  obtain order where ok: "\<And>call. (\<And>cfg. call \<noteq> PutConfig (Inr cfg)) \<Longrightarrow> env_ok (demo_http_env order) call"
    using demo_env_ok by blast
  obtain resp s' evs where r: "ServeHTTP (demo_http_env order) demo_keyed ConfigReload demo_server () = (resp, s', (), evs)"
    by (metis prod_cases4 old.unit.exhaust)
  have "http_inv (he_digest (demo_http_env order)) s'"
    using http_refines_gateway_runs [OF ok r] demo_server_inv by blast
  then have "http_inv (\<lambda>x. x) s'" by (simp add: demo_http_env_def)
  then show ?thesis using r by blast
qed

theorem http_authority_witness:
  "\<exists>order. ServeHTTP (demo_http_env order) demo_get GetPeers demo_server () =
     ((401, JsonError ''unauthorized''), demo_server, (), [])"
proof -
  obtain order where ok: "\<And>call. (\<And>cfg. call \<noteq> PutConfig (Inr cfg)) \<Longrightarrow> env_ok (demo_http_env order) call"
    using demo_env_ok by blast
  obtain resp s' evs where r: "ServeHTTP (demo_http_env order) demo_get GetPeers demo_server () = (resp, s', (), evs)"
    by (metis prod_cases4 old.unit.exhaust)
  have "required_scope GetPeers = Some ''read'' \<and> \<not> authority (demo_http_env order) demo_get demo_server ''read''"
    by (simp add: authority_def demo_server_def demo_api_def demo_get_def credential_of_def Let_def)
  then have "resp = (401, JsonError ''unauthorized'') \<and> s' = demo_server \<and> evs = []"
    using http_authority [OF ok r, of "''read''"] by (auto simp: demo_get_def)
  then show ?thesis using r by auto
qed

definition demo_registered :: http_server where
  "demo_registered = demo_server\<lparr>sv_gw := demo_gateway\<lparr>gw_dedup := put_key ''k1'' 100 (dedup_New (24 * hour))\<rparr>\<rparr>"

lemma demo_registered_live: "is_duplicate (sv_gw demo_registered) 0 ''k1''"
  by (simp add: is_duplicate_def demo_registered_def expiry_put_key)

theorem replay_of_live_key_discards_witness:
  "\<exists>reason s' evs. ServeHTTP (demo_http_env (\<lambda>_. [])) demo_keyed (ReplayDLQ ''0'') demo_registered () =
     ((200, Replayed DecisionDuplicate reason), s', (), evs) \<and> fw_dlq (sv_fwd s') = Some []"
proof -
  have z: "show_nat 0 = ''0''" by code_simp
  have p: "fw_dlq (sv_fwd demo_registered) = Some [new_entry demo_envelope ''a'']" "sv_Gateway demo_registered"
    by (simp_all add: demo_registered_def demo_server_def NewForwarder_def NewForwarderWithPolicy_def)
  have e: "dq_Envelope (new_entry demo_envelope ''a'') = demo_envelope" "he_clk (demo_http_env (\<lambda>_. [])) 0 = 0"
    "ev_IdempotencyKey demo_envelope = ''k1''" "\<not> ev_IsDummy demo_envelope" "rq_Method demo_keyed = ''POST''"
    by (simp_all add: new_entry_def demo_http_env_def demo_envelope_def demo_keyed_def)
  show ?thesis
    using replay_of_live_key_discards [of demo_registered "[new_entry demo_envelope ''a'']" 0 "demo_http_env (\<lambda>_. [])"
        demo_keyed "()"] demo_registered_live
    by (auto simp: z p e int64_range_def)
qed

lemma demo_token_issued:
  "handle_token (demo_http_env order) demo_keyed (Some \<lparr>tb_Scope = ''operator'', tb_TTLMinutes = 60\<rparr>) demo_server =
     (200, JwtIssued ''tok'' ''operator'' 3600)"
  by (simp add: handle_token_def demo_http_env_def demo_keyed_def demo_get_def demo_server_def demo_api_def checkAuth_def
      token_scope_def token_minutes_def unix_sec_def duration_defs demo_jwt_def demo_claims_def Let_def)

theorem issued_jwt_authorises_witness:
  "checkAuth demo_jwt 0 ''k'' ''s'' ''operator'' (bearer ''tok'') \<and>
   \<not> checkAuth demo_jwt (3600 * second) ''k'' ''s'' ''read'' (bearer ''tok'')"
proof -
  have l: "jwt_laws (he_jwt (demo_http_env (\<lambda>_. [])))" by (simp add: demo_http_env_def demo_jwt_laws)
  show ?thesis
    using issued_jwt_authorises [OF l demo_token_issued refl, where now = 0]
      issued_jwt_authorises [OF l demo_token_issued refl, where now = "3600 * second"]
    by (simp add: demo_http_env_def demo_server_def demo_api_def duration_defs)
qed

theorem open_revocation_witness:
  "\<exists>resp1 s1 evs1 s2 evs2.
     ServeHTTP (demo_http_env (\<lambda>_. [])) demo_get
       (PostCRL (Some \<lparr>cb_NodeID = ''n'', cb_Reason = '''', cb_SignatureB64 = base64 ''a''\<rparr>)) demo_server () = (resp1, s1, (), evs1) \<and>
     ServeHTTP (demo_http_env (\<lambda>_. [])) demo_get
       (PostCRL (Some \<lparr>cb_NodeID = ''n'', cb_Reason = '''', cb_SignatureB64 = base64 ''b''\<rparr>)) s1 () =
       ((200, Revocation ''n'' True), s2, (), evs2)"
proof -
  obtain resp1 s1 evs1 where r1: "ServeHTTP (demo_http_env (\<lambda>_. [])) demo_get
      (PostCRL (Some \<lparr>cb_NodeID = ''n'', cb_Reason = '''', cb_SignatureB64 = base64 ''a''\<rparr>)) demo_server () = (resp1, s1, (), evs1)"
    by (metis prod_cases4 old.unit.exhaust)
  obtain resp2 s2 evs2 where r2: "ServeHTTP (demo_http_env (\<lambda>_. [])) demo_get
      (PostCRL (Some \<lparr>cb_NodeID = ''n'', cb_Reason = '''', cb_SignatureB64 = base64 ''b''\<rparr>)) s1 () = (resp2, s2, (), evs2)"
    by (metis prod_cases4 old.unit.exhaust)
  have "gw_crl (sv_gw demo_server) = Some crl_New"
    by (simp add: demo_server_def demo_gateway_def NewGateway_def)
  from open_revocation [OF this crl_inv_New _ _ _ _ _ _ r1 r2] have "resp2 = (200, Revocation ''n'' True)"
    by (simp add: demo_get_def)
  then show ?thesis using r1 r2 by blast
qed

theorem adapter_listing_names_once_witness:
  "\<exists>order as. handle_adapters (demo_http_env order) demo_server = (200, AdapterList as) \<and>
     map ad_SchemaType (take 4 as) = [''messaging'', ''iso20022'', ''hl7fhir'', ''edifact'']"
proof -
  obtain order where ok: "\<And>call. (\<And>cfg. call \<noteq> PutConfig (Inr cfg)) \<Longrightarrow> env_ok (demo_http_env order) call"
    using demo_env_ok by blast
  obtain as where a: "handle_adapters (demo_http_env order) demo_server = (200, AdapterList as)"
    by (simp add: handle_adapters_def)
  have "tables_inv demo_server" using demo_server_inv by (simp add: http_inv_def)
  from adapter_listing_names_once [OF ok this a]
  have "map ad_SchemaType (take 4 as) = [''messaging'', ''iso20022'', ''hl7fhir'', ''edifact'']" by blast
  with a show ?thesis by (intro exI conjI)
qed

end
