(* ===== verification/Session.thy ===== *)
theory Session
  imports Prelude
begin

text \<open>
  The sequence tracker (\<open>internal/session/tracker.go\<close>). A missing key of the Go map reads as
  0, so the tracker is a total function; sequence numbers are 64-bit words and \<open>+ 1\<close> wraps.
  For the positive sequence numbers the transport passes on, the stored value is the
  largest number seen, whatever the order of arrival.
\<close>

type_synonym Tracker = "string \<Rightarrow> 64 word"

definition session_New :: Tracker where "session_New = (\<lambda>_. 0)"

definition NextSeq :: "string \<Rightarrow> Tracker \<Rightarrow> 64 word \<times> Tracker" where
  "NextSeq senderID t = (let seq = t senderID + 1 in (seq, t(senderID := seq)))"

datatype seq_warning = OutOfOrder string "64 word" "64 word" \<comment> \<open>sender, got, expected\<close>

definition session_Validate :: "string \<Rightarrow> 64 word \<Rightarrow> Tracker \<Rightarrow> seq_warning option \<times> Tracker" where
  "session_Validate senderID seq t =
     (let expected = t senderID + 1 in
      if seq = expected then (None, t(senderID := seq))
      else (Some (OutOfOrder senderID seq expected),
            if seq > t senderID then t(senderID := seq) else t))"

fun validate_all :: "(string \<times> 64 word) list \<Rightarrow> Tracker \<Rightarrow> seq_warning option list \<times> Tracker" where
  "validate_all [] t = ([], t)"
| "validate_all ((s, n) # xs) t =
     (case session_Validate s n t of (w, t1) \<Rightarrow> (case validate_all xs t1 of (ws, t2) \<Rightarrow> (w # ws, t2)))"

lemma word_less_Suc: "w + 1 \<noteq> 0 \<Longrightarrow> w < (w + 1 :: 64 word)"
  by unat_arith

lemma session_Validate_max:
  assumes "0 < seq"
  shows "snd (session_Validate s seq t) = t(s := max (t s) seq)"
proof (cases "seq = t s + 1")
  case True
  then have "t s < seq" using assms word_less_Suc [of "t s"] by auto
  then show ?thesis using True by (simp add: session_Validate_def Let_def max_def less_imp_le)
next
  case False
  then show ?thesis by (auto simp: session_Validate_def Let_def max_def)
qed

lemma validate_all_max:
  assumes "\<forall>(s, n) \<in> set xs. 0 < n"
  shows "snd (validate_all xs t) s = foldl max (t s) (map snd (filter (\<lambda>x. fst x = s) xs))"
  using assms
proof (induction xs arbitrary: t)
  case (Cons x xs)
  obtain u n where x: "x = (u, n)" by force
  have "snd (validate_all (x # xs) t) = snd (validate_all xs (t(u := max (t u) n)))"
    using session_Validate_max [of n u t] Cons.prems by (auto simp: x split: prod.splits)
  moreover obtain t' where t': "t' = t(u := max (t u) n)" by simp
  moreover have "t' s = (if u = s then max (t s) n else t s)" by (simp add: t')
  moreover have "snd (validate_all xs t') s = foldl max (t' s) (map snd (filter (\<lambda>x. fst x = s) xs))"
    using Cons by simp
  ultimately show ?case by (simp only: x filter.simps fst_conv) auto
qed simp

text \<open>\<open>n\<close> calls of \<open>NextSeq\<close> for one sender.\<close>

fun next_seqs :: "nat \<Rightarrow> string \<Rightarrow> Tracker \<Rightarrow> 64 word list \<times> Tracker" where
  "next_seqs 0 s t = ([], t)"
| "next_seqs (Suc n) s t =
     (case NextSeq s t of (q, t1) \<Rightarrow> (case next_seqs n s t1 of (qs, t2) \<Rightarrow> (q # qs, t2)))"

lemma next_seqs_eq: "fst (next_seqs n s t) = map (\<lambda>i. t s + of_nat (Suc i)) [0 ..< n]"
proof (induction n arbitrary: t)
  case (Suc n)
  have "fst (next_seqs (Suc n) s t) = (t s + 1) # map (\<lambda>i. t s + 1 + of_nat (Suc i)) [0 ..< n]"
  proof -
    define t' where "t' = t(s := t s + 1)"
    then have "t' s = t s + 1" by simp
    then show ?thesis using Suc [of t']
      by (cases "next_seqs n s t'") (simp add: NextSeq_def Let_def t'_def [symmetric])
  qed
  also have "\<dots> = map (\<lambda>i. t s + of_nat (Suc i)) [0 ..< Suc n]"
    by (subst upt_conv_Cons, simp, subst map_Suc_upt [symmetric]) (simp add: algebra_simps)
  finally show ?case .
qed simp

subsection \<open>Properties\<close>

text \<open>
  The tracker keeps a high-water mark per sender: after any sequence of validations with
  positive sequence numbers, in any order and with gaps, the stored number of a sender is
  the largest it has sent, and the next number accepted without a warning is its successor.
\<close>

theorem sequence_high_water_mark:
  assumes "\<forall>(s, n) \<in> set xs. 0 < n"
  shows "snd (validate_all xs session_New) sender =
      foldl max 0 (map snd (filter (\<lambda>x. fst x = sender) xs)) \<and>
    (fst (session_Validate sender seq t) = None \<longleftrightarrow> seq = t sender + 1)"
  using validate_all_max [OF assms, of session_New sender]
  by (simp add: session_New_def session_Validate_def Let_def)

theorem sequence_high_water_mark_witness:
  "snd (validate_all [(''RS'', 1), (''RU'', 9), (''RS'', 5), (''RS'', 3)] session_New) ''RS'' = 5"
  using sequence_high_water_mark [of "[(''RS'', 1), (''RU'', 9), (''RS'', 5), (''RS'', 3)]" "''RS''"]
  by simp

text \<open>The numbers handed out to one sender are 1, 2, 3 and so on until the word wraps.\<close>

lemma next_seq_counts_up:
  assumes "n < 2 ^ 64"
  shows "map unat (fst (next_seqs n s session_New)) = [1 ..< Suc n]"
proof -
  have "unat (of_nat (Suc i) :: 64 word) = Suc i" if "i < n" for i
    using that assms by (simp add: unat_of_nat take_bit_nat_eq_self del: of_nat_Suc)
  then have "map unat (fst (next_seqs n s session_New)) = map Suc [0 ..< n]"
    by (simp add: next_seqs_eq session_New_def del: of_nat_Suc)
  then show ?thesis by (simp add: map_Suc_upt)
qed

end
