(* ===== verification/Connect.thy ===== *)
theory Connect
  imports Config
begin

text \<open>
  Resolution of connect requests (\<open>internal/connect/resolver.go\<close>) against the
  \<open>[policy.connect]\<close> section. The resolver is its configuration.
\<close>

definition StatusAccepted :: string where "StatusAccepted = ''ACCEPTED''"
definition StatusPending :: string where "StatusPending = ''PENDING''"
definition StatusDenied :: string where "StatusDenied = ''DENIED''"

lemmas status_defs = StatusAccepted_def StatusPending_def StatusDenied_def

record connect_Request =
  cr_OriginNodeID :: string
  cr_OriginAppID :: string
  cr_RecipientAppID :: string
  cr_MutualDiscovery :: bool

definition resolver_New :: "Config \<Rightarrow> Config" where "resolver_New cfg = cfg"

definition resolver_Reload :: "Config \<Rightarrow> Config \<Rightarrow> Config" where "resolver_Reload cfg r = cfg"

definition connect_mode :: "Config \<Rightarrow> string" where
  "connect_mode cfg =
     (let mode = to_upper (trim_space (cp_AutoAccept (pol_Connect (cfg_Policy cfg)))) in
      if mode = '''' then ''MANUAL'' else mode)"

definition resolver_Resolve :: "connect_Request \<Rightarrow> Config \<Rightarrow> string" where
  "resolver_Resolve req cfg =
     (let mode = connect_mode cfg in
      if mode = ''AUTO_ALL'' then StatusAccepted
      else if mode = ''AUTO_WHITELIST'' then
        (if cr_OriginNodeID req \<in> set (cp_TrustedNodes (pol_Connect (cfg_Policy cfg)))
         then StatusAccepted else StatusPending)
      else if mode = ''AUTO_MUTUAL'' then
        (if cr_MutualDiscovery req then StatusAccepted else StatusPending)
      else StatusPending)"

lemma resolver_Resolve_accepted:
  "resolver_Resolve req cfg = StatusAccepted \<longleftrightarrow>
     connect_mode cfg = ''AUTO_ALL'' \<or>
     connect_mode cfg = ''AUTO_WHITELIST'' \<and> cr_OriginNodeID req \<in> set (cp_TrustedNodes (pol_Connect (cfg_Policy cfg))) \<or>
     connect_mode cfg = ''AUTO_MUTUAL'' \<and> cr_MutualDiscovery req"
  by (auto simp: resolver_Resolve_def Let_def status_defs)

lemma resolver_Resolve_range: "resolver_Resolve req cfg \<in> {StatusAccepted, StatusPending}"
  by (simp add: resolver_Resolve_def Let_def)

end
