(* ===== verification/Discovery.thy ===== *)
theory Discovery
  imports Dedup
begin

text \<open>
  The discovery fan-out (\<open>internal/discovery/broadcaster.go\<close>). Dialling a peer and calling it
  is the parameter \<open>call\<close>: \<open>None\<close> when the dial or the call fails or the answer is nil. The
  order of the peer map is \<open>ks\<close>; \<open>now1\<close> and \<open>now2\<close> are the two reads of the clock.
\<close>

definition staleness :: int where "staleness = 30 * second"

record discovery_Request =
  bq_QueryHash :: string
  bq_QueryType :: string
  bq_OriginNodeID :: string
  bq_OriginAppID :: string
  bq_HopLimit :: "32 word"
  bq_RequestID :: string
  bq_Timestamp :: int

record discovery_Response =
  bp_NodeID :: string
  bp_AppID :: string
  bp_OpaqueToken :: string
  bp_DisplayHint :: string
  bp_MatchType :: string
  bp_TokenExpires :: int

record Broadcaster =
  bc_peers :: "string \<rightharpoonup> string"
  bc_dedup :: dedup_Index

type_synonym 'w peer_call = "string \<Rightarrow> discovery_Request \<Rightarrow> 'w \<Rightarrow> discovery_Response option \<times> 'w"

definition broadcaster_New :: "(string \<rightharpoonup> string) \<Rightarrow> dedup_Index \<Rightarrow> Broadcaster" where
  "broadcaster_New peers idx = \<lparr>bc_peers = peers, bc_dedup = idx\<rparr>"

fun ask_peers ::
  "'w peer_call \<Rightarrow> discovery_Request \<Rightarrow> (string \<rightharpoonup> string) \<Rightarrow> string list \<Rightarrow> 'w \<Rightarrow> discovery_Response list \<times> 'w" where
  "ask_peers call req peers [] w = ([], w)"
| "ask_peers call req peers (k # ks) w =
     (case peers k of
        None \<Rightarrow> ask_peers call req peers ks w
      | Some addr \<Rightarrow>
          (case call addr req w of
             (None, w1) \<Rightarrow> ask_peers call req peers ks w1
           | (Some resp, w1) \<Rightarrow>
               (case ask_peers call req peers ks w1 of
                  (rs, w2) \<Rightarrow> (if bp_OpaqueToken resp \<noteq> '''' then resp # rs else rs, w2))))"

definition is_stale :: "int \<Rightarrow> discovery_Request \<Rightarrow> bool" where
  "is_stale now req \<longleftrightarrow>
     bq_Timestamp req > 0 \<and> unix_milli now - bq_Timestamp req > go_div staleness millisecond"

definition Broadcast ::
  "'w peer_call \<Rightarrow> string list \<Rightarrow> int \<Rightarrow> int \<Rightarrow> discovery_Request \<Rightarrow> Broadcaster \<Rightarrow> 'w \<Rightarrow>
   discovery_Response list \<times> Broadcaster \<times> 'w" where
  "Broadcast call ks now1 now2 req b w =
     (if is_stale now1 req then ([], b, w)
      else case SeenOrAdd now2 (bq_RequestID req) (bc_dedup b) of
        (True, idx) \<Rightarrow> ([], b\<lparr>bc_dedup := idx\<rparr>, w)
      | (False, idx) \<Rightarrow>
          if bq_HopLimit req = 0 then ([], b\<lparr>bc_dedup := idx\<rparr>, w)
          else case ask_peers call (req\<lparr>bq_HopLimit := bq_HopLimit req - 1\<rparr>) (bc_peers b) ks w of
                 (rs, w') \<Rightarrow> (rs, b\<lparr>bc_dedup := idx\<rparr>, w'))"

subsection \<open>What is forwarded\<close>

text \<open>
  The world as the list of calls made so far: \<open>logging call\<close> records address and request.
\<close>

definition logging ::
  "'w peer_call \<Rightarrow> string \<Rightarrow> discovery_Request \<Rightarrow> (string \<times> discovery_Request) list \<times> 'w \<Rightarrow>
   discovery_Response option \<times> (string \<times> discovery_Request) list \<times> 'w" where
  "logging call addr req st =
     (case st of (lg, w) \<Rightarrow> (case call addr req w of (r, w') \<Rightarrow> (r, lg @ [(addr, req)], w')))"

lemma ask_peers_log:
  "fst (snd (ask_peers (logging call) req peers ks (lg, w))) =
     lg @ map (\<lambda>a. (a, req)) (List.map_filter peers ks)"
proof (induction ks arbitrary: lg w)
  case (Cons k ks)
  show ?case
  proof (cases "peers k")
    case None
    then show ?thesis using Cons by (simp add: map_filter_simps)
  next
    case (Some a)
    obtain r w1 where c: "call a req w = (r, w1)" by force
    then show ?thesis using Cons [of "lg @ [(a, req)]" w1] Some
      by (cases r) (auto simp: logging_def map_filter_simps split: prod.splits)
  qed
qed (simp add: map_filter_simps)

lemma Broadcast_calls:
  assumes "Broadcast (logging call) ks now1 now2 req b (lg, w) = (rs, b', (lg', w'))"
  shows "lg' = lg @
    (if is_stale now1 req \<or> fst (SeenOrAdd now2 (bq_RequestID req) (bc_dedup b)) \<or> bq_HopLimit req = 0 then []
     else map (\<lambda>a. (a, req\<lparr>bq_HopLimit := bq_HopLimit req - 1\<rparr>)) (List.map_filter (bc_peers b) ks))"
  using assms ask_peers_log [of call "req\<lparr>bq_HopLimit := bq_HopLimit req - 1\<rparr>" "bc_peers b" ks lg w]
  by (auto simp: Broadcast_def split: if_splits prod.splits bool.splits)

lemma Broadcast_tokens:
  assumes "Broadcast call ks now1 now2 req b w = (rs, b', w')"
  shows "\<forall>r \<in> set rs. bp_OpaqueToken r \<noteq> ''''"
proof -
  have "\<forall>r \<in> set (fst (ask_peers call rq ps ks w)). bp_OpaqueToken r \<noteq> ''''" for rq ps
    by (induction call rq ps ks w rule: ask_peers.induct) (auto split: option.splits prod.splits)
  then show ?thesis
    using assms by (auto simp: Broadcast_def split: if_splits prod.splits bool.splits) (metis fst_conv)
qed

lemma Broadcast_dedup:
  assumes "Broadcast call ks now1 now2 req b w = (rs, b', w')"
  shows "bc_peers b' = bc_peers b"
    "bc_dedup b' = (if is_stale now1 req then bc_dedup b else snd (SeenOrAdd now2 (bq_RequestID req) (bc_dedup b)))"
  using assms by (auto simp: Broadcast_def split: if_splits prod.splits bool.splits)

subsection \<open>Properties\<close>

text \<open>
  Flooding is contained. A broadcaster forwards a request to each of its peers once, with
  the hop limit lowered by one, and forwards nothing when the request is older than 30 s, its
  id was seen within the time to live, or its hop limit is used up; it reports only answers
  that carry a token.
\<close>

theorem broadcast_contained:
  assumes "Broadcast (logging call) ks now1 now2 req b ([], w) = (rs, b', (log', w'))"
  shows "log' = (if is_stale now1 req \<or> fst (SeenOrAdd now2 (bq_RequestID req) (bc_dedup b)) \<or> bq_HopLimit req = 0
      then [] else map (\<lambda>a. (a, req\<lparr>bq_HopLimit := bq_HopLimit req - 1\<rparr>)) (List.map_filter (bc_peers b) ks)) \<and>
    (\<forall>(a, q) \<in> set log'. bq_HopLimit q < bq_HopLimit req) \<and>
    (\<forall>r \<in> set rs. bp_OpaqueToken r \<noteq> '''')"
proof -
  note L = Broadcast_calls [OF assms]
  have "h - 1 < h" if "h \<noteq> 0" for h :: "32 word" using that by unat_arith
  then show ?thesis using L Broadcast_tokens [OF assms] by (auto split: if_splits)
qed

theorem broadcast_contained_witness:
  "\<exists>rs b' w'. Broadcast (logging (\<lambda>_ _ w. (None, w))) [''p''] 0 0
       \<lparr>bq_QueryHash = ''h'', bq_QueryType = '''', bq_OriginNodeID = ''n1'', bq_OriginAppID = '''', bq_HopLimit = 2,
        bq_RequestID = ''q'', bq_Timestamp = 0\<rparr>
       (broadcaster_New [''p'' \<mapsto> ''10.0.0.2:7777''] (dedup_New 10)) ([], ()) = (rs, b', w') \<and>
     (\<forall>(a, q) \<in> set (fst w'). bq_HopLimit q < 2)"
proof -
  let ?q = "\<lparr>bq_QueryHash = ''h'', bq_QueryType = '''', bq_OriginNodeID = ''n1'', bq_OriginAppID = '''', bq_HopLimit = 2,
        bq_RequestID = ''q'', bq_Timestamp = 0\<rparr>"
  obtain rs b' lg' w' where r: "Broadcast (logging (\<lambda>_ _ w. (None, w))) [''p''] 0 0 ?q
      (broadcaster_New [''p'' \<mapsto> ''10.0.0.2:7777''] (dedup_New 10)) ([], ()) = (rs, b', (lg', w'))"
    by (metis prod_cases4)
  then show ?thesis using broadcast_contained [OF r] by auto
qed

end
