(* ===== verification/Metrics.thy ===== *)
theory Metrics
  imports Prelude
begin

text \<open>
  The counters of \<open>internal/metrics/metrics.go\<close>. Counters are \<open>int64\<close> and \<open>Add(1)\<close> wraps.
\<close>

record metrics_Registry =
  mt_allowTotal :: int
  mt_duplicateTotal :: int
  mt_rateLimitDenyTotal :: int
  mt_denyByReason :: "string \<rightharpoonup> int"

definition metrics_New :: metrics_Registry where
  "metrics_New =
     \<lparr>mt_allowTotal = 0, mt_duplicateTotal = 0, mt_rateLimitDenyTotal = 0, mt_denyByReason = Map.empty\<rparr>"

definition IncAllow :: "metrics_Registry \<Rightarrow> metrics_Registry" where
  "IncAllow r = r\<lparr>mt_allowTotal := int64_wrap (mt_allowTotal r + 1)\<rparr>"

definition IncDuplicate :: "metrics_Registry \<Rightarrow> metrics_Registry" where
  "IncDuplicate r = r\<lparr>mt_duplicateTotal := int64_wrap (mt_duplicateTotal r + 1)\<rparr>"

definition IncRateLimitDeny :: "metrics_Registry \<Rightarrow> metrics_Registry" where
  "IncRateLimitDeny r = r\<lparr>mt_rateLimitDenyTotal := int64_wrap (mt_rateLimitDenyTotal r + 1)\<rparr>"

definition IncDeny :: "string \<Rightarrow> metrics_Registry \<Rightarrow> metrics_Registry" where
  "IncDeny reason r =
     (let c = (case mt_denyByReason r reason of Some c \<Rightarrow> c | None \<Rightarrow> 0)
      in r\<lparr>mt_denyByReason := (mt_denyByReason r)(reason \<mapsto> int64_wrap (c + 1))\<rparr>)"

definition readGauge :: "(unit \<Rightarrow> int) option \<Rightarrow> int" where
  "readGauge fn = (case fn of None \<Rightarrow> 0 | Some f \<Rightarrow> f ())"

end
