(* ===== verification/Adapter.thy ===== *)
theory Adapter
  imports Gateway Session Token Connect Discovery Peers Ratelimit Identity Metrics
begin

text \<open>
  The gRPC adapter (\<open>internal/transport/grpc/adapter.go\<close>): the six calls of the gateway
  service, over the state of the components they delegate to. Optional components are
  options, as the nil pointers of the source are. The wire envelope has the fields of
  \<open>core.Envelope\<close> and is that record here; \<open>nilp\<close> says whether its payload slice is nil. The
  policy engine of the adapter is the one of its gateway (\<open>ga_policyEng\<close> says whether it is
  wired).
\<close>

subsection \<open>State and messages\<close>

record gatewayAdapter =
  ga_gw :: gateway
  ga_seqRecv :: Tracker
  ga_verifyKey :: "string option"
  ga_peerCache :: "peercache option"
  ga_tokenStore :: "token_store option"
  ga_broadcaster :: "Broadcaster option"
  ga_connectRes :: "Config option"
  ga_policyEng :: bool
  ga_peerRegistry :: "peer_Registry option"
  ga_discoveryLimiter :: "Limiter option"
  ga_metricsReg :: "metrics_Registry option"
  ga_nodeCfg :: Config

record ConnectRequest =
  cq_OpaqueToken :: string
  cq_OriginNodeID :: string
  cq_OriginAppID :: string
  cq_RequestID :: string

record ConnectAck =
  ca_Status :: string
  ca_SessionID :: string
  ca_ExpiresAt :: int
  ca_Reason :: string

record RootHashMessage =
  rh_NodeID :: string
  rh_RootHash :: string
  rh_Timestamp :: int
  rh_Signature :: string

record PeerEntry =
  pe_NodeID :: string
  pe_Addr :: string
  pe_NodeScope :: string
  pe_Region :: string
  pe_LastSeen :: int

record PeerListRequest =
  pl_SenderNodeID :: string
  pl_KnownPeers :: "PeerEntry list"

datatype grpc_error = InvalidArgument | Internal | ResourceExhausted string

definition NewAdapter :: "gateway \<Rightarrow> Config \<Rightarrow> gatewayAdapter" where
  "NewAdapter gw zero_cfg =
     \<lparr>ga_gw = gw, ga_seqRecv = session_New, ga_verifyKey = None, ga_peerCache = None, ga_tokenStore = None,
      ga_broadcaster = None, ga_connectRes = None, ga_policyEng = False, ga_peerRegistry = None,
      ga_discoveryLimiter = None, ga_metricsReg = None, ga_nodeCfg = zero_cfg\<rparr>"

definition NewAdapterWithVerify :: "gateway \<Rightarrow> Config \<Rightarrow> string option \<Rightarrow> gatewayAdapter" where
  "NewAdapterWithVerify gw zero_cfg verifyKey = (NewAdapter gw zero_cfg)\<lparr>ga_verifyKey := verifyKey\<rparr>"

definition NewAdapterFull :: "gateway \<Rightarrow> Config \<Rightarrow> string option \<Rightarrow> peercache option \<Rightarrow> gatewayAdapter" where
  "NewAdapterFull gw zero_cfg verifyKey peerCache =
     (NewAdapter gw zero_cfg)\<lparr>ga_verifyKey := verifyKey, ga_peerCache := peerCache\<rparr>"

record DiscoveryDeps =
  dd_TokenStore :: "token_store option"
  dd_Broadcaster :: "Broadcaster option"
  dd_ConnectRes :: "Config option"
  dd_PolicyEng :: bool
  dd_PeerRegistry :: "peer_Registry option"
  dd_DiscoveryLimiter :: "Limiter option"
  dd_Metrics :: "metrics_Registry option"
  dd_NodeCfg :: Config

definition NewAdapterWithDiscovery ::
  "gateway \<Rightarrow> string option \<Rightarrow> peercache option \<Rightarrow> DiscoveryDeps \<Rightarrow> gatewayAdapter" where
  "NewAdapterWithDiscovery gw verifyKey peerCache deps =
     \<lparr>ga_gw = gw, ga_seqRecv = session_New, ga_verifyKey = verifyKey, ga_peerCache = peerCache,
      ga_tokenStore = dd_TokenStore deps, ga_broadcaster = dd_Broadcaster deps,
      ga_connectRes = dd_ConnectRes deps, ga_policyEng = dd_PolicyEng deps,
      ga_peerRegistry = dd_PeerRegistry deps, ga_discoveryLimiter = dd_DiscoveryLimiter deps,
      ga_metricsReg = dd_Metrics deps, ga_nodeCfg = dd_NodeCfg deps\<rparr>"

subsection \<open>Envelopes\<close>

text \<open>The copy whose signature is checked: the fields that are not copied are zero.\<close>

definition verify_view :: "Envelope \<Rightarrow> Envelope" where
  "verify_view env =
     env\<lparr>ev_SenderNodeID := '''', ev_SenderIdentity := '''', ev_RecipientIdentity := '''',
         ev_Signature := '''', ev_IsDummy := False\<rparr>"

definition check_sequence :: "Envelope \<Rightarrow> Tracker \<Rightarrow> Tracker" where
  "check_sequence env t =
     (if ev_SequenceNumber env > 0
      then snd (session_Validate (ev_SenderRegion env) (ev_SequenceNumber env) t) else t)"

definition bad_signature_response :: SendResponse where
  "bad_signature_response =
     \<lparr>rs_Decision = ''DENY'', rs_Reason = ''INVALID_SIGNATURE'', rs_Profile = '''', rs_NodeID = '''',
      rs_AuditRootHash = '''', rs_PeerAuditRootHash = ''''\<rparr>"

definition adapter_SendEnvelope ::
  "(string \<Rightarrow> string \<Rightarrow> string \<Rightarrow> bool) \<Rightarrow> (string \<Rightarrow> string) \<Rightarrow> (nat \<Rightarrow> int) \<Rightarrow> bool \<Rightarrow> ('e, 's) forward_fun option \<Rightarrow>
   bool \<Rightarrow> Envelope \<Rightarrow> gatewayAdapter \<Rightarrow> 's \<Rightarrow>
   (grpc_error + SendResponse) \<times> gatewayAdapter \<times> 's \<times> gw_event list" where
  "adapter_SendEnvelope ed_verify digest clk cancelled fwd nilp env a s =
     (let a1 = a\<lparr>ga_seqRecv := check_sequence env (ga_seqRecv a)\<rparr> in
      if (case ga_verifyKey a of
            None \<Rightarrow> False
          | Some key \<Rightarrow> identity_Verify ed_verify key nilp (verify_view env) (ev_Signature env) \<noteq> None)
      then (Inr bad_signature_response, a1, s, [])
      else case SendEnvelope digest clk cancelled fwd env (ga_gw a) s of
        (Inl ErrEmptyIdempotencyKey, g, s', evs) \<Rightarrow> (Inl InvalidArgument, a1\<lparr>ga_gw := g\<rparr>, s', evs)
      | (Inr resp, g, s', evs) \<Rightarrow> (Inr resp, a1\<lparr>ga_gw := g\<rparr>, s', evs))"

definition adapter_GetNodeInfo :: "gatewayAdapter \<Rightarrow> NodeInfo" where
  "adapter_GetNodeInfo a = GetNodeInfo (ga_gw a)"

definition ShareRootHash :: "RootHashMessage \<Rightarrow> gatewayAdapter \<Rightarrow> bool \<times> gatewayAdapter" where
  "ShareRootHash req a =
     (True, a\<lparr>ga_peerCache := map_option (peercache_Store (rh_NodeID req) (rh_RootHash req) (rh_Timestamp req))
                (ga_peerCache a)\<rparr>)"

subsection \<open>Discovery\<close>

definition no_match :: discovery_Response where
  "no_match = \<lparr>bp_NodeID = '''', bp_AppID = '''', bp_OpaqueToken = '''', bp_DisplayHint = '''',
     bp_MatchType = '''', bp_TokenExpires = 0\<rparr>"

text \<open>
  The search of the local apps: the first user for whom a token can be issued. \<open>users\<close> is
  the order of the two nested loops and \<open>rand\<close> the outcome of each read of random bytes.
\<close>

definition discovery_ttl :: "Config \<Rightarrow> int" where
  "discovery_ttl cfg =
     (if nc_DiscoveryTokenTTL (cfg_Node cfg) \<le> 0 then 5 * minute else nc_DiscoveryTokenTTL (cfg_Node cfg))"

fun local_search ::
  "(string \<Rightarrow> string) \<Rightarrow> Config \<Rightarrow> (nat \<Rightarrow> int) \<Rightarrow> (nat \<Rightarrow> string option) \<Rightarrow> string \<Rightarrow> (string \<times> UserConfig) list \<Rightarrow>
   nat \<Rightarrow> token_store \<Rightarrow> discovery_Response \<times> token_store" where
  "local_search H cfg clk rand origin [] n ts = (no_match, ts)"
| "local_search H cfg clk rand origin ((appID, u) # users) n ts =
     (let ttl = discovery_ttl cfg
      in case Issue H (clk (2 * n)) (rand n) appID origin ttl ts of
           (Inl _, ts1) \<Rightarrow> local_search H cfg clk rand origin users (Suc n) ts1
         | (Inr tok, ts1) \<Rightarrow>
             (\<lparr>bp_NodeID = nc_NodeID (cfg_Node cfg), bp_AppID = appID, bp_OpaqueToken = tok,
               bp_DisplayHint = uc_DisplayHint u, bp_MatchType = ''exact'',
               bp_TokenExpires = unix_milli (clk (2 * n + 1) + ttl)\<rparr>, ts1))"

definition app_users ::
  "(string \<rightharpoonup> AppConfig) \<Rightarrow> string list \<Rightarrow> (string \<Rightarrow> string list) \<Rightarrow> (string \<times> UserConfig) list" where
  "app_users apps aks uks =
     concat (map (\<lambda>a. case apps a of None \<Rightarrow> []
                      | Some app \<Rightarrow> map (Pair a) (List.map_filter (app_Users app) (uks a))) aks)"

definition BroadcastDiscovery ::
  "(rat \<Rightarrow> rat) \<Rightarrow> (string \<Rightarrow> string) \<Rightarrow> 'w peer_call \<Rightarrow> (nat \<Rightarrow> int) \<Rightarrow> (nat \<Rightarrow> string option) \<Rightarrow> string list \<Rightarrow>
   string list \<Rightarrow> (string \<Rightarrow> string list) \<Rightarrow> discovery_Request \<Rightarrow> gatewayAdapter \<Rightarrow> 'w \<Rightarrow>
   (grpc_error + discovery_Response) \<times> gatewayAdapter \<times> 'w" where
  "BroadcastDiscovery fl H call clk rand pks aks uks req a w =
     (case ga_tokenStore a of
        None \<Rightarrow> (Inr no_match, a, w)
      | Some ts \<Rightarrow>
        let (limited, a1) =
              (case ga_discoveryLimiter a of
                 None \<Rightarrow> (False, a)
               | Some l \<Rightarrow>
                   (case limiter_Allow fl (clk 0) (bq_OriginNodeID req) l of
                      (ok, l') \<Rightarrow> (\<not> ok, a\<lparr>ga_discoveryLimiter := Some l'\<rparr>)))
        in if limited then
             (Inl (ResourceExhausted (bq_OriginNodeID req)),
              a1\<lparr>ga_metricsReg := map_option IncRateLimitDeny (ga_metricsReg a1)\<rparr>, w)
           else if ga_policyEng a1 \<and>
                   res_Decision (EvaluateDiscovery
                     \<lparr>dr_OriginAppID = bq_OriginAppID req,
                      dr_NodeAppID = (case aks of [] \<Rightarrow> '''' | appID # _ \<Rightarrow> appID)\<rparr>
                     (engine_of (ga_gw a1))) = DecisionDeny
           then (Inr no_match, a1, w)
           else
             let (forwarded, a2, w2) =
                   (case ga_broadcaster a1 of
                      None \<Rightarrow> ([], a1, w)
                    | Some b \<Rightarrow>
                        (case Broadcast call pks (clk 1) (clk 2) req b w of
                           (rs, b', w') \<Rightarrow> (rs, a1\<lparr>ga_broadcaster := Some b'\<rparr>, w')))
             in case forwarded of
                  r # _ \<Rightarrow> (Inr r, a2, w2)
                | [] \<Rightarrow>
                    (case local_search H (ga_nodeCfg a2) (\<lambda>i. clk (3 + i)) rand (bq_OriginNodeID req)
                            (app_users (cfg_Apps (ga_nodeCfg a2)) aks uks) 0 ts of
                       (resp, ts') \<Rightarrow> (Inr resp, a2\<lparr>ga_tokenStore := Some ts'\<rparr>, w2)))"

subsection \<open>Connect\<close>

definition denied_ack :: "string \<Rightarrow> ConnectAck" where
  "denied_ack reason =
     \<lparr>ca_Status = StatusDenied, ca_SessionID = '''', ca_ExpiresAt = 0, ca_Reason = reason\<rparr>"

text \<open>\<open>clk 0\<close> to \<open>clk 2\<close> are the reads of the clock, \<open>tord\<close> the order of the token table.\<close>

definition adapter_Connect ::
  "(string \<Rightarrow> string) \<Rightarrow> (nat \<Rightarrow> int) \<Rightarrow> (token_store \<Rightarrow> string list) \<Rightarrow> string \<Rightarrow> ConnectRequest \<Rightarrow> gatewayAdapter \<Rightarrow>
   ConnectAck \<times> gatewayAdapter" where
  "adapter_Connect H clk tord uuid req a =
     (case ga_tokenStore a of
        None \<Rightarrow> (denied_ack ''discovery not enabled'', a)
      | Some ts \<Rightarrow>
        (case token_Resolve H (clk 0) (cq_OpaqueToken req) ts of
           (Inl _, ts1) \<Rightarrow> (denied_ack ''invalid or expired token'', a\<lparr>ga_tokenStore := Some ts1\<rparr>)
         | (Inr (appID, originNodeID), ts1) \<Rightarrow>
             if originNodeID \<noteq> cq_OriginNodeID req
             then (denied_ack ''token not issued for this node'', a\<lparr>ga_tokenStore := Some ts1\<rparr>)
             else
               let ts2 = token_Evict H (cq_OpaqueToken req) ts1;
                   resolved = (case ga_connectRes a of
                                 None \<Rightarrow> StatusPending
                               | Some r \<Rightarrow>
                                   resolver_Resolve
                                     \<lparr>cr_OriginNodeID = cq_OriginNodeID req, cr_OriginAppID = cq_OriginAppID req,
                                      cr_RecipientAppID = appID,
                                      cr_MutualDiscovery = HasActiveToken (tord ts2) (clk 1) (cq_OriginNodeID req) ts2\<rparr>
                                     r)
               in (\<lparr>ca_Status = resolved,
                    ca_SessionID = (if resolved = StatusAccepted then uuid else ''''),
                    ca_ExpiresAt = (if resolved = StatusAccepted then unix_milli (clk 2 + 24 * hour) else 0),
                    ca_Reason = ''''\<rparr>,
                   a\<lparr>ga_tokenStore := Some ts2\<rparr>)))"

subsection \<open>Peer exchange\<close>

definition peer_info_of :: "PeerEntry \<Rightarrow> PeerInfo" where
  "peer_info_of p =
     \<lparr>pi_NodeID = pe_NodeID p, pi_Addr = pe_Addr p, pi_NodeScope = pe_NodeScope p, pi_Region = pe_Region p,
      pi_LastSeen = 0\<rparr>"

definition peer_entry_of :: "PeerInfo \<Rightarrow> PeerEntry" where
  "peer_entry_of p =
     \<lparr>pe_NodeID = pi_NodeID p, pe_Addr = pi_Addr p, pe_NodeScope = pi_NodeScope p, pe_Region = pi_Region p,
      pe_LastSeen = unix_sec (pi_LastSeen p)\<rparr>"

definition merge_peers :: "int \<Rightarrow> string \<Rightarrow> PeerListRequest \<Rightarrow> peer_Registry \<Rightarrow> peer_Registry" where
  "merge_peers now self req r =
     (let r1 = fold (\<lambda>p. Announce now (peer_info_of p)) (pl_KnownPeers req) r in
      if pl_SenderNodeID req \<noteq> '''' \<and> pl_SenderNodeID req \<noteq> self
      then fold (\<lambda>p r. if pe_NodeID p = pl_SenderNodeID req then Announce now (peer_info_of p) r else r)
             (pl_KnownPeers req) r1
      else r1)"

definition ExchangePeers ::
  "int \<Rightarrow> (peer_Registry \<Rightarrow> string list) \<Rightarrow> PeerListRequest \<Rightarrow> gatewayAdapter \<Rightarrow> PeerEntry list \<times> gatewayAdapter" where
  "ExchangePeers now pord req a =
     (case ga_peerRegistry a of
        None \<Rightarrow> ([], a)
      | Some r \<Rightarrow>
          (let r' = merge_peers now (nc_NodeID (cfg_Node (ga_nodeCfg a))) req r
           in (map peer_entry_of (Known (pord r') r'), a\<lparr>ga_peerRegistry := Some r'\<rparr>)))"

subsection \<open>Envelopes: what an answer implies\<close>

lemma verify_view_signed: "canonicalPayload b (verify_view env) = canonicalPayload b env"
  by (rule canonicalPayload_part) (simp add: signed_part_def verify_view_def)

definition signature_ok :: "(string \<Rightarrow> string \<Rightarrow> string \<Rightarrow> bool) \<Rightarrow> bool \<Rightarrow> Envelope \<Rightarrow> gatewayAdapter \<Rightarrow> bool" where
  "signature_ok ed_verify nilp env a \<longleftrightarrow>
     (\<forall>key. ga_verifyKey a = Some key \<longrightarrow>
        ev_Signature env \<noteq> '''' \<and> ed_verify key (canonicalPayload nilp env) (ev_Signature env))"

lemma signature_ok_iff:
  "signature_ok ed_verify nilp env a \<longleftrightarrow>
     \<not> (case ga_verifyKey a of
          None \<Rightarrow> False
        | Some key \<Rightarrow> identity_Verify ed_verify key nilp (verify_view env) (ev_Signature env) \<noteq> None)"
  by (auto simp: signature_ok_def identity_Verify_def verify_view_signed split: option.splits)

lemma adapter_SendEnvelope_rejected:
  assumes "\<not> signature_ok ed_verify nilp env a"
  shows "adapter_SendEnvelope ed_verify digest clk c fwd nilp env a s =
    (Inr bad_signature_response, a\<lparr>ga_seqRecv := check_sequence env (ga_seqRecv a)\<rparr>, s, [])"
  using assms by (simp add: adapter_SendEnvelope_def signature_ok_iff Let_def)

lemma adapter_SendEnvelope_passed:
  assumes "signature_ok ed_verify nilp env a"
    and "SendEnvelope digest clk c fwd env (ga_gw a) s = (res, g, s', evs)"
  shows "adapter_SendEnvelope ed_verify digest clk c fwd nilp env a s =
    (case res of Inl _ \<Rightarrow> Inl InvalidArgument | Inr r \<Rightarrow> Inr r,
     a\<lparr>ga_seqRecv := check_sequence env (ga_seqRecv a), ga_gw := g\<rparr>, s', evs)"
  using assms
  by (cases res) (auto simp: adapter_SendEnvelope_def signature_ok_iff Let_def split: gateway_error.splits)

lemma adapter_SendEnvelope_inv:
  assumes "gw_inv digest (ga_gw a)"
    and "adapter_SendEnvelope ed_verify digest clk c fwd nilp env a s = (res, a', s', evs)"
  shows "gw_inv digest (ga_gw a')"
proof (cases "signature_ok ed_verify nilp env a")
  case True
  obtain r g s1 e1 where r: "SendEnvelope digest clk c fwd env (ga_gw a) s = (r, g, s1, e1)"
    by (metis prod_cases4)
  then show ?thesis
    using assms(2) adapter_SendEnvelope_passed [OF True r] SendEnvelope_inv [OF assms(1) r] by auto
next
  case False
  then show ?thesis
    using assms adapter_SendEnvelope_rejected [OF False, where digest = digest and clk = clk and c = c and fwd = fwd and s = s]
    by auto
qed

subsection \<open>Discovery and connect: the life of a token\<close>

lemma discovery_ttl_pos: "0 < discovery_ttl cfg"
  by (simp add: discovery_ttl_def duration_defs)

definition issued_locally ::
  "(string \<Rightarrow> string) \<Rightarrow> Config \<Rightarrow> (nat \<Rightarrow> int) \<Rightarrow> string \<Rightarrow> (string \<times> UserConfig) list \<Rightarrow> token_store \<Rightarrow>
   discovery_Response \<Rightarrow> token_store \<Rightarrow> bool" where
  "issued_locally H cfg clk origin users ts resp ts' \<longleftrightarrow>
     (\<exists>u i. (bp_AppID resp, u) \<in> set users \<and> bp_NodeID resp = nc_NodeID (cfg_Node cfg) \<and>
        ts' = ts(H (bp_OpaqueToken resp) \<mapsto>
          \<lparr>tk_appID = bp_AppID resp, tk_originNodeID = origin, tk_expires = clk i + discovery_ttl cfg\<rparr>))"

lemma local_search_result:
  assumes "local_search H cfg clk rand origin users n ts = (resp, ts')"
  shows "resp = no_match \<and> ts' = ts \<or> issued_locally H cfg clk origin users ts resp ts'"
  using assms
proof (induction users arbitrary: n)
  case (Cons x users)
  obtain appID u where x: "x = (appID, u)" by force
  show ?case
  proof (cases "rand n")
    case None
    then have "local_search H cfg clk rand origin users (Suc n) ts = (resp, ts')"
      using Cons.prems by (simp add: x Issue_def Let_def)
    from Cons.IH [OF this] show ?thesis by (auto simp: issued_locally_def)
  next
    case (Some raw)
    then have "bp_AppID resp = appID" "bp_NodeID resp = nc_NodeID (cfg_Node cfg)"
      "ts' = ts(H (bp_OpaqueToken resp) \<mapsto>
          \<lparr>tk_appID = appID, tk_originNodeID = origin, tk_expires = clk (2 * n) + discovery_ttl cfg\<rparr>)"
      using Cons.prems by (auto simp: x Issue_def Let_def)
    then show ?thesis unfolding issued_locally_def by (intro disjI2 exI [of _ u] exI [of _ "2 * n"]) (simp add: x)
  qed
qed simp

lemma local_search_live:
  assumes "users \<noteq> []" "rand n \<noteq> None"
  shows "\<exists>resp ts'. local_search H cfg clk rand origin users n ts = (resp, ts') \<and>
    issued_locally H cfg clk origin users ts resp ts'"
proof -
  obtain resp ts' where r: "local_search H cfg clk rand origin users n ts = (resp, ts')" by force
  obtain appID u us raw where u: "users = (appID, u) # us" "rand n = Some raw"
    using assms by (metis list.exhaust option.exhaust surj_pair)
  have "bp_MatchType resp = ''exact''" using r u by (auto simp: Issue_def Let_def)
  then have "resp \<noteq> no_match" by (auto simp: no_match_def)
  then show ?thesis using local_search_result [OF r] r by blast
qed

lemma adapter_Connect_accepts:
  assumes "ga_tokenStore a = Some ts" "ts (H (cq_OpaqueToken req)) = Some e"
    and "clk 0 \<le> tk_expires e" "tk_originNodeID e = cq_OriginNodeID req"
  obtains ack ts' where "adapter_Connect H clk tord uuid req a = (ack, a\<lparr>ga_tokenStore := Some ts'\<rparr>)"
    "ca_Status ack \<noteq> StatusDenied" "ts' = ts(H (cq_OpaqueToken req) := None)"
proof -
  have "resolver_Resolve r c \<noteq> StatusDenied" "StatusPending \<noteq> StatusDenied" for r c
    using resolver_Resolve_range [of r c] by (auto simp: status_defs)
  then show thesis
    using assms by (intro that) (auto simp: adapter_Connect_def token_Resolve_def token_Evict_def Let_def split: option.splits)
qed

lemma adapter_Connect_not_denied:
  assumes "adapter_Connect H clk tord uuid req a = (ack, a')" "ca_Status ack \<noteq> StatusDenied"
  obtains ts e where "ga_tokenStore a = Some ts" "ts (H (cq_OpaqueToken req)) = Some e"
    "clk 0 \<le> tk_expires e" "tk_originNodeID e = cq_OriginNodeID req"
    "a' = a\<lparr>ga_tokenStore := Some (ts(H (cq_OpaqueToken req) := None))\<rparr>"
  using assms
  by (auto simp: adapter_Connect_def token_Resolve_def token_Evict_def Let_def denied_ack_def
      split: option.splits if_splits)

lemma adapter_Connect_spent:
  assumes "ga_tokenStore a = Some ts" "ts (H (cq_OpaqueToken req)) = None"
  shows "ca_Status (fst (adapter_Connect H clk tord uuid req a)) = StatusDenied"
  using assms by (simp add: adapter_Connect_def token_Resolve_def denied_ack_def)

subsection \<open>Peer exchange keeps the registry consistent\<close>

lemma registry_inv_fold:
  "(\<And>p r. registry_inv r \<Longrightarrow> registry_inv (f p r)) \<Longrightarrow> registry_inv r \<Longrightarrow> registry_inv (fold f ps r)"
  by (induction ps arbitrary: r) auto

lemma merge_peers_inv: "registry_inv r \<Longrightarrow> registry_inv (merge_peers now self req r)"
  unfolding merge_peers_def Let_def by (auto intro!: registry_inv_fold registry_inv_ops)

lemma fold_Announce_known:
  "p \<in> set ps \<Longrightarrow> \<exists>q. fold (\<lambda>p. Announce now (peer_info_of p)) ps r (pe_NodeID p) = Some q \<and> pi_LastSeen q = now"
proof (induction ps arbitrary: r rule: rev_induct)
  case (snoc x ps)
  then show ?case by (auto simp: Announce_def peer_info_of_def)
qed simp

subsection \<open>Properties\<close>


definition demo_adapter_gateway :: gateway where
  "demo_adapter_gateway =
     NewGateway DefaultBalancedConfig
       \<lparr>en_cfg = DefaultBalancedConfig, en_audit = Some audit_New, en_crl = None\<rparr> audit_New (dedup_New hour)"

definition demo_adapter :: gatewayAdapter where
  "demo_adapter = (NewAdapterWithVerify demo_adapter_gateway DefaultBalancedConfig (Some ''pk''))
     \<lparr>ga_tokenStore := Some token_New, ga_connectRes := Some DefaultBalancedConfig\<rparr>"


text \<open>
  Connecting takes the right token, once. A connect request that is not denied presented
  an unexpired token issued to the requesting node; the token is gone afterwards, so the
  same request, or any other with a token of that hash, is denied.
\<close>

theorem connect_consumes_token:
  assumes "adapter_Connect H clk tord uuid req a = (ack, a')" "ca_Status ack \<noteq> StatusDenied"
    and "H (cq_OpaqueToken req') = H (cq_OpaqueToken req)"
  shows "(\<exists>ts e. ga_tokenStore a = Some ts \<and> ts (H (cq_OpaqueToken req)) = Some e \<and>
      clk 0 \<le> tk_expires e \<and> tk_originNodeID e = cq_OriginNodeID req) \<and>
    ca_Status (fst (adapter_Connect H clk' tord' uuid' req' a')) = StatusDenied"
proof -
  obtain ts e where t: "ga_tokenStore a = Some ts" "ts (H (cq_OpaqueToken req)) = Some e"
    "clk 0 \<le> tk_expires e" "tk_originNodeID e = cq_OriginNodeID req"
    "a' = a\<lparr>ga_tokenStore := Some (ts(H (cq_OpaqueToken req) := None))\<rparr>"
    by (rule adapter_Connect_not_denied [OF assms(1,2)])
  have "ca_Status (fst (adapter_Connect H clk' tord' uuid' req' a')) = StatusDenied"
    by (rule adapter_Connect_spent [where ts = "ts(H (cq_OpaqueToken req) := None)"]) (simp_all add: t assms(3))
  then show ?thesis using t by blast
qed

definition demo_connect :: ConnectRequest where
  "demo_connect = \<lparr>cq_OpaqueToken = ''t'', cq_OriginNodeID = ''n1'', cq_OriginAppID = ''app'', cq_RequestID = ''r1''\<rparr>"

definition demo_tokens :: token_store where
  "demo_tokens = [''t'' \<mapsto> \<lparr>tk_appID = ''app'', tk_originNodeID = ''n1'', tk_expires = 10\<rparr>]"

lemma demo_connect_ack:
  "\<exists>ack a'. adapter_Connect (\<lambda>x. x) (\<lambda>_. 5) (\<lambda>_. []) ''u'' demo_connect (demo_adapter\<lparr>ga_tokenStore := Some demo_tokens\<rparr>) =
     (ack, a') \<and> ca_Status ack \<noteq> StatusDenied"
  by (rule adapter_Connect_accepts [where a = "demo_adapter\<lparr>ga_tokenStore := Some demo_tokens\<rparr>" and ts = demo_tokens
        and H = "\<lambda>x. x" and req = demo_connect and clk = "\<lambda>_. 5"
        and e = "\<lparr>tk_appID = ''app'', tk_originNodeID = ''n1'', tk_expires = 10\<rparr>"])
     (auto simp: demo_tokens_def demo_connect_def)

theorem connect_consumes_token_witness:
  "\<exists>ack a'. adapter_Connect (\<lambda>x. x) (\<lambda>_. 5) (\<lambda>_. []) ''u'' demo_connect (demo_adapter\<lparr>ga_tokenStore := Some demo_tokens\<rparr>) =
     (ack, a') \<and> ca_Status ack \<noteq> StatusDenied \<and>
     ca_Status (fst (adapter_Connect (\<lambda>x. x) (\<lambda>_. 6) (\<lambda>_. []) ''v'' demo_connect a')) = StatusDenied"
proof -
  obtain ack a' where c: "adapter_Connect (\<lambda>x. x) (\<lambda>_. 5) (\<lambda>_. []) ''u'' demo_connect
      (demo_adapter\<lparr>ga_tokenStore := Some demo_tokens\<rparr>) = (ack, a')" "ca_Status ack \<noteq> StatusDenied"
    using demo_connect_ack by blast
  then show ?thesis using connect_consumes_token [OF c, of demo_connect] by blast
qed

text \<open>
  Discovery leads to a connection. When a discovery request finds no peer answer and the
  node serves at least one user, and random bytes can be read, the answer carries a token;
  the requesting node can connect with it until the token expires, and is not denied.
\<close>

theorem discovered_token_connects:
  assumes "ga_tokenStore a = Some ts" "ga_discoveryLimiter a = None" "\<not> ga_policyEng a" "ga_broadcaster a = None"
    and "app_users (cfg_Apps (ga_nodeCfg a)) aks uks \<noteq> []" "rand 0 \<noteq> None"
    and "BroadcastDiscovery fl H call clk rand pks aks uks req a w = (res, a', w')"
  shows "\<exists>resp t. res = Inr resp \<and> t \<in> range clk \<and>
    (\<forall>creq clk' tord uuid. cq_OpaqueToken creq = bp_OpaqueToken resp \<longrightarrow>
       cq_OriginNodeID creq = bq_OriginNodeID req \<longrightarrow> clk' 0 \<le> t + discovery_ttl (ga_nodeCfg a) \<longrightarrow>
       ca_Status (fst (adapter_Connect H clk' tord uuid creq a')) \<noteq> StatusDenied)"
proof -
  obtain resp ts' where ls: "local_search H (ga_nodeCfg a) (\<lambda>i. clk (3 + i)) rand (bq_OriginNodeID req)
      (app_users (cfg_Apps (ga_nodeCfg a)) aks uks) 0 ts = (resp, ts')"
    "issued_locally H (ga_nodeCfg a) (\<lambda>i. clk (3 + i)) (bq_OriginNodeID req)
      (app_users (cfg_Apps (ga_nodeCfg a)) aks uks) ts resp ts'"
    using local_search_live [of "app_users (cfg_Apps (ga_nodeCfg a)) aks uks" rand 0] assms(5,6) by blast
  then have res: "res = Inr resp" "a' = a\<lparr>ga_tokenStore := Some ts'\<rparr>"
    using assms by (auto simp: BroadcastDiscovery_def)
  obtain i where i: "ts' (H (bp_OpaqueToken resp)) = Some \<lparr>tk_appID = bp_AppID resp,
      tk_originNodeID = bq_OriginNodeID req, tk_expires = clk (3 + i) + discovery_ttl (ga_nodeCfg a)\<rparr>"
    using ls(2) by (auto simp: issued_locally_def)
  have "ca_Status (fst (adapter_Connect H clk' tord uuid creq a')) \<noteq> StatusDenied"
    if "cq_OpaqueToken creq = bp_OpaqueToken resp" "cq_OriginNodeID creq = bq_OriginNodeID req"
      "clk' 0 \<le> clk (3 + i) + discovery_ttl (ga_nodeCfg a)" for creq clk' tord uuid
    by (rule adapter_Connect_accepts [where a = a' and ts = ts' and H = H and req = creq and clk = clk' and tord = tord
          and uuid = uuid and e = "\<lparr>tk_appID = bp_AppID resp, tk_originNodeID = bq_OriginNodeID req,
            tk_expires = clk (3 + i) + discovery_ttl (ga_nodeCfg a)\<rparr>"])
       (use that i in \<open>simp_all add: res\<close>)
  then show ?thesis using res(1) by blast
qed

definition demo_serving :: gatewayAdapter where
  "demo_serving = demo_adapter\<lparr>ga_nodeCfg := DefaultBalancedConfig\<lparr>cfg_Apps := [''app'' \<mapsto>
     \<lparr>app_WebhookURL = '''', app_WebhookSecret = '''', app_WebhookTimeout = 5, app_AutoAccept = ''manual'',
      app_Users = [''u1'' \<mapsto> \<lparr>uc_DisplayHint = ''Ana'', uc_Region = ''RS''\<rparr>]\<rparr>]\<rparr>\<rparr>"

definition demo_query :: discovery_Request where
  "demo_query = \<lparr>bq_QueryHash = ''h'', bq_QueryType = '''', bq_OriginNodeID = ''n1'', bq_OriginAppID = ''app'',
     bq_HopLimit = 2, bq_RequestID = ''q1'', bq_Timestamp = 0\<rparr>"

theorem discovered_token_connects_witness:
  "\<exists>resp a' w'. BroadcastDiscovery (\<lambda>x. x) (\<lambda>x. x) (\<lambda>_ _ w. (None, w)) (\<lambda>_. 0) (\<lambda>_. Some ''0123'') [] [''app''] (\<lambda>_. [''u1''])
       demo_query demo_serving () = (Inr resp, a', w') \<and>
     ca_Status (fst (adapter_Connect (\<lambda>x. x) (\<lambda>_. 0) (\<lambda>_. []) ''u''
       \<lparr>cq_OpaqueToken = bp_OpaqueToken resp, cq_OriginNodeID = ''n1'', cq_OriginAppID = ''app'', cq_RequestID = ''''\<rparr> a'))
       \<noteq> StatusDenied"
proof -
  obtain res a' w' where r: "BroadcastDiscovery (\<lambda>x. x) (\<lambda>x. x) (\<lambda>_ _ w. (None, w)) (\<lambda>_. 0) (\<lambda>_. Some ''0123'') [] [''app'']
      (\<lambda>_. [''u1'']) demo_query demo_serving () = (res, a', w')" by (metis prod_cases3)
  have u: "app_users (cfg_Apps (ga_nodeCfg demo_serving)) [''app''] (\<lambda>_. [''u1'']) \<noteq> []"
    by (simp add: demo_serving_def app_users_def List.map_filter_def)
  have d: "0 \<le> discovery_ttl (ga_nodeCfg demo_serving)" using discovery_ttl_pos by (rule less_imp_le)
  have "ga_tokenStore demo_serving = Some token_New" "ga_discoveryLimiter demo_serving = None"
    "\<not> ga_policyEng demo_serving" "ga_broadcaster demo_serving = None"
    by (simp_all add: demo_serving_def demo_adapter_def NewAdapterWithVerify_def NewAdapter_def)
  note D = discovered_token_connects [OF this u _ r]
  obtain resp where R: "res = Inr resp" "\<And>creq. cq_OpaqueToken creq = bp_OpaqueToken resp \<Longrightarrow> cq_OriginNodeID creq = ''n1'' \<Longrightarrow>
      ca_Status (fst (adapter_Connect (\<lambda>x. x) (\<lambda>_. 0) (\<lambda>_. []) ''u'' creq a')) \<noteq> StatusDenied"
    using D d by (auto simp: demo_query_def)
  then show ?thesis using r by auto
qed

text \<open>
  Under AUTO\_MUTUAL a node that holds a single token is never accepted: the token it
  presents is evicted before the check for an active token, so the request stays pending.
\<close>

theorem auto_mutual_single_token_pending:
  assumes "ga_tokenStore a = Some ts" "ga_connectRes a = Some r" "connect_mode r = ''AUTO_MUTUAL''"
    and "\<forall>k e. ts k = Some e \<longrightarrow> tk_originNodeID e = cq_OriginNodeID req \<longrightarrow> k = H (cq_OpaqueToken req)"
    and "enumerates (tord (ts(H (cq_OpaqueToken req) := None))) (ts(H (cq_OpaqueToken req) := None))"
  shows "ca_Status (fst (adapter_Connect H clk tord uuid req a)) \<noteq> StatusAccepted"
proof -
  let ?ts = "ts(H (cq_OpaqueToken req) := None)"
  have "\<not> HasActiveToken (tord ?ts) now (cq_OriginNodeID req) ?ts" for now
    using assms(4) by (auto simp: HasActiveToken_iff [OF assms(5)])
  then show ?thesis
    using assms(1-3)
    by (auto simp: adapter_Connect_def token_Resolve_def token_Evict_def resolver_Resolve_def denied_ack_def
        status_defs Let_def split: option.splits if_splits)
qed

definition mutual_config :: Config where
  "mutual_config = DefaultBalancedConfig\<lparr>cfg_Policy := (cfg_Policy DefaultBalancedConfig)
     \<lparr>pol_Connect := \<lparr>cp_AutoAccept = ''AUTO_MUTUAL'', cp_TrustedNodes = []\<rparr>\<rparr>\<rparr>"

lemma mutual_config_mode: "connect_mode mutual_config = ''AUTO_MUTUAL''"
proof -
  have "trim_space ''AUTO_MUTUAL'' = ''AUTO_MUTUAL''" by (rule trim_space_graphic; simp add: graphic_def)
  then show ?thesis by (simp add: connect_mode_def mutual_config_def to_upper_def to_upper_char_def Let_def)
qed

theorem auto_mutual_single_token_pending_witness:
  "ca_Status (fst (adapter_Connect (\<lambda>x. x) (\<lambda>_. 5) (\<lambda>_. []) ''u'' demo_connect
     (demo_adapter\<lparr>ga_tokenStore := Some demo_tokens, ga_connectRes := Some mutual_config\<rparr>))) \<noteq> StatusAccepted"
  by (rule auto_mutual_single_token_pending [OF _ _ mutual_config_mode])
     (auto simp: demo_tokens_def demo_connect_def split: if_splits)

end
