(* ===== verification/Grpc.thy ===== *)
theory Grpc
  imports Adapter Gateway_Runs
begin

text \<open>
  The gRPC service (\<open>internal/transport/grpc/service.go\<close>): the registration table and the six
  method handlers over the adapter. A request arrives as the outcome of decoding its body; an
  interceptor gets the decoded request, the method name and the handler to continue with,
  which refuses a request of another type. The state is the adapter, the forwarder with its
  environment, and the callbacks that have run.
\<close>

datatype rpc_request =
    SendEnvelopeRequest Envelope
  | GetNodeInfoRequest
  | ShareRootHashRequest RootHashMessage
  | BroadcastDiscoveryRequest discovery_Request
  | ConnectPeerRequest ConnectRequest
  | ExchangePeersRequest PeerListRequest

datatype rpc_response =
    SendEnvelopeResponse SendResponse
  | GetNodeInfoResponse NodeInfo
  | RootHashAck bool
  | DiscoveryResponse discovery_Response
  | ConnectAckResponse ConnectAck
  | PeerListResponse "PeerEntry list"

record 'w grpc_env =
  ge_ed_verify :: "string \<Rightarrow> string \<Rightarrow> string \<Rightarrow> bool"
  ge_digest :: "string \<Rightarrow> string"
  ge_clk :: "nat \<Rightarrow> int"
  ge_cancelled :: bool
  ge_fwd :: "(fwd_error, forwarder \<times> 'w) forward_fun option"
  ge_nilp :: bool
  ge_fl :: "rat \<Rightarrow> rat"
  ge_H :: "string \<Rightarrow> string"
  ge_call :: "'w peer_call"
  ge_rand :: "nat \<Rightarrow> string option"
  ge_pks :: "string list"
  ge_aks :: "string list"
  ge_uks :: "string \<Rightarrow> string list"
  ge_tord :: "token_store \<Rightarrow> string list"
  ge_pord :: "peer_Registry \<Rightarrow> string list"
  ge_uuid :: string

record 'w grpc_state =
  gs_adapter :: gatewayAdapter
  gs_fwd :: forwarder
  gs_world :: 'w
  gs_events :: "gw_event list"

type_synonym 'w rpc_result = "(grpc_error + rpc_response) \<times> 'w grpc_state"

subsection \<open>The methods of the adapter\<close>

definition svc_SendEnvelope :: "'w grpc_env \<Rightarrow> Envelope \<Rightarrow> 'w grpc_state \<Rightarrow> 'w rpc_result" where
  "svc_SendEnvelope G env st =
     (case adapter_SendEnvelope (ge_ed_verify G) (ge_digest G) (ge_clk G) (ge_cancelled G) (ge_fwd G) (ge_nilp G)
             env (gs_adapter st) (gs_fwd st, gs_world st) of
        (r, a, (f, w), evs) \<Rightarrow>
          (map_sum id SendEnvelopeResponse r,
           st\<lparr>gs_adapter := a, gs_fwd := f, gs_world := w, gs_events := gs_events st @ evs\<rparr>))"

definition svc_GetNodeInfo :: "'w grpc_env \<Rightarrow> 'w grpc_state \<Rightarrow> 'w rpc_result" where
  "svc_GetNodeInfo G st = (Inr (GetNodeInfoResponse (adapter_GetNodeInfo (gs_adapter st))), st)"

definition svc_ShareRootHash :: "'w grpc_env \<Rightarrow> RootHashMessage \<Rightarrow> 'w grpc_state \<Rightarrow> 'w rpc_result" where
  "svc_ShareRootHash G req st =
     (case ShareRootHash req (gs_adapter st) of (ok, a) \<Rightarrow> (Inr (RootHashAck ok), st\<lparr>gs_adapter := a\<rparr>))"

definition svc_BroadcastDiscovery :: "'w grpc_env \<Rightarrow> discovery_Request \<Rightarrow> 'w grpc_state \<Rightarrow> 'w rpc_result" where
  "svc_BroadcastDiscovery G req st =
     (case BroadcastDiscovery (ge_fl G) (ge_H G) (ge_call G) (ge_clk G) (ge_rand G) (ge_pks G) (ge_aks G) (ge_uks G)
             req (gs_adapter st) (gs_world st) of
        (r, a, w) \<Rightarrow> (map_sum id DiscoveryResponse r, st\<lparr>gs_adapter := a, gs_world := w\<rparr>))"

definition svc_Connect :: "'w grpc_env \<Rightarrow> ConnectRequest \<Rightarrow> 'w grpc_state \<Rightarrow> 'w rpc_result" where
  "svc_Connect G req st =
     (case adapter_Connect (ge_H G) (ge_clk G) (ge_tord G) (ge_uuid G) req (gs_adapter st) of
        (ack, a) \<Rightarrow> (Inr (ConnectAckResponse ack), st\<lparr>gs_adapter := a\<rparr>))"

definition svc_ExchangePeers :: "'w grpc_env \<Rightarrow> PeerListRequest \<Rightarrow> 'w grpc_state \<Rightarrow> 'w rpc_result" where
  "svc_ExchangePeers G req st =
     (case ExchangePeers (ge_clk G 0) (ge_pord G) req (gs_adapter st) of
        (ps, a) \<Rightarrow> (Inr (PeerListResponse ps), st\<lparr>gs_adapter := a\<rparr>))"

subsection \<open>Handlers\<close>

type_synonym 'w interceptor =
  "rpc_request \<Rightarrow> string \<Rightarrow> (rpc_request \<Rightarrow> 'w grpc_state \<Rightarrow> 'w rpc_result) \<Rightarrow> 'w grpc_state \<Rightarrow> 'w rpc_result"

definition unary_handler ::
  "(rpc_request \<Rightarrow> 'q option) \<Rightarrow> ('q \<Rightarrow> rpc_request) \<Rightarrow> string \<Rightarrow> ('q \<Rightarrow> 'w grpc_state \<Rightarrow> 'w rpc_result) \<Rightarrow>
   'q option \<Rightarrow> 'w interceptor option \<Rightarrow> 'w grpc_state \<Rightarrow> 'w rpc_result" where
  "unary_handler prj wrap fullMethod svc decoded interceptor st =
     (case decoded of
        None \<Rightarrow> (Inl InvalidArgument, st)
      | Some request \<Rightarrow>
          (case interceptor of
             None \<Rightarrow> svc request st
           | Some ic \<Rightarrow>
               ic (wrap request) fullMethod
                 (\<lambda>req st. case prj req of None \<Rightarrow> (Inl Internal, st) | Some typed \<Rightarrow> svc typed st) st))"

definition sendEnvelopeHandler where
  "sendEnvelopeHandler (G :: 'w grpc_env) =
     unary_handler (\<lambda>q. case q of SendEnvelopeRequest e \<Rightarrow> Some e | _ \<Rightarrow> None) SendEnvelopeRequest
       ''/mrmi.v1.GatewayService/SendEnvelope'' (svc_SendEnvelope G)"

definition getNodeInfoHandler where
  "getNodeInfoHandler (G :: 'w grpc_env) =
     unary_handler (\<lambda>q. case q of GetNodeInfoRequest \<Rightarrow> Some () | _ \<Rightarrow> None) (\<lambda>_. GetNodeInfoRequest)
       ''/mrmi.v1.GatewayService/GetNodeInfo'' (\<lambda>_. svc_GetNodeInfo G)"

definition shareRootHashHandler where
  "shareRootHashHandler (G :: 'w grpc_env) =
     unary_handler (\<lambda>q. case q of ShareRootHashRequest m \<Rightarrow> Some m | _ \<Rightarrow> None) ShareRootHashRequest
       ''/mrmi.v1.GatewayService/ShareRootHash'' (svc_ShareRootHash G)"

definition broadcastDiscoveryHandler where
  "broadcastDiscoveryHandler (G :: 'w grpc_env) =
     unary_handler (\<lambda>q. case q of BroadcastDiscoveryRequest d \<Rightarrow> Some d | _ \<Rightarrow> None) BroadcastDiscoveryRequest
       ''/mrmi.v1.GatewayService/BroadcastDiscovery'' (svc_BroadcastDiscovery G)"

definition connectHandler where
  "connectHandler (G :: 'w grpc_env) =
     unary_handler (\<lambda>q. case q of ConnectPeerRequest c \<Rightarrow> Some c | _ \<Rightarrow> None) ConnectPeerRequest
       ''/mrmi.v1.GatewayService/Connect'' (svc_Connect G)"

definition exchangePeersHandler where
  "exchangePeersHandler (G :: 'w grpc_env) =
     unary_handler (\<lambda>q. case q of ExchangePeersRequest p \<Rightarrow> Some p | _ \<Rightarrow> None) ExchangePeersRequest
       ''/mrmi.v1.GatewayService/ExchangePeers'' (svc_ExchangePeers G)"

text \<open>The table of \<open>RegisterGatewayService\<close>; a body of the wrong shape does not decode.\<close>

definition GatewayService ::
  "'w grpc_env \<Rightarrow> string \<Rightarrow> rpc_request option \<Rightarrow> 'w interceptor option \<Rightarrow> 'w grpc_state \<Rightarrow> 'w rpc_result option" where
  "GatewayService G methodName body ic st =
     (if methodName = ''SendEnvelope'' then
        Some (sendEnvelopeHandler G (case body of Some (SendEnvelopeRequest e) \<Rightarrow> Some e | _ \<Rightarrow> None) ic st)
      else if methodName = ''GetNodeInfo'' then
        Some (getNodeInfoHandler G (case body of Some GetNodeInfoRequest \<Rightarrow> Some () | _ \<Rightarrow> None) ic st)
      else if methodName = ''ShareRootHash'' then
        Some (shareRootHashHandler G (case body of Some (ShareRootHashRequest m) \<Rightarrow> Some m | _ \<Rightarrow> None) ic st)
      else if methodName = ''BroadcastDiscovery'' then
        Some (broadcastDiscoveryHandler G (case body of Some (BroadcastDiscoveryRequest d) \<Rightarrow> Some d | _ \<Rightarrow> None) ic st)
      else if methodName = ''Connect'' then
        Some (connectHandler G (case body of Some (ConnectPeerRequest c) \<Rightarrow> Some c | _ \<Rightarrow> None) ic st)
      else if methodName = ''ExchangePeers'' then
        Some (exchangePeersHandler G (case body of Some (ExchangePeersRequest p) \<Rightarrow> Some p | _ \<Rightarrow> None) ic st)
      else None)"

subsection \<open>What a call does\<close>

lemmas handler_defs = sendEnvelopeHandler_def getNodeInfoHandler_def shareRootHashHandler_def
  broadcastDiscoveryHandler_def connectHandler_def exchangePeersHandler_def unary_handler_def

definition serve :: "'w grpc_env \<Rightarrow> rpc_request \<Rightarrow> 'w grpc_state \<Rightarrow> 'w rpc_result" where
  "serve G req =
     (case req of
        SendEnvelopeRequest e \<Rightarrow> svc_SendEnvelope G e
      | GetNodeInfoRequest \<Rightarrow> svc_GetNodeInfo G
      | ShareRootHashRequest m \<Rightarrow> svc_ShareRootHash G m
      | BroadcastDiscoveryRequest d \<Rightarrow> svc_BroadcastDiscovery G d
      | ConnectPeerRequest c \<Rightarrow> svc_Connect G c
      | ExchangePeersRequest p \<Rightarrow> svc_ExchangePeers G p)"

lemma GatewayService_serves:
  assumes "GatewayService G m body None st = Some (res, st')"
  shows "(res = Inl InvalidArgument \<and> st' = st) \<or> (\<exists>req. body = Some req \<and> serve G req st = (res, st'))"
  using assms
  by (cases body; cases "the body")
     (auto simp: GatewayService_def handler_defs serve_def split: if_splits)

lemma BroadcastDiscovery_frame:
  assumes "BroadcastDiscovery fl H call clk rand pks aks uks req a w = (r, a', w')"
  shows "ga_gw a' = ga_gw a \<and> ga_peerRegistry a' = ga_peerRegistry a \<and> ga_peerCache a' = ga_peerCache a"
  using assms
  by (auto simp: BroadcastDiscovery_def Let_def split: option.splits prod.splits if_splits list.splits)

lemma adapter_Connect_frame:
  "ga_gw (snd (adapter_Connect H clk tord uuid req a)) = ga_gw a \<and>
   ga_peerRegistry (snd (adapter_Connect H clk tord uuid req a)) = ga_peerRegistry a \<and>
   ga_peerCache (snd (adapter_Connect H clk tord uuid req a)) = ga_peerCache a \<and>
   ga_metricsReg (snd (adapter_Connect H clk tord uuid req a)) = ga_metricsReg a"
  by (auto simp: adapter_Connect_def Let_def split: option.splits prod.splits sum.splits)

lemma ExchangePeers_frame:
  "ga_gw (snd (ExchangePeers now pord req a)) = ga_gw a \<and> ga_peerCache (snd (ExchangePeers now pord req a)) = ga_peerCache a \<and>
   ga_metricsReg (snd (ExchangePeers now pord req a)) = ga_metricsReg a"
  by (auto simp: ExchangePeers_def Let_def split: option.splits)

end
