(* ===== verification/Client.thy ===== *)
theory Client
  imports Grpc
begin

text \<open>
  The gRPC client (\<open>internal/transport/grpc/client.go\<close>) and the transport closure of
  \<open>app.Run\<close> that hands envelopes to a peer. \<open>conn.Invoke\<close> of the grpc library is a parameter:
  a function from the full method name and the request to an error text or the decoded
  response, one field per response type. \<open>loop_invoke\<close> is the connection whose other end is
  the service table of \<open>Grpc\<close>, so that two nodes can be put together.
\<close>

subsection \<open>Calls\<close>

record 'u invoke =
  iv_SendEnvelope :: "string \<Rightarrow> Envelope \<Rightarrow> 'u \<Rightarrow> (string + SendResponse) \<times> 'u"
  iv_GetNodeInfo :: "string \<Rightarrow> unit \<Rightarrow> 'u \<Rightarrow> (string + NodeInfo) \<times> 'u"
  iv_ShareRootHash :: "string \<Rightarrow> RootHashMessage \<Rightarrow> 'u \<Rightarrow> (string + bool) \<times> 'u"
  iv_BroadcastDiscovery :: "string \<Rightarrow> discovery_Request \<Rightarrow> 'u \<Rightarrow> (string + discovery_Response) \<times> 'u"
  iv_Connect :: "string \<Rightarrow> ConnectRequest \<Rightarrow> 'u \<Rightarrow> (string + ConnectAck) \<times> 'u"
  iv_ExchangePeers :: "string \<Rightarrow> PeerListRequest \<Rightarrow> 'u \<Rightarrow> (string + PeerEntry list) \<times> 'u"

definition client_SendEnvelope :: "'u invoke \<Rightarrow> Envelope \<Rightarrow> 'u \<Rightarrow> (string + SendResponse) \<times> 'u" where
  "client_SendEnvelope conn request = iv_SendEnvelope conn ''/mrmi.v1.GatewayService/SendEnvelope'' request"

definition client_GetNodeInfo :: "'u invoke \<Rightarrow> 'u \<Rightarrow> (string + NodeInfo) \<times> 'u" where
  "client_GetNodeInfo conn = iv_GetNodeInfo conn ''/mrmi.v1.GatewayService/GetNodeInfo'' ()"

definition client_ShareRootHash :: "'u invoke \<Rightarrow> RootHashMessage \<Rightarrow> 'u \<Rightarrow> (string + bool) \<times> 'u" where
  "client_ShareRootHash conn request = iv_ShareRootHash conn ''/mrmi.v1.GatewayService/ShareRootHash'' request"

definition client_BroadcastDiscovery ::
  "'u invoke \<Rightarrow> discovery_Request \<Rightarrow> 'u \<Rightarrow> (string + discovery_Response) \<times> 'u" where
  "client_BroadcastDiscovery conn request =
     iv_BroadcastDiscovery conn ''/mrmi.v1.GatewayService/BroadcastDiscovery'' request"

definition client_Connect :: "'u invoke \<Rightarrow> ConnectRequest \<Rightarrow> 'u \<Rightarrow> (string + ConnectAck) \<times> 'u" where
  "client_Connect conn request = iv_Connect conn ''/mrmi.v1.GatewayService/Connect'' request"

definition client_ExchangePeers :: "'u invoke \<Rightarrow> PeerListRequest \<Rightarrow> 'u \<Rightarrow> (string + PeerEntry list) \<times> 'u" where
  "client_ExchangePeers conn request = iv_ExchangePeers conn ''/mrmi.v1.GatewayService/ExchangePeers'' request"

text \<open>The client that the discovery broadcaster calls; it copies the fields both ways.\<close>

definition discoveryClient_BroadcastDiscovery ::
  "'u invoke \<Rightarrow> discovery_Request \<Rightarrow> 'u \<Rightarrow> (string + discovery_Response) \<times> 'u" where
  "discoveryClient_BroadcastDiscovery conn req u =
     (case client_BroadcastDiscovery conn
             \<lparr>bq_QueryHash = bq_QueryHash req, bq_QueryType = bq_QueryType req, bq_OriginNodeID = bq_OriginNodeID req,
              bq_OriginAppID = bq_OriginAppID req, bq_HopLimit = bq_HopLimit req, bq_RequestID = bq_RequestID req,
              bq_Timestamp = bq_Timestamp req\<rparr> u of
        (Inl err, u') \<Rightarrow> (Inl err, u')
      | (Inr resp, u') \<Rightarrow>
          (Inr \<lparr>bp_NodeID = bp_NodeID resp, bp_AppID = bp_AppID resp, bp_OpaqueToken = bp_OpaqueToken resp,
                bp_DisplayHint = bp_DisplayHint resp, bp_MatchType = bp_MatchType resp,
                bp_TokenExpires = bp_TokenExpires resp\<rparr>, u'))"

subsection \<open>The connection to a service\<close>

definition method_of :: "string \<Rightarrow> string option" where
  "method_of path =
     (let p = ''/mrmi.v1.GatewayService/'' in if starts_with p path then Some (drop (length p) path) else None)"

text \<open>A call of a method that is not registered, and a status of the handler, are errors.\<close>

definition round_trip ::
  "(grpc_error \<Rightarrow> string) \<Rightarrow> 'w grpc_env \<Rightarrow> (rpc_response \<Rightarrow> 'r option) \<Rightarrow> string \<Rightarrow> rpc_request \<Rightarrow> 'w grpc_state \<Rightarrow>
   (string + 'r) \<times> 'w grpc_state" where
  "round_trip errstr G prj path req st =
     (case Option.bind (method_of path) (\<lambda>m. GatewayService G m (Some req) None st) of
        None \<Rightarrow> (Inl ''unknown method'', st)
      | Some (Inl e, st') \<Rightarrow> (Inl (errstr e), st')
      | Some (Inr resp, st') \<Rightarrow> (case prj resp of Some r \<Rightarrow> (Inr r, st') | None \<Rightarrow> (Inl ''decode'', st')))"

definition loop_invoke :: "(grpc_error \<Rightarrow> string) \<Rightarrow> 'w grpc_env \<Rightarrow> 'w grpc_state invoke" where
  "loop_invoke errstr G =
     \<lparr>iv_SendEnvelope = (\<lambda>m q. round_trip errstr G (\<lambda>r. case r of SendEnvelopeResponse x \<Rightarrow> Some x | _ \<Rightarrow> None) m (SendEnvelopeRequest q)),
      iv_GetNodeInfo = (\<lambda>m q. round_trip errstr G (\<lambda>r. case r of GetNodeInfoResponse x \<Rightarrow> Some x | _ \<Rightarrow> None) m GetNodeInfoRequest),
      iv_ShareRootHash = (\<lambda>m q. round_trip errstr G (\<lambda>r. case r of RootHashAck x \<Rightarrow> Some x | _ \<Rightarrow> None) m (ShareRootHashRequest q)),
      iv_BroadcastDiscovery = (\<lambda>m q. round_trip errstr G (\<lambda>r. case r of DiscoveryResponse x \<Rightarrow> Some x | _ \<Rightarrow> None) m (BroadcastDiscoveryRequest q)),
      iv_Connect = (\<lambda>m q. round_trip errstr G (\<lambda>r. case r of ConnectAckResponse x \<Rightarrow> Some x | _ \<Rightarrow> None) m (ConnectPeerRequest q)),
      iv_ExchangePeers = (\<lambda>m q. round_trip errstr G (\<lambda>r. case r of PeerListResponse x \<Rightarrow> Some x | _ \<Rightarrow> None) m (ExchangePeersRequest q))\<rparr>"

subsection \<open>Sending an envelope to a peer\<close>

text \<open>
  The closure of \<open>app.Run\<close>. \<open>nt_connect\<close> is \<open>connPool.Client\<close>, which may fail with an error
  text; \<open>nt_conn\<close> is the connection it returns.
\<close>

record 'u net =
  nt_connect :: "string \<Rightarrow> 'u \<Rightarrow> string option \<times> 'u"
  nt_conn :: "string \<Rightarrow> 'u invoke"

definition wire_envelope :: "Config \<Rightarrow> Envelope \<Rightarrow> Envelope" where
  "wire_envelope cfg env =
     \<lparr>ev_IdempotencyKey = ev_IdempotencyKey env, ev_SenderNodeID = nc_NodeID (cfg_Node cfg),
      ev_SenderIdentity = ev_SenderIdentity env, ev_RecipientIdentity = ev_RecipientIdentity env,
      ev_SenderRegion = ev_SenderRegion env, ev_RecipientRegion = ev_RecipientRegion env,
      ev_TrustTier = ev_TrustTier env, ev_SequenceNumber = ev_SequenceNumber env, ev_Payload = ev_Payload env,
      ev_PaddedTo = ev_PaddedTo env, ev_Timestamp = ev_Timestamp env, ev_Signature = ev_Signature env,
      ev_IsDummy = ev_IsDummy env, ev_SchemaType = '''', ev_SchemaVersion = '''', ev_RoutingHint = ''''\<rparr>"

definition node_send ::
  "('k \<Rightarrow> string \<Rightarrow> string) \<Rightarrow> 'k \<Rightarrow> bool \<Rightarrow> Config \<Rightarrow> 'u net \<Rightarrow> (Tracker \<times> 'u) transport" where
  "node_send ed_sign signingKey nilp cfg net addr env st =
     (case st of (seqSend, u) \<Rightarrow>
        case NextSeq (ev_RecipientRegion env) seqSend of
          (seq, seqSend') \<Rightarrow>
            let env1 = env\<lparr>ev_SequenceNumber := seq\<rparr>;
                env2 = env1\<lparr>ev_Signature := Sign ed_sign signingKey nilp env1\<rparr>
            in case nt_connect net addr u of
                 (Some err, u1) \<Rightarrow> (('''', Some (''connect to '' @ addr @ '': '' @ err)), (seqSend', u1))
               | (None, u1) \<Rightarrow>
                   (case client_SendEnvelope (nt_conn net addr) (wire_envelope cfg env2) u1 of
                      (Inl err, u2) \<Rightarrow> (('''', Some err), (seqSend', u2))
                    | (Inr resp, u2) \<Rightarrow>
                        if rs_Decision resp = ''DENY''
                        then (('''', Some (''peer denied envelope: '' @ rs_Reason resp)), (seqSend', u2))
                        else ((rs_AuditRootHash resp, None), (seqSend', u2))))"

subsection \<open>A call reaches its operation\<close>

lemma method_of_paths [simp]:
  "method_of ''/mrmi.v1.GatewayService/SendEnvelope'' = Some ''SendEnvelope''"
  "method_of ''/mrmi.v1.GatewayService/GetNodeInfo'' = Some ''GetNodeInfo''"
  "method_of ''/mrmi.v1.GatewayService/ShareRootHash'' = Some ''ShareRootHash''"
  "method_of ''/mrmi.v1.GatewayService/BroadcastDiscovery'' = Some ''BroadcastDiscovery''"
  "method_of ''/mrmi.v1.GatewayService/Connect'' = Some ''Connect''"
  "method_of ''/mrmi.v1.GatewayService/ExchangePeers'' = Some ''ExchangePeers''"
  by (simp_all add: method_of_def)

lemma discoveryClient_copies:
  "discoveryClient_BroadcastDiscovery conn req u = client_BroadcastDiscovery conn req u"
  by (cases req) (auto simp: discoveryClient_BroadcastDiscovery_def split: prod.splits sum.splits)

lemma loop_calls:
  "client_SendEnvelope (loop_invoke errstr G) env st =
     (case adapter_SendEnvelope (ge_ed_verify G) (ge_digest G) (ge_clk G) (ge_cancelled G) (ge_fwd G) (ge_nilp G)
             env (gs_adapter st) (gs_fwd st, gs_world st) of
        (r, a, (f, w), evs) \<Rightarrow>
          (map_sum errstr id r, st\<lparr>gs_adapter := a, gs_fwd := f, gs_world := w, gs_events := gs_events st @ evs\<rparr>))"
  "client_GetNodeInfo (loop_invoke errstr G) st = (Inr (adapter_GetNodeInfo (gs_adapter st)), st)"
  "client_ShareRootHash (loop_invoke errstr G) m st =
     (case ShareRootHash m (gs_adapter st) of (ok, a) \<Rightarrow> (Inr ok, st\<lparr>gs_adapter := a\<rparr>))"
  "discoveryClient_BroadcastDiscovery (loop_invoke errstr G) d st =
     (case BroadcastDiscovery (ge_fl G) (ge_H G) (ge_call G) (ge_clk G) (ge_rand G) (ge_pks G) (ge_aks G) (ge_uks G)
             d (gs_adapter st) (gs_world st) of
        (r, a, w) \<Rightarrow> (map_sum errstr id r, st\<lparr>gs_adapter := a, gs_world := w\<rparr>))"
  "client_Connect (loop_invoke errstr G) c st =
     (case adapter_Connect (ge_H G) (ge_clk G) (ge_tord G) (ge_uuid G) c (gs_adapter st) of
        (ack, a) \<Rightarrow> (Inr ack, st\<lparr>gs_adapter := a\<rparr>))"
  "client_ExchangePeers (loop_invoke errstr G) p st =
     (case ExchangePeers (ge_clk G 0) (ge_pord G) p (gs_adapter st) of
        (ps, a) \<Rightarrow> (Inr ps, st\<lparr>gs_adapter := a\<rparr>))"
  unfolding client_SendEnvelope_def client_GetNodeInfo_def client_ShareRootHash_def discoveryClient_copies
    client_BroadcastDiscovery_def client_Connect_def client_ExchangePeers_def loop_invoke_def
  by (auto simp: round_trip_def GatewayService_def handler_defs svc_SendEnvelope_def svc_GetNodeInfo_def
      svc_ShareRootHash_def svc_BroadcastDiscovery_def svc_Connect_def svc_ExchangePeers_def map_sum_def
      split: prod.splits sum.splits)

text \<open>
  A call of the client over a connection to a node runs the operation of the adapter of the
  same name on that node, with the request as it was given, and returns its answer; a status
  becomes an error. Method names of client and service table agree.
\<close>

theorem client_call_runs_operation:
  "(client_SendEnvelope (loop_invoke errstr G) env st =
      (case adapter_SendEnvelope (ge_ed_verify G) (ge_digest G) (ge_clk G) (ge_cancelled G) (ge_fwd G) (ge_nilp G)
              env (gs_adapter st) (gs_fwd st, gs_world st) of
         (r, a, (f, w), evs) \<Rightarrow>
           (map_sum errstr id r, st\<lparr>gs_adapter := a, gs_fwd := f, gs_world := w, gs_events := gs_events st @ evs\<rparr>))) \<and>
   (client_GetNodeInfo (loop_invoke errstr G) st = (Inr (adapter_GetNodeInfo (gs_adapter st)), st)) \<and>
   (client_ShareRootHash (loop_invoke errstr G) m st =
      (case ShareRootHash m (gs_adapter st) of (ok, a) \<Rightarrow> (Inr ok, st\<lparr>gs_adapter := a\<rparr>))) \<and>
   (discoveryClient_BroadcastDiscovery (loop_invoke errstr G) d st =
      (case BroadcastDiscovery (ge_fl G) (ge_H G) (ge_call G) (ge_clk G) (ge_rand G) (ge_pks G) (ge_aks G) (ge_uks G)
              d (gs_adapter st) (gs_world st) of
         (r, a, w) \<Rightarrow> (map_sum errstr id r, st\<lparr>gs_adapter := a, gs_world := w\<rparr>))) \<and>
   (client_Connect (loop_invoke errstr G) c st =
      (case adapter_Connect (ge_H G) (ge_clk G) (ge_tord G) (ge_uuid G) c (gs_adapter st) of
         (ack, a) \<Rightarrow> (Inr ack, st\<lparr>gs_adapter := a\<rparr>))) \<and>
   (client_ExchangePeers (loop_invoke errstr G) p st =
      (case ExchangePeers (ge_clk G 0) (ge_pord G) p (gs_adapter st) of
         (ps, a) \<Rightarrow> (Inr ps, st\<lparr>gs_adapter := a\<rparr>)))"
  by (intro conjI) (rule loop_calls)+

end
