(* ===== verification/Peering.thy ===== *)
theory Peering
  imports Client
begin

text \<open>
  Two nodes. The forwarder of one node sends through \<open>node_send\<close> over a connection to the
  service of another (\<open>peer_net\<close>), so that the world of its transport is the tracker of
  sequence numbers and the state of the peer. The theorems are about what the peer sees of an
  envelope and what the audit root that it returns is worth.
\<close>

subsection \<open>What is sent\<close>

text \<open>
  The network may refuse a connection (\<open>dial\<close>) and lose a call (\<open>lost\<close>, with the error the sender
  sees): the request before the peer handles it, or the answer afterwards.
\<close>

datatype loss = RequestLost string | AnswerLost string

definition lossy ::
  "(Envelope \<Rightarrow> 'w grpc_state \<Rightarrow> loss option) \<Rightarrow> 'w grpc_state invoke \<Rightarrow> 'w grpc_state invoke" where
  "lossy lost iv = iv\<lparr>iv_SendEnvelope := \<lambda>m q st.
     (case lost q st of
        None \<Rightarrow> iv_SendEnvelope iv m q st
      | Some (RequestLost err) \<Rightarrow> (Inl err, st)
      | Some (AnswerLost err) \<Rightarrow> (Inl err, snd (iv_SendEnvelope iv m q st)))\<rparr>"

definition peer_net ::
  "(string \<Rightarrow> 'w grpc_state \<Rightarrow> string option) \<Rightarrow> (Envelope \<Rightarrow> 'w grpc_state \<Rightarrow> loss option) \<Rightarrow>
   (grpc_error \<Rightarrow> string) \<Rightarrow> 'w grpc_env \<Rightarrow> 'w grpc_state net" where
  "peer_net dial lost errstr G =
     \<lparr>nt_connect = (\<lambda>addr st. (dial addr st, st)), nt_conn = (\<lambda>addr. lossy lost (loop_invoke errstr G))\<rparr>"

lemma lossy_SendEnvelope:
  "client_SendEnvelope (lossy lost iv) q st = (Inr resp, st') \<Longrightarrow> client_SendEnvelope iv q st = (Inr resp, st')"
  by (auto simp: client_SendEnvelope_def lossy_def split: option.splits loss.splits)

definition sent_envelope :: "('k \<Rightarrow> string \<Rightarrow> string) \<Rightarrow> 'k \<Rightarrow> bool \<Rightarrow> Config \<Rightarrow> Tracker \<Rightarrow> Envelope \<Rightarrow> Envelope" where
  "sent_envelope ed_sign key nilp cfg t env =
     (let env1 = env\<lparr>ev_SequenceNumber := t (ev_RecipientRegion env) + 1\<rparr>
      in wire_envelope cfg (env1\<lparr>ev_Signature := Sign ed_sign key nilp env1\<rparr>))"

lemma sent_envelope_fields [simp]:
  "ev_IdempotencyKey (sent_envelope sg key nilp cfg t env) = ev_IdempotencyKey env"
  "ev_SenderNodeID (sent_envelope sg key nilp cfg t env) = nc_NodeID (cfg_Node cfg)"
  "ev_SenderRegion (sent_envelope sg key nilp cfg t env) = ev_SenderRegion env"
  "ev_RecipientRegion (sent_envelope sg key nilp cfg t env) = ev_RecipientRegion env"
  "ev_TrustTier (sent_envelope sg key nilp cfg t env) = ev_TrustTier env"
  "ev_IsDummy (sent_envelope sg key nilp cfg t env) = ev_IsDummy env"
  "ev_SchemaType (sent_envelope sg key nilp cfg t env) = ''''"
  "ev_SchemaVersion (sent_envelope sg key nilp cfg t env) = ''''"
  "ev_RoutingHint (sent_envelope sg key nilp cfg t env) = ''''"
  "ev_SequenceNumber (sent_envelope sg key nilp cfg t env) = t (ev_RecipientRegion env) + 1"
  by (simp_all add: sent_envelope_def wire_envelope_def Let_def)

lemma Sign_schema:
  "Sign sg key nilp (env\<lparr>ev_SchemaType := ty, ev_SchemaVersion := v, ev_RoutingHint := h\<rparr>) = Sign sg key nilp env"
  by (simp add: Sign_def canonicalPayload_def canonical_fields_def)

lemma sent_envelope_schema:
  "sent_envelope sg key nilp cfg t (env\<lparr>ev_SchemaType := ty, ev_SchemaVersion := v, ev_RoutingHint := h\<rparr>) =
   sent_envelope sg key nilp cfg t env"
  by (simp add: sent_envelope_def wire_envelope_def Let_def Sign_def canonicalPayload_def canonical_fields_def)

lemma node_send_eq:
  "node_send sg key nilp cfg net addr env (t, u) =
     (let t' = t(ev_RecipientRegion env := t (ev_RecipientRegion env) + 1) in
      case nt_connect net addr u of
        (Some err, u1) \<Rightarrow> (('''', Some (''connect to '' @ addr @ '': '' @ err)), (t', u1))
      | (None, u1) \<Rightarrow>
          (case client_SendEnvelope (nt_conn net addr) (sent_envelope sg key nilp cfg t env) u1 of
             (Inl err, u2) \<Rightarrow> (('''', Some err), (t', u2))
           | (Inr resp, u2) \<Rightarrow>
               if rs_Decision resp = ''DENY''
               then (('''', Some (''peer denied envelope: '' @ rs_Reason resp)), (t', u2))
               else ((rs_AuditRootHash resp, None), (t', u2))))"
  by (simp add: node_send_def NextSeq_def sent_envelope_def Let_def split: prod.split option.split)

text \<open>
  The schema of an envelope does not reach the peer: whatever schema type, version and
  routing hint it has, the transport sends the same message with the same signature, and the
  peer evaluates it as plain messaging in the name of the forwarding node. So the guards of
  the peer on health, trade and payment data are not applied to forwarded envelopes: a
  balanced peer denies an HL7 FHIR envelope that is submitted to it and allows the same
  envelope when a node forwards it.
\<close>

theorem peer_sees_messaging:
  "(\<forall>ty v h. node_send sg key nilp cfg net addr (env\<lparr>ev_SchemaType := ty, ev_SchemaVersion := v, ev_RoutingHint := h\<rparr>) st =
      node_send sg key nilp cfg net addr env st) \<and>
   request_of (norm_env (wire_envelope cfg env)) =
     \<lparr>pr_SenderNodeID = nc_NodeID (cfg_Node cfg), pr_SenderRegion = ev_SenderRegion env,
      pr_RecipientRegion = ev_RecipientRegion env, pr_TrustTier = ev_TrustTier env,
      pr_SchemaType = Messaging, pr_SchemaVersion = ''''\<rparr> \<and>
   res_Decision (decision_of demo_gateway (norm_env (demo_envelope\<lparr>ev_SchemaType := Hl7Fhir\<rparr>))) = DecisionDeny \<and>
   res_Decision (decision_of demo_gateway (norm_env (wire_envelope cfg (demo_envelope\<lparr>ev_SchemaType := Hl7Fhir\<rparr>)))) = DecisionAllow"
proof (intro conjI allI)
  fix ty v h
  obtain t u where st: "st = (t, u)" by force
  show "node_send sg key nilp cfg net addr (env\<lparr>ev_SchemaType := ty, ev_SchemaVersion := v, ev_RoutingHint := h\<rparr>) st =
      node_send sg key nilp cfg net addr env st"
    unfolding st node_send_eq sent_envelope_schema by simp
  show "request_of (norm_env (wire_envelope cfg env)) =
     \<lparr>pr_SenderNodeID = nc_NodeID (cfg_Node cfg), pr_SenderRegion = ev_SenderRegion env,
      pr_RecipientRegion = ev_RecipientRegion env, pr_TrustTier = ev_TrustTier env,
      pr_SchemaType = Messaging, pr_SchemaVersion = ''''\<rparr>"
    by (simp add: request_of_def norm_env_def wire_envelope_def)
  let ?d = "demo_envelope\<lparr>ev_SchemaType := Hl7Fhir\<rparr>"
  have "\<not> equal_fold (pf_Name (cfg_Profile DefaultBalancedConfig)) ''strict''"
    by (simp add: DefaultBalancedConfig_def DefaultConfigForProfile_def preset_base_def profile_balanced_def equal_fold_def
        case_defs)
  moreover have "schema_of (request_of (norm_env ?d)) = Hl7Fhir"
    by (simp add: schema_of_def request_of_def norm_env_def)
  ultimately have "\<not> policy_allows DefaultBalancedConfig (Some crl_New) (request_of (norm_env ?d))"
    by (simp add: policy_allows_def)
  then show "res_Decision (decision_of demo_gateway (norm_env (demo_envelope\<lparr>ev_SchemaType := Hl7Fhir\<rparr>))) = DecisionDeny"
    using evaluate_result_cases evaluate_result_allow
    by (fastforce simp: decision_of_def demo_gateway_def NewGateway_def)
  let ?e = "wire_envelope cfg (demo_envelope\<lparr>ev_SchemaType := Hl7Fhir\<rparr>)"
  have "schema_of (request_of (norm_env ?e)) = Messaging"
    by (simp add: schema_of_def request_of_def norm_env_def wire_envelope_def)
  then have "policy_allows DefaultBalancedConfig (Some crl_New) (request_of (norm_env ?e))"
    by (simp add: policy_allows_def IsRevoked_def crl_New_def outbound_admits_def first_rule_def request_of_def norm_env_def
        wire_envelope_def demo_envelope_def preset_base_def DefaultBalancedConfig_def DefaultConfigForProfile_def Let_def)
  then show "res_Decision (decision_of demo_gateway (norm_env ?e)) = DecisionAllow"
    by (simp add: decision_of_def demo_gateway_def NewGateway_def evaluate_result_allow)
qed

subsection \<open>What an acknowledgement is worth\<close>

definition peer_log :: "Tracker \<times> 'w grpc_state \<Rightarrow> audit_Log" where
  "peer_log st = gw_audit (ga_gw (gs_adapter (snd st)))"

text \<open>The last entry of the peer's log is for the envelope, not a denial, and \<open>h\<close> is the root behind it.\<close>

definition recorded_by_peer :: "Envelope \<Rightarrow> string \<Rightarrow> Tracker \<times> 'w grpc_state \<Rightarrow> bool" where
  "recorded_by_peer env h st \<longleftrightarrow>
     RootHash (peer_log st) = h \<and>
     (\<exists>es e. lg_entries (peer_log st) = es @ [e] \<and> ae_Decision e \<in> {DecisionAllow, DecisionDuplicate, DecisionDummy} \<and>
        ae_SenderRegion e = ev_SenderRegion env \<and> ae_RecipientRegion e = ev_RecipientRegion env)"

lemma SendEnvelope_decisions:
  assumes "SendEnvelope digest clk c fwd env g s = (Inr r, g', s', evs)"
  shows "rs_Decision r \<in> {DecisionAllow, DecisionDeny, DecisionDuplicate}"
  using assms
  by (cases rule: SendEnvelope_elim) (use evaluate_result_cases in \<open>auto simp: decision_of_def\<close>)

lemma adapter_SendEnvelope_recorded:
  assumes "adapter_SendEnvelope ed_verify digest clk c fwd nilp env a s = (Inr r, a', s', evs)"
    and "rs_Decision r \<noteq> ''DENY''" "Normalize (ev_SchemaType env) \<noteq> Iso20022"
  shows "RootHash (gw_audit (ga_gw a')) = rs_AuditRootHash r \<and>
     (\<exists>es e. lg_entries (gw_audit (ga_gw a')) = es @ [e] \<and> ae_Decision e \<in> {DecisionAllow, DecisionDuplicate, DecisionDummy} \<and>
        ae_SenderRegion e = ev_SenderRegion env \<and> ae_RecipientRegion e = ev_RecipientRegion env)"
proof (cases "signature_ok ed_verify nilp env a")
  case False
  then show ?thesis
    using assms adapter_SendEnvelope_rejected [OF False, where digest = digest and clk = clk and c = c and fwd = fwd and s = s]
    by (auto simp: bad_signature_response_def)
next
  case True
  obtain res g s1 e1 where S: "SendEnvelope digest clk c fwd env (ga_gw a) s = (res, g, s1, e1)"
    by (metis prod_cases4)
  then have r: "res = Inr r" "ga_gw a' = g"
    using assms(1) adapter_SendEnvelope_passed [OF True S] by (auto split: sum.splits)
  then show ?thesis
    using SendEnvelope_audit [OF S] SendEnvelope_decisions [OF S [unfolded r(1)]] assms(2,3)
    by (auto simp: RootHash_def decision_defs)
qed

lemma node_send_acked:
  assumes "node_send sg key nilp cfg (peer_net dial lost errstr G) addr env w0 = ((h, None), w')"
  shows "recorded_by_peer env h w'"
proof -
  obtain t B t' B' where w: "w0 = (t, B)" "w' = (t', B')" by force
  let ?e = "sent_envelope sg key nilp cfg t env"
  obtain r a f v evs where A: "adapter_SendEnvelope (ge_ed_verify G) (ge_digest G) (ge_clk G) (ge_cancelled G) (ge_fwd G)
      (ge_nilp G) ?e (gs_adapter B) (gs_fwd B, gs_world B) = (r, a, (f, v), evs)"
    by (metis prod_cases4 surj_pair)
  have "client_SendEnvelope (loop_invoke errstr G) ?e B =
      (map_sum errstr id r, B\<lparr>gs_adapter := a, gs_fwd := f, gs_world := v, gs_events := gs_events B @ evs\<rparr>)"
    unfolding loop_calls A by simp
  moreover obtain resp where "client_SendEnvelope (loop_invoke errstr G) ?e B = (Inr resp, B')" "rs_Decision resp \<noteq> ''DENY''"
    "h = rs_AuditRootHash resp"
    using assms
    by (auto simp: w node_send_eq peer_net_def Let_def dest!: lossy_SendEnvelope split: option.splits prod.splits sum.splits if_splits)
  ultimately have "r = Inr resp" "rs_Decision resp \<noteq> ''DENY''" "h = rs_AuditRootHash resp" "gs_adapter B' = a"
    by (cases r; auto)+
  moreover have "Normalize (ev_SchemaType ?e) \<noteq> Iso20022" by (simp add: schema_consts)
  ultimately show ?thesis using adapter_SendEnvelope_recorded [of _ _ _ _ _ _ ?e] A
    by (fastforce simp: recorded_by_peer_def peer_log_def w)
qed


definition demo_peer_env :: "unit grpc_env" where
  "demo_peer_env =
     \<lparr>ge_ed_verify = (\<lambda>k m s. True), ge_digest = (\<lambda>x. x), ge_clk = (\<lambda>_. 0), ge_cancelled = False, ge_fwd = None,
      ge_nilp = False, ge_fl = (\<lambda>x. x), ge_H = (\<lambda>x. x), ge_call = (\<lambda>a q w. (None, w)), ge_rand = (\<lambda>_. None),
      ge_pks = [], ge_aks = [], ge_uks = (\<lambda>_. []), ge_tord = (\<lambda>_. []), ge_pord = (\<lambda>_. []), ge_uuid = ''''\<rparr>"

definition demo_peer_state :: "unit grpc_state" where
  "demo_peer_state =
     \<lparr>gs_adapter = NewAdapter demo_gateway DefaultBalancedConfig, gs_fwd = demo_forwarder, gs_world = (), gs_events = []\<rparr>"


end
