(* ===== verification/Dummy.thy ===== *)
theory Dummy
  imports Gateway
begin

text \<open>
  The dummy traffic generator (\<open>internal/dummy/generator.go\<close>): the envelopes of one tick of
  its loop and the tick with the \<open>send\<close> that \<open>app.Run\<close> passes to it, which is
  \<open>SendEnvelope\<close> of the node's own gateway.
\<close>

record Generator =
  dg_cfg :: Config
  dg_counter :: "64 word"

definition dummy_New :: "Config \<Rightarrow> Generator" where
  "dummy_New cfg = \<lparr>dg_cfg = cfg, dg_counter = 0\<rparr>"

text \<open>The loop runs only with a positive interval and at least one peer.\<close>

definition dummy_enabled :: "PeerConfig list \<Rightarrow> Generator \<Rightarrow> bool" where
  "dummy_enabled peers g \<longleftrightarrow> \<not> (pf_DummyTrafficRate (cfg_Profile (dg_cfg g)) \<le> 0 \<or> length peers = 0)"

definition dummy_envelope :: "int \<Rightarrow> Generator \<Rightarrow> PeerConfig \<Rightarrow> Envelope" where
  "dummy_envelope now g peer =
     (let cfg = dg_cfg g; bucket = pf_PaddingBucket (cfg_Profile cfg);
          env = \<lparr>ev_IdempotencyKey = ''dummy-'' @ nc_NodeID (cfg_Node cfg) @ ''-'' @ show_nat (unat (dg_counter g)),
                 ev_SenderNodeID = '''', ev_SenderIdentity = '''', ev_RecipientIdentity = '''',
                 ev_SenderRegion = nc_Region (cfg_Node cfg), ev_RecipientRegion = pc_Region peer,
                 ev_TrustTier = 0, ev_SequenceNumber = 0, ev_Payload = '''', ev_PaddedTo = 0,
                 ev_Timestamp = unix_milli now, ev_Signature = '''', ev_IsDummy = True, ev_SchemaType = '''',
                 ev_SchemaVersion = '''', ev_RoutingHint = ''''\<rparr>
      in if bucket > 0
         then env\<lparr>ev_Payload := replicate (nat bucket) (CHR 0x00), ev_PaddedTo := of_int bucket\<rparr>
         else env)"

fun dummy_tick :: "(nat \<Rightarrow> int) \<Rightarrow> PeerConfig list \<Rightarrow> Generator \<Rightarrow> Envelope list \<times> Generator" where
  "dummy_tick clk [] g = ([], g)"
| "dummy_tick clk (peer # peers) g =
     (let g1 = g\<lparr>dg_counter := dg_counter g + 1\<rparr> in
      case dummy_tick (\<lambda>i. clk (Suc i)) peers g1 of
        (envs, g2) \<Rightarrow> (dummy_envelope (clk 0) g1 peer # envs, g2))"

text \<open>The envelopes of a tick, sent one after the other.\<close>

fun send_all ::
  "(string \<Rightarrow> string) \<Rightarrow> (nat \<Rightarrow> nat \<Rightarrow> int) \<Rightarrow> bool \<Rightarrow> ('e, 's) forward_fun option \<Rightarrow> Envelope list \<Rightarrow> gateway \<Rightarrow> 's \<Rightarrow>
   gateway \<times> 's \<times> gw_event list" where
  "send_all digest clk c fwd [] g s = (g, s, [])"
| "send_all digest clk c fwd (env # envs) g s =
     (case SendEnvelope digest (clk 0) c fwd env g s of
        (_, g1, s1, evs1) \<Rightarrow>
          (case send_all digest (\<lambda>n. clk (Suc n)) c fwd envs g1 s1 of
             (g2, s2, evs2) \<Rightarrow> (g2, s2, evs1 @ evs2)))"

lemma dummy_envelope_fields [simp]:
  "ev_IsDummy (dummy_envelope now g peer)" "ev_IdempotencyKey (dummy_envelope now g peer) \<noteq> ''''"
  "ev_RecipientRegion (dummy_envelope now g peer) = pc_Region peer"
  by (simp_all add: dummy_envelope_def Let_def)

lemma dummy_tick_dummies:
  "dummy_tick clk peers g = (envs, g') \<Longrightarrow>
   (\<forall>env \<in> set envs. ev_IsDummy env \<and> ev_IdempotencyKey env \<noteq> '''') \<and>
   map ev_RecipientRegion envs = map pc_Region peers \<and>
   dg_cfg g' = dg_cfg g \<and> dg_counter g' = dg_counter g + of_nat (length peers)"
proof (induction clk peers g arbitrary: envs g' rule: dummy_tick.induct)
  case (2 clk peer peers g)
  let ?g = "g\<lparr>dg_counter := dg_counter g + 1\<rparr>"
  obtain es g2 where t: "dummy_tick (\<lambda>i. clk (Suc i)) peers ?g = (es, g2)" by force
  then have "envs = dummy_envelope (clk 0) ?g peer # es" "g' = g2" using "2.prems" by (simp_all add: Let_def)
  then show ?case using "2.IH" [OF refl t] by simp
qed simp

lemma dummy_tick_keys:
  "dummy_tick clk peers g = (envs, g') \<Longrightarrow>
   map ev_IdempotencyKey envs =
     map (\<lambda>i. ''dummy-'' @ nc_NodeID (cfg_Node (dg_cfg g)) @ ''-'' @ show_nat (unat (dg_counter g + of_nat (Suc i))))
       [0 ..< length peers]"
proof (induction clk peers g arbitrary: envs g' rule: dummy_tick.induct)
  case (2 clk peer peers g)
  let ?g = "g\<lparr>dg_counter := dg_counter g + 1\<rparr>"
  obtain es g2 where t: "dummy_tick (\<lambda>i. clk (Suc i)) peers ?g = (es, g2)" by force
  then have "envs = dummy_envelope (clk 0) ?g peer # es" using "2.prems" by (simp add: Let_def)
  moreover have "ev_IdempotencyKey (dummy_envelope (clk 0) ?g peer) =
      ''dummy-'' @ nc_NodeID (cfg_Node (dg_cfg g)) @ ''-'' @ show_nat (unat (dg_counter g + 1))"
    by (simp add: dummy_envelope_def Let_def)
  moreover have "[0 ..< length (peer # peers)] = 0 # map Suc [0 ..< length peers]"
    by (simp add: upt_conv_Cons map_Suc_upt del: upt_Suc)
  ultimately show ?case using "2.IH" [OF refl t] by (simp add: ac_simps del: upt_Suc)
qed simp

lemma dummy_keys_distinct:
  assumes "dummy_tick clk peers g = (envs, g')" "length peers < 2 ^ 64"
  shows "distinct (map ev_IdempotencyKey envs)"
proof -
  have inj: "unat (dg_counter g + of_nat (Suc i)) \<noteq> unat (dg_counter g + of_nat (Suc j))"
    if "i < length peers" "j < length peers" "i \<noteq> j" for i j
  proof
    assume "unat (dg_counter g + of_nat (Suc i)) = unat (dg_counter g + of_nat (Suc j))"
    then have "dg_counter g + of_nat (Suc i) = dg_counter g + of_nat (Suc j)" by (simp only: word_unat_eq_iff)
    then have "(of_nat i :: 64 word) = of_nat j" by simp
    then show False using that assms(2) by (simp add: of_nat_inverse unsigned_of_nat word_of_nat_eq_iff take_bit_nat_eq_self)
  qed
  have "inj_on (\<lambda>i. ''dummy-'' @ nc_NodeID (cfg_Node (dg_cfg g)) @ ''-'' @ show_nat (unat (dg_counter g + of_nat (Suc i))))
      (set [0 ..< length peers])"
    by (rule inj_onI) (use inj in auto)
  then show ?thesis unfolding dummy_tick_keys [OF assms(1)] by (simp only: distinct_map distinct_upt)
qed

lemma send_all_dummies:
  assumes "\<forall>env \<in> set envs. ev_IsDummy env \<and> ev_IdempotencyKey env \<noteq> ''''"
    and "send_all digest clk c fwd envs g s = (g', s', evs)"
  shows "s' = s \<and> evs = [] \<and> gw_dedup g' = gw_dedup g \<and> gw_policyCfg g' = gw_policyCfg g \<and> gw_crl g' = gw_crl g \<and>
    (\<exists>new. lg_entries (gw_audit g') = lg_entries (gw_audit g) @ new \<and> length new = length envs \<and>
       (\<forall>e \<in> set new. ae_Decision e = DecisionDummy))"
  using assms
proof (induction digest clk c fwd envs g s arbitrary: g' s' evs rule: send_all.induct)
  case (2 digest clk c fwd env envs g s)
  obtain res g1 s1 evs1 where S: "SendEnvelope digest (clk 0) c fwd env g s = (res, g1, s1, evs1)" by (metis prod_cases4)
  obtain g2 s2 evs2 where R: "send_all digest (\<lambda>n. clk (Suc n)) c fwd envs g1 s1 = (g2, s2, evs2)" by (metis prod_cases3)
  have d: "s1 = s \<and> evs1 = [] \<and> gw_dedup g1 = gw_dedup g \<and> gw_policyCfg g1 = gw_policyCfg g \<and> gw_crl g1 = gw_crl g \<and>
      (\<exists>a. lg_entries (gw_audit g1) = lg_entries (gw_audit g) @ [a] \<and> ae_Decision a = DecisionDummy)"
    using S by (cases rule: SendEnvelope_elim) (use "2.prems"(1) in \<open>auto simp: Append_entries Append_fields\<close>)
  then show ?case using 2 S R by fastforce
qed simp

text \<open>
  Dummy traffic never leaves the node. The envelopes of a tick go to the gateway of the
  node itself, which answers dummy envelopes before it looks at policy, deduplication or
  routing: whatever the peers, the profile and the forwarder are, the forwarder is not
  called and no callback runs; each envelope only adds one DUMMY entry to the audit log.
  The keys of a tick are distinct.
\<close>

theorem dummy_traffic_stays_local:
  assumes "dummy_tick tclk peers gen = (envs, gen')" "length peers < 2 ^ 64"
    and "send_all digest clk c fwd envs g s = (g', s', evs)"
  shows "s' = s \<and> evs = [] \<and> gw_dedup g' = gw_dedup g \<and> distinct (map ev_IdempotencyKey envs) \<and>
    map ev_RecipientRegion envs = map pc_Region peers \<and>
    (\<exists>new. lg_entries (gw_audit g') = lg_entries (gw_audit g) @ new \<and> length new = length peers \<and>
       (\<forall>e \<in> set new. ae_Decision e = DecisionDummy))"
proof -
  note t = dummy_tick_dummies [OF assms(1)]
  then have "length envs = length peers" by (metis length_map)
  then show ?thesis
    using t send_all_dummies [OF _ assms(3)] dummy_keys_distinct [OF assms(1,2)] by auto
qed

definition dummy_peer :: PeerConfig where
  "dummy_peer = \<lparr>pc_Region = ''RU'', pc_Addr = ''a'', pc_NodeScope = ''regional'', pc_Regions = []\<rparr>"

theorem dummy_traffic_stays_local_witness:
  "\<exists>envs gen' g' evs. dummy_tick (\<lambda>_. 0) [dummy_peer] (dummy_New DefaultBalancedConfig) = (envs, gen') \<and>
     send_all (\<lambda>x. x) (\<lambda>_ _. 0) False (Some (\<lambda>_ _ n. (Inr '''', Suc n) :: (nat + string) \<times> nat)) envs
       (NewGateway DefaultBalancedConfig \<lparr>en_cfg = DefaultBalancedConfig, en_audit = None, en_crl = None\<rparr>
          audit_New (dedup_New hour)) 0 = (g', 0, evs) \<and> evs = []"
proof -
  obtain envs gen' where t: "dummy_tick (\<lambda>_. 0) [dummy_peer] (dummy_New DefaultBalancedConfig) = (envs, gen')" by force
  obtain g' s' evs where r: "send_all (\<lambda>x. x) (\<lambda>_ _. 0) False (Some (\<lambda>_ _ n. (Inr '''', Suc n) :: (nat + string) \<times> nat)) envs
      (NewGateway DefaultBalancedConfig \<lparr>en_cfg = DefaultBalancedConfig, en_audit = None, en_crl = None\<rparr>
         audit_New (dedup_New hour)) 0 = (g', s', evs)" by (metis prod_cases3)
  show ?thesis using dummy_traffic_stays_local [OF t _ r] t r by auto
qed

end
