(* ===== verification/Hotreload.thy ===== *)
theory Hotreload
  imports Gateway
begin

text \<open>
  The configuration watcher (\<open>internal/hotreload/watcher.go\<close>) and the change callback of
  \<open>app.Run\<close>. One poll sees the modification time of the file, or none when \<open>os.Stat\<close>
  fails, and what \<open>config.Load\<close> would return at that moment. \<open>lastMod\<close> is \<open>None\<close> while it is
  the zero time.
\<close>

definition watch_tick :: "int option \<Rightarrow> load_error + Config \<Rightarrow> int option \<Rightarrow> Config option \<times> int option" where
  "watch_tick stat loaded lastMod =
     (case stat of
        None \<Rightarrow> (None, lastMod)
      | Some modTime \<Rightarrow>
          (case lastMod of
             None \<Rightarrow> (None, Some modTime)
           | Some m \<Rightarrow>
               if modTime = m then (None, lastMod)
               else (case loaded of
                       Inl err \<Rightarrow> (None, Some modTime)
                     | Inr cfg \<Rightarrow> (Some cfg, Some modTime))))"

text \<open>The callback: warn on an unchanged version, reload, remember the version.\<close>

record reload_state =
  rl_lastVersion :: string
  rl_warned :: nat \<comment> \<open>warnings about an unchanged policy version\<close>

definition onChange ::
  "(string set \<Rightarrow> string list) \<Rightarrow> Config \<Rightarrow> reload_state \<Rightarrow> gateway \<Rightarrow> reload_state \<times> gateway" where
  "onChange order newCfg r g =
     (let v = nc_PolicyVersion (cfg_Node newCfg);
          r1 = (if v = rl_lastVersion r then r\<lparr>rl_warned := Suc (rl_warned r)\<rparr> else r)
      in case Reload (order (dom (nw_Peers (cfg_Network newCfg)))) newCfg (engine_of g) of
           (Some err, e) \<Rightarrow> (r1, put_engine e g)
         | (None, e) \<Rightarrow> (r1\<lparr>rl_lastVersion := v\<rparr>, put_engine e g))"

record watch_state =
  ws_lastMod :: "int option"
  ws_reload :: reload_state

definition poll ::
  "(string set \<Rightarrow> string list) \<Rightarrow> int option \<times> (load_error + Config) \<Rightarrow> watch_state \<Rightarrow> gateway \<Rightarrow> watch_state \<times> gateway" where
  "poll order p ws g =
     (case watch_tick (fst p) (snd p) (ws_lastMod ws) of
        (None, m) \<Rightarrow> (ws\<lparr>ws_lastMod := m\<rparr>, g)
      | (Some cfg, m) \<Rightarrow>
          (case onChange order cfg (ws_reload ws) g of
             (r, g') \<Rightarrow> (\<lparr>ws_lastMod = m, ws_reload = r\<rparr>, g')))"

fun polls ::
  "(string set \<Rightarrow> string list) \<Rightarrow> (int option \<times> (load_error + Config)) list \<Rightarrow> watch_state \<Rightarrow> gateway \<Rightarrow> watch_state \<times> gateway" where
  "polls order [] ws g = (ws, g)"
| "polls order (p # ps) ws g = (case poll order p ws g of (ws1, g1) \<Rightarrow> polls order ps ws1 g1)"

text \<open>
  The reference: the modification time and the configuration in force, where a poll takes a
  configuration over exactly when it sees a new modification time and the file loads.
\<close>

definition observe :: "int option \<times> (load_error + Config) \<Rightarrow> int option \<times> Config \<Rightarrow> int option \<times> Config" where
  "observe p st =
     (case (p, st) of
        ((None, _), _) \<Rightarrow> st
      | ((Some m, loaded), (None, c)) \<Rightarrow> (Some m, c)
      | ((Some m, loaded), (Some m0, c)) \<Rightarrow>
          (Some m, if m = m0 then c else case loaded of Inr c' \<Rightarrow> c' | Inl _ \<Rightarrow> c))"

definition loads_ok :: "(string set \<Rightarrow> string list) \<Rightarrow> (int option \<times> (load_error + Config)) list \<Rightarrow> bool" where
  "loads_ok order ps \<longleftrightarrow>
     (\<forall>m c. (m, Inr c) \<in> set ps \<longrightarrow>
        config_ok c \<and> enumerates (order (dom (nw_Peers (cfg_Network c)))) (nw_Peers (cfg_Network c)))"

lemma onChange_loaded:
  assumes "config_ok c" "enumerates (order (dom (nw_Peers (cfg_Network c)))) (nw_Peers (cfg_Network c))"
    and "onChange order c r g = (r', g')"
  shows "g' = g\<lparr>gw_policyCfg := c\<rparr> \<and> rl_lastVersion r' = nc_PolicyVersion (cfg_Node c)"
  using assms Validate_None_iff [OF assms(2)]
  by (auto simp: onChange_def Reload_def engine_of_def put_engine_def Let_def split: option.splits)

lemma poll_observe:
  assumes "loads_ok order [p]" "poll order p ws g = (ws', g')"
  shows "(ws_lastMod ws', gw_policyCfg g') = observe p (ws_lastMod ws, gw_policyCfg g) \<and>
    g' = g\<lparr>gw_policyCfg := gw_policyCfg g'\<rparr>"
proof (cases "fst (watch_tick (fst p) (snd p) (ws_lastMod ws))")
  case None
  then show ?thesis using assms(2)
    by (cases p) (auto simp: poll_def watch_tick_def observe_def split: option.splits if_splits sum.splits)
next
  case (Some c)
  obtain m l where p: "p = (m, l)" by force
  then have l: "l = Inr c" using Some by (auto simp: watch_tick_def split: option.splits if_splits sum.splits)
  obtain r h where oc: "onChange order c (ws_reload ws) g = (r, h)" by force
  have "config_ok c" "enumerates (order (dom (nw_Peers (cfg_Network c)))) (nw_Peers (cfg_Network c))"
    using assms(1) p l by (auto simp: loads_ok_def)
  from onChange_loaded [OF this oc] show ?thesis
    using Some assms(2) p l oc
    by (auto simp: poll_def watch_tick_def observe_def split: option.splits if_splits prod.splits)
qed

text \<open>
  Hot reload follows the file. Over any sequence of polls the engine's configuration is
  the one of the reference: it is replaced exactly at the polls that see a new modification
  time and a loadable file (loading validates, so the reload is never refused), a file that
  cannot be read or parsed leaves the previous configuration in force, and nothing else of
  the gateway changes.
\<close>

theorem hot_reload_follows_file:
  assumes "loads_ok order ps" "polls order ps ws g = (ws', g')"
  shows "(ws_lastMod ws', gw_policyCfg g') = fold observe ps (ws_lastMod ws, gw_policyCfg g) \<and>
    g' = g\<lparr>gw_policyCfg := gw_policyCfg g'\<rparr> \<and> (config_ok (gw_policyCfg g) \<longrightarrow> config_ok (gw_policyCfg g'))"
  using assms
proof (induction ps arbitrary: ws g)
  case (Cons p ps)
  obtain ws1 g1 where P: "poll order p ws g = (ws1, g1)" by force
  have "loads_ok order [p]" "loads_ok order ps" using Cons.prems(1) by (auto simp: loads_ok_def)
  note P1 = poll_observe [OF this(1) P]
  have "config_ok (gw_policyCfg g1)" if "config_ok (gw_policyCfg g)"
    using P1 that Cons.prems(1)
    by (auto simp: observe_def loads_ok_def split: prod.splits option.splits if_splits sum.splits)
  moreover have "polls order ps ws1 g1 = (ws', g')" using Cons.prems(2) P by simp
  ultimately show ?case
    using Cons.IH [OF \<open>loads_ok order ps\<close>] P1 by (metis (no_types, lifting) fold_simps(2) gateway.surjective gateway.update_convs(2))
qed simp

theorem hot_reload_follows_file_witness:
  "\<exists>ws' g'. polls (\<lambda>_. []) [(Some 1, Inl (StatError '''')), (Some 2, Inr DefaultBalancedConfig)]
     \<lparr>ws_lastMod = None, ws_reload = \<lparr>rl_lastVersion = '''', rl_warned = 0\<rparr>\<rparr>
     (NewGateway (DefaultConfigForProfile ''strict'')
        \<lparr>en_cfg = DefaultConfigForProfile ''strict'', en_audit = None, en_crl = None\<rparr> audit_New (dedup_New hour)) = (ws', g') \<and>
     gw_policyCfg g' = DefaultBalancedConfig"
proof -
  let ?ps = "[(Some 1, Inl (StatError '''')), (Some 2, Inr DefaultBalancedConfig)]"
  let ?ws = "\<lparr>ws_lastMod = None, ws_reload = \<lparr>rl_lastVersion = '''', rl_warned = 0\<rparr>\<rparr>"
  let ?g = "NewGateway (DefaultConfigForProfile ''strict'')
        \<lparr>en_cfg = DefaultConfigForProfile ''strict'', en_audit = None, en_crl = None\<rparr> audit_New (dedup_New hour)"
  have "nw_Peers (cfg_Network DefaultBalancedConfig) = Map.empty"
    by (simp add: DefaultBalancedConfig_def DefaultConfigForProfile_def preset_base_def Let_def)
  then have l: "loads_ok (\<lambda>_. []) ?ps"
    by (simp add: loads_ok_def DefaultBalancedConfig_def DefaultConfigForProfile_ok)
  obtain ws' g' where p: "polls (\<lambda>_. []) ?ps ?ws ?g = (ws', g')" by force
  have "(ws_lastMod ws', gw_policyCfg g') = (Some 2, DefaultBalancedConfig)"
    using hot_reload_follows_file [OF l p] by (simp add: observe_def)
  then show ?thesis using p by auto
qed

end
