(* ===== verification/Node.thy ===== *)
theory Node
  imports Http_Props Peering Dummy Hotreload
begin

text \<open>
  The node (\<open>internal/app/app.go\<close>): how \<open>Run\<close> wires the components together, what the
  callbacks of the gateway do, and one tick of each background loop. The objects that \<open>Run\<close>
  shares by pointer are held once: the gateway with audit log, revocation list and
  deduplication index, the forwarder with queue and buffer, the root hash cache and the inbox
  in the HTTP server, everything else in the gRPC adapter, which is given the shared objects
  when it serves a call (\<open>grpc_view\<close>). The world of the transport is the tracker of sequence
  numbers (\<open>seqSend\<close>) and the peers.
\<close>

subsection \<open>Start\<close>

datatype storage = InMemory | BboltAt string | RedisAt string string

definition storage_of :: "StorageConfig \<Rightarrow> storage" where
  "storage_of st =
     (if st_Backend st = ''bbolt'' then
        BboltAt (if st_Path st = '''' then ''/var/lib/mrmi'' else st_Path st)
      else if st_Backend st = ''redis'' then
        RedisAt (st_RedisURL st) (if st_KeyPrefix st = '''' then ''mrmi:'' else st_KeyPrefix st)
      else InMemory)"

datatype run_error =
    GenerateKey string | OpenStore string | LoadServerTLS string | LoadClientTLS string
  | CreateEngine config_error | CreateGrpcServer string

text \<open>What starting reads from outside: keys, files, the network, the clock and map orders.\<close>

record boot =
  bt_key :: "string + string"
  bt_open :: "storage \<Rightarrow> string option" \<comment> \<open>the error of opening a store\<close>
  bt_serverTLS :: "string option"
  bt_clientTLS :: "string option"
  bt_listen :: "string option"
  bt_now :: int
  bt_order :: "string set \<Rightarrow> string list"

record node =
  nd_srv :: http_server
  nd_grpc :: gatewayAdapter
  nd_storage :: storage
  nd_decay :: decay_Timer
  nd_gen :: "Generator option"
  nd_watch :: "watch_state option"

definition static_peer :: "PeerConfig \<Rightarrow> PeerInfo" where
  "static_peer p =
     \<lparr>pi_NodeID = pc_Region p, pi_Addr = pc_Addr p, pi_NodeScope = pc_NodeScope p, pi_Region = pc_Region p,
      pi_LastSeen = 0\<rparr>"

definition seed_peers :: "int \<Rightarrow> string list \<Rightarrow> Config \<Rightarrow> peer_Registry" where
  "seed_peers now ks cfg =
     fold (\<lambda>p. Announce now (static_peer p)) (List.map_filter (nw_Peers (cfg_Network cfg)) ks) peerdiscovery_New"

definition node_gateway :: "Config \<Rightarrow> policy_Engine \<Rightarrow> audit_Log \<Rightarrow> gateway" where
  "node_gateway cfg engine auditLog =
     (let gw = SetOnAllow (SetOnDuplicate (SetOnDeny
                 (NewGateway cfg engine auditLog (dedup_New (pf_DedupTTL (cfg_Profile cfg))))))
      in if cfg_Apps cfg \<noteq> Map.empty then SetNotifier gw else gw)"

definition node_forwarder :: "Config \<Rightarrow> forwarder" where
  "node_forwarder cfg =
     (let ttl = pf_TransitCacheTTL (cfg_Profile cfg)
      in NewForwarder cfg (Some NewDLQ) (if ttl > 0 then Some (transit_New ttl) else None))"

definition node_server :: "int \<Rightarrow> Config \<Rightarrow> string \<Rightarrow> string \<Rightarrow> gateway \<Rightarrow> http_server" where
  "node_server now cfg configPath signingKey gw =
     \<lparr>sv_cfg = cfg, sv_startTime = now, sv_gw = gw, sv_fwd = node_forwarder cfg,
      sv_forwarding = (nw_Peers (cfg_Network cfg) \<noteq> Map.empty), sv_Engine = True, sv_Audit = True, sv_Gateway = True,
      sv_PrivKey = Some signingKey,
      sv_Peers = (if ap_RootHashGossip (pol_Audit (cfg_Policy cfg)) then Some peercache_New else None),
      sv_Inbox = Some inbox_New, sv_Registry = Some (registry_New cfg), sv_RuntimePeers = Some NewRuntimePeers,
      sv_RuntimeApps = Some NewRuntimeApps, sv_RuntimeAdapters = Some NewRuntimeAdapters,
      sv_OnConfigReload = (configPath \<noteq> ''''), sv_OnConfigSave = (configPath \<noteq> '''')\<rparr>"

definition node_deps :: "int \<Rightarrow> string list \<Rightarrow> Config \<Rightarrow> DiscoveryDeps" where
  "node_deps now ks cfg =
     \<lparr>dd_TokenStore = Some token_New,
      dd_Broadcaster =
        (if nw_Peers (cfg_Network cfg) \<noteq> Map.empty
         then Some (broadcaster_New (\<lambda>k. map_option pc_Addr (nw_Peers (cfg_Network cfg) k)) (dedup_New (30 * second)))
         else None),
      dd_ConnectRes = Some (resolver_New cfg), dd_PolicyEng = True, dd_PeerRegistry = Some (seed_peers now ks cfg),
      dd_DiscoveryLimiter = Some (limiter_New 10 20), dd_Metrics = Some metrics_New, dd_NodeCfg = cfg\<rparr>"

definition store_error :: "boot \<Rightarrow> storage \<Rightarrow> string option" where
  "store_error b st = (if st = InMemory then None else bt_open b st)"

definition start_log :: "storage \<Rightarrow> audit_Log" where
  "start_log st = (if st = InMemory then audit_New else SetStore audit_New)"

definition node_start :: "boot \<Rightarrow> Config \<Rightarrow> string \<Rightarrow> run_error + node" where
  "node_start b cfg configPath =
     (case bt_key b of
        Inl err \<Rightarrow> Inl (GenerateKey err)
      | Inr signingKey \<Rightarrow>
        (let st = storage_of (cfg_Storage cfg); ks = bt_order b (dom (nw_Peers (cfg_Network cfg))) in
         case store_error b st of
           Some err \<Rightarrow> Inl (OpenStore err)
         | None \<Rightarrow>
           (case bt_serverTLS b of
              Some err \<Rightarrow> Inl (LoadServerTLS err)
            | None \<Rightarrow>
              (case bt_clientTLS b of
                 Some err \<Rightarrow> Inl (LoadClientTLS err)
               | None \<Rightarrow>
                 (let auditLog = start_log st in
                  case NewEngine ks cfg (Some auditLog) (Some crl_New) of
                    Inl err \<Rightarrow> Inl (CreateEngine err)
                  | Inr engine \<Rightarrow>
                    (let gw = node_gateway cfg engine auditLog;
                         srv = node_server (bt_now b) cfg configPath signingKey gw
                     in case bt_listen b of
                          Some err \<Rightarrow> Inl (CreateGrpcServer err)
                        | None \<Rightarrow>
                          Inr \<lparr>nd_srv = srv,
                               nd_grpc = NewAdapterWithDiscovery gw None (sv_Peers srv) (node_deps (bt_now b) ks cfg),
                               nd_storage = st, nd_decay = trustdecay_New (30 * 24 * hour),
                               nd_gen = (if nw_Peers (cfg_Network cfg) \<noteq> Map.empty then Some (dummy_New cfg) else None),
                               nd_watch =
                                 (if configPath \<noteq> ''''
                                  then Some \<lparr>ws_lastMod = None,
                                             ws_reload = \<lparr>rl_lastVersion = nc_PolicyVersion (cfg_Node cfg), rl_warned = 0\<rparr>\<rparr>
                                  else None)\<rparr>))))))"

text \<open>The readers behind the three gauges of \<open>/metrics\<close>; \<open>pord\<close> orders the peer registry.\<close>

definition node_gauges :: "(peer_Registry \<Rightarrow> string list) \<Rightarrow> node \<Rightarrow> nat \<times> nat \<times> nat" where
  "node_gauges pord n =
     ((case fw_dlq (sv_fwd (nd_srv n)) of Some d \<Rightarrow> dlq_Size d | None \<Rightarrow> 0),
      (case fw_transitCache (sv_fwd (nd_srv n)) of Some tc \<Rightarrow> transit_Len tc | None \<Rightarrow> 0),
      (case ga_peerRegistry (nd_grpc n) of Some r \<Rightarrow> length (Known (pord r) r) | None \<Rightarrow> 0))"

subsection \<open>Callbacks\<close>

definition event_of :: "Envelope \<Rightarrow> inbox_Event" where
  "event_of env =
     \<lparr>ie_IdempotencyKey = ev_IdempotencyKey env, ie_SenderRegion = ev_SenderRegion env,
      ie_RecipientRegion = ev_RecipientRegion env, ie_TrustTier = ev_TrustTier env, ie_Payload = ev_Payload env,
      ie_Timestamp = ev_Timestamp env\<rparr>"

text \<open>
  The callbacks that \<open>Run\<close> registers; \<open>sord\<close> is the order of the subscriber table. The
  notifier posts webhooks (theory \<open>Webhook\<close>) and changes nothing of the node.
\<close>

fun count_event :: "gw_event \<Rightarrow> metrics_Registry \<Rightarrow> metrics_Registry" where
  "count_event (OnAllow env) m = IncAllow m"
| "count_event (OnDeny reason) m = IncDeny reason m"
| "count_event OnDuplicate m = IncDuplicate m"
| "count_event (NotifyAll env) m = m"

fun publish_event :: "(Inbox_state \<Rightarrow> 64 word list) \<Rightarrow> gw_event \<Rightarrow> Inbox_state \<Rightarrow> Inbox_state" where
  "publish_event sord (OnAllow env) ib = Publish (sord ib) (event_of env) ib"
| "publish_event sord _ ib = ib"

definition on_events :: "(Inbox_state \<Rightarrow> 64 word list) \<Rightarrow> gw_event list \<Rightarrow> node \<Rightarrow> node" where
  "on_events sord evs n =
     n\<lparr>nd_srv := (nd_srv n)\<lparr>sv_Inbox := map_option (fold (publish_event sord) evs) (sv_Inbox (nd_srv n))\<rparr>,
       nd_grpc := (nd_grpc n)\<lparr>ga_metricsReg := map_option (fold count_event evs) (ga_metricsReg (nd_grpc n))\<rparr>\<rparr>"

subsection \<open>Requests\<close>

definition node_http ::
  "'w http_env \<Rightarrow> (Inbox_state \<Rightarrow> 64 word list) \<Rightarrow> http_request \<Rightarrow> http_call \<Rightarrow> node \<Rightarrow> 'w \<Rightarrow>
   http_response \<times> node \<times> 'w" where
  "node_http E sord r call n w =
     (case ServeHTTP E r call (nd_srv n) w of
        (resp, s, w', evs) \<Rightarrow> (resp, on_events sord evs (n\<lparr>nd_srv := s\<rparr>), w'))"

definition grpc_view :: "node \<Rightarrow> 'w \<Rightarrow> 'w grpc_state" where
  "grpc_view n w =
     \<lparr>gs_adapter = (nd_grpc n)\<lparr>ga_gw := sv_gw (nd_srv n), ga_peerCache := sv_Peers (nd_srv n)\<rparr>,
      gs_fwd = sv_fwd (nd_srv n), gs_world = w, gs_events = []\<rparr>"

definition grpc_back :: "'w grpc_state \<Rightarrow> node \<Rightarrow> node" where
  "grpc_back st n =
     n\<lparr>nd_grpc := gs_adapter st,
       nd_srv := (nd_srv n)\<lparr>sv_gw := ga_gw (gs_adapter st), sv_Peers := ga_peerCache (gs_adapter st),
                            sv_fwd := gs_fwd st\<rparr>\<rparr>"

definition node_grpc ::
  "'w grpc_env \<Rightarrow> (Inbox_state \<Rightarrow> 64 word list) \<Rightarrow> string \<Rightarrow> rpc_request option \<Rightarrow> node \<Rightarrow> 'w \<Rightarrow>
   (grpc_error + rpc_response) option \<times> node \<times> 'w" where
  "node_grpc G sord methodName body n w =
     (case GatewayService G methodName body None (grpc_view n w) of
        None \<Rightarrow> (None, n, w)
      | Some (res, st) \<Rightarrow> (Some res, on_events sord (gs_events st) (grpc_back st n), gs_world st))"

subsection \<open>Background loops\<close>

text \<open>One tick of the dummy traffic generator; its envelopes go to the node's own gateway.\<close>

definition node_dummy ::
  "(string \<Rightarrow> string) \<Rightarrow> (nat \<Rightarrow> int) \<Rightarrow> (nat \<Rightarrow> nat \<Rightarrow> int) \<Rightarrow> bool \<Rightarrow> (fwd_error, forwarder \<times> 'w) forward_fun \<Rightarrow>
   (Inbox_state \<Rightarrow> 64 word list) \<Rightarrow> PeerConfig list \<Rightarrow> node \<Rightarrow> 'w \<Rightarrow> node \<times> 'w" where
  "node_dummy digest tclk clk cancelled fwd sord peers n w =
     (case nd_gen n of
        None \<Rightarrow> (n, w)
      | Some gen \<Rightarrow>
          if \<not> dummy_enabled peers gen then (n, w)
          else case dummy_tick tclk peers gen of
            (envs, gen') \<Rightarrow>
              (case send_all digest clk cancelled (if sv_forwarding (nd_srv n) then Some fwd else None) envs
                      (sv_gw (nd_srv n)) (sv_fwd (nd_srv n), w) of
                 (g, (f, w'), evs) \<Rightarrow>
                   (on_events sord evs (n\<lparr>nd_gen := Some gen', nd_srv := (nd_srv n)\<lparr>sv_gw := g, sv_fwd := f\<rparr>\<rparr>), w')))"

definition node_poll ::
  "(string set \<Rightarrow> string list) \<Rightarrow> int option \<times> (load_error + Config) \<Rightarrow> node \<Rightarrow> node" where
  "node_poll order p n =
     (case nd_watch n of
        None \<Rightarrow> n
      | Some ws \<Rightarrow>
          (case poll order p ws (sv_gw (nd_srv n)) of
             (ws', g) \<Rightarrow> n\<lparr>nd_watch := Some ws', nd_srv := (nd_srv n)\<lparr>sv_gw := g\<rparr>\<rparr>))"

definition node_purge :: "int \<Rightarrow> string list list \<Rightarrow> node \<Rightarrow> node" where
  "node_purge now orders n =
     (let g = sv_gw (nd_srv n)
      in n\<lparr>nd_srv := (nd_srv n)\<lparr>sv_gw := g\<lparr>gw_dedup := dedup_Purge now orders (gw_dedup g)\<rparr>\<rparr>\<rparr>)"

definition discovery_purge :: "int \<Rightarrow> string list list \<Rightarrow> node \<Rightarrow> node" where
  "discovery_purge now orders n =
     n\<lparr>nd_grpc := (nd_grpc n)\<lparr>ga_broadcaster :=
         map_option (\<lambda>b. b\<lparr>bc_dedup := dedup_Purge now orders (bc_dedup b)\<rparr>) (ga_broadcaster (nd_grpc n))\<rparr>\<rparr>"

definition node_token_purge :: "int \<Rightarrow> (token_store \<Rightarrow> string list) \<Rightarrow> node \<Rightarrow> node" where
  "node_token_purge now tord n =
     n\<lparr>nd_grpc := (nd_grpc n)\<lparr>ga_tokenStore := map_option (\<lambda>ts. token_Purge (tord ts) now ts) (ga_tokenStore (nd_grpc n))\<rparr>\<rparr>"

text \<open>A tick of \<open>runTransitRetry\<close>: \<open>ks\<close> orders the buffer, \<open>clk\<close> is read by every append.\<close>

fun append_expired :: "(nat \<Rightarrow> int) \<Rightarrow> transit_Entry list \<Rightarrow> DLQ \<Rightarrow> DLQ" where
  "append_expired clk [] d = d"
| "append_expired clk (e # es) d =
     append_expired (\<lambda>i. clk (Suc i)) es (dlq_Append (clk 0) (new_entry (te_Env e) (te_PeerAddr e)) d)"

definition transit_tick :: "int \<Rightarrow> (nat \<Rightarrow> int) \<Rightarrow> string list \<Rightarrow> forwarder \<Rightarrow> forwarder" where
  "transit_tick now clk ks f =
     (case fw_transitCache f of
        None \<Rightarrow> f
      | Some tc \<Rightarrow>
          (case Drain ks now tc of
             (es, tc') \<Rightarrow> f\<lparr>fw_transitCache := Some tc', fw_dlq := map_option (append_expired clk es) (fw_dlq f)\<rparr>))"

definition node_transit :: "int \<Rightarrow> (nat \<Rightarrow> int) \<Rightarrow> string list \<Rightarrow> node \<Rightarrow> node" where
  "node_transit now clk ks n = n\<lparr>nd_srv := (nd_srv n)\<lparr>sv_fwd := transit_tick now clk ks (sv_fwd (nd_srv n))\<rparr>\<rparr>"

subsection \<open>Gossip\<close>

definition gossip_interval :: "Config \<Rightarrow> int" where
  "gossip_interval cfg =
     (if nw_PeerGossipInterval (cfg_Network cfg) \<le> 0 then 120 * second else nw_PeerGossipInterval (cfg_Network cfg))"

text \<open>
  \<open>dialAndExchange\<close>: the peers known at the time go out, those that come back are announced.
  \<open>clk\<close> is read by every announcement.
\<close>

fun announce_all :: "(nat \<Rightarrow> int) \<Rightarrow> PeerEntry list \<Rightarrow> peer_Registry \<Rightarrow> peer_Registry" where
  "announce_all clk [] reg = reg"
| "announce_all clk (p # ps) reg = announce_all (\<lambda>i. clk (Suc i)) ps (Announce (clk 0) (peer_info_of p) reg)"

definition dialAndExchange ::
  "(nat \<Rightarrow> int) \<Rightarrow> (peer_Registry \<Rightarrow> string list) \<Rightarrow> Config \<Rightarrow> 'u net \<Rightarrow> string \<Rightarrow> peer_Registry \<times> 'u \<Rightarrow>
   peer_Registry \<times> 'u" where
  "dialAndExchange clk pord cfg net addr st =
     (case st of (reg, u) \<Rightarrow>
        (case nt_connect net addr u of
           (Some err, u1) \<Rightarrow> (reg, u1)
         | (None, u1) \<Rightarrow>
             (case client_ExchangePeers (nt_conn net addr)
                     \<lparr>pl_SenderNodeID = nc_NodeID (cfg_Node cfg),
                      pl_KnownPeers = map peer_entry_of (Known (pord reg) reg)\<rparr> u1 of
                (Inl err, u2) \<Rightarrow> (reg, u2)
              | (Inr peers, u2) \<Rightarrow> (announce_all clk peers reg, u2))))"

fun exchange_all ::
  "(nat \<Rightarrow> nat \<Rightarrow> int) \<Rightarrow> (peer_Registry \<Rightarrow> string list) \<Rightarrow> Config \<Rightarrow> 'u net \<Rightarrow> string list \<Rightarrow> peer_Registry \<times> 'u \<Rightarrow>
   peer_Registry \<times> 'u" where
  "exchange_all clk pord cfg net [] st = st"
| "exchange_all clk pord cfg net (addr # addrs) st =
     exchange_all (\<lambda>i. clk (Suc i)) pord cfg net addrs (dialAndExchange (clk 0) pord cfg net addr st)"

text \<open>The seeds at start, and a tick: evict what is stale, then talk to every known peer.\<close>

definition bootstrap ::
  "(nat \<Rightarrow> nat \<Rightarrow> int) \<Rightarrow> (peer_Registry \<Rightarrow> string list) \<Rightarrow> Config \<Rightarrow> 'u net \<Rightarrow> peer_Registry \<times> 'u \<Rightarrow> peer_Registry \<times> 'u" where
  "bootstrap clk pord cfg net st = exchange_all clk pord cfg net (nw_BootstrapNodes (cfg_Network cfg)) st"

definition gossip_tick ::
  "int \<Rightarrow> (nat \<Rightarrow> nat \<Rightarrow> int) \<Rightarrow> (peer_Registry \<Rightarrow> string list) \<Rightarrow> Config \<Rightarrow> 'u net \<Rightarrow> peer_Registry \<times> 'u \<Rightarrow>
   peer_Registry \<times> 'u" where
  "gossip_tick now clk pord cfg net st =
     (case st of (reg, u) \<Rightarrow>
        let staleAge = 5 * gossip_interval cfg;
            reg1 = EvictStale (pord reg) now staleAge reg
        in exchange_all clk pord cfg net (map pi_Addr (Known (pord reg1) reg1)) (reg1, u))"

text \<open>A tick of \<open>runGossip\<close>: the same root hash and time go to every configured peer.\<close>

fun share_root :: "RootHashMessage \<Rightarrow> 'u net \<Rightarrow> PeerConfig list \<Rightarrow> 'u \<Rightarrow> 'u" where
  "share_root msg net [] u = u"
| "share_root msg net (peer # peers) u =
     (case nt_connect net (pc_Addr peer) u of
        (Some err, u1) \<Rightarrow> share_root msg net peers u1
      | (None, u1) \<Rightarrow> share_root msg net peers (snd (client_ShareRootHash (nt_conn net (pc_Addr peer)) msg u1)))"

definition root_gossip :: "int \<Rightarrow> string list \<Rightarrow> Config \<Rightarrow> audit_Log \<Rightarrow> 'u net \<Rightarrow> 'u \<Rightarrow> 'u" where
  "root_gossip now ks cfg auditLog net u =
     share_root \<lparr>rh_NodeID = nc_NodeID (cfg_Node cfg), rh_RootHash = RootHash auditLog,
                 rh_Timestamp = unix_sec now, rh_Signature = ''''\<rparr>
       net (List.map_filter (nw_Peers (cfg_Network cfg)) ks) u"

definition root_gossip_enabled :: "Config \<Rightarrow> bool" where
  "root_gossip_enabled cfg \<longleftrightarrow>
     ap_RootHashGossip (pol_Audit (cfg_Policy cfg)) \<and> ap_DNSTXTInterval (pol_Audit (cfg_Policy cfg)) > 0 \<and>
     nw_Peers (cfg_Network cfg) \<noteq> Map.empty"

definition shutdownTimeout :: "Config \<Rightarrow> int" where
  "shutdownTimeout cfg =
     (if nw_ShutdownTimeout (cfg_Network cfg) > 0 then nw_ShutdownTimeout (cfg_Network cfg) else 5 * second)"

subsection \<open>Runs\<close>

text \<open>
  A step is one request or one tick. The gossip goroutines run concurrently with everything
  else, so of their effect on the node only the two kinds of access to the registry are
  steps: evicting stale peers and announcing the peers of an answer.
\<close>

definition sub_orders :: "(Inbox_state \<Rightarrow> 64 word list) \<Rightarrow> bool" where
  "sub_orders sord \<longleftrightarrow> (\<forall>ib. finite (dom (in_subs ib)) \<longrightarrow> enumerates (sord ib) (in_subs ib))"

inductive node_step ::
  "(string \<Rightarrow> string) \<Rightarrow> (fwd_error, forwarder \<times> 'w) forward_fun \<Rightarrow> node \<times> 'w \<Rightarrow> node \<times> 'w \<Rightarrow> bool"
  for digest fwd where
  http: "\<lbrakk>env_ok E call; he_digest E = digest; he_fwd E = fwd; sub_orders sord;
          node_http E sord r call n w = (resp, n', w')\<rbrakk> \<Longrightarrow> node_step digest fwd (n, w) (n', w')"
| grpc: "\<lbrakk>ge_digest G = digest; ge_fwd G = (if sv_forwarding (nd_srv n) then Some fwd else None); sub_orders sord;
          node_grpc G sord m body n w = (res, n', w')\<rbrakk> \<Longrightarrow> node_step digest fwd (n, w) (n', w')"
| dummy: "\<lbrakk>sub_orders sord; node_dummy digest tclk clk c fwd sord peers n w = (n', w')\<rbrakk> \<Longrightarrow>
          node_step digest fwd (n, w) (n', w')"
| reload: "loads_ok order [p] \<Longrightarrow> node_step digest fwd (n, w) (node_poll order p n, w)"
| purge: "shard_orders orders (gw_dedup (sv_gw (nd_srv n))) \<Longrightarrow>
          node_step digest fwd (n, w) (node_purge now orders n, w)"
| discovery: "node_step digest fwd (n, w) (discovery_purge now orders n, w)"
| tokens: "node_step digest fwd (n, w) (node_token_purge now tord n, w)"
| transit: "(\<And>tc. fw_transitCache (sv_fwd (nd_srv n)) = Some tc \<Longrightarrow> enumerates ks (tc_entries tc)) \<Longrightarrow>
          node_step digest fwd (n, w) (node_transit now clk ks n, w)"
| evict: "node_step digest fwd (n, w)
          (n\<lparr>nd_grpc := (nd_grpc n)\<lparr>ga_peerRegistry := map_option (EvictStale ks now age) (ga_peerRegistry (nd_grpc n))\<rparr>\<rparr>, w')"
| announce: "node_step digest fwd (n, w)
          (n\<lparr>nd_grpc := (nd_grpc n)\<lparr>ga_peerRegistry := map_option (announce_all clk ps) (ga_peerRegistry (nd_grpc n))\<rparr>\<rparr>, w')"
| stream_read: "node_step digest fwd (n, w) (n\<lparr>nd_srv := snd (stream_next sid (nd_srv n))\<rparr>, w)"
| stream_end: "node_step digest fwd (n, w) (n\<lparr>nd_srv := stream_close sid (nd_srv n)\<rparr>, w)"

inductive_cases node_stepE: "node_step digest fwd st st'"

inductive node_reach ::
  "(string \<Rightarrow> string) \<Rightarrow> (fwd_error, forwarder \<times> 'w) forward_fun \<Rightarrow> node \<times> 'w \<Rightarrow> node \<times> 'w \<Rightarrow> bool"
  for digest fwd st0 where
  here: "node_reach digest fwd st0 st0"
| further: "\<lbrakk>node_reach digest fwd st0 st; node_step digest fwd st st'\<rbrakk> \<Longrightarrow> node_reach digest fwd st0 st'"

end
