(* ===== verification/Node_Props.thy ===== *)
theory Node_Props
  imports Node
begin

text \<open>
  What holds of a running node, whatever mix of HTTP requests, gRPC calls and background ticks
  it has seen: the invariants of its components, and that the counters of \<open>/metrics\<close> count
  the entries of the audit log. Envelopes in custody survive the transit loop, and a root hash
  that is gossiped arrives.
\<close>

subsection \<open>Counters and the audit log\<close>

definition decided :: "string \<Rightarrow> audit_Log \<Rightarrow> nat" where
  "decided d l = length (filter (\<lambda>e. ae_Decision e = d) (lg_entries l))"

definition denied_for :: "string \<Rightarrow> audit_Log \<Rightarrow> nat" where
  "denied_for reason l = length (filter (\<lambda>e. ae_Decision e = DecisionDeny \<and> ae_Reason e = reason) (lg_entries l))"

definition deny_count :: "metrics_Registry \<Rightarrow> string \<Rightarrow> int" where
  "deny_count m reason = (case mt_denyByReason m reason of Some c \<Rightarrow> c | None \<Rightarrow> 0)"

definition metrics_ok :: "audit_Log \<Rightarrow> metrics_Registry \<Rightarrow> bool" where
  "metrics_ok l m \<longleftrightarrow>
     mt_allowTotal m = int64_wrap (int (decided DecisionAllow l)) \<and>
     mt_duplicateTotal m = int64_wrap (int (decided DecisionDuplicate l)) \<and>
     (\<forall>reason. deny_count m reason = int64_wrap (int (denied_for reason l)))"

definition callbacks_on :: "gateway \<Rightarrow> bool" where
  "callbacks_on g \<longleftrightarrow> gw_onAllow g \<and> gw_onDeny g \<and> gw_onDuplicate g"

text \<open>The events of an operation account for the entries it appended.\<close>

definition counted :: "gateway \<Rightarrow> gw_event list \<Rightarrow> gateway \<Rightarrow> bool" where
  "counted g evs g' \<longleftrightarrow>
     (callbacks_on g \<longrightarrow> callbacks_on g' \<and>
        (\<forall>m. metrics_ok (gw_audit g) m \<longrightarrow> metrics_ok (gw_audit g') (fold count_event evs m)))"

lemma int64_wrap_add:
  "int64_wrap (int64_wrap x + y) = int64_wrap (x + y)" "int64_wrap (y + int64_wrap x) = int64_wrap (y + x)"
proof -
  have "((x + 2 ^ 63) mod 2 ^ 64 - 2 ^ 63 + y + 2 ^ 63) mod 2 ^ 64 = ((x + 2 ^ 63) mod 2 ^ 64 + y) mod (2 ^ 64 :: int)"
    by (rule arg_cong [where f = "\<lambda>z. z mod 2 ^ 64"]) simp
  also have "\<dots> = (x + 2 ^ 63 + y) mod 2 ^ 64" by (rule mod_add_left_eq)
  also have "\<dots> = (x + y + 2 ^ 63) mod 2 ^ 64" by (simp only: ac_simps)
  finally show "int64_wrap (int64_wrap x + y) = int64_wrap (x + y)" unfolding int64_wrap_def by simp
  then show "int64_wrap (y + int64_wrap x) = int64_wrap (y + x)" by (simp only: add.commute)
qed

lemma counted_same:
  "gw_audit g' = gw_audit g \<Longrightarrow> gw_onAllow g' = gw_onAllow g \<Longrightarrow> gw_onDeny g' = gw_onDeny g \<Longrightarrow>
   gw_onDuplicate g' = gw_onDuplicate g \<Longrightarrow> counted g [] g'"
  by (simp add: counted_def callbacks_on_def)

lemma counted_trans: "counted g evs g1 \<Longrightarrow> counted g1 evs' g2 \<Longrightarrow> counted g (evs @ evs') g2"
  by (simp add: counted_def)

lemma SendEnvelope_callbacks:
  assumes "SendEnvelope digest clk c fwd env g s = (res, g', s', evs)"
  shows "gw_onAllow g' = gw_onAllow g" "gw_onDeny g' = gw_onDeny g" "gw_onDuplicate g' = gw_onDuplicate g"
  using assms
  by (cases rule: SendEnvelope_elim;
      auto simp: after_evaluate_def after_register_def Let_def elim!: forward_allowed_cases)+

lemma decided_Append:
  "lg_entries l' = lg_entries l @ [e] \<Longrightarrow> decided d l' = decided d l + (if ae_Decision e = d then 1 else 0)"
  "lg_entries l' = lg_entries l @ [e] \<Longrightarrow>
     denied_for r l' = denied_for r l + (if ae_Decision e = DecisionDeny \<and> ae_Reason e = r then 1 else 0)"
  by (simp_all add: decided_def denied_for_def)

text \<open>An entry under any of the other decisions leaves the counters right.\<close>

lemma metrics_ok_step:
  assumes "metrics_ok l m" "lg_entries l' = lg_entries l @ [e]"
  shows "ae_Decision e = DecisionAllow \<Longrightarrow> metrics_ok l' (IncAllow m)"
    and "ae_Decision e = DecisionDuplicate \<Longrightarrow> metrics_ok l' (IncDuplicate m)"
    and "ae_Decision e = DecisionDeny \<Longrightarrow> metrics_ok l' (IncDeny (ae_Reason e) m)"
    and "ae_Decision e \<notin> {DecisionAllow, DecisionDuplicate, DecisionDeny} \<Longrightarrow> metrics_ok l' m"
  using assms
  by (auto simp: metrics_ok_def decided_Append [OF assms(2)] IncAllow_def IncDuplicate_def IncDeny_def deny_count_def Let_def
      int64_wrap_add ac_simps split: option.splits)

lemma SendEnvelope_counted:
  assumes "SendEnvelope digest clk c fwd env g s = (res, g', s', evs)"
  shows "counted g evs g'"
proof -
  have "metrics_ok (gw_audit g') (fold count_event evs m)" if "callbacks_on g" "metrics_ok (gw_audit g) m" for m
    using assms
  proof (cases rule: SendEnvelope_elim)
    case (dummy r)
    then show ?thesis using that by (auto intro!: metrics_ok_step(4) [OF that(2)] simp: Append_entries Append_fields decision_defs)
  next
    case (dup r)
    then show ?thesis using that metrics_ok_step(2) [OF that(2) Append_entries]
      by (simp add: callbacks_on_def Append_fields)
  next
    case (denied r)
    then have "res_Decision (decision_of g (norm_env env)) = DecisionDeny"
      using evaluate_result_cases [of "gw_policyCfg g" "gw_crl g"] by (auto simp: decision_of_def)
    then show ?thesis using denied that metrics_ok_step(3) [OF that(2) Append_entries]
      by (simp add: callbacks_on_def Append_fields)
  next
    case (allowed r)
    have a: "metrics_ok (gw_audit (after_evaluate digest clk (norm_env env) g)) (IncAllow m)"
      using allowed(5) metrics_ok_step(1) [OF that(2) Append_entries] by (simp add: Append_fields)
    have "metrics_ok (gw_audit g') (IncAllow m)"
      using allowed(6)
    proof (cases rule: forward_allowed_cases)
      case (final F)
      then show ?thesis using metrics_ok_step(4) [OF a AppendFinality_entries(1)]
        by (simp add: AppendFinality_entries decision_defs)
    qed (use a in auto)
    then show ?thesis using allowed that(1) by (simp add: callbacks_on_def)
  qed (use that in auto)
  then show ?thesis using SendEnvelope_callbacks [OF assms] by (simp add: counted_def callbacks_on_def)
qed

lemma send_all_counted: "send_all digest clk c fwd envs g s = (g', s', evs) \<Longrightarrow> counted g evs g'"
proof (induction digest clk c fwd envs g s arbitrary: g' s' evs rule: send_all.induct)
  case (2 digest clk c fwd env envs g s)
  then show ?case by (auto split: prod.splits intro!: counted_trans dest: SendEnvelope_counted)
qed (auto intro: counted_same)

subsection \<open>Requests are counted\<close>

lemma gateway_send_counted: "gateway_send E n env s w = (res, s', w', evs) \<Longrightarrow> counted (sv_gw s) evs (sv_gw s')"
  by (auto simp: gateway_send_def split: prod.splits dest: SendEnvelope_counted)

lemma sending_handlers_counted:
  "handle_envelopes E b s w = (resp, s', w', evs) \<Longrightarrow> counted (sv_gw s) evs (sv_gw s')"
  "handle_dlq_replay E i s w = (resp, s', w', evs) \<Longrightarrow> counted (sv_gw s) evs (sv_gw s')"
  by (auto simp: handle_envelopes_def handle_dlq_replay_def Let_def
      split: if_splits option.splits prod.splits sum.splits dest: gateway_send_counted intro: counted_same)

text \<open>What every other operation keeps of a gateway.\<close>

definition same_log :: "gateway \<Rightarrow> gateway \<Rightarrow> bool" where
  "same_log g g' \<longleftrightarrow>
     gw_audit g' = gw_audit g \<and> gw_onAllow g' = gw_onAllow g \<and> gw_onDeny g' = gw_onDeny g \<and>
     gw_onDuplicate g' = gw_onDuplicate g"

lemma same_log_counted: "same_log g g' \<Longrightarrow> counted g [] g'"
  by (simp add: same_log_def counted_same)

lemma same_log_refl [simp]: "same_log g g"
  by (simp add: same_log_def)

lemma same_log_updates [simp]:
  "same_log g (h\<lparr>gw_crl := cs\<rparr>) = same_log g h" "same_log g (h\<lparr>gw_policyCfg := c\<rparr>) = same_log g h"
  "same_log g (h\<lparr>gw_dedup := d\<rparr>) = same_log g h"
  by (simp_all add: same_log_def)

lemma same_log_Reload: "Reload ks cfg (engine_of g) = (err, e) \<Longrightarrow> same_log g (put_engine e g)"
  by (auto simp: same_log_def Reload_def engine_of_def put_engine_def split: option.splits)

lemma configuring_handlers_same_log:
  "same_log (sv_gw s) (sv_gw (snd (handle_crl_post E cb s)))" "same_log (sv_gw s) (sv_gw (snd (handle_revoke E n vb s)))"
  "same_log (sv_gw s) (sv_gw (snd (handle_config_reload E s)))" "same_log (sv_gw s) (sv_gw (snd (handle_put_config E fb s)))"
  by (auto simp: handle_crl_post_def handle_revoke_def handle_config_reload_def handle_put_config_def onReload_def
      onConfigSave_def crl_set_def Let_def dest: same_log_Reload split: option.splits prod.splits sum.splits)

lemma mux_counted:
  assumes "mux E r call s w = (resp, s', w', evs)"
  shows "counted (sv_gw s) evs (sv_gw s')"
proof (cases "\<exists>b i. call = PostEnvelopes b \<or> call = ReplayDLQ i")
  case True
  then show ?thesis using assms by (auto simp: mux_def dest: sending_handlers_counted)
next
  case False
  then have "evs = [] \<and> same_log (sv_gw s) (sv_gw s')"
    using assms
    by (cases call) (auto simp: mux_def with_scope_authority reading_def writing_def local_handlers_frame
        configuring_handlers_same_log split: if_splits)
  then show ?thesis using same_log_counted by blast
qed

lemma ServeHTTP_counted:
  "ServeHTTP E r call s w = (resp, s', w', evs) \<Longrightarrow> counted (sv_gw s) evs (sv_gw s')"
  by (auto simp: ServeHTTP_def split: if_splits intro: counted_same dest: mux_counted)

text \<open>Calls of the service: their events, the gateway, and the counters they touch themselves.\<close>

definition rate_counted :: "metrics_Registry option \<Rightarrow> metrics_Registry option \<Rightarrow> bool" where
  "rate_counted m m' \<longleftrightarrow> m' = m \<or> m' = map_option IncRateLimitDeny m"

lemma metrics_ok_rate [simp]: "metrics_ok l (IncRateLimitDeny m) = metrics_ok l m"
  by (simp add: metrics_ok_def IncRateLimitDeny_def deny_count_def)

lemma BroadcastDiscovery_rate:
  "BroadcastDiscovery fl H call clk rand pks aks uks req a w = (r, a', w') \<Longrightarrow>
   ga_gw a' = ga_gw a \<and> ga_peerRegistry a' = ga_peerRegistry a \<and> rate_counted (ga_metricsReg a) (ga_metricsReg a')"
  by (auto simp: BroadcastDiscovery_def rate_counted_def Let_def split: option.splits prod.splits if_splits list.splits)

lemma adapter_SendEnvelope_counted:
  assumes "adapter_SendEnvelope ed_verify digest clk c fwd nilp env a s = (res, a', s', evs)"
  shows "counted (ga_gw a) evs (ga_gw a') \<and> ga_metricsReg a' = ga_metricsReg a \<and> ga_peerRegistry a' = ga_peerRegistry a \<and>
    ga_peerCache a' = ga_peerCache a"
  using assms
  by (auto simp: adapter_SendEnvelope_def Let_def split: if_splits prod.splits sum.splits gateway_error.splits
      intro: counted_same dest: SendEnvelope_counted)

lemma serve_counted:
  assumes "serve G req st = (res, st')"
  shows "\<exists>evs. gs_events st' = gs_events st @ evs \<and> counted (ga_gw (gs_adapter st)) evs (ga_gw (gs_adapter st')) \<and>
    rate_counted (ga_metricsReg (gs_adapter st)) (ga_metricsReg (gs_adapter st'))"
proof (cases req)
  case (SendEnvelopeRequest env)
  then show ?thesis using assms
    by (auto simp: serve_def svc_SendEnvelope_def rate_counted_def split: prod.splits dest!: adapter_SendEnvelope_counted)
next
  case (BroadcastDiscoveryRequest d)
  then show ?thesis using assms
    by (auto simp: serve_def svc_BroadcastDiscovery_def split: prod.splits
        dest!: BroadcastDiscovery_rate intro!: counted_same)
next
  case (ConnectPeerRequest c)
  then show ?thesis
    using assms adapter_Connect_frame [of "ge_H G" "ge_clk G" "ge_tord G" "ge_uuid G" c "gs_adapter st"]
    by (auto simp: serve_def svc_Connect_def rate_counted_def split: prod.splits intro!: counted_same)
next
  case (ExchangePeersRequest p)
  then show ?thesis
    using assms ExchangePeers_frame [of "ge_clk G 0" "ge_pord G" p "gs_adapter st"]
    by (auto simp: serve_def svc_ExchangePeers_def rate_counted_def split: prod.splits intro!: counted_same)
qed (use assms in \<open>auto simp: serve_def svc_GetNodeInfo_def svc_ShareRootHash_def ShareRootHash_def rate_counted_def
       intro!: counted_same\<close>)

subsection \<open>The invariant of the node\<close>

definition node_inv :: "(string \<Rightarrow> string) \<Rightarrow> node \<Rightarrow> bool" where
  "node_inv digest n \<longleftrightarrow>
     http_inv digest (nd_srv n) \<and> callbacks_on (sv_gw (nd_srv n)) \<and>
     (\<exists>m. ga_metricsReg (nd_grpc n) = Some m \<and> metrics_ok (gw_audit (sv_gw (nd_srv n))) m) \<and>
     (\<forall>r. ga_peerRegistry (nd_grpc n) = Some r \<longrightarrow> registry_inv r)"

lemma node_invE:
  assumes "node_inv digest n"
  obtains m where "http_inv digest (nd_srv n)" "callbacks_on (sv_gw (nd_srv n))" "ga_metricsReg (nd_grpc n) = Some m"
    "metrics_ok (gw_audit (sv_gw (nd_srv n))) m" "\<And>r. ga_peerRegistry (nd_grpc n) = Some r \<Longrightarrow> registry_inv r"
  using assms unfolding node_inv_def by blast

lemma inbox_inv_Publish:
  assumes "inbox_inv ib" "sub_orders sord"
  shows "inbox_inv (Publish (sord ib) e ib)"
proof -
  have "enumerates (sord ib) (in_subs ib)" using assms by (simp add: sub_orders_def inbox_inv_def)
  from Publish_lookup [OF this] have "in_subs (Publish (sord ib) e ib) = map_option (chan_send e) \<circ> in_subs ib" by auto
  then show ?thesis using assms(1) by (auto simp: inbox_inv_def chan_send_bound dom_map_option_comp)
qed

lemma publish_all_inv: "inbox_inv ib \<Longrightarrow> sub_orders sord \<Longrightarrow> inbox_inv (fold (publish_event sord) evs ib)"
proof (induction evs arbitrary: ib)
  case (Cons ev evs)
  then show ?case by (cases ev) (auto intro: inbox_inv_Publish)
qed simp

lemma tables_inv_inbox:
  "tables_inv s \<Longrightarrow> sub_orders sord \<Longrightarrow>
   tables_inv (s\<lparr>sv_Inbox := map_option (fold (publish_event sord) evs) (sv_Inbox s)\<rparr>)"
  by (auto simp: tables_inv_def publish_all_inv)

text \<open>After an operation on the gateway, the callbacks restore the invariant.\<close>

lemma on_events_inv:
  assumes "http_inv digest (nd_srv n)" "callbacks_on g" "counted g evs (sv_gw (nd_srv n))"
    and "ga_metricsReg (nd_grpc n) = Some m" "metrics_ok (gw_audit g) m" "sub_orders sord"
    and "\<And>r. ga_peerRegistry (nd_grpc n) = Some r \<Longrightarrow> registry_inv r"
  shows "node_inv digest (on_events sord evs n)"
  using assms by (auto simp: node_inv_def on_events_def http_inv_def counted_def tables_inv_inbox)

lemma node_http_inv:
  assumes "env_ok E call" "he_digest E = digest" "sub_orders sord" "node_http E sord r call n w = (resp, n', w')"
    and "node_inv digest n"
  shows "node_inv digest n'"
proof -
  obtain s evs where S: "ServeHTTP E r call (nd_srv n) w = (resp, s, w', evs)"
    and n': "n' = on_events sord evs (n\<lparr>nd_srv := s\<rparr>)"
    using assms(4) by (auto simp: node_http_def split: prod.splits)
  have "http_inv digest s" using ServeHTTP_inv [OF assms(1) S] assms(2,5) by (simp add: node_inv_def)
  then show ?thesis
    unfolding n' using assms(3) ServeHTTP_counted [OF S] by (rule_tac node_invE [OF assms(5)], intro on_events_inv) auto
qed

lemma announce_all_inv: "registry_inv r \<Longrightarrow> registry_inv (announce_all clk ps r)"
  by (induction clk ps r rule: announce_all.induct) (simp_all add: registry_inv_ops)

lemma serve_inv:
  assumes "serve G req st = (res, st')" "gw_inv (ge_digest G) (ga_gw (gs_adapter st))"
    and "\<And>r. ga_peerRegistry (gs_adapter st) = Some r \<Longrightarrow> registry_inv r"
  shows "gw_inv (ge_digest G) (ga_gw (gs_adapter st')) \<and>
    (\<forall>r. ga_peerRegistry (gs_adapter st') = Some r \<longrightarrow> registry_inv r)"
proof (cases req)
  case (SendEnvelopeRequest env)
  obtain r a f w evs where A: "adapter_SendEnvelope (ge_ed_verify G) (ge_digest G) (ge_clk G) (ge_cancelled G) (ge_fwd G)
      (ge_nilp G) env (gs_adapter st) (gs_fwd st, gs_world st) = (r, a, (f, w), evs)"
    by (metis prod_cases4 surj_pair)
  then show ?thesis
    using assms SendEnvelopeRequest adapter_SendEnvelope_inv [OF assms(2) A] adapter_SendEnvelope_counted [OF A]
    by (auto simp: serve_def svc_SendEnvelope_def)
next
  case (BroadcastDiscoveryRequest d)
  then show ?thesis using assms
    by (auto simp: serve_def svc_BroadcastDiscovery_def split: prod.splits dest!: BroadcastDiscovery_rate)
next
  case (ConnectPeerRequest c)
  then show ?thesis
    using assms adapter_Connect_frame [of "ge_H G" "ge_clk G" "ge_tord G" "ge_uuid G" c "gs_adapter st"]
    by (auto simp: serve_def svc_Connect_def split: prod.splits)
next
  case (ExchangePeersRequest p)
  then show ?thesis
    using assms merge_peers_inv
    by (auto simp: serve_def svc_ExchangePeers_def ExchangePeers_def Let_def split: prod.splits option.splits)
qed (use assms in \<open>auto simp: serve_def svc_GetNodeInfo_def svc_ShareRootHash_def ShareRootHash_def\<close>)

lemma node_grpc_inv:
  assumes "ge_digest G = digest" "sub_orders sord" "node_grpc G sord mname body n w = (res, n', w')" "node_inv digest n"
  shows "node_inv digest n'"
proof (cases "GatewayService G mname body None (grpc_view n w)")
  case None
  then show ?thesis using assms by (simp add: node_grpc_def)
next
  case (Some x)
  obtain r st where x: "x = (r, st)" by force
  have n': "n' = on_events sord (gs_events st) (grpc_back st n)" using assms(3) Some x by (simp add: node_grpc_def)
  have reg: "registry_inv q" if "ga_peerRegistry (gs_adapter (grpc_view n w)) = Some q" for q
    using that assms(4) by (simp add: grpc_view_def node_inv_def)
  have "(\<exists>req. serve G req (grpc_view n w) = (r, st)) \<or> st = grpc_view n w"
    using GatewayService_serves Some x by metis
  then have st: "counted (sv_gw (nd_srv n)) (gs_events st) (ga_gw (gs_adapter st)) \<and>
      rate_counted (ga_metricsReg (nd_grpc n)) (ga_metricsReg (gs_adapter st)) \<and>
      gw_inv digest (ga_gw (gs_adapter st)) \<and> (\<forall>q. ga_peerRegistry (gs_adapter st) = Some q \<longrightarrow> registry_inv q)"
  proof
    assume "\<exists>req. serve G req (grpc_view n w) = (r, st)"
    then obtain req where S: "serve G req (grpc_view n w) = (r, st)" by blast
    show ?thesis
      using serve_counted [OF S] serve_inv [OF S _ reg] assms(1,4) by (auto simp: grpc_view_def node_inv_def http_inv_def)
  qed (use assms(4) reg in \<open>auto simp: grpc_view_def node_inv_def http_inv_def rate_counted_def intro: counted_same\<close>)
  obtain m where m: "http_inv digest (nd_srv n)" "callbacks_on (sv_gw (nd_srv n))" "ga_metricsReg (nd_grpc n) = Some m"
    "metrics_ok (gw_audit (sv_gw (nd_srv n))) m"
    using assms(4) by (rule node_invE)
  obtain m' where m': "ga_metricsReg (gs_adapter st) = Some m'" "metrics_ok (gw_audit (sv_gw (nd_srv n))) m'"
    using st m(3,4) by (auto simp: rate_counted_def)
  show ?thesis
    unfolding n' using st m m' assms(2)
    by (intro on_events_inv [where g = "sv_gw (nd_srv n)" and m = m']) (auto simp: grpc_back_def http_inv_def tables_inv_def)
qed

lemma send_all_inv:
  "send_all digest clk c fwd envs g s = (g', s', evs) \<Longrightarrow> gw_inv digest g \<Longrightarrow> gw_inv digest g'"
proof (induction digest clk c fwd envs g s arbitrary: g' s' evs rule: send_all.induct)
  case (2 digest clk c fwd env envs g s)
  then show ?case by (auto split: prod.splits dest: SendEnvelope_inv)
qed simp

lemma node_dummy_inv:
  assumes "sub_orders sord" "node_dummy digest tclk clk c fwd sord peers n w = (n', w')" "node_inv digest n"
  shows "node_inv digest n'"
proof (cases "\<exists>gen. nd_gen n = Some gen \<and> dummy_enabled peers gen")
  case False
  then show ?thesis using assms by (auto simp: node_dummy_def split: option.splits if_splits)
next
  case True
  then obtain gen where gen: "nd_gen n = Some gen" "dummy_enabled peers gen" by blast
  obtain envs gen' where t: "dummy_tick tclk peers gen = (envs, gen')" by force
  obtain g f v evs where S: "send_all digest clk c (if sv_forwarding (nd_srv n) then Some fwd else None) envs
      (sv_gw (nd_srv n)) (sv_fwd (nd_srv n), w) = (g, (f, v), evs)"
    by (metis prod_cases3 surj_pair)
  have n': "n' = on_events sord evs (n\<lparr>nd_gen := Some gen', nd_srv := (nd_srv n)\<lparr>sv_gw := g, sv_fwd := f\<rparr>\<rparr>)"
    using assms(2) gen t S by (simp add: node_dummy_def)
  show ?thesis
    unfolding n' using assms(1) send_all_counted [OF S] send_all_inv [OF S]
    by (rule_tac node_invE [OF assms(3)], intro on_events_inv) (auto simp: http_inv_def)
qed

text \<open>Steps that leave the log and the counters alone.\<close>

lemma node_inv_frame:
  assumes "node_inv digest n" "http_inv digest (nd_srv n')" "same_log (sv_gw (nd_srv n)) (sv_gw (nd_srv n'))"
    and "ga_metricsReg (nd_grpc n') = ga_metricsReg (nd_grpc n)"
    and "\<And>r. ga_peerRegistry (nd_grpc n') = Some r \<Longrightarrow> registry_inv r"
  shows "node_inv digest n'"
  using assms by (auto simp: node_inv_def same_log_def callbacks_on_def)

lemma node_poll_inv:
  assumes "loads_ok order [p]" "node_inv digest n"
  shows "node_inv digest (node_poll order p n)"
proof (cases "nd_watch n")
  case (Some ws)
  obtain ws' g where P: "poll order p ws (sv_gw (nd_srv n)) = (ws', g)" by force
  note o = poll_observe [OF assms(1) P]
  have "config_ok (gw_policyCfg g)"
    using o assms by (auto simp: observe_def loads_ok_def node_inv_def http_inv_def gw_inv_def
        split: prod.splits option.splits if_splits sum.splits)
  then obtain c where c: "g = (sv_gw (nd_srv n))\<lparr>gw_policyCfg := c\<rparr>" "config_ok c" using o by blast
  then show ?thesis using assms(2) Some P
    by (intro node_inv_frame [OF assms(2)]) (auto simp: node_poll_def node_inv_def http_inv_def gw_inv_def)
qed (simp add: node_poll_def assms(2))

lemma node_purge_inv:
  assumes "shard_orders orders (gw_dedup (sv_gw (nd_srv n)))" "node_inv digest n"
  shows "node_inv digest (node_purge now orders n)"
  using assms dedup_inv_Purge
  by (intro node_inv_frame [OF assms(2)]) (auto simp: node_purge_def node_inv_def http_inv_def gw_inv_def Let_def)

lemma stream_frame:
  "sv_gw (snd (stream_next sid s)) = sv_gw s" "sv_gw (stream_close sid s) = sv_gw s"
  by (auto simp: stream_next_def stream_close_def split: option.splits prod.splits)

lemma node_step_inv:
  assumes "node_step digest fwd st st'" "node_inv digest (fst st)"
  shows "node_inv digest (fst st')"
  using assms
proof (cases rule: node_step.cases)
  case (http E call sord r n w resp n' w')
  then show ?thesis using node_http_inv assms(2) by fastforce
next
  case (grpc G n sord m body w res n' w')
  then show ?thesis using node_grpc_inv assms(2) by fastforce
next
  case (dummy sord tclk clk c peers n w n' w')
  then show ?thesis using node_dummy_inv assms(2) by fastforce
next
  case (reload order p n w)
  then show ?thesis using node_poll_inv assms(2) by fastforce
next
  case (purge orders n w now)
  then show ?thesis using node_purge_inv assms(2) by fastforce
qed (use assms(2) in \<open>auto simp: node_inv_def discovery_purge_def node_token_purge_def node_transit_def http_inv_def
       registry_inv_ops announce_all_inv stream_inv stream_frame\<close>)

lemma node_reach_inv:
  assumes "node_reach digest fwd st0 st" "node_inv digest (fst st0)"
  shows "node_inv digest (fst st)"
  using assms by (induction rule: node_reach.induct) (auto intro: node_step_inv)

lemma node_startE:
  assumes "node_start b cfg path = Inr n"
  obtains key l gw where "Validate (bt_order b (dom (nw_Peers (cfg_Network cfg)))) cfg = None"
    "l = start_log (storage_of (cfg_Storage cfg))"
    "gw = node_gateway cfg \<lparr>en_cfg = cfg, en_audit = Some l, en_crl = Some crl_New\<rparr> l"
    "nd_srv n = node_server (bt_now b) cfg path key gw"
    "nd_grpc n = NewAdapterWithDiscovery gw None (sv_Peers (nd_srv n))
       (node_deps (bt_now b) (bt_order b (dom (nw_Peers (cfg_Network cfg)))) cfg)"
  using assms by (auto simp: node_start_def NewEngine_def Let_def simp del: split_paired_Ex split: sum.splits option.splits)

lemma start_log_fields: "lg_entries (start_log st) = []" "lg_root (start_log st) = zeroHash"
  by (simp_all add: start_log_def SetStore_def audit_New_def)

lemma log_inv_start: "lg_entries l = [] \<Longrightarrow> lg_root l = zeroHash \<Longrightarrow> log_inv digest l"
  by (simp add: log_inv_def Verify_def numbered_def)

lemma node_gateway_fields:
  "gw_cfg (node_gateway cfg e l) = cfg" "gw_policyCfg (node_gateway cfg e l) = en_cfg e"
  "gw_crl (node_gateway cfg e l) = en_crl e" "gw_audit (node_gateway cfg e l) = l"
  "gw_dedup (node_gateway cfg e l) = dedup_New (pf_DedupTTL (cfg_Profile cfg))" "callbacks_on (node_gateway cfg e l)"
  by (simp_all add: node_gateway_def NewGateway_def SetOnAllow_def SetOnDeny_def SetOnDuplicate_def SetNotifier_def
      callbacks_on_def Let_def)

lemma metrics_ok_New: "lg_entries l = [] \<Longrightarrow> metrics_ok l metrics_New"
  by (simp add: metrics_ok_def metrics_New_def decided_def denied_for_def deny_count_def int64_wrap_def)

lemma node_start_inv:
  assumes "node_start b cfg path = Inr n" "enumerates (bt_order b (dom (nw_Peers (cfg_Network cfg)))) (nw_Peers (cfg_Network cfg))"
  shows "node_inv digest n"
proof -
  obtain key l gw where v: "Validate (bt_order b (dom (nw_Peers (cfg_Network cfg)))) cfg = None"
    and l: "l = start_log (storage_of (cfg_Storage cfg))"
    and gw: "gw = node_gateway cfg \<lparr>en_cfg = cfg, en_audit = Some l, en_crl = Some crl_New\<rparr> l"
    and srv: "nd_srv n = node_server (bt_now b) cfg path key gw"
    and grpc: "nd_grpc n = NewAdapterWithDiscovery gw None (sv_Peers (nd_srv n))
       (node_deps (bt_now b) (bt_order b (dom (nw_Peers (cfg_Network cfg)))) cfg)"
    by (rule node_startE [OF assms(1)])
  have g: "sv_gw (nd_srv n) = gw" by (simp add: srv node_server_def)
  have a: "gw_audit gw = l" "callbacks_on gw" by (simp_all add: gw node_gateway_fields)
  have e: "lg_entries l = []" "lg_root l = zeroHash" by (simp_all add: l start_log_fields)
  have "gw_inv digest gw"
    using Validate_None_iff [OF assms(2)] v log_inv_start [OF e] by (simp add: gw gw_inv_def node_gateway_fields)
  moreover have "tables_inv (nd_srv n)"
    by (simp add: srv node_server_def tables_inv_def adapters_inv_ops apps_inv_ops inbox_inv_ops)
  moreover have "registry_inv (seed_peers now ks cfg)" for now ks
    unfolding seed_peers_def by (intro registry_inv_fold registry_inv_ops)
  ultimately show ?thesis
    unfolding node_inv_def http_inv_def g a
    using a metrics_ok_New [OF e(1)] by (simp add: grpc NewAdapterWithDiscovery_def node_deps_def)
qed

text \<open>
  C13. In every state that a started node reaches by HTTP requests, gRPC calls and background
  ticks in any order, the counters of \<open>/metrics\<close> are the numbers of audit entries (modulo
  \<open>2^64\<close>): allowed envelopes, duplicates, and denials for each reason. The audit log
  verifies, the engine's configuration is valid, the deduplication index, revocation list,
  runtime tables and client queues are well formed, and the peer registry files every peer
  under its own name.
\<close>

theorem node_metrics_match_audit:
  assumes "node_start b cfg path = Inr n0"
    and "enumerates (bt_order b (dom (nw_Peers (cfg_Network cfg)))) (nw_Peers (cfg_Network cfg))"
    and "node_reach digest fwd (n0, w0) (n, w)"
  shows "\<exists>m. ga_metricsReg (nd_grpc n) = Some m \<and>
      mt_allowTotal m = int64_wrap (int (decided DecisionAllow (gw_audit (sv_gw (nd_srv n))))) \<and>
      mt_duplicateTotal m = int64_wrap (int (decided DecisionDuplicate (gw_audit (sv_gw (nd_srv n))))) \<and>
      (\<forall>reason. deny_count m reason = int64_wrap (int (denied_for reason (gw_audit (sv_gw (nd_srv n)))))) \<and>
      http_inv digest (nd_srv n) \<and> (\<forall>r. ga_peerRegistry (nd_grpc n) = Some r \<longrightarrow> registry_inv r)"
proof -
  have "node_inv digest n" using node_reach_inv [OF assms(3)] node_start_inv [OF assms(1,2)] by simp
  then show ?thesis by (rule node_invE) (auto simp only: metrics_ok_def)
qed

definition demo_boot :: boot where
  "demo_boot = \<lparr>bt_key = Inr ''key'', bt_open = (\<lambda>_. None), bt_serverTLS = None, bt_clientTLS = None, bt_listen = None,
     bt_now = 0, bt_order = (\<lambda>_. [])\<rparr>"

lemma no_default_peers: "nw_Peers (cfg_Network DefaultBalancedConfig) = Map.empty"
  by (simp add: DefaultBalancedConfig_def DefaultConfigForProfile_def preset_base_def Let_def)

lemma demo_order:
  "enumerates (bt_order demo_boot (dom (nw_Peers (cfg_Network DefaultBalancedConfig)))) (nw_Peers (cfg_Network DefaultBalancedConfig))"
  by (simp add: demo_boot_def no_default_peers)

lemma demo_start: obtains n where "node_start demo_boot DefaultBalancedConfig '''' = Inr n"
proof -
  have "storage_of (cfg_Storage DefaultBalancedConfig) = InMemory"
    by (simp add: storage_of_def DefaultBalancedConfig_def DefaultConfigForProfile_def preset_base_def Let_def)
  moreover have "Validate (bt_order demo_boot {}) DefaultBalancedConfig = None"
    using Validate_None_iff [OF demo_order] DefaultConfigForProfile_ok [of "''balanced''"]
    by (simp add: DefaultBalancedConfig_def [symmetric] no_default_peers)
  ultimately show thesis
    by (intro that) (simp add: node_start_def demo_boot_def store_error_def NewEngine_def no_default_peers Let_def)
qed

theorem node_metrics_match_audit_witness:
  "\<exists>n0 n m. node_start demo_boot DefaultBalancedConfig '''' = Inr n0 \<and>
     node_reach (\<lambda>x. x) (\<lambda>now env st. (Inl (NoPeer ''''), st)) (n0, ()) (n, ()) \<and> n = node_token_purge 5 (\<lambda>_. []) n0 \<and>
     ga_metricsReg (nd_grpc n) = Some m \<and>
     mt_allowTotal m = int64_wrap (int (decided DecisionAllow (gw_audit (sv_gw (nd_srv n)))))"
proof -
  obtain n0 where n0: "node_start demo_boot DefaultBalancedConfig '''' = Inr n0" by (rule demo_start)
  let ?n = "node_token_purge 5 (\<lambda>_. []) n0"
  have r: "node_reach (\<lambda>x. x) (\<lambda>now env st. (Inl (NoPeer ''''), st)) (n0, ()) (?n, ())"
    by (intro node_reach.further [OF node_reach.here] node_step.tokens)
  then show ?thesis using node_metrics_match_audit [OF n0 demo_order r] n0 by blast
qed

subsection \<open>Signatures\<close>

lemma serve_verifyKey:
  assumes "serve G req st = (res, st')"
  shows "ga_verifyKey (gs_adapter st') = ga_verifyKey (gs_adapter st)"
  using assms
  by (cases req)
     (auto simp: serve_def svc_SendEnvelope_def svc_GetNodeInfo_def svc_ShareRootHash_def svc_BroadcastDiscovery_def
      svc_Connect_def svc_ExchangePeers_def adapter_SendEnvelope_def ShareRootHash_def BroadcastDiscovery_def
      adapter_Connect_def ExchangePeers_def Let_def
      split: prod.splits if_splits option.splits sum.splits gateway_error.splits list.splits)

lemma node_step_verifyKey:
  assumes "node_step digest fwd st st'"
  shows "ga_verifyKey (nd_grpc (fst st')) = ga_verifyKey (nd_grpc (fst st))"
  using assms
proof (cases rule: node_step.cases)
  case (grpc G n sord m body w res n' w')
  then show ?thesis
    using GatewayService_serves [of G m body "grpc_view n w"]
    by (auto simp: node_grpc_def on_events_def grpc_back_def grpc_view_def split: option.splits prod.splits
        dest!: serve_verifyKey)
qed (auto simp: node_http_def node_dummy_def node_poll_def node_purge_def discovery_purge_def node_token_purge_def
      node_transit_def on_events_def Let_def split: prod.splits option.splits if_splits)

lemma node_reach_verifyKey:
  "node_reach digest fwd st0 st \<Longrightarrow> ga_verifyKey (nd_grpc (fst st)) = ga_verifyKey (nd_grpc (fst st0))"
  by (induction rule: node_reach.induct) (auto dest: node_step_verifyKey)

text \<open>
  C15. A running node does not check signatures: \<open>Run\<close> passes no verification key to the
  adapter and nothing sets one later, so in every reachable state an envelope sent over gRPC is
  decided by its key and the policy alone, whatever its signature is, also a missing one.
\<close>

theorem running_node_ignores_signatures:
  assumes "node_start b cfg path = Inr n0" "node_reach digest fwd (n0, w0) (n, w)"
    and "ev_IdempotencyKey env \<noteq> ''''" "\<not> ev_IsDummy env"
  shows "\<exists>r. fst (adapter_SendEnvelope ed_verify digest clk c F nilp (env\<lparr>ev_Signature := sig\<rparr>)
                   (gs_adapter (grpc_view n w)) s) = Inr r \<and>
      rs_Decision r =
        (if is_duplicate (sv_gw (nd_srv n)) (clk 0) (ev_IdempotencyKey env) then DecisionDuplicate
         else if policy_allows (gw_policyCfg (sv_gw (nd_srv n))) (gw_crl (sv_gw (nd_srv n))) (request_of (norm_env env))
              then DecisionAllow
         else DecisionDeny)"
proof -
  let ?a = "gs_adapter (grpc_view n w)" and ?e = "env\<lparr>ev_Signature := sig\<rparr>"
  have "ga_verifyKey (nd_grpc n0) = None"
    by (rule node_startE [OF assms(1)]) (simp add: NewAdapterWithDiscovery_def)
  then have sg: "signature_ok ed_verify nilp ?e ?a"
    using node_reach_verifyKey [OF assms(2)] by (simp add: signature_ok_def grpc_view_def)
  obtain res g s' evs where S: "SendEnvelope digest clk c F ?e (ga_gw ?a) s = (res, g, s', evs)" by (metis prod_cases4)
  have gw: "ga_gw ?a = sv_gw (nd_srv n)" by (simp add: grpc_view_def)
  have rq: "request_of (norm_env ?e) = request_of (norm_env env)" by (simp add: request_of_def norm_env_def)
  show ?thesis
    using SendEnvelope_decision [of ?e digest clk c F "ga_gw ?a" s] assms(3,4) S
    unfolding adapter_SendEnvelope_passed [OF sg S] gw rq by auto
qed

theorem running_node_ignores_signatures_witness:
  "\<exists>n0 r. node_start demo_boot DefaultBalancedConfig '''' = Inr n0 \<and>
     fst (adapter_SendEnvelope (\<lambda>k m s. False) (\<lambda>x. x) (\<lambda>_. 0) False
            (None :: (fwd_error, unit) forward_fun option) False (demo_envelope\<lparr>ev_Signature := ''''\<rparr>)
            (gs_adapter (grpc_view n0 ())) ()) = Inr r"
proof -
  obtain n0 where n0: "node_start demo_boot DefaultBalancedConfig '''' = Inr n0" by (rule demo_start)
  have "ev_IdempotencyKey demo_envelope \<noteq> ''''" "\<not> ev_IsDummy demo_envelope" by (simp_all add: demo_envelope_def)
  from running_node_ignores_signatures [where w = "()" and s = "()" and sig = "''''" and nilp = False and c = False
      and clk = "\<lambda>_. 0" and digest = "\<lambda>x. x" and F = None and ed_verify = "\<lambda>k m s. False",
      OF n0 node_reach.here this] n0 show ?thesis by blast
qed

subsection \<open>The transit loop\<close>

lemma append_expired_envelopes:
  "map dq_Envelope (append_expired clk es d) = map dq_Envelope d @ map te_Env es"
  by (induction clk es d rule: append_expired.induct) (simp_all add: new_entry_def)

text \<open>
  C16. A tick of the transit loop loses nothing and sends nothing: every envelope that the node
  holds it still holds; the expired entries of the buffer, and only those, are now in the
  dead-letter queue; and no expired entry is left in the buffer. Buffered envelopes are not
  sent again: all of them end in the queue when their time is up. (\<open>docs/PROTOCOL_SPEC.md\<close> 9.2 says
  that entries which expire before they are drained are discarded; the code keeps them.)
\<close>

theorem transit_tick_keeps_custody:
  assumes "fw_transitCache f = Some tc" "fw_dlq f = Some d" "enumerates ks (tc_entries tc)"
  shows "(\<forall>env. retained env (f, w) \<longrightarrow> retained env (transit_tick now clk ks f, w)) \<and>
    set (dlq_envelopes (transit_tick now clk ks f)) =
      set (dlq_envelopes f) \<union> te_Env ` {e \<in> ran (tc_entries tc). te_Expires e < now} \<and>
    (\<exists>tc'. fw_transitCache (transit_tick now clk ks f) = Some tc' \<and>
       (\<forall>k. tc_entries tc' k =
          (case tc_entries tc k of Some e \<Rightarrow> if te_Expires e < now then None else Some e | None \<Rightarrow> None)))"
proof -
  obtain es tc' where D: "Drain ks now tc = (es, tc')" by force
  have f': "transit_tick now clk ks f = f\<lparr>fw_transitCache := Some tc', fw_dlq := Some (append_expired clk es d)\<rparr>"
    using assms(1,2) D by (simp add: transit_tick_def)
  have q: "set (dlq_envelopes (transit_tick now clk ks f)) = set (dlq_envelopes f) \<union> te_Env ` set es"
    by (simp add: f' dlq_envelopes_def append_expired_envelopes assms(2))
  have es: "set es = {e \<in> ran (tc_entries tc). te_Expires e < now}"
    using set_Drain [OF assms(3), of now] D by simp
  have tc': "tc_entries tc' k =
      (case tc_entries tc k of Some e \<Rightarrow> if te_Expires e < now then None else Some e | None \<Rightarrow> None)" for k
    using Drain_entries [OF assms(3), of now k] D by simp
  have "retained env (transit_tick now clk ks f, w)" if held: "in_transit f env" for env
  proof -
    obtain e where e: "tc_entries tc (ev_IdempotencyKey env) = Some e" "te_Env e = env"
      using held assms(1) by (auto simp: in_transit_def)
    show ?thesis
    proof (cases "te_Expires e < now")
      case True
      then have "e \<in> set es" using e es by (auto simp: ran_def)
      then show ?thesis using q e(2) by (auto simp: retained_def)
    next
      case False
      then have "in_transit (transit_tick now clk ks f) env" using e tc' by (simp add: in_transit_def f')
      then show ?thesis by (simp add: retained_def)
    qed
  qed
  then have "retained env (f, w) \<Longrightarrow> retained env (transit_tick now clk ks f, w)" for env
    using q by (auto simp: retained_def)
  then show ?thesis using q es tc' f' by auto
qed

theorem transit_tick_keeps_custody_witness:
  "\<exists>f. retained demo_envelope (f, ()) \<and> retained demo_envelope (transit_tick (100 * second) (\<lambda>_. 0) [''k1''] f, ()) \<and>
     set (dlq_envelopes (transit_tick (100 * second) (\<lambda>_. 0) [''k1''] f)) = {demo_envelope}"
proof -
  let ?tc = "transit_Put [] 0 demo_envelope ''a'' (transit_New 1)"
  let ?f = "NewForwarder DefaultBalancedConfig (Some NewDLQ) (Some ?tc)"
  have tc: "tc_entries ?tc = [''k1'' \<mapsto> \<lparr>te_Env = demo_envelope, te_PeerAddr = ''a'', te_Expires = 1\<rparr>]"
    by (simp add: transit_Put_def transit_New_def transit_Len_def maxEntries_def maxTTL_def duration_defs demo_envelope_def Let_def)
  then have e: "enumerates [''k1''] (tc_entries ?tc)" by (simp add: enumerates_def)
  have r: "retained demo_envelope (?f, ())"
    by (simp add: retained_def in_transit_def NewForwarder_def tc) (simp add: demo_envelope_def)
  have d: "dlq_envelopes ?f = []" by (simp add: dlq_envelopes_def NewForwarder_def NewDLQ_def)
  have "fw_transitCache ?f = Some ?tc" "fw_dlq ?f = Some NewDLQ" by (simp_all add: NewForwarder_def)
  note T = transit_tick_keeps_custody [OF this e, of "()" "100 * second" "\<lambda>_. 0"]
  have "{x \<in> ran (tc_entries ?tc). te_Expires x < 100 * second} = {\<lparr>te_Env = demo_envelope, te_PeerAddr = ''a'', te_Expires = 1\<rparr>}"
    by (auto simp: tc duration_defs)
  then have "set (dlq_envelopes (transit_tick (100 * second) (\<lambda>_. 0) [''k1''] ?f)) = {demo_envelope}"
    using T d by simp
  then show ?thesis using T r by blast
qed

end
