(* ===== verification/Gossip.thy ===== *)
theory Gossip
  imports Node_Props
begin

text \<open>
  Gossip between nodes. A cluster is a map from addresses to the states of the nodes that
  serve there; \<open>up\<close> says which of them can be dialled. Over such a network the loops of
  \<open>app.go\<close> spread what a node knows: the exchange of peer lists, and the root hash of its
  audit log.
\<close>

subsection \<open>Clusters\<close>

definition at_node ::
  "string \<Rightarrow> ('a \<Rightarrow> 's \<Rightarrow> ('b + 'c) \<times> 's) \<Rightarrow> 'a \<Rightarrow> (string \<Rightarrow> 's) \<Rightarrow> ('b + 'c) \<times> (string \<Rightarrow> 's)" where
  "at_node addr f q c = (case f q (c addr) of (r, s) \<Rightarrow> (r, c(addr := s)))"

definition cluster_conn :: "string \<Rightarrow> 'u invoke \<Rightarrow> (string \<Rightarrow> 'u) invoke" where
  "cluster_conn addr iv =
     \<lparr>iv_SendEnvelope = (\<lambda>m. at_node addr (iv_SendEnvelope iv m)),
      iv_GetNodeInfo = (\<lambda>m. at_node addr (iv_GetNodeInfo iv m)),
      iv_ShareRootHash = (\<lambda>m. at_node addr (iv_ShareRootHash iv m)),
      iv_BroadcastDiscovery = (\<lambda>m. at_node addr (iv_BroadcastDiscovery iv m)),
      iv_Connect = (\<lambda>m. at_node addr (iv_Connect iv m)),
      iv_ExchangePeers = (\<lambda>m. at_node addr (iv_ExchangePeers iv m))\<rparr>"

definition cluster_net ::
  "(grpc_error \<Rightarrow> string) \<Rightarrow> (string \<Rightarrow> 'w grpc_env) \<Rightarrow> (string \<Rightarrow> bool) \<Rightarrow> (string \<Rightarrow> 'w grpc_state) net" where
  "cluster_net errstr Gs up =
     \<lparr>nt_connect = (\<lambda>addr c. (if up addr then None else Some ''unavailable'', c)),
      nt_conn = (\<lambda>addr. cluster_conn addr (loop_invoke errstr (Gs addr)))\<rparr>"

lemma cluster_net_simps [simp]:
  "nt_connect (cluster_net errstr Gs up) addr c = (if up addr then None else Some ''unavailable'', c)"
  "nt_conn (cluster_net errstr Gs up) addr = cluster_conn addr (loop_invoke errstr (Gs addr))"
  by (simp_all add: cluster_net_def)

lemma cluster_ShareRootHash:
  "client_ShareRootHash (cluster_conn addr (loop_invoke errstr G)) msg c =
     (Inr (fst (ShareRootHash msg (gs_adapter (c addr)))),
      c(addr := (c addr)\<lparr>gs_adapter := snd (ShareRootHash msg (gs_adapter (c addr)))\<rparr>))"
  using loop_calls(3) [of errstr G msg "c addr"]
  by (simp add: client_ShareRootHash_def cluster_conn_def at_node_def split: prod.splits)

lemma cluster_ExchangePeers:
  "client_ExchangePeers (cluster_conn addr (loop_invoke errstr G)) q c =
     (Inr (fst (ExchangePeers (ge_clk G 0) (ge_pord G) q (gs_adapter (c addr)))),
      c(addr := (c addr)\<lparr>gs_adapter := snd (ExchangePeers (ge_clk G 0) (ge_pord G) q (gs_adapter (c addr)))\<rparr>))"
  using loop_calls(6) [of errstr G q "c addr"]
  by (simp add: client_ExchangePeers_def cluster_conn_def at_node_def split: prod.splits)

subsection \<open>Root hashes\<close>

definition cached_root :: "'w grpc_state \<Rightarrow> string \<rightharpoonup> peercache_Entry" where
  "cached_root st = (case ga_peerCache (gs_adapter st) of Some pc \<Rightarrow> pc | None \<Rightarrow> Map.empty)"

definition told :: "RootHashMessage \<Rightarrow> 'w grpc_state \<Rightarrow> 'w grpc_state" where
  "told msg st = st\<lparr>gs_adapter := snd (ShareRootHash msg (gs_adapter st))\<rparr>"

lemma told_twice: "told msg (told msg st) = told msg st"
  by (cases "ga_peerCache (gs_adapter st)") (simp_all add: told_def ShareRootHash_def peercache_Store_def)

lemma share_root_cluster:
  "share_root msg (cluster_net errstr Gs up) peers c =
     (\<lambda>addr. if up addr \<and> addr \<in> pc_Addr ` set peers then told msg (c addr) else c addr)"
proof (induction peers arbitrary: c)
  case (Cons p peers)
  show ?case
  proof (cases "up (pc_Addr p)")
    case True
    then have "share_root msg (cluster_net errstr Gs up) (p # peers) c =
        share_root msg (cluster_net errstr Gs up) peers (c(pc_Addr p := told msg (c (pc_Addr p))))"
      by (simp add: cluster_ShareRootHash told_def)
    then show ?thesis using True by (auto simp: Cons told_twice)
  qed (auto simp: Cons)
qed simp

text \<open>
  C38. Root hash gossip. After a tick, every configured peer that can be dialled and keeps a root
  hash cache has the current root of the node's audit log under the node's name, with the time
  of the tick in seconds, and keeps what it had cached of other nodes; a node that is not a
  configured peer, or is down, is left as it was.
\<close>

theorem root_gossip_arrives:
  assumes "enumerates ks (nw_Peers (cfg_Network cfg))"
    and "root_gossip now ks cfg auditLog (cluster_net errstr Gs up) c = c'"
  shows "(\<forall>p \<in> ran (nw_Peers (cfg_Network cfg)). up (pc_Addr p) \<longrightarrow>
       ga_peerCache (gs_adapter (c (pc_Addr p))) \<noteq> None \<longrightarrow>
       cached_root (c' (pc_Addr p)) =
         (cached_root (c (pc_Addr p)))(nc_NodeID (cfg_Node cfg) \<mapsto>
            \<lparr>pce_RootHash = lg_root auditLog, pce_Timestamp = unix_sec now\<rparr>)) \<and>
    (\<forall>addr. \<not> up addr \<or> addr \<notin> pc_Addr ` ran (nw_Peers (cfg_Network cfg)) \<longrightarrow> c' addr = c addr)"
proof -
  have ps: "set (List.map_filter (nw_Peers (cfg_Network cfg)) ks) = ran (nw_Peers (cfg_Network cfg))"
    by (rule set_map_filter_enum [OF assms(1)])
  show ?thesis
    unfolding assms(2) [symmetric] root_gossip_def share_root_cluster ps
    by (auto simp: told_def cached_root_def ShareRootHash_def peercache_Store_def RootHash_def)
qed

definition demo_listener :: "unit grpc_state" where
  "demo_listener =
     demo_peer_state\<lparr>gs_adapter := (NewAdapterFull demo_gateway DefaultBalancedConfig None (Some peercache_New))
       \<lparr>ga_peerRegistry := Some [''b'' \<mapsto> \<lparr>pi_NodeID = ''b'', pi_Addr = ''x'', pi_NodeScope = '''', pi_Region = '''', pi_LastSeen = 0\<rparr>]\<rparr>\<rparr>"

lemma demo_listener_simps [simp]:
  "ga_peerCache (gs_adapter demo_listener) = Some peercache_New"
  "ga_peerRegistry (gs_adapter demo_listener) =
     Some [''b'' \<mapsto> \<lparr>pi_NodeID = ''b'', pi_Addr = ''x'', pi_NodeScope = '''', pi_Region = '''', pi_LastSeen = 0\<rparr>]"
  by (simp_all add: demo_listener_def demo_peer_state_def NewAdapterFull_def)

theorem root_gossip_arrives_witness:
  "cached_root (root_gossip (7 * second) [''RU''] demo_routes audit_New
       (cluster_net (\<lambda>_. '''') (\<lambda>_. demo_peer_env) (\<lambda>_. True)) (\<lambda>_. demo_listener) ''10.0.0.2:7777'')
     (nc_NodeID (cfg_Node demo_routes)) = Some \<lparr>pce_RootHash = zeroHash, pce_Timestamp = 7\<rparr>"
proof -
  have e: "enumerates [''RU''] (nw_Peers (cfg_Network demo_routes))" by (simp add: demo_routes_peers enumerates_def)
  show ?thesis
    using root_gossip_arrives [OF e refl, of "\<lambda>_. True" "\<lambda>_. demo_listener" "7 * second" audit_New "\<lambda>_. ''''" "\<lambda>_. demo_peer_env"]
    by (simp add: demo_routes_peers audit_New_def unix_sec_def duration_defs)
qed

subsection \<open>Peer lists\<close>

lemma dom_Announce [simp]: "dom (Announce now p r) = insert (pi_NodeID p) (dom r)"
  by (simp add: Announce_def)

lemma dom_fold_Announce:
  "dom (fold (\<lambda>p. Announce now (f p)) ps r) = dom r \<union> (pi_NodeID \<circ> f) ` set ps"
  "dom (fold (\<lambda>p r. if P p then Announce now (f p) r else r) ps r) = dom r \<union> (pi_NodeID \<circ> f) ` {p \<in> set ps. P p}"
  by (induction ps arbitrary: r) auto

lemma dom_announce_all: "dom (announce_all clk ps r) = dom r \<union> pe_NodeID ` set ps"
  by (induction clk ps r rule: announce_all.induct) (simp_all add: peer_info_of_def)

lemma dom_merge_peers: "dom (merge_peers now self q r) = dom r \<union> pe_NodeID ` set (pl_KnownPeers q)"
proof -
  have "pi_NodeID \<circ> peer_info_of = pe_NodeID" by (auto simp: peer_info_of_def)
  then show ?thesis unfolding merge_peers_def Let_def by (simp only: dom_fold_Announce split: if_split) blast
qed

lemma known_names: "registry_inv r \<Longrightarrow> enumerates ks r \<Longrightarrow> pi_NodeID ` set (Known ks r) = dom r"
  by (auto simp: set_Known registry_inv_def ran_def dom_def image_def)

text \<open>The names a node knows at an address.\<close>

definition known_at :: "'w grpc_state \<Rightarrow> string set" where
  "known_at st = (case ga_peerRegistry (gs_adapter st) of Some r \<Rightarrow> dom r | None \<Rightarrow> {})"

definition registry_ok :: "(peer_Registry \<Rightarrow> string list) \<Rightarrow> bool" where
  "registry_ok pord \<longleftrightarrow> (\<forall>r. finite (dom r) \<longrightarrow> enumerates (pord r) r)"


lemma registry_order: "\<exists>pord. registry_ok pord"
proof -
  have "\<exists>ks. enumerates ks r" if "finite (dom r)" for r :: peer_Registry
    using finite_distinct_list [OF that] by (auto simp: enumerates_def)
  then show ?thesis unfolding registry_ok_def by metis
qed


end
