(* ===== verification/Webhook.thy ===== *)
theory Webhook
  imports Config Envelope_Types Json Token
begin

text \<open>
  The webhook notifier (\<open>internal/webhook/notifier.go\<close>). Posting a request is the parameter
  \<open>post\<close> (URL, headers, body, and the state of the outside world), with a transport error
  or a status code as its outcome; \<open>hmac\<close> is HMAC-SHA256. The notifications of one envelope
  run concurrently in the source; they share nothing, so the model runs them in the order
  of the list of apps, which is arbitrary.
\<close>

record webhook_payload =
  wp_NodeID :: string
  wp_AppID :: string
  wp_IdempotencyKey :: string
  wp_SenderRegion :: string
  wp_RecipientRegion :: string
  wp_Timestamp :: int

definition payload_json :: "webhook_payload \<Rightarrow> string" where
  "payload_json p =
     json_obj [(''node_id'', JStr (wp_NodeID p)), (''app_id'', JStr (wp_AppID p)),
               (''idempotency_key'', JStr (wp_IdempotencyKey p)), (''sender_region'', JStr (wp_SenderRegion p)),
               (''recipient_region'', JStr (wp_RecipientRegion p)), (''timestamp'', JNum (wp_Timestamp p))]"

definition webhook_sign :: "(string \<Rightarrow> string \<Rightarrow> string) \<Rightarrow> string \<Rightarrow> string \<Rightarrow> string" where
  "webhook_sign hmac body secret = hex_encode (hmac secret body)"

definition VerifySignature :: "(string \<Rightarrow> string \<Rightarrow> string) \<Rightarrow> string \<Rightarrow> string \<Rightarrow> string \<Rightarrow> bool" where
  "VerifySignature hmac body secret header \<longleftrightarrow> ''sha256='' @ webhook_sign hmac body secret = header"

definition webhook_timeout :: "AppConfig \<Rightarrow> int" where
  "webhook_timeout app =
     (let timeout = int64_wrap (app_WebhookTimeout app * second) in if timeout \<le> 0 then 5 * second else timeout)"

record http_post =
  hp_URL :: string
  hp_Body :: string
  hp_Signature :: "string option"
  hp_Timeout :: int

type_synonym 'w poster = "http_post \<Rightarrow> 'w \<Rightarrow> (string + nat) \<times> 'w"

datatype webhook_error = BuildRequest | PostFailed string | RetryFailed string

definition webhook_body :: "Config \<Rightarrow> string \<Rightarrow> Envelope \<Rightarrow> string" where
  "webhook_body cfg appID env =
     payload_json \<lparr>wp_NodeID = nc_NodeID (cfg_Node cfg), wp_AppID = appID,
                   wp_IdempotencyKey = ev_IdempotencyKey env, wp_SenderRegion = ev_SenderRegion env,
                   wp_RecipientRegion = ev_RecipientRegion env, wp_Timestamp = ev_Timestamp env\<rparr>"

definition webhook_request :: "(string \<Rightarrow> string \<Rightarrow> string) \<Rightarrow> Config \<Rightarrow> string \<Rightarrow> AppConfig \<Rightarrow> Envelope \<Rightarrow> http_post" where
  "webhook_request hmac cfg appID app env =
     (let body = webhook_body cfg appID env in
      \<lparr>hp_URL = app_WebhookURL app, hp_Body = body,
       hp_Signature = (if app_WebhookSecret app \<noteq> ''''
                       then Some (''sha256='' @ webhook_sign hmac body (app_WebhookSecret app)) else None),
       hp_Timeout = webhook_timeout app\<rparr>)"

text \<open>\<open>valid\<close> says whether the URL parses; the retry reuses the request.\<close>

definition notify ::
  "(string \<Rightarrow> string \<Rightarrow> string) \<Rightarrow> (string \<Rightarrow> bool) \<Rightarrow> 'w poster \<Rightarrow> Config \<Rightarrow> string \<Rightarrow> AppConfig \<Rightarrow> Envelope \<Rightarrow> 'w \<Rightarrow>
   webhook_error option \<times> 'w" where
  "notify hmac valid post cfg appID app env w =
     (if \<not> valid (app_WebhookURL app) then (Some BuildRequest, w)
      else let req = webhook_request hmac cfg appID app env in
      case post req w of
        (Inl err, w1) \<Rightarrow> (Some (PostFailed err), w1)
      | (Inr status, w1) \<Rightarrow>
          if status \<ge> 500 then
            (case post req w1 of
               (Inl err, w2) \<Rightarrow> (Some (RetryFailed err), w2)
             | (Inr _, w2) \<Rightarrow> (None, w2))
          else (None, w1))"

fun NotifyEach ::
  "(string \<Rightarrow> string \<Rightarrow> string) \<Rightarrow> (string \<Rightarrow> bool) \<Rightarrow> 'w poster \<Rightarrow> Config \<Rightarrow> Envelope \<Rightarrow> string list \<Rightarrow> 'w \<Rightarrow>
   (string \<times> webhook_error) list \<times> 'w" where
  "NotifyEach hmac valid post cfg env [] w = ([], w)"
| "NotifyEach hmac valid post cfg env (appID # ids) w =
     (case cfg_Apps cfg appID of
        None \<Rightarrow> NotifyEach hmac valid post cfg env ids w
      | Some app \<Rightarrow>
          if app_WebhookURL app = '''' then NotifyEach hmac valid post cfg env ids w
          else (case notify hmac valid post cfg appID app env w of
                  (err, w1) \<Rightarrow>
                    (case NotifyEach hmac valid post cfg env ids w1 of
                       (errs, w2) \<Rightarrow> (case err of None \<Rightarrow> errs | Some e \<Rightarrow> (appID, e) # errs, w2))))"

text \<open>A recording world: the outcomes still to come and the requests made so far.\<close>

definition recording :: "((string + nat) list \<times> http_post list) poster" where
  "recording req w =
     (case w of
        ([], sent) \<Rightarrow> (Inl ''down'', ([], sent @ [req]))
      | (r # rs, sent) \<Rightarrow> (r, (rs, sent @ [req])))"

definition attempts :: "(string + nat) list \<Rightarrow> nat" where
  "attempts rs = (case rs of Inr status # _ \<Rightarrow> if status \<ge> 500 then 2 else 1 | _ \<Rightarrow> 1)"

lemma notify_requests:
  assumes "valid (app_WebhookURL app)"
  shows "snd (snd (notify hmac valid recording cfg appID app env (rs, sent))) =
    sent @ replicate (attempts rs) (webhook_request hmac cfg appID app env)"
  using assms
  by (auto simp: notify_def recording_def attempts_def numeral_2_eq_2 Let_def split: list.splits sum.splits)

text \<open>
  A notification posts the same request once, and once more exactly when the first answer
  is a server error; the request goes to the app's URL with its body, and with a secret its
  signature header verifies against that body. Apps without a URL are not contacted.
\<close>

theorem webhook_delivery:
  assumes "cfg_Apps cfg appID = Some app" "valid (app_WebhookURL app)"
  shows "snd (snd (NotifyEach hmac valid recording cfg env [appID] (rs, sent))) =
      sent @ (if app_WebhookURL app = '''' then []
              else replicate (attempts rs) (webhook_request hmac cfg appID app env)) \<and>
    hp_URL (webhook_request hmac cfg appID app env) = app_WebhookURL app \<and>
    0 < hp_Timeout (webhook_request hmac cfg appID app env) \<and>
    (case hp_Signature (webhook_request hmac cfg appID app env) of
       None \<Rightarrow> app_WebhookSecret app = ''''
     | Some h \<Rightarrow> app_WebhookSecret app \<noteq> '''' \<and>
         VerifySignature hmac (hp_Body (webhook_request hmac cfg appID app env)) (app_WebhookSecret app) h)"
proof -
  obtain e w where n: "notify hmac valid recording cfg appID app env (rs, sent) = (e, w)" by (metis surj_pair)
  have "snd w = sent @ replicate (attempts rs) (webhook_request hmac cfg appID app env)"
    using notify_requests [of valid app hmac cfg appID env rs "sent", OF assms(2)] n by simp
  then show ?thesis
    using assms(1) n by (auto simp: webhook_request_def VerifySignature_def webhook_timeout_def Let_def duration_defs)
qed

definition demo_hook :: AppConfig where
  "demo_hook = \<lparr>app_WebhookURL = ''http://app'', app_WebhookSecret = ''s'', app_WebhookTimeout = 5, app_AutoAccept = '''',
     app_Users = Map.empty\<rparr>"

theorem webhook_delivery_witness:
  "length (snd (snd (NotifyEach (\<lambda>k m. m) (\<lambda>_. True) recording (DefaultBalancedConfig\<lparr>cfg_Apps := [''app'' \<mapsto> demo_hook]\<rparr>)
     demo_padding [''app''] ([Inr 503], [])))) = 2"
  using webhook_delivery [of "DefaultBalancedConfig\<lparr>cfg_Apps := [''app'' \<mapsto> demo_hook]\<rparr>" "''app''" demo_hook "\<lambda>_. True"
      "\<lambda>k m. m" demo_padding "[Inr 503]" "[]"]
  by (simp add: demo_hook_def attempts_def)

end
