(* ===== verification/Connpool.thy ===== *)
theory Connpool
  imports Prelude
begin

text \<open>
  The connection pool and dialling (\<open>internal/transport/grpc/connpool.go\<close> and \<open>Dial\<close> in
  \<open>client.go\<close>). \<open>ConnPool.Client\<close> holds its lock twice, with the dial in between, so calls
  of several goroutines interleave: a call is at one of four points, and \<open>pool_step\<close> is one
  atomic action of one goroutine (a locked section, a dial, the shutdown of a connection by
  the library, \<open>Close\<close>). Connections are numbered in the order in which they are opened.
\<close>

subsection \<open>Dialling\<close>

datatype connectivity = Idle | Connecting | Ready | TransientFailure | Shutdown

datatype dial_error = ShutDown | DialContext

text \<open>The states that the loop observes until the context is done.\<close>

fun dial_loop :: "connectivity list \<Rightarrow> dial_error option" where
  "dial_loop [] = Some DialContext"
| "dial_loop (st # sts) =
     (if st = Ready then None else if st = Shutdown then Some ShutDown else dial_loop sts)"

lemma dial_loop_ready:
  "dial_loop sts = None \<longleftrightarrow> (\<exists>n < length sts. sts ! n = Ready \<and> Shutdown \<notin> set (take n sts))"
proof (induction sts)
  case (Cons st sts)
  show ?case
  proof (cases "st = Ready \<or> st = Shutdown")
    case True
    then show ?thesis by (auto simp: nth_Cons take_Cons split: nat.splits)
  next
    case False
    have "(\<exists>n < length (st # sts). (st # sts) ! n = Ready \<and> Shutdown \<notin> set (take n (st # sts))) \<longleftrightarrow>
        (\<exists>n < length sts. sts ! n = Ready \<and> Shutdown \<notin> set (take n sts))"
      using False by (auto simp: less_Suc_eq_0_disj)
    then show ?thesis using Cons False by simp
  qed
qed simp

subsection \<open>The pool\<close>

type_synonym conn = nat

datatype call_state =
    Looking string
  | Dialing string
  | Dialed string conn
  | Returned string conn
  | Failed string

record pool =
  po_conns :: "string \<rightharpoonup> conn"
  po_opened :: "conn \<Rightarrow> string option" \<comment> \<open>the address a connection was dialled for\<close>
  po_closed :: "conn set"
  po_next :: conn
  po_calls :: "nat \<rightharpoonup> call_state" \<comment> \<open>by goroutine\<close>

definition NewConnPool :: pool where
  "NewConnPool = \<lparr>po_conns = Map.empty, po_opened = (\<lambda>_. None), po_closed = {}, po_next = 0, po_calls = Map.empty\<rparr>"

definition set_call :: "nat \<Rightarrow> call_state \<Rightarrow> pool \<Rightarrow> pool" where
  "set_call t c p = p\<lparr>po_calls := (po_calls p)(t \<mapsto> c)\<rparr>"

text \<open>The first locked section; \<open>shut\<close> says whether a connection is in the Shutdown state.\<close>

definition lookup_section :: "(conn \<Rightarrow> bool) \<Rightarrow> nat \<Rightarrow> string \<Rightarrow> pool \<Rightarrow> pool" where
  "lookup_section shut t addr p =
     (case po_conns p addr of
        Some c \<Rightarrow>
          if \<not> shut c then set_call t (Returned addr c) p
          else set_call t (Dialing addr)
                 (p\<lparr>po_closed := insert c (po_closed p), po_conns := (po_conns p)(addr := None)\<rparr>)
      | None \<Rightarrow> set_call t (Dialing addr) p)"

definition dial_step :: "nat \<Rightarrow> string \<Rightarrow> bool \<Rightarrow> pool \<Rightarrow> pool" where
  "dial_step t addr ok p =
     (if ok then set_call t (Dialed addr (po_next p))
                   (p\<lparr>po_opened := (po_opened p)(po_next p \<mapsto> addr), po_next := Suc (po_next p)\<rparr>)
      else set_call t (Failed addr) p)"

text \<open>The second locked section: keep the connection of whoever was first.\<close>

definition insert_section :: "nat \<Rightarrow> string \<Rightarrow> conn \<Rightarrow> pool \<Rightarrow> pool" where
  "insert_section t addr fresh p =
     (case po_conns p addr of
        Some existing \<Rightarrow> set_call t (Returned addr existing) (p\<lparr>po_closed := insert fresh (po_closed p)\<rparr>)
      | None \<Rightarrow> set_call t (Returned addr fresh) (p\<lparr>po_conns := (po_conns p)(addr \<mapsto> fresh)\<rparr>))"

definition pool_Close :: "pool \<Rightarrow> pool" where
  "pool_Close p = p\<lparr>po_closed := po_closed p \<union> ran (po_conns p), po_conns := Map.empty\<rparr>"

inductive pool_step :: "pool \<Rightarrow> pool \<Rightarrow> bool" where
  call: "\<lbrakk>\<And>a. po_calls p t \<noteq> Some (Looking a); \<And>a. po_calls p t \<noteq> Some (Dialing a);
          \<And>a c. po_calls p t \<noteq> Some (Dialed a c)\<rbrakk> \<Longrightarrow> pool_step p (set_call t (Looking addr) p)"
| lookup: "po_calls p t = Some (Looking addr) \<Longrightarrow> pool_step p (lookup_section shut t addr p)"
| dial: "po_calls p t = Some (Dialing addr) \<Longrightarrow> pool_step p (dial_step t addr ok p)"
| store: "po_calls p t = Some (Dialed addr c) \<Longrightarrow> pool_step p (insert_section t addr c p)"
| close: "pool_step p (pool_Close p)"

inductive_cases pool_stepE: "pool_step p p'"

inductive pool_reach :: "pool \<Rightarrow> bool" where
  start: "pool_reach NewConnPool"
| step: "\<lbrakk>pool_reach p; pool_step p p'\<rbrakk> \<Longrightarrow> pool_reach p'"

subsection \<open>No connection is lost\<close>

definition in_flight :: "pool \<Rightarrow> conn \<Rightarrow> string \<Rightarrow> bool" where
  "in_flight p c a \<longleftrightarrow> (\<exists>t. po_calls p t = Some (Dialed a c))"

definition pool_inv :: "pool \<Rightarrow> bool" where
  "pool_inv p \<longleftrightarrow>
     (\<forall>c. po_opened p c \<noteq> None \<longleftrightarrow> c < po_next p) \<and> (\<forall>c \<in> po_closed p. c < po_next p) \<and>
     (\<forall>a c. po_conns p a = Some c \<longrightarrow> po_opened p c = Some a \<and> c \<notin> po_closed p) \<and>
     (\<forall>t a c. po_calls p t = Some (Dialed a c) \<longrightarrow>
        po_opened p c = Some a \<and> c \<notin> po_closed p \<and> po_conns p a \<noteq> Some c \<and>
        (\<forall>t'. po_calls p t' = Some (Dialed a c) \<longrightarrow> t' = t)) \<and>
     (\<forall>t a c. po_calls p t = Some (Returned a c) \<longrightarrow> po_opened p c = Some a) \<and>
     (\<forall>c a. po_opened p c = Some a \<longrightarrow> c \<in> po_closed p \<or> po_conns p a = Some c \<or> in_flight p c a)"

lemma pool_inv_New: "pool_inv NewConnPool"
  by (simp add: pool_inv_def NewConnPool_def)

lemma pool_invI:
  assumes "\<And>c. po_opened p c \<noteq> None \<longleftrightarrow> c < po_next p" "\<And>c. c \<in> po_closed p \<Longrightarrow> c < po_next p"
    and "\<And>a c. po_conns p a = Some c \<Longrightarrow> po_opened p c = Some a \<and> c \<notin> po_closed p"
    and "\<And>t a c. po_calls p t = Some (Dialed a c) \<Longrightarrow>
        po_opened p c = Some a \<and> c \<notin> po_closed p \<and> po_conns p a \<noteq> Some c"
    and "\<And>t t' a c. po_calls p t = Some (Dialed a c) \<Longrightarrow> po_calls p t' = Some (Dialed a c) \<Longrightarrow> t' = t"
    and "\<And>t a c. po_calls p t = Some (Returned a c) \<Longrightarrow> po_opened p c = Some a"
    and "\<And>c a. po_opened p c = Some a \<Longrightarrow> c \<in> po_closed p \<or> po_conns p a = Some c \<or> in_flight p c a"
  shows "pool_inv p"
  unfolding pool_inv_def using assms by blast

lemma pool_invD:
  assumes "pool_inv p"
  shows "po_opened p c \<noteq> None \<longleftrightarrow> c < po_next p"
    and "po_conns p a = Some c \<Longrightarrow> po_opened p c = Some a \<and> c \<notin> po_closed p"
    and "po_calls p t = Some (Dialed a c) \<Longrightarrow> po_opened p c = Some a \<and> c \<notin> po_closed p \<and> po_conns p a \<noteq> Some c"
    and "po_calls p t = Some (Dialed a c) \<Longrightarrow> po_calls p t' = Some (Dialed a c) \<Longrightarrow> t' = t"
    and "po_calls p t = Some (Returned a c) \<Longrightarrow> po_opened p c = Some a"
    and "po_opened p c = Some a \<Longrightarrow> c \<in> po_closed p \<or> po_conns p a = Some c \<or> in_flight p c a"
    and "c \<in> po_closed p \<Longrightarrow> c < po_next p"
  using assms unfolding pool_inv_def by blast+

lemma in_flight_other:
  assumes "in_flight p c a" "po_calls p t \<noteq> Some (Dialed a c)"
  shows "in_flight (set_call t s p) c a"
  using assms by (auto simp: in_flight_def set_call_def)

lemma in_flight_calls:
  assumes "in_flight p c a" "po_calls q = (po_calls p)(t \<mapsto> s)" "po_calls p t \<noteq> Some (Dialed a c)"
  shows "in_flight q c a"
proof -
  obtain t' where "po_calls p t' = Some (Dialed a c)" using assms(1) by (auto simp: in_flight_def)
  moreover from this have "t' \<noteq> t" using assms(3) by auto
  ultimately show ?thesis using assms(2) by (auto simp: in_flight_def)
qed

lemma set_call_simps [simp]:
  "po_conns (set_call t s p) = po_conns p" "po_opened (set_call t s p) = po_opened p"
  "po_closed (set_call t s p) = po_closed p" "po_next (set_call t s p) = po_next p"
  "po_calls (set_call t s p) = (po_calls p)(t \<mapsto> s)"
  by (simp_all add: set_call_def)

text \<open>A call that holds no fresh connection moves to a state without one.\<close>

lemma set_call_inv:
  assumes "pool_inv p" "\<And>a c. po_calls p t \<noteq> Some (Dialed a c)" "\<And>a c. s \<noteq> Dialed a c"
    and "\<And>a c. s = Returned a c \<Longrightarrow> po_opened p c = Some a"
  shows "pool_inv (set_call t s p)"
proof (rule pool_invI)
  show "c \<in> po_closed (set_call t s p) \<or> po_conns (set_call t s p) a = Some c \<or> in_flight (set_call t s p) c a"
    if "po_opened (set_call t s p) c = Some a" for c a
    using pool_invD(6) [OF assms(1), of c a] that in_flight_other [OF _ assms(2), of c a s] by auto
  show "c < po_next (set_call t s p)" if "c \<in> po_closed (set_call t s p)" for c
    using pool_invD(7) [OF assms(1), of c] that by simp
qed (use pool_invD(1-5) [OF assms(1)] assms(3,4) in \<open>auto split: if_splits\<close>)

lemma drop_conn_inv:
  assumes "pool_inv p" "po_conns p addr = Some c"
  shows "pool_inv (p\<lparr>po_closed := insert c (po_closed p), po_conns := (po_conns p)(addr := None)\<rparr>)"
proof (rule pool_invI)
  let ?q = "p\<lparr>po_closed := insert c (po_closed p), po_conns := (po_conns p)(addr := None)\<rparr>"
  note D = pool_invD [OF assms(1)]
  show "po_opened ?q d = Some a \<and> d \<notin> po_closed ?q" if "po_conns ?q a = Some d" for a d
    using that D(2) [of a d] D(2) [OF assms(2)] by (auto split: if_splits)
  show "po_opened ?q d = Some a \<and> d \<notin> po_closed ?q \<and> po_conns ?q a \<noteq> Some d"
    if "po_calls ?q t = Some (Dialed a d)" for t a d
    using that D(3) [of t a d] D(2) [OF assms(2)] assms(2) by auto
  show "d \<in> po_closed ?q \<or> po_conns ?q a = Some d \<or> in_flight ?q d a" if "po_opened ?q d = Some a" for d a
    using that D(6) [of d a] assms(2) by (auto simp: in_flight_def)
  show "d < po_next ?q" if "d \<in> po_closed ?q" for d
    using that D(7) [of d] D(1) [of c] D(2) [OF assms(2)] by auto
qed (use pool_invD(1-5) [OF assms(1)] in auto)

lemma lookup_inv:
  assumes "pool_inv p" "po_calls p t = Some (Looking addr)"
  shows "pool_inv (lookup_section shut t addr p)"
proof (cases "po_conns p addr")
  case None
  then show ?thesis using assms by (auto simp: lookup_section_def intro!: set_call_inv)
next
  case (Some c)
  have "pool_inv (set_call t (Returned addr c) p)"
    using assms pool_invD(2) [OF assms(1) Some] by (intro set_call_inv) auto
  moreover have "pool_inv (set_call t (Dialing addr)
      (p\<lparr>po_closed := insert c (po_closed p), po_conns := (po_conns p)(addr := None)\<rparr>))"
    using assms(2) by (intro set_call_inv drop_conn_inv [OF assms(1) Some]) auto
  ultimately show ?thesis using Some by (simp add: lookup_section_def)
qed

lemma dial_inv:
  assumes "pool_inv p" "po_calls p t = Some (Dialing addr)"
  shows "pool_inv (dial_step t addr ok p)"
proof (cases ok)
  case False
  then show ?thesis using assms by (auto simp: dial_step_def intro!: set_call_inv)
next
  case True
  let ?n = "po_next p"
  let ?q = "set_call t (Dialed addr ?n) (p\<lparr>po_opened := (po_opened p)(?n \<mapsto> addr), po_next := Suc ?n\<rparr>)"
  note D = pool_invD [OF assms(1)]
  have fresh: "po_opened p ?n = None" using D(1) [of ?n] by auto
  have cl: "?n \<notin> po_closed p" using D(7) [of ?n] by auto
  have old: "c \<noteq> ?n" if "po_opened p c = Some a" for c a using that fresh by auto
  have "pool_inv ?q"
  proof (rule pool_invI)
    show "po_opened ?q c = Some a \<and> c \<notin> po_closed ?q" if "po_conns ?q a = Some c" for a c
      using that D(2) [of a c] old [of c a] by auto
    show "po_opened ?q c = Some a \<and> c \<notin> po_closed ?q \<and> po_conns ?q a \<noteq> Some c"
      if "po_calls ?q t' = Some (Dialed a c)" for t' a c
      using that D(2) [of a c] D(3) [of t' a c] old [of c a] cl fresh by (auto split: if_splits)
    show "t'' = t'" if "po_calls ?q t' = Some (Dialed a c)" "po_calls ?q t'' = Some (Dialed a c)" for t' t'' a c
      using that D(3) [of t' a c] D(3) [of t'' a c] D(4) [of t' a c t''] fresh by (auto split: if_splits)
    show "po_opened ?q c = Some a" if "po_calls ?q t' = Some (Returned a c)" for t' a c
      using that D(5) [of t' a c] old [of c a] by (auto split: if_splits)
    show "c \<in> po_closed ?q \<or> po_conns ?q a = Some c \<or> in_flight ?q c a" if "po_opened ?q c = Some a" for c a
    proof (cases "c = ?n")
      case True
      then show ?thesis using that by (auto simp: in_flight_def)
    next
      case False
      then have "c \<in> po_closed p \<or> po_conns p a = Some c \<or> in_flight p c a" using that D(6) [of c a] by simp
      then show ?thesis using in_flight_calls [of p c a ?q t "Dialed addr ?n"] assms(2) by auto
    qed
  qed (use D(1,7) in \<open>auto simp: less_Suc_eq\<close>)
  then show ?thesis using True by (simp add: dial_step_def)
qed

lemma only_dialer:
  assumes "pool_inv p" "po_calls p t = Some (Dialed addr fresh)" "po_calls p t' = Some (Dialed a fresh)"
  shows "t' = t"
  using pool_invD(3) [OF assms(1), of t' a fresh] pool_invD(3) [OF assms(1,2)] pool_invD(4) [OF assms(1,2), of t'] assms(3) by auto

text \<open>Another call was first: its connection is returned and the fresh one is closed.\<close>

lemma insert_second_inv:
  assumes "pool_inv p" "po_calls p t = Some (Dialed addr fresh)" "po_conns p addr = Some c"
  shows "pool_inv (set_call t (Returned addr c) (p\<lparr>po_closed := insert fresh (po_closed p)\<rparr>))" (is "pool_inv ?q")
proof (rule pool_invI)
  note D = pool_invD [OF assms(1)]
  note F = D(3) [OF assms(2)]
  show "po_opened ?q d = Some a \<and> d \<notin> po_closed ?q" if "po_conns ?q a = Some d" for a d
    using that D(2) [of a d] F by auto
  show "po_opened ?q d = Some a \<and> d \<notin> po_closed ?q \<and> po_conns ?q a \<noteq> Some d"
    if "po_calls ?q t' = Some (Dialed a d)" for t' a d
    using that D(3) [of t' a d] only_dialer [OF assms(1,2), of t' a] by (auto split: if_splits)
  show "d \<in> po_closed ?q \<or> po_conns ?q a = Some d \<or> in_flight ?q d a" if "po_opened ?q d = Some a" for d a
    using that D(6) [of d a] in_flight_calls [of p d a ?q t "Returned addr c"] assms(2) by auto
  show "d < po_next ?q" if "d \<in> po_closed ?q" for d
    using that D(7) [of d] D(1) [of fresh] F by auto
  show "po_opened ?q d = Some a" if "po_calls ?q t' = Some (Returned a d)" for t' a d
    using that D(5) [of t' a d] D(2) [OF assms(3)] by (auto split: if_splits)
  show "t'' = t'" if "po_calls ?q t' = Some (Dialed a d)" "po_calls ?q t'' = Some (Dialed a d)" for t' t'' a d
    using that D(4) [of t' a d t''] by (auto split: if_splits)
qed (use pool_invD(1) [OF assms(1)] in auto)

text \<open>The fresh connection enters the pool.\<close>

lemma insert_first_inv:
  assumes "pool_inv p" "po_calls p t = Some (Dialed addr fresh)" "po_conns p addr = None"
  shows "pool_inv (set_call t (Returned addr fresh) (p\<lparr>po_conns := (po_conns p)(addr \<mapsto> fresh)\<rparr>))" (is "pool_inv ?q")
proof (rule pool_invI)
  note D = pool_invD [OF assms(1)]
  note F = D(3) [OF assms(2)]
  show "po_opened ?q d = Some a \<and> d \<notin> po_closed ?q" if "po_conns ?q a = Some d" for a d
    using that D(2) [of a d] F by (auto split: if_splits)
  show "po_opened ?q d = Some a \<and> d \<notin> po_closed ?q \<and> po_conns ?q a \<noteq> Some d"
    if "po_calls ?q t' = Some (Dialed a d)" for t' a d
    using that D(3) [of t' a d] only_dialer [OF assms(1,2), of t' a] by (auto split: if_splits)
  show "d \<in> po_closed ?q \<or> po_conns ?q a = Some d \<or> in_flight ?q d a" if "po_opened ?q d = Some a" for d a
    using that D(6) [of d a] in_flight_calls [of p d a ?q t "Returned addr fresh"] assms(2,3) F by auto
  show "po_opened ?q d = Some a" if "po_calls ?q t' = Some (Returned a d)" for t' a d
    using that D(5) [of t' a d] F by (auto split: if_splits)
  show "t'' = t'" if "po_calls ?q t' = Some (Dialed a d)" "po_calls ?q t'' = Some (Dialed a d)" for t' t'' a d
    using that D(4) [of t' a d t''] by (auto split: if_splits)
qed (use pool_invD(1,7) [OF assms(1)] in auto)

lemma insert_inv:
  assumes "pool_inv p" "po_calls p t = Some (Dialed addr fresh)"
  shows "pool_inv (insert_section t addr fresh p)"
  using insert_first_inv [OF assms] insert_second_inv [OF assms]
  by (cases "po_conns p addr") (auto simp: insert_section_def)

lemma close_inv:
  assumes "pool_inv p"
  shows "pool_inv (pool_Close p)"
proof (rule pool_invI)
  note D = pool_invD [OF assms]
  show "po_opened (pool_Close p) c = Some a \<and> c \<notin> po_closed (pool_Close p) \<and> po_conns (pool_Close p) a \<noteq> Some c"
    if "po_calls (pool_Close p) t = Some (Dialed a c)" for t a c
  proof -
    have d: "po_opened p c = Some a" "c \<notin> po_closed p" "po_conns p a \<noteq> Some c"
      using that D(3) [of t a c] by (auto simp: pool_Close_def)
    have "c \<notin> ran (po_conns p)" using d D(2) by (fastforce simp: ran_def)
    then show ?thesis using d by (simp add: pool_Close_def)
  qed
  show "c < po_next (pool_Close p)" if "c \<in> po_closed (pool_Close p)" for c
    using that D(1) [of c] D(2) [of _ c] D(7) [of c] by (auto simp: pool_Close_def ran_def)
  show "c \<in> po_closed (pool_Close p) \<or> po_conns (pool_Close p) a = Some c \<or> in_flight (pool_Close p) c a"
    if "po_opened (pool_Close p) c = Some a" for c a
    using that D(6) [of c a] by (auto simp: pool_Close_def ran_def in_flight_def)
qed (use pool_invD [OF assms] in \<open>auto simp: pool_Close_def\<close>)

lemma pool_step_inv: "pool_step p p' \<Longrightarrow> pool_inv p \<Longrightarrow> pool_inv p'"
proof (induction rule: pool_step.induct)
  case (call p t addr)
  then show ?case by (intro set_call_inv) auto
qed (simp_all add: lookup_inv dial_inv insert_inv close_inv)

lemma pool_reach_inv: "pool_reach p \<Longrightarrow> pool_inv p"
  by (induction rule: pool_reach.induct) (auto intro: pool_inv_New pool_step_inv)

text \<open>
  C30. The pool under every interleaving of calls, dials, shutdowns and \<open>Close\<close>: a connection
  that was dialled is closed, or pooled under the address it was dialled for, or held by
  the one call that has just dialled it; a pooled connection is never closed; a call returns
  a connection to the address it asked for. So when no call is between its dial and its
  second locked section, the open connections are exactly the pooled ones and there is at
  most one for each address.
\<close>

theorem pool_no_leak:
  assumes "pool_reach p"
  shows "(\<forall>t a c. po_calls p t = Some (Returned a c) \<longrightarrow> po_opened p c = Some a) \<and>
    ((\<forall>t a c. po_calls p t \<noteq> Some (Dialed a c)) \<longrightarrow>
      (\<forall>c a. (po_opened p c = Some a \<and> c \<notin> po_closed p) \<longleftrightarrow> po_conns p a = Some c)) \<and>
    (\<forall>c d a. po_opened p c = Some a \<and> po_opened p d = Some a \<and> c \<notin> po_closed p \<and> d \<notin> po_closed p \<and>
       \<not> in_flight p c a \<and> \<not> in_flight p d a \<longrightarrow> c = d)"
proof -
  note D = pool_invD [OF pool_reach_inv [OF assms]]
  have "po_conns p a = Some c" if "po_opened p c = Some a" "c \<notin> po_closed p" "\<not> in_flight p c a" for c a
    using D(6) that by blast
  then have pooled: "po_opened p c = Some a \<and> c \<notin> po_closed p \<and> \<not> in_flight p c a \<Longrightarrow> po_conns p a = Some c" for c a
    by blast
  show ?thesis
  proof (intro conjI allI impI)
    show "po_opened p c = Some a" if "po_calls p t = Some (Returned a c)" for t a c using D(5) that by blast
    show "(po_opened p c = Some a \<and> c \<notin> po_closed p) \<longleftrightarrow> po_conns p a = Some c"
      if "\<forall>t a c. po_calls p t \<noteq> Some (Dialed a c)" for c a
      using that pooled [of c a] D(2) [of a c] unfolding in_flight_def by blast
    show "c = d" if "po_opened p c = Some a \<and> po_opened p d = Some a \<and> c \<notin> po_closed p \<and> d \<notin> po_closed p \<and>
        \<not> in_flight p c a \<and> \<not> in_flight p d a" for c d a
      using that pooled [of c a] pooled [of d a] by simp
  qed
qed

theorem pool_no_leak_witness:
  "\<exists>p. pool_reach p \<and> po_conns p ''a'' = Some 0 \<and> (\<forall>t a c. po_calls p t = Some (Returned a c) \<longrightarrow> po_opened p c = Some a)"
proof -
  let ?p1 = "set_call 1 (Looking ''a'') NewConnPool"
  let ?p2 = "lookup_section (\<lambda>_. False) 1 ''a'' ?p1"
  let ?p3 = "dial_step 1 ''a'' True ?p2"
  let ?p4 = "insert_section 1 ''a'' 0 ?p3"
  have "pool_reach ?p1" by (rule step [OF start call]) (simp_all add: NewConnPool_def)
  then have "pool_reach ?p2" by (rule step) (rule lookup, simp)
  then have "pool_reach ?p3" by (rule step) (rule dial, simp add: lookup_section_def NewConnPool_def)
  then have r: "pool_reach ?p4" by (rule step) (rule store, simp add: dial_step_def lookup_section_def NewConnPool_def)
  have "po_conns ?p4 ''a'' = Some 0" by (simp add: insert_section_def dial_step_def lookup_section_def NewConnPool_def)
  with pool_no_leak [OF r] r show ?thesis by blast
qed

end
