(* ===== verification/Json_Parse.thy ===== *)
theory Json_Parse
  imports Codec
begin

text \<open>
  \<open>encoding/json\<close> in full for the types the program decodes: documents as trees, the
  compact encoding of a tree, the parser of \<open>json.Unmarshal\<close> (white space, every escape,
  surrogate pairs, invalid UTF-8 replaced by U+FFFD, nesting limited to 10000) and the
  assignment of an object to the fields of a struct. A number keeps its literal, since
  decoding depends on the type of the field. The parser takes fuel; one more than twice the
  length of the input is enough, more never changes its answer (\<open>parse_fuel\<close>), and it
  inverts the encoder (\<open>parse_json_enc\<close>).
\<close>

datatype jtree = TNum string | TStr string | TBool bool | TNull | TArr "jtree list" | TObj "(string \<times> jtree) list"

subsection \<open>Strings\<close>

definition hex_dig :: "char \<Rightarrow> nat option" where
  "hex_dig c =
     (let b = of_char c :: nat in
      if 48 \<le> b \<and> b \<le> 57 then Some (b - 48)
      else if 97 \<le> b \<and> b \<le> 102 then Some (b - 87)
      else if 65 \<le> b \<and> b \<le> 70 then Some (b - 55)
      else None)"

definition getu4 :: "string \<Rightarrow> (nat \<times> string) option" where
  "getu4 s =
     (case s of
        a # b # c # d # r \<Rightarrow>
          (case (hex_dig a, hex_dig b, hex_dig c, hex_dig d) of
             (Some i, Some j, Some k, Some l) \<Rightarrow> Some (((i * 16 + j) * 16 + k) * 16 + l, r)
           | _ \<Rightarrow> None)
      | _ \<Rightarrow> None)"

text \<open>\<open>utf8.AppendRune\<close> for a code point that is no surrogate.\<close>

definition utf8_rune :: "nat \<Rightarrow> string" where
  "utf8_rune n =
     (if n < 0x80 then [char_of n]
      else if n < 0x800 then [char_of (0xC0 + n div 0x40), char_of (0x80 + n mod 0x40)]
      else if n < 0x10000 then
        [char_of (0xE0 + n div 0x1000), char_of (0x80 + n div 0x40 mod 0x40), char_of (0x80 + n mod 0x40)]
      else [char_of (0xF0 + n div 0x40000), char_of (0x80 + n div 0x1000 mod 0x40),
            char_of (0x80 + n div 0x40 mod 0x40), char_of (0x80 + n mod 0x40)])"

definition rune_error :: string where
  "rune_error = [CHR 0xEF, CHR 0xBF, CHR 0xBD]"

text \<open>What follows a backslash and a \<open>u\<close>: the bytes written and the rest of the input.\<close>

definition unicode_escape :: "string \<Rightarrow> (string \<times> string) option" where
  "unicode_escape s =
     (case getu4 s of
        None \<Rightarrow> None
      | Some (rr, q) \<Rightarrow>
          if 0xD800 \<le> rr \<and> rr < 0xE000 then
            (case q of
               b # u # q' \<Rightarrow>
                 if b = CHR 0x5C \<and> u = CHR ''u'' then
                   (case getu4 q' of
                      Some (rr1, q'') \<Rightarrow>
                        if rr < 0xDC00 \<and> 0xDC00 \<le> rr1 \<and> rr1 < 0xE000
                        then Some (utf8_rune (0x10000 + (rr - 0xD800) * 0x400 + (rr1 - 0xDC00)), q'')
                        else Some (rune_error, q)
                    | None \<Rightarrow> Some (rune_error, q))
                 else Some (rune_error, q)
             | _ \<Rightarrow> Some (rune_error, q))
          else Some (utf8_rune rr, q))"

definition escape :: "string \<Rightarrow> (string \<times> string) option" where
  "escape s =
     (case s of
        [] \<Rightarrow> None
      | d # ds \<Rightarrow>
          if d = CHR ''u'' then unicode_escape ds
          else if d \<in> {CHR 0x22, CHR 0x5C, CHR ''/''} then Some ([d], ds)
          else if d \<in> {CHR ''b'', CHR ''f'', CHR ''n'', CHR ''r'', CHR ''t''} then Some ([unesc_c d], ds)
          else None)"

lemma getu4_length: "getu4 s = Some (n, r) \<Longrightarrow> length r < length s"
  by (auto simp: getu4_def split: list.splits option.splits prod.splits)

lemma unicode_escape_length: "unicode_escape s = Some (x, r) \<Longrightarrow> length r \<le> length s"
  by (auto simp: unicode_escape_def split: option.splits prod.splits if_splits list.splits dest!: getu4_length)

lemma escape_length: "escape s = Some (x, r) \<Longrightarrow> length r \<le> length s"
  by (auto simp: escape_def split: list.splits if_splits dest: unicode_escape_length)

text \<open>The rest of a string literal after its opening quote.\<close>

function parse_string :: "string \<Rightarrow> (string \<times> string) option" where
  "parse_string [] = None"
| "parse_string (c # cs) =
     (if c = CHR 0x22 then Some ([], cs)
      else if (of_char c :: nat) < 0x20 then None
      else if c = CHR 0x5C then
        (case escape cs of
           None \<Rightarrow> None
         | Some (x, r) \<Rightarrow> map_option (apfst ((@) x)) (parse_string r))
      else if is_ascii c then map_option (apfst ((#) c)) (parse_string cs)
      else if rune_len (c # cs) = 0 then map_option (apfst ((@) rune_error)) (parse_string cs)
      else map_option (apfst ((@) (c # take (rune_len (c # cs) - 1) cs))) (parse_string (drop (rune_len (c # cs) - 1) cs)))"
  by pat_completeness auto
termination
  by (relation "measure length") (auto dest: escape_length)

lemma parse_string_length: "parse_string s = Some (x, r) \<Longrightarrow> length r < length s"
proof (induction s arbitrary: x r rule: parse_string.induct)
  case (2 c cs)
  show ?case
    using "2.prems" "2.IH"
    by (auto split: if_splits option.splits simp del: length_drop dest!: escape_length) fastforce+
qed simp

subsection \<open>Numbers and white space\<close>

definition json_space :: "char \<Rightarrow> bool" where
  "json_space c \<longleftrightarrow> c \<in> {CHR '' '', CHR 0x09, CHR 0x0A, CHR 0x0D}"

definition skip_space :: "string \<Rightarrow> string" where
  "skip_space = dropWhile json_space"

text \<open>Take the next character that is not white space, if it is the expected one.\<close>

definition expect :: "char \<Rightarrow> string \<Rightarrow> string option" where
  "expect c s = (case skip_space s of x # r \<Rightarrow> if x = c then Some r else None | [] \<Rightarrow> None)"

definition digits1 :: "string \<Rightarrow> (string \<times> string) option" where
  "digits1 s = (if takeWhile is_digit s = [] then None else Some (takeWhile is_digit s, dropWhile is_digit s))"

definition number_sign :: "string \<Rightarrow> string \<times> string" where
  "number_sign s = (case s of c # r \<Rightarrow> if c = CHR ''-'' then ([c], r) else ([], s) | [] \<Rightarrow> ([], s))"

definition number_int :: "string \<Rightarrow> (string \<times> string) option" where
  "number_int s = (case s of c # r \<Rightarrow> if c = CHR ''0'' then Some ([c], r) else digits1 s | [] \<Rightarrow> None)"

definition number_frac :: "string \<Rightarrow> (string \<times> string) option" where
  "number_frac s =
     (case s of
        c # r \<Rightarrow> if c = CHR ''.'' then map_option (apfst ((#) c)) (digits1 r) else Some ([], s)
      | [] \<Rightarrow> Some ([], s))"

definition number_exp :: "string \<Rightarrow> (string \<times> string) option" where
  "number_exp s =
     (case s of
        c # r \<Rightarrow>
          if c = CHR ''e'' \<or> c = CHR ''E'' then
            (case r of
               g # q \<Rightarrow>
                 if g = CHR ''+'' \<or> g = CHR ''-'' then map_option (apfst (\<lambda>x. c # g # x)) (digits1 q)
                 else map_option (apfst ((#) c)) (digits1 r)
             | [] \<Rightarrow> None)
          else Some ([], s)
      | [] \<Rightarrow> Some ([], s))"

definition parse_number :: "string \<Rightarrow> (jtree \<times> string) option" where
  "parse_number s =
     (let (sg, s1) = number_sign s in
      case number_int s1 of
        None \<Rightarrow> None
      | Some (i, s2) \<Rightarrow>
          (case number_frac s2 of
             None \<Rightarrow> None
           | Some (f, s3) \<Rightarrow>
               (case number_exp s3 of None \<Rightarrow> None | Some (e, s4) \<Rightarrow> Some (TNum (sg @ i @ f @ e), s4))))"

definition parse_literal :: "string \<Rightarrow> (jtree \<times> string) option" where
  "parse_literal s =
     (if starts_with ''true'' s then Some (TBool True, drop 4 s)
      else if starts_with ''false'' s then Some (TBool False, drop 5 s)
      else if starts_with ''null'' s then Some (TNull, drop 4 s)
      else parse_number s)"

subsection \<open>Documents\<close>

definition max_depth :: nat where "max_depth = 10000"

fun parse_value :: "nat \<Rightarrow> nat \<Rightarrow> string \<Rightarrow> (jtree \<times> string) option"
  and parse_elems :: "nat \<Rightarrow> nat \<Rightarrow> string \<Rightarrow> (jtree list \<times> string) option"
  and parse_members :: "nat \<Rightarrow> nat \<Rightarrow> string \<Rightarrow> ((string \<times> jtree) list \<times> string) option" where
  "parse_value 0 d s = None"
| "parse_value (Suc n) d s =
     (case skip_space s of
        [] \<Rightarrow> None
      | c # r \<Rightarrow>
          if c = CHR 0x22 then map_option (apfst TStr) (parse_string r)
          else if c = CHR ''['' then
            (if max_depth \<le> d then None
             else case expect (CHR '']'') r of
               Some q \<Rightarrow> Some (TArr [], q)
             | None \<Rightarrow> map_option (apfst TArr) (parse_elems n (Suc d) r))
          else if c = CHR ''{'' then
            (if max_depth \<le> d then None
             else case expect (CHR ''}'') r of
               Some q \<Rightarrow> Some (TObj [], q)
             | None \<Rightarrow> map_option (apfst TObj) (parse_members n (Suc d) r))
          else parse_literal (c # r))"
| "parse_elems 0 d s = None"
| "parse_elems (Suc n) d s =
     (case parse_value n d s of
        None \<Rightarrow> None
      | Some (v, q) \<Rightarrow>
          (case expect (CHR '']'') q of
             Some r \<Rightarrow> Some ([v], r)
           | None \<Rightarrow>
               (case expect (CHR '','') q of
                  None \<Rightarrow> None
                | Some r \<Rightarrow> map_option (apfst ((#) v)) (parse_elems n d r))))"
| "parse_members 0 d s = None"
| "parse_members (Suc n) d s =
     (case expect (CHR 0x22) s of
        None \<Rightarrow> None
      | Some s1 \<Rightarrow>
          (case parse_string s1 of
             None \<Rightarrow> None
           | Some (k, s2) \<Rightarrow>
               (case expect (CHR '':'') s2 of
                  None \<Rightarrow> None
                | Some s3 \<Rightarrow>
                    (case parse_value n d s3 of
                       None \<Rightarrow> None
                     | Some (v, q) \<Rightarrow>
                         (case expect (CHR ''}'') q of
                            Some r \<Rightarrow> Some ([(k, v)], r)
                          | None \<Rightarrow>
                              (case expect (CHR '','') q of
                                 None \<Rightarrow> None
                               | Some r \<Rightarrow> map_option (apfst ((#) (k, v))) (parse_members n d r)))))))"

definition parse_json :: "string \<Rightarrow> jtree option" where
  "parse_json s =
     (case parse_value (2 * length s + 1) 0 s of
        Some (v, r) \<Rightarrow> if skip_space r = [] then Some v else None
      | None \<Rightarrow> None)"

subsection \<open>The fuel is enough\<close>

lemma skip_space_length: "length (skip_space s) \<le> length s"
  by (simp add: skip_space_def length_dropWhile_le)

lemma expect_length: "expect c s = Some r \<Longrightarrow> length r < length s"
  using skip_space_length [of s] by (auto simp: expect_def split: list.splits if_splits)

lemma dropWhile_shorter: "takeWhile P s \<noteq> [] \<Longrightarrow> length (dropWhile P s) < length s"
  by (cases s) (auto simp: length_dropWhile_le less_Suc_eq_le split: if_splits)

lemma digits1_length: "digits1 s = Some (x, r) \<Longrightarrow> length r < length s"
  by (auto simp: digits1_def split: if_splits dest: dropWhile_shorter)

lemma parse_number_length:
  assumes "parse_number s = Some (v, r)"
  shows "length r < length s"
proof -
  obtain sg s1 where sg: "number_sign s = (sg, s1)" by fastforce
  with assms obtain i s2 f s3 e where
    i: "number_int s1 = Some (i, s2)" and f: "number_frac s2 = Some (f, s3)" and e: "number_exp s3 = Some (e, r)"
    by (auto simp: parse_number_def split: option.splits prod.splits)
  have "length s1 \<le> length s" using sg by (auto simp: number_sign_def split: list.splits if_splits)
  moreover have "length s2 < length s1"
    using i by (auto simp: number_int_def split: list.splits if_splits dest: digits1_length)
  moreover have "length s3 \<le> length s2"
    using f by (auto simp: number_frac_def split: list.splits if_splits dest: digits1_length)
  moreover have "length r \<le> length s3"
    using e by (auto simp: number_exp_def split: list.splits if_splits dest!: digits1_length)
  ultimately show ?thesis by linarith
qed

lemma parse_literal_length: "parse_literal s = Some (v, r) \<Longrightarrow> length r < length s"
  by (auto simp: parse_literal_def starts_with_ex split: if_splits dest: parse_number_length)

lemmas parse_lengths = parse_string_length expect_length parse_literal_length

lemma skip_space_Cons: "skip_space s = c # r \<Longrightarrow> length r < length s"
  using skip_space_length [of s] by simp

lemma parse_length:
  "parse_value n d s = Some (v, q) \<Longrightarrow> length q < length s"
  "parse_elems n d s = Some (vs, q) \<Longrightarrow> length q < length s"
  "parse_members n d s = Some (ms, q) \<Longrightarrow> length q < length s"
proof (induction n arbitrary: d s v vs ms q)
  case (Suc n)
  {
    case 1
    then show ?case
      by (auto split: list.splits if_splits option.splits dest!: skip_space_Cons parse_string_length expect_length
          parse_literal_length Suc.IH(2,3))
  next
    case 2
    then show ?case
      by (auto split: option.splits dest!: expect_length Suc.IH(1,2))
  next
    case 3
    then show ?case
      by (auto split: option.splits dest!: parse_string_length expect_length Suc.IH(1,3))
  }
qed simp_all

lemma parse_fuel:
  "2 * length s < n \<Longrightarrow> parse_value n d s = parse_value (n + k) d s"
  "2 * length s + 1 < n \<Longrightarrow> parse_elems n d s = parse_elems (n + k) d s"
  "2 * length s + 1 < n \<Longrightarrow> parse_members n d s = parse_members (n + k) d s"
proof (induction n arbitrary: d s)
  case (Suc n)
  {
    case 1
    have "parse_elems n (Suc d) r = parse_elems (n + k) (Suc d) r"
      "parse_members n (Suc d) r = parse_members (n + k) (Suc d) r" if "skip_space s = c # r" for c r
      using skip_space_Cons [OF that] 1 by (auto intro!: Suc.IH(2,3))
    then show ?case by (auto split: list.split option.split)
  next
    case 2
    have v: "parse_value n d s = parse_value (n + k) d s" using 2 by (intro Suc.IH(1)) simp
    have "parse_elems n d r = parse_elems (n + k) d r"
      if "parse_value (n + k) d s = Some (v, q)" "expect c q = Some r" for v q c r
      using parse_length(1) [OF that(1)] expect_length [OF that(2)] 2 by (intro Suc.IH(2)) simp
    with v show ?case by (auto split: option.split)
  next
    case 3
    have v: "parse_value n d s3 = parse_value (n + k) d s3"
      if "expect c s = Some s1" "parse_string s1 = Some (x, s2)" "expect c' s2 = Some s3" for c s1 x s2 c' s3
      using expect_length [OF that(1)] parse_string_length [OF that(2)] expect_length [OF that(3)] 3
      by (intro Suc.IH(1)) simp
    have "parse_members n d r = parse_members (n + k) d r"
      if "expect c s = Some s1" "parse_string s1 = Some (x, s2)" "expect c' s2 = Some s3"
        "parse_value (n + k) d s3 = Some (v, q)" "expect c'' q = Some r" for c s1 x s2 c' s3 v q c'' r
      using expect_length [OF that(1)] parse_string_length [OF that(2)] expect_length [OF that(3)]
        parse_length(1) [OF that(4)] expect_length [OF that(5)] 3
      by (intro Suc.IH(3)) simp
    with v show ?case by (auto split: option.split)
  }
qed simp_all

subsection \<open>The encoder\<close>

fun enc_tree :: "jtree \<Rightarrow> string"
  and enc_elems :: "jtree list \<Rightarrow> string"
  and enc_members :: "(string \<times> jtree) list \<Rightarrow> string" where
  "enc_tree (TNum l) = l"
| "enc_tree (TStr s) = jstr s"
| "enc_tree (TBool b) = (if b then ''true'' else ''false'')"
| "enc_tree TNull = ''null''"
| "enc_tree (TArr vs) = CHR ''['' # enc_elems vs"
| "enc_tree (TObj ms) = CHR ''{'' # enc_members ms"
| "enc_elems [] = '']''"
| "enc_elems [v] = enc_tree v @ '']''"
| "enc_elems (v # w # vs) = enc_tree v @ CHR '','' # enc_elems (w # vs)"
| "enc_members [] = ''}''"
| "enc_members [(k, v)] = jstr k @ CHR '':'' # enc_tree v @ ''}''"
| "enc_members ((k, v) # m # ms) = jstr k @ CHR '':'' # enc_tree v @ CHR '','' # enc_members (m # ms)"

text \<open>Trees whose encoding the parser reads back: valid UTF-8, integer literals, bounded nesting.\<close>

definition int_literal :: "string \<Rightarrow> bool" where
  "int_literal l \<longleftrightarrow> (\<exists>i. l = show_int i)"

fun tree_ok :: "nat \<Rightarrow> jtree \<Rightarrow> bool" where
  "tree_ok d (TNum l) = int_literal l"
| "tree_ok d (TStr s) = utf8_valid s"
| "tree_ok d (TBool b) = True"
| "tree_ok d TNull = True"
| "tree_ok d (TArr vs) = (d < max_depth \<and> (\<forall>v \<in> set vs. tree_ok (Suc d) v))"
| "tree_ok d (TObj ms) = (d < max_depth \<and> (\<forall>(k, v) \<in> set ms. utf8_valid k \<and> tree_ok (Suc d) v))"

lemma getu4_0: "getu4 (CHR ''0'' # CHR ''0'' # hex_digit a # hex_digit b # r) = Some (a * 16 + b, r)"
  if "a < 16" "b < 16"
proof -
  have "hex_dig (hex_digit n) = Some n" if "n < 16" for n
    using that by (auto simp: hex_dig_def hex_digit_def Let_def)
  with that show ?thesis by (simp add: getu4_def hex_dig_def)
qed

lemma parse_string_ascii:
  assumes "is_ascii c"
  shows "parse_string (esc_ascii c @ r) = map_option (apfst ((#) c)) (parse_string r)"
proof -
  have d: "(of_char c :: nat) div 16 < 16" "(of_char c :: nat) mod 16 < 16"
    "(of_char c :: nat) div 16 * 16 + of_char c mod 16 = of_char c"
    using assms by (auto simp: is_ascii_def)
  have "unicode_escape (CHR ''0'' # CHR ''0'' # hex_digit (of_char c div 16) # hex_digit (of_char c mod 16) # r) = Some ([c], r)"
    using assms d getu4_0 [OF d(1,2), of r] by (simp add: unicode_escape_def utf8_rune_def is_ascii_def)
  moreover have append1: "(@) [x] = (#) x" for x :: char by auto
  ultimately have u: "parse_string (CHR 0x5C # CHR ''u'' # CHR ''0'' # CHR ''0'' # hex_digit (of_char c div 16) #
      hex_digit (of_char c mod 16) # r) = map_option (apfst ((#) c)) (parse_string r)"
    by (simp add: escape_def)
  show ?thesis
  proof (cases "c \<in> {CHR 0x5C, CHR 0x22, CHR 0x08, CHR 0x0C, CHR 0x0A, CHR 0x0D, CHR 0x09}")
    case True
    then show ?thesis
      by (elim insertE emptyE) (simp_all add: esc_ascii_def escape_def unesc_c_def append1)
  next
    case False
    with u assms show ?thesis by (simp add: esc_ascii_def)
  qed
qed

text \<open>The length of a rune depends on its bytes only.\<close>

lemma rune_len_local:
  assumes "rune_len (c # cs) = n" "n \<noteq> 0"
  shows "rune_len (c # take (n - 1) cs @ q) = n"
proof -
  have "rune_len (c # cs) \<noteq> 0" using assms by simp
  then show ?thesis
  proof (cases rule: rune_len_cases)
    case (two x r)
    with assms have "rune_len (c # x # r) = 2" "n = 2" by auto
    then have "rune_len (c # x # q) = 2"
      by (auto simp: rune_len_def Let_def split: if_splits list.splits)
    with two \<open>n = 2\<close> show ?thesis by simp
  next
    case (three x y r)
    with assms have "rune_len (c # x # y # r) = 3" "n = 3" by auto
    then have "rune_len (c # x # y # q) = 3"
      by (auto simp: rune_len_def Let_def split: if_splits list.splits)
    with three \<open>n = 3\<close> show ?thesis by (simp add: numeral_eq_Suc)
  next
    case (four x y z r)
    with assms have "rune_len (c # x # y # z # r) = 4" "n = 4" by auto
    then have "rune_len (c # x # y # z # q) = 4"
      by (auto simp: rune_len_def Let_def split: if_splits list.splits)
    with four \<open>n = 4\<close> show ?thesis by (simp add: numeral_eq_Suc)
  qed
qed

lemma rune_len_bound: "rune_len (c # cs) \<noteq> 0 \<Longrightarrow> rune_len (c # cs) - 1 \<le> length cs"
  by (erule rune_len_cases) simp_all

lemma parse_string_rune:
  assumes "rune_len (c # cs) = n" "n \<noteq> 0"
  shows "parse_string (c # take (n - 1) cs @ q) = map_option (apfst ((@) (c # take (n - 1) cs))) (parse_string q)"
proof -
  have hi: "\<not> is_ascii c" using rune_len_high [of c cs] assms by simp
  then have c: "c \<noteq> CHR 0x22" "c \<noteq> CHR 0x5C" "\<not> (of_char c :: nat) < 0x20" by (auto simp: is_ascii_def)
  have "length (take (n - 1) cs) = n - 1" using rune_len_bound [of c cs] assms by simp
  with hi c rune_len_local [OF assms, of q] assms(2) show ?thesis by (simp add: parse_string.simps(2))
qed

lemma parse_string_sep:
  "parse_string (CHR 0x5C # CHR ''u'' # CHR ''2'' # CHR ''0'' # CHR ''2'' # CHR ''8'' # r) =
     map_option (apfst ((@) [CHR 0xE2, CHR 0x80, CHR 0xA8])) (parse_string r)"
  "parse_string (CHR 0x5C # CHR ''u'' # CHR ''2'' # CHR ''0'' # CHR ''2'' # CHR ''9'' # r) =
     map_option (apfst ((@) [CHR 0xE2, CHR 0x80, CHR 0xA9])) (parse_string r)"
  by (simp_all add: escape_def unicode_escape_def getu4_def hex_dig_def utf8_rune_def char_of_def bit_0)

lemma parse_string_esc: "utf8_valid s \<Longrightarrow> parse_string (esc s @ CHR 0x22 # r) = Some (s, r)"
proof (induction s rule: utf8_valid.induct)
  case (2 c cs)
  let ?n = "rune_len (c # cs)"
  show ?case
  proof (cases "is_ascii c")
    case True
    with 2 show ?thesis by (simp add: parse_string_ascii del: parse_string.simps)
  next
    case False
    with "2.prems" have n: "?n \<noteq> 0" "utf8_valid (drop (?n - 1) cs)" by auto
    note IH = "2.IH"(2) [OF False n(2)]
    consider (a8) ds where "c # cs = CHR 0xE2 # CHR 0x80 # CHR 0xA8 # ds"
      | (a9) ds where "c # cs = CHR 0xE2 # CHR 0x80 # CHR 0xA9 # ds"
      | (other) "\<not> starts_with [CHR 0xE2, CHR 0x80, CHR 0xA8] (c # cs)"
          "\<not> starts_with [CHR 0xE2, CHR 0x80, CHR 0xA9] (c # cs)"
      unfolding starts_with_ex by auto
    then show ?thesis
    proof cases
      case a8
      with False IH show ?thesis by (auto simp: rune_len_sep parse_string_sep simp del: parse_string.simps)
    next
      case a9
      with False IH show ?thesis by (auto simp: rune_len_sep parse_string_sep simp del: parse_string.simps)
    next
      case other
      have "esc (c # cs) = c # take (?n - 1) cs @ esc (drop (?n - 1) cs)"
        using False n(1) other by auto
      then show ?thesis using parse_string_rune [OF refl n(1)] IH by (simp del: parse_string.simps)
    qed
  qed
qed simp

subsection \<open>Parsing an encoding\<close>

text \<open>What may follow a value.\<close>

definition follow :: "string \<Rightarrow> bool" where
  "follow r \<longleftrightarrow> r = [] \<or> hd r \<in> {CHR '','', CHR '']'', CHR ''}''}"

lemma follow_simps [simp]: "follow []" "follow (CHR '','' # r)" "follow (CHR '']'' # r)" "follow (CHR ''}'' # r)"
  by (simp_all add: follow_def)

lemma char_of_digit: "d < 10 \<Longrightarrow> char_of (48 + d :: nat) = CHR ''0'' \<longleftrightarrow> d = 0"
proof -
  assume "d < 10"
  have "char_of (48 + d) = CHR ''0'' \<longleftrightarrow> of_char (char_of (48 + d :: nat) :: char) = (of_char (CHR ''0'') :: nat)"
    by (simp only: of_char_eq_iff)
  with \<open>d < 10\<close> show ?thesis by simp
qed

lemma show_nat_head: "hd (show_nat n) = CHR ''0'' \<longleftrightarrow> n = 0"
proof (induction n rule: show_nat.induct)
  case (1 n)
  show ?case
  proof (cases "n < 10")
    case True
    then show ?thesis by (subst show_nat.simps) (simp add: char_of_digit)
  next
    case False
    then show ?thesis using 1 by (subst show_nat.simps) (simp add: hd_append)
  qed
qed

lemma follow_digit:
  assumes "follow r"
  shows "takeWhile is_digit r = []" "dropWhile is_digit r = r"
    "r = c # q \<Longrightarrow> c \<noteq> CHR ''.'' \<and> c \<noteq> CHR ''e'' \<and> c \<noteq> CHR ''E''"
  using assms by (cases r; auto simp: follow_def is_digit_def)+

lemma digits1_append: "\<forall>c \<in> set x. is_digit c \<Longrightarrow> x \<noteq> [] \<Longrightarrow> follow r \<Longrightarrow> digits1 (x @ r) = Some (x, r)"
  by (simp add: digits1_def follow_digit)

lemma number_int_show:
  assumes "follow r"
  shows "number_int (show_nat n @ r) = Some (show_nat n, r)"
proof (cases "n = 0")
  case True
  then show ?thesis by (simp add: number_int_def show_nat.simps [of 0] char_of_digit [of 0, simplified])
next
  case False
  have "digits1 (show_nat n @ r) = Some (show_nat n, r)"
    by (rule digits1_append [OF show_nat_digits show_nat_not_Nil assms])
  moreover obtain c q where "show_nat n = c # q" by (meson list.exhaust show_nat_not_Nil)
  ultimately show ?thesis
    using False show_nat_head [of n] by (auto simp: number_int_def)
qed

lemma parse_number_tail: "follow r \<Longrightarrow> number_frac r = Some ([], r) \<and> number_exp r = Some ([], r)"
  using follow_digit(3) [of r] by (auto simp: number_frac_def number_exp_def split: list.splits)

lemma number_sign_show:
  "number_sign (show_int i @ r) = (if i < 0 then ''-'' else [], show_nat (nat \<bar>i\<bar>) @ r)"
proof -
  obtain c q where cq: "show_nat (nat i) = c # q" by (meson list.exhaust show_nat_not_Nil)
  then have "c \<noteq> CHR ''-''" using show_nat_digits [of "nat i"] by (auto simp: is_digit_def)
  with cq show ?thesis by (simp add: show_int_def number_sign_def)
qed

lemma parse_number_show: "follow r \<Longrightarrow> parse_number (show_int i @ r) = Some (TNum (show_int i), r)"
  by (simp add: parse_number_def number_sign_show number_int_show parse_number_tail) (simp add: show_int_def)

lemma show_int_head: "\<exists>c q. show_int i = c # q \<and> (c = CHR ''-'' \<or> is_digit c)"
proof -
  obtain c q where "show_nat (nat i) = c # q" by (meson list.exhaust show_nat_not_Nil)
  then show ?thesis using show_nat_digits [of "nat i"] by (auto simp: show_int_def)
qed

lemma parse_literal_show: "follow r \<Longrightarrow> parse_literal (show_int i @ r) = Some (TNum (show_int i), r)"
  using show_int_head [of i] parse_number_show [of r i] by (auto simp: parse_literal_def is_digit_def)

text \<open>The first character of an encoding is no white space and closes nothing.\<close>

lemma enc_tree_head:
  assumes "tree_ok d v"
  obtains c q where "enc_tree v = c # q" "\<not> json_space c" "c \<noteq> CHR '']''" "c \<noteq> CHR ''}''"
proof (cases v)
  case (TNum l)
  then obtain i where "l = show_int i" using assms by (auto simp: int_literal_def)
  moreover obtain c q where c: "show_int i = c # q" "c = CHR ''-'' \<or> is_digit c" using show_int_head by blast
  moreover have "\<not> json_space c" "c \<noteq> CHR '']''" "c \<noteq> CHR ''}''" using c(2) by (auto simp: json_space_def is_digit_def)
  ultimately show ?thesis using TNum that by simp
next
  case (TBool b)
  then show ?thesis using that by (cases b) (auto simp: json_space_def)
qed (use that in \<open>auto simp: jstr_def json_space_def\<close>)

lemma skip_enc_tree: "tree_ok d v \<Longrightarrow> skip_space (enc_tree v @ r) = enc_tree v @ r"
  by (erule enc_tree_head) (simp add: skip_space_def)

lemma expect_simps [simp]:
  "expect (CHR '','') (CHR '','' # r) = Some r" "expect (CHR '']'') (CHR '']'' # r) = Some r"
  "expect (CHR ''}'') (CHR ''}'' # r) = Some r" "expect (CHR 0x22) (CHR 0x22 # r) = Some r"
  "expect (CHR '':'') (CHR '':'' # r) = Some r"
  "expect (CHR '']'') (CHR '','' # r) = None" "expect (CHR ''}'') (CHR '','' # r) = None"
  "expect (CHR ''}'') (CHR 0x22 # r) = None"
  by (simp_all add: expect_def skip_space_def json_space_def)

lemma expect_enc_tree: "tree_ok d v \<Longrightarrow> expect (CHR '']'') (enc_tree v @ r) = None"
  by (erule enc_tree_head) (simp add: expect_def skip_space_def)

lemma expect_enc_elems: "vs \<noteq> [] \<Longrightarrow> \<forall>v \<in> set vs. tree_ok d v \<Longrightarrow> expect (CHR '']'') (enc_elems vs @ r) = None"
  by (cases vs rule: enc_elems.cases) (auto simp: expect_enc_tree)

lemma expect_enc_members: "ms \<noteq> [] \<Longrightarrow> expect (CHR ''}'') (enc_members ms @ r) = None"
  by (cases ms rule: enc_members.cases) (auto simp: jstr_def)

text \<open>Scalars, and the steps from the content of an array or object to the whole.\<close>

lemma parse_enc_num:
  assumes "tree_ok d (TNum l)" "follow r"
  shows "parse_value (Suc m) d (l @ r) = Some (TNum l, r)"
proof -
  obtain i where i: "l = show_int i" using assms(1) by (auto simp: int_literal_def)
  obtain c q where c: "show_int i = c # q" "c = CHR ''-'' \<or> is_digit c" using show_int_head by blast
  then have s: "skip_space (show_int i @ r) = c # q @ r" using skip_enc_tree [OF assms(1), of r] i by simp
  have "c \<noteq> CHR 0x22" "c \<noteq> CHR ''[''" "c \<noteq> CHR ''{''" using c(2) by (auto simp: is_digit_def)
  with s c(1) parse_literal_show [OF assms(2), of i] show ?thesis by (simp add: i)
qed

lemma parse_enc_arr:
  assumes "tree_ok d (TArr vs)" "vs \<noteq> [] \<Longrightarrow> parse_elems m (Suc d) (enc_elems vs @ r) = Some (vs, r)"
  shows "parse_value (Suc m) d (enc_tree (TArr vs) @ r) = Some (TArr vs, r)"
proof (cases "vs = []")
  case False
  moreover have "expect (CHR '']'') (enc_elems vs @ r) = None"
    using assms(1) by (intro expect_enc_elems [OF False, of "Suc d"]) simp
  ultimately show ?thesis using assms by (simp add: skip_space_def json_space_def)
qed (use assms in \<open>simp add: skip_space_def json_space_def\<close>)

lemma parse_enc_obj:
  assumes "tree_ok d (TObj ms)" "ms \<noteq> [] \<Longrightarrow> parse_members m (Suc d) (enc_members ms @ r) = Some (ms, r)"
  shows "parse_value (Suc m) d (enc_tree (TObj ms) @ r) = Some (TObj ms, r)"
  using assms by (cases "ms = []") (auto simp: skip_space_def json_space_def expect_enc_members)

lemma parse_enc:
  "tree_ok d v \<Longrightarrow> follow r \<Longrightarrow> 2 * length (enc_tree v @ r) < n \<Longrightarrow>
     parse_value n d (enc_tree v @ r) = Some (v, r)"
  "vs \<noteq> [] \<Longrightarrow> \<forall>v \<in> set vs. tree_ok d v \<Longrightarrow> 2 * length (enc_elems vs @ r) + 1 < n \<Longrightarrow>
     parse_elems n d (enc_elems vs @ r) = Some (vs, r)"
  "ms \<noteq> [] \<Longrightarrow> \<forall>(k, v) \<in> set ms. utf8_valid k \<and> tree_ok d v \<Longrightarrow> 2 * length (enc_members ms @ r) + 1 < n \<Longrightarrow>
     parse_members n d (enc_members ms @ r) = Some (ms, r)"
proof (induction v and vs and ms arbitrary: d r n and d r n and d r n rule: enc_tree_enc_elems_enc_members.induct)
  case (1 l)
  then show ?case using parse_enc_num [of d l r] by (cases n) simp_all
next
  case (2 s)
  then show ?case
    by (cases n) (simp_all add: jstr_def skip_space_def json_space_def parse_string_esc del: parse_string.simps)
next
  case (3 b)
  then show ?case by (cases n; cases b) (simp_all add: skip_space_def json_space_def parse_literal_def)
next
  case 4
  then show ?case by (cases n) (simp_all add: skip_space_def json_space_def parse_literal_def)
next
  case (5 vs)
  then obtain m where m: "n = Suc m" by (cases n) auto
  show ?case unfolding m by (rule parse_enc_arr) (use 5 m in auto)
next
  case (6 ms)
  then obtain m where m: "n = Suc m" by (cases n) auto
  show ?case unfolding m by (rule parse_enc_obj) (use 6 m in auto)
next
  case (8 v)
  then show ?case by (cases n) simp_all
next
  case (9 v w vs)
  then show ?case by (cases n) simp_all
next
  case (11 k v)
  then show ?case by (cases n) (simp_all add: jstr_def parse_string_esc del: parse_string.simps)
next
  case (12 k v m' ms)
  then show ?case by (cases n) (simp_all add: jstr_def parse_string_esc del: parse_string.simps)
qed simp_all

theorem parse_json_enc: "tree_ok 0 v \<Longrightarrow> parse_json (enc_tree v) = Some v"
  using parse_enc(1) [of 0 v "[]" "2 * length (enc_tree v) + 1"] by (simp add: parse_json_def skip_space_def)

subsection \<open>Struct fields\<close>

text \<open>
  \<open>foldName\<close> on a key: letters without case, with the two runes outside ASCII that fold to an
  ASCII letter (U+017F and U+212A). The tags of the program are lower-case ASCII.
\<close>

fun fold_name :: "string \<Rightarrow> string" where
  "fold_name (c # d # e # s) =
     (if c = CHR 0xE2 \<and> d = CHR 0x84 \<and> e = CHR 0xAA then CHR ''k'' # fold_name s
      else if c = CHR 0xC5 \<and> d = CHR 0xBF then CHR ''s'' # fold_name (e # s)
      else to_lower_char c # fold_name (d # e # s))"
| "fold_name [c, d] =
     (if c = CHR 0xC5 \<and> d = CHR 0xBF then [CHR ''s''] else to_lower_char c # fold_name [d])"
| "fold_name [c] = [to_lower_char c]"
| "fold_name [] = []"

text \<open>The field a key selects: an exact tag first, then one equal up to case.\<close>

definition match_field :: "string list \<Rightarrow> string \<Rightarrow> string option" where
  "match_field tags k = (if k \<in> set tags then Some k else find (\<lambda>t. fold_name t = fold_name k) tags)"

text \<open>
  Assigning the members of an object in order: \<open>put\<close> stores the value of a matched tag, or
  fails on a type it cannot take; other keys are skipped.
\<close>

fun assign_members ::
  "string list \<Rightarrow> (string \<Rightarrow> jtree \<Rightarrow> 'r \<Rightarrow> 'r option) \<Rightarrow> (string \<times> jtree) list \<Rightarrow> 'r \<Rightarrow> 'r option" where
  "assign_members tags put [] r = Some r"
| "assign_members tags put ((k, v) # ms) r =
     (case match_field tags k of
        None \<Rightarrow> assign_members tags put ms r
      | Some t \<Rightarrow> (case put t v r of None \<Rightarrow> None | Some r' \<Rightarrow> assign_members tags put ms r'))"

definition assign_object ::
  "string list \<Rightarrow> (string \<Rightarrow> jtree \<Rightarrow> 'r \<Rightarrow> 'r option) \<Rightarrow> jtree \<Rightarrow> 'r \<Rightarrow> 'r option" where
  "assign_object tags put v r =
     (case v of TObj ms \<Rightarrow> assign_members tags put ms r | TNull \<Rightarrow> Some r | _ \<Rightarrow> None)"

text \<open>\<open>json.Unmarshal\<close> into a struct; an error of any kind is \<open>None\<close>.\<close>

definition unmarshal :: "string list \<Rightarrow> (string \<Rightarrow> jtree \<Rightarrow> 'r \<Rightarrow> 'r option) \<Rightarrow> string \<Rightarrow> 'r \<Rightarrow> 'r option" where
  "unmarshal tags put s r = (case parse_json s of None \<Rightarrow> None | Some v \<Rightarrow> assign_object tags put v r)"

text \<open>Into a slice of structs: \<open>null\<close> leaves it nil, a \<open>null\<close> element is a zero struct.\<close>

definition unmarshal_list ::
  "string list \<Rightarrow> (string \<Rightarrow> jtree \<Rightarrow> 'r \<Rightarrow> 'r option) \<Rightarrow> 'r \<Rightarrow> string \<Rightarrow> 'r list option" where
  "unmarshal_list tags put zero s =
     (case parse_json s of
        Some (TArr vs) \<Rightarrow> those (map (\<lambda>v. assign_object tags put v zero) vs)
      | Some TNull \<Rightarrow> Some []
      | _ \<Rightarrow> None)"

text \<open>The values: \<open>null\<close> leaves a scalar as it is, a value of another type is an error.\<close>

definition dec_string :: "jtree \<Rightarrow> string \<Rightarrow> string option" where
  "dec_string v old = (case v of TStr s \<Rightarrow> Some s | TNull \<Rightarrow> Some old | _ \<Rightarrow> None)"

definition dec_bool :: "jtree \<Rightarrow> bool \<Rightarrow> bool option" where
  "dec_bool v old = (case v of TBool b \<Rightarrow> Some b | TNull \<Rightarrow> Some old | _ \<Rightarrow> None)"

definition dec_int64 :: "jtree \<Rightarrow> int \<Rightarrow> int option" where
  "dec_int64 v old = (case v of TNum l \<Rightarrow> atoi l | TNull \<Rightarrow> Some old | _ \<Rightarrow> None)"

definition dec_uint64 :: "jtree \<Rightarrow> 64 word \<Rightarrow> 64 word option" where
  "dec_uint64 v old =
     (case v of
        TNum l \<Rightarrow> if list_all is_digit l \<and> read_nat l < 2 ^ 64 then Some (of_nat (read_nat l)) else None
      | TNull \<Rightarrow> Some old
      | _ \<Rightarrow> None)"

text \<open>A byte slice is base64 text, or an array of numbers up to 255 in which \<open>null\<close> keeps the old byte.\<close>

definition dec_byte :: "jtree \<Rightarrow> char \<Rightarrow> char option" where
  "dec_byte v old =
     (case v of
        TNum l \<Rightarrow> if list_all is_digit l \<and> read_nat l < 256 then Some (char_of (read_nat l)) else None
      | TNull \<Rightarrow> Some old
      | _ \<Rightarrow> None)"

fun dec_byte_array :: "jtree list \<Rightarrow> string \<Rightarrow> string option" where
  "dec_byte_array [] old = Some []"
| "dec_byte_array (v # vs) old =
     (case dec_byte v (case old of c # _ \<Rightarrow> c | [] \<Rightarrow> CHR 0x00) of
        None \<Rightarrow> None
      | Some c \<Rightarrow> map_option ((#) c) (dec_byte_array vs (tl old)))"

definition dec_bytes :: "jtree \<Rightarrow> string \<Rightarrow> string option option" where
  "dec_bytes v old =
     (case v of
        TStr s \<Rightarrow> map_option Some (b64_decode s)
      | TNull \<Rightarrow> Some None
      | TArr vs \<Rightarrow> map_option Some (dec_byte_array vs old)
      | _ \<Rightarrow> None)"

lemma atoi_show_int: "int64_range i \<Longrightarrow> atoi (show_int i) = Some i"
proof (cases "i < 0")
  case True
  assume "int64_range i"
  with True show ?thesis
    using show_nat_digits [of "nat (- i)"] by (simp add: atoi_def show_int_def list_all_iff)
next
  case False
  assume "int64_range i"
  with False atoi_show_nat [of "nat i"] show ?thesis by (simp add: show_int_def)
qed

lemma dec_simps [simp]:
  "dec_string (TStr s) old = Some s"
  "dec_bool (TBool b) old' = Some b"
  "int64_range i \<Longrightarrow> dec_int64 (TNum (show_int i)) j = Some i"
  "dec_bytes (TStr (base64 s)) old = Some (Some s)"
  "dec_bytes TNull old = Some None"
  by (simp_all add: dec_string_def dec_bool_def dec_int64_def dec_bytes_def atoi_show_int)

lemma dec_uint64_show [simp]: "dec_uint64 (TNum (show_int (uint w))) old = Some w"
proof -
  have "list_all is_digit (show_nat (unat w))" using show_nat_digits by (simp add: list_all_iff)
  moreover have "unat w < 2 ^ 64" by (rule order_less_le_trans [OF unsigned_less]) simp
  ultimately show ?thesis by (simp add: dec_uint64_def show_int_def)
qed

lemma assign_members_append:
  "assign_members tags put (xs @ ys) r =
     (case assign_members tags put xs r of None \<Rightarrow> None | Some r' \<Rightarrow> assign_members tags put ys r')"
  by (induction xs arbitrary: r) (auto split: option.split)

text \<open>A field with \<open>omitempty\<close>.\<close>

definition omit_if :: "bool \<Rightarrow> string \<Rightarrow> jtree \<Rightarrow> (string \<times> jtree) list" where
  "omit_if z k v = (if z then [] else [(k, v)])"

lemma assign_omit_if:
  assumes "t \<in> set tags" "put t v r = Some r'" "z \<Longrightarrow> r' = r"
  shows "assign_members tags put (omit_if z t v) r = Some r'"
  using assms by (simp add: omit_if_def match_field_def)

lemma assign_exact:
  "t \<in> set tags \<Longrightarrow> assign_members tags put ((t, v) # ms) r =
     (case put t v r of None \<Rightarrow> None | Some r' \<Rightarrow> assign_members tags put ms r')"
  by (simp add: match_field_def)

lemma tree_ok_int [simp]: "int_literal (show_int i)"
  by (auto simp: int_literal_def)

lemma unmarshal_enc:
  assumes "tree_ok 0 (TObj ms)"
  shows "unmarshal tags put (enc_tree (TObj ms)) r = assign_members tags put ms r"
  unfolding unmarshal_def parse_json_enc [OF assms] by (simp add: assign_object_def)

end
