(* ===== verification/Store.thy ===== *)
theory Store
  imports Json_Parse Audit_Log
begin

text \<open>
  \<open>store/store.go\<close>: the rows of the persistent store, their JSON encoding and decoding, and
  the interface \<open>NodeStore\<close>. A row round-trips when its strings are valid UTF-8 and its numbers
  fit in 64 bits. A byte slice of a row is nil or empty alike for \<open>omitempty\<close>, so the payload is a
  string; the signatures of a revocation keep the difference. The specification \<open>store_spec\<close> is
  the abstract state of a store; the locale \<open>node_store\<close> is what a backend promises, and the
  sequences of operations proved in it hold for both backends.
\<close>

subsection \<open>Rows\<close>

record store_DLQEntry =
  sd_ID :: string
  sd_IdempotencyKey :: string
  sd_PeerAddr :: string
  sd_Attempts :: int
  sd_LastErr :: string
  sd_FirstSeenUnix :: int
  sd_LastAttemptUnix :: int
  sd_Payload :: string
  sd_Reason :: string
  sd_NextOpenUnix :: int

record store_CRLEntry =
  sc_NodeID :: string
  sc_Reason :: string
  sc_RevokedAt :: int
  sc_Signatures :: "string option list option"

fun dec_sig_list :: "jtree list \<Rightarrow> string option list \<Rightarrow> string option list option" where
  "dec_sig_list [] old = Some []"
| "dec_sig_list (v # vs) old =
     (case dec_bytes v (case old of Some s # _ \<Rightarrow> s | _ \<Rightarrow> []) of
        None \<Rightarrow> None
      | Some x \<Rightarrow> map_option ((#) x) (dec_sig_list vs (tl old)))"

definition dec_sigs :: "jtree \<Rightarrow> string option list option \<Rightarrow> string option list option option" where
  "dec_sigs v old =
     (case v of
        TNull \<Rightarrow> Some None
      | TArr vs \<Rightarrow> map_option Some (dec_sig_list vs (case old of None \<Rightarrow> [] | Some xs \<Rightarrow> xs))
      | _ \<Rightarrow> None)"

definition sig_tree :: "string option \<Rightarrow> jtree" where
  "sig_tree x = (case x of None \<Rightarrow> TNull | Some s \<Rightarrow> TStr (base64 s))"

definition sigs_tree :: "string option list option \<Rightarrow> jtree" where
  "sigs_tree x = (case x of None \<Rightarrow> TNull | Some xs \<Rightarrow> TArr (map sig_tree xs))"

definition dlq_zero :: store_DLQEntry where
  "dlq_zero = \<lparr>sd_ID = [], sd_IdempotencyKey = [], sd_PeerAddr = [], sd_Attempts = 0, sd_LastErr = [],
     sd_FirstSeenUnix = 0, sd_LastAttemptUnix = 0, sd_Payload = [], sd_Reason = [], sd_NextOpenUnix = 0\<rparr>"

definition dlq_fields :: "store_DLQEntry \<Rightarrow> (string \<times> jtree) list" where
  "dlq_fields e =
     [(''id'', TStr (sd_ID e)),
      (''idempotency_key'', TStr (sd_IdempotencyKey e)),
      (''peer_addr'', TStr (sd_PeerAddr e)),
      (''attempts'', TNum (show_int (sd_Attempts e))),
      (''last_err'', TStr (sd_LastErr e)),
      (''first_seen_unix'', TNum (show_int (sd_FirstSeenUnix e))),
      (''last_attempt_unix'', TNum (show_int (sd_LastAttemptUnix e)))] @
     omit_if (sd_Payload e = []) ''payload'' (TStr (base64 (sd_Payload e))) @
     omit_if (sd_Reason e = []) ''reason'' (TStr (sd_Reason e)) @
     omit_if (sd_NextOpenUnix e = 0) ''next_open_unix'' (TNum (show_int (sd_NextOpenUnix e)))"

definition dlq_tags :: "string list" where
  "dlq_tags = [''id'', ''idempotency_key'', ''peer_addr'', ''attempts'', ''last_err'', ''first_seen_unix'',
     ''last_attempt_unix'', ''payload'', ''reason'', ''next_open_unix'']"

definition dlq_put :: "string \<Rightarrow> jtree \<Rightarrow> store_DLQEntry \<Rightarrow> store_DLQEntry option" where
  "dlq_put t v e =
     (if t = ''id'' then map_option (\<lambda>x. e\<lparr>sd_ID := x\<rparr>) (dec_string v (sd_ID e))
      else if t = ''idempotency_key'' then map_option (\<lambda>x. e\<lparr>sd_IdempotencyKey := x\<rparr>) (dec_string v (sd_IdempotencyKey e))
      else if t = ''peer_addr'' then map_option (\<lambda>x. e\<lparr>sd_PeerAddr := x\<rparr>) (dec_string v (sd_PeerAddr e))
      else if t = ''attempts'' then map_option (\<lambda>x. e\<lparr>sd_Attempts := x\<rparr>) (dec_int64 v (sd_Attempts e))
      else if t = ''last_err'' then map_option (\<lambda>x. e\<lparr>sd_LastErr := x\<rparr>) (dec_string v (sd_LastErr e))
      else if t = ''first_seen_unix'' then map_option (\<lambda>x. e\<lparr>sd_FirstSeenUnix := x\<rparr>) (dec_int64 v (sd_FirstSeenUnix e))
      else if t = ''last_attempt_unix'' then map_option (\<lambda>x. e\<lparr>sd_LastAttemptUnix := x\<rparr>) (dec_int64 v (sd_LastAttemptUnix e))
      else if t = ''payload'' then map_option (\<lambda>x. e\<lparr>sd_Payload := x\<rparr>) (map_option (case_option [] (\<lambda>x. x)) (dec_bytes v (sd_Payload e)))
      else if t = ''reason'' then map_option (\<lambda>x. e\<lparr>sd_Reason := x\<rparr>) (dec_string v (sd_Reason e))
      else if t = ''next_open_unix'' then map_option (\<lambda>x. e\<lparr>sd_NextOpenUnix := x\<rparr>) (dec_int64 v (sd_NextOpenUnix e))
      else None)"

definition marshal_dlq :: "store_DLQEntry \<Rightarrow> string" where
  "marshal_dlq e = enc_tree (TObj (dlq_fields e))"

definition unmarshal_dlq :: "string \<Rightarrow> store_DLQEntry option" where
  "unmarshal_dlq s = unmarshal dlq_tags dlq_put s dlq_zero"

definition dlq_row_ok :: "store_DLQEntry \<Rightarrow> bool" where
  "dlq_row_ok e \<longleftrightarrow>
     utf8_valid (sd_ID e) \<and> utf8_valid (sd_IdempotencyKey e) \<and> utf8_valid (sd_PeerAddr e) \<and>
     utf8_valid (sd_LastErr e) \<and> utf8_valid (sd_Reason e) \<and> int64_range (sd_Attempts e) \<and>
     int64_range (sd_FirstSeenUnix e) \<and> int64_range (sd_LastAttemptUnix e) \<and>
     int64_range (sd_NextOpenUnix e)"

definition audit_zero :: store_AuditEntry where
  "audit_zero = \<lparr>sa_Seq = 0, sa_TimestampUnixMS = 0, sa_Decision = [], sa_SenderRegion = [],
     sa_RecipientRegion = [], sa_PolicyVersion = [], sa_Profile = [], sa_ApplicableLaw = [], sa_Reason = [],
     sa_SchemaType = [], sa_SchemaVersion = [], sa_RetainLong = False, sa_SettlementFinal = False\<rparr>"

definition audit_fields :: "store_AuditEntry \<Rightarrow> (string \<times> jtree) list" where
  "audit_fields e =
     [(''seq'', TNum (show_int (uint (sa_Seq e)))),
      (''timestamp_unix_ms'', TNum (show_int (sa_TimestampUnixMS e))),
      (''decision'', TStr (sa_Decision e)),
      (''sender_region'', TStr (sa_SenderRegion e)),
      (''recipient_region'', TStr (sa_RecipientRegion e)),
      (''policy_version'', TStr (sa_PolicyVersion e)),
      (''profile'', TStr (sa_Profile e)),
      (''applicable_law'', TStr (sa_ApplicableLaw e)),
      (''reason'', TStr (sa_Reason e))] @
     omit_if (sa_SchemaType e = []) ''schema_type'' (TStr (sa_SchemaType e)) @
     omit_if (sa_SchemaVersion e = []) ''schema_version'' (TStr (sa_SchemaVersion e)) @
     omit_if (\<not> sa_RetainLong e) ''retain_long'' (TBool (sa_RetainLong e)) @
     omit_if (\<not> sa_SettlementFinal e) ''settlement_final'' (TBool (sa_SettlementFinal e))"

definition audit_tags :: "string list" where
  "audit_tags = [''seq'', ''timestamp_unix_ms'', ''decision'', ''sender_region'', ''recipient_region'',
     ''policy_version'', ''profile'', ''applicable_law'', ''reason'', ''schema_type'', ''schema_version'',
     ''retain_long'', ''settlement_final'']"

definition audit_put :: "string \<Rightarrow> jtree \<Rightarrow> store_AuditEntry \<Rightarrow> store_AuditEntry option" where
  "audit_put t v e =
     (if t = ''seq'' then map_option (\<lambda>x. e\<lparr>sa_Seq := x\<rparr>) (dec_uint64 v (sa_Seq e))
      else if t = ''timestamp_unix_ms'' then map_option (\<lambda>x. e\<lparr>sa_TimestampUnixMS := x\<rparr>) (dec_int64 v (sa_TimestampUnixMS e))
      else if t = ''decision'' then map_option (\<lambda>x. e\<lparr>sa_Decision := x\<rparr>) (dec_string v (sa_Decision e))
      else if t = ''sender_region'' then map_option (\<lambda>x. e\<lparr>sa_SenderRegion := x\<rparr>) (dec_string v (sa_SenderRegion e))
      else if t = ''recipient_region'' then map_option (\<lambda>x. e\<lparr>sa_RecipientRegion := x\<rparr>) (dec_string v (sa_RecipientRegion e))
      else if t = ''policy_version'' then map_option (\<lambda>x. e\<lparr>sa_PolicyVersion := x\<rparr>) (dec_string v (sa_PolicyVersion e))
      else if t = ''profile'' then map_option (\<lambda>x. e\<lparr>sa_Profile := x\<rparr>) (dec_string v (sa_Profile e))
      else if t = ''applicable_law'' then map_option (\<lambda>x. e\<lparr>sa_ApplicableLaw := x\<rparr>) (dec_string v (sa_ApplicableLaw e))
      else if t = ''reason'' then map_option (\<lambda>x. e\<lparr>sa_Reason := x\<rparr>) (dec_string v (sa_Reason e))
      else if t = ''schema_type'' then map_option (\<lambda>x. e\<lparr>sa_SchemaType := x\<rparr>) (dec_string v (sa_SchemaType e))
      else if t = ''schema_version'' then map_option (\<lambda>x. e\<lparr>sa_SchemaVersion := x\<rparr>) (dec_string v (sa_SchemaVersion e))
      else if t = ''retain_long'' then map_option (\<lambda>x. e\<lparr>sa_RetainLong := x\<rparr>) (dec_bool v (sa_RetainLong e))
      else if t = ''settlement_final'' then map_option (\<lambda>x. e\<lparr>sa_SettlementFinal := x\<rparr>) (dec_bool v (sa_SettlementFinal e))
      else None)"

definition marshal_audit :: "store_AuditEntry \<Rightarrow> string" where
  "marshal_audit e = enc_tree (TObj (audit_fields e))"

definition unmarshal_audit :: "string \<Rightarrow> store_AuditEntry option" where
  "unmarshal_audit s = unmarshal audit_tags audit_put s audit_zero"

definition audit_row_ok :: "store_AuditEntry \<Rightarrow> bool" where
  "audit_row_ok e \<longleftrightarrow>
     utf8_valid (sa_Decision e) \<and> utf8_valid (sa_SenderRegion e) \<and>
     utf8_valid (sa_RecipientRegion e) \<and> utf8_valid (sa_PolicyVersion e) \<and>
     utf8_valid (sa_Profile e) \<and> utf8_valid (sa_ApplicableLaw e) \<and> utf8_valid (sa_Reason e) \<and>
     utf8_valid (sa_SchemaType e) \<and> utf8_valid (sa_SchemaVersion e) \<and> int64_range (sa_TimestampUnixMS e)"

definition crl_zero :: store_CRLEntry where
  "crl_zero = \<lparr>sc_NodeID = [], sc_Reason = [], sc_RevokedAt = 0, sc_Signatures = None\<rparr>"

definition crl_fields :: "store_CRLEntry \<Rightarrow> (string \<times> jtree) list" where
  "crl_fields e =
     [(''node_id'', TStr (sc_NodeID e)),
      (''reason'', TStr (sc_Reason e)),
      (''revoked_at_unix'', TNum (show_int (sc_RevokedAt e))),
      (''signatures'', sigs_tree (sc_Signatures e))]"

definition crl_tags :: "string list" where
  "crl_tags = [''node_id'', ''reason'', ''revoked_at_unix'', ''signatures'']"

definition crl_put :: "string \<Rightarrow> jtree \<Rightarrow> store_CRLEntry \<Rightarrow> store_CRLEntry option" where
  "crl_put t v e =
     (if t = ''node_id'' then map_option (\<lambda>x. e\<lparr>sc_NodeID := x\<rparr>) (dec_string v (sc_NodeID e))
      else if t = ''reason'' then map_option (\<lambda>x. e\<lparr>sc_Reason := x\<rparr>) (dec_string v (sc_Reason e))
      else if t = ''revoked_at_unix'' then map_option (\<lambda>x. e\<lparr>sc_RevokedAt := x\<rparr>) (dec_int64 v (sc_RevokedAt e))
      else if t = ''signatures'' then map_option (\<lambda>x. e\<lparr>sc_Signatures := x\<rparr>) (dec_sigs v (sc_Signatures e))
      else None)"

definition marshal_crl :: "store_CRLEntry \<Rightarrow> string" where
  "marshal_crl e = enc_tree (TObj (crl_fields e))"

definition unmarshal_crl :: "string \<Rightarrow> store_CRLEntry option" where
  "unmarshal_crl s = unmarshal crl_tags crl_put s crl_zero"

definition crl_row_ok :: "store_CRLEntry \<Rightarrow> bool" where
  "crl_row_ok e \<longleftrightarrow>
     utf8_valid (sc_NodeID e) \<and> utf8_valid (sc_Reason e) \<and> int64_range (sc_RevokedAt e)"

lemma utf8_base64 [simp]: "utf8_valid (base64 s)"
  by (rule utf8_valid_ascii [OF base64_ascii])

lemma dec_sig_list_enc: "dec_sig_list (map sig_tree xs) old = Some xs"
  by (induction xs arbitrary: old) (auto simp: sig_tree_def split: option.split)

lemma dec_sigs_enc [simp]: "dec_sigs (sigs_tree x) old = Some x"
  by (cases x) (simp_all add: dec_sigs_def sigs_tree_def dec_sig_list_enc)

lemma sigs_tree_ok: "tree_ok (Suc 0) (sigs_tree x)"
  by (auto simp: sigs_tree_def sig_tree_def max_depth_def split: option.split)

lemma row_round_trip:
  assumes "tree_ok 0 (TObj fs)" "assign_members tags put fs zero = Some e"
  shows "unmarshal tags put (enc_tree (TObj fs)) zero = Some e"
  by (simp only: unmarshal_enc [OF assms(1)] assms(2))

lemma dlq_round_trip:
  assumes "dlq_row_ok e"
  shows "unmarshal_dlq (marshal_dlq e) = Some e"
  unfolding unmarshal_dlq_def marshal_dlq_def
proof (rule row_round_trip)
  show "tree_ok 0 (TObj (dlq_fields e))"
    using assms by (auto simp: dlq_fields_def dlq_row_ok_def omit_if_def max_depth_def is_ascii_def)
  show "assign_members dlq_tags dlq_put (dlq_fields e) dlq_zero = Some e"
    using assms unfolding dlq_fields_def dlq_row_ok_def
    by (simp add: assign_members_append omit_if_def dlq_tags_def dlq_put_def dlq_zero_def match_field_def)
qed

lemma audit_round_trip:
  assumes "audit_row_ok e"
  shows "unmarshal_audit (marshal_audit e) = Some e"
  unfolding unmarshal_audit_def marshal_audit_def
proof (rule row_round_trip)
  show "tree_ok 0 (TObj (audit_fields e))"
    using assms by (auto simp: audit_fields_def audit_row_ok_def omit_if_def max_depth_def is_ascii_def)
  show "assign_members audit_tags audit_put (audit_fields e) audit_zero = Some e"
    using assms unfolding audit_fields_def audit_row_ok_def
    by (simp add: assign_members_append omit_if_def audit_tags_def audit_put_def audit_zero_def match_field_def)
qed

lemma crl_round_trip:
  assumes "crl_row_ok e"
  shows "unmarshal_crl (marshal_crl e) = Some e"
  unfolding unmarshal_crl_def marshal_crl_def
proof (rule row_round_trip)
  show "tree_ok 0 (TObj (crl_fields e))"
    using assms by (auto simp: crl_fields_def crl_row_ok_def max_depth_def is_ascii_def sigs_tree_ok)
  show "assign_members crl_tags crl_put (crl_fields e) crl_zero = Some e"
    using assms by (simp add: crl_fields_def crl_row_ok_def crl_tags_def crl_put_def crl_zero_def match_field_def)
qed

lemmas round_trips = dlq_round_trip audit_round_trip crl_round_trip

subsection \<open>The interface\<close>

text \<open>
  A value of the interface type \<open>NodeStore\<close>: its methods over the state of the backend. The
  clock is an argument of \<open>Deduped\<close>. On an error only the error is kept of a result pair.
\<close>

record 's NodeStore =
  ns_Deduped :: "int \<Rightarrow> string \<Rightarrow> int \<Rightarrow> 's \<Rightarrow> (string + bool) \<times> 's"
  ns_DLQPush :: "store_DLQEntry \<Rightarrow> 's \<Rightarrow> (string + unit) \<times> 's"
  ns_DLQList :: "'s \<Rightarrow> string + store_DLQEntry list"
  ns_DLQDelete :: "string \<Rightarrow> 's \<Rightarrow> (string + unit) \<times> 's"
  ns_AuditAppend :: "store_AuditEntry \<Rightarrow> 's \<Rightarrow> (string + unit) \<times> 's"
  ns_AuditLatest :: "int \<Rightarrow> 's \<Rightarrow> string + store_AuditEntry list"
  ns_CRLPut :: "store_CRLEntry \<Rightarrow> 's \<Rightarrow> (string + unit) \<times> 's"
  ns_CRLGet :: "string \<Rightarrow> 's \<Rightarrow> string + store_CRLEntry option"
  ns_CRLList :: "'s \<Rightarrow> string + store_CRLEntry list"

datatype store_op =
    OpDeduped string int
  | OpDLQPush store_DLQEntry
  | OpDLQList
  | OpDLQDelete string
  | OpAuditAppend store_AuditEntry
  | OpAuditLatest int
  | OpCRLPut store_CRLEntry
  | OpCRLGet string
  | OpCRLList

datatype store_result =
    RSeen bool
  | RDone
  | RDLQ "store_DLQEntry list"
  | RAudit "store_AuditEntry list"
  | RFound "store_CRLEntry option"
  | RCRL "store_CRLEntry list"

fun run_op :: "'s NodeStore \<Rightarrow> int \<Rightarrow> store_op \<Rightarrow> 's \<Rightarrow> (string + store_result) \<times> 's" where
  "run_op N now (OpDeduped k ttl) s = apfst (map_sum id RSeen) (ns_Deduped N now k ttl s)"
| "run_op N now (OpDLQPush e) s = apfst (map_sum id (\<lambda>_. RDone)) (ns_DLQPush N e s)"
| "run_op N now OpDLQList s = (map_sum id RDLQ (ns_DLQList N s), s)"
| "run_op N now (OpDLQDelete i) s = apfst (map_sum id (\<lambda>_. RDone)) (ns_DLQDelete N i s)"
| "run_op N now (OpAuditAppend e) s = apfst (map_sum id (\<lambda>_. RDone)) (ns_AuditAppend N e s)"
| "run_op N now (OpAuditLatest n) s = (map_sum id RAudit (ns_AuditLatest N n s), s)"
| "run_op N now (OpCRLPut e) s = apfst (map_sum id (\<lambda>_. RDone)) (ns_CRLPut N e s)"
| "run_op N now (OpCRLGet i) s = (map_sum id RFound (ns_CRLGet N i s), s)"
| "run_op N now OpCRLList s = (map_sum id RCRL (ns_CRLList N s), s)"

fun run_ops :: "'s NodeStore \<Rightarrow> (int \<times> store_op) list \<Rightarrow> 's \<Rightarrow> (string + store_result) list \<times> 's" where
  "run_ops N [] s = ([], s)"
| "run_ops N ((now, op) # ops) s =
     (let (r, s1) = run_op N now op s; (rs, s2) = run_ops N ops s1 in (r # rs, s2))"

subsection \<open>The specification\<close>

record store_spec =
  sp_dedup :: "string \<rightharpoonup> int"
  sp_dlq :: "string \<rightharpoonup> store_DLQEntry"
  sp_audit :: "store_AuditEntry list"
  sp_crl :: "string \<rightharpoonup> store_CRLEntry"

definition spec_empty :: store_spec where
  "spec_empty = \<lparr>sp_dedup = Map.empty, sp_dlq = Map.empty, sp_audit = [], sp_crl = Map.empty\<rparr>"

definition spec_seen :: "int \<Rightarrow> string \<Rightarrow> store_spec \<Rightarrow> bool" where
  "spec_seen now k S = (case sp_dedup S k of None \<Rightarrow> False | Some e \<Rightarrow> now < e)"

fun spec_step :: "int \<Rightarrow> store_op \<Rightarrow> store_spec \<Rightarrow> store_spec" where
  "spec_step now (OpDeduped k ttl) S =
     (if spec_seen now k S then S else S\<lparr>sp_dedup := (sp_dedup S)(k \<mapsto> now + ttl)\<rparr>)"
| "spec_step now (OpDLQPush e) S = S\<lparr>sp_dlq := (sp_dlq S)(sd_ID e \<mapsto> e)\<rparr>"
| "spec_step now (OpDLQDelete i) S = S\<lparr>sp_dlq := (sp_dlq S)(i := None)\<rparr>"
| "spec_step now (OpAuditAppend e) S = S\<lparr>sp_audit := sp_audit S @ [e]\<rparr>"
| "spec_step now (OpCRLPut e) S = S\<lparr>sp_crl := (sp_crl S)(sc_NodeID e \<mapsto> e)\<rparr>"
| "spec_step now _ S = S"

text \<open>A listing has every row once, in any order.\<close>

definition lists_rows :: "('e \<Rightarrow> string) \<Rightarrow> 'e list \<Rightarrow> (string \<rightharpoonup> 'e) \<Rightarrow> bool" where
  "lists_rows key xs m \<longleftrightarrow> distinct (map key xs) \<and>
     map_of (map (\<lambda>e. (key e, e)) xs) = m"

fun spec_answer :: "int \<Rightarrow> store_op \<Rightarrow> store_spec \<Rightarrow> store_result \<Rightarrow> bool" where
  "spec_answer now (OpDeduped k ttl) S r \<longleftrightarrow> r = RSeen (spec_seen now k S)"
| "spec_answer now OpDLQList S r \<longleftrightarrow> (case r of RDLQ xs \<Rightarrow> lists_rows sd_ID xs (sp_dlq S) | _ \<Rightarrow> False)"
| "spec_answer now (OpAuditLatest n) S r \<longleftrightarrow> r = RAudit (take (nat n) (rev (sp_audit S)))"
| "spec_answer now (OpCRLGet i) S r \<longleftrightarrow> r = RFound (sp_crl S i)"
| "spec_answer now OpCRLList S r \<longleftrightarrow> (case r of RCRL xs \<Rightarrow> lists_rows sc_NodeID xs (sp_crl S) | _ \<Rightarrow> False)"
| "spec_answer now _ S r \<longleftrightarrow> r = RDone"

text \<open>
  The calls the contract covers: keys within the limits of bbolt and values within the 512 MB of a Redis string, rows that
  round-trip, sequence numbers that increase, at least one row asked for, a positive time to
  live in whole milliseconds, and no question within a millisecond of an expiry (Redis keeps
  milliseconds).
\<close>

definition key_ok :: "string \<Rightarrow> bool" where
  "key_ok k \<longleftrightarrow> k \<noteq> [] \<and> length k \<le> 32768"

definition value_ok :: "string \<Rightarrow> bool" where
  "value_ok v \<longleftrightarrow> length v \<le> 2 ^ 29"

fun spec_pre :: "int \<Rightarrow> store_op \<Rightarrow> store_spec \<Rightarrow> bool" where
  "spec_pre now (OpDeduped k ttl) S \<longleftrightarrow>
     key_ok k \<and> 0 < ttl \<and> ttl mod millisecond = 0 \<and> 0 \<le> now \<and> now + ttl < 2 ^ 63 \<and>
     (case sp_dedup S k of None \<Rightarrow> True | Some e \<Rightarrow> now + millisecond \<le> e \<or> e + millisecond \<le> now)"
| "spec_pre now (OpDLQPush e) S \<longleftrightarrow> dlq_row_ok e \<and> key_ok (sd_ID e) \<and>
     value_ok (marshal_dlq e)"
| "spec_pre now (OpAuditAppend e) S \<longleftrightarrow>
     audit_row_ok e \<and> value_ok (marshal_audit e) \<and> list_all (\<lambda>x. sa_Seq x < sa_Seq e) (sp_audit S)"
| "spec_pre now (OpAuditLatest n) S \<longleftrightarrow> 0 < n \<and> n < 2 ^ 63"
| "spec_pre now (OpCRLPut e) S \<longleftrightarrow> crl_row_ok e \<and> key_ok (sc_NodeID e) \<and>
     value_ok (marshal_crl e)"
| "spec_pre now _ S \<longleftrightarrow> True"

fun spec_pres :: "(int \<times> store_op) list \<Rightarrow> store_spec \<Rightarrow> bool" where
  "spec_pres [] S \<longleftrightarrow> True"
| "spec_pres ((now, op) # ops) S \<longleftrightarrow> spec_pre now op S \<and> spec_pres ops (spec_step now op S)"

fun spec_answers :: "(int \<times> store_op) list \<Rightarrow> store_spec \<Rightarrow> (string + store_result) list \<Rightarrow> bool" where
  "spec_answers [] S rs \<longleftrightarrow> rs = []"
| "spec_answers ((now, op) # ops) S rs \<longleftrightarrow>
     (case rs of
        Inr r # rs' \<Rightarrow> spec_answer now op S r \<and> spec_answers ops (spec_step now op S) rs'
      | _ \<Rightarrow> False)"

subsection \<open>The contract\<close>

locale node_store =
  fixes N :: "'s NodeStore" and inv :: "'s \<Rightarrow> bool" and abs :: "'s \<Rightarrow> store_spec"
  assumes Deduped: "inv s \<Longrightarrow> spec_pre now (OpDeduped k ttl) (abs s) \<Longrightarrow>
      \<exists>s'. ns_Deduped N now k ttl s = (Inr (spec_seen now k (abs s)), s') \<and> inv s' \<and>
        abs s' = spec_step now (OpDeduped k ttl) (abs s)"
    and DLQPush: "inv s \<Longrightarrow> spec_pre now (OpDLQPush e) (abs s) \<Longrightarrow>
      \<exists>s'. ns_DLQPush N e s = (Inr (), s') \<and> inv s' \<and> abs s' = spec_step now (OpDLQPush e) (abs s)"
    and DLQList: "inv s \<Longrightarrow> \<exists>xs. ns_DLQList N s = Inr xs \<and>
     lists_rows sd_ID xs (sp_dlq (abs s))"
    and DLQDelete: "inv s \<Longrightarrow>
      \<exists>s'. ns_DLQDelete N i s = (Inr (), s') \<and> inv s' \<and>
     abs s' = spec_step now (OpDLQDelete i) (abs s)"
    and AuditAppend: "inv s \<Longrightarrow> spec_pre now (OpAuditAppend a) (abs s) \<Longrightarrow>
      \<exists>s'. ns_AuditAppend N a s = (Inr (), s') \<and> inv s' \<and>
     abs s' = spec_step now (OpAuditAppend a) (abs s)"
    and AuditLatest: "inv s \<Longrightarrow> 0 < n \<Longrightarrow> n < 2 ^ 63 \<Longrightarrow>
      ns_AuditLatest N n s = Inr (take (nat n) (rev (sp_audit (abs s))))"
    and CRLPut: "inv s \<Longrightarrow> spec_pre now (OpCRLPut c) (abs s) \<Longrightarrow>
      \<exists>s'. ns_CRLPut N c s = (Inr (), s') \<and> inv s' \<and> abs s' = spec_step now (OpCRLPut c) (abs s)"
    and CRLGet: "inv s \<Longrightarrow> ns_CRLGet N i s = Inr (sp_crl (abs s) i)"
    and CRLList: "inv s \<Longrightarrow> \<exists>xs. ns_CRLList N s = Inr xs \<and>
     lists_rows sc_NodeID xs (sp_crl (abs s))"
begin

lemma op_refines:
  assumes "inv s" "spec_pre now op (abs s)"
  obtains r s' where "run_op N now op s = (Inr r, s')" "inv s'" "abs s' = spec_step now op (abs s)"
    "spec_answer now op (abs s) r"
proof (cases op)
  case (OpDeduped k ttl)
  with assms Deduped [of s now k ttl] that show ?thesis by auto
next
  case (OpDLQPush e)
  with assms DLQPush [of s now e] that show ?thesis by auto
next
  case OpDLQList
  with assms DLQList [of s] that show ?thesis by auto
next
  case (OpDLQDelete i)
  with assms DLQDelete [of s i now] that show ?thesis by auto
next
  case (OpAuditAppend e)
  with assms AuditAppend [of s now e] that show ?thesis by auto
next
  case (OpAuditLatest n)
  with assms AuditLatest [of s n] that show ?thesis by auto
next
  case (OpCRLPut e)
  with assms CRLPut [of s now e] that show ?thesis by auto
next
  case (OpCRLGet i)
  with assms CRLGet [of s i] that show ?thesis by auto
next
  case OpCRLList
  with assms CRLList [of s] that show ?thesis by auto
qed

lemma ops_refine:
  assumes "inv s" "spec_pres ops (abs s)"
  shows "spec_answers ops (abs s) (fst (run_ops N ops s)) \<and> inv (snd (run_ops N ops s)) \<and>
    abs (snd (run_ops N ops s)) = fold (\<lambda>(now, op). spec_step now op) ops (abs s)"
  using assms
proof (induction ops arbitrary: s)
  case (Cons x ops)
  obtain now op where x: "x = (now, op)" by fastforce
  with Cons.prems have "spec_pre now op (abs s)" by simp
  with Cons.prems(1) obtain r s' where "run_op N now op s = (Inr r, s')" "inv s'"
    "abs s' = spec_step now op (abs s)" "spec_answer now op (abs s) r" by (rule op_refines)
  with Cons.prems(2) Cons.IH [of s'] x show ?case by (simp add: split_beta Let_def)
qed simp

end

text \<open>Two answers that agree up to the order of a listing.\<close>

definition same_answer :: "string + store_result \<Rightarrow> string + store_result \<Rightarrow> bool" where
  "same_answer a b \<longleftrightarrow>
     (case (a, b) of
        (Inr (RDLQ xs), Inr (RDLQ ys)) \<Rightarrow> distinct xs \<and> distinct ys \<and> set xs = set ys
      | (Inr (RCRL xs), Inr (RCRL ys)) \<Rightarrow> distinct xs \<and> distinct ys \<and> set xs = set ys
      | (Inr x, Inr y) \<Rightarrow> x = y
      | _ \<Rightarrow> False)"

lemma lists_rows_set: "lists_rows key xs m \<Longrightarrow> distinct xs \<and> set xs = ran m"
proof -
  assume a: "lists_rows key xs m"
  then have d: "distinct (map fst (map (\<lambda>e. (key e, e)) xs))" by (simp add: lists_rows_def comp_def)
  have "ran m = snd ` set (map (\<lambda>e. (key e, e)) xs)" using a ran_distinct [OF d] by (simp add: lists_rows_def)
  with a show ?thesis by (simp add: lists_rows_def distinct_map image_comp)
qed

lemma spec_answer_same: "spec_answer now op S a \<Longrightarrow> spec_answer now op S b \<Longrightarrow> same_answer (Inr a) (Inr b)"
  by (cases op) (auto simp: same_answer_def split: store_result.splits dest!: lists_rows_set)

lemma spec_answers_ok: "spec_answers ops S rs \<Longrightarrow> list_all is_ok rs"
  by (induction ops S rs rule: spec_answers.induct) (auto split: list.splits sum.splits)

lemma spec_answers_same:
  "spec_answers ops S xs \<Longrightarrow> spec_answers ops S ys \<Longrightarrow> list_all2 same_answer xs ys"
proof (induction ops arbitrary: S xs ys)
  case (Cons x ops)
  obtain now op where x: "x = (now, op)" by fastforce
  with Cons.prems obtain a xs' b ys' where
    "xs = Inr a # xs'" "spec_answer now op S a" "spec_answers ops (spec_step now op S) xs'"
    "ys = Inr b # ys'" "spec_answer now op S b" "spec_answers ops (spec_step now op S) ys'"
    by (auto split: list.splits sum.splits)
  then show ?case using Cons.IH spec_answer_same by simp
qed simp

end
