(* ===== verification/Store_Bbolt.thy ===== *)
theory Store_Bbolt
  imports Store "HOL-Library.List_Lexorder" "HOL-Library.Char_ord"
begin

text \<open>
  \<open>store/bbolt/store.go\<close>. The bbolt library is a parameter: reading and writing a bucket inside
  a transaction, the rows of a bucket in key order (what \<open>ForEach\<close> and a cursor visit), and the
  errors of beginning and committing. \<open>bolt_laws\<close> states its documented behaviour for a database
  that is \<open>ready\<close>: open, with transactions that commit. Buckets are created by \<open>Open\<close> and never
  deleted. Keys of the audit bucket are the big-endian sequence numbers, whose byte order is
  the order of the numbers (\<open>seqKey_less\<close>), so the cursor walks the log backwards. The store is
  shown to satisfy \<open>node_store\<close>.
\<close>

record 'b bolt_lib =
  bl_open :: "string \<Rightarrow> string + 'b"
  bl_create :: "string \<Rightarrow> 'b \<Rightarrow> string + 'b"
  bl_bucket :: "'b \<Rightarrow> string \<Rightarrow> bool"
  bl_get :: "'b \<Rightarrow> string \<Rightarrow> string \<rightharpoonup> string"
  bl_put :: "string \<Rightarrow> string \<Rightarrow> string \<Rightarrow> 'b \<Rightarrow> string + 'b"
  bl_delete :: "string \<Rightarrow> string \<Rightarrow> 'b \<Rightarrow> string + 'b"
  bl_rows :: "'b \<Rightarrow> string \<Rightarrow> (string \<times> string) list"
  bl_begin :: "'b \<Rightarrow> string option"
  bl_commit :: "'b \<Rightarrow> string option"

definition bucketDedup :: string where "bucketDedup = ''dedup''"
definition bucketDLQ :: string where "bucketDLQ = ''dlq''"
definition bucketAudit :: string where "bucketAudit = ''audit''"
definition bucketCRL :: string where "bucketCRL = ''crl''"

lemmas bucket_defs = bucketDedup_def bucketDLQ_def bucketAudit_def bucketCRL_def

text \<open>\<open>db.Update\<close> and \<open>db.View\<close>: an error of the function or of the commit rolls back.\<close>

definition db_Update :: "'b bolt_lib \<Rightarrow> ('b \<Rightarrow> string + 'a \<times> 'b) \<Rightarrow> 'b \<Rightarrow> (string + 'a) \<times> 'b" where
  "db_Update B f db =
     (case bl_begin B db of
        Some e \<Rightarrow> (Inl e, db)
      | None \<Rightarrow>
          (case f db of
             Inl e \<Rightarrow> (Inl e, db)
           | Inr (x, db') \<Rightarrow> (case bl_commit B db' of Some e \<Rightarrow> (Inl e, db) | None \<Rightarrow> (Inr x, db'))))"

definition db_View :: "'b bolt_lib \<Rightarrow> ('b \<Rightarrow> string + 'a) \<Rightarrow> 'b \<Rightarrow> string + 'a" where
  "db_View B f db = (case bl_begin B db of Some e \<Rightarrow> Inl e | None \<Rightarrow> f db)"

definition do_write :: "('b \<Rightarrow> string + 'b) \<Rightarrow> 'b \<Rightarrow> string + unit \<times> 'b" where
  "do_write f db = (case f db of Inl e \<Rightarrow> Inl e | Inr db' \<Rightarrow> Inr ((), db'))"

subsection \<open>Opening\<close>

fun create_buckets :: "'b bolt_lib \<Rightarrow> string list \<Rightarrow> 'b \<Rightarrow> string + unit \<times> 'b" where
  "create_buckets B [] db = Inr ((), db)"
| "create_buckets B (b # bs) db =
     (case bl_create B b db of Inl e \<Rightarrow> Inl e | Inr db' \<Rightarrow> create_buckets B bs db')"

text \<open>\<open>filepath.Join\<close>: the elements that are not empty, joined and cleaned.\<close>

fun split_slash :: "string \<Rightarrow> string list" where
  "split_slash [] = [[]]"
| "split_slash (c # s) =
     (if c = CHR ''/'' then [] # split_slash s
      else (case split_slash s of x # xs \<Rightarrow> (c # x) # xs | [] \<Rightarrow> [[c]]))"

fun clean_elems :: "bool \<Rightarrow> string list \<Rightarrow> string list \<Rightarrow> string list" where
  "clean_elems rooted out [] = rev out"
| "clean_elems rooted out (x # xs) =
     (if x = [] \<or> x = ''.'' then clean_elems rooted out xs
      else if x = ''..'' then
        (case out of
           y # ys \<Rightarrow> if y = ''..'' then clean_elems rooted (x # out) xs else clean_elems rooted ys xs
         | [] \<Rightarrow> if rooted then clean_elems rooted [] xs else clean_elems rooted [x] xs)
      else clean_elems rooted (x # out) xs)"

fun join_slash :: "string list \<Rightarrow> string" where
  "join_slash [] = []"
| "join_slash [x] = x"
| "join_slash (x # y # xs) = x @ CHR ''/'' # join_slash (y # xs)"

definition clean_path :: "string \<Rightarrow> string" where
  "clean_path p =
     (let rooted = starts_with ''/'' p; r = join_slash (clean_elems rooted [] (split_slash p))
      in if rooted then CHR ''/'' # r else if r = [] then ''.'' else r)"

definition path_join :: "string \<Rightarrow> string \<Rightarrow> string" where
  "path_join dir f = clean_path (if dir = [] then f else dir @ CHR ''/'' # f)"

definition bbolt_Open :: "'b bolt_lib \<Rightarrow> string \<Rightarrow> string + 'b" where
  "bbolt_Open B dir =
     (let path = path_join dir ''mrmi.db'' in
      case bl_open B path of
        Inl e \<Rightarrow> Inl (''bbolt open '' @ path @ '': '' @ e)
      | Inr db \<Rightarrow>
          (case db_Update B (create_buckets B [bucketDedup, bucketDLQ, bucketAudit, bucketCRL]) db of
             (Inl e, _) \<Rightarrow> Inl (''bbolt init buckets: '' @ e)
           | (Inr _, db') \<Rightarrow> Inr db'))"

subsection \<open>Big-endian keys\<close>

fun be_bytes :: "nat \<Rightarrow> nat \<Rightarrow> string" where
  "be_bytes 0 x = []"
| "be_bytes (Suc k) x = char_of (x div 256 ^ k) # be_bytes k (x mod 256 ^ k)"

definition be_val :: "string \<Rightarrow> nat" where
  "be_val s = foldl (\<lambda>n c. n * 256 + of_char c) 0 s"

definition seqKey :: "64 word \<Rightarrow> string" where
  "seqKey seq = be_bytes 8 (unat seq)"

text \<open>\<open>int64(binary.BigEndian.Uint64(raw))\<close> and its inverse.\<close>

definition dedup_exp :: "string \<Rightarrow> int" where
  "dedup_exp raw = int64_wrap (int (be_val raw))"

definition dedup_raw :: "int \<Rightarrow> string" where
  "dedup_raw t = be_bytes 8 (nat (t mod 2 ^ 64))"

subsection \<open>Operations\<close>

definition bbolt_Deduped :: "'b bolt_lib \<Rightarrow> int \<Rightarrow> string \<Rightarrow> int \<Rightarrow> 'b \<Rightarrow> (string + bool) \<times> 'b" where
  "bbolt_Deduped B now key ttl =
     db_Update B (\<lambda>db.
       let put = (case bl_put B bucketDedup key (dedup_raw (int64_wrap (now + ttl))) db of
                    Inl e \<Rightarrow> Inl e
                  | Inr db' \<Rightarrow> Inr (False, db')) in
       case bl_get B db bucketDedup key of
         Some raw \<Rightarrow> if now < dedup_exp raw then Inr (True, db) else put
       | None \<Rightarrow> put)"

definition bbolt_DLQPush :: "'b bolt_lib \<Rightarrow> store_DLQEntry \<Rightarrow> 'b \<Rightarrow> (string + unit) \<times> 'b" where
  "bbolt_DLQPush B entry = db_Update B (do_write (bl_put B bucketDLQ (sd_ID entry) (marshal_dlq entry)))"

text \<open>\<open>ForEach\<close> with a decoder, stopped by the first row that does not decode.\<close>

fun decode_rows :: "(string \<Rightarrow> 'e option) \<Rightarrow> string list \<Rightarrow> string + 'e list" where
  "decode_rows dec [] = Inr []"
| "decode_rows dec (v # vs) =
     (case dec v of
        None \<Rightarrow> Inl ''invalid row''
      | Some e \<Rightarrow> (case decode_rows dec vs of Inl x \<Rightarrow> Inl x | Inr es \<Rightarrow> Inr (e # es)))"

definition bbolt_DLQList :: "'b bolt_lib \<Rightarrow> 'b \<Rightarrow> string + store_DLQEntry list" where
  "bbolt_DLQList B = db_View B (\<lambda>db. decode_rows unmarshal_dlq (map snd (bl_rows B db bucketDLQ)))"

definition bbolt_DLQDelete :: "'b bolt_lib \<Rightarrow> string \<Rightarrow> 'b \<Rightarrow> (string + unit) \<times> 'b" where
  "bbolt_DLQDelete B i = db_Update B (do_write (bl_delete B bucketDLQ i))"

definition bbolt_AuditAppend :: "'b bolt_lib \<Rightarrow> store_AuditEntry \<Rightarrow> 'b \<Rightarrow> (string + unit) \<times> 'b" where
  "bbolt_AuditAppend B entry = db_Update B (do_write (bl_put B bucketAudit (seqKey (sa_Seq entry)) (marshal_audit entry)))"

text \<open>The cursor from \<open>Last\<close> through \<open>Prev\<close>, while fewer than \<open>n\<close> rows are collected.\<close>

fun cursor_back :: "int \<Rightarrow> string list \<Rightarrow> store_AuditEntry list \<Rightarrow> string + store_AuditEntry list" where
  "cursor_back n [] out = Inr out"
| "cursor_back n (v # vs) out =
     (if int (length out) < n then
        (case unmarshal_audit v of None \<Rightarrow> Inl ''invalid row'' | Some e \<Rightarrow> cursor_back n vs (out @ [e]))
      else Inr out)"

definition bbolt_AuditLatest :: "'b bolt_lib \<Rightarrow> int \<Rightarrow> 'b \<Rightarrow> string + store_AuditEntry list" where
  "bbolt_AuditLatest B n = db_View B (\<lambda>db. cursor_back n (rev (map snd (bl_rows B db bucketAudit))) [])"

definition bbolt_CRLPut :: "'b bolt_lib \<Rightarrow> store_CRLEntry \<Rightarrow> 'b \<Rightarrow> (string + unit) \<times> 'b" where
  "bbolt_CRLPut B entry = db_Update B (do_write (bl_put B bucketCRL (sc_NodeID entry) (marshal_crl entry)))"

definition bbolt_CRLGet :: "'b bolt_lib \<Rightarrow> string \<Rightarrow> 'b \<Rightarrow> string + store_CRLEntry option" where
  "bbolt_CRLGet B nodeID =
     db_View B (\<lambda>db.
       case bl_get B db bucketCRL nodeID of
         None \<Rightarrow> Inr None
       | Some v \<Rightarrow> (case unmarshal_crl v of None \<Rightarrow> Inl ''invalid row'' | Some e \<Rightarrow> Inr (Some e)))"

definition bbolt_CRLList :: "'b bolt_lib \<Rightarrow> 'b \<Rightarrow> string + store_CRLEntry list" where
  "bbolt_CRLList B = db_View B (\<lambda>db. decode_rows unmarshal_crl (map snd (bl_rows B db bucketCRL)))"

definition bbolt_store :: "'b bolt_lib \<Rightarrow> 'b NodeStore" where
  "bbolt_store B =
     \<lparr>ns_Deduped = bbolt_Deduped B, ns_DLQPush = bbolt_DLQPush B, ns_DLQList = bbolt_DLQList B,
      ns_DLQDelete = bbolt_DLQDelete B, ns_AuditAppend = bbolt_AuditAppend B,
      ns_AuditLatest = bbolt_AuditLatest B, ns_CRLPut = bbolt_CRLPut B, ns_CRLGet = bbolt_CRLGet B,
      ns_CRLList = bbolt_CRLList B\<rparr>"

subsection \<open>Byte order\<close>

lemma be_bytes_length [simp]: "length (be_bytes k x) = k"
  by (induction k arbitrary: x) simp_all

lemma be_val_bytes: "x < 256 ^ k \<Longrightarrow> be_val (be_bytes k x) = x"
proof -
  have "foldl (\<lambda>n c. n * 256 + of_char c) a (be_bytes k x) = a * 256 ^ k + x" if "x < 256 ^ k" for a
    using that
  proof (induction k arbitrary: a x)
    case (Suc k)
    have "x div 256 ^ k < 256" using Suc.prems by (simp add: less_mult_imp_div_less)
    with Suc.IH [of "x mod 256 ^ k"] show ?case
      by (simp add: algebra_simps)
  qed simp
  then show "x < 256 ^ k \<Longrightarrow> ?thesis" by (simp add: be_val_def)
qed

lemma div_mod_less: "x < y \<longleftrightarrow> x div p < y div p \<or> x div p = y div p \<and> x mod p < y mod p" for x y p :: nat
proof (cases "x div p" "y div p" rule: linorder_cases)
  case less
  then show ?thesis using div_le_mono [of y x p] by linarith
next
  case equal
  have "x = x div p * p + x mod p" "y = y div p * p + y mod p" by simp_all
  with equal show ?thesis by (metis add_less_cancel_left less_irrefl)
next
  case greater
  then show ?thesis using div_le_mono [of x y p] by linarith
qed

lemma be_bytes_less:
  "x < 256 ^ k \<Longrightarrow> y < 256 ^ k \<Longrightarrow> be_bytes k x < be_bytes k y \<longleftrightarrow> x < y"
proof (induction k arbitrary: x y)
  case (Suc k)
  let ?p = "256 ^ k :: nat"
  have b: "x div ?p < 256" "y div ?p < 256" using Suc.prems by (simp_all add: less_mult_imp_div_less)
  have c: "(char_of (x div ?p) :: char) < char_of (y div ?p) \<longleftrightarrow> x div ?p < y div ?p"
    using b by (simp add: less_char_def)
  have e: "(char_of (x div ?p) :: char) = char_of (y div ?p) \<longleftrightarrow> x div ?p = y div ?p"
    using b by (metis of_char_of mod_less)
  have "x < y \<longleftrightarrow> x div ?p < y div ?p \<or> x div ?p = y div ?p \<and> x mod ?p < y mod ?p"
    by (rule div_mod_less)
  then show ?case using c e Suc.IH [of "x mod ?p" "y mod ?p"] by simp
qed simp

lemma seqKey_less: "seqKey a < seqKey b \<longleftrightarrow> a < b"
proof -
  have "unat w < 256 ^ 8" for w :: "64 word"
    by (rule order_less_le_trans [OF unsigned_less]) simp
  then show ?thesis by (simp add: seqKey_def be_bytes_less word_less_nat_alt)
qed

lemma dedup_exp_raw: "0 \<le> t \<Longrightarrow> t < 2 ^ 63 \<Longrightarrow> dedup_exp (dedup_raw t) = t"
  by (simp add: dedup_exp_def dedup_raw_def be_val_bytes int64_wrap_id)

subsection \<open>The library\<close>

text \<open>A bucket name may not be blank or longer than a key.\<close>

definition bucket_name :: "string \<Rightarrow> bool" where
  "bucket_name b \<longleftrightarrow> b \<noteq> [] \<and> length b \<le> 32768"

lemma bucket_names [simp]: "bucket_name bucketDedup" "bucket_name bucketDLQ" "bucket_name bucketAudit" "bucket_name bucketCRL"
  by (simp_all add: bucket_name_def bucket_defs)

definition bolt_laws :: "'b bolt_lib \<Rightarrow> ('b \<Rightarrow> bool) \<Rightarrow> bool" where
  "bolt_laws B ready \<longleftrightarrow>
     (\<forall>db. ready db \<longrightarrow> bl_begin B db = None \<and> bl_commit B db = None) \<and>
     (\<forall>db b. ready db \<and> bucket_name b \<longrightarrow>
        (\<exists>db'. bl_create B b db = Inr db' \<and> ready db' \<and> bl_bucket B db' = (bl_bucket B db)(b := True) \<and>
          bl_get B db' = bl_get B db)) \<and>
     (\<forall>db b k v. ready db \<and> bl_bucket B db b \<and> key_ok k \<and> value_ok v \<longrightarrow>
        (\<exists>db'. bl_put B b k v db = Inr db' \<and> ready db' \<and> bl_bucket B db' = bl_bucket B db \<and>
          bl_get B db' = (bl_get B db)(b := (bl_get B db b)(k \<mapsto> v)))) \<and>
     (\<forall>db b k. ready db \<and> bl_bucket B db b \<longrightarrow>
        (\<exists>db'. bl_delete B b k db = Inr db' \<and> ready db' \<and> bl_bucket B db' = bl_bucket B db \<and>
          bl_get B db' = (bl_get B db)(b := (bl_get B db b)(k := None)))) \<and>
     (\<forall>db b. ready db \<and> bl_bucket B db b \<longrightarrow>
        sorted_wrt (<) (map fst (bl_rows B db b)) \<and> map_of (bl_rows B db b) = bl_get B db b)"

lemma bolt_begin: "bolt_laws B ready \<Longrightarrow> ready db \<Longrightarrow> bl_begin B db = None \<and> bl_commit B db = None"
  by (simp add: bolt_laws_def)

lemma bolt_put:
  assumes "bolt_laws B ready" "ready db" "bl_bucket B db b" "key_ok k" "value_ok v"
  obtains db' where "bl_put B b k v db = Inr db'" "ready db'" "bl_bucket B db' = bl_bucket B db"
    "bl_get B db' = (bl_get B db)(b := (bl_get B db b)(k \<mapsto> v))"
  using assms unfolding bolt_laws_def by blast

lemma bolt_delete:
  assumes "bolt_laws B ready" "ready db" "bl_bucket B db b"
  obtains db' where "bl_delete B b k db = Inr db'" "ready db'" "bl_bucket B db' = bl_bucket B db"
    "bl_get B db' = (bl_get B db)(b := (bl_get B db b)(k := None))"
  using assms unfolding bolt_laws_def by blast

lemma bolt_rows:
  assumes "bolt_laws B ready" "ready db" "bl_bucket B db b"
  shows "sorted_wrt (<) (map fst (bl_rows B db b))" "map_of (bl_rows B db b) = bl_get B db b"
  using assms unfolding bolt_laws_def by blast+

lemma sorted_rows_unique:
  fixes xs ys :: "('k :: linorder \<times> 'v) list"
  assumes "sorted_wrt (<) (map fst xs)" "sorted_wrt (<) (map fst ys)" "map_of xs = map_of ys"
  shows "xs = ys"
proof -
  have d: "distinct (map fst xs)" "distinct (map fst ys)"
    using assms(1,2) by (simp_all add: strict_sorted_iff)
  have "set xs = set ys"
    using map_of_inject_set [OF d] assms(3) by simp
  then have "map fst xs = map fst ys"
    using assms(1,2) by (intro strict_sorted_equal) auto
  moreover have "map (\<lambda>k. (k, the (map_of zs k))) (map fst zs) = zs" if "distinct (map fst zs)" for zs :: "('k \<times> 'v) list"
    using that by (auto simp: map_of_is_SomeI intro: map_idI)
  ultimately show ?thesis using d assms(3) by metis
qed

text \<open>A key above all others is the last row.\<close>

lemma bolt_rows_append:
  assumes "bolt_laws B ready" "ready db" "ready db'" "bl_bucket B db b" "bl_bucket B db' b"
    and "bl_get B db' b = (bl_get B db b)(k \<mapsto> v)" "\<forall>(l, _) \<in> set (bl_rows B db b). l < k"
  shows "bl_rows B db' b = bl_rows B db b @ [(k, v)]"
proof (rule sorted_rows_unique)
  show "sorted_wrt (<) (map fst (bl_rows B db' b))" by (rule bolt_rows(1) [OF assms(1,3,5)])
  show "sorted_wrt (<) (map fst (bl_rows B db b @ [(k, v)]))"
    using bolt_rows(1) [OF assms(1,2,4)] assms(7) by (auto simp: sorted_wrt_append)
  have "k \<notin> fst ` set (bl_rows B db b)" using assms(7) by auto
  then have "map_of (bl_rows B db b) k = None" by (simp add: map_of_eq_None_iff)
  then show "map_of (bl_rows B db' b) = map_of (bl_rows B db b @ [(k, v)])"
    using bolt_rows(2) [OF assms(1,3,5)] bolt_rows(2) [OF assms(1,2,4)] assms(6)
    by (auto simp: map_add_def fun_eq_iff split: option.split)
qed

subsection \<open>The contract of the store\<close>

definition bbolt_abs :: "'b bolt_lib \<Rightarrow> 'b \<Rightarrow> store_spec" where
  "bbolt_abs B db =
     \<lparr>sp_dedup = (\<lambda>k. map_option dedup_exp (bl_get B db bucketDedup k)),
      sp_dlq = (\<lambda>k. Option.bind (bl_get B db bucketDLQ k) unmarshal_dlq),
      sp_audit = List.map_filter (\<lambda>(_, v). unmarshal_audit v) (bl_rows B db bucketAudit),
      sp_crl = (\<lambda>k. Option.bind (bl_get B db bucketCRL k) unmarshal_crl)\<rparr>"

text \<open>Every row of a bucket was written by the store under the key of its entry.\<close>

definition bucket_ok :: "(string \<rightharpoonup> string) \<Rightarrow> ('e \<Rightarrow> string) \<Rightarrow> ('e \<Rightarrow> bool) \<Rightarrow> ('e \<Rightarrow> string) \<Rightarrow> bool" where
  "bucket_ok m key ok enc \<longleftrightarrow> (\<forall>k v. m k = Some v \<longrightarrow> (\<exists>e. ok e \<and> key e = k \<and> v = enc e))"

definition bbolt_inv :: "'b bolt_lib \<Rightarrow> ('b \<Rightarrow> bool) \<Rightarrow> 'b \<Rightarrow> bool" where
  "bbolt_inv B ready db \<longleftrightarrow>
     bolt_laws B ready \<and> ready db \<and>
     (\<forall>b \<in> {bucketDedup, bucketDLQ, bucketAudit, bucketCRL}. bl_bucket B db b) \<and>
     bucket_ok (bl_get B db bucketDLQ) sd_ID dlq_row_ok marshal_dlq \<and>
     bucket_ok (bl_get B db bucketAudit) (\<lambda>e. seqKey (sa_Seq e)) audit_row_ok marshal_audit \<and>
     bucket_ok (bl_get B db bucketCRL) sc_NodeID crl_row_ok marshal_crl"

lemma bbolt_invD:
  assumes "bbolt_inv B ready db"
  shows "bolt_laws B ready" "ready db" "bl_bucket B db bucketDedup" "bl_bucket B db bucketDLQ"
    "bl_bucket B db bucketAudit" "bl_bucket B db bucketCRL"
  using assms by (auto simp: bbolt_inv_def)

lemma bucket_ok_put: "bucket_ok m key ok enc \<Longrightarrow> ok e \<Longrightarrow> bucket_ok (m(key e \<mapsto> enc e)) key ok enc"
  by (auto simp: bucket_ok_def)

lemma bucket_ok_del: "bucket_ok m key ok enc \<Longrightarrow> bucket_ok (m(k := None)) key ok enc"
  by (auto simp: bucket_ok_def)

lemma rows_decode:
  assumes "bucket_ok (map_of xs) key ok enc" "distinct (map fst xs)" "\<And>e. ok e \<Longrightarrow> dec (enc e) = Some e"
  obtains es where "xs = map (\<lambda>e. (key e, enc e)) es" "list_all ok es"
    "decode_rows dec (map snd xs) = Inr es" "List.map_filter (\<lambda>(_, v). dec v) xs = es"
    "lists_rows key es (\<lambda>k. Option.bind (map_of xs k) dec)"
proof -
  have "\<exists>e. ok e \<and> p = (key e, enc e)" if "p \<in> set xs" for p
    using assms(1) map_of_is_SomeI [OF assms(2), of "fst p" "snd p"] that
    unfolding bucket_ok_def by (metis prod.collapse)
  then have "\<exists>es. xs = map (\<lambda>e. (key e, enc e)) es \<and> list_all ok es"
  proof (induction xs)
    case (Cons x xs)
    obtain e where e: "ok e" "x = (key e, enc e)" using Cons.prems [of x] by auto
    from Cons obtain es where "xs = map (\<lambda>e. (key e, enc e)) es" "list_all ok es" by auto
    with e show ?case by (intro exI [of _ "e # es"]) simp
  qed simp
  then obtain es where es: "xs = map (\<lambda>e. (key e, enc e)) es" "list_all ok es" by blast
  have "decode_rows dec (map snd xs) = Inr es" "List.map_filter (\<lambda>(_, v). dec v) xs = es"
    using es by (induction es arbitrary: xs) (auto simp: assms(3) List.map_filter_def)
  moreover have "lists_rows key es (\<lambda>k. Option.bind (map_of xs k) dec)"
  proof -
    have "map_of (map (\<lambda>e. (key e, e)) es) k = Option.bind (map_of xs k) dec" for k
      using es by (induction es arbitrary: xs) (auto simp: assms(3))
    then show ?thesis using assms(2) es by (auto simp: lists_rows_def comp_def)
  qed
  ultimately show ?thesis using es that by blast
qed

lemma bolt_rows_distinct: "bolt_laws B ready \<Longrightarrow> ready db \<Longrightarrow> bl_bucket B db b \<Longrightarrow> distinct (map fst (bl_rows B db b))"
  using bolt_rows(1) [of B ready db b] by (simp only: strict_sorted_iff)

lemma bolt_rows_same:
  assumes "bolt_laws B ready" "ready db" "ready db'" "bl_bucket B db b" "bl_bucket B db' b" "bl_get B db' b = bl_get B db b"
  shows "bl_rows B db' b = bl_rows B db b"
  using assms bolt_rows [OF assms(1,2,4)] bolt_rows [OF assms(1,3,5)] by (intro sorted_rows_unique) auto

lemma db_View_ready: "bolt_laws B ready \<Longrightarrow> ready db \<Longrightarrow> db_View B f db = f db"
  by (simp add: db_View_def bolt_begin)

lemma db_Update_write:
  assumes "bbolt_inv B ready db" "ready db'" "f db = Inr db'"
  shows "db_Update B (do_write f) db = (Inr (), db')"
  using assms bolt_begin [OF bbolt_invD(1) [OF assms(1)]] bbolt_invD(2) [OF assms(1)]
  by (simp add: db_Update_def do_write_def)

lemmas db_put = db_Update_write [where f = "bl_put B b k v" for B b k v]
lemmas db_delete = db_Update_write [where f = "bl_delete B b k" for B b k]

text \<open>The log is what the rows of its bucket hold.\<close>

lemma bbolt_audit_rows:
  assumes "bbolt_inv B ready db"
  shows "bl_rows B db bucketAudit = map (\<lambda>e. (seqKey (sa_Seq e), marshal_audit e)) (sp_audit (bbolt_abs B db))"
    "list_all audit_row_ok (sp_audit (bbolt_abs B db))"
proof -
  note i = bbolt_invD [OF assms]
  have "bucket_ok (map_of (bl_rows B db bucketAudit)) (\<lambda>e. seqKey (sa_Seq e)) audit_row_ok marshal_audit"
    using assms bolt_rows(2) [OF i(1,2,5)] by (simp add: bbolt_inv_def)
  from this bolt_rows_distinct [OF i(1,2,5)] audit_round_trip
  obtain es where "bl_rows B db bucketAudit = map (\<lambda>e. (seqKey (sa_Seq e), marshal_audit e)) es" "list_all audit_row_ok es"
    "List.map_filter (\<lambda>(_, v). unmarshal_audit v) (bl_rows B db bucketAudit) = es" by (rule rows_decode)
  then show "bl_rows B db bucketAudit = map (\<lambda>e. (seqKey (sa_Seq e), marshal_audit e)) (sp_audit (bbolt_abs B db))"
    "list_all audit_row_ok (sp_audit (bbolt_abs B db))" by (simp_all add: bbolt_abs_def)
qed

lemma cursor_back_rows:
  "list_all audit_row_ok es \<Longrightarrow>
     cursor_back n (map marshal_audit es) out = Inr (out @ take (nat n - length out) es)"
proof (induction es arbitrary: out)
  case (Cons e es)
  then show ?case
    by (cases "int (length out) < n")
      (auto simp: audit_round_trip take_Cons' Suc_diff_Suc nat_less_iff zless_nat_eq_int_zless)
qed simp

text \<open>A write to a bucket other than the one of the log leaves the log alone.\<close>

lemma bbolt_other_bucket:
  assumes "bbolt_inv B ready db" "ready db'" "bl_bucket B db' = bl_bucket B db"
    and "bl_get B db' = (bl_get B db)(b := m)" "b \<noteq> bucketAudit"
  shows "bl_rows B db' bucketAudit = bl_rows B db bucketAudit"
  using assms bbolt_invD [OF assms(1)] by (intro bolt_rows_same [where ready = ready]) auto

lemma bbolt_step:
  assumes i: "bbolt_inv B ready db" and r: "ready db'" and b: "bl_bucket B db' = bl_bucket B db"
    and g: "bl_get B db' = (bl_get B db)(bk := m)"
  shows "bk = bucketDedup \<Longrightarrow> bbolt_inv B ready db' \<and>
      bbolt_abs B db' = (bbolt_abs B db)\<lparr>sp_dedup := \<lambda>k. map_option dedup_exp (m k)\<rparr>"
    and "bk = bucketDLQ \<Longrightarrow> bucket_ok m sd_ID dlq_row_ok marshal_dlq \<Longrightarrow> bbolt_inv B ready db' \<and>
      bbolt_abs B db' = (bbolt_abs B db)\<lparr>sp_dlq := \<lambda>k. Option.bind (m k) unmarshal_dlq\<rparr>"
    and "bk = bucketCRL \<Longrightarrow> bucket_ok m sc_NodeID crl_row_ok marshal_crl \<Longrightarrow> bbolt_inv B ready db' \<and>
      bbolt_abs B db' = (bbolt_abs B db)\<lparr>sp_crl := \<lambda>k. Option.bind (m k) unmarshal_crl\<rparr>"
  using i r b g bbolt_other_bucket [OF i r b g] by (auto simp: bbolt_inv_def bbolt_abs_def bucket_defs)

lemma bbolt_Deduped_law:
  assumes i: "bbolt_inv B ready db" and pre: "spec_pre now (OpDeduped k ttl) (bbolt_abs B db)"
  shows "\<exists>db'. bbolt_Deduped B now k ttl db = (Inr (spec_seen now k (bbolt_abs B db)), db') \<and> bbolt_inv B ready db' \<and>
    bbolt_abs B db' = spec_step now (OpDeduped k ttl) (bbolt_abs B db)"
proof (cases "spec_seen now k (bbolt_abs B db)")
  case True
  then obtain raw where "bl_get B db bucketDedup k = Some raw" "now < dedup_exp raw"
    by (auto simp: spec_seen_def bbolt_abs_def split: option.splits)
  with True i bolt_begin [OF bbolt_invD(1,2) [OF i]] show ?thesis by (simp add: bbolt_Deduped_def db_Update_def)
next
  case False
  let ?raw = "dedup_raw (int64_wrap (now + ttl))"
  have t: "0 \<le> now + ttl" "now + ttl < 2 ^ 63" "key_ok k" using pre by simp_all
  then have raw: "dedup_exp ?raw = now + ttl" by (simp add: int64_wrap_id dedup_exp_raw)
  have "value_ok ?raw" by (simp add: dedup_raw_def value_ok_def)
  from bolt_put [OF bbolt_invD(1,2,3) [OF i] t(3) this]
  obtain db' where db': "bl_put B bucketDedup k ?raw db = Inr db'" "ready db'" "bl_bucket B db' = bl_bucket B db"
    "bl_get B db' = (bl_get B db)(bucketDedup := (bl_get B db bucketDedup)(k \<mapsto> ?raw))" by blast
  have "\<forall>raw. bl_get B db bucketDedup k = Some raw \<longrightarrow> \<not> now < dedup_exp raw"
    using False by (auto simp: spec_seen_def bbolt_abs_def)
  then have "bbolt_Deduped B now k ttl db = (Inr False, db')"
    using db'(1,2) bolt_begin [OF bbolt_invD(1) [OF i]] bbolt_invD(2) [OF i]
    by (auto simp: bbolt_Deduped_def db_Update_def Let_def split: option.split)
  moreover note bbolt_step(1) [OF i db'(2-4) refl]
  ultimately show ?thesis using False raw by (auto simp: bbolt_abs_def fun_eq_iff)
qed

lemma bbolt_DLQPush_law:
  assumes i: "bbolt_inv B ready db" and pre: "spec_pre now (OpDLQPush e) (bbolt_abs B db)"
  shows "\<exists>db'. bbolt_DLQPush B e db = (Inr (), db') \<and> bbolt_inv B ready db' \<and>
    bbolt_abs B db' = spec_step now (OpDLQPush e) (bbolt_abs B db)"
proof -
  have e: "dlq_row_ok e" "key_ok (sd_ID e)" "value_ok (marshal_dlq e)" using pre by simp_all
  from bolt_put [OF bbolt_invD(1,2,4) [OF i] e(2,3)]
  obtain db' where db': "bl_put B bucketDLQ (sd_ID e) (marshal_dlq e) db = Inr db'" "ready db'"
    "bl_bucket B db' = bl_bucket B db"
    "bl_get B db' = (bl_get B db)(bucketDLQ := (bl_get B db bucketDLQ)(sd_ID e \<mapsto> marshal_dlq e))" by blast
  have "bucket_ok ((bl_get B db bucketDLQ)(sd_ID e \<mapsto> marshal_dlq e)) sd_ID dlq_row_ok marshal_dlq"
    using i e(1) by (intro bucket_ok_put) (simp_all add: bbolt_inv_def)
  from bbolt_step(2) [OF i db'(2-4) refl this] db_put [OF i db'(2,1)]
  show ?thesis using e(1) by (auto simp: bbolt_DLQPush_def bbolt_abs_def dlq_round_trip fun_eq_iff)
qed

lemma bbolt_CRLPut_law:
  assumes i: "bbolt_inv B ready db" and pre: "spec_pre now (OpCRLPut e) (bbolt_abs B db)"
  shows "\<exists>db'. bbolt_CRLPut B e db = (Inr (), db') \<and> bbolt_inv B ready db' \<and>
    bbolt_abs B db' = spec_step now (OpCRLPut e) (bbolt_abs B db)"
proof -
  have e: "crl_row_ok e" "key_ok (sc_NodeID e)" "value_ok (marshal_crl e)" using pre by simp_all
  from bolt_put [OF bbolt_invD(1,2,6) [OF i] e(2,3)]
  obtain db' where db': "bl_put B bucketCRL (sc_NodeID e) (marshal_crl e) db = Inr db'" "ready db'"
    "bl_bucket B db' = bl_bucket B db"
    "bl_get B db' = (bl_get B db)(bucketCRL := (bl_get B db bucketCRL)(sc_NodeID e \<mapsto> marshal_crl e))" by blast
  have "bucket_ok ((bl_get B db bucketCRL)(sc_NodeID e \<mapsto> marshal_crl e)) sc_NodeID crl_row_ok marshal_crl"
    using i e(1) by (intro bucket_ok_put) (simp_all add: bbolt_inv_def)
  from bbolt_step(3) [OF i db'(2-4) refl this] db_put [OF i db'(2,1)]
  show ?thesis using e(1) by (auto simp: bbolt_CRLPut_def bbolt_abs_def crl_round_trip fun_eq_iff)
qed

lemma bbolt_DLQDelete_law:
  assumes i: "bbolt_inv B ready db"
  shows "\<exists>db'. bbolt_DLQDelete B k db = (Inr (), db') \<and> bbolt_inv B ready db' \<and>
    bbolt_abs B db' = spec_step now (OpDLQDelete k) (bbolt_abs B db)"
proof -
  obtain db' where db': "bl_delete B bucketDLQ k db = Inr db'" "ready db'" "bl_bucket B db' = bl_bucket B db"
    "bl_get B db' = (bl_get B db)(bucketDLQ := (bl_get B db bucketDLQ)(k := None))"
    by (rule bolt_delete [OF bbolt_invD(1,2,4) [OF i]])
  have "bucket_ok ((bl_get B db bucketDLQ)(k := None)) sd_ID dlq_row_ok marshal_dlq"
    using i by (intro bucket_ok_del) (simp add: bbolt_inv_def)
  from bbolt_step(2) [OF i db'(2-4) refl this] db_delete [OF i db'(2,1)]
  show ?thesis by (auto simp: bbolt_DLQDelete_def bbolt_abs_def fun_eq_iff)
qed

lemma bbolt_AuditAppend_law:
  assumes i: "bbolt_inv B ready db" and pre: "spec_pre now (OpAuditAppend e) (bbolt_abs B db)"
  shows "\<exists>db'. bbolt_AuditAppend B e db = (Inr (), db') \<and> bbolt_inv B ready db' \<and>
    bbolt_abs B db' = spec_step now (OpAuditAppend e) (bbolt_abs B db)"
proof -
  let ?k = "seqKey (sa_Seq e)" and ?v = "marshal_audit e"
  have e: "audit_row_ok e" "value_ok ?v" "\<forall>x \<in> set (sp_audit (bbolt_abs B db)). sa_Seq x < sa_Seq e"
    using pre by (simp_all add: list_all_iff)
  have "length ?k = 8" by (simp add: seqKey_def)
  then have "key_ok ?k" by (auto simp: key_ok_def)
  from bolt_put [OF bbolt_invD(1,2,5) [OF i] this e(2)]
  obtain db' where db': "bl_put B bucketAudit ?k ?v db = Inr db'" "ready db'" "bl_bucket B db' = bl_bucket B db"
    "bl_get B db' = (bl_get B db)(bucketAudit := (bl_get B db bucketAudit)(?k \<mapsto> ?v))" by blast
  have "\<forall>(l, _) \<in> set (bl_rows B db bucketAudit). l < ?k"
    using e(3) by (auto simp: bbolt_audit_rows(1) [OF i] seqKey_less)
  then have rows: "bl_rows B db' bucketAudit = bl_rows B db bucketAudit @ [(?k, ?v)]"
    using db' bbolt_invD [OF i] by (intro bolt_rows_append [where ready = ready]) auto
  have "bucket_ok ((bl_get B db bucketAudit)(?k \<mapsto> ?v)) (\<lambda>e. seqKey (sa_Seq e)) audit_row_ok marshal_audit"
    using i e(1) bucket_ok_put [where key = "\<lambda>e. seqKey (sa_Seq e)" and e = e] by (auto simp: bbolt_inv_def)
  then have "bbolt_inv B ready db'" using i db' by (auto simp: bbolt_inv_def bucket_defs)
  moreover have "bbolt_abs B db' = spec_step now (OpAuditAppend e) (bbolt_abs B db)"
    using db'(4) rows e(1) by (auto simp: bbolt_abs_def bucket_defs audit_round_trip List.map_filter_def)
  ultimately show ?thesis
    using db_put [OF i db'(2,1)] by (auto simp: bbolt_AuditAppend_def)
qed

lemma bbolt_list_law:
  assumes i: "bbolt_inv B ready db"
  shows "\<exists>xs. bbolt_DLQList B db = Inr xs \<and> lists_rows sd_ID xs (sp_dlq (bbolt_abs B db))"
    and "\<exists>ys. bbolt_CRLList B db = Inr ys \<and> lists_rows sc_NodeID ys (sp_crl (bbolt_abs B db))"
proof -
  note d = bbolt_invD [OF i]
  have "bucket_ok (map_of (bl_rows B db bucketDLQ)) sd_ID dlq_row_ok marshal_dlq"
    using i bolt_rows(2) [OF d(1,2,4)] by (simp add: bbolt_inv_def)
  from this bolt_rows_distinct [OF d(1,2,4)] dlq_round_trip
  obtain xs where "decode_rows unmarshal_dlq (map snd (bl_rows B db bucketDLQ)) = Inr xs"
    "lists_rows sd_ID xs (\<lambda>k. Option.bind (map_of (bl_rows B db bucketDLQ) k) unmarshal_dlq)" by (rule rows_decode)
  then show "\<exists>xs. bbolt_DLQList B db = Inr xs \<and> lists_rows sd_ID xs (sp_dlq (bbolt_abs B db))"
    by (simp add: bbolt_DLQList_def db_View_ready [OF d(1,2)] bbolt_abs_def bolt_rows(2) [OF d(1,2,4)])
  have "bucket_ok (map_of (bl_rows B db bucketCRL)) sc_NodeID crl_row_ok marshal_crl"
    using i bolt_rows(2) [OF d(1,2,6)] by (simp add: bbolt_inv_def)
  from this bolt_rows_distinct [OF d(1,2,6)] crl_round_trip
  obtain ys where "decode_rows unmarshal_crl (map snd (bl_rows B db bucketCRL)) = Inr ys"
    "lists_rows sc_NodeID ys (\<lambda>k. Option.bind (map_of (bl_rows B db bucketCRL) k) unmarshal_crl)" by (rule rows_decode)
  then show "\<exists>ys. bbolt_CRLList B db = Inr ys \<and> lists_rows sc_NodeID ys (sp_crl (bbolt_abs B db))"
    by (simp add: bbolt_CRLList_def db_View_ready [OF d(1,2)] bbolt_abs_def bolt_rows(2) [OF d(1,2,6)])
qed

lemma bbolt_AuditLatest_law:
  assumes i: "bbolt_inv B ready db"
  shows "bbolt_AuditLatest B n db = Inr (take (nat n) (rev (sp_audit (bbolt_abs B db))))"
  using bbolt_audit_rows [OF i] cursor_back_rows [of "rev (sp_audit (bbolt_abs B db))" n "[]"]
  by (simp add: bbolt_AuditLatest_def db_View_ready [OF bbolt_invD(1,2) [OF i]] comp_def rev_map)

lemma bbolt_CRLGet_law:
  assumes i: "bbolt_inv B ready db"
  shows "bbolt_CRLGet B k db = Inr (sp_crl (bbolt_abs B db) k)"
proof (cases "bl_get B db bucketCRL k")
  case None
  then show ?thesis by (simp add: bbolt_CRLGet_def db_View_ready [OF bbolt_invD(1,2) [OF i]] bbolt_abs_def)
next
  case (Some v)
  with i obtain e where "crl_row_ok e" "v = marshal_crl e" unfolding bbolt_inv_def bucket_ok_def by blast
  with Some show ?thesis
    by (simp add: bbolt_CRLGet_def db_View_ready [OF bbolt_invD(1,2) [OF i]] bbolt_abs_def crl_round_trip)
qed

interpretation bb: node_store "bbolt_store B" "bbolt_inv B ready" "bbolt_abs B"
  for B :: "'b bolt_lib" and ready :: "'b \<Rightarrow> bool"
  by unfold_locales (simp_all only: bbolt_store_def NodeStore.simps bbolt_Deduped_law bbolt_DLQPush_law bbolt_list_law
    bbolt_DLQDelete_law bbolt_AuditAppend_law bbolt_AuditLatest_law bbolt_CRLPut_law bbolt_CRLGet_law)

subsection \<open>A fresh database\<close>

lemma create_buckets_ready:
  assumes "bolt_laws B ready" "ready db" "\<forall>b \<in> set bs. bucket_name b"
  obtains db' where "create_buckets B bs db = Inr ((), db')" "ready db'" "bl_get B db' = bl_get B db"
    "\<forall>b \<in> set bs. bl_bucket B db' b" "\<forall>b. bl_bucket B db b \<longrightarrow> bl_bucket B db' b"
  using assms
proof (induction bs arbitrary: db thesis)
  case (Cons b bs)
  have "\<exists>db1. bl_create B b db = Inr db1 \<and> ready db1 \<and> bl_bucket B db1 = (bl_bucket B db)(b := True) \<and>
      bl_get B db1 = bl_get B db"
    using Cons.prems(2-4) unfolding bolt_laws_def by (meson list.set_intros(1))
  then obtain db1 where db1: "bl_create B b db = Inr db1" "ready db1" "bl_bucket B db1 = (bl_bucket B db)(b := True)"
    "bl_get B db1 = bl_get B db" by blast
  obtain db' where "create_buckets B bs db1 = Inr ((), db')" "ready db'" "bl_get B db' = bl_get B db1"
    "\<forall>b \<in> set bs. bl_bucket B db' b" "\<forall>b. bl_bucket B db1 b \<longrightarrow> bl_bucket B db' b"
    by (rule Cons.IH [OF _ Cons.prems(2) db1(2)]) (use Cons.prems(4) in auto)
  with db1 show ?case by (intro Cons.prems(1) [of db']) auto
qed simp

text \<open>Opening a file without rows gives a store that represents the empty specification.\<close>

lemma bbolt_Open_fresh:
  assumes "bolt_laws B ready" "bl_open B (path_join dir ''mrmi.db'') = Inr db" "ready db" "\<forall>b. bl_get B db b = Map.empty"
  obtains db' where "bbolt_Open B dir = Inr db'" "bbolt_inv B ready db'" "bbolt_abs B db' = spec_empty"
proof -
  let ?bs = "[bucketDedup, bucketDLQ, bucketAudit, bucketCRL]"
  obtain db' where db': "create_buckets B ?bs db = Inr ((), db')" "ready db'" "bl_get B db' = bl_get B db"
    "\<forall>b \<in> set ?bs. bl_bucket B db' b" by (rule create_buckets_ready [OF assms(1,3), of ?bs]) simp_all
  have "bbolt_Open B dir = Inr db'"
    using assms(2,3) db'(1,2) bolt_begin [OF assms(1)] by (simp add: bbolt_Open_def Let_def db_Update_def)
  moreover have "bbolt_inv B ready db'" using assms db' by (simp add: bbolt_inv_def bucket_ok_def)
  moreover have "bl_rows B db' bucketAudit = []"
    using bolt_rows(2) [OF assms(1) db'(2), of bucketAudit] db'(3,4) assms(4) by simp
  then have "bbolt_abs B db' = spec_empty"
    using db'(3) assms(4) by (simp add: bbolt_abs_def spec_empty_def List.map_filter_def)
  ultimately show ?thesis using that by blast
qed

subsection \<open>A database in memory\<close>

type_synonym mem_db = "string list \<times> (string \<Rightarrow> (string \<times> string) list)"

fun put_row :: "string \<Rightarrow> string \<Rightarrow> (string \<times> string) list \<Rightarrow> (string \<times> string) list" where
  "put_row k v [] = [(k, v)]"
| "put_row k v ((l, w) # xs) =
     (if k < l then (k, v) # (l, w) # xs else if k = l then (k, v) # xs else (l, w) # put_row k v xs)"

definition mem_bolt :: "mem_db bolt_lib" where
  "mem_bolt =
     \<lparr>bl_open = (\<lambda>_. Inr ([], \<lambda>_. [])),
      bl_create = (\<lambda>b (bs, m). Inr (b # bs, m)),
      bl_bucket = (\<lambda>(bs, _) b. b \<in> set bs),
      bl_get = (\<lambda>(_, m) b. map_of (m b)),
      bl_put = (\<lambda>b k v (bs, m). Inr (bs, m(b := put_row k v (m b)))),
      bl_delete = (\<lambda>b k (bs, m). Inr (bs, m(b := filter (\<lambda>(l, _). l \<noteq> k) (m b)))),
      bl_rows = (\<lambda>(_, m) b. m b),
      bl_begin = (\<lambda>_. None),
      bl_commit = (\<lambda>_. None)\<rparr>"

definition mem_ready :: "mem_db \<Rightarrow> bool" where
  "mem_ready db \<longleftrightarrow> (\<forall>b. sorted_wrt (<) (map fst (snd db b)))"

lemma put_row_keys: "fst ` set (put_row k v xs) = insert k (fst ` set xs)"
proof (induction xs)
  case (Cons x xs)
  then show ?case by (cases x) (simp add: insert_commute)
qed simp

lemma put_row_sorted: "sorted_wrt (<) (map fst xs) \<Longrightarrow> sorted_wrt (<) (map fst (put_row k v xs))"
proof (induction xs)
  case (Cons x xs)
  obtain l w where x: "x = (l, w)" by fastforce
  have "\<forall>y \<in> fst ` set (put_row k v xs). l < y" if "l < k" using that Cons.prems x by (auto simp: put_row_keys)
  with Cons x show ?case by auto
qed simp

lemma put_row_map_of: "sorted_wrt (<) (map fst xs) \<Longrightarrow> map_of (put_row k v xs) = (map_of xs)(k \<mapsto> v)"
  by (induction xs) (auto simp: fun_eq_iff)

lemma delete_row_sorted: "sorted_wrt (<) (map fst xs) \<Longrightarrow> sorted_wrt (<) (map fst (filter P xs))"
  by (induction xs) auto

lemma delete_row_map_of: "map_of (filter (\<lambda>(l, _). l \<noteq> k) xs) = (map_of xs)(k := None)"
  by (induction xs) (auto simp: fun_eq_iff)

lemma mem_bolt_laws: "bolt_laws mem_bolt mem_ready"
  unfolding bolt_laws_def mem_bolt_def bolt_lib.simps mem_ready_def
  by (auto simp: put_row_sorted put_row_map_of delete_row_sorted delete_row_map_of split: if_splits intro!: ext)

end
