(* ===== verification/Store_Redis.thy ===== *)
theory Store_Redis
  imports Store_Bbolt
begin

text \<open>
  \<open>store/redis/store.go\<close>. The Redis client is a parameter: the commands the store issues, over
  a state whose keys hold hashes, lists or strings with an expiry (\<open>rl_val\<close>). \<open>redis_laws\<close> states
  their documented behaviour on a server that answers; expiry has millisecond precision and
  the server shares the clock of the node. The store satisfies \<open>node_store\<close>, so it and the
  bbolt store give the same answers (\<open>backends_agree\<close>).
\<close>

datatype redis_val = RHash "string \<rightharpoonup> string" | RList "string list" | RString string "int option"

datatype redis_error = RedisNil | RedisError string

record 'r redis_lib =
  rl_ParseURL :: "string \<Rightarrow> string + 'r" \<comment> \<open>with \<open>NewClient\<close>\<close>
  rl_SetNX :: "int \<Rightarrow> string \<Rightarrow> string \<Rightarrow> int \<Rightarrow> 'r \<Rightarrow> (string + bool) \<times> 'r"
  rl_HSet :: "string \<Rightarrow> string \<Rightarrow> string \<Rightarrow> 'r \<Rightarrow> (string + unit) \<times> 'r"
  rl_HGetAll :: "string \<Rightarrow> 'r \<Rightarrow> string + (string \<times> string) list" \<comment> \<open>in the order of the map\<close>
  rl_HGet :: "string \<Rightarrow> string \<Rightarrow> 'r \<Rightarrow> redis_error + string"
  rl_HDel :: "string \<Rightarrow> string \<Rightarrow> 'r \<Rightarrow> (string + unit) \<times> 'r"
  rl_RPush :: "string \<Rightarrow> string \<Rightarrow> 'r \<Rightarrow> (string + unit) \<times> 'r"
  rl_LRange :: "string \<Rightarrow> int \<Rightarrow> int \<Rightarrow> 'r \<Rightarrow> string + string list"
  rl_val :: "'r \<Rightarrow> string \<rightharpoonup> redis_val"

record 'r redis_Store =
  rs_client :: 'r
  rs_prefix :: string

definition redis_New :: "'r redis_lib \<Rightarrow> string \<Rightarrow> string \<Rightarrow> string + 'r redis_Store" where
  "redis_New R redisURL prefix =
     (case rl_ParseURL R redisURL of
        Inl e \<Rightarrow> Inl (''redis parse url: '' @ e)
      | Inr c \<Rightarrow> Inr \<lparr>rs_client = c, rs_prefix = (if prefix = [] then ''mrmi:'' else prefix)\<rparr>)"

definition redis_key :: "'r redis_Store \<Rightarrow> string list \<Rightarrow> string" where
  "redis_key s parts = foldl (@) (rs_prefix s) parts"

definition with_client :: "('r \<Rightarrow> 'a \<times> 'r) \<Rightarrow> 'r redis_Store \<Rightarrow> 'a \<times> 'r redis_Store" where
  "with_client f s = (let (x, c) = f (rs_client s) in (x, s\<lparr>rs_client := c\<rparr>))"

definition redis_Deduped :: "'r redis_lib \<Rightarrow> int \<Rightarrow> string \<Rightarrow> int \<Rightarrow> 'r redis_Store \<Rightarrow> (string + bool) \<times> 'r redis_Store" where
  "redis_Deduped R now k ttl s =
     (case with_client (rl_SetNX R now (redis_key s [''dedup:'', k]) ''1'' ttl) s of
        (Inl e, s') \<Rightarrow> (Inl e, s')
      | (Inr ok, s') \<Rightarrow> (Inr (\<not> ok), s'))"

definition redis_DLQPush :: "'r redis_lib \<Rightarrow> store_DLQEntry \<Rightarrow> 'r redis_Store \<Rightarrow> (string + unit) \<times> 'r redis_Store" where
  "redis_DLQPush R e s = with_client (rl_HSet R (redis_key s [''dlq'']) (sd_ID e) (marshal_dlq e)) s"

definition redis_DLQList :: "'r redis_lib \<Rightarrow> 'r redis_Store \<Rightarrow> string + store_DLQEntry list" where
  "redis_DLQList R s =
     (case rl_HGetAll R (redis_key s [''dlq'']) (rs_client s) of
        Inl e \<Rightarrow> Inl e
      | Inr m \<Rightarrow> decode_rows unmarshal_dlq (map snd m))"

definition redis_DLQDelete :: "'r redis_lib \<Rightarrow> string \<Rightarrow> 'r redis_Store \<Rightarrow> (string + unit) \<times> 'r redis_Store" where
  "redis_DLQDelete R i s = with_client (rl_HDel R (redis_key s [''dlq'']) i) s"

definition redis_AuditAppend :: "'r redis_lib \<Rightarrow> store_AuditEntry \<Rightarrow> 'r redis_Store \<Rightarrow> (string + unit) \<times> 'r redis_Store" where
  "redis_AuditAppend R e s = with_client (rl_RPush R (redis_key s [''audit'']) (marshal_audit e)) s"

definition redis_AuditLatest :: "'r redis_lib \<Rightarrow> int \<Rightarrow> 'r redis_Store \<Rightarrow> string + store_AuditEntry list" where
  "redis_AuditLatest R n s =
     (case rl_LRange R (redis_key s [''audit'']) (int64_wrap (- n)) (- 1) (rs_client s) of
        Inl e \<Rightarrow> Inl e
      | Inr vals \<Rightarrow> decode_rows unmarshal_audit (rev vals))"

definition redis_CRLPut :: "'r redis_lib \<Rightarrow> store_CRLEntry \<Rightarrow> 'r redis_Store \<Rightarrow> (string + unit) \<times> 'r redis_Store" where
  "redis_CRLPut R e s = with_client (rl_HSet R (redis_key s [''crl'']) (sc_NodeID e) (marshal_crl e)) s"

definition redis_CRLGet :: "'r redis_lib \<Rightarrow> string \<Rightarrow> 'r redis_Store \<Rightarrow> string + store_CRLEntry option" where
  "redis_CRLGet R nodeID s =
     (case rl_HGet R (redis_key s [''crl'']) nodeID (rs_client s) of
        Inl RedisNil \<Rightarrow> Inr None
      | Inl (RedisError e) \<Rightarrow> Inl e
      | Inr v \<Rightarrow> (case unmarshal_crl v of None \<Rightarrow> Inl ''invalid row'' | Some e \<Rightarrow> Inr (Some e)))"

definition redis_CRLList :: "'r redis_lib \<Rightarrow> 'r redis_Store \<Rightarrow> string + store_CRLEntry list" where
  "redis_CRLList R s =
     (case rl_HGetAll R (redis_key s [''crl'']) (rs_client s) of
        Inl e \<Rightarrow> Inl e
      | Inr m \<Rightarrow> decode_rows unmarshal_crl (map snd m))"

definition redis_store :: "'r redis_lib \<Rightarrow> 'r redis_Store NodeStore" where
  "redis_store R =
     \<lparr>ns_Deduped = redis_Deduped R, ns_DLQPush = redis_DLQPush R, ns_DLQList = redis_DLQList R,
      ns_DLQDelete = redis_DLQDelete R, ns_AuditAppend = redis_AuditAppend R,
      ns_AuditLatest = redis_AuditLatest R, ns_CRLPut = redis_CRLPut R, ns_CRLGet = redis_CRLGet R,
      ns_CRLList = redis_CRLList R\<rparr>"

subsection \<open>The library\<close>

definition hash_at :: "(string \<rightharpoonup> redis_val) \<Rightarrow> string \<Rightarrow> (string \<rightharpoonup> string)" where
  "hash_at m k = (case m k of Some (RHash h) \<Rightarrow> h | _ \<Rightarrow> Map.empty)"

definition list_at :: "(string \<rightharpoonup> redis_val) \<Rightarrow> string \<Rightarrow> string list" where
  "list_at m k = (case m k of Some (RList xs) \<Rightarrow> xs | _ \<Rightarrow> [])"

definition holds_hash :: "(string \<rightharpoonup> redis_val) \<Rightarrow> string \<Rightarrow> bool" where
  "holds_hash m k = (case m k of None \<Rightarrow> True | Some (RHash _) \<Rightarrow> True | _ \<Rightarrow> False)"

definition holds_list :: "(string \<rightharpoonup> redis_val) \<Rightarrow> string \<Rightarrow> bool" where
  "holds_list m k = (case m k of None \<Rightarrow> True | Some (RList _) \<Rightarrow> True | _ \<Rightarrow> False)"

text \<open>\<open>LRANGE\<close> with its negative indices.\<close>

definition lrange :: "'a list \<Rightarrow> int \<Rightarrow> int \<Rightarrow> 'a list" where
  "lrange xs start stop =
     (let n = int (length xs);
          a = max 0 (if start < 0 then n + start else start);
          b = (if stop < 0 then n + stop else stop)
      in take (nat (b - a + 1)) (drop (nat a) xs))"

text \<open>A set or removed key changes alone.\<close>

definition only_key :: "string \<Rightarrow> (string \<rightharpoonup> redis_val) \<Rightarrow> (string \<rightharpoonup> redis_val) \<Rightarrow> bool" where
  "only_key k m m' \<longleftrightarrow> (\<forall>l. l \<noteq> k \<longrightarrow> m' l = m l)"

definition setnx_law :: "'r redis_lib \<Rightarrow> ('r \<Rightarrow> bool) \<Rightarrow> bool" where
  "setnx_law R ready \<longleftrightarrow>
     (\<forall>c now k v ttl. ready c \<and> 0 < ttl \<and> ttl mod millisecond = 0 \<longrightarrow>
        (case rl_val R c k of
           None \<Rightarrow> \<exists>c'. rl_SetNX R now k v ttl c = (Inr True, c') \<and> ready c' \<and>
             rl_val R c' = (rl_val R c)(k \<mapsto> RString v (Some (now + ttl)))
         | Some (RString _ (Some e)) \<Rightarrow>
             (e + millisecond \<le> now \<longrightarrow> (\<exists>c'. rl_SetNX R now k v ttl c = (Inr True, c') \<and> ready c' \<and>
               rl_val R c' = (rl_val R c)(k \<mapsto> RString v (Some (now + ttl))))) \<and>
             (now + millisecond \<le> e \<longrightarrow> (\<exists>c'. rl_SetNX R now k v ttl c = (Inr False, c') \<and> ready c' \<and>
               rl_val R c' = rl_val R c))
         | _ \<Rightarrow> True))"

definition hset_law :: "'r redis_lib \<Rightarrow> ('r \<Rightarrow> bool) \<Rightarrow> bool" where
  "hset_law R ready \<longleftrightarrow>
     (\<forall>c k f v. ready c \<and> holds_hash (rl_val R c) k \<longrightarrow>
        (\<exists>c'. rl_HSet R k f v c = (Inr (), c') \<and> ready c' \<and> only_key k (rl_val R c) (rl_val R c') \<and>
          holds_hash (rl_val R c') k \<and> hash_at (rl_val R c') k = (hash_at (rl_val R c) k)(f \<mapsto> v)))"

definition hdel_law :: "'r redis_lib \<Rightarrow> ('r \<Rightarrow> bool) \<Rightarrow> bool" where
  "hdel_law R ready \<longleftrightarrow>
     (\<forall>c k f. ready c \<and> holds_hash (rl_val R c) k \<longrightarrow>
        (\<exists>c'. rl_HDel R k f c = (Inr (), c') \<and> ready c' \<and> only_key k (rl_val R c) (rl_val R c') \<and>
          holds_hash (rl_val R c') k \<and> hash_at (rl_val R c') k = (hash_at (rl_val R c) k)(f := None)))"

definition hgetall_law :: "'r redis_lib \<Rightarrow> ('r \<Rightarrow> bool) \<Rightarrow> bool" where
  "hgetall_law R ready \<longleftrightarrow>
     (\<forall>c k. ready c \<and> holds_hash (rl_val R c) k \<longrightarrow>
        (\<exists>xs. rl_HGetAll R k c = Inr xs \<and> distinct (map fst xs) \<and> map_of xs = hash_at (rl_val R c) k))"

definition hget_law :: "'r redis_lib \<Rightarrow> ('r \<Rightarrow> bool) \<Rightarrow> bool" where
  "hget_law R ready \<longleftrightarrow>
     (\<forall>c k f. ready c \<and> holds_hash (rl_val R c) k \<longrightarrow>
        rl_HGet R k f c = (case hash_at (rl_val R c) k f of None \<Rightarrow> Inl RedisNil | Some v \<Rightarrow> Inr v))"

definition rpush_law :: "'r redis_lib \<Rightarrow> ('r \<Rightarrow> bool) \<Rightarrow> bool" where
  "rpush_law R ready \<longleftrightarrow>
     (\<forall>c k v. ready c \<and> holds_list (rl_val R c) k \<longrightarrow>
        (\<exists>c'. rl_RPush R k v c = (Inr (), c') \<and> ready c' \<and> only_key k (rl_val R c) (rl_val R c') \<and>
          holds_list (rl_val R c') k \<and> list_at (rl_val R c') k = list_at (rl_val R c) k @ [v]))"

definition lrange_law :: "'r redis_lib \<Rightarrow> ('r \<Rightarrow> bool) \<Rightarrow> bool" where
  "lrange_law R ready \<longleftrightarrow>
     (\<forall>c k i j. ready c \<and> holds_list (rl_val R c) k \<longrightarrow> rl_LRange R k i j c = Inr (lrange (list_at (rl_val R c) k) i j))"

definition redis_laws :: "'r redis_lib \<Rightarrow> ('r \<Rightarrow> bool) \<Rightarrow> bool" where
  "redis_laws R ready \<longleftrightarrow>
     setnx_law R ready \<and> hset_law R ready \<and> hdel_law R ready \<and> hgetall_law R ready \<and>
     hget_law R ready \<and> rpush_law R ready \<and> lrange_law R ready"

subsection \<open>The contract of the store\<close>

abbreviation redis_at :: "'r redis_lib \<Rightarrow> 'r redis_Store \<Rightarrow> string \<rightharpoonup> redis_val" where
  "redis_at R s \<equiv> rl_val R (rs_client s)"

definition redis_abs :: "'r redis_lib \<Rightarrow> 'r redis_Store \<Rightarrow> store_spec" where
  "redis_abs R s =
     \<lparr>sp_dedup = (\<lambda>k. case redis_at R s (redis_key s [''dedup:'', k]) of Some (RString _ x) \<Rightarrow> x | _ \<Rightarrow> None),
      sp_dlq = (\<lambda>k. Option.bind (hash_at (redis_at R s) (redis_key s [''dlq'']) k) unmarshal_dlq),
      sp_audit = List.map_filter unmarshal_audit (list_at (redis_at R s) (redis_key s [''audit''])),
      sp_crl = (\<lambda>k. Option.bind (hash_at (redis_at R s) (redis_key s [''crl'']) k) unmarshal_crl)\<rparr>"

definition dedup_cell :: "redis_val option \<Rightarrow> bool" where
  "dedup_cell x = (case x of None \<Rightarrow> True | Some (RString _ (Some _)) \<Rightarrow> True | _ \<Rightarrow> False)"

definition redis_inv :: "'r redis_lib \<Rightarrow> ('r \<Rightarrow> bool) \<Rightarrow> 'r redis_Store \<Rightarrow> bool" where
  "redis_inv R ready s \<longleftrightarrow>
     redis_laws R ready \<and> ready (rs_client s) \<and>
     (\<forall>k. dedup_cell (redis_at R s (redis_key s [''dedup:'', k]))) \<and>
     holds_hash (redis_at R s) (redis_key s [''dlq'']) \<and> holds_hash (redis_at R s) (redis_key s [''crl'']) \<and>
     holds_list (redis_at R s) (redis_key s [''audit'']) \<and>
     bucket_ok (hash_at (redis_at R s) (redis_key s [''dlq''])) sd_ID dlq_row_ok marshal_dlq \<and>
     bucket_ok (hash_at (redis_at R s) (redis_key s [''crl''])) sc_NodeID crl_row_ok marshal_crl \<and>
     list_all (\<lambda>v. \<exists>e. audit_row_ok e \<and> v = marshal_audit e) (list_at (redis_at R s) (redis_key s [''audit'']))"

lemma redis_invD:
  assumes "redis_inv R ready s"
  shows "redis_laws R ready" "ready (rs_client s)" "holds_hash (redis_at R s) (redis_key s [''dlq''])"
    "holds_hash (redis_at R s) (redis_key s [''crl''])" "holds_list (redis_at R s) (redis_key s [''audit''])"
  using assms by (simp_all add: redis_inv_def)

lemma redis_key_eq [simp]:
  "redis_key (s\<lparr>rs_client := c\<rparr>) ps = redis_key s ps"
  "redis_key s [''dedup:'', k] = redis_key s [''dedup:'', l] \<longleftrightarrow> k = l"
  by (simp_all add: redis_key_def)

lemma redis_key_neq [simp]:
  "redis_key s [''dedup:'', k] \<noteq> redis_key s [''dlq'']" "redis_key s [''dedup:'', k] \<noteq> redis_key s [''crl'']"
  "redis_key s [''dedup:'', k] \<noteq> redis_key s [''audit'']" "redis_key s [''dlq''] \<noteq> redis_key s [''crl'']"
  "redis_key s [''dlq''] \<noteq> redis_key s [''audit'']" "redis_key s [''crl''] \<noteq> redis_key s [''audit'']"
  by (simp_all add: redis_key_def)

lemmas redis_key_neq' [simp] = redis_key_neq [THEN not_sym]

lemmas setnx_at = setnx_law_def [THEN iffD1, THEN spec, THEN spec, THEN spec, THEN spec, THEN spec]

lemma redis_SetNX_free:
  assumes "setnx_law R ready" "ready c" "0 < ttl" "ttl mod millisecond = 0"
    and "rl_val R c k = None \<or> (\<exists>w e. rl_val R c k = Some (RString w (Some e)) \<and> e + millisecond \<le> now)"
  obtains c' where "rl_SetNX R now k v ttl c = (Inr True, c')" "ready c'"
    "rl_val R c' = (rl_val R c)(k \<mapsto> RString v (Some (now + ttl)))"
  using setnx_at [OF assms(1), of c ttl now k v] assms(2-) by auto

lemma redis_SetNX_live:
  assumes "setnx_law R ready" "ready c" "0 < ttl" "ttl mod millisecond = 0"
    and "rl_val R c k = Some (RString w (Some e))" "now + millisecond \<le> e"
  obtains c' where "rl_SetNX R now k v ttl c = (Inr False, c')" "ready c'" "rl_val R c' = rl_val R c"
  using setnx_at [OF assms(1), of c ttl now k v] assms(2-) by auto

lemma redis_HSet:
  assumes "redis_laws R ready" "ready c" "holds_hash (rl_val R c) k"
  obtains c' where "rl_HSet R k f v c = (Inr (), c')" "ready c'" "only_key k (rl_val R c) (rl_val R c')"
    "holds_hash (rl_val R c') k" "hash_at (rl_val R c') k = (hash_at (rl_val R c) k)(f \<mapsto> v)"
  using assms unfolding redis_laws_def hset_law_def by blast

lemma redis_HDel:
  assumes "redis_laws R ready" "ready c" "holds_hash (rl_val R c) k"
  obtains c' where "rl_HDel R k f c = (Inr (), c')" "ready c'" "only_key k (rl_val R c) (rl_val R c')"
    "holds_hash (rl_val R c') k" "hash_at (rl_val R c') k = (hash_at (rl_val R c) k)(f := None)"
  using assms unfolding redis_laws_def hdel_law_def by blast

lemma redis_HGetAll:
  assumes "redis_laws R ready" "ready c" "holds_hash (rl_val R c) k"
  obtains xs where "rl_HGetAll R k c = Inr xs" "distinct (map fst xs)" "map_of xs = hash_at (rl_val R c) k"
  using assms unfolding redis_laws_def hgetall_law_def by blast

lemma redis_HGet:
  "redis_laws R ready \<Longrightarrow> ready c \<Longrightarrow> holds_hash (rl_val R c) k \<Longrightarrow>
     rl_HGet R k f c = (case hash_at (rl_val R c) k f of None \<Rightarrow> Inl RedisNil | Some v \<Rightarrow> Inr v)"
  unfolding redis_laws_def hget_law_def by blast

lemma redis_RPush:
  assumes "redis_laws R ready" "ready c" "holds_list (rl_val R c) k"
  obtains c' where "rl_RPush R k v c = (Inr (), c')" "ready c'" "only_key k (rl_val R c) (rl_val R c')"
    "holds_list (rl_val R c') k" "list_at (rl_val R c') k = list_at (rl_val R c) k @ [v]"
  using assms unfolding redis_laws_def rpush_law_def by blast

lemma redis_LRange:
  "redis_laws R ready \<Longrightarrow> ready c \<Longrightarrow> holds_list (rl_val R c) k \<Longrightarrow>
     rl_LRange R k i j c = Inr (lrange (list_at (rl_val R c) k) i j)"
  unfolding redis_laws_def lrange_law_def by blast

text \<open>The last \<open>n\<close> elements.\<close>

lemma lrange_last: "0 < n \<Longrightarrow> rev (lrange xs (- n) (- 1)) = take (nat n) (rev xs)"
proof -
  assume n: "0 < n"
  have "lrange xs (- n) (- 1) = drop (length xs - nat n) xs"
    using n by (cases "n \<le> int (length xs)") (simp_all add: lrange_def Let_def max_def nat_diff_distrib)
  then show ?thesis by (simp add: take_rev)
qed

text \<open>What a change of one key does to the abstraction.\<close>

lemma redis_step:
  assumes i: "redis_inv R ready s" and r: "ready c" and o: "only_key (redis_key s ps) (redis_at R s) (rl_val R c)"
  defines "t \<equiv> s\<lparr>rs_client := c\<rparr>"
  shows "ps = [''dlq''] \<Longrightarrow> holds_hash (rl_val R c) (redis_key s ps) \<Longrightarrow>
      bucket_ok (hash_at (rl_val R c) (redis_key s ps)) sd_ID dlq_row_ok marshal_dlq \<Longrightarrow> redis_inv R ready t \<and>
      redis_abs R t = (redis_abs R s)\<lparr>sp_dlq := \<lambda>k. Option.bind (hash_at (rl_val R c) (redis_key s ps) k) unmarshal_dlq\<rparr>"
    and "ps = [''crl''] \<Longrightarrow> holds_hash (rl_val R c) (redis_key s ps) \<Longrightarrow>
      bucket_ok (hash_at (rl_val R c) (redis_key s ps)) sc_NodeID crl_row_ok marshal_crl \<Longrightarrow> redis_inv R ready t \<and>
      redis_abs R t = (redis_abs R s)\<lparr>sp_crl := \<lambda>k. Option.bind (hash_at (rl_val R c) (redis_key s ps) k) unmarshal_crl\<rparr>"
    and "ps = [''audit''] \<Longrightarrow> holds_list (rl_val R c) (redis_key s ps) \<Longrightarrow>
      list_all (\<lambda>v. \<exists>e. audit_row_ok e \<and> v = marshal_audit e) (list_at (rl_val R c) (redis_key s ps)) \<Longrightarrow>
      redis_inv R ready t \<and>
      redis_abs R t = (redis_abs R s)\<lparr>sp_audit := List.map_filter unmarshal_audit (list_at (rl_val R c) (redis_key s ps))\<rparr>"
proof -
  have same: "rl_val R c k = redis_at R s k" if "k \<noteq> redis_key s ps" for k
    using o that by (simp add: only_key_def)
  have at: "hash_at (rl_val R c) k = hash_at (redis_at R s) k \<and> list_at (rl_val R c) k = list_at (redis_at R s) k \<and>
      holds_hash (rl_val R c) k = holds_hash (redis_at R s) k \<and> holds_list (rl_val R c) k = holds_list (redis_at R s) k"
    if "k \<noteq> redis_key s ps" for k
    using same [OF that] by (simp add: hash_at_def list_at_def holds_hash_def holds_list_def)
  show "ps = [''dlq''] \<Longrightarrow> holds_hash (rl_val R c) (redis_key s ps) \<Longrightarrow>
      bucket_ok (hash_at (rl_val R c) (redis_key s ps)) sd_ID dlq_row_ok marshal_dlq \<Longrightarrow> redis_inv R ready t \<and>
      redis_abs R t = (redis_abs R s)\<lparr>sp_dlq := \<lambda>k. Option.bind (hash_at (rl_val R c) (redis_key s ps) k) unmarshal_dlq\<rparr>"
    using i r at [of "redis_key s [''crl'']"] at [of "redis_key s [''audit'']"]
    by (simp add: redis_inv_def redis_abs_def same t_def)
  show "ps = [''crl''] \<Longrightarrow> holds_hash (rl_val R c) (redis_key s ps) \<Longrightarrow>
      bucket_ok (hash_at (rl_val R c) (redis_key s ps)) sc_NodeID crl_row_ok marshal_crl \<Longrightarrow> redis_inv R ready t \<and>
      redis_abs R t = (redis_abs R s)\<lparr>sp_crl := \<lambda>k. Option.bind (hash_at (rl_val R c) (redis_key s ps) k) unmarshal_crl\<rparr>"
    using i r at [of "redis_key s [''dlq'']"] at [of "redis_key s [''audit'']"]
    by (simp add: redis_inv_def redis_abs_def same t_def)
  show "ps = [''audit''] \<Longrightarrow> holds_list (rl_val R c) (redis_key s ps) \<Longrightarrow>
      list_all (\<lambda>v. \<exists>e. audit_row_ok e \<and> v = marshal_audit e) (list_at (rl_val R c) (redis_key s ps)) \<Longrightarrow>
      redis_inv R ready t \<and>
      redis_abs R t = (redis_abs R s)\<lparr>sp_audit := List.map_filter unmarshal_audit (list_at (rl_val R c) (redis_key s ps))\<rparr>"
    using i r at [of "redis_key s [''dlq'']"] at [of "redis_key s [''crl'']"]
    by (simp add: redis_inv_def redis_abs_def same t_def)
qed

lemma redis_DLQPush_law:
  assumes i: "redis_inv R ready s" and pre: "spec_pre now (OpDLQPush e) (redis_abs R s)"
  shows "\<exists>s'. redis_DLQPush R e s = (Inr (), s') \<and> redis_inv R ready s' \<and>
    redis_abs R s' = spec_step now (OpDLQPush e) (redis_abs R s)"
proof -
  let ?k = "redis_key s [''dlq'']"
  have e: "dlq_row_ok e" using pre by simp
  obtain c where c: "rl_HSet R ?k (sd_ID e) (marshal_dlq e) (rs_client s) = (Inr (), c)" "ready c"
    "only_key ?k (redis_at R s) (rl_val R c)" "holds_hash (rl_val R c) ?k"
    "hash_at (rl_val R c) ?k = (hash_at (redis_at R s) ?k)(sd_ID e \<mapsto> marshal_dlq e)"
    by (rule redis_HSet [OF redis_invD(1,2,3) [OF i]])
  have "bucket_ok (hash_at (rl_val R c) ?k) sd_ID dlq_row_ok marshal_dlq"
    using i e unfolding c(5) by (intro bucket_ok_put) (simp_all add: redis_inv_def)
  from redis_step(1) [OF i c(2,3) refl c(4) this] show ?thesis
    using c(1) e by (auto simp: redis_DLQPush_def with_client_def c(5) redis_abs_def dlq_round_trip fun_eq_iff)
qed

lemma redis_CRLPut_law:
  assumes i: "redis_inv R ready s" and pre: "spec_pre now (OpCRLPut e) (redis_abs R s)"
  shows "\<exists>s'. redis_CRLPut R e s = (Inr (), s') \<and> redis_inv R ready s' \<and>
    redis_abs R s' = spec_step now (OpCRLPut e) (redis_abs R s)"
proof -
  let ?k = "redis_key s [''crl'']"
  have e: "crl_row_ok e" using pre by simp
  obtain c where c: "rl_HSet R ?k (sc_NodeID e) (marshal_crl e) (rs_client s) = (Inr (), c)" "ready c"
    "only_key ?k (redis_at R s) (rl_val R c)" "holds_hash (rl_val R c) ?k"
    "hash_at (rl_val R c) ?k = (hash_at (redis_at R s) ?k)(sc_NodeID e \<mapsto> marshal_crl e)"
    by (rule redis_HSet [OF redis_invD(1,2,4) [OF i]])
  have "bucket_ok (hash_at (rl_val R c) ?k) sc_NodeID crl_row_ok marshal_crl"
    using i e unfolding c(5) by (intro bucket_ok_put) (simp_all add: redis_inv_def)
  from redis_step(2) [OF i c(2,3) refl c(4) this] show ?thesis
    using c(1) e by (auto simp: redis_CRLPut_def with_client_def c(5) redis_abs_def crl_round_trip fun_eq_iff)
qed

lemma redis_DLQDelete_law:
  assumes i: "redis_inv R ready s"
  shows "\<exists>s'. redis_DLQDelete R f s = (Inr (), s') \<and> redis_inv R ready s' \<and>
    redis_abs R s' = spec_step now (OpDLQDelete f) (redis_abs R s)"
proof -
  let ?k = "redis_key s [''dlq'']"
  obtain c where c: "rl_HDel R ?k f (rs_client s) = (Inr (), c)" "ready c"
    "only_key ?k (redis_at R s) (rl_val R c)" "holds_hash (rl_val R c) ?k"
    "hash_at (rl_val R c) ?k = (hash_at (redis_at R s) ?k)(f := None)"
    by (rule redis_HDel [OF redis_invD(1,2,3) [OF i]])
  have "bucket_ok (hash_at (rl_val R c) ?k) sd_ID dlq_row_ok marshal_dlq"
    using i unfolding c(5) by (intro bucket_ok_del) (simp add: redis_inv_def)
  from redis_step(1) [OF i c(2,3) refl c(4) this] show ?thesis
    using c(1) by (auto simp: redis_DLQDelete_def with_client_def c(5) redis_abs_def fun_eq_iff)
qed

lemma redis_AuditAppend_law:
  assumes i: "redis_inv R ready s" and pre: "spec_pre now (OpAuditAppend e) (redis_abs R s)"
  shows "\<exists>s'. redis_AuditAppend R e s = (Inr (), s') \<and> redis_inv R ready s' \<and>
    redis_abs R s' = spec_step now (OpAuditAppend e) (redis_abs R s)"
proof -
  let ?k = "redis_key s [''audit'']"
  have e: "audit_row_ok e" using pre by simp
  obtain c where c: "rl_RPush R ?k (marshal_audit e) (rs_client s) = (Inr (), c)" "ready c"
    "only_key ?k (redis_at R s) (rl_val R c)" "holds_list (rl_val R c) ?k"
    "list_at (rl_val R c) ?k = list_at (redis_at R s) ?k @ [marshal_audit e]"
    by (rule redis_RPush [OF redis_invD(1,2,5) [OF i]])
  have "list_all (\<lambda>v. \<exists>e. audit_row_ok e \<and> v = marshal_audit e) (list_at (rl_val R c) ?k)"
    using i e unfolding c(5) by (auto simp: redis_inv_def)
  from redis_step(3) [OF i c(2,3) refl c(4) this] show ?thesis
    using c(1) e by (auto simp: redis_AuditAppend_def with_client_def c(5) redis_abs_def audit_round_trip List.map_filter_def)
qed

lemma redis_Deduped_law:
  assumes i: "redis_inv R ready s" and pre: "spec_pre now (OpDeduped k ttl) (redis_abs R s)"
  shows "\<exists>s'. redis_Deduped R now k ttl s = (Inr (spec_seen now k (redis_abs R s)), s') \<and> redis_inv R ready s' \<and>
    redis_abs R s' = spec_step now (OpDeduped k ttl) (redis_abs R s)"
proof -
  let ?k = "redis_key s [''dedup:'', k]" and ?c = "rs_client s"
  have law: "setnx_law R ready" and r: "ready ?c" using i by (simp_all add: redis_inv_def redis_laws_def)
  have ttl: "0 < ttl" "ttl mod millisecond = 0" and ms: "0 < millisecond" using pre by (simp_all add: millisecond_def)
  have cell: "dedup_cell (redis_at R s ?k)" using i by (simp add: redis_inv_def)
  show ?thesis
  proof (cases "spec_seen now k (redis_abs R s)")
    case True
    then obtain v e where e: "redis_at R s ?k = Some (RString v (Some e))" "now < e"
      by (auto simp: spec_seen_def redis_abs_def split: option.splits redis_val.splits)
    with pre ms have "now + millisecond \<le> e" by (auto simp: redis_abs_def)
    from law r ttl e(1) this
    obtain c where c: "rl_SetNX R now ?k ''1'' ttl ?c = (Inr False, c)" "ready c" "rl_val R c = redis_at R s"
      by (rule redis_SetNX_live)
    moreover have "redis_inv R ready (s\<lparr>rs_client := c\<rparr>)" "redis_abs R (s\<lparr>rs_client := c\<rparr>) = redis_abs R s"
      using i c by (simp_all add: redis_inv_def redis_abs_def)
    ultimately show ?thesis using True by (auto simp: redis_Deduped_def with_client_def)
  next
    case False
    have "redis_at R s ?k = None \<or> (\<exists>w e. redis_at R s ?k = Some (RString w (Some e)) \<and> e + millisecond \<le> now)"
      using cell False pre ms
      by (auto simp: dedup_cell_def spec_seen_def redis_abs_def split: option.splits redis_val.splits)
    from law r ttl this obtain c where c: "rl_SetNX R now ?k ''1'' ttl ?c = (Inr True, c)" "ready c"
      "rl_val R c = (redis_at R s)(?k \<mapsto> RString ''1'' (Some (now + ttl)))" by (rule redis_SetNX_free)
    have "redis_inv R ready (s\<lparr>rs_client := c\<rparr>)"
      using i c by (auto simp: redis_inv_def dedup_cell_def hash_at_def list_at_def holds_hash_def holds_list_def)
    moreover have "redis_abs R (s\<lparr>rs_client := c\<rparr>) = spec_step now (OpDeduped k ttl) (redis_abs R s)"
      using False c(3) by (auto simp: redis_abs_def hash_at_def list_at_def fun_eq_iff)
    ultimately show ?thesis using False c(1) by (auto simp: redis_Deduped_def with_client_def)
  qed
qed

lemma redis_list_law:
  assumes i: "redis_inv R ready s"
  shows "\<exists>xs. redis_DLQList R s = Inr xs \<and> lists_rows sd_ID xs (sp_dlq (redis_abs R s))"
    and "\<exists>ys. redis_CRLList R s = Inr ys \<and> lists_rows sc_NodeID ys (sp_crl (redis_abs R s))"
proof -
  obtain m where m: "rl_HGetAll R (redis_key s [''dlq'']) (rs_client s) = Inr m" "distinct (map fst m)"
    "map_of m = hash_at (redis_at R s) (redis_key s [''dlq''])" by (rule redis_HGetAll [OF redis_invD(1,2,3) [OF i]])
  have "bucket_ok (map_of m) sd_ID dlq_row_ok marshal_dlq" using i m(3) by (simp add: redis_inv_def)
  from this m(2) dlq_round_trip obtain xs where "decode_rows unmarshal_dlq (map snd m) = Inr xs"
    "lists_rows sd_ID xs (\<lambda>k. Option.bind (map_of m k) unmarshal_dlq)" by (rule rows_decode)
  with m show "\<exists>xs. redis_DLQList R s = Inr xs \<and> lists_rows sd_ID xs (sp_dlq (redis_abs R s))"
    by (simp add: redis_DLQList_def redis_abs_def)
  obtain n where n: "rl_HGetAll R (redis_key s [''crl'']) (rs_client s) = Inr n" "distinct (map fst n)"
    "map_of n = hash_at (redis_at R s) (redis_key s [''crl''])" by (rule redis_HGetAll [OF redis_invD(1,2,4) [OF i]])
  have "bucket_ok (map_of n) sc_NodeID crl_row_ok marshal_crl" using i n(3) by (simp add: redis_inv_def)
  from this n(2) crl_round_trip obtain ys where "decode_rows unmarshal_crl (map snd n) = Inr ys"
    "lists_rows sc_NodeID ys (\<lambda>k. Option.bind (map_of n k) unmarshal_crl)" by (rule rows_decode)
  with n show "\<exists>ys. redis_CRLList R s = Inr ys \<and> lists_rows sc_NodeID ys (sp_crl (redis_abs R s))"
    by (simp add: redis_CRLList_def redis_abs_def)
qed

lemma decode_audit_rows: "list_all audit_row_ok es \<Longrightarrow> decode_rows unmarshal_audit (map marshal_audit es) = Inr es"
  by (induction es) (simp_all add: audit_round_trip)

lemma redis_audit_rows:
  assumes "redis_inv R ready s"
  obtains es where "list_at (redis_at R s) (redis_key s [''audit'']) = map marshal_audit es" "list_all audit_row_ok es"
    "sp_audit (redis_abs R s) = es"
proof -
  have "\<exists>es. vs = map marshal_audit es \<and> list_all audit_row_ok es \<and> List.map_filter unmarshal_audit vs = es"
    if "list_all (\<lambda>v. \<exists>e. audit_row_ok e \<and> v = marshal_audit e) vs" for vs
    using that
  proof (induction vs)
    case (Cons v vs)
    then obtain e es where "audit_row_ok e" "v = marshal_audit e" "vs = map marshal_audit es" "list_all audit_row_ok es"
      "List.map_filter unmarshal_audit vs = es" by auto
    then show ?case by (intro exI [of _ "e # es"]) (simp add: List.map_filter_def audit_round_trip)
  qed (simp add: List.map_filter_def)
  from this [of "list_at (redis_at R s) (redis_key s [''audit''])"] assms that show ?thesis
    by (auto simp: redis_inv_def redis_abs_def)
qed

lemma redis_AuditLatest_law:
  assumes i: "redis_inv R ready s" and n: "0 < n" "n < 2 ^ 63"
  shows "redis_AuditLatest R n s = Inr (take (nat n) (rev (sp_audit (redis_abs R s))))"
proof -
  obtain es where es: "list_at (redis_at R s) (redis_key s [''audit'']) = map marshal_audit es" "list_all audit_row_ok es"
    "sp_audit (redis_abs R s) = es" by (rule redis_audit_rows [OF i])
  have "rev (lrange (map marshal_audit es) (- n) (- 1)) = map marshal_audit (take (nat n) (rev es))"
    using n by (simp add: lrange_last rev_map take_map)
  moreover have "list_all audit_row_ok (take (nat n) (rev es))"
    using es(2) by (auto simp: list_all_iff dest: in_set_takeD)
  ultimately show ?thesis
    using n redis_LRange [OF redis_invD(1,2,5) [OF i]] es
    by (simp add: redis_AuditLatest_def int64_wrap_id decode_audit_rows)
qed

lemma redis_CRLGet_law:
  assumes i: "redis_inv R ready s"
  shows "redis_CRLGet R k s = Inr (sp_crl (redis_abs R s) k)"
proof (cases "hash_at (redis_at R s) (redis_key s [''crl'']) k")
  case None
  then show ?thesis by (simp add: redis_CRLGet_def redis_HGet [OF redis_invD(1,2,4) [OF i]] redis_abs_def)
next
  case (Some v)
  with i obtain e where "crl_row_ok e" "v = marshal_crl e" unfolding redis_inv_def bucket_ok_def by blast
  with Some show ?thesis
    by (simp add: redis_CRLGet_def redis_HGet [OF redis_invD(1,2,4) [OF i]] redis_abs_def crl_round_trip)
qed

interpretation rd: node_store "redis_store R" "redis_inv R ready" "redis_abs R"
  for R :: "'r redis_lib" and ready :: "'r \<Rightarrow> bool"
  by unfold_locales (simp_all only: redis_store_def NodeStore.simps redis_Deduped_law redis_DLQPush_law redis_list_law
    redis_DLQDelete_law redis_AuditAppend_law redis_AuditLatest_law redis_CRLPut_law redis_CRLGet_law)

subsection \<open>A server in memory\<close>

datatype mem_val = MHash "(string \<times> string) list" | MList "string list" | MString string int

definition mem_set :: "int \<Rightarrow> string \<Rightarrow> string \<Rightarrow> int \<Rightarrow> (string \<rightharpoonup> mem_val) \<Rightarrow> (string + bool) \<times> (string \<rightharpoonup> mem_val)" where
  "mem_set now k v ttl c =
     (case c k of
        Some (MString _ e) \<Rightarrow> if now < e then (Inr False, c) else (Inr True, c(k \<mapsto> MString v (now + ttl)))
      | Some _ \<Rightarrow> (Inr False, c)
      | None \<Rightarrow> (Inr True, c(k \<mapsto> MString v (now + ttl))))"

definition mem_hash :: "(string \<rightharpoonup> mem_val) \<Rightarrow> string \<Rightarrow> (string \<times> string) list" where
  "mem_hash c k = (case c k of Some (MHash xs) \<Rightarrow> xs | _ \<Rightarrow> [])"

definition mem_list :: "(string \<rightharpoonup> mem_val) \<Rightarrow> string \<Rightarrow> string list" where
  "mem_list c k = (case c k of Some (MList xs) \<Rightarrow> xs | _ \<Rightarrow> [])"

definition mem_view :: "mem_val \<Rightarrow> redis_val" where
  "mem_view v = (case v of MHash xs \<Rightarrow> RHash (map_of xs) | MList xs \<Rightarrow> RList xs | MString s e \<Rightarrow> RString s (Some e))"

definition mem_redis :: "(string \<rightharpoonup> mem_val) redis_lib" where
  "mem_redis =
     \<lparr>rl_ParseURL = (\<lambda>_. Inr Map.empty),
      rl_SetNX = mem_set,
      rl_HSet = (\<lambda>k f v c. (Inr (), c(k \<mapsto> MHash (put_row f v (mem_hash c k))))),
      rl_HGetAll = (\<lambda>k c. Inr (mem_hash c k)),
      rl_HGet = (\<lambda>k f c. case map_of (mem_hash c k) f of None \<Rightarrow> Inl RedisNil | Some v \<Rightarrow> Inr v),
      rl_HDel = (\<lambda>k f c. (Inr (), c(k \<mapsto> MHash (filter (\<lambda>(g, _). g \<noteq> f) (mem_hash c k))))),
      rl_RPush = (\<lambda>k v c. (Inr (), c(k \<mapsto> MList (mem_list c k @ [v])))),
      rl_LRange = (\<lambda>k i j c. Inr (lrange (mem_list c k) i j)),
      rl_val = (\<lambda>c k. map_option mem_view (c k))\<rparr>"

definition mem_redis_ready :: "(string \<rightharpoonup> mem_val) \<Rightarrow> bool" where
  "mem_redis_ready c \<longleftrightarrow> (\<forall>k. sorted_wrt (<) (map fst (mem_hash c k)))"

lemma mem_view_at:
  "hash_at (\<lambda>k. map_option mem_view (c k)) k = map_of (mem_hash c k)"
  "list_at (\<lambda>k. map_option mem_view (c k)) k = mem_list c k"
  by (auto simp: hash_at_def list_at_def mem_view_def mem_hash_def mem_list_def split: option.split mem_val.split)

lemma mem_hash_upd [simp]:
  "mem_hash (c(k \<mapsto> MHash xs)) l = (if l = k then xs else mem_hash c l)"
  "mem_hash (c(k \<mapsto> MList ys)) l = (if l = k then [] else mem_hash c l)"
  "mem_hash (c(k \<mapsto> MString s e)) l = (if l = k then [] else mem_hash c l)"
  "mem_list (c(k \<mapsto> MList ys)) l = (if l = k then ys else mem_list c l)"
  by (simp_all add: mem_hash_def mem_list_def)

lemma mem_setnx_law: "setnx_law mem_redis mem_redis_ready"
  by (auto simp: setnx_law_def mem_redis_def mem_redis_ready_def mem_set_def mem_view_def millisecond_def
      split: option.split redis_val.split mem_val.splits intro!: ext)

lemma mem_redis_laws: "redis_laws mem_redis mem_redis_ready"
proof -
  have "hset_law mem_redis mem_redis_ready" "hdel_law mem_redis mem_redis_ready"
    by (auto simp: hset_law_def hdel_law_def mem_redis_def mem_redis_ready_def mem_view_at only_key_def holds_hash_def
        mem_view_def put_row_sorted put_row_map_of delete_row_sorted delete_row_map_of)
  moreover have "hgetall_law mem_redis mem_redis_ready" "hget_law mem_redis mem_redis_ready"
    by (auto simp: hgetall_law_def hget_law_def mem_redis_def mem_redis_ready_def mem_view_at strict_sorted_iff)
  moreover have "rpush_law mem_redis mem_redis_ready" "lrange_law mem_redis mem_redis_ready"
    by (auto simp: rpush_law_def lrange_law_def mem_redis_def mem_redis_ready_def mem_view_at only_key_def holds_list_def
        mem_view_def)
  ultimately show ?thesis using mem_setnx_law by (simp add: redis_laws_def)
qed

subsection \<open>The two backends\<close>

lemma redis_New_fresh:
  assumes "redis_laws R ready" "rl_ParseURL R url = Inr c" "ready c" "rl_val R c = Map.empty"
  obtains s where "redis_New R url prefix = Inr s" "redis_inv R ready s" "redis_abs R s = spec_empty"
  using that assms
  by (auto simp: redis_New_def redis_inv_def redis_abs_def spec_empty_def dedup_cell_def holds_hash_def holds_list_def
      hash_at_def list_at_def bucket_ok_def List.map_filter_def)

text \<open>
  C22. The backends of a store are interchangeable: opened empty, the bbolt store and the Redis store
  give the same answers to every sequence of calls the contract covers, with listings up to their
  order, and no call fails.
\<close>

theorem backends_agree:
  assumes "bolt_laws B rb" "bl_open B (path_join dir ''mrmi.db'') = Inr db0" "rb db0" "\<forall>b. bl_get B db0 b = Map.empty"
    and "redis_laws R rr" "rl_ParseURL R url = Inr c0" "rr c0" "rl_val R c0 = Map.empty"
    and "spec_pres ops spec_empty"
  shows "\<exists>db s. bbolt_Open B dir = Inr db \<and> redis_New R url prefix = Inr s \<and>
    list_all2 same_answer (fst (run_ops (bbolt_store B) ops db)) (fst (run_ops (redis_store R) ops s)) \<and>
    list_all is_ok (fst (run_ops (bbolt_store B) ops db))"
proof -
  obtain db where db: "bbolt_Open B dir = Inr db" "bbolt_inv B rb db" "bbolt_abs B db = spec_empty"
    by (rule bbolt_Open_fresh [OF assms(1-4)])
  obtain s where s: "redis_New R url prefix = Inr s" "redis_inv R rr s" "redis_abs R s = spec_empty"
    by (rule redis_New_fresh [OF assms(5-8)])
  have b: "spec_answers ops spec_empty (fst (run_ops (bbolt_store B) ops db))"
    using bb.ops_refine [OF db(2)] assms(9) db(3) by simp
  moreover have "spec_answers ops spec_empty (fst (run_ops (redis_store R) ops s))"
    using rd.ops_refine [OF s(2)] assms(9) s(3) by simp
  ultimately show ?thesis using db(1) s(1) spec_answers_same spec_answers_ok [OF b] by blast
qed

definition demo_dead :: store_DLQEntry where
  "demo_dead = dlq_zero\<lparr>sd_ID := ''a1'', sd_Attempts := 3, sd_Payload := ''x''\<rparr>"

definition demo_ops :: "(int \<times> store_op) list" where
  "demo_ops =
     [(0, OpDeduped ''k'' second), (1, OpDLQPush demo_dead), (2, OpDLQList), (3, OpDeduped ''k'' second),
      (4, OpAuditAppend audit_zero), (5, OpAuditLatest 2), (6, OpDLQDelete ''a1''), (7, OpCRLGet ''n'')]"

theorem backends_agree_witness:
  "\<exists>db s. bbolt_Open mem_bolt ''data'' = Inr db \<and> redis_New mem_redis ''redis://h'' '''' = Inr s \<and>
    list_all2 same_answer (fst (run_ops (bbolt_store mem_bolt) demo_ops db)) (fst (run_ops (redis_store mem_redis) demo_ops s)) \<and>
    list_all is_ok (fst (run_ops (bbolt_store mem_bolt) demo_ops db))"
proof (rule backends_agree [OF mem_bolt_laws _ _ _ mem_redis_laws])
  show "bl_open mem_bolt (path_join ''data'' ''mrmi.db'') = Inr ([], \<lambda>_. [])" by (simp add: mem_bolt_def)
  show "mem_ready ([], \<lambda>_. [])" "\<forall>b. bl_get mem_bolt ([], \<lambda>_. []) b = Map.empty"
    by (simp_all add: mem_ready_def mem_bolt_def)
  show "rl_ParseURL mem_redis ''redis://h'' = Inr Map.empty" "mem_redis_ready Map.empty"
    "rl_val mem_redis Map.empty = Map.empty"
    by (simp_all add: mem_redis_def mem_redis_ready_def mem_hash_def)
  have "length (marshal_dlq demo_dead) \<le> 200" "length (marshal_audit audit_zero) \<le> 300" by code_simp+
  then have "value_ok (marshal_dlq demo_dead)" "value_ok (marshal_audit audit_zero)" by (simp_all add: value_ok_def)
  moreover have "dlq_row_ok demo_dead" "audit_row_ok audit_zero" "sd_ID demo_dead = ''a1''"
    by (simp_all add: demo_dead_def dlq_zero_def audit_zero_def dlq_row_ok_def audit_row_ok_def int64_range_def is_ascii_def)
  ultimately show "spec_pres demo_ops spec_empty"
    by (simp add: demo_ops_def spec_empty_def key_ok_def duration_defs spec_seen_def)
qed

end
