(* ===== verification/Audit_File.thy ===== *)
theory Audit_File
  imports Store
begin

text \<open>
  The log on disk: \<open>WriteJSON\<close> and \<open>VerifyFile\<close> of \<open>audit/log.go\<close> at the level of bytes. An
  encoder ends its document with a newline; a decoder reads the first value of the file and
  ignores what follows it. An exported log verifies to its root hash.
\<close>

definition dec_uint32 :: "jtree \<Rightarrow> 32 word \<Rightarrow> 32 word option" where
  "dec_uint32 v old =
     (case v of
        TNum l \<Rightarrow> if list_all is_digit l \<and>
     read_nat l < 2 ^ 32 then Some (of_nat (read_nat l)) else None
      | TNull \<Rightarrow> Some old
      | _ \<Rightarrow> None)"

lemma dec_uint32_show [simp]: "dec_uint32 (TNum (show_int (uint w))) old = Some w"
proof -
  have "list_all is_digit (show_nat (unat w))" using show_nat_digits by (simp add: list_all_iff)
  moreover have "unat w < 2 ^ 32" by (rule order_less_le_trans [OF unsigned_less]) simp
  ultimately show ?thesis by (simp add: dec_uint32_def show_int_def)
qed

subsection \<open>Entries\<close>

definition entry_zero :: audit_Entry where
  "entry_zero = \<lparr>ae_Seq = 0, ae_Timestamp = 0, ae_Decision = [], ae_Reason = [], ae_TrustTier = 0,
     ae_SenderRegion = [], ae_RecipientRegion = [], ae_PolicyVersion = [], ae_Profile = [],
     ae_ApplicableLaw = [], ae_DedupTTLHours = 0, ae_NodeScope = [], ae_AllianceID = [], ae_NodeRegion = [],
     ae_SchemaType = [], ae_SchemaVersion = [], ae_RetainLong = False, ae_SettlementFinal = False,
     ae_PreviousHash = [], ae_EntryHash = []\<rparr>"

definition entry_fields :: "audit_Entry \<Rightarrow> (string \<times> jtree) list" where
  "entry_fields e =
     [(''seq'', TNum (show_int (uint (ae_Seq e)))),
      (''timestamp'', TNum (show_int (ae_Timestamp e))),
      (''decision'', TStr (ae_Decision e))] @
     omit_if (ae_Reason e = []) ''reason'' (TStr (ae_Reason e)) @
     [(''trust_tier'', TNum (show_int (uint (ae_TrustTier e)))),
      (''sender_region'', TStr (ae_SenderRegion e)),
      (''recipient_region'', TStr (ae_RecipientRegion e)),
      (''policy_version'', TStr (ae_PolicyVersion e)),
      (''profile'', TStr (ae_Profile e)),
      (''applicable_law'', TStr (ae_ApplicableLaw e)),
      (''dedup_ttl_hours'', TNum (show_int (uint (ae_DedupTTLHours e)))),
      (''node_scope'', TStr (ae_NodeScope e)),
      (''alliance_id'', TStr (ae_AllianceID e)),
      (''node_region'', TStr (ae_NodeRegion e))] @
     omit_if (ae_SchemaType e = []) ''schema_type'' (TStr (ae_SchemaType e)) @
     omit_if (ae_SchemaVersion e = []) ''schema_version'' (TStr (ae_SchemaVersion e)) @
     omit_if (\<not> ae_RetainLong e) ''retain_long'' (TBool (ae_RetainLong e)) @
     omit_if (\<not> ae_SettlementFinal e) ''settlement_final'' (TBool (ae_SettlementFinal e)) @
     [(''previous_hash'', TStr (ae_PreviousHash e)),
      (''entry_hash'', TStr (ae_EntryHash e))]"

definition entry_tags :: "string list" where
  "entry_tags = [''seq'', ''timestamp'', ''decision'', ''reason'', ''trust_tier'', ''sender_region'',
     ''recipient_region'', ''policy_version'', ''profile'', ''applicable_law'', ''dedup_ttl_hours'',
     ''node_scope'', ''alliance_id'', ''node_region'', ''schema_type'', ''schema_version'', ''retain_long'',
     ''settlement_final'', ''previous_hash'', ''entry_hash'']"

definition entry_put :: "string \<Rightarrow> jtree \<Rightarrow> audit_Entry \<Rightarrow> audit_Entry option" where
  "entry_put t v e =
     (if t = ''seq'' then map_option (\<lambda>x. e\<lparr>ae_Seq := x\<rparr>) (dec_uint64 v (ae_Seq e))
      else if t = ''timestamp'' then map_option (\<lambda>x. e\<lparr>ae_Timestamp := x\<rparr>) (dec_int64 v (ae_Timestamp e))
      else if t = ''decision'' then map_option (\<lambda>x. e\<lparr>ae_Decision := x\<rparr>) (dec_string v (ae_Decision e))
      else if t = ''reason'' then map_option (\<lambda>x. e\<lparr>ae_Reason := x\<rparr>) (dec_string v (ae_Reason e))
      else if t = ''trust_tier'' then map_option (\<lambda>x. e\<lparr>ae_TrustTier := x\<rparr>) (dec_uint32 v (ae_TrustTier e))
      else if t = ''sender_region'' then map_option (\<lambda>x. e\<lparr>ae_SenderRegion := x\<rparr>) (dec_string v (ae_SenderRegion e))
      else if t = ''recipient_region'' then map_option (\<lambda>x. e\<lparr>ae_RecipientRegion := x\<rparr>) (dec_string v (ae_RecipientRegion e))
      else if t = ''policy_version'' then map_option (\<lambda>x. e\<lparr>ae_PolicyVersion := x\<rparr>) (dec_string v (ae_PolicyVersion e))
      else if t = ''profile'' then map_option (\<lambda>x. e\<lparr>ae_Profile := x\<rparr>) (dec_string v (ae_Profile e))
      else if t = ''applicable_law'' then map_option (\<lambda>x. e\<lparr>ae_ApplicableLaw := x\<rparr>) (dec_string v (ae_ApplicableLaw e))
      else if t = ''dedup_ttl_hours'' then map_option (\<lambda>x. e\<lparr>ae_DedupTTLHours := x\<rparr>) (dec_uint64 v (ae_DedupTTLHours e))
      else if t = ''node_scope'' then map_option (\<lambda>x. e\<lparr>ae_NodeScope := x\<rparr>) (dec_string v (ae_NodeScope e))
      else if t = ''alliance_id'' then map_option (\<lambda>x. e\<lparr>ae_AllianceID := x\<rparr>) (dec_string v (ae_AllianceID e))
      else if t = ''node_region'' then map_option (\<lambda>x. e\<lparr>ae_NodeRegion := x\<rparr>) (dec_string v (ae_NodeRegion e))
      else if t = ''schema_type'' then map_option (\<lambda>x. e\<lparr>ae_SchemaType := x\<rparr>) (dec_string v (ae_SchemaType e))
      else if t = ''schema_version'' then map_option (\<lambda>x. e\<lparr>ae_SchemaVersion := x\<rparr>) (dec_string v (ae_SchemaVersion e))
      else if t = ''retain_long'' then map_option (\<lambda>x. e\<lparr>ae_RetainLong := x\<rparr>) (dec_bool v (ae_RetainLong e))
      else if t = ''settlement_final'' then map_option (\<lambda>x. e\<lparr>ae_SettlementFinal := x\<rparr>) (dec_bool v (ae_SettlementFinal e))
      else if t = ''previous_hash'' then map_option (\<lambda>x. e\<lparr>ae_PreviousHash := x\<rparr>) (dec_string v (ae_PreviousHash e))
      else if t = ''entry_hash'' then map_option (\<lambda>x. e\<lparr>ae_EntryHash := x\<rparr>) (dec_string v (ae_EntryHash e))
      else None)"

definition entry_row_ok :: "audit_Entry \<Rightarrow> bool" where
  "entry_row_ok e \<longleftrightarrow>
     utf8_valid (ae_Decision e) \<and> utf8_valid (ae_Reason e) \<and> utf8_valid (ae_SenderRegion e) \<and>
     utf8_valid (ae_RecipientRegion e) \<and> utf8_valid (ae_PolicyVersion e) \<and>
     utf8_valid (ae_Profile e) \<and> utf8_valid (ae_ApplicableLaw e) \<and> utf8_valid (ae_NodeScope e) \<and>
     utf8_valid (ae_AllianceID e) \<and> utf8_valid (ae_NodeRegion e) \<and>
     utf8_valid (ae_SchemaType e) \<and> utf8_valid (ae_SchemaVersion e) \<and>
     utf8_valid (ae_PreviousHash e) \<and> utf8_valid (ae_EntryHash e) \<and> int64_range (ae_Timestamp e)"

lemma entry_assign:
  assumes "entry_row_ok e"
  shows "assign_object entry_tags entry_put (TObj (entry_fields e)) entry_zero = Some e"
  using assms unfolding entry_fields_def entry_row_ok_def assign_object_def
  by (simp add: assign_members_append omit_if_def entry_tags_def entry_put_def entry_zero_def match_field_def)

lemma entry_tree_ok: "entry_row_ok e \<Longrightarrow> tree_ok 1 (TObj (entry_fields e))"
  by (auto simp: entry_fields_def entry_row_ok_def omit_if_def max_depth_def is_ascii_def)

subsection \<open>Files\<close>

text \<open>\<open>json.NewDecoder(f).Decode\<close>: the first value of the input.\<close>

definition json_Decode :: "string \<Rightarrow> jtree option" where
  "json_Decode s = map_option fst (parse_value (2 * length s + 1) 0 s)"

definition WriteJSON :: "audit_Log \<Rightarrow> string" where
  "WriteJSON l = enc_tree (TArr (map (\<lambda>e. TObj (entry_fields e)) (lg_entries l))) @ [CHR 0x0A]"

datatype file_error = OpenError string | ParseLogFile | BadLog verify_error

definition decode_entries :: "string \<Rightarrow> audit_Entry list option" where
  "decode_entries s =
     (case json_Decode s of
        Some (TArr vs) \<Rightarrow> those (map (\<lambda>v. assign_object entry_tags entry_put v entry_zero) vs)
      | Some TNull \<Rightarrow> Some []
      | _ \<Rightarrow> None)"

definition VerifyFile_at :: "(string \<Rightarrow> string) \<Rightarrow> (string \<Rightarrow> string + string) \<Rightarrow> string \<Rightarrow> file_error + string" where
  "VerifyFile_at digest read path =
     (case read path of
        Inl err \<Rightarrow> Inl (OpenError err)
      | Inr s \<Rightarrow>
          (case decode_entries s of
             None \<Rightarrow> Inl ParseLogFile
           | Some es \<Rightarrow> (case VerifyFile digest es of Inl err \<Rightarrow> Inl (BadLog err) | Inr h \<Rightarrow> Inr h)))"

lemma follow_newline:
  assumes a: "tree_ok d (TArr vs)" "2 * length (enc_tree (TArr vs) @ [CHR 0x0A]) < n"
  shows "parse_value n d (enc_tree (TArr vs) @ [CHR 0x0A]) = Some (TArr vs, [CHR 0x0A])"
proof -
  obtain m where m: "n = Suc m" using a(2) by (cases n) auto
  show ?thesis
  proof (cases "vs = []")
    case True
    with a m show ?thesis by (simp add: skip_space_def json_space_def)
  next
    case False
    have "parse_elems m (Suc d) (enc_elems vs @ [CHR 0x0A]) = Some (vs, [CHR 0x0A])"
      using a m False by (intro parse_enc(2)) auto
    moreover have "expect (CHR '']'') (enc_elems vs @ [CHR 0x0A]) = None"
      using a by (intro expect_enc_elems [OF False, of "Suc d"]) simp
    ultimately show ?thesis using m a by (simp add: skip_space_def json_space_def)
  qed
qed

lemma those_assign: "list_all entry_row_ok es \<Longrightarrow>
    those (map (\<lambda>e. assign_object entry_tags entry_put (TObj (entry_fields e)) entry_zero) es) = Some es"
  by (induction es) (simp_all add: entry_assign)

lemma decode_WriteJSON:
  assumes "list_all entry_row_ok (lg_entries l)"
  shows "decode_entries (WriteJSON l) = Some (lg_entries l)"
proof -
  let ?vs = "map (\<lambda>e. TObj (entry_fields e)) (lg_entries l)"
  have "tree_ok 0 (TArr ?vs)"
    using assms entry_tree_ok by (auto simp: max_depth_def list_all_iff simp del: tree_ok.simps(6))
  then have "json_Decode (WriteJSON l) = Some (TArr ?vs)"
    using follow_newline [of 0 ?vs "2 * length (WriteJSON l) + 1"]
    unfolding json_Decode_def WriteJSON_def by (simp del: enc_tree.simps parse_value.simps tree_ok.simps)
  then show ?thesis
    using those_assign [OF assms] by (simp add: decode_entries_def comp_def)
qed

text \<open>
  An exported log verifies: in a log that passes its own verification, what \<open>WriteJSON\<close> writes is
  accepted by \<open>VerifyFile\<close> with the root hash of the log.
\<close>

theorem exported_log_verifies:
  assumes "Verify digest l = None" "list_all entry_row_ok (lg_entries l)" "read path = Inr (WriteJSON l)"
  shows "VerifyFile_at digest read path = Inr (RootHash l)"
  using assms decode_WriteJSON [OF assms(2)]
  by (auto simp: VerifyFile_at_def VerifyFile_def Verify_def RootHash_def split: option.splits if_splits)

end
