(* ===== verification/Http_Json.thy ===== *)
theory Http_Json
  imports Http Audit_File
begin

text \<open>
  The JSON text of the answers of \<open>server/http.go\<close> that the operator tool reads: errors, the
  well-known audit document, status, peers, dead letters, applications and tokens. A struct is
  encoded in the order of its fields, a map in the order of its keys; the encoder ends the
  document with a newline. A nil slice of peers is \<open>null\<close>.
\<close>

definition audit_doc_fields :: "auditSignPayload \<Rightarrow> (string \<times> jtree) list" where
  "audit_doc_fields p =
     [(''adr_version'', TStr (asp_ADRVersion p)), (''app_version'', TStr (asp_AppVersion p)),
      (''applicable_law'', TStr (asp_ApplicableLaw p)), (''node_id'', TStr (asp_NodeID p)),
      (''root_hash'', TStr (asp_RootHash p)), (''timestamp'', TNum (show_int (asp_Timestamp p))),
      (''version'', TNum (show_int (asp_Version p)))]"

definition audit_doc_tree :: "auditSignPayload \<Rightarrow> string \<Rightarrow> jtree" where
  "audit_doc_tree p sig = TObj (audit_doc_fields p @ [(''signature'', TStr sig)])"

definition status_tree :: "node_status \<Rightarrow> jtree" where
  "status_tree n =
     TObj [(''adr_version'', TStr (ns_ADRVersion n)), (''app_version'', TStr (ns_AppVersion n)),
       (''applicable_law'', TStr (ns_ApplicableLaw n)), (''node_id'', TStr (ns_NodeID n)),
       (''node_scope'', TStr (ns_NodeScope n)), (''profile'', TStr (ns_Profile n)),
       (''region'', TStr (ns_Region n)), (''uptime_seconds'', TNum (show_int (ns_UptimeSeconds n)))]"

definition peer_tree :: "peerDTO \<Rightarrow> jtree" where
  "peer_tree p =
     TObj (omit_if (pd_NodeID p = []) ''node_id'' (TStr (pd_NodeID p)) @
       [(''addr'', TStr (pd_Addr p))] @
       omit_if (pd_NodeScope p = []) ''node_scope'' (TStr (pd_NodeScope p)) @
       omit_if (pd_Region p = []) ''region'' (TStr (pd_Region p)) @
       [(''source'', TStr (pd_Source p))])"

definition dlq_tree :: "dlqDTO \<Rightarrow> jtree" where
  "dlq_tree d =
     TObj ([(''index'', TNum (show_int (int (dd_Index d)))), (''peer_addr'', TStr (dd_PeerAddr d)),
       (''attempts'', TNum (show_int (dd_Attempts d)))] @
       omit_if (dd_LastError d = []) ''last_error'' (TStr (dd_LastError d)) @
       [(''first_seen_unix'', TNum (show_int (dd_FirstSeenUnix d))),
        (''last_attempt_unix'', TNum (show_int (dd_LastAttemptUnix d))), (''envelope_id'', TStr (dd_EnvelopeID d)),
        (''sender_region'', TStr (dd_SenderRegion d)), (''recipient_region'', TStr (dd_RecipientRegion d))] @
       omit_if (dd_Reason d = []) ''reason'' (TStr (dd_Reason d)) @
       omit_if (dd_NextOpenUnix d = 0) ''next_open_unix'' (TNum (show_int (dd_NextOpenUnix d))))"

definition app_tree :: "appInfo \<Rightarrow> jtree" where
  "app_tree a =
     TObj [(''app_id'', TStr (ai_AppID a)), (''webhook_url'', TStr (ai_WebhookURL a)),
       (''last_seen'', TNum (show_int (ai_LastSeen a)))]"

definition token_tree :: "string \<Rightarrow> string \<Rightarrow> int \<Rightarrow> jtree" where
  "token_tree tok scope until =
     TObj [(''expires_at'', TNum (show_int until)), (''scope'', TStr scope), (''token'', TStr tok)]"

definition body_tree :: "http_body \<Rightarrow> jtree option" where
  "body_tree b =
     (case b of
        JsonError msg \<Rightarrow> Some (TObj [(''error'', TStr msg)])
      | AuditDoc p sig \<Rightarrow> Some (audit_doc_tree p sig)
      | Status n \<Rightarrow> Some (status_tree n)
      | PeerList ps \<Rightarrow> Some (if ps = [] then TNull else TArr (map peer_tree ps))
      | DLQList ds \<Rightarrow> Some (TArr (map dlq_tree ds))
      | AppList as \<Rightarrow> Some (TArr (map app_tree as))
      | JwtIssued tok scope until \<Rightarrow> Some (token_tree tok scope until)
      | _ \<Rightarrow> None)"

definition Encode :: "jtree \<Rightarrow> string" where
  "Encode t = enc_tree t @ [CHR 0x0A]"

text \<open>The signed bytes are the document without its signature.\<close>

lemma signed_bytes: "json_obj (sign_fields p) = enc_tree (TObj (audit_doc_fields p))"
  by (simp add: json_obj_def sign_fields_def audit_doc_fields_def jfield_def)

subsection \<open>Reading an encoded document\<close>

lemma parse_Encode_obj:
  assumes "tree_ok 0 (TObj ms)"
  shows "parse_json (Encode (TObj ms)) = Some (TObj ms)"
proof -
  let ?s = "enc_tree (TObj ms) @ [CHR 0x0A]" and ?n = "2 * length (enc_members ms) + 4"
  have m: "2 * length ?s + 1 = Suc ?n" by simp
  have "parse_value (2 * length ?s + 1) 0 ?s = Some (TObj ms, [CHR 0x0A])"
  proof (cases "ms = []")
    case True
    then show ?thesis by (simp add: skip_space_def json_space_def max_depth_def numeral_eq_Suc)
  next
    case False
    have "parse_members ?n (Suc 0) (enc_members ms @ [CHR 0x0A]) = Some (ms, [CHR 0x0A])"
      using assms False by (intro parse_enc(3)) auto
    then show ?thesis
      unfolding m parse_value.simps using False by (simp add: skip_space_def json_space_def max_depth_def expect_enc_members)
  qed
  then show ?thesis by (simp add: parse_json_def Encode_def skip_space_def json_space_def del: enc_tree.simps parse_value.simps)
qed

lemma parse_Encode_arr:
  assumes "tree_ok 0 (TArr vs)"
  shows "parse_json (Encode (TArr vs)) = Some (TArr vs)"
  using follow_newline [OF assms, of "2 * length (enc_tree (TArr vs) @ [CHR 0x0A]) + 1"]
  by (simp add: parse_json_def Encode_def skip_space_def json_space_def del: enc_tree.simps parse_value.simps)

lemma parse_Encode_null: "parse_json (Encode TNull) = Some TNull"
  by (simp add: parse_json_def Encode_def skip_space_def json_space_def parse_literal_def numeral_eq_Suc)

end
