(* ===== verification/Config_Json.thy ===== *)
theory Config_Json
  imports Audit_File Config "HOL-Library.List_Lexorder" "HOL-Library.Char_ord"
begin

text \<open>
  The JSON form of a node configuration. The structs of \<open>internal/config/config.go\<close> have no tags, so a
  member is found by its Go name; a duration is a number of nanoseconds, a missing member leaves
  the zero value. \<open>dec_conf\<close> is what \<open>PUT /api/v1/config\<close> (\<open>server/http.go\<close>) reads into its fresh
  \<open>config.Config\<close>; \<open>conf_doc\<close> is the document a Go client writes for a configuration. The
  laws of a codec are a locale, interpreted on every struct in the order of their nesting;
  slices and maps of a codec are handled once inside it.
\<close>

subsection \<open>Slices and maps\<close>

text \<open>
  An element of a slice is decoded into the element at its place, if the slice had one before; a
  value of a map is decoded into a zero value. \<open>null\<close> makes both nil.
\<close>

fun dec_elems :: "(jtree \<Rightarrow> 'a \<Rightarrow> 'a option) \<Rightarrow> 'a \<Rightarrow> jtree list \<Rightarrow> 'a list \<Rightarrow> 'a list option" where
  "dec_elems dec zero [] old = Some []"
| "dec_elems dec zero (v # vs) old =
     (case dec v (case old of x # _ \<Rightarrow> x | [] \<Rightarrow> zero) of
        None \<Rightarrow> None
      | Some x \<Rightarrow> map_option ((#) x) (dec_elems dec zero vs (tl old)))"

definition dec_slice :: "(jtree \<Rightarrow> 'a \<Rightarrow> 'a option) \<Rightarrow> 'a \<Rightarrow> jtree \<Rightarrow> 'a list \<Rightarrow> 'a list option" where
  "dec_slice dec zero v old =
     (case v of TArr vs \<Rightarrow> dec_elems dec zero vs old | TNull \<Rightarrow> Some [] | _ \<Rightarrow> None)"

fun dec_entries :: "(jtree \<Rightarrow> 'a \<Rightarrow> 'a option) \<Rightarrow> 'a \<Rightarrow> (string \<times> jtree) list \<Rightarrow> (string \<rightharpoonup> 'a) \<Rightarrow> (string \<rightharpoonup> 'a) option" where
  "dec_entries dec zero [] m = Some m"
| "dec_entries dec zero ((k, v) # ms) m =
     (case dec v zero of None \<Rightarrow> None | Some x \<Rightarrow> dec_entries dec zero ms (m(k \<mapsto> x)))"

definition dec_map :: "(jtree \<Rightarrow> 'a \<Rightarrow> 'a option) \<Rightarrow> 'a \<Rightarrow> jtree \<Rightarrow> (string \<rightharpoonup> 'a) \<Rightarrow> (string \<rightharpoonup> 'a) option" where
  "dec_map dec zero v m =
     (case v of TObj ms \<Rightarrow> dec_entries dec zero ms m | TNull \<Rightarrow> Some Map.empty | _ \<Rightarrow> None)"

definition dec_strings :: "jtree \<Rightarrow> string list \<Rightarrow> string list option" where
  "dec_strings = dec_slice dec_string []"

definition list_tree :: "('a \<Rightarrow> jtree) \<Rightarrow> 'a list \<Rightarrow> jtree" where
  "list_tree f xs = TArr (map f xs)"

definition strings_tree :: "string list \<Rightarrow> jtree" where
  "strings_tree = list_tree TStr"

text \<open>The encoder writes the keys of a map in byte order.\<close>

definition sorted_keys :: "string set \<Rightarrow> string list" where
  "sorted_keys = sorted_list_of_set"

definition map_tree :: "('a \<Rightarrow> jtree) \<Rightarrow> (string \<rightharpoonup> 'a) \<Rightarrow> jtree" where
  "map_tree f m = TObj (map (\<lambda>k. (k, f (the (m k)))) (sorted_keys (dom m)))"

definition map_ok :: "('a \<Rightarrow> bool) \<Rightarrow> (string \<rightharpoonup> 'a) \<Rightarrow> bool" where
  "map_ok ok m \<longleftrightarrow> finite (dom m) \<and>
     (\<forall>k x. m k = Some x \<longrightarrow> utf8_valid k \<and> ok x)"

lemma map_okD: "map_ok ok m \<Longrightarrow> m k = Some x \<Longrightarrow> utf8_valid k \<and> ok x"
  by (simp add: map_ok_def)

lemma dec_entries_finite:
  "dec_entries dec zero ms m = Some m' \<Longrightarrow> finite (dom m) \<Longrightarrow> finite (dom m')"
  by (induction ms arbitrary: m) (auto split: option.splits)

lemma dec_map_finite: "dec_map dec zero v m = Some m' \<Longrightarrow> finite (dom m) \<Longrightarrow> finite (dom m')"
  by (auto simp: dec_map_def dest: dec_entries_finite split: jtree.splits)

subsection \<open>Codecs\<close>

text \<open>\<open>h\<close> bounds the nesting of a document, which the decoder limits.\<close>

locale json_codec =
  fixes enc :: "'a \<Rightarrow> jtree" and dec :: "jtree \<Rightarrow> 'a \<Rightarrow> 'a option" and zero :: 'a and ok :: "'a \<Rightarrow> bool" and h :: nat
  assumes dec_enc: "\<And>a. ok a \<Longrightarrow> dec (enc a) zero = Some a"
    and enc_ok: "\<And>d a. ok a \<Longrightarrow> d + h \<le> max_depth \<Longrightarrow> tree_ok d (enc a)"
begin

lemma slice_round: "list_all ok xs \<Longrightarrow> dec_slice dec zero (list_tree enc xs) [] = Some xs"
  unfolding dec_slice_def list_tree_def by (induction xs) (auto simp: dec_enc)

lemma slice_ok: "list_all ok xs \<Longrightarrow> d + Suc h \<le> max_depth \<Longrightarrow> tree_ok d (list_tree enc xs)"
  by (auto simp: list_tree_def list_all_iff intro: enc_ok)

lemma entries_round:
  "distinct ks \<Longrightarrow> \<forall>k \<in> set ks. \<exists>x. m k = Some x \<and> ok x \<Longrightarrow>
   dec_entries dec zero (map (\<lambda>k. (k,
     enc (the (m k)))) ks) m' = Some (\<lambda>k. if k \<in> set ks then m k else m' k)"
proof (induction ks arbitrary: m')
  case (Cons k ks)
  then obtain x where "m k = Some x" "ok x" by auto
  with Cons show ?case by (auto simp: dec_enc fun_eq_iff)
qed simp

lemma map_round:
  assumes "map_ok ok m"
  shows "dec_map dec zero (map_tree enc m) Map.empty = Some m"
proof -
  have f: "finite (dom m)" using assms by (simp add: map_ok_def)
  have "(\<lambda>k. if k \<in> dom m then m k else None) = m" by (auto simp: fun_eq_iff domIff)
  with f entries_round [of "sorted_keys (dom m)" m Map.empty] map_okD [OF assms] show ?thesis
    by (auto simp: dec_map_def map_tree_def sorted_keys_def)
qed

lemma map_tree_ok: "map_ok ok m \<Longrightarrow> d + Suc h \<le> max_depth \<Longrightarrow> tree_ok d (map_tree enc m)"
  by (auto simp: map_tree_def sorted_keys_def map_ok_def intro!: enc_ok)

lemmas codec_facts = dec_enc enc_ok slice_round slice_ok map_round map_tree_ok

end

interpretation string_codec: json_codec TStr dec_string "[]" utf8_valid 0
  by unfold_locales simp_all

lemma strings_round [simp]: "list_all utf8_valid xs \<Longrightarrow> dec_strings (strings_tree xs) [] = Some xs"
  unfolding dec_strings_def strings_tree_def by (rule string_codec.slice_round)

lemma strings_ok [simp]: "list_all utf8_valid xs \<Longrightarrow> d < max_depth \<Longrightarrow> tree_ok d (strings_tree xs)"
  unfolding strings_tree_def using string_codec.slice_ok [of xs d] by simp

subsection \<open>The structs\<close>

definition cutw_zero :: CutoffWindow where
  "cutw_zero = \<lparr>cw_Open = [], cw_Close = [], cw_TZ = []\<rparr>"

definition cutw_tags :: "string list" where
  "cutw_tags = [''Open'', ''Close'', ''TZ'']"

definition cutw_put :: "string \<Rightarrow> jtree \<Rightarrow> CutoffWindow \<Rightarrow> CutoffWindow option" where
  "cutw_put t v e =
     (if t = ''Open'' then map_option (\<lambda>x. e\<lparr>cw_Open := x\<rparr>) (dec_string v (cw_Open e))
      else if t = ''Close'' then map_option (\<lambda>x. e\<lparr>cw_Close := x\<rparr>) (dec_string v (cw_Close e))
      else if t = ''TZ'' then map_option (\<lambda>x. e\<lparr>cw_TZ := x\<rparr>) (dec_string v (cw_TZ e))
      else None)"

definition dec_cutw :: "jtree \<Rightarrow> CutoffWindow \<Rightarrow> CutoffWindow option" where
  "dec_cutw = assign_object cutw_tags cutw_put"

definition cutw_doc :: "CutoffWindow \<Rightarrow> jtree" where
  "cutw_doc e =
     TObj
       [(''Open'', TStr (cw_Open e)),
        (''Close'', TStr (cw_Close e)),
        (''TZ'', TStr (cw_TZ e))]"

definition cutw_ok :: "CutoffWindow \<Rightarrow> bool" where
  "cutw_ok e \<longleftrightarrow>
     utf8_valid (cw_Open e) \<and> utf8_valid (cw_Close e) \<and> utf8_valid (cw_TZ e)"

interpretation cutw_codec: json_codec cutw_doc dec_cutw cutw_zero cutw_ok 1
  by unfold_locales
    (simp_all add: cutw_ok_def cutw_doc_def dec_cutw_def cutw_zero_def cutw_tags_def cutw_put_def assign_object_def match_field_def
      is_ascii_def )

definition isoa_zero :: Iso20022AdapterConfig where
  "isoa_zero = \<lparr>iso_DedupTTLH = 0, iso_SettlementFinality = False, iso_RetainLong = False,
     iso_CutoffWindows = Map.empty\<rparr>"

definition isoa_tags :: "string list" where
  "isoa_tags = [''DedupTTLH'', ''SettlementFinality'', ''RetainLong'', ''CutoffWindows'']"

definition isoa_put :: "string \<Rightarrow> jtree \<Rightarrow> Iso20022AdapterConfig \<Rightarrow> Iso20022AdapterConfig option" where
  "isoa_put t v e =
     (if t = ''DedupTTLH'' then map_option (\<lambda>x. e\<lparr>iso_DedupTTLH := x\<rparr>) (dec_int64 v (iso_DedupTTLH e))
      else if t = ''SettlementFinality'' then map_option (\<lambda>x. e\<lparr>iso_SettlementFinality := x\<rparr>) (dec_bool v (iso_SettlementFinality e))
      else if t = ''RetainLong'' then map_option (\<lambda>x. e\<lparr>iso_RetainLong := x\<rparr>) (dec_bool v (iso_RetainLong e))
      else if t = ''CutoffWindows'' then map_option (\<lambda>x. e\<lparr>iso_CutoffWindows := x\<rparr>) (dec_map dec_cutw cutw_zero v (iso_CutoffWindows e))
      else None)"

definition dec_isoa :: "jtree \<Rightarrow> Iso20022AdapterConfig \<Rightarrow> Iso20022AdapterConfig option" where
  "dec_isoa = assign_object isoa_tags isoa_put"

definition isoa_doc :: "Iso20022AdapterConfig \<Rightarrow> jtree" where
  "isoa_doc e =
     TObj
       [(''DedupTTLH'', TNum (show_int (iso_DedupTTLH e))),
        (''SettlementFinality'', TBool (iso_SettlementFinality e)),
        (''RetainLong'', TBool (iso_RetainLong e)),
        (''CutoffWindows'', map_tree cutw_doc (iso_CutoffWindows e))]"

definition isoa_ok :: "Iso20022AdapterConfig \<Rightarrow> bool" where
  "isoa_ok e \<longleftrightarrow>
     int64_range (iso_DedupTTLH e) \<and> map_ok cutw_ok (iso_CutoffWindows e)"

interpretation isoa_codec: json_codec isoa_doc dec_isoa isoa_zero isoa_ok 3
  by unfold_locales
    (simp_all add: isoa_ok_def isoa_doc_def dec_isoa_def isoa_zero_def isoa_tags_def isoa_put_def assign_object_def match_field_def
      is_ascii_def cutw_codec.codec_facts)

definition adap_zero :: AdapterConfig where
  "adap_zero = \<lparr>ad_Type = [], ad_Version = [], ad_Enabled = False, ad_Description = [],
     ad_JurisdictionPolicy = [], ad_AllowTiers = [], ad_Contact = []\<rparr>"

definition adap_tags :: "string list" where
  "adap_tags = [''Type'', ''Version'', ''Enabled'', ''Description'', ''JurisdictionPolicy'', ''AllowTiers'',
     ''Contact'']"

definition adap_put :: "string \<Rightarrow> jtree \<Rightarrow> AdapterConfig \<Rightarrow> AdapterConfig option" where
  "adap_put t v e =
     (if t = ''Type'' then map_option (\<lambda>x. e\<lparr>ad_Type := x\<rparr>) (dec_string v (ad_Type e))
      else if t = ''Version'' then map_option (\<lambda>x. e\<lparr>ad_Version := x\<rparr>) (dec_string v (ad_Version e))
      else if t = ''Enabled'' then map_option (\<lambda>x. e\<lparr>ad_Enabled := x\<rparr>) (dec_bool v (ad_Enabled e))
      else if t = ''Description'' then map_option (\<lambda>x. e\<lparr>ad_Description := x\<rparr>) (dec_string v (ad_Description e))
      else if t = ''JurisdictionPolicy'' then map_option (\<lambda>x. e\<lparr>ad_JurisdictionPolicy := x\<rparr>) (dec_string v (ad_JurisdictionPolicy e))
      else if t = ''AllowTiers'' then map_option (\<lambda>x. e\<lparr>ad_AllowTiers := x\<rparr>) (dec_strings v (ad_AllowTiers e))
      else if t = ''Contact'' then map_option (\<lambda>x. e\<lparr>ad_Contact := x\<rparr>) (dec_string v (ad_Contact e))
      else None)"

definition dec_adap :: "jtree \<Rightarrow> AdapterConfig \<Rightarrow> AdapterConfig option" where
  "dec_adap = assign_object adap_tags adap_put"

definition adap_doc :: "AdapterConfig \<Rightarrow> jtree" where
  "adap_doc e =
     TObj
       [(''Type'', TStr (ad_Type e)),
        (''Version'', TStr (ad_Version e)),
        (''Enabled'', TBool (ad_Enabled e)),
        (''Description'', TStr (ad_Description e)),
        (''JurisdictionPolicy'', TStr (ad_JurisdictionPolicy e)),
        (''AllowTiers'', strings_tree (ad_AllowTiers e)),
        (''Contact'', TStr (ad_Contact e))]"

definition adap_ok :: "AdapterConfig \<Rightarrow> bool" where
  "adap_ok e \<longleftrightarrow>
     utf8_valid (ad_Type e) \<and> utf8_valid (ad_Version e) \<and> utf8_valid (ad_Description e) \<and>
     utf8_valid (ad_JurisdictionPolicy e) \<and> list_all utf8_valid (ad_AllowTiers e) \<and>
     utf8_valid (ad_Contact e)"

interpretation adap_codec: json_codec adap_doc dec_adap adap_zero adap_ok 2
  by unfold_locales
    (simp_all add: adap_ok_def adap_doc_def dec_adap_def adap_zero_def adap_tags_def adap_put_def assign_object_def match_field_def
      is_ascii_def)

definition sreg_zero :: SchemaRegistryConfig where
  "sreg_zero = \<lparr>sr_Adapters = [], sr_Iso20022 = isoa_zero\<rparr>"

definition sreg_tags :: "string list" where
  "sreg_tags = [''Adapters'', ''Iso20022'']"

definition sreg_put :: "string \<Rightarrow> jtree \<Rightarrow> SchemaRegistryConfig \<Rightarrow> SchemaRegistryConfig option" where
  "sreg_put t v e =
     (if t = ''Adapters'' then map_option (\<lambda>x. e\<lparr>sr_Adapters := x\<rparr>) (dec_slice dec_adap adap_zero v (sr_Adapters e))
      else if t = ''Iso20022'' then map_option (\<lambda>x. e\<lparr>sr_Iso20022 := x\<rparr>) (dec_isoa v (sr_Iso20022 e))
      else None)"

definition dec_sreg :: "jtree \<Rightarrow> SchemaRegistryConfig \<Rightarrow> SchemaRegistryConfig option" where
  "dec_sreg = assign_object sreg_tags sreg_put"

definition sreg_doc :: "SchemaRegistryConfig \<Rightarrow> jtree" where
  "sreg_doc e =
     TObj
       [(''Adapters'', list_tree adap_doc (sr_Adapters e)),
        (''Iso20022'', isoa_doc (sr_Iso20022 e))]"

definition sreg_ok :: "SchemaRegistryConfig \<Rightarrow> bool" where
  "sreg_ok e \<longleftrightarrow>
     list_all adap_ok (sr_Adapters e) \<and> isoa_ok (sr_Iso20022 e)"

interpretation sreg_codec: json_codec sreg_doc dec_sreg sreg_zero sreg_ok 4
  by unfold_locales
    (simp_all add: sreg_ok_def sreg_doc_def dec_sreg_def sreg_zero_def sreg_tags_def sreg_put_def assign_object_def match_field_def
      is_ascii_def adap_codec.codec_facts isoa_codec.codec_facts)

definition stor_zero :: StorageConfig where
  "stor_zero = \<lparr>st_Backend = [], st_Path = [], st_RedisURL = [], st_KeyPrefix = []\<rparr>"

definition stor_tags :: "string list" where
  "stor_tags = [''Backend'', ''Path'', ''RedisURL'', ''KeyPrefix'']"

definition stor_put :: "string \<Rightarrow> jtree \<Rightarrow> StorageConfig \<Rightarrow> StorageConfig option" where
  "stor_put t v e =
     (if t = ''Backend'' then map_option (\<lambda>x. e\<lparr>st_Backend := x\<rparr>) (dec_string v (st_Backend e))
      else if t = ''Path'' then map_option (\<lambda>x. e\<lparr>st_Path := x\<rparr>) (dec_string v (st_Path e))
      else if t = ''RedisURL'' then map_option (\<lambda>x. e\<lparr>st_RedisURL := x\<rparr>) (dec_string v (st_RedisURL e))
      else if t = ''KeyPrefix'' then map_option (\<lambda>x. e\<lparr>st_KeyPrefix := x\<rparr>) (dec_string v (st_KeyPrefix e))
      else None)"

definition dec_stor :: "jtree \<Rightarrow> StorageConfig \<Rightarrow> StorageConfig option" where
  "dec_stor = assign_object stor_tags stor_put"

definition stor_doc :: "StorageConfig \<Rightarrow> jtree" where
  "stor_doc e =
     TObj
       [(''Backend'', TStr (st_Backend e)),
        (''Path'', TStr (st_Path e)),
        (''RedisURL'', TStr (st_RedisURL e)),
        (''KeyPrefix'', TStr (st_KeyPrefix e))]"

definition stor_ok :: "StorageConfig \<Rightarrow> bool" where
  "stor_ok e \<longleftrightarrow>
     utf8_valid (st_Backend e) \<and> utf8_valid (st_Path e) \<and> utf8_valid (st_RedisURL e) \<and>
     utf8_valid (st_KeyPrefix e)"

interpretation stor_codec: json_codec stor_doc dec_stor stor_zero stor_ok 1
  by unfold_locales
    (simp_all add: stor_ok_def stor_doc_def dec_stor_def stor_zero_def stor_tags_def stor_put_def assign_object_def match_field_def
      is_ascii_def )

definition apic_zero :: APIConfig where
  "apic_zero = \<lparr>api_APIKey = [], api_JWTSecret = []\<rparr>"

definition apic_tags :: "string list" where
  "apic_tags = [''APIKey'', ''JWTSecret'']"

definition apic_put :: "string \<Rightarrow> jtree \<Rightarrow> APIConfig \<Rightarrow> APIConfig option" where
  "apic_put t v e =
     (if t = ''APIKey'' then map_option (\<lambda>x. e\<lparr>api_APIKey := x\<rparr>) (dec_string v (api_APIKey e))
      else if t = ''JWTSecret'' then map_option (\<lambda>x. e\<lparr>api_JWTSecret := x\<rparr>) (dec_string v (api_JWTSecret e))
      else None)"

definition dec_apic :: "jtree \<Rightarrow> APIConfig \<Rightarrow> APIConfig option" where
  "dec_apic = assign_object apic_tags apic_put"

definition apic_doc :: "APIConfig \<Rightarrow> jtree" where
  "apic_doc e =
     TObj
       [(''APIKey'', TStr (api_APIKey e)),
        (''JWTSecret'', TStr (api_JWTSecret e))]"

definition apic_ok :: "APIConfig \<Rightarrow> bool" where
  "apic_ok e \<longleftrightarrow>
     utf8_valid (api_APIKey e) \<and> utf8_valid (api_JWTSecret e)"

interpretation apic_codec: json_codec apic_doc dec_apic apic_zero apic_ok 1
  by unfold_locales
    (simp_all add: apic_ok_def apic_doc_def dec_apic_def apic_zero_def apic_tags_def apic_put_def assign_object_def match_field_def
      is_ascii_def )

definition userc_zero :: UserConfig where
  "userc_zero = \<lparr>uc_DisplayHint = [], uc_Region = []\<rparr>"

definition userc_tags :: "string list" where
  "userc_tags = [''DisplayHint'', ''Region'']"

definition userc_put :: "string \<Rightarrow> jtree \<Rightarrow> UserConfig \<Rightarrow> UserConfig option" where
  "userc_put t v e =
     (if t = ''DisplayHint'' then map_option (\<lambda>x. e\<lparr>uc_DisplayHint := x\<rparr>) (dec_string v (uc_DisplayHint e))
      else if t = ''Region'' then map_option (\<lambda>x. e\<lparr>uc_Region := x\<rparr>) (dec_string v (uc_Region e))
      else None)"

definition dec_userc :: "jtree \<Rightarrow> UserConfig \<Rightarrow> UserConfig option" where
  "dec_userc = assign_object userc_tags userc_put"

definition userc_doc :: "UserConfig \<Rightarrow> jtree" where
  "userc_doc e =
     TObj
       [(''DisplayHint'', TStr (uc_DisplayHint e)),
        (''Region'', TStr (uc_Region e))]"

definition userc_ok :: "UserConfig \<Rightarrow> bool" where
  "userc_ok e \<longleftrightarrow>
     utf8_valid (uc_DisplayHint e) \<and> utf8_valid (uc_Region e)"

interpretation userc_codec: json_codec userc_doc dec_userc userc_zero userc_ok 1
  by unfold_locales
    (simp_all add: userc_ok_def userc_doc_def dec_userc_def userc_zero_def userc_tags_def userc_put_def assign_object_def match_field_def
      is_ascii_def )

definition appc_zero :: AppConfig where
  "appc_zero = \<lparr>app_WebhookURL = [], app_WebhookSecret = [], app_WebhookTimeout = 0,
     app_AutoAccept = [], app_Users = Map.empty\<rparr>"

definition appc_tags :: "string list" where
  "appc_tags = [''WebhookURL'', ''WebhookSecret'', ''WebhookTimeout'', ''AutoAccept'', ''Users'']"

definition appc_put :: "string \<Rightarrow> jtree \<Rightarrow> AppConfig \<Rightarrow> AppConfig option" where
  "appc_put t v e =
     (if t = ''WebhookURL'' then map_option (\<lambda>x. e\<lparr>app_WebhookURL := x\<rparr>) (dec_string v (app_WebhookURL e))
      else if t = ''WebhookSecret'' then map_option (\<lambda>x. e\<lparr>app_WebhookSecret := x\<rparr>) (dec_string v (app_WebhookSecret e))
      else if t = ''WebhookTimeout'' then map_option (\<lambda>x. e\<lparr>app_WebhookTimeout := x\<rparr>) (dec_int64 v (app_WebhookTimeout e))
      else if t = ''AutoAccept'' then map_option (\<lambda>x. e\<lparr>app_AutoAccept := x\<rparr>) (dec_string v (app_AutoAccept e))
      else if t = ''Users'' then map_option (\<lambda>x. e\<lparr>app_Users := x\<rparr>) (dec_map dec_userc userc_zero v (app_Users e))
      else None)"

definition dec_appc :: "jtree \<Rightarrow> AppConfig \<Rightarrow> AppConfig option" where
  "dec_appc = assign_object appc_tags appc_put"

definition appc_doc :: "AppConfig \<Rightarrow> jtree" where
  "appc_doc e =
     TObj
       [(''WebhookURL'', TStr (app_WebhookURL e)),
        (''WebhookSecret'', TStr (app_WebhookSecret e)),
        (''WebhookTimeout'', TNum (show_int (app_WebhookTimeout e))),
        (''AutoAccept'', TStr (app_AutoAccept e)),
        (''Users'', map_tree userc_doc (app_Users e))]"

definition appc_ok :: "AppConfig \<Rightarrow> bool" where
  "appc_ok e \<longleftrightarrow>
     utf8_valid (app_WebhookURL e) \<and> utf8_valid (app_WebhookSecret e) \<and>
     int64_range (app_WebhookTimeout e) \<and> utf8_valid (app_AutoAccept e) \<and> map_ok userc_ok (app_Users e)"

interpretation appc_codec: json_codec appc_doc dec_appc appc_zero appc_ok 3
  by unfold_locales
    (simp_all add: appc_ok_def appc_doc_def dec_appc_def appc_zero_def appc_tags_def appc_put_def assign_object_def match_field_def
      is_ascii_def userc_codec.codec_facts)

definition tlsc_zero :: TLSConfig where
  "tlsc_zero = \<lparr>tls_Cert = [], tls_Key = [], tls_CA = [], tls_Insecure = False\<rparr>"

definition tlsc_tags :: "string list" where
  "tlsc_tags = [''Cert'', ''Key'', ''CA'', ''Insecure'']"

definition tlsc_put :: "string \<Rightarrow> jtree \<Rightarrow> TLSConfig \<Rightarrow> TLSConfig option" where
  "tlsc_put t v e =
     (if t = ''Cert'' then map_option (\<lambda>x. e\<lparr>tls_Cert := x\<rparr>) (dec_string v (tls_Cert e))
      else if t = ''Key'' then map_option (\<lambda>x. e\<lparr>tls_Key := x\<rparr>) (dec_string v (tls_Key e))
      else if t = ''CA'' then map_option (\<lambda>x. e\<lparr>tls_CA := x\<rparr>) (dec_string v (tls_CA e))
      else if t = ''Insecure'' then map_option (\<lambda>x. e\<lparr>tls_Insecure := x\<rparr>) (dec_bool v (tls_Insecure e))
      else None)"

definition dec_tlsc :: "jtree \<Rightarrow> TLSConfig \<Rightarrow> TLSConfig option" where
  "dec_tlsc = assign_object tlsc_tags tlsc_put"

definition tlsc_doc :: "TLSConfig \<Rightarrow> jtree" where
  "tlsc_doc e =
     TObj
       [(''Cert'', TStr (tls_Cert e)),
        (''Key'', TStr (tls_Key e)),
        (''CA'', TStr (tls_CA e)),
        (''Insecure'', TBool (tls_Insecure e))]"

definition tlsc_ok :: "TLSConfig \<Rightarrow> bool" where
  "tlsc_ok e \<longleftrightarrow>
     utf8_valid (tls_Cert e) \<and> utf8_valid (tls_Key e) \<and> utf8_valid (tls_CA e)"

interpretation tlsc_codec: json_codec tlsc_doc dec_tlsc tlsc_zero tlsc_ok 1
  by unfold_locales
    (simp_all add: tlsc_ok_def tlsc_doc_def dec_tlsc_def tlsc_zero_def tlsc_tags_def tlsc_put_def assign_object_def match_field_def
      is_ascii_def )

definition nodecfg_zero :: NodeConfig where
  "nodecfg_zero = \<lparr>nc_NodeID = [], nc_NodeScope = [], nc_Region = [], nc_Regions = [],
     nc_AllianceID = [], nc_Disclaimer = [], nc_OperatorID = [], nc_PolicyVersion = [], nc_ApplicableLaw = [],
     nc_SignedBy = [], nc_DiscoveryTokenTTL = 0, nc_LogLevel = [], nc_LogFormat = []\<rparr>"

definition nodecfg_tags :: "string list" where
  "nodecfg_tags = [''NodeID'', ''NodeScope'', ''Region'', ''Regions'', ''AllianceID'', ''Disclaimer'',
     ''OperatorID'', ''PolicyVersion'', ''ApplicableLaw'', ''SignedBy'', ''DiscoveryTokenTTL'', ''LogLevel'',
     ''LogFormat'']"

definition nodecfg_put :: "string \<Rightarrow> jtree \<Rightarrow> NodeConfig \<Rightarrow> NodeConfig option" where
  "nodecfg_put t v e =
     (if t = ''NodeID'' then map_option (\<lambda>x. e\<lparr>nc_NodeID := x\<rparr>) (dec_string v (nc_NodeID e))
      else if t = ''NodeScope'' then map_option (\<lambda>x. e\<lparr>nc_NodeScope := x\<rparr>) (dec_string v (nc_NodeScope e))
      else if t = ''Region'' then map_option (\<lambda>x. e\<lparr>nc_Region := x\<rparr>) (dec_string v (nc_Region e))
      else if t = ''Regions'' then map_option (\<lambda>x. e\<lparr>nc_Regions := x\<rparr>) (dec_strings v (nc_Regions e))
      else if t = ''AllianceID'' then map_option (\<lambda>x. e\<lparr>nc_AllianceID := x\<rparr>) (dec_string v (nc_AllianceID e))
      else if t = ''Disclaimer'' then map_option (\<lambda>x. e\<lparr>nc_Disclaimer := x\<rparr>) (dec_string v (nc_Disclaimer e))
      else if t = ''OperatorID'' then map_option (\<lambda>x. e\<lparr>nc_OperatorID := x\<rparr>) (dec_string v (nc_OperatorID e))
      else if t = ''PolicyVersion'' then map_option (\<lambda>x. e\<lparr>nc_PolicyVersion := x\<rparr>) (dec_string v (nc_PolicyVersion e))
      else if t = ''ApplicableLaw'' then map_option (\<lambda>x. e\<lparr>nc_ApplicableLaw := x\<rparr>) (dec_string v (nc_ApplicableLaw e))
      else if t = ''SignedBy'' then map_option (\<lambda>x. e\<lparr>nc_SignedBy := x\<rparr>) (dec_string v (nc_SignedBy e))
      else if t = ''DiscoveryTokenTTL'' then map_option (\<lambda>x. e\<lparr>nc_DiscoveryTokenTTL := x\<rparr>) (dec_int64 v (nc_DiscoveryTokenTTL e))
      else if t = ''LogLevel'' then map_option (\<lambda>x. e\<lparr>nc_LogLevel := x\<rparr>) (dec_string v (nc_LogLevel e))
      else if t = ''LogFormat'' then map_option (\<lambda>x. e\<lparr>nc_LogFormat := x\<rparr>) (dec_string v (nc_LogFormat e))
      else None)"

definition dec_nodecfg :: "jtree \<Rightarrow> NodeConfig \<Rightarrow> NodeConfig option" where
  "dec_nodecfg = assign_object nodecfg_tags nodecfg_put"

definition nodecfg_doc :: "NodeConfig \<Rightarrow> jtree" where
  "nodecfg_doc e =
     TObj
       [(''NodeID'', TStr (nc_NodeID e)),
        (''NodeScope'', TStr (nc_NodeScope e)),
        (''Region'', TStr (nc_Region e)),
        (''Regions'', strings_tree (nc_Regions e)),
        (''AllianceID'', TStr (nc_AllianceID e)),
        (''Disclaimer'', TStr (nc_Disclaimer e)),
        (''OperatorID'', TStr (nc_OperatorID e)),
        (''PolicyVersion'', TStr (nc_PolicyVersion e)),
        (''ApplicableLaw'', TStr (nc_ApplicableLaw e)),
        (''SignedBy'', TStr (nc_SignedBy e)),
        (''DiscoveryTokenTTL'', TNum (show_int (nc_DiscoveryTokenTTL e))),
        (''LogLevel'', TStr (nc_LogLevel e)),
        (''LogFormat'', TStr (nc_LogFormat e))]"

definition nodecfg_ok :: "NodeConfig \<Rightarrow> bool" where
  "nodecfg_ok e \<longleftrightarrow>
     utf8_valid (nc_NodeID e) \<and> utf8_valid (nc_NodeScope e) \<and> utf8_valid (nc_Region e) \<and>
     list_all utf8_valid (nc_Regions e) \<and> utf8_valid (nc_AllianceID e) \<and>
     utf8_valid (nc_Disclaimer e) \<and> utf8_valid (nc_OperatorID e) \<and>
     utf8_valid (nc_PolicyVersion e) \<and> utf8_valid (nc_ApplicableLaw e) \<and>
     utf8_valid (nc_SignedBy e) \<and> int64_range (nc_DiscoveryTokenTTL e) \<and>
     utf8_valid (nc_LogLevel e) \<and> utf8_valid (nc_LogFormat e)"

interpretation nodecfg_codec: json_codec nodecfg_doc dec_nodecfg nodecfg_zero nodecfg_ok 2
  by unfold_locales
    (simp_all add: nodecfg_ok_def nodecfg_doc_def dec_nodecfg_def nodecfg_zero_def nodecfg_tags_def nodecfg_put_def assign_object_def match_field_def
      is_ascii_def)

definition prof_zero :: ProfileConfig where
  "prof_zero = \<lparr>pf_Name = [], pf_DedupTTL = 0, pf_TimingJitterMax = 0, pf_PaddingBucket = 0,
     pf_DummyTrafficRate = 0, pf_TransitCacheTTL = 0\<rparr>"

definition prof_tags :: "string list" where
  "prof_tags = [''Name'', ''DedupTTL'', ''TimingJitterMax'', ''PaddingBucket'', ''DummyTrafficRate'',
     ''TransitCacheTTL'']"

definition prof_put :: "string \<Rightarrow> jtree \<Rightarrow> ProfileConfig \<Rightarrow> ProfileConfig option" where
  "prof_put t v e =
     (if t = ''Name'' then map_option (\<lambda>x. e\<lparr>pf_Name := x\<rparr>) (dec_string v (pf_Name e))
      else if t = ''DedupTTL'' then map_option (\<lambda>x. e\<lparr>pf_DedupTTL := x\<rparr>) (dec_int64 v (pf_DedupTTL e))
      else if t = ''TimingJitterMax'' then map_option (\<lambda>x. e\<lparr>pf_TimingJitterMax := x\<rparr>) (dec_int64 v (pf_TimingJitterMax e))
      else if t = ''PaddingBucket'' then map_option (\<lambda>x. e\<lparr>pf_PaddingBucket := x\<rparr>) (dec_int64 v (pf_PaddingBucket e))
      else if t = ''DummyTrafficRate'' then map_option (\<lambda>x. e\<lparr>pf_DummyTrafficRate := x\<rparr>) (dec_int64 v (pf_DummyTrafficRate e))
      else if t = ''TransitCacheTTL'' then map_option (\<lambda>x. e\<lparr>pf_TransitCacheTTL := x\<rparr>) (dec_int64 v (pf_TransitCacheTTL e))
      else None)"

definition dec_prof :: "jtree \<Rightarrow> ProfileConfig \<Rightarrow> ProfileConfig option" where
  "dec_prof = assign_object prof_tags prof_put"

definition prof_doc :: "ProfileConfig \<Rightarrow> jtree" where
  "prof_doc e =
     TObj
       [(''Name'', TStr (pf_Name e)),
        (''DedupTTL'', TNum (show_int (pf_DedupTTL e))),
        (''TimingJitterMax'', TNum (show_int (pf_TimingJitterMax e))),
        (''PaddingBucket'', TNum (show_int (pf_PaddingBucket e))),
        (''DummyTrafficRate'', TNum (show_int (pf_DummyTrafficRate e))),
        (''TransitCacheTTL'', TNum (show_int (pf_TransitCacheTTL e)))]"

definition prof_ok :: "ProfileConfig \<Rightarrow> bool" where
  "prof_ok e \<longleftrightarrow>
     utf8_valid (pf_Name e) \<and> int64_range (pf_DedupTTL e) \<and> int64_range (pf_TimingJitterMax e) \<and>
     int64_range (pf_PaddingBucket e) \<and> int64_range (pf_DummyTrafficRate e) \<and>
     int64_range (pf_TransitCacheTTL e)"

interpretation prof_codec: json_codec prof_doc dec_prof prof_zero prof_ok 1
  by unfold_locales
    (simp_all add: prof_ok_def prof_doc_def dec_prof_def prof_zero_def prof_tags_def prof_put_def assign_object_def match_field_def
      is_ascii_def )

definition rule_zero :: JurisdictionIsolationRule where
  "rule_zero = \<lparr>ji_SchemaType = [], ji_AllowTiers = [], ji_AllowJurisdictions = [],
     ji_RequireProfile = []\<rparr>"

definition rule_tags :: "string list" where
  "rule_tags = [''SchemaType'', ''AllowTiers'', ''AllowJurisdictions'', ''RequireProfile'']"

definition rule_put :: "string \<Rightarrow> jtree \<Rightarrow> JurisdictionIsolationRule \<Rightarrow> JurisdictionIsolationRule option" where
  "rule_put t v e =
     (if t = ''SchemaType'' then map_option (\<lambda>x. e\<lparr>ji_SchemaType := x\<rparr>) (dec_string v (ji_SchemaType e))
      else if t = ''AllowTiers'' then map_option (\<lambda>x. e\<lparr>ji_AllowTiers := x\<rparr>) (dec_strings v (ji_AllowTiers e))
      else if t = ''AllowJurisdictions'' then map_option (\<lambda>x. e\<lparr>ji_AllowJurisdictions := x\<rparr>) (dec_strings v (ji_AllowJurisdictions e))
      else if t = ''RequireProfile'' then map_option (\<lambda>x. e\<lparr>ji_RequireProfile := x\<rparr>) (dec_string v (ji_RequireProfile e))
      else None)"

definition dec_rule :: "jtree \<Rightarrow> JurisdictionIsolationRule \<Rightarrow> JurisdictionIsolationRule option" where
  "dec_rule = assign_object rule_tags rule_put"

definition rule_doc :: "JurisdictionIsolationRule \<Rightarrow> jtree" where
  "rule_doc e =
     TObj
       [(''SchemaType'', TStr (ji_SchemaType e)),
        (''AllowTiers'', strings_tree (ji_AllowTiers e)),
        (''AllowJurisdictions'', strings_tree (ji_AllowJurisdictions e)),
        (''RequireProfile'', TStr (ji_RequireProfile e))]"

definition rule_ok :: "JurisdictionIsolationRule \<Rightarrow> bool" where
  "rule_ok e \<longleftrightarrow>
     utf8_valid (ji_SchemaType e) \<and> list_all utf8_valid (ji_AllowTiers e) \<and>
     list_all utf8_valid (ji_AllowJurisdictions e) \<and> utf8_valid (ji_RequireProfile e)"

interpretation rule_codec: json_codec rule_doc dec_rule rule_zero rule_ok 2
  by unfold_locales
    (simp_all add: rule_ok_def rule_doc_def dec_rule_def rule_zero_def rule_tags_def rule_put_def assign_object_def match_field_def
      is_ascii_def)

definition jiso_zero :: "JurisdictionIsolationRule list" where
  "jiso_zero = []"

definition jiso_tags :: "string list" where
  "jiso_tags = [''Rules'']"

definition jiso_put :: "string \<Rightarrow> jtree \<Rightarrow> JurisdictionIsolationRule list \<Rightarrow> JurisdictionIsolationRule list option" where
  "jiso_put t v e =
     (if t = ''Rules'' then dec_slice dec_rule rule_zero v e
      else None)"

definition dec_jiso :: "jtree \<Rightarrow> JurisdictionIsolationRule list \<Rightarrow> JurisdictionIsolationRule list option" where
  "dec_jiso = assign_object jiso_tags jiso_put"

definition jiso_doc :: "JurisdictionIsolationRule list \<Rightarrow> jtree" where
  "jiso_doc e =
     TObj
       [(''Rules'', list_tree rule_doc e)]"

definition jiso_ok :: "JurisdictionIsolationRule list \<Rightarrow> bool" where
  "jiso_ok e \<longleftrightarrow>
     list_all rule_ok e"

interpretation jiso_codec: json_codec jiso_doc dec_jiso jiso_zero jiso_ok 4
  by unfold_locales
    (simp_all add: jiso_ok_def jiso_doc_def dec_jiso_def jiso_zero_def jiso_tags_def jiso_put_def assign_object_def match_field_def
      is_ascii_def rule_codec.codec_facts)

definition disc_zero :: DiscoveryPolicy where
  "disc_zero = \<lparr>dp_AppIsolation = [], dp_AllowedAppIDs = []\<rparr>"

definition disc_tags :: "string list" where
  "disc_tags = [''AppIsolation'', ''AllowedAppIDs'']"

definition disc_put :: "string \<Rightarrow> jtree \<Rightarrow> DiscoveryPolicy \<Rightarrow> DiscoveryPolicy option" where
  "disc_put t v e =
     (if t = ''AppIsolation'' then map_option (\<lambda>x. e\<lparr>dp_AppIsolation := x\<rparr>) (dec_string v (dp_AppIsolation e))
      else if t = ''AllowedAppIDs'' then map_option (\<lambda>x. e\<lparr>dp_AllowedAppIDs := x\<rparr>) (dec_strings v (dp_AllowedAppIDs e))
      else None)"

definition dec_disc :: "jtree \<Rightarrow> DiscoveryPolicy \<Rightarrow> DiscoveryPolicy option" where
  "dec_disc = assign_object disc_tags disc_put"

definition disc_doc :: "DiscoveryPolicy \<Rightarrow> jtree" where
  "disc_doc e =
     TObj
       [(''AppIsolation'', TStr (dp_AppIsolation e)),
        (''AllowedAppIDs'', strings_tree (dp_AllowedAppIDs e))]"

definition disc_ok :: "DiscoveryPolicy \<Rightarrow> bool" where
  "disc_ok e \<longleftrightarrow>
     utf8_valid (dp_AppIsolation e) \<and> list_all utf8_valid (dp_AllowedAppIDs e)"

interpretation disc_codec: json_codec disc_doc dec_disc disc_zero disc_ok 2
  by unfold_locales
    (simp_all add: disc_ok_def disc_doc_def dec_disc_def disc_zero_def disc_tags_def disc_put_def assign_object_def match_field_def
      is_ascii_def)

definition conn_zero :: ConnectPolicy where
  "conn_zero = \<lparr>cp_AutoAccept = [], cp_TrustedNodes = []\<rparr>"

definition conn_tags :: "string list" where
  "conn_tags = [''AutoAccept'', ''TrustedNodes'']"

definition conn_put :: "string \<Rightarrow> jtree \<Rightarrow> ConnectPolicy \<Rightarrow> ConnectPolicy option" where
  "conn_put t v e =
     (if t = ''AutoAccept'' then map_option (\<lambda>x. e\<lparr>cp_AutoAccept := x\<rparr>) (dec_string v (cp_AutoAccept e))
      else if t = ''TrustedNodes'' then map_option (\<lambda>x. e\<lparr>cp_TrustedNodes := x\<rparr>) (dec_strings v (cp_TrustedNodes e))
      else None)"

definition dec_conn :: "jtree \<Rightarrow> ConnectPolicy \<Rightarrow> ConnectPolicy option" where
  "dec_conn = assign_object conn_tags conn_put"

definition conn_doc :: "ConnectPolicy \<Rightarrow> jtree" where
  "conn_doc e =
     TObj
       [(''AutoAccept'', TStr (cp_AutoAccept e)),
        (''TrustedNodes'', strings_tree (cp_TrustedNodes e))]"

definition conn_ok :: "ConnectPolicy \<Rightarrow> bool" where
  "conn_ok e \<longleftrightarrow>
     utf8_valid (cp_AutoAccept e) \<and> list_all utf8_valid (cp_TrustedNodes e)"

interpretation conn_codec: json_codec conn_doc dec_conn conn_zero conn_ok 2
  by unfold_locales
    (simp_all add: conn_ok_def conn_doc_def dec_conn_def conn_zero_def conn_tags_def conn_put_def assign_object_def match_field_def
      is_ascii_def)

definition rout_zero :: "string list" where
  "rout_zero = []"

definition rout_tags :: "string list" where
  "rout_tags = [''AllowVia'']"

definition rout_put :: "string \<Rightarrow> jtree \<Rightarrow> string list \<Rightarrow> string list option" where
  "rout_put t v e =
     (if t = ''AllowVia'' then dec_strings v e
      else None)"

definition dec_rout :: "jtree \<Rightarrow> string list \<Rightarrow> string list option" where
  "dec_rout = assign_object rout_tags rout_put"

definition rout_doc :: "string list \<Rightarrow> jtree" where
  "rout_doc e =
     TObj
       [(''AllowVia'', strings_tree e)]"

definition rout_ok :: "string list \<Rightarrow> bool" where
  "rout_ok e \<longleftrightarrow>
     list_all utf8_valid e"

interpretation rout_codec: json_codec rout_doc dec_rout rout_zero rout_ok 2
  by unfold_locales
    (simp_all add: rout_ok_def rout_doc_def dec_rout_def rout_zero_def rout_tags_def rout_put_def assign_object_def match_field_def
      is_ascii_def)

definition outb_zero :: OutboundPolicy where
  "outb_zero = \<lparr>ob_AllowTo = [], ob_DenyTo = [], ob_StoreLocally = False\<rparr>"

definition outb_tags :: "string list" where
  "outb_tags = [''AllowTo'', ''DenyTo'', ''StoreLocally'']"

definition outb_put :: "string \<Rightarrow> jtree \<Rightarrow> OutboundPolicy \<Rightarrow> OutboundPolicy option" where
  "outb_put t v e =
     (if t = ''AllowTo'' then map_option (\<lambda>x. e\<lparr>ob_AllowTo := x\<rparr>) (dec_strings v (ob_AllowTo e))
      else if t = ''DenyTo'' then map_option (\<lambda>x. e\<lparr>ob_DenyTo := x\<rparr>) (dec_strings v (ob_DenyTo e))
      else if t = ''StoreLocally'' then map_option (\<lambda>x. e\<lparr>ob_StoreLocally := x\<rparr>) (dec_bool v (ob_StoreLocally e))
      else None)"

definition dec_outb :: "jtree \<Rightarrow> OutboundPolicy \<Rightarrow> OutboundPolicy option" where
  "dec_outb = assign_object outb_tags outb_put"

definition outb_doc :: "OutboundPolicy \<Rightarrow> jtree" where
  "outb_doc e =
     TObj
       [(''AllowTo'', strings_tree (ob_AllowTo e)),
        (''DenyTo'', strings_tree (ob_DenyTo e)),
        (''StoreLocally'', TBool (ob_StoreLocally e))]"

definition outb_ok :: "OutboundPolicy \<Rightarrow> bool" where
  "outb_ok e \<longleftrightarrow>
     list_all utf8_valid (ob_AllowTo e) \<and> list_all utf8_valid (ob_DenyTo e)"

interpretation outb_codec: json_codec outb_doc dec_outb outb_zero outb_ok 2
  by unfold_locales
    (simp_all add: outb_ok_def outb_doc_def dec_outb_def outb_zero_def outb_tags_def outb_put_def assign_object_def match_field_def
      is_ascii_def)

definition inbp_zero :: "32 word" where
  "inbp_zero = 0"

definition inbp_tags :: "string list" where
  "inbp_tags = [''MinTrustTier'']"

definition inbp_put :: "string \<Rightarrow> jtree \<Rightarrow> 32 word \<Rightarrow> 32 word option" where
  "inbp_put t v e =
     (if t = ''MinTrustTier'' then dec_uint32 v e
      else None)"

definition dec_inbp :: "jtree \<Rightarrow> 32 word \<Rightarrow> 32 word option" where
  "dec_inbp = assign_object inbp_tags inbp_put"

definition inbp_doc :: "32 word \<Rightarrow> jtree" where
  "inbp_doc e =
     TObj
       [(''MinTrustTier'', TNum (show_int (uint e)))]"

definition inbp_ok :: "32 word \<Rightarrow> bool" where
  "inbp_ok e \<longleftrightarrow>
     True"

interpretation inbp_codec: json_codec inbp_doc dec_inbp inbp_zero inbp_ok 1
  by unfold_locales
    (simp_all add: inbp_ok_def inbp_doc_def dec_inbp_def inbp_zero_def inbp_tags_def inbp_put_def assign_object_def match_field_def
      is_ascii_def )

definition audp_zero :: AuditPolicy where
  "audp_zero = \<lparr>ap_LogAllDecisions = False, ap_LogBackend = [], ap_ExportToOperator = False,
     ap_DNSTXTPublish = False, ap_DNSTXTInterval = 0, ap_HTTPSWellKnown = False, ap_RootHashGossip = False\<rparr>"

definition audp_tags :: "string list" where
  "audp_tags = [''LogAllDecisions'', ''LogBackend'', ''ExportToOperator'', ''DNSTXTPublish'',
     ''DNSTXTInterval'', ''HTTPSWellKnown'', ''RootHashGossip'']"

definition audp_put :: "string \<Rightarrow> jtree \<Rightarrow> AuditPolicy \<Rightarrow> AuditPolicy option" where
  "audp_put t v e =
     (if t = ''LogAllDecisions'' then map_option (\<lambda>x. e\<lparr>ap_LogAllDecisions := x\<rparr>) (dec_bool v (ap_LogAllDecisions e))
      else if t = ''LogBackend'' then map_option (\<lambda>x. e\<lparr>ap_LogBackend := x\<rparr>) (dec_string v (ap_LogBackend e))
      else if t = ''ExportToOperator'' then map_option (\<lambda>x. e\<lparr>ap_ExportToOperator := x\<rparr>) (dec_bool v (ap_ExportToOperator e))
      else if t = ''DNSTXTPublish'' then map_option (\<lambda>x. e\<lparr>ap_DNSTXTPublish := x\<rparr>) (dec_bool v (ap_DNSTXTPublish e))
      else if t = ''DNSTXTInterval'' then map_option (\<lambda>x. e\<lparr>ap_DNSTXTInterval := x\<rparr>) (dec_int64 v (ap_DNSTXTInterval e))
      else if t = ''HTTPSWellKnown'' then map_option (\<lambda>x. e\<lparr>ap_HTTPSWellKnown := x\<rparr>) (dec_bool v (ap_HTTPSWellKnown e))
      else if t = ''RootHashGossip'' then map_option (\<lambda>x. e\<lparr>ap_RootHashGossip := x\<rparr>) (dec_bool v (ap_RootHashGossip e))
      else None)"

definition dec_audp :: "jtree \<Rightarrow> AuditPolicy \<Rightarrow> AuditPolicy option" where
  "dec_audp = assign_object audp_tags audp_put"

definition audp_doc :: "AuditPolicy \<Rightarrow> jtree" where
  "audp_doc e =
     TObj
       [(''LogAllDecisions'', TBool (ap_LogAllDecisions e)),
        (''LogBackend'', TStr (ap_LogBackend e)),
        (''ExportToOperator'', TBool (ap_ExportToOperator e)),
        (''DNSTXTPublish'', TBool (ap_DNSTXTPublish e)),
        (''DNSTXTInterval'', TNum (show_int (ap_DNSTXTInterval e))),
        (''HTTPSWellKnown'', TBool (ap_HTTPSWellKnown e)),
        (''RootHashGossip'', TBool (ap_RootHashGossip e))]"

definition audp_ok :: "AuditPolicy \<Rightarrow> bool" where
  "audp_ok e \<longleftrightarrow>
     utf8_valid (ap_LogBackend e) \<and> int64_range (ap_DNSTXTInterval e)"

interpretation audp_codec: json_codec audp_doc dec_audp audp_zero audp_ok 1
  by unfold_locales
    (simp_all add: audp_ok_def audp_doc_def dec_audp_def audp_zero_def audp_tags_def audp_put_def assign_object_def match_field_def
      is_ascii_def )

definition polc_zero :: PolicyConfig where
  "polc_zero = \<lparr>pol_Outbound = outb_zero, pol_MinTrustTier = inbp_zero, pol_Audit = audp_zero,
     pol_AllowVia = rout_zero, pol_Discovery = disc_zero, pol_Connect = conn_zero, pol_Rules = jiso_zero\<rparr>"

definition polc_tags :: "string list" where
  "polc_tags = [''Outbound'', ''Inbound'', ''Audit'', ''Routing'', ''Discovery'', ''Connect'',
     ''JurisdictionIsolation'']"

definition polc_put :: "string \<Rightarrow> jtree \<Rightarrow> PolicyConfig \<Rightarrow> PolicyConfig option" where
  "polc_put t v e =
     (if t = ''Outbound'' then map_option (\<lambda>x. e\<lparr>pol_Outbound := x\<rparr>) (dec_outb v (pol_Outbound e))
      else if t = ''Inbound'' then map_option (\<lambda>x. e\<lparr>pol_MinTrustTier := x\<rparr>) (dec_inbp v (pol_MinTrustTier e))
      else if t = ''Audit'' then map_option (\<lambda>x. e\<lparr>pol_Audit := x\<rparr>) (dec_audp v (pol_Audit e))
      else if t = ''Routing'' then map_option (\<lambda>x. e\<lparr>pol_AllowVia := x\<rparr>) (dec_rout v (pol_AllowVia e))
      else if t = ''Discovery'' then map_option (\<lambda>x. e\<lparr>pol_Discovery := x\<rparr>) (dec_disc v (pol_Discovery e))
      else if t = ''Connect'' then map_option (\<lambda>x. e\<lparr>pol_Connect := x\<rparr>) (dec_conn v (pol_Connect e))
      else if t = ''JurisdictionIsolation'' then map_option (\<lambda>x. e\<lparr>pol_Rules := x\<rparr>) (dec_jiso v (pol_Rules e))
      else None)"

definition dec_polc :: "jtree \<Rightarrow> PolicyConfig \<Rightarrow> PolicyConfig option" where
  "dec_polc = assign_object polc_tags polc_put"

definition polc_doc :: "PolicyConfig \<Rightarrow> jtree" where
  "polc_doc e =
     TObj
       [(''Outbound'', outb_doc (pol_Outbound e)),
        (''Inbound'', inbp_doc (pol_MinTrustTier e)),
        (''Audit'', audp_doc (pol_Audit e)),
        (''Routing'', rout_doc (pol_AllowVia e)),
        (''Discovery'', disc_doc (pol_Discovery e)),
        (''Connect'', conn_doc (pol_Connect e)),
        (''JurisdictionIsolation'', jiso_doc (pol_Rules e))]"

definition polc_ok :: "PolicyConfig \<Rightarrow> bool" where
  "polc_ok e \<longleftrightarrow>
     outb_ok (pol_Outbound e) \<and> inbp_ok (pol_MinTrustTier e) \<and> audp_ok (pol_Audit e) \<and>
     rout_ok (pol_AllowVia e) \<and> disc_ok (pol_Discovery e) \<and> conn_ok (pol_Connect e) \<and>
     jiso_ok (pol_Rules e)"

interpretation polc_codec: json_codec polc_doc dec_polc polc_zero polc_ok 5
  by unfold_locales
    (simp_all add: polc_ok_def polc_doc_def dec_polc_def polc_zero_def polc_tags_def polc_put_def assign_object_def match_field_def
      is_ascii_def outb_codec.codec_facts inbp_codec.codec_facts audp_codec.codec_facts rout_codec.codec_facts disc_codec.codec_facts conn_codec.codec_facts jiso_codec.codec_facts)

definition peerc_zero :: PeerConfig where
  "peerc_zero = \<lparr>pc_Region = [], pc_Addr = [], pc_NodeScope = [], pc_Regions = []\<rparr>"

definition peerc_tags :: "string list" where
  "peerc_tags = [''Region'', ''Addr'', ''NodeScope'', ''Regions'']"

definition peerc_put :: "string \<Rightarrow> jtree \<Rightarrow> PeerConfig \<Rightarrow> PeerConfig option" where
  "peerc_put t v e =
     (if t = ''Region'' then map_option (\<lambda>x. e\<lparr>pc_Region := x\<rparr>) (dec_string v (pc_Region e))
      else if t = ''Addr'' then map_option (\<lambda>x. e\<lparr>pc_Addr := x\<rparr>) (dec_string v (pc_Addr e))
      else if t = ''NodeScope'' then map_option (\<lambda>x. e\<lparr>pc_NodeScope := x\<rparr>) (dec_string v (pc_NodeScope e))
      else if t = ''Regions'' then map_option (\<lambda>x. e\<lparr>pc_Regions := x\<rparr>) (dec_strings v (pc_Regions e))
      else None)"

definition dec_peerc :: "jtree \<Rightarrow> PeerConfig \<Rightarrow> PeerConfig option" where
  "dec_peerc = assign_object peerc_tags peerc_put"

definition peerc_doc :: "PeerConfig \<Rightarrow> jtree" where
  "peerc_doc e =
     TObj
       [(''Region'', TStr (pc_Region e)),
        (''Addr'', TStr (pc_Addr e)),
        (''NodeScope'', TStr (pc_NodeScope e)),
        (''Regions'', strings_tree (pc_Regions e))]"

definition peerc_ok :: "PeerConfig \<Rightarrow> bool" where
  "peerc_ok e \<longleftrightarrow>
     utf8_valid (pc_Region e) \<and> utf8_valid (pc_Addr e) \<and> utf8_valid (pc_NodeScope e) \<and>
     list_all utf8_valid (pc_Regions e)"

interpretation peerc_codec: json_codec peerc_doc dec_peerc peerc_zero peerc_ok 2
  by unfold_locales
    (simp_all add: peerc_ok_def peerc_doc_def dec_peerc_def peerc_zero_def peerc_tags_def peerc_put_def assign_object_def match_field_def
      is_ascii_def)

definition netw_zero :: NetworkConfig where
  "netw_zero = \<lparr>nw_GRPCListenAddr = [], nw_HTTPListenAddr = [], nw_MetricsAddr = [],
     nw_ShutdownTimeout = 0, nw_Peers = Map.empty, nw_BootstrapNodes = [], nw_PeerGossipInterval = 0\<rparr>"

definition netw_tags :: "string list" where
  "netw_tags = [''GRPCListenAddr'', ''HTTPListenAddr'', ''MetricsAddr'', ''ShutdownTimeout'', ''Peers'',
     ''BootstrapNodes'', ''PeerGossipInterval'']"

definition netw_put :: "string \<Rightarrow> jtree \<Rightarrow> NetworkConfig \<Rightarrow> NetworkConfig option" where
  "netw_put t v e =
     (if t = ''GRPCListenAddr'' then map_option (\<lambda>x. e\<lparr>nw_GRPCListenAddr := x\<rparr>) (dec_string v (nw_GRPCListenAddr e))
      else if t = ''HTTPListenAddr'' then map_option (\<lambda>x. e\<lparr>nw_HTTPListenAddr := x\<rparr>) (dec_string v (nw_HTTPListenAddr e))
      else if t = ''MetricsAddr'' then map_option (\<lambda>x. e\<lparr>nw_MetricsAddr := x\<rparr>) (dec_string v (nw_MetricsAddr e))
      else if t = ''ShutdownTimeout'' then map_option (\<lambda>x. e\<lparr>nw_ShutdownTimeout := x\<rparr>) (dec_int64 v (nw_ShutdownTimeout e))
      else if t = ''Peers'' then map_option (\<lambda>x. e\<lparr>nw_Peers := x\<rparr>) (dec_map dec_peerc peerc_zero v (nw_Peers e))
      else if t = ''BootstrapNodes'' then map_option (\<lambda>x. e\<lparr>nw_BootstrapNodes := x\<rparr>) (dec_strings v (nw_BootstrapNodes e))
      else if t = ''PeerGossipInterval'' then map_option (\<lambda>x. e\<lparr>nw_PeerGossipInterval := x\<rparr>) (dec_int64 v (nw_PeerGossipInterval e))
      else None)"

definition dec_netw :: "jtree \<Rightarrow> NetworkConfig \<Rightarrow> NetworkConfig option" where
  "dec_netw = assign_object netw_tags netw_put"

definition netw_doc :: "NetworkConfig \<Rightarrow> jtree" where
  "netw_doc e =
     TObj
       [(''GRPCListenAddr'', TStr (nw_GRPCListenAddr e)),
        (''HTTPListenAddr'', TStr (nw_HTTPListenAddr e)),
        (''MetricsAddr'', TStr (nw_MetricsAddr e)),
        (''ShutdownTimeout'', TNum (show_int (nw_ShutdownTimeout e))),
        (''Peers'', map_tree peerc_doc (nw_Peers e)),
        (''BootstrapNodes'', strings_tree (nw_BootstrapNodes e)),
        (''PeerGossipInterval'', TNum (show_int (nw_PeerGossipInterval e)))]"

definition netw_ok :: "NetworkConfig \<Rightarrow> bool" where
  "netw_ok e \<longleftrightarrow>
     utf8_valid (nw_GRPCListenAddr e) \<and> utf8_valid (nw_HTTPListenAddr e) \<and>
     utf8_valid (nw_MetricsAddr e) \<and> int64_range (nw_ShutdownTimeout e) \<and>
     map_ok peerc_ok (nw_Peers e) \<and> list_all utf8_valid (nw_BootstrapNodes e) \<and>
     int64_range (nw_PeerGossipInterval e)"

interpretation netw_codec: json_codec netw_doc dec_netw netw_zero netw_ok 4
  by unfold_locales
    (simp_all add: netw_ok_def netw_doc_def dec_netw_def netw_zero_def netw_tags_def netw_put_def assign_object_def match_field_def
      is_ascii_def peerc_codec.codec_facts)

definition conf_zero :: Config where
  "conf_zero = \<lparr>cfg_Node = nodecfg_zero, cfg_Profile = prof_zero, cfg_Policy = polc_zero,
     cfg_Network = netw_zero, cfg_TLS = tlsc_zero, cfg_API = apic_zero, cfg_Storage = stor_zero,
     cfg_SchemaRegistry = sreg_zero, cfg_Apps = Map.empty\<rparr>"

definition conf_tags :: "string list" where
  "conf_tags = [''Node'', ''Profile'', ''Policy'', ''Network'', ''TLS'', ''API'', ''Storage'',
     ''SchemaRegistry'', ''Apps'']"

definition conf_put :: "string \<Rightarrow> jtree \<Rightarrow> Config \<Rightarrow> Config option" where
  "conf_put t v e =
     (if t = ''Node'' then map_option (\<lambda>x. e\<lparr>cfg_Node := x\<rparr>) (dec_nodecfg v (cfg_Node e))
      else if t = ''Profile'' then map_option (\<lambda>x. e\<lparr>cfg_Profile := x\<rparr>) (dec_prof v (cfg_Profile e))
      else if t = ''Policy'' then map_option (\<lambda>x. e\<lparr>cfg_Policy := x\<rparr>) (dec_polc v (cfg_Policy e))
      else if t = ''Network'' then map_option (\<lambda>x. e\<lparr>cfg_Network := x\<rparr>) (dec_netw v (cfg_Network e))
      else if t = ''TLS'' then map_option (\<lambda>x. e\<lparr>cfg_TLS := x\<rparr>) (dec_tlsc v (cfg_TLS e))
      else if t = ''API'' then map_option (\<lambda>x. e\<lparr>cfg_API := x\<rparr>) (dec_apic v (cfg_API e))
      else if t = ''Storage'' then map_option (\<lambda>x. e\<lparr>cfg_Storage := x\<rparr>) (dec_stor v (cfg_Storage e))
      else if t = ''SchemaRegistry'' then map_option (\<lambda>x. e\<lparr>cfg_SchemaRegistry := x\<rparr>) (dec_sreg v (cfg_SchemaRegistry e))
      else if t = ''Apps'' then map_option (\<lambda>x. e\<lparr>cfg_Apps := x\<rparr>) (dec_map dec_appc appc_zero v (cfg_Apps e))
      else None)"

definition dec_conf :: "jtree \<Rightarrow> Config \<Rightarrow> Config option" where
  "dec_conf = assign_object conf_tags conf_put"

definition conf_doc :: "Config \<Rightarrow> jtree" where
  "conf_doc e =
     TObj
       [(''Node'', nodecfg_doc (cfg_Node e)),
        (''Profile'', prof_doc (cfg_Profile e)),
        (''Policy'', polc_doc (cfg_Policy e)),
        (''Network'', netw_doc (cfg_Network e)),
        (''TLS'', tlsc_doc (cfg_TLS e)),
        (''API'', apic_doc (cfg_API e)),
        (''Storage'', stor_doc (cfg_Storage e)),
        (''SchemaRegistry'', sreg_doc (cfg_SchemaRegistry e)),
        (''Apps'', map_tree appc_doc (cfg_Apps e))]"

definition conf_ok :: "Config \<Rightarrow> bool" where
  "conf_ok e \<longleftrightarrow>
     nodecfg_ok (cfg_Node e) \<and> prof_ok (cfg_Profile e) \<and> polc_ok (cfg_Policy e) \<and>
     netw_ok (cfg_Network e) \<and> tlsc_ok (cfg_TLS e) \<and> apic_ok (cfg_API e) \<and>
     stor_ok (cfg_Storage e) \<and> sreg_ok (cfg_SchemaRegistry e) \<and> map_ok appc_ok (cfg_Apps e)"

interpretation conf_codec: json_codec conf_doc dec_conf conf_zero conf_ok 6
  by unfold_locales
    (simp_all add: conf_ok_def conf_doc_def dec_conf_def conf_zero_def conf_tags_def conf_put_def assign_object_def match_field_def
      is_ascii_def nodecfg_codec.codec_facts prof_codec.codec_facts polc_codec.codec_facts netw_codec.codec_facts tlsc_codec.codec_facts apic_codec.codec_facts stor_codec.codec_facts sreg_codec.codec_facts appc_codec.codec_facts)

end
