(* ===== verification/Config_Schema.thy ===== *)
theory Config_Schema
  imports Http_Json Config_Json
begin

text \<open>
  The configuration document of the management API: the JSON schema of \<open>configSchema\<close>
  (\<open>server/http.go\<close>) with its keys in the order the encoder writes them, the keywords it uses,
  and the decoding of the node section by \<open>PUT /api/v1/config\<close>, whose fields carry their Go
  names. A duration is a number of nanoseconds in JSON.
\<close>

subsection \<open>The published schema\<close>

definition typed :: "string \<Rightarrow> jtree" where
  "typed t = TObj [(''type'', TStr t)]"

definition one_of :: "string list \<Rightarrow> jtree" where
  "one_of xs = TObj [(''enum'', TArr (map TStr xs)), (''type'', TStr ''string'')]"

definition string_array :: jtree where
  "string_array = TObj [(''items'', typed ''string''), (''type'', TStr ''array'')]"

definition section_of :: "(string \<times> jtree) list \<Rightarrow> jtree" where
  "section_of ps = TObj [(''properties'', TObj ps), (''type'', TStr ''object'')]"

definition node_schema :: jtree where
  "node_schema =
     TObj [(''properties'', TObj
              [(''ApplicableLaw'', typed ''string''),
               (''DiscoveryTokenTTL'', TObj [(''description'', TStr ''e.g. 5m0s''), (''type'', TStr ''string'')]),
               (''NodeID'', typed ''string''),
               (''NodeScope'', one_of [''regional'', ''alliance'', ''global'']),
               (''OperatorID'', typed ''string''),
               (''PolicyVersion'', typed ''string''),
               (''Region'', typed ''string'')]),
           (''required'', TArr (map TStr [''NodeID'', ''NodeScope'', ''OperatorID'', ''PolicyVersion'', ''ApplicableLaw''])),
           (''type'', TStr ''object'')]"

definition configSchema :: jtree where
  "configSchema =
     TObj [(''$schema'', TStr ''https://json-schema.org/draft/2020-12/schema''),
           (''properties'', TObj
              [(''Node'', node_schema),
               (''Policy'', section_of
                  [(''Connect'', section_of
                      [(''AutoAccept'', one_of [''MANUAL'', ''AUTO_WHITELIST'', ''AUTO_MUTUAL'', ''AUTO_ALL'']),
                       (''TrustedNodes'', string_array)]),
                   (''Discovery'', section_of
                      [(''AllowedAppIDs'', string_array),
                       (''AppIsolation'', one_of [''SAME_APP_ONLY'', ''WHITELIST'', ''OPEN''])]),
                   (''Inbound'', section_of
                      [(''MinTrustTier'', TObj [(''maximum'', TNum (show_int 3)), (''minimum'', TNum (show_int 0)), (''type'', TStr ''integer'')])]),
                   (''Outbound'', section_of
                      [(''AllowTo'', string_array), (''DenyTo'', string_array), (''StoreLocally'', typed ''boolean'')])]),
               (''Storage'', section_of
                  [(''Backend'', one_of ['''', ''bbolt'', ''redis'']), (''KeyPrefix'', typed ''string''),
                   (''Path'', typed ''string''), (''RedisURL'', typed ''string'')])]),
           (''title'', TStr ''MRMI Gateway Node Configuration''),
           (''type'', TStr ''object'')]"

subsection \<open>Conformance\<close>

text \<open>The keywords of JSON schema that the document uses; integers are literals without fraction and exponent.\<close>

fun has_type :: "string \<Rightarrow> jtree \<Rightarrow> bool" where
  "has_type t (TStr _) \<longleftrightarrow> t = ''string''"
| "has_type t (TNum l) \<longleftrightarrow> t = ''integer'' \<and> atoi l \<noteq> None"
| "has_type t (TBool _) \<longleftrightarrow> t = ''boolean''"
| "has_type t (TArr _) \<longleftrightarrow> t = ''array''"
| "has_type t (TObj _) \<longleftrightarrow> t = ''object''"
| "has_type t TNull \<longleftrightarrow> t = ''null''"

definition in_bounds :: "(string \<times> jtree) list \<Rightarrow> jtree \<Rightarrow> bool" where
  "in_bounds fs v =
     (case v of
        TNum l \<Rightarrow>
          (case (map_of fs ''minimum'', atoi l) of (Some (TNum m), Some i) \<Rightarrow> the (atoi m) \<le> i | _ \<Rightarrow> True) \<and>
          (case (map_of fs ''maximum'', atoi l) of (Some (TNum m), Some i) \<Rightarrow> i \<le> the (atoi m) | _ \<Rightarrow> True)
      | _ \<Rightarrow> True)"

definition enum_ok :: "(string \<times> jtree) list \<Rightarrow> jtree \<Rightarrow> bool" where
  "enum_ok fs v = (case map_of fs ''enum'' of Some (TArr xs) \<Rightarrow> v \<in> set xs | _ \<Rightarrow> True)"

definition required_ok :: "(string \<times> jtree) list \<Rightarrow> jtree \<Rightarrow> bool" where
  "required_ok fs v =
     (case (map_of fs ''required'', v) of
        (Some (TArr ks), TObj ms) \<Rightarrow> (\<forall>k \<in> set ks. case k of TStr s \<Rightarrow> s \<in> fst ` set ms | _ \<Rightarrow> True)
      | _ \<Rightarrow> True)"

lemma size_member: "(k, x) \<in> set fs \<Longrightarrow> size x < size (TObj fs)"
  by (induction fs) (auto simp: less_SucI trans_less_add1 trans_less_add2)

lemma size_map_of: "map_of fs k = Some x \<Longrightarrow> size x < size (TObj fs)"
  by (rule size_member [OF map_of_SomeD])

function conforms :: "jtree \<Rightarrow> jtree \<Rightarrow> bool" where
  "conforms (TObj fs) v \<longleftrightarrow>
     (case map_of fs ''type'' of Some (TStr t) \<Rightarrow> has_type t v | _ \<Rightarrow> True) \<and> enum_ok fs v \<and> in_bounds fs v \<and> required_ok fs v \<and>
     (case map_of fs ''properties'' of
        Some (TObj ps) \<Rightarrow>
          (case v of
             TObj ms \<Rightarrow> (\<forall>p \<in> set ps. case map_of ms (fst p) of Some x \<Rightarrow> conforms (snd p) x | None \<Rightarrow> True)
           | _ \<Rightarrow> True)
      | _ \<Rightarrow> True) \<and>
     (case map_of fs ''items'' of
        Some s \<Rightarrow> (case v of TArr vs \<Rightarrow> (\<forall>x \<in> set vs. conforms s x) | _ \<Rightarrow> True)
      | None \<Rightarrow> True)"
| "conforms (TStr a) v \<longleftrightarrow> True"
| "conforms (TNum b) v \<longleftrightarrow> True"
| "conforms (TBool c) v \<longleftrightarrow> c"
| "conforms (TArr d) v \<longleftrightarrow> True"
| "conforms TNull v \<longleftrightarrow> True"
  by pat_completeness auto
termination
proof (relation "measure (\<lambda>(s, v). size s)", goal_cases)
  case (2 fs v t ps ms p x)
  then have "size (snd p) < size (TObj ps)" using size_member [of "fst p" "snd p" ps] by simp
  with 2 show ?case using size_map_of [of fs "''properties''"] by fastforce
next
  case (3 fs v s vs x)
  then show ?case using size_map_of [of fs "''items''"] by simp
qed simp

text \<open>\<open>GET /api/v1/config/schema\<close>: the document a client with read scope gets.\<close>

definition schema_page :: string where
  "schema_page = Encode configSchema"

lemma schema_page_parses: "parse_json schema_page = Some configSchema"
proof -
  obtain fs where "configSchema = TObj fs" by (simp add: configSchema_def)
  moreover have "tree_ok 0 configSchema"
    by (simp add: configSchema_def node_schema_def section_of_def string_array_def one_of_def typed_def max_depth_def
        is_ascii_def utf8_valid_ascii)
  ultimately show ?thesis unfolding schema_page_def by (metis parse_Encode_obj)
qed

subsection \<open>Decoding the node section\<close>

lemma assign_members_fails:
  assumes "(k, v) \<in> set ms" "match_field tags k = Some t" "\<And>r. put t v r = None"
  shows "assign_members tags put ms r = None"
  using assms(1) by (induction ms arbitrary: r) (auto simp: assms(2,3) split: option.split)

lemma conforms_property:
  assumes "conforms (TObj fs) (TObj ms)" "map_of fs ''properties'' = Some (TObj ps)" "(k, s) \<in> set ps" "map_of ms k = Some v"
  shows "conforms s v"
  using assms by fastforce

text \<open>
  The published schema and the decoder disagree on the token time to live: in a document that
  conforms to the schema it is a text, and a node section with a text there is refused by the
  decoder of \<open>PUT /api/v1/config\<close>, whatever else it holds.
\<close>

theorem schema_ttl_undecodable:
  assumes "conforms configSchema (TObj ms)" "map_of ms ''Node'' = Some (TObj ns)" "''DiscoveryTokenTTL'' \<in> fst ` set ns"
  shows "dec_nodecfg (TObj ns) e = None"
proof -
  obtain v where v: "map_of ns ''DiscoveryTokenTTL'' = Some v"
    using assms(3) by (metis map_of_eq_None_iff not_Some_eq)
  obtain fs ps where c: "configSchema = TObj fs" "map_of fs ''properties'' = Some (TObj ps)" "(''Node'', node_schema) \<in> set ps"
    by (simp add: configSchema_def)
  have node: "conforms node_schema (TObj ns)"
    using assms(1,2) c conforms_property [of fs ms ps "''Node''" node_schema] by simp
  obtain gs qs s where n: "node_schema = TObj gs" "map_of gs ''properties'' = Some (TObj qs)"
    "(''DiscoveryTokenTTL'', s) \<in> set qs" "s = TObj [(''description'', TStr ''e.g. 5m0s''), (''type'', TStr ''string'')]"
    by (simp add: node_schema_def)
  then have "conforms s v"
    using node v conforms_property [of gs ns qs "''DiscoveryTokenTTL''" s] by simp
  then obtain x where "v = TStr x" unfolding n(4) by (cases v) auto
  then have "nodecfg_put ''DiscoveryTokenTTL'' v r = None" for r
    by (simp add: nodecfg_put_def dec_int64_def)
  then show ?thesis
    using assign_members_fails [OF map_of_SomeD [OF v], of nodecfg_tags "''DiscoveryTokenTTL''" nodecfg_put]
    by (simp add: dec_nodecfg_def assign_object_def match_field_def nodecfg_tags_def)
qed

definition demo_node_doc :: "(string \<times> jtree) list" where
  "demo_node_doc =
     [(''NodeID'', TStr ''n''), (''NodeScope'', TStr ''regional''), (''OperatorID'', TStr ''o''), (''PolicyVersion'', TStr ''1''),
      (''ApplicableLaw'', TStr ''RS''), (''DiscoveryTokenTTL'', TStr ''5m0s'')]"

theorem schema_ttl_undecodable_witness:
  "conforms configSchema (TObj [(''Node'', TObj demo_node_doc)]) \<and>
   dec_nodecfg (TObj demo_node_doc) (cfg_Node DefaultBalancedConfig) = None"
proof
  show c: "conforms configSchema (TObj [(''Node'', TObj demo_node_doc)])"
    by (simp add: configSchema_def node_schema_def section_of_def one_of_def typed_def demo_node_doc_def enum_ok_def
        in_bounds_def required_ok_def)
  show "dec_nodecfg (TObj demo_node_doc) (cfg_Node DefaultBalancedConfig) = None"
    by (rule schema_ttl_undecodable [OF c]) (simp_all add: demo_node_doc_def)
qed

end
