(* ===== verification/Http_Bytes.thy ===== *)
theory Http_Bytes
  imports Config_Schema
begin

text \<open>
  The management server of \<open>server/http.go\<close> at the level of bytes: the table of routes of its
  multiplexer, the request bodies as the decoder reads them, the text of every answer, and the
  frames of the event stream. A path is the list of its unescaped segments after cleaning;
  the pages of the dashboard come before the table, from a file server that is a parameter, as are
  the texts of wrapped and of decoding errors. An empty list of a missing component is written
  without the newline that ends a document here.
\<close>

subsection \<open>Request bodies\<close>

definition sndb_zero :: send_body where
  "sndb_zero = \<lparr>sb_IdempotencyKey = [], sb_SenderRegion = [], sb_RecipientRegion = [], sb_TrustTier = 0,
     sb_Payload = [], sb_SenderIdentity = []\<rparr>"

definition sndb_tags :: "string list" where
  "sndb_tags = [''idempotency_key'', ''sender_region'', ''recipient_region'', ''trust_tier'', ''payload'',
     ''sender_identity'']"

definition sndb_put :: "string \<Rightarrow> jtree \<Rightarrow> send_body \<Rightarrow> send_body option" where
  "sndb_put t v e =
     (if t = ''idempotency_key'' then map_option (\<lambda>x. e\<lparr>sb_IdempotencyKey := x\<rparr>) (dec_string v (sb_IdempotencyKey e))
      else if t = ''sender_region'' then map_option (\<lambda>x. e\<lparr>sb_SenderRegion := x\<rparr>) (dec_string v (sb_SenderRegion e))
      else if t = ''recipient_region'' then map_option (\<lambda>x. e\<lparr>sb_RecipientRegion := x\<rparr>) (dec_string v (sb_RecipientRegion e))
      else if t = ''trust_tier'' then map_option (\<lambda>x. e\<lparr>sb_TrustTier := x\<rparr>) (dec_uint32 v (sb_TrustTier e))
      else if t = ''payload'' then map_option (\<lambda>x. e\<lparr>sb_Payload := x\<rparr>) (map_option (case_option [] (\<lambda>x. x)) (dec_bytes v (sb_Payload e)))
      else if t = ''sender_identity'' then map_option (\<lambda>x. e\<lparr>sb_SenderIdentity := x\<rparr>) (map_option (case_option [] (\<lambda>x. x)) (dec_bytes v (sb_SenderIdentity e)))
      else None)"

definition crlb_zero :: crl_body where
  "crlb_zero = \<lparr>cb_NodeID = [], cb_Reason = [], cb_SignatureB64 = []\<rparr>"

definition crlb_tags :: "string list" where
  "crlb_tags = [''node_id'', ''reason'', ''signature_b64'']"

definition crlb_put :: "string \<Rightarrow> jtree \<Rightarrow> crl_body \<Rightarrow> crl_body option" where
  "crlb_put t v e =
     (if t = ''node_id'' then map_option (\<lambda>x. e\<lparr>cb_NodeID := x\<rparr>) (dec_string v (cb_NodeID e))
      else if t = ''reason'' then map_option (\<lambda>x. e\<lparr>cb_Reason := x\<rparr>) (dec_string v (cb_Reason e))
      else if t = ''signature_b64'' then map_option (\<lambda>x. e\<lparr>cb_SignatureB64 := x\<rparr>) (dec_string v (cb_SignatureB64 e))
      else None)"

definition revb_zero :: revoke_body where
  "revb_zero = \<lparr>rb_Reason = [], rb_SignatureB64 = []\<rparr>"

definition revb_tags :: "string list" where
  "revb_tags = [''reason'', ''signature_b64'']"

definition revb_put :: "string \<Rightarrow> jtree \<Rightarrow> revoke_body \<Rightarrow> revoke_body option" where
  "revb_put t v e =
     (if t = ''reason'' then map_option (\<lambda>x. e\<lparr>rb_Reason := x\<rparr>) (dec_string v (rb_Reason e))
      else if t = ''signature_b64'' then map_option (\<lambda>x. e\<lparr>rb_SignatureB64 := x\<rparr>) (dec_string v (rb_SignatureB64 e))
      else None)"

definition peerb_zero :: peer_body where
  "peerb_zero = \<lparr>pb_NodeID = [], pb_Addr = [], pb_NodeScope = [], pb_Region = []\<rparr>"

definition peerb_tags :: "string list" where
  "peerb_tags = [''node_id'', ''addr'', ''node_scope'', ''region'']"

definition peerb_put :: "string \<Rightarrow> jtree \<Rightarrow> peer_body \<Rightarrow> peer_body option" where
  "peerb_put t v e =
     (if t = ''node_id'' then map_option (\<lambda>x. e\<lparr>pb_NodeID := x\<rparr>) (dec_string v (pb_NodeID e))
      else if t = ''addr'' then map_option (\<lambda>x. e\<lparr>pb_Addr := x\<rparr>) (dec_string v (pb_Addr e))
      else if t = ''node_scope'' then map_option (\<lambda>x. e\<lparr>pb_NodeScope := x\<rparr>) (dec_string v (pb_NodeScope e))
      else if t = ''region'' then map_option (\<lambda>x. e\<lparr>pb_Region := x\<rparr>) (dec_string v (pb_Region e))
      else None)"

definition conb_zero :: connect_body where
  "conb_zero = \<lparr>nb_OpaqueToken = [], nb_RequesterID = [], nb_RequesterRegion = []\<rparr>"

definition conb_tags :: "string list" where
  "conb_tags = [''opaque_token'', ''requester_id'', ''requester_region'']"

definition conb_put :: "string \<Rightarrow> jtree \<Rightarrow> connect_body \<Rightarrow> connect_body option" where
  "conb_put t v e =
     (if t = ''opaque_token'' then map_option (\<lambda>x. e\<lparr>nb_OpaqueToken := x\<rparr>) (dec_string v (nb_OpaqueToken e))
      else if t = ''requester_id'' then map_option (\<lambda>x. e\<lparr>nb_RequesterID := x\<rparr>) (dec_string v (nb_RequesterID e))
      else if t = ''requester_region'' then map_option (\<lambda>x. e\<lparr>nb_RequesterRegion := x\<rparr>) (dec_string v (nb_RequesterRegion e))
      else None)"

definition appb_zero :: app_body where
  "appb_zero = \<lparr>ab_AppID = [], ab_WebhookURL = [], ab_WebhookSecret = []\<rparr>"

definition appb_tags :: "string list" where
  "appb_tags = [''app_id'', ''webhook_url'', ''webhook_secret'']"

definition appb_put :: "string \<Rightarrow> jtree \<Rightarrow> app_body \<Rightarrow> app_body option" where
  "appb_put t v e =
     (if t = ''app_id'' then map_option (\<lambda>x. e\<lparr>ab_AppID := x\<rparr>) (dec_string v (ab_AppID e))
      else if t = ''webhook_url'' then map_option (\<lambda>x. e\<lparr>ab_WebhookURL := x\<rparr>) (dec_string v (ab_WebhookURL e))
      else if t = ''webhook_secret'' then map_option (\<lambda>x. e\<lparr>ab_WebhookSecret := x\<rparr>) (dec_string v (ab_WebhookSecret e))
      else None)"

definition adpb_zero :: CustomAdapterEntry where
  "adpb_zero = \<lparr>cae_SchemaType = [], cae_SchemaVersion = [], cae_Description = [], cae_AllowTiers = [],
     cae_RequireProfile = [], cae_Contact = [], cae_RegisteredAt = 0\<rparr>"

definition adpb_tags :: "string list" where
  "adpb_tags = [''schema_type'', ''schema_version'', ''description'', ''allow_tiers'', ''require_profile'',
     ''contact'', ''registered_at'']"

definition adpb_put :: "string \<Rightarrow> jtree \<Rightarrow> CustomAdapterEntry \<Rightarrow> CustomAdapterEntry option" where
  "adpb_put t v e =
     (if t = ''schema_type'' then map_option (\<lambda>x. e\<lparr>cae_SchemaType := x\<rparr>) (dec_string v (cae_SchemaType e))
      else if t = ''schema_version'' then map_option (\<lambda>x. e\<lparr>cae_SchemaVersion := x\<rparr>) (dec_string v (cae_SchemaVersion e))
      else if t = ''description'' then map_option (\<lambda>x. e\<lparr>cae_Description := x\<rparr>) (dec_string v (cae_Description e))
      else if t = ''allow_tiers'' then map_option (\<lambda>x. e\<lparr>cae_AllowTiers := x\<rparr>) (dec_strings v (cae_AllowTiers e))
      else if t = ''require_profile'' then map_option (\<lambda>x. e\<lparr>cae_RequireProfile := x\<rparr>) (dec_string v (cae_RequireProfile e))
      else if t = ''contact'' then map_option (\<lambda>x. e\<lparr>cae_Contact := x\<rparr>) (dec_string v (cae_Contact e))
      else if t = ''registered_at'' then map_option (\<lambda>x. e\<lparr>cae_RegisteredAt := x\<rparr>) (dec_int64 v (cae_RegisteredAt e))
      else None)"

definition tokb_zero :: token_body where
  "tokb_zero = \<lparr>tb_Scope = [], tb_TTLMinutes = 0\<rparr>"

definition tokb_tags :: "string list" where
  "tokb_tags = [''scope'', ''ttl_minutes'']"

definition tokb_put :: "string \<Rightarrow> jtree \<Rightarrow> token_body \<Rightarrow> token_body option" where
  "tokb_put t v e =
     (if t = ''scope'' then map_option (\<lambda>x. e\<lparr>tb_Scope := x\<rparr>) (dec_string v (tb_Scope e))
      else if t = ''ttl_minutes'' then map_option (\<lambda>x. e\<lparr>tb_TTLMinutes := x\<rparr>) (dec_int64 v (tb_TTLMinutes e))
      else None)"

text \<open>\<open>json.NewDecoder(r.Body).Decode(&req)\<close>.\<close>

definition decode_body :: "string list \<Rightarrow> (string \<Rightarrow> jtree \<Rightarrow> 'r \<Rightarrow> 'r option) \<Rightarrow> 'r \<Rightarrow> string \<Rightarrow> 'r option" where
  "decode_body tags put zero s = Option.bind (json_Decode s) (\<lambda>v. assign_object tags put v zero)"

text \<open>The body of \<open>PUT /api/v1/config\<close>; \<open>derr\<close> gives the text of the decoder's error.\<close>

definition decode_config :: "(string \<Rightarrow> string) \<Rightarrow> string \<Rightarrow> string + Config" where
  "decode_config derr s =
     (case Option.bind (json_Decode s) (\<lambda>v. dec_conf v conf_zero) of None \<Rightarrow> Inl (derr s) | Some c \<Rightarrow> Inr c)"

subsection \<open>Routes\<close>

datatype seg = Lit string | Var

fun match_path :: "seg list \<Rightarrow> string list \<Rightarrow> string list option" where
  "match_path [] [] = Some []"
| "match_path (Lit a # ps) (x # xs) = (if a = x then match_path ps xs else None)"
| "match_path (Var # ps) (x # xs) = (if x = '''' then None else map_option ((#) x) (match_path ps xs))"
| "match_path _ _ = None"

datatype target = Api http_call | ConfigSchemaDoc

record route =
  ro_method :: "string option" \<comment> \<open>\<open>None\<close>: any method\<close>
  ro_path :: "seg list"
  ro_call :: "string list \<Rightarrow> string \<Rightarrow> target"

definition any_route :: "string list \<Rightarrow> http_call \<Rightarrow> route" where
  "any_route p c = \<lparr>ro_method = None, ro_path = map Lit p, ro_call = (\<lambda>_ _. Api c)\<rparr>"

definition api_route :: "string \<Rightarrow> seg list \<Rightarrow> (string list \<Rightarrow> string \<Rightarrow> http_call) \<Rightarrow> route" where
  "api_route m p f = \<lparr>ro_method = Some m, ro_path = Lit ''api'' # Lit ''v1'' # p, ro_call = (\<lambda>vs b. Api (f vs b))\<rparr>"

definition routes :: "(string \<Rightarrow> string) \<Rightarrow> route list" where
  "routes derr =
     [any_route [''healthz''] Healthz,
      any_route [''readyz''] Readyz,
      any_route [''.well-known'', ''mrmi-audit''] WellKnownAudit,
      any_route [''peers'', ''audit''] PeersAudit,
      api_route ''GET'' [Lit ''status''] (\<lambda>_ _. GetStatus),
      api_route ''GET'' [Lit ''audit'', Lit ''latest''] (\<lambda>_ _. AuditLatest),
      api_route ''POST'' [Lit ''envelopes''] (\<lambda>_ b. PostEnvelopes (decode_body sndb_tags sndb_put sndb_zero b)),
      api_route ''GET'' [Lit ''dlq''] (\<lambda>_ _. GetDLQ),
      api_route ''DELETE'' [Lit ''dlq'', Var] (\<lambda>vs _. DeleteDLQ (hd vs)),
      api_route ''POST'' [Lit ''dlq'', Var, Lit ''replay''] (\<lambda>vs _. ReplayDLQ (hd vs)),
      api_route ''GET'' [Lit ''crl''] (\<lambda>_ _. GetCRL),
      api_route ''POST'' [Lit ''crl''] (\<lambda>_ b. PostCRL (decode_body crlb_tags crlb_put crlb_zero b)),
      api_route ''GET'' [Lit ''stream''] (\<lambda>_ _. GetStream),
      api_route ''POST'' [Lit ''peers'', Lit ''register'']
        (\<lambda>_ b. RegisterPeer (decode_body peerb_tags peerb_put peerb_zero b)),
      api_route ''GET'' [Lit ''peers''] (\<lambda>_ _. GetPeers),
      api_route ''POST'' [Lit ''dlq'', Var, Lit ''discard''] (\<lambda>vs _. DiscardDLQ (hd vs)),
      api_route ''POST'' [Lit ''config'', Lit ''reload''] (\<lambda>_ _. ConfigReload),
      api_route ''POST'' [Lit ''revoke'', Var] (\<lambda>vs b. RevokeNode (hd vs) (decode_body revb_tags revb_put revb_zero b)),
      api_route ''GET'' [Lit ''discover''] (\<lambda>_ _. DiscoverUsers),
      api_route ''POST'' [Lit ''connect''] (\<lambda>_ b. ConnectUser (decode_body conb_tags conb_put conb_zero b)),
      \<lparr>ro_method = Some ''GET'', ro_path = map Lit [''api'', ''v1'', ''config'', ''schema''], ro_call = (\<lambda>_ _. ConfigSchemaDoc)\<rparr>,
      api_route ''PUT'' [Lit ''config''] (\<lambda>_ b. PutConfig (decode_config derr b)),
      api_route ''GET'' [Lit ''apps''] (\<lambda>_ _. GetApps),
      api_route ''POST'' [Lit ''apps'', Lit ''register''] (\<lambda>_ b. RegisterApp (decode_body appb_tags appb_put appb_zero b)),
      api_route ''DELETE'' [Lit ''apps'', Var] (\<lambda>vs _. DeleteApp (hd vs)),
      api_route ''GET'' [Lit ''schema'', Lit ''adapters''] (\<lambda>_ _. GetAdapters),
      api_route ''POST'' [Lit ''schema'', Lit ''adapters''] (\<lambda>_ b. PostAdapter (decode_body adpb_tags adpb_put adpb_zero b)),
      api_route ''DELETE'' [Lit ''schema'', Lit ''adapters'', Var] (\<lambda>vs _. DeleteAdapter (hd vs)),
      api_route ''POST'' [Lit ''token''] (\<lambda>_ b. PostToken (decode_body tokb_tags tokb_put tokb_zero b))]"

text \<open>A pattern for \<open>GET\<close> also takes \<open>HEAD\<close>.\<close>

definition takes_method :: "route \<Rightarrow> string \<Rightarrow> bool" where
  "takes_method r m \<longleftrightarrow> (case ro_method r of None \<Rightarrow> True | Some m' \<Rightarrow> m' = m \<or> m' = ''GET'' \<and> m = ''HEAD'')"

definition matches :: "route \<Rightarrow> string \<Rightarrow> string list \<Rightarrow> bool" where
  "matches r m path \<longleftrightarrow> takes_method r m \<and> match_path (ro_path r) path \<noteq> None"

datatype routed = Target target | MethodNotAllowed | PageNotFound

definition find_route :: "(string \<Rightarrow> string) \<Rightarrow> string \<Rightarrow> string list \<Rightarrow> string \<Rightarrow> routed" where
  "find_route derr m path body =
     (case find (\<lambda>r. matches r m path) (routes derr) of
        Some r \<Rightarrow> Target (ro_call r (the (match_path (ro_path r) path)) body)
      | None \<Rightarrow> if \<exists>r \<in> set (routes derr). match_path (ro_path r) path \<noteq> None then MethodNotAllowed else PageNotFound)"

text \<open>
  The order of registration does not matter: no request matches two patterns of the table,
  so the multiplexer never has to prefer one.
\<close>

definition clash :: "seg \<Rightarrow> seg \<Rightarrow> bool" where
  "clash p q = (case (p, q) of (Lit a, Lit b) \<Rightarrow> a \<noteq> b | _ \<Rightarrow> False)"

lemma match_path_iff:
  "match_path ps xs \<noteq> None \<longleftrightarrow> list_all2 (\<lambda>p x. case p of Lit a \<Rightarrow> a = x | Var \<Rightarrow> x \<noteq> '''') ps xs"
  by (induction ps xs rule: match_path.induct) auto

lemma match_path_clash:
  assumes "match_path ps xs \<noteq> None" "match_path qs xs \<noteq> None"
  shows "length ps = length qs \<and> (\<forall>i < length ps. \<not> clash (ps ! i) (qs ! i))"
  using assms unfolding match_path_iff clash_def list_all2_conv_all_nth
  by (auto split: seg.splits)

definition disjoint_routes :: "route \<Rightarrow> route \<Rightarrow> bool" where
  "disjoint_routes r q \<longleftrightarrow>
     (\<exists>m m'. ro_method r = Some m \<and> ro_method q = Some m' \<and> m \<noteq> m' \<and> m \<noteq> ''HEAD'' \<and> m' \<noteq> ''HEAD'') \<or>
     length (ro_path r) \<noteq> length (ro_path q) \<or>
     list_ex (\<lambda>(p, q). clash p q) (zip (ro_path r) (ro_path q))"

lemma disjoint_routes_matches:
  assumes "disjoint_routes r q" "matches r m path" "matches q m path"
  shows False
  using assms match_path_clash [of "ro_path r" path "ro_path q"]
  by (auto simp: disjoint_routes_def matches_def takes_method_def list_ex_iff set_zip split: option.splits)

fun pairwise_disjoint :: "route list \<Rightarrow> bool" where
  "pairwise_disjoint [] = True"
| "pairwise_disjoint (r # rs) = (list_all (disjoint_routes r) rs \<and> pairwise_disjoint rs)"

lemma routes_disjoint: "pairwise_disjoint (routes derr)"
  unfolding routes_def pairwise_disjoint.simps list.pred_inject
  by (intro conjI TrueI; simp add: disjoint_routes_def api_route_def any_route_def clash_def)

lemma pairwise_disjoint_nth:
  "pairwise_disjoint rs \<Longrightarrow> i < length rs \<Longrightarrow> j < length rs \<Longrightarrow> i < j \<Longrightarrow> disjoint_routes (rs ! i) (rs ! j)"
proof (induction rs arbitrary: i j)
  case (Cons r rs)
  then show ?case by (cases i; cases j) (auto simp: list_all_length)
qed simp

theorem routes_unambiguous:
  assumes "i < length (routes derr)" "j < length (routes derr)"
    and "matches (routes derr ! i) m path" "matches (routes derr ! j) m path"
  shows "i = j"
  using assms pairwise_disjoint_nth [OF routes_disjoint] disjoint_routes_matches
  by (metis linorder_neqE_nat)

subsection \<open>Answers\<close>

definition decided_tree :: "SendResponse \<Rightarrow> jtree" where
  "decided_tree r =
     TObj [(''audit_root_hash'', TStr (rs_AuditRootHash r)), (''decision'', TStr (rs_Decision r)),
       (''node_id'', TStr (rs_NodeID r)), (''peer_audit_root_hash'', TStr (rs_PeerAuditRootHash r)),
       (''profile'', TStr (rs_Profile r)), (''reason'', TStr (rs_Reason r))]"

definition crl_tree :: "crlDTO \<Rightarrow> jtree" where
  "crl_tree d =
     TObj [(''node_id'', TStr (cd_NodeID d)), (''reason'', TStr (cd_Reason d)),
       (''sig_count'', TNum (show_int (int (cd_SigCount d)))), (''is_effective'', TBool (cd_IsEffective d)),
       (''revoked_at_unix'', TNum (show_int (cd_RevokedAt d)))]"

definition found_tree :: "DiscoveryResult \<Rightarrow> jtree" where
  "found_tree d =
     TObj [(''node_id'', TStr (rr_NodeID d)), (''app_id'', TStr (rr_AppID d)), (''user_id'', TStr (rr_UserID d)),
       (''display_hint'', TStr (rr_DisplayHint d)), (''region'', TStr (rr_Region d)),
       (''opaque_token'', TStr (rr_OpaqueToken d)), (''token_expires'', TNum (show_int (rr_TokenExpires d)))]"

definition connected_tree :: "ConnectResult \<Rightarrow> jtree" where
  "connected_tree c =
     TObj ([(''status'', TStr (rc_Status c))] @
       omit_if (rc_SessionID c = []) ''session_id'' (TStr (rc_SessionID c)) @
       omit_if (rc_ExpiresAt c = 0) ''expires_at'' (TNum (show_int (rc_ExpiresAt c))))"

text \<open>The tiers of a custom adapter are a nil slice when the registration left them out (\<open>nilt\<close>).\<close>

definition tiers_tree :: "bool \<Rightarrow> string list \<Rightarrow> jtree" where
  "tiers_tree isnil ts = (if isnil \<and> ts = [] then TNull else strings_tree ts)"

definition adapter_tree :: "(string \<Rightarrow> bool) \<Rightarrow> adapterDTO \<Rightarrow> jtree" where
  "adapter_tree nilt a =
     TObj ([(''schema_type'', TStr (ad_SchemaType a)), (''schema_version'', TStr (ad_SchemaVersion a)),
       (''builtin'', TBool (ad_Builtin a)), (''status'', TStr (ad_Status a)), (''description'', TStr (ad_Text a)),
       (''allow_tiers'', tiers_tree (\<not> ad_Builtin a \<and> nilt (ad_SchemaType a)) (ad_Tiers a)),
       (''allow_jurisdictions'', strings_tree (ad_AllowJurisdictions a)),
       (''require_profile'', TStr (ad_RequireProfile a)),
       (''hardcoded_constraints'', TBool (ad_HardcodedConstraints a))] @
       omit_if (ad_ContactInfo a = []) ''contact'' (TStr (ad_ContactInfo a)))"

definition entry_tree :: "(string \<Rightarrow> bool) \<Rightarrow> CustomAdapterEntry \<Rightarrow> jtree" where
  "entry_tree nilt e =
     TObj [(''schema_type'', TStr (cae_SchemaType e)), (''schema_version'', TStr (cae_SchemaVersion e)),
       (''description'', TStr (cae_Description e)),
       (''allow_tiers'', tiers_tree (nilt (cae_SchemaType e)) (cae_AllowTiers e)),
       (''require_profile'', TStr (cae_RequireProfile e)), (''contact'', TStr (cae_Contact e)),
       (''registered_at'', TNum (show_int (cae_RegisteredAt e)))]"

definition hash_tree :: "peercache_Entry \<Rightarrow> jtree" where
  "hash_tree e = TObj [(''root_hash'', TStr (pce_RootHash e)), (''timestamp'', TNum (show_int (pce_Timestamp e)))]"

text \<open>\<open>cause\<close> gives the texts of wrapped errors, \<open>ui\<close> the answers of the embedded file server.\<close>

record render =
  rn_cause :: "http_cause \<Rightarrow> string"
  rn_nilt :: "string \<Rightarrow> bool"
  rn_ui :: "string list \<Rightarrow> nat \<times> string"

fun answer_tree :: "render \<Rightarrow> http_body \<Rightarrow> jtree option" where
  "answer_tree R (JsonErrorOf what e) =
     Some (TObj [(''error'', TStr ((if what = '''' then '''' else what @ '': '') @ rn_cause R e))])"
| "answer_tree R (PeerHashes c) = Some (map_tree hash_tree c)"
| "answer_tree R (AuditRows es) = Some (if es = [] then TNull else list_tree (\<lambda>e. TObj (entry_fields e)) es)"
| "answer_tree R (Decided r) = Some (decided_tree r)"
| "answer_tree R (Replayed d reason) = Some (TObj [(''decision'', TStr d), (''reason'', TStr reason)])"
| "answer_tree R (CRLList ds) = Some (list_tree crl_tree ds)"
| "answer_tree R (Revocation node eff) = Some (TObj [(''is_effective'', TBool eff), (''node_id'', TStr node)])"
| "answer_tree R (PeerAdded addr) = Some (TObj [(''addr'', TStr addr), (''registered'', TBool True)])"
| "answer_tree R Reloaded = Some (TObj [(''reloaded'', TBool True)])"
| "answer_tree R (Found ds) = Some (list_tree found_tree ds)"
| "answer_tree R (Connected c) = Some (connected_tree c)"
| "answer_tree R (AppKey app key) = Some (TObj [(''api_key'', TStr key), (''app_id'', TStr app)])"
| "answer_tree R (AdapterList as) = Some (list_tree (adapter_tree (rn_nilt R)) as)"
| "answer_tree R (AdapterEntry e) = Some (entry_tree (rn_nilt R) e)"
| "answer_tree R b = body_tree b"

definition answer_text :: "render \<Rightarrow> http_response \<Rightarrow> nat \<times> string" where
  "answer_text R resp =
     (fst resp,
      case answer_tree R (snd resp) of
        Some t \<Rightarrow> Encode t
      | None \<Rightarrow> (case snd resp of Text t \<Rightarrow> if fst resp = 404 then t @ [CHR 0x0A] else t | _ \<Rightarrow> []))"

text \<open>The wrapper that sets the headers answers a preflight request before the path is looked at.\<close>

definition corsHeaders :: "(string \<times> string) list" where
  "corsHeaders =
     [(''Access-Control-Allow-Origin'', ''*''),
      (''Access-Control-Allow-Methods'', ''GET, POST, PUT, DELETE, OPTIONS''),
      (''Access-Control-Allow-Headers'', ''Content-Type, X-MRMI-Key, Authorization'')]"

definition plain_error :: "nat \<Rightarrow> string \<Rightarrow> nat \<times> string" where
  "plain_error code msg = (code, msg @ [CHR 0x0A])"

text \<open>The dashboard: \<open>/ui\<close> redirects to \<open>/ui/\<close>, below which the embedded files are served; reading only.\<close>

definition moved_page :: string where
  "moved_page = ''<a href='' @ [CHR 0x22] @ ''/ui/'' @ [CHR 0x22] @ ''>Moved Permanently</a>.'' @ [CHR 0x0A, CHR 0x0A]"

definition ui_answer :: "render \<Rightarrow> string \<Rightarrow> string list \<Rightarrow> nat \<times> string" where
  "ui_answer R m rest =
     (if m \<noteq> ''GET'' \<and> m \<noteq> ''HEAD'' then plain_error 405 ''Method Not Allowed''
      else if rest = [] then (301, if m = ''GET'' then moved_page else [])
      else rn_ui R rest)"

definition http_bytes ::
  "'w http_env \<Rightarrow> render \<Rightarrow> (string \<Rightarrow> string) \<Rightarrow> http_request \<Rightarrow> string list \<Rightarrow> string \<Rightarrow> http_server \<Rightarrow> 'w \<Rightarrow>
   (nat \<times> string) \<times> http_server \<times> 'w \<times> gw_event list" where
  "http_bytes E R derr r path body s w =
     (if rq_Method r = ''OPTIONS'' then ((204, []), s, w, [])
      else if path \<noteq> [] \<and> hd path = ''ui'' then (ui_answer R (rq_Method r) (tl path), s, w, [])
      else case find_route derr (rq_Method r) path body of
        PageNotFound \<Rightarrow> (plain_error 404 ''404 page not found'', s, w, [])
      | MethodNotAllowed \<Rightarrow> (plain_error 405 ''Method Not Allowed'', s, w, [])
      | Target (Api call) \<Rightarrow>
          (case ServeHTTP E r call s w of (resp, s', w', evs) \<Rightarrow> (answer_text R resp, s', w', evs))
      | Target ConfigSchemaDoc \<Rightarrow>
          if checkAuth (he_jwt E) (he_clk E 0) (api_APIKey (cfg_API (sv_cfg s))) (api_JWTSecret (cfg_API (sv_cfg s))) ''read'' r
          then ((200, schema_page), s, w, [])
          else (answer_text R (writeJSONError ''unauthorized'' 401), s, w, []))"

subsection \<open>The event stream\<close>

definition event_fields :: "inbox_Event \<Rightarrow> (string \<times> jtree) list" where
  "event_fields e =
     [(''idempotency_key'', TStr (ie_IdempotencyKey e)), (''sender_region'', TStr (ie_SenderRegion e)),
      (''recipient_region'', TStr (ie_RecipientRegion e)), (''trust_tier'', TNum (show_int (uint (ie_TrustTier e))))] @
     omit_if (ie_Payload e = []) ''payload'' (TStr (base64 (ie_Payload e))) @
     [(''timestamp'', TNum (show_int (ie_Timestamp e)))]"

definition stream_frame :: "inbox_Event \<Rightarrow> string" where
  "stream_frame e = ''data: '' @ enc_tree (TObj (event_fields e)) @ [CHR 0x0A, CHR 0x0A]"

text \<open>What a client of the stream does: it cuts the text at blank lines and reads each frame.\<close>

fun split_frames :: "string \<Rightarrow> string \<Rightarrow> string list" where
  "split_frames acc (c # d # s) =
     (if c = CHR 0x0A \<and> d = CHR 0x0A then rev acc # split_frames [] s else split_frames (c # acc) (d # s))"
| "split_frames acc _ = []"

definition evt_zero :: inbox_Event where
  "evt_zero = \<lparr>ie_IdempotencyKey = [], ie_SenderRegion = [], ie_RecipientRegion = [], ie_TrustTier = 0, ie_Payload = [],
     ie_Timestamp = 0\<rparr>"

definition evt_tags :: "string list" where
  "evt_tags = [''idempotency_key'', ''sender_region'', ''recipient_region'', ''trust_tier'', ''payload'', ''timestamp'']"

definition evt_put :: "string \<Rightarrow> jtree \<Rightarrow> inbox_Event \<Rightarrow> inbox_Event option" where
  "evt_put t v e =
     (if t = ''idempotency_key'' then map_option (\<lambda>x. e\<lparr>ie_IdempotencyKey := x\<rparr>) (dec_string v (ie_IdempotencyKey e))
      else if t = ''sender_region'' then map_option (\<lambda>x. e\<lparr>ie_SenderRegion := x\<rparr>) (dec_string v (ie_SenderRegion e))
      else if t = ''recipient_region'' then map_option (\<lambda>x. e\<lparr>ie_RecipientRegion := x\<rparr>) (dec_string v (ie_RecipientRegion e))
      else if t = ''trust_tier'' then map_option (\<lambda>x. e\<lparr>ie_TrustTier := x\<rparr>) (dec_uint32 v (ie_TrustTier e))
      else if t = ''payload'' then
        map_option (\<lambda>x. e\<lparr>ie_Payload := x\<rparr>) (map_option (case_option [] (\<lambda>x. x)) (dec_bytes v (ie_Payload e)))
      else if t = ''timestamp'' then map_option (\<lambda>x. e\<lparr>ie_Timestamp := x\<rparr>) (dec_int64 v (ie_Timestamp e))
      else None)"

definition read_frame :: "string \<Rightarrow> inbox_Event option" where
  "read_frame f = (if starts_with ''data: '' f then unmarshal evt_tags evt_put (drop 6 f) evt_zero else None)"

definition event_ok :: "inbox_Event \<Rightarrow> bool" where
  "event_ok e \<longleftrightarrow> utf8_valid (ie_IdempotencyKey e) \<and> utf8_valid (ie_SenderRegion e) \<and> utf8_valid (ie_RecipientRegion e) \<and>
     int64_range (ie_Timestamp e)"

lemma event_tree_ok: "event_ok e \<Longrightarrow> tree_ok 0 (TObj (event_fields e))"
  by (auto simp: event_fields_def event_ok_def omit_if_def max_depth_def is_ascii_def)

lemma event_assign: "event_ok e \<Longrightarrow> assign_members evt_tags evt_put (event_fields e) evt_zero = Some e"
  unfolding event_fields_def event_ok_def
  by (simp add: assign_members_append omit_if_def evt_tags_def evt_put_def evt_zero_def match_field_def)

text \<open>The encoder writes no newline: control characters of a text are escaped.\<close>

lemma hex_digit_newline:
  assumes "n < 16"
  shows "hex_digit n \<noteq> CHR 0x0A"
proof
  assume "hex_digit n = CHR 0x0A"
  then have "(of_char (hex_digit n) :: nat) = 10" by simp
  with assms show False by (auto simp: hex_digit_def split: if_splits)
qed

lemma esc_ascii_no_newline:
  assumes "is_ascii c"
  shows "CHR 0x0A \<notin> set (esc_ascii c)"
proof -
  have "(of_char c :: nat) div 16 < 16" using assms by (auto simp: is_ascii_def)
  then have "hex_digit (of_char c div 16) \<noteq> CHR 0x0A" "hex_digit (of_char c mod 16) \<noteq> CHR 0x0A"
    by (auto intro!: hex_digit_newline)
  then show ?thesis by (auto simp: esc_ascii_def)
qed

lemma esc_no_newline: "CHR 0x0A \<notin> set (esc s)"
proof (induction s rule: esc.induct)
  case (2 c cs)
  show ?case
  proof (cases "is_ascii c \<or> rune_len (c # cs) = 0")
    case True
    with 2 show ?thesis using esc_ascii_no_newline [of c] by auto
  next
    case False
    with rune_len_high [of c cs] have "\<forall>x \<in> set (c # take (rune_len (c # cs) - 1) cs). x \<noteq> CHR 0x0A"
      by (auto simp: is_ascii_def)
    with False 2 show ?thesis by (subst esc.simps) auto
  qed
qed simp

lemma show_int_no_newline: "CHR 0x0A \<notin> set (show_int i)"
  using show_nat_digits by (auto simp: show_int_def is_digit_def) fastforce+

lemma jstr_no_newline: "CHR 0x0A \<notin> set (jstr s)"
  by (simp add: jstr_def esc_no_newline)

lemma enc_no_newline:
  "tree_ok d t \<Longrightarrow> CHR 0x0A \<notin> set (enc_tree t)"
  "\<forall>v \<in> set vs. tree_ok d v \<Longrightarrow> CHR 0x0A \<notin> set (enc_elems vs)"
  "\<forall>(k, v) \<in> set ms. tree_ok d v \<Longrightarrow> CHR 0x0A \<notin> set (enc_members ms)"
  by (induction t and vs and ms arbitrary: d and d and d rule: enc_tree_enc_elems_enc_members.induct)
    (auto simp: jstr_no_newline int_literal_def show_int_no_newline)

lemma split_frame:
  assumes "CHR 0x0A \<notin> set f"
  shows "split_frames acc (f @ [CHR 0x0A, CHR 0x0A] @ s) = (rev acc @ f) # split_frames [] s"
  using assms
proof (induction f arbitrary: acc)
  case (Cons c f)
  then show ?case by (cases f) auto
qed simp

text \<open>
  The event stream is framed: from the text of any sequence of events a client that cuts it
  at blank lines reads back exactly the events, in their order, whatever bytes their payloads
  hold.
\<close>

theorem stream_round_trip:
  assumes "list_all event_ok es"
  shows "map read_frame (split_frames [] (concat (map stream_frame es))) = map Some es"
  using assms
proof (induction es)
  case (Cons e es)
  let ?j = "enc_tree (TObj (event_fields e))"
  have ok: "tree_ok 0 (TObj (event_fields e))" using Cons.prems by (intro event_tree_ok) simp
  have "CHR 0x0A \<notin> set (''data: '' @ ?j)" using enc_no_newline(1) [OF ok] by simp
  from split_frame [OF this, of "[]" "concat (map stream_frame es)"]
  have "split_frames [] (concat (map stream_frame (e # es))) = (''data: '' @ ?j) # split_frames [] (concat (map stream_frame es))"
    by (simp add: stream_frame_def del: enc_tree.simps)
  moreover have "read_frame (''data: '' @ ?j) = Some e"
    using unmarshal_enc [OF ok, of evt_tags evt_put evt_zero] event_assign [of e] Cons.prems
    by (simp add: read_frame_def del: enc_tree.simps)
  ultimately show ?case using Cons by simp
qed simp

definition demo_events :: "inbox_Event list" where
  "demo_events =
     [\<lparr>ie_IdempotencyKey = ''k1'', ie_SenderRegion = ''RS'', ie_RecipientRegion = ''RU'', ie_TrustTier = 2,
       ie_Payload = [CHR 0x0A, CHR 0x0A], ie_Timestamp = 5\<rparr>,
      \<lparr>ie_IdempotencyKey = [CHR 0x0A], ie_SenderRegion = '''', ie_RecipientRegion = '''', ie_TrustTier = 0,
       ie_Payload = [], ie_Timestamp = 0\<rparr>]"

theorem stream_round_trip_witness:
  "map read_frame (split_frames [] (concat (map stream_frame demo_events))) = map Some demo_events"
  by (rule stream_round_trip) (simp add: demo_events_def event_ok_def is_ascii_def int64_range_def)

subsection \<open>Posting an envelope\<close>

text \<open>The document a client posts for a body.\<close>

definition send_doc :: "send_body \<Rightarrow> (string \<times> jtree) list" where
  "send_doc b =
     [(''idempotency_key'', TStr (sb_IdempotencyKey b)), (''sender_region'', TStr (sb_SenderRegion b)),
      (''recipient_region'', TStr (sb_RecipientRegion b)), (''trust_tier'', TNum (show_int (uint (sb_TrustTier b)))),
      (''payload'', TStr (base64 (sb_Payload b))), (''sender_identity'', TStr (base64 (sb_SenderIdentity b)))]"

definition send_body_ok :: "send_body \<Rightarrow> bool" where
  "send_body_ok b \<longleftrightarrow> utf8_valid (sb_IdempotencyKey b) \<and> utf8_valid (sb_SenderRegion b) \<and> utf8_valid (sb_RecipientRegion b)"

lemma json_Decode_parse: "parse_json s = Some v \<Longrightarrow> json_Decode s = Some v"
  by (auto simp: parse_json_def json_Decode_def split: option.splits if_splits prod.splits)

lemma decode_send_doc:
  assumes "send_body_ok b"
  shows "decode_body sndb_tags sndb_put sndb_zero (enc_tree (TObj (send_doc b))) = Some b"
proof -
  have ok: "tree_ok 0 (TObj (send_doc b))"
    using assms by (auto simp: send_doc_def send_body_ok_def max_depth_def is_ascii_def)
  have "assign_members sndb_tags sndb_put (send_doc b) sndb_zero = Some b"
    using assms by (simp add: send_doc_def send_body_ok_def sndb_tags_def sndb_put_def sndb_zero_def match_field_def)
  then show ?thesis
    unfolding decode_body_def json_Decode_parse [OF parse_json_enc [OF ok]] by (simp add: assign_object_def)
qed

text \<open>
  A posted envelope reaches the gateway: the bytes of the document of a body are answered by
  the handler of envelopes on that body.
\<close>

theorem post_envelope_bytes:
  assumes "send_body_ok b" "rq_Method r = ''POST''"
  shows "http_bytes E R derr r [''api'', ''v1'', ''envelopes''] (enc_tree (TObj (send_doc b))) s w =
    (case handle_envelopes E (Some b) s w of (resp, s', w', evs) \<Rightarrow> (answer_text R resp, s', w', evs))"
proof -
  have "find_route derr ''POST'' [''api'', ''v1'', ''envelopes''] (enc_tree (TObj (send_doc b))) =
      Target (Api (PostEnvelopes (Some b)))"
    using decode_send_doc [OF assms(1)]
    by (simp add: find_route_def routes_def matches_def takes_method_def any_route_def api_route_def del: enc_tree.simps)
  then show ?thesis using assms(2) by (simp add: http_bytes_def ServeHTTP_def mux_def)
qed

end
