(* ===== verification/Http_Config.thy ===== *)
theory Http_Config
  imports Http_Bytes Http_Props
begin

text \<open>
  \<open>PUT /api/v1/config\<close> from the bytes of the request to the policy engine. The document of a
  complete configuration puts the engine on exactly that configuration if it is valid and
  changes nothing otherwise; a document made of the sections that the published schema
  describes is always refused, because the schema leaves out sections that \<open>Validate\<close> requires.
\<close>

definition config_path :: "string list" where
  "config_path = [''api'', ''v1'', ''config'']"

lemma hd_config_path [simp]: "hd config_path = ''api''"
  by (simp add: config_path_def)

lemma find_put_config:
  "find_route derr ''PUT'' config_path body = Target (Api (PutConfig (decode_config derr body)))"
  by (simp add: find_route_def routes_def matches_def takes_method_def any_route_def api_route_def config_path_def)

lemma put_config_bytes:
  assumes "rq_Method r = ''PUT''" "authority E r s ''operator''"
  shows "http_bytes E R derr r config_path body s w =
    (case handle_put_config E (decode_config derr body) s of (resp, s') \<Rightarrow> (answer_text R resp, s', w, []))"
  using assms
  by (simp add: http_bytes_def find_put_config ServeHTTP_def mux_def with_scope_authority writing_def split: prod.splits)

subsection \<open>Decoded maps\<close>

lemma assign_object_inv:
  assumes "assign_object tags put v r = Some r'" "P r" "\<And>t v r r'. put t v r = Some r' \<Longrightarrow> P r \<Longrightarrow> P r'"
  shows "P r'"
proof -
  have "assign_members tags put ms r = Some r' \<Longrightarrow> P r \<Longrightarrow> P r'" for ms r
    by (induction ms arbitrary: r) (auto split: option.splits, blast dest: assms(3))
  with assms(1,2) show ?thesis by (auto simp: assign_object_def split: jtree.splits)
qed

lemma dec_netw_finite:
  assumes "dec_netw v n = Some n'" "finite (dom (nw_Peers n))"
  shows "finite (dom (nw_Peers n'))"
  by (rule assign_object_inv [OF assms(1) [unfolded dec_netw_def], where P = "\<lambda>n. finite (dom (nw_Peers n))"])
    (use assms(2) in \<open>auto simp: netw_put_def dest: dec_map_finite split: if_splits\<close>)

lemma dec_conf_finite:
  assumes "dec_conf v c = Some c'" "config_finite c"
  shows "config_finite c'"
  by (rule assign_object_inv [OF assms(1) [unfolded dec_conf_def]])
    (use assms(2) in \<open>auto simp: conf_put_def config_finite_def dest: dec_netw_finite split: if_splits\<close>)

lemma decode_config_finite: "decode_config derr body = Inr c \<Longrightarrow> config_finite c"
  by (auto simp: decode_config_def bind_eq_Some_conv config_finite_def conf_zero_def netw_zero_def
      dest!: dec_conf_finite split: option.splits)

lemma find_mem: "find P xs = Some x \<Longrightarrow> x \<in> set xs"
  by (auto simp: find_Some_iff)

lemma routed_config_finite:
  assumes "find_route derr m path body = Target (Api (PutConfig (Inr c)))"
  shows "config_finite c"
proof -
  obtain r vs where "r \<in> set (routes derr)" "ro_call r vs body = Api (PutConfig (Inr c))"
    using assms find_mem [of _ "routes derr"] by (auto simp: find_route_def split: option.splits if_splits)
  then have "decode_config derr body = Inr c"
    by (auto simp: routes_def any_route_def api_route_def)
  then show ?thesis by (rule decode_config_finite)
qed

text \<open>Range loops visit every key once, and a loaded file has finitely many peers.\<close>

definition orders_ok :: "'w http_env \<Rightarrow> bool" where
  "orders_ok E \<longleftrightarrow>
     (\<forall>A. finite A \<longrightarrow> distinct (he_order E A) \<and> set (he_order E A) = A) \<and> (\<forall>cfg. he_load E = Inr cfg \<longrightarrow> config_finite cfg)"

lemma routed_env_ok:
  assumes "orders_ok E" "find_route derr m path body = Target (Api call)"
  shows "env_ok E call"
  using assms routed_config_finite [of derr m path body] by (auto simp: orders_ok_def env_ok_def)

lemma http_bytes_cases:
  assumes "orders_ok E" "http_bytes E R derr r path body s w = (resp, s', w', evs)"
  obtains (same) "s' = s" "w' = w" "evs = []"
  | (serve) call hresp where "env_ok E call" "ServeHTTP E r call s w = (hresp, s', w', evs)" "resp = answer_text R hresp"
proof (cases "find_route derr (rq_Method r) path body")
  case (Target t)
  show thesis
  proof (cases t)
    case (Api call)
    with Target assms that routed_env_ok [OF assms(1), of derr "rq_Method r" path body call] show thesis
      by (auto simp: http_bytes_def split: if_splits prod.splits)
  qed (use Target assms(2) same in \<open>auto simp: http_bytes_def split: if_splits\<close>)
qed (use assms(2) same in \<open>auto simp: http_bytes_def split: if_splits\<close>)

subsection \<open>Complete documents\<close>

lemma decode_config_doc:
  assumes "conf_ok c"
  shows "decode_config derr (enc_tree (conf_doc c)) = Inr c"
proof -
  have "tree_ok 0 (conf_doc c)" using conf_codec.enc_ok [OF assms] by (simp add: max_depth_def)
  then have "json_Decode (enc_tree (conf_doc c)) = Some (conf_doc c)"
    using parse_json_enc json_Decode_parse by (metis conf_doc_def)
  with conf_codec.dec_enc [OF assms] show ?thesis by (simp add: decode_config_def)
qed

text \<open>\<open>put_policy\<close>: the server whose engine is on the given configuration, and nothing else changed.\<close>

definition put_policy :: "Config \<Rightarrow> http_server \<Rightarrow> http_server" where
  "put_policy c s = s\<lparr>sv_gw := (sv_gw s)\<lparr>gw_policyCfg := c\<rparr>\<rparr>"

lemma handle_put_config_Inr:
  assumes "sv_OnConfigSave s" "enumerates (he_order E (dom (nw_Peers (cfg_Network c)))) (nw_Peers (cfg_Network c))"
  shows "config_ok c \<Longrightarrow> handle_put_config E (Inr c) s = ((204, NoBody), put_policy c s)"
    and "\<not> config_ok c \<Longrightarrow> \<exists>e. handle_put_config E (Inr c) s = ((400, JsonErrorOf ''config save failed'' e), s)"
  using assms Validate_None_iff [OF assms(2)]
  by (auto simp: handle_put_config_def onConfigSave_def Reload_def engine_of_def put_engine_def put_policy_def Let_def
      split: option.splits)

subsection \<open>Documents of the published schema\<close>

text \<open>A member that the decoder of the whole configuration never assigns keeps its zero value.\<close>

lemma assign_members_keeps:
  assumes "assign_members tags put ms r = Some r'"
    and "\<And>k t. k \<in> fst ` set ms \<Longrightarrow> match_field tags k = Some t \<Longrightarrow> t \<in> T"
    and "\<And>t v r r'. t \<in> T \<Longrightarrow> put t v r = Some r' \<Longrightarrow> f r' = f r"
  shows "f r' = f r"
  using assms(1,2)
proof (induction ms arbitrary: r)
  case (Cons m ms)
  obtain k v where m: "m = (k, v)" by (cases m)
  show ?case
  proof (cases "match_field tags k")
    case None
    with Cons m show ?thesis by auto
  next
    case (Some t)
    then obtain r1 where p: "put t v r = Some r1" "assign_members tags put ms r1 = Some r'"
      using Cons.prems(1) m by (auto split: option.splits)
    have "f r' = f r1" by (rule Cons.IH [OF p(2)]) (use Cons.prems(2) in auto)
    moreover have "t \<in> T" using Cons.prems(2) [of k t] Some m by simp
    ultimately show ?thesis using assms(3) p(1) by metis
  qed
qed simp

definition no_profile :: "(string \<times> jtree) list \<Rightarrow> bool" where
  "no_profile ms \<longleftrightarrow> (\<forall>k \<in> fst ` set ms. match_field conf_tags k \<noteq> Some ''Profile'')"

lemma match_field_in: "match_field tags k = Some t \<Longrightarrow> t \<in> set tags"
  by (auto simp: match_field_def find_Some_iff split: if_splits)

lemma no_profile_decoded:
  assumes "no_profile ms" "dec_conf (TObj ms) conf_zero = Some c"
  shows "cfg_Profile c = prof_zero"
proof -
  have "cfg_Profile c = cfg_Profile conf_zero"
  proof (rule assign_members_keeps [where T = "set conf_tags - {''Profile''}" and put = conf_put and tags = conf_tags and ms = ms])
    show "assign_members conf_tags conf_put ms conf_zero = Some c"
      using assms(2) by (simp add: dec_conf_def assign_object_def)
  next
    fix k t
    assume "k \<in> fst ` set ms" "match_field conf_tags k = Some t"
    with assms(1) match_field_in show "t \<in> set conf_tags - {''Profile''}" by (auto simp: no_profile_def)
  qed (auto simp: conf_put_def split: if_splits)
  then show ?thesis by (simp add: conf_zero_def)
qed

lemma no_profile_invalid: "cfg_Profile c = prof_zero \<Longrightarrow> Validate ks c \<noteq> None"
  by (simp add: Validate_def validate_required_def prof_zero_def blank_def)

lemma no_profile_refused:
  assumes "tree_ok 0 (TObj ms)" "no_profile ms" "sv_OnConfigSave s"
  shows "\<exists>what e. handle_put_config E (decode_config derr (enc_tree (TObj ms))) s = ((400, JsonErrorOf what e), s)"
proof -
  have d: "json_Decode (enc_tree (TObj ms)) = Some (TObj ms)"
    by (rule json_Decode_parse [OF parse_json_enc [OF assms(1)]])
  show ?thesis
  proof (cases "dec_conf (TObj ms) conf_zero")
    case (Some c)
    then obtain e where "Validate (he_order E (dom (nw_Peers (cfg_Network c)))) c = Some e"
      using no_profile_decoded [OF assms(2)] no_profile_invalid by blast
    with Some d assms(3) show ?thesis
      by (simp add: decode_config_def handle_put_config_def onConfigSave_def)
  qed (use d assms(3) in \<open>simp add: decode_config_def handle_put_config_def\<close>)
qed

text \<open>The sections that the published schema describes.\<close>

definition schema_sections :: "string list" where
  "schema_sections =
     (case configSchema of
        TObj fs \<Rightarrow> (case map_of fs ''properties'' of Some (TObj ps) \<Rightarrow> map fst ps | _ \<Rightarrow> [])
      | _ \<Rightarrow> [])"

subsection \<open>Properties\<close>

text \<open>
  C11. Every HTTP request, whatever its method, path, headers and bytes, acts on the gateway, the
  forwarder and their environment as a run of the gateway state machine whose times are
  readings of the clock; hence it keeps the invariant of the server: the audit log verifies,
  the deduplication index and the revocation list are well formed, the configuration of
  the engine is valid, the runtime tables file their entries under their own names (custom
  adapters under custom names) and no client queue exceeds its bound.
\<close>

theorem http_bytes_refine_gateway_runs:
  assumes "orders_ok E" "http_bytes E R derr r path body s w = (resp, s', w', evs)"
  shows "(\<exists>ls. gw_run (he_digest E) (gw_fwd E s) (sv_gw s, sv_fwd s, w) ls (sv_gw s', sv_fwd s', w') \<and>
      (\<forall>l \<in> set ls. \<forall>t. label_time l = Some t \<longrightarrow> (\<exists>i. t = he_clk E i))) \<and>
    (http_inv (he_digest E) s \<longrightarrow> http_inv (he_digest E) s')"
  using assms
proof (cases rule: http_bytes_cases)
  case same
  then have "gw_run (he_digest E) (gw_fwd E s) (sv_gw s, sv_fwd s, w) [] (sv_gw s', sv_fwd s', w')" by (simp add: run_nil)
  with same show ?thesis by fastforce
next
  case (serve call hresp)
  then show ?thesis using ServeHTTP_run [OF serve(1,2)] ServeHTTP_inv [OF serve(1,2)] by (auto simp: http_run_def)
qed

text \<open>A file of the dashboard is asked for.\<close>

definition dashboard_file :: "http_request \<Rightarrow> string list \<Rightarrow> bool" where
  "dashboard_file r path \<longleftrightarrow>
     rq_Method r \<in> {''GET'', ''HEAD''} \<and> path \<noteq> [] \<and> hd path = ''ui'' \<and> tl path \<noteq> []"

definition error_text :: "string \<Rightarrow> string" where
  "error_text msg = Encode (TObj [(''error'', TStr msg)])"

definition answer_shaped :: "nat \<times> string \<Rightarrow> bool" where
  "answer_shaped ans \<longleftrightarrow>
     fst ans \<in> {200, 201, 204, 301, 400, 401, 403, 404, 405, 500, 503} \<and>
     (fst ans = 204 \<longrightarrow> snd ans = []) \<and> (fst ans = 301 \<longrightarrow> snd ans \<in> {[], moved_page}) \<and>
     (400 \<le> fst ans \<longrightarrow> (\<exists>msg. snd ans = error_text msg) \<or>
        ans \<in> {plain_error 404 ''404 page not found'', plain_error 405 ''Method Not Allowed''}) \<and>
     (fst ans = 405 \<longrightarrow> ans = plain_error 405 ''Method Not Allowed'')"

lemma error_body_text: "is_error_body b \<Longrightarrow> \<exists>msg. snd (answer_text R (code, b)) = error_text msg"
  by (cases b) (auto simp: answer_text_def body_tree_def error_text_def)

lemma answer_text_shaped:
  assumes "well_shaped resp"
  shows "answer_shaped (answer_text R resp)"
proof (cases "400 \<le> fst resp")
  case True
  obtain code b where r: "resp = (code, b)" by force
  have "is_error_body b \<or> resp = (404, Text ''404 page not found'')" using assms True by (simp add: well_shaped_def r)
  then show ?thesis
  proof
    assume "is_error_body b"
    with error_body_text [of b R code] assms True show ?thesis
      by (auto simp: answer_shaped_def well_shaped_def r answer_text_def)
  next
    assume "resp = (404, Text ''404 page not found'')"
    then show ?thesis by (simp add: answer_shaped_def answer_text_def plain_error_def body_tree_def)
  qed
next
  case False
  with assms show ?thesis by (auto simp: answer_shaped_def well_shaped_def answer_text_def body_tree_def)
qed

text \<open>
  C33. The shape of every answer on bytes, whatever the method, path, headers and body. A file
  below \<open>/ui/\<close> is answered by the file server of the dashboard. Every other answer has one of eleven
  statuses: 204 comes without a body, 301 with the link to the dashboard or nothing, 405 with its
  plain text, and any other error carries a JSON object with the one field \<open>error\<close>, except for the
  plain text of a page that is not there (404).
\<close>

theorem http_answer_shape:
  "if dashboard_file r path then fst (http_bytes E R derr r path body s w) = rn_ui R (tl path)
   else answer_shaped (fst (http_bytes E R derr r path body s w))"
proof (cases "rq_Method r = ''OPTIONS'' \<or> path \<noteq> [] \<and> hd path = ''ui''")
  case True
  then show ?thesis
    by (auto simp: http_bytes_def dashboard_file_def ui_answer_def answer_shaped_def plain_error_def)
next
  case False
  have u: "answer_shaped (answer_text R (writeJSONError ''unauthorized'' 401))" by (intro answer_text_shaped fixed_shapes)
  have "answer_shaped (fst (http_bytes E R derr r path body s w))"
  proof (cases "find_route derr (rq_Method r) path body")
    case (Target t)
    show ?thesis
    proof (cases t)
      case (Api call)
      obtain resp s' w' evs where S: "ServeHTTP E r call s w = (resp, s', w', evs)" by (rule prod_cases4)
      have "well_shaped resp" using http_response_shape [of E r call s w] S by simp
      from answer_text_shaped [OF this] show ?thesis using False Target Api S by (auto simp: http_bytes_def)
    qed (use False Target u in \<open>auto simp: http_bytes_def answer_shaped_def\<close>)
  qed (use False in \<open>auto simp: http_bytes_def answer_shaped_def plain_error_def\<close>)
  with False show ?thesis by (auto simp: dashboard_file_def)
qed

text \<open>
  C29. Saving a configuration through the API: the JSON text of a complete configuration, sent with
  operator authority, is answered with 204 and puts the policy engine on exactly that configuration
  when it is valid, and is answered with 400 and changes nothing when it is not.
\<close>

theorem put_config_exact:
  assumes "conf_ok c" "rq_Method r = ''PUT''" "authority E r s ''operator''" "sv_OnConfigSave s"
    and "enumerates (he_order E (dom (nw_Peers (cfg_Network c)))) (nw_Peers (cfg_Network c))"
  shows "\<exists>body. http_bytes E R derr r [''api'', ''v1'', ''config''] (enc_tree (conf_doc c)) s w =
    (if config_ok c then ((204, []), put_policy c s, w, []) else ((400, body), s, w, []))"
  using put_config_bytes [OF assms(2,3)] decode_config_doc [OF assms(1)] handle_put_config_Inr [OF assms(4,5)]
  by (auto simp: config_path_def answer_text_def body_tree_def)

definition demo_put :: http_request where
  "demo_put = demo_keyed\<lparr>rq_Method := ''PUT''\<rparr>"

definition demo_peered :: Config where
  "demo_peered = DefaultBalancedConfig\<lparr>cfg_Network := (cfg_Network DefaultBalancedConfig)
     \<lparr>nw_Peers := [''RU'' \<mapsto> \<lparr>pc_Region = ''RU'', pc_Addr = ''ru:7777'', pc_NodeScope = ''regional'', pc_Regions = []\<rparr>]\<rparr>\<rparr>"

definition demo_render :: render where
  "demo_render = \<lparr>rn_cause = \<lambda>_. [], rn_nilt = \<lambda>_. False, rn_ui = \<lambda>_. (404, [])\<rparr>"

lemma demo_put_authority: "authority (demo_http_env ord) demo_put demo_server ''operator''"
  by (simp add: authority_def credential_of_def demo_put_def demo_keyed_def demo_get_def demo_server_def demo_api_def)

lemma demo_peered_ok: "conf_ok demo_peered"
  by (simp add: conf_ok_def demo_peered_def nodecfg_ok_def prof_ok_def polc_ok_def outb_ok_def inbp_ok_def audp_ok_def rout_ok_def
      disc_ok_def conn_ok_def jiso_ok_def netw_ok_def peerc_ok_def tlsc_ok_def apic_ok_def stor_ok_def sreg_ok_def isoa_ok_def
      map_ok_def cfg_defs duration_defs int64_range_def utf8_valid_ascii is_ascii_def zero_iso_def)

lemma demo_orders_ok: "orders_ok (demo_http_env sorted_list_of_set)"
  by (simp add: orders_ok_def demo_http_env_def config_finite_def DefaultBalancedConfig_def DefaultConfigForProfile_def
      preset_base_def Let_def)

theorem http_bytes_refine_gateway_runs_witness:
  "\<exists>resp s' evs. http_bytes (demo_http_env sorted_list_of_set) demo_render (\<lambda>_. []) demo_keyed
      [''api'', ''v1'', ''peers'', ''register''] ''{}'' demo_server () = (resp, s', (), evs) \<and> http_inv (\<lambda>x. x) s'"
proof -
  let ?res = "http_bytes (demo_http_env sorted_list_of_set) demo_render (\<lambda>_. []) demo_keyed
      [''api'', ''v1'', ''peers'', ''register''] ''{}'' demo_server ()"
  obtain resp s' u evs where r: "?res = (resp, s', u, evs)" by (rule prod_cases4)
  have "http_inv (he_digest (demo_http_env sorted_list_of_set)) s'"
    using http_bytes_refine_gateway_runs [OF demo_orders_ok r] demo_server_inv by blast
  then have "http_inv (\<lambda>x. x) s'" by (simp add: demo_http_env_def)
  then show ?thesis using r by auto
qed

theorem put_config_exact_witness:
  "config_ok demo_peered \<and>
   http_bytes (demo_http_env (\<lambda>_. [''RU''])) demo_render (\<lambda>_. []) demo_put
     [''api'', ''v1'', ''config''] (enc_tree (conf_doc demo_peered)) demo_server () =
   ((204, []), put_policy demo_peered demo_server, (), [])"
proof
  have "\<not> blank ''ru:7777''" by (rule not_blank_graphic; simp add: graphic_def)
  then show ok: "config_ok demo_peered" using DefaultConfigForProfile_ok [of "''balanced''"]
    by (simp add: config_ok_def demo_peered_def DefaultBalancedConfig_def peer_ok_def valid_tier_def)
  show "http_bytes (demo_http_env (\<lambda>_. [''RU''])) demo_render (\<lambda>_. []) demo_put
     [''api'', ''v1'', ''config''] (enc_tree (conf_doc demo_peered)) demo_server () =
   ((204, []), put_policy demo_peered demo_server, (), [])"
    using put_config_exact [OF demo_peered_ok _ demo_put_authority, of "\<lambda>_. [''RU'']" demo_render
        "\<lambda>_. []" "()"] ok
    by (simp add: demo_put_def demo_server_def demo_http_env_def demo_peered_def enumerates_def)
qed

text \<open>
  C36. A configuration document made of the sections of the published schema cannot be saved: the
  schema describes Node, Policy and Storage only, so whatever such a document holds, the profile of
  the decoded configuration is empty and \<open>PUT /api/v1/config\<close> answers 400 and changes nothing.
\<close>

theorem schema_document_refused:
  assumes "tree_ok 0 (TObj ms)" "fst ` set ms \<subseteq> set schema_sections"
    and "rq_Method r = ''PUT''" "authority E r s ''operator''" "sv_OnConfigSave s"
  shows "\<exists>body. http_bytes E R derr r [''api'', ''v1'', ''config''] (enc_tree (TObj ms)) s w = ((400, body), s, w, [])"
proof -
  have "no_profile ms" using assms(2)
    by (auto simp: no_profile_def schema_sections_def configSchema_def match_field_def conf_tags_def)
  then obtain what e where
    "handle_put_config E (decode_config derr (enc_tree (TObj ms))) s = ((400, JsonErrorOf what e), s)"
    using no_profile_refused [OF assms(1) _ assms(5)] by blast
  with put_config_bytes [OF assms(3,4)] show ?thesis
    by (simp add: config_path_def answer_text_def del: enc_tree.simps)
qed

theorem schema_document_refused_witness:
  "conforms configSchema (TObj [(''Node'', TObj demo_node_doc)]) \<and>
   (\<exists>body. http_bytes (demo_http_env (\<lambda>_. [])) demo_render (\<lambda>_. []) demo_put
      [''api'', ''v1'', ''config''] (enc_tree (TObj [(''Node'', TObj demo_node_doc)])) demo_server () =
    ((400, body), demo_server, (), []))"
proof
  show "conforms configSchema (TObj [(''Node'', TObj demo_node_doc)])"
    by (simp add: configSchema_def node_schema_def section_of_def one_of_def typed_def demo_node_doc_def enum_ok_def
        in_bounds_def required_ok_def)
  show "\<exists>body. http_bytes (demo_http_env (\<lambda>_. [])) demo_render (\<lambda>_. []) demo_put
      [''api'', ''v1'', ''config''] (enc_tree (TObj [(''Node'', TObj demo_node_doc)])) demo_server () =
    ((400, body), demo_server, (), [])"
    by (rule schema_document_refused [OF _ _ _ demo_put_authority])
      (simp_all add: demo_node_doc_def max_depth_def is_ascii_def schema_sections_def configSchema_def demo_put_def demo_server_def)
qed

end
