(* ===== verification/Platform.thy ===== *)
theory Platform
  imports Config
begin

text \<open>
  What a node sets up from its configuration before it serves: the TLS material of
  \<open>tlsutil/tls.go\<close>, the logger of \<open>logger/logger.go\<close> and the DNS TXT publisher of
  \<open>dnstxt/publisher.go\<close>. Loading a key pair, reading a file and parsing certificates are
  parameters; a logger is its level and handler. What a publisher writes is its result.
\<close>

definition nl :: string where "nl = [CHR 0x0A]"

subsection \<open>TLS\<close>

record tls_lib =
  tl_LoadX509KeyPair :: "string \<Rightarrow> string \<Rightarrow> string + string"
  tl_ReadFile :: "string \<Rightarrow> string + string"
  tl_CertsFromPEM :: "string \<Rightarrow> string list" \<comment> \<open>empty: no valid certificate\<close>

datatype client_auth = NoClientCert | RequireAndVerifyClientCert

datatype tls_error = CertKeyPair | LoadKeyPair string | ReadCA string | NoCertsInCA string

record tls_Config =
  tc_MinVersion :: nat
  tc_ClientAuth :: client_auth
  tc_Certificates :: "string list"
  tc_RootCAs :: "string list option"
  tc_ClientCAs :: "string list option"

definition VersionTLS13 :: nat where "VersionTLS13 = 0x0304"

definition buildTLSConfig :: "tls_lib \<Rightarrow> TLSConfig \<Rightarrow> client_auth \<Rightarrow> tls_error + tls_Config" where
  "buildTLSConfig L cfg clientAuth =
     (let t0 = \<lparr>tc_MinVersion = VersionTLS13, tc_ClientAuth = clientAuth, tc_Certificates = [],
                tc_RootCAs = None, tc_ClientCAs = None\<rparr>;
          t1 = (if tls_Cert cfg = '''' \<and> tls_Key cfg = '''' then Inr t0
                else if tls_Cert cfg = '''' \<or> tls_Key cfg = '''' then Inl CertKeyPair
                else case tl_LoadX509KeyPair L (tls_Cert cfg) (tls_Key cfg) of
                  Inl err \<Rightarrow> Inl (LoadKeyPair err)
                | Inr cert \<Rightarrow> Inr (t0\<lparr>tc_Certificates := [cert]\<rparr>))
      in case t1 of
           Inl err \<Rightarrow> Inl err
         | Inr t \<Rightarrow>
             if tls_CA cfg = '''' then Inr t
             else (case tl_ReadFile L (tls_CA cfg) of
                     Inl err \<Rightarrow> Inl (ReadCA err)
                   | Inr pem \<Rightarrow>
                       if tl_CertsFromPEM L pem = [] then Inl (NoCertsInCA (tls_CA cfg))
                       else Inr (t\<lparr>tc_RootCAs := Some (tl_CertsFromPEM L pem), tc_ClientCAs := Some (tl_CertsFromPEM L pem)\<rparr>)))"

definition LoadServerTLS :: "tls_lib \<Rightarrow> TLSConfig \<Rightarrow> tls_error + tls_Config option" where
  "LoadServerTLS L cfg =
     (if tls_Insecure cfg then Inr None
      else if tls_Cert cfg = '''' \<and> tls_Key cfg = '''' then Inr None
      else map_sum id Some (buildTLSConfig L cfg RequireAndVerifyClientCert))"

definition LoadClientTLS :: "tls_lib \<Rightarrow> TLSConfig \<Rightarrow> tls_error + tls_Config option" where
  "LoadClientTLS L cfg =
     (if tls_Insecure cfg then Inr None
      else if tls_Cert cfg = '''' \<and> tls_Key cfg = '''' \<and> tls_CA cfg = '''' then Inr None
      else map_sum id Some (buildTLSConfig L cfg NoClientCert))"

text \<open>
  A server that uses TLS at all presents a certificate, speaks TLS 1.3 or later and demands a
  client certificate; it serves in the clear exactly when it is told to or has no key pair.
\<close>

lemma server_tls_mutual:
  assumes "LoadServerTLS L cfg = Inr r"
  shows "(r = None \<longleftrightarrow> tls_Insecure cfg \<or> tls_Cert cfg = '''' \<and> tls_Key cfg = '''') \<and>
    (\<forall>t. r = Some t \<longrightarrow> tc_MinVersion t = VersionTLS13 \<and> tc_ClientAuth t = RequireAndVerifyClientCert \<and>
      length (tc_Certificates t) = 1 \<and> (tc_ClientCAs t = None \<longleftrightarrow> tls_CA cfg = ''''))"
  using assms by (auto simp: LoadServerTLS_def buildTLSConfig_def Let_def split: if_splits sum.splits)

text \<open>The server and the client of a node read the same certificate authorities.\<close>

lemma server_client_same_CA:
  assumes "LoadServerTLS L cfg = Inr (Some a)" "LoadClientTLS L cfg = Inr (Some b)"
  shows "tc_RootCAs b = tc_ClientCAs a \<and> tc_Certificates a = tc_Certificates b"
  using assms
  by (auto simp: LoadServerTLS_def LoadClientTLS_def buildTLSConfig_def Let_def split: if_splits sum.splits)

subsection \<open>Keys\<close>

text \<open>\<open>identity.GenerateKey\<close> returns the pair of the library, which has the public key first, the other way round.\<close>

definition identity_GenerateKey :: "string + string \<times> string \<Rightarrow> string + string \<times> string" where
  "identity_GenerateKey gen = map_sum id (\<lambda>(pub, priv). (priv, pub)) gen"

subsection \<open>Times\<close>

definition pad_int :: "nat \<Rightarrow> int \<Rightarrow> string" where
  "pad_int w x =
     (let ds = show_nat (nat \<bar>x\<bar>) in (if x < 0 then ''-'' else '''') @ replicate (w - length ds) (CHR ''0'') @ ds)"

text \<open>The civil date of a day number counted from 1970-01-01, and \<open>time.RFC3339\<close> in UTC.\<close>

definition civil :: "int \<Rightarrow> int \<times> int \<times> int" where
  "civil days =
     (let z = days + 719468; era = z div 146097; doe = z mod 146097;
          yoe = (doe - doe div 1460 + doe div 36524 - doe div 146096) div 365;
          doy = doe - (365 * yoe + yoe div 4 - yoe div 100);
          mp = (5 * doy + 2) div 153;
          m = (if mp < 10 then mp + 3 else mp - 9)
      in (yoe + era * 400 + (if m \<le> 2 then 1 else 0), m, doy - (153 * mp + 2) div 5 + 1))"

definition rfc3339 :: "int \<Rightarrow> string" where
  "rfc3339 t =
     (let (y, m, d) = civil (t div 86400); s = t mod 86400
      in pad_int 4 y @ ''-'' @ pad_int 2 m @ ''-'' @ pad_int 2 d @ ''T'' @ pad_int 2 (s div 3600) @ '':'' @
         pad_int 2 (s div 60 mod 60) @ '':'' @ pad_int 2 (s mod 60) @ ''Z'')"

subsection \<open>Logging\<close>

datatype log_level = LevelDebug | LevelInfo | LevelWarn | LevelError

text \<open>The numbers behind the levels of \<open>log/slog\<close>, which order them.\<close>

fun slog_value :: "log_level \<Rightarrow> int" where
  "slog_value LevelDebug = - 4"
| "slog_value LevelInfo = 0"
| "slog_value LevelWarn = 4"
| "slog_value LevelError = 8"

lemma slog_value_inj: "slog_value a = slog_value b \<longleftrightarrow> a = b"
  by (cases a; cases b) auto

instantiation log_level :: linorder
begin

definition less_eq_log_level :: "log_level \<Rightarrow> log_level \<Rightarrow> bool" where
  "less_eq_log_level a b \<longleftrightarrow> slog_value a \<le> slog_value b"

definition less_log_level :: "log_level \<Rightarrow> log_level \<Rightarrow> bool" where
  "less_log_level a b \<longleftrightarrow> slog_value a < slog_value b"

instance
  by standard (auto simp: less_eq_log_level_def less_log_level_def slog_value_inj)

end

datatype log_handler = JSONHandler log_level | TextHandler log_level

definition logger_Init :: "string \<Rightarrow> string \<Rightarrow> log_handler" where
  "logger_Init level format =
     (let lvl = (if level = ''debug'' then LevelDebug else if level = ''warn'' then LevelWarn
                 else if level = ''error'' then LevelError else LevelInfo)
      in if format = ''json'' then JSONHandler lvl else TextHandler lvl)"

text \<open>\<open>Info\<close>, \<open>Warn\<close>, \<open>Error\<close> and \<open>Debug\<close>: the handler drops what is below its level.\<close>

fun handler_level :: "log_handler \<Rightarrow> log_level" where
  "handler_level (JSONHandler l) = l"
| "handler_level (TextHandler l) = l"

definition logger_log :: "log_level \<Rightarrow> log_handler \<Rightarrow> string \<Rightarrow> (log_level \<times> string) list" where
  "logger_log l h msg = (if handler_level h \<le> l then [(l, msg)] else [])"

abbreviation "logger_Info \<equiv> logger_log LevelInfo"
abbreviation "logger_Warn \<equiv> logger_log LevelWarn"
abbreviation "logger_Error \<equiv> logger_log LevelError"
abbreviation "logger_Debug \<equiv> logger_log LevelDebug"

lemma logger_level_mono:
  "handler_level h \<le> handler_level h' \<Longrightarrow> set (logger_log l h' msg) \<subseteq> set (logger_log l h msg)"
  by (auto simp: logger_log_def dest: order_trans)

text \<open>An error is logged whatever the configuration says; a warning unless only errors were asked for.\<close>

lemma logger_Init_error: "logger_Error (logger_Init level format) msg = [(LevelError, msg)]"
  by (simp add: logger_log_def logger_Init_def Let_def less_eq_log_level_def)

lemma logger_Init_warn: "logger_Warn (logger_Init level format) msg = [(LevelWarn, msg)] \<longleftrightarrow> level \<noteq> ''error''"
  by (auto simp: logger_log_def logger_Init_def Let_def less_eq_log_level_def)

text \<open>The attributes of a record: the time is renamed and printed in UTC; \<open>None\<close> is the panic of
  \<open>Value.Time\<close> on an attribute with that key that holds no time.\<close>

datatype log_value = LogTime int | LogText string

definition ReplaceAttr :: "string \<times> log_value \<Rightarrow> (string \<times> log_value) option" where
  "ReplaceAttr a =
     (if fst a \<noteq> ''time'' then Some a
      else case snd a of
        LogTime t \<Rightarrow> Some (''ts'', LogText (rfc3339 (unix_sec t)))
      | LogText _ \<Rightarrow> None)"

subsection \<open>The DNS TXT publisher\<close>

record Publisher =
  dp_nodeID :: string
  dp_applicableLaw :: string
  dp_interval :: int

definition dnstxt_New :: "string \<Rightarrow> string \<Rightarrow> int \<Rightarrow> Publisher" where
  "dnstxt_New nodeID applicableLaw interval =
     \<lparr>dp_nodeID = nodeID, dp_applicableLaw = applicableLaw, dp_interval = interval\<rparr>"

text \<open>The value written on a tick, without the newline that ends it.\<close>

definition dnstxt_value :: "int \<Rightarrow> string \<Rightarrow> Publisher \<Rightarrow> string" where
  "dnstxt_value now rootHash p =
     ''v=1 ts='' @ show_int (unix_sec now) @ '' root='' @ rootHash @ '' node='' @ dp_nodeID p @ '' law='' @ dp_applicableLaw p"

text \<open>
  \<open>Run\<close> over the ticks until the context ends, with the clock and the audit root at each; \<open>None\<close>
  is the panic of \<open>time.NewTicker\<close> on an interval that is not positive.
\<close>

definition NewTicker :: "int \<Rightarrow> int option" where
  "NewTicker d = (if d \<le> 0 then None else Some d)"

definition dnstxt_Run :: "(int \<times> string) list \<Rightarrow> Publisher \<Rightarrow> string option" where
  "dnstxt_Run ticks p =
     map_option (\<lambda>_. concat (map (\<lambda>(now, rootHash). dnstxt_value now rootHash p @ nl) ticks)) (NewTicker (dp_interval p))"

text \<open>The publisher a node starts, if any.\<close>

definition node_publisher :: "Config \<Rightarrow> Publisher option" where
  "node_publisher cfg =
     (if \<not> ap_DNSTXTPublish (pol_Audit (cfg_Policy cfg)) then None
      else if ap_DNSTXTInterval (pol_Audit (cfg_Policy cfg)) = 0 then None
      else Some (dnstxt_New (nc_NodeID (cfg_Node cfg)) (nc_ApplicableLaw (cfg_Node cfg))
             (ap_DNSTXTInterval (pol_Audit (cfg_Policy cfg)))))"

text \<open>
  A started publisher panics exactly when the interval is negative, which \<open>Validate\<close> does not look
  at; the number of seconds of a configuration file is positive but may wrap around.
\<close>

lemma publisher_panics:
  "node_publisher cfg = Some p \<Longrightarrow> dnstxt_Run ticks p = None \<longleftrightarrow> ap_DNSTXTInterval (pol_Audit (cfg_Policy cfg)) < 0"
  by (auto simp: node_publisher_def dnstxt_Run_def dnstxt_New_def NewTicker_def split: if_splits)

lemma dns_interval_wraps: "override_dur 9223372037 second d < 0"
  by (simp add: override_dur_def int64_wrap_def duration_defs)

subsection \<open>Warnings at the start\<close>

definition law_unset :: "Config \<Rightarrow> bool" where
  "law_unset cfg \<longleftrightarrow> nc_ApplicableLaw (cfg_Node cfg) = ''NONE'' \<and> pf_Name (cfg_Profile cfg) \<noteq> ''performance''"

definition interval_unset :: "Config \<Rightarrow> bool" where
  "interval_unset cfg \<longleftrightarrow>
     ap_DNSTXTPublish (pol_Audit (cfg_Policy cfg)) \<and> ap_DNSTXTInterval (pol_Audit (cfg_Policy cfg)) = 0"

definition dash :: string where "dash = [CHR 0xE2, CHR 0x80, CHR 0x94]"

text \<open>What \<open>Run\<close> warns about before it serves.\<close>

definition start_warnings :: "Config \<Rightarrow> (log_level \<times> string) list" where
  "start_warnings cfg =
     (let h = logger_Init (nc_LogLevel (cfg_Node cfg)) (nc_LogFormat (cfg_Node cfg)) in
      logger_Warn h (''using ephemeral Ed25519 signing key '' @ dash @ '' set signing_key in [tls] for a persistent key'') @
      (if law_unset cfg
       then logger_Warn h (''applicable_law is NONE '' @ dash @ '' set a real legal framework before production use'') else []) @
      (if interval_unset cfg
       then logger_Warn h ''dns_txt_publish=true but dns_txt_interval_s is 0, skipping publisher'' else []))"

lemma interval_unset_publisher:
  "interval_unset cfg \<longleftrightarrow> ap_DNSTXTPublish (pol_Audit (cfg_Policy cfg)) \<and> node_publisher cfg = None"
  by (auto simp: interval_unset_def node_publisher_def)

end
