(* ===== verification/Cli.thy ===== *)
theory Cli
  imports Http_Json Platform
begin

text \<open>
  The operator tool \<open>cmd/mrmi\<close> and the start of \<open>cmd/mrmi-gateway\<close>: flag parsing as the \<open>flag\<close>
  package does it, the subcommands with their output, and the dispatch of \<open>main\<close>. DNS, HTTP,
  files, PEM and X.509, key generation and \<open>time.ParseDuration\<close> are parameters of the
  environment \<open>cli_env\<close>; the text a subcommand prints is its output before the \<open>tabwriter\<close>
  aligns it. Usage texts are not modelled.
\<close>

subsection \<open>Environment and results\<close>

record http_req =
  hr_Method :: string
  hr_URL :: string
  hr_Header :: "(string \<times> string) list"
  hr_Body :: string

datatype http_outcome = BuildError string | DoError string | ReadError nat string | Answer nat string

record cli_env =
  ce_LookupTXT :: "string \<Rightarrow> string + string list"
  ce_Do :: "http_req \<Rightarrow> http_outcome"
  ce_ReadFile :: "string \<Rightarrow> string + string"
  ce_WriteFile :: "string \<Rightarrow> string \<Rightarrow> string option"
  ce_GenerateKey :: "string + string \<times> string"
  ce_MarshalPKCS8 :: "string \<Rightarrow> string + string"
  ce_MarshalPKIX :: "string \<Rightarrow> string + string"
  ce_ParsePKIX :: "string \<Rightarrow> string + string option" \<comment> \<open>\<open>None\<close>: not an Ed25519 key\<close>
  ce_pemEncode :: "string \<Rightarrow> string \<Rightarrow> string"
  ce_pemDecode :: "string \<Rightarrow> string option"
  ce_edVerify :: "string \<Rightarrow> string \<Rightarrow> string \<Rightarrow> bool"
  ce_digest :: "string \<Rightarrow> string"
  ce_ParseDuration :: "string \<Rightarrow> int option"
  ce_fl :: "rat \<Rightarrow> rat"
  ce_jsonErr :: "string \<Rightarrow> string" \<comment> \<open>text of the error of decoding an input\<close>
  ce_b64Err :: "string \<Rightarrow> string"
  ce_Quote :: "string \<Rightarrow> string" \<comment> \<open>the verb \<open>%q\<close>\<close>

datatype flag_error = BadSyntax string | NotDefined string | HelpRequested | NeedsArgument string | InvalidValue string string

datatype cli_error =
    FlagError flag_error
  | Required string
  | ModeRequired
  | Wrapped string string
  | FileError file_error
  | NoRecord string
  | HTTPStatus nat string
  | ParseResponse
  | NoPEMBlock
  | NotEd25519
  | SignatureFormat string
  | DecodeSignature string
  | SignatureFailed
  | ScopeInvalid
  | UnknownSubcommand string
  | SubcommandRequired

record cli_out =
  co_out :: string
  co_files :: "(string \<times> string) list"
  co_err :: "cli_error option"

definition prints :: "string \<Rightarrow> cli_out" where
  "prints s = \<lparr>co_out = s, co_files = [], co_err = None\<rparr>"

definition fails :: "string \<Rightarrow> cli_error \<Rightarrow> cli_out" where
  "fails s e = \<lparr>co_out = s, co_files = [], co_err = Some e\<rparr>"

definition tab :: string where "tab = [CHR 0x09]"

subsection \<open>Flags\<close>

datatype flag_kind = FString | FBool | FDuration

definition parse_bool :: "string \<Rightarrow> bool option" where
  "parse_bool s =
     (if s \<in> {''1'', ''t'', ''T'', ''TRUE'', ''true'', ''True''} then Some True
      else if s \<in> {''0'', ''f'', ''F'', ''FALSE'', ''false'', ''False''} then Some False
      else None)"

definition flag_value_ok :: "(string \<Rightarrow> int option) \<Rightarrow> flag_kind \<Rightarrow> string \<Rightarrow> bool" where
  "flag_value_ok dur k v =
     (case k of FString \<Rightarrow> True | FBool \<Rightarrow> parse_bool v \<noteq> None | FDuration \<Rightarrow> dur v \<noteq> None)"

text \<open>\<open>FlagSet.Parse\<close>: the values set, by name, in the order of the arguments.\<close>

fun parse_flags ::
  "(string \<Rightarrow> int option) \<Rightarrow> (string \<rightharpoonup> flag_kind) \<Rightarrow> string list \<Rightarrow> (string \<rightharpoonup> string) \<Rightarrow>
   flag_error + (string \<rightharpoonup> string)" where
  "parse_flags dur defs [] vals = Inr vals"
| "parse_flags dur defs (s # args) vals =
     (if length s < 2 \<or> hd s \<noteq> CHR ''-'' \<or> s = ''--'' then Inr vals
      else
        let name = (if s ! 1 = CHR ''-'' then drop 2 s else drop 1 s);
            key = takeWhile (\<lambda>c. c \<noteq> CHR ''='') name; rest = drop (length key) name
        in if hd name = CHR ''-'' \<or> hd name = CHR ''='' then Inl (BadSyntax s)
           else case defs key of
             None \<Rightarrow> Inl (if key = ''help'' \<or> key = ''h'' then HelpRequested else NotDefined key)
           | Some k \<Rightarrow>
               if rest \<noteq> [] then
                 (if flag_value_ok dur k (tl rest) then parse_flags dur defs args (vals(key \<mapsto> tl rest))
                  else Inl (InvalidValue key (tl rest)))
               else if k = FBool then parse_flags dur defs args (vals(key \<mapsto> ''true''))
               else (case args of
                       [] \<Rightarrow> Inl (NeedsArgument key)
                     | v # args' \<Rightarrow>
                         if flag_value_ok dur k v then parse_flags dur defs args' (vals(key \<mapsto> v))
                         else Inl (InvalidValue key v)))"

definition flag_str :: "(string \<rightharpoonup> string) \<Rightarrow> string \<Rightarrow> string \<Rightarrow> string" where
  "flag_str vals k d = (case vals k of None \<Rightarrow> d | Some v \<Rightarrow> v)"

definition flag_bool :: "(string \<rightharpoonup> string) \<Rightarrow> string \<Rightarrow> bool" where
  "flag_bool vals k = (case vals k of None \<Rightarrow> False | Some v \<Rightarrow> parse_bool v = Some True)"

subsection \<open>Keys\<close>

definition cmdKeygen :: "cli_env \<Rightarrow> string list \<Rightarrow> cli_out" where
  "cmdKeygen E args =
     (case parse_flags (ce_ParseDuration E) [''output'' \<mapsto> FString] args Map.empty of
        Inl err \<Rightarrow> fails '''' (FlagError err)
      | Inr fl \<Rightarrow>
          let output = flag_str fl ''output'' '''' in
          if output = '''' then fails '''' (Required ''--output'')
          else case ce_GenerateKey E of
            Inl err \<Rightarrow> fails '''' (Wrapped ''generate key'' err)
          | Inr (priv, pub) \<Rightarrow>
              (case ce_MarshalPKCS8 E priv of
                 Inl err \<Rightarrow> fails '''' (Wrapped ''marshal private key'' err)
               | Inr privBytes \<Rightarrow>
                   let privPEM = ce_pemEncode E ''PRIVATE KEY'' privBytes in
                   (case ce_WriteFile E output privPEM of
                      Some err \<Rightarrow> fails '''' (Wrapped ''write private key'' err)
                    | None \<Rightarrow>
                        (case ce_MarshalPKIX E pub of
                           Inl err \<Rightarrow> (fails '''' (Wrapped ''marshal public key'' err))\<lparr>co_files := [(output, privPEM)]\<rparr>
                         | Inr pubBytes \<Rightarrow>
                             (prints (''Private key written to: '' @ output @ nl @ nl @ ''Public key:'' @ nl @
                                ce_pemEncode E ''PUBLIC KEY'' pubBytes))\<lparr>co_files := [(output,
     privPEM)]\<rparr>))))"

subsection \<open>Verification of the audit log\<close>

definition verify_text :: "cli_env \<Rightarrow> string \<Rightarrow> file_error \<Rightarrow> string" where
  "verify_text E path e =
     (case e of
        OpenError s \<Rightarrow> s
      | ParseLogFile \<Rightarrow> ''parse log file: '' @ (case ce_ReadFile E path of Inl _ \<Rightarrow> '''' | Inr s \<Rightarrow> ce_jsonErr E s)
      | BadLog (PreviousHashMismatch i) \<Rightarrow> ''entry '' @ show_nat i @ '' previous hash mismatch''
      | BadLog (EntryHashMismatch i) \<Rightarrow> ''entry '' @ show_nat i @ '' hash mismatch''
      | BadLog _ \<Rightarrow> '''')"

definition verifyLocal :: "cli_env \<Rightarrow> string \<Rightarrow> cli_out" where
  "verifyLocal E logPath =
     (if logPath = '''' then fails '''' (Required ''--log'')
      else case VerifyFile_at (ce_digest E) (ce_ReadFile E) logPath of
        Inl err \<Rightarrow> fails (''FAIL  '' @ logPath @ nl @ ''      '' @ verify_text E logPath err @ nl) (FileError err)
      | Inr rootHash \<Rightarrow> prints (''PASS  '' @ logPath @ nl @ ''      root: '' @ rootHash @ nl))"

text \<open>\<open>strings.Fields\<close>: the parts between runs of white space.\<close>

function text_fields :: "string \<Rightarrow> string \<Rightarrow> string list" where
  "text_fields acc [] = (if acc = [] then [] else [rev acc])"
| "text_fields acc (c # cs) =
     (case find (\<lambda>p. starts_with p (c # cs)) space_runes of
        None \<Rightarrow> text_fields (c # acc) cs
      | Some p \<Rightarrow> (if acc = [] then [] else [rev acc]) @ text_fields [] (drop (length p - 1) cs))"
  by pat_completeness auto
termination
  by (relation "measure (\<lambda>(acc, s). length s)") auto

definition parseTXTFields :: "string \<Rightarrow> string \<rightharpoonup> string" where
  "parseTXTFields txt =
     fold (\<lambda>part m.
         let key = takeWhile (\<lambda>c. c \<noteq> CHR ''='') part; rest = drop (length key) part
         in if rest = [] then m else m(key \<mapsto> tl rest))
       (text_fields [] txt) Map.empty"

fun txt_scan :: "string list \<Rightarrow> (string \<times> string option) option" where
  "txt_scan [] = None"
| "txt_scan (txt # txts) =
     (if \<not> starts_with ''v=1 '' txt then txt_scan txts
      else
        let fields = parseTXTFields txt in
        case fields ''root'' of
          None \<Rightarrow> txt_scan txts
        | Some rt \<Rightarrow> Some (rt, fields ''ts''))"

definition verifyDNS :: "cli_env \<Rightarrow> string \<Rightarrow> cli_out" where
  "verifyDNS E nodeID =
     (if nodeID = '''' then fails '''' (Required ''--node'')
      else
        let dnsName = ''_mrmi-audit.'' @ nodeID in
        case ce_LookupTXT E dnsName of
          Inl err \<Rightarrow> fails (''FAIL  '' @ dnsName @ nl @ ''      DNS lookup error: '' @ err @ nl) (Wrapped '''' err)
        | Inr txts \<Rightarrow>
            (case txt_scan txts of
               Some (rt, ts) \<Rightarrow>
                 prints (''PASS  '' @ dnsName @ nl @ ''      root: '' @ rt @ nl @
                   (case ts of None \<Rightarrow> '''' | Some t \<Rightarrow> ''      ts:   '' @ t @ nl))
             | None \<Rightarrow> fails (''FAIL  '' @ dnsName @ nl @ ''      no valid v=1 MRMI TXT record found'' @ nl) (NoRecord dnsName)))"

record auditWellKnown =
  wk_ADRVersion :: string
  wk_AppVersion :: string
  wk_ApplicableLaw :: string
  wk_NodeID :: string
  wk_RootHash :: string
  wk_Timestamp :: int
  wk_Version :: int
  wk_Signature :: string

definition wk_zero :: auditWellKnown where
  "wk_zero = \<lparr>wk_ADRVersion = [], wk_AppVersion = [], wk_ApplicableLaw = [], wk_NodeID = [],
     wk_RootHash = [], wk_Timestamp = 0, wk_Version = 0, wk_Signature = []\<rparr>"

definition wk_tags :: "string list" where
  "wk_tags = [''adr_version'', ''app_version'', ''applicable_law'', ''node_id'', ''root_hash'', ''timestamp'',
     ''version'', ''signature'']"

definition wk_put :: "string \<Rightarrow> jtree \<Rightarrow> auditWellKnown \<Rightarrow> auditWellKnown option" where
  "wk_put t v e =
     (if t = ''adr_version'' then map_option (\<lambda>x. e\<lparr>wk_ADRVersion := x\<rparr>) (dec_string v (wk_ADRVersion e))
      else if t = ''app_version'' then map_option (\<lambda>x. e\<lparr>wk_AppVersion := x\<rparr>) (dec_string v (wk_AppVersion e))
      else if t = ''applicable_law'' then map_option (\<lambda>x. e\<lparr>wk_ApplicableLaw := x\<rparr>) (dec_string v (wk_ApplicableLaw e))
      else if t = ''node_id'' then map_option (\<lambda>x. e\<lparr>wk_NodeID := x\<rparr>) (dec_string v (wk_NodeID e))
      else if t = ''root_hash'' then map_option (\<lambda>x. e\<lparr>wk_RootHash := x\<rparr>) (dec_string v (wk_RootHash e))
      else if t = ''timestamp'' then map_option (\<lambda>x. e\<lparr>wk_Timestamp := x\<rparr>) (dec_int64 v (wk_Timestamp e))
      else if t = ''version'' then map_option (\<lambda>x. e\<lparr>wk_Version := x\<rparr>) (dec_int64 v (wk_Version e))
      else if t = ''signature'' then map_option (\<lambda>x. e\<lparr>wk_Signature := x\<rparr>) (dec_string v (wk_Signature e))
      else None)"

definition wk_canonical :: "auditWellKnown \<Rightarrow> string" where
  "wk_canonical wk =
     enc_tree (TObj
       [(''adr_version'', TStr (wk_ADRVersion wk)), (''app_version'', TStr (wk_AppVersion wk)),
        (''applicable_law'', TStr (wk_ApplicableLaw wk)), (''node_id'', TStr (wk_NodeID wk)),
        (''root_hash'', TStr (wk_RootHash wk)), (''timestamp'', TNum (show_int (wk_Timestamp wk))),
        (''version'', TNum (show_int (wk_Version wk)))])"

definition checkHTTPSSig :: "cli_env \<Rightarrow> auditWellKnown \<Rightarrow> string \<Rightarrow> cli_error option" where
  "checkHTTPSSig E wk pubkeyPath =
     (case ce_ReadFile E pubkeyPath of
        Inl err \<Rightarrow> Some (Wrapped ''read pubkey'' err)
      | Inr pemData \<Rightarrow>
          (case ce_pemDecode E pemData of
             None \<Rightarrow> Some NoPEMBlock
           | Some block \<Rightarrow>
               (case ce_ParsePKIX E block of
                  Inl err \<Rightarrow> Some (Wrapped ''parse pubkey'' err)
                | Inr None \<Rightarrow> Some NotEd25519
                | Inr (Some pub) \<Rightarrow>
                    if \<not> starts_with ''ed25519:'' (wk_Signature wk) then Some (SignatureFormat (wk_Signature wk))
                    else (case b64_decode (drop 8 (wk_Signature wk)) of
                            None \<Rightarrow> Some (DecodeSignature (drop 8 (wk_Signature wk)))
                          | Some sigBytes \<Rightarrow>
                              if \<not> ce_edVerify E pub (wk_canonical wk) sigBytes then Some SignatureFailed else None))))"

text \<open>The message of an error of \<open>checkHTTPSSig\<close>.\<close>

definition sig_text :: "cli_env \<Rightarrow> cli_error \<Rightarrow> string" where
  "sig_text E err =
     (case err of
        Wrapped what e \<Rightarrow> what @ '': '' @ e
      | NoPEMBlock \<Rightarrow> ''no PEM block in pubkey file''
      | NotEd25519 \<Rightarrow> ''key is not Ed25519''
      | SignatureFormat s \<Rightarrow> ''unexpected signature format '' @ ce_Quote E s
      | DecodeSignature s \<Rightarrow> ''decode signature: '' @ ce_b64Err E s
      | SignatureFailed \<Rightarrow> ''signature verification failed''
      | _ \<Rightarrow> '''')"

definition http_get :: "string \<Rightarrow> http_req" where
  "http_get url = \<lparr>hr_Method = ''GET'', hr_URL = url, hr_Header = [], hr_Body = ''''\<rparr>"

definition verifyHTTPS :: "cli_env \<Rightarrow> string \<Rightarrow> string \<Rightarrow> cli_out" where
  "verifyHTTPS E rawURL pubkeyPath =
     (let failed = (\<lambda>what. ''FAIL  '' @ rawURL @ nl @ ''      '' @ what @ nl) in
      if rawURL = '''' then fails '''' (Required ''--url'')
      else case ce_Do E (http_get rawURL) of
        BuildError err \<Rightarrow> fails (failed (''HTTP error: '' @ err)) (Wrapped '''' err)
      | DoError err \<Rightarrow> fails (failed (''HTTP error: '' @ err)) (Wrapped '''' err)
      | ReadError _ err \<Rightarrow> fails '''' (Wrapped ''read response'' err)
      | Answer status body \<Rightarrow>
          if status \<noteq> 200 then fails (failed (''HTTP '' @ show_nat status)) (HTTPStatus status '''')
          else case unmarshal wk_tags wk_put body wk_zero of
            None \<Rightarrow> fails (failed (''parse error: '' @ ce_jsonErr E body)) ParseResponse
          | Some wk \<Rightarrow>
              let shown = ''PASS  '' @ rawURL @ nl @ ''      node:  '' @ wk_NodeID wk @ nl @
                    ''      root:  '' @ wk_RootHash wk @ nl @ ''      law:   '' @ wk_ApplicableLaw wk @ nl
              in if pubkeyPath = '''' then prints shown
                 else (case checkHTTPSSig E wk pubkeyPath of
                         Some err \<Rightarrow> fails (shown @ ''SIG   FAIL  '' @ sig_text E err @ nl) err
                       | None \<Rightarrow> prints (shown @ ''SIG   PASS'' @ nl)))"

definition cmdAuditVerify :: "cli_env \<Rightarrow> string list \<Rightarrow> cli_out" where
  "cmdAuditVerify E args =
     (case parse_flags (ce_ParseDuration E)
             [''local'' \<mapsto> FBool, ''log'' \<mapsto> FString, ''dns'' \<mapsto> FBool,
     ''node'' \<mapsto> FString,
              ''https'' \<mapsto> FBool, ''url'' \<mapsto> FString, ''pubkey'' \<mapsto> FString] args Map.empty of
        Inl err \<Rightarrow> fails '''' (FlagError err)
      | Inr fl \<Rightarrow>
          if flag_bool fl ''local'' then verifyLocal E (flag_str fl ''log'' '''')
          else if flag_bool fl ''dns'' then verifyDNS E (flag_str fl ''node'' '''')
          else if flag_bool fl ''https'' then verifyHTTPS E (flag_str fl ''url'' '''') (flag_str fl ''pubkey'' '''')
          else fails '''' ModeRequired)"

subsection \<open>Times\<close>

text \<open>\<open>Duration.Hours\<close> and \<open>Duration.Minutes\<close>, then \<open>int\<close>.\<close>

definition dur_units :: "(rat \<Rightarrow> rat) \<Rightarrow> int \<Rightarrow> int \<Rightarrow> int" where
  "dur_units fl unit d =
     truncate_rat (fl (fl (of_int (go_div d unit)) + fl (fl (of_int (go_mod d unit)) / of_int unit)))"

definition formatUptime :: "(rat \<Rightarrow> rat) \<Rightarrow> int \<Rightarrow> string" where
  "formatUptime fl seconds =
     (let d = int64_wrap (seconds * second);
          h = dur_units fl hour d; m = go_mod (dur_units fl minute d) 60; s = go_mod (dur_units fl second d) 60
      in if h > 0 then show_int h @ ''h'' @ show_int m @ ''m'' @ show_int s @ ''s''
         else if m > 0 then show_int m @ ''m'' @ show_int s @ ''s''
         else show_int s @ ''s'')"

definition trimNewline :: "string \<Rightarrow> string" where
  "trimNewline b = rev (dropWhile (\<lambda>c. c = CHR 0x0A \<or> c = CHR 0x0D) (rev b))"

subsection \<open>Queries to a node\<close>

record nodeOpts =
  no_url :: string
  no_token :: string
  no_apiKey :: string

definition parseNodeFlags :: "cli_env \<Rightarrow> string list \<Rightarrow> cli_error + nodeOpts" where
  "parseNodeFlags E args =
     (case parse_flags (ce_ParseDuration E) [''url'' \<mapsto> FString, ''token'' \<mapsto> FString,
     ''api-key'' \<mapsto> FString] args Map.empty of
        Inl err \<Rightarrow> Inl (FlagError err)
      | Inr fl \<Rightarrow>
          if flag_str fl ''url'' '''' = '''' then Inl (Required ''--url'')
          else Inr \<lparr>no_url = flag_str fl ''url'' '''', no_token = flag_str fl ''token'' '''',
                    no_apiKey = flag_str fl ''api-key'' ''''\<rparr>)"

record errBody =
  eb_Error :: string

definition errb_zero :: errBody where
  "errb_zero = \<lparr>eb_Error = []\<rparr>"

definition errb_tags :: "string list" where
  "errb_tags = [''error'']"

definition errb_put :: "string \<Rightarrow> jtree \<Rightarrow> errBody \<Rightarrow> errBody option" where
  "errb_put t v e =
     (if t = ''error'' then map_option (\<lambda>x. e\<lparr>eb_Error := x\<rparr>) (dec_string v (eb_Error e))
      else None)"

text \<open>The error of an answer that is not 200: the message of its JSON body, else its text.\<close>

definition status_error :: "nat \<Rightarrow> string \<Rightarrow> cli_error" where
  "status_error status body =
     HTTPStatus status
       (case unmarshal errb_tags errb_put body errb_zero of
          Some b \<Rightarrow> if eb_Error b \<noteq> '''' then eb_Error b else trimNewline body
        | None \<Rightarrow> trimNewline body)"

definition apiGet :: "cli_env \<Rightarrow> nodeOpts \<Rightarrow> string \<Rightarrow> cli_error + string" where
  "apiGet E opts path =
     (case ce_Do E \<lparr>hr_Method = ''GET'', hr_URL = no_url opts @ path,
             hr_Header = (if no_token opts \<noteq> '''' then [(''Authorization'',
     ''Bearer '' @ no_token opts)] else []) @
               (if no_apiKey opts \<noteq> '''' then [(''X-MRMI-Key'', no_apiKey opts)] else []),
             hr_Body = ''''\<rparr> of
        BuildError err \<Rightarrow> Inl (Wrapped ''build request'' err)
      | DoError err \<Rightarrow> Inl (Wrapped (''GET '' @ path) err)
      | ReadError _ err \<Rightarrow> Inl (Wrapped ''read response'' err)
      | Answer status body \<Rightarrow> if status \<noteq> 200 then Inl (status_error status body) else Inr body)"

definition status_zero :: node_status where
  "status_zero = \<lparr>ns_NodeID = [], ns_Region = [], ns_NodeScope = [], ns_Profile = [],
     ns_ApplicableLaw = [], ns_AppVersion = [], ns_ADRVersion = [], ns_UptimeSeconds = 0\<rparr>"

definition status_tags :: "string list" where
  "status_tags = [''node_id'', ''region'', ''node_scope'', ''profile'', ''applicable_law'', ''app_version'',
     ''adr_version'', ''uptime_seconds'']"

definition status_put :: "string \<Rightarrow> jtree \<Rightarrow> node_status \<Rightarrow> node_status option" where
  "status_put t v e =
     (if t = ''node_id'' then map_option (\<lambda>x. e\<lparr>ns_NodeID := x\<rparr>) (dec_string v (ns_NodeID e))
      else if t = ''region'' then map_option (\<lambda>x. e\<lparr>ns_Region := x\<rparr>) (dec_string v (ns_Region e))
      else if t = ''node_scope'' then map_option (\<lambda>x. e\<lparr>ns_NodeScope := x\<rparr>) (dec_string v (ns_NodeScope e))
      else if t = ''profile'' then map_option (\<lambda>x. e\<lparr>ns_Profile := x\<rparr>) (dec_string v (ns_Profile e))
      else if t = ''applicable_law'' then map_option (\<lambda>x. e\<lparr>ns_ApplicableLaw := x\<rparr>) (dec_string v (ns_ApplicableLaw e))
      else if t = ''app_version'' then map_option (\<lambda>x. e\<lparr>ns_AppVersion := x\<rparr>) (dec_string v (ns_AppVersion e))
      else if t = ''adr_version'' then map_option (\<lambda>x. e\<lparr>ns_ADRVersion := x\<rparr>) (dec_string v (ns_ADRVersion e))
      else if t = ''uptime_seconds'' then map_option (\<lambda>x. e\<lparr>ns_UptimeSeconds := x\<rparr>) (dec_int64 v (ns_UptimeSeconds e))
      else None)"

definition nodeStatus :: "cli_env \<Rightarrow> nodeOpts \<Rightarrow> cli_out" where
  "nodeStatus E opts =
     (case apiGet E opts ''/api/v1/status'' of
        Inl err \<Rightarrow> fails '''' err
      | Inr body \<Rightarrow>
          (case unmarshal status_tags status_put body status_zero of
             None \<Rightarrow> fails '''' ParseResponse
           | Some s \<Rightarrow>
               prints (''node_id:'' @ tab @ ns_NodeID s @ nl @ ''region:'' @ tab @ ns_Region s @ nl @
                 ''node_scope:'' @ tab @ ns_NodeScope s @ nl @ ''profile:'' @ tab @ ns_Profile s @ nl @
                 ''applicable_law:'' @ tab @ ns_ApplicableLaw s @ nl @ ''app_version:'' @ tab @ ns_AppVersion s @ nl @
                 ''adr_version:'' @ tab @ ns_ADRVersion s @ nl @
                 ''uptime:'' @ tab @ formatUptime (ce_fl E) (ns_UptimeSeconds s) @ nl)))"

definition row :: "string list \<Rightarrow> string" where
  "row cells = concat (map (\<lambda>(i, c). (if i = 0 then '''' else tab) @ c) (enumerate 0 cells)) @ nl"

definition peer_zero :: peerDTO where
  "peer_zero = \<lparr>pd_NodeID = [], pd_Addr = [], pd_NodeScope = [], pd_Region = [], pd_Source = []\<rparr>"

definition peer_tags :: "string list" where
  "peer_tags = [''node_id'', ''addr'', ''node_scope'', ''region'', ''source'']"

definition peer_put :: "string \<Rightarrow> jtree \<Rightarrow> peerDTO \<Rightarrow> peerDTO option" where
  "peer_put t v e =
     (if t = ''node_id'' then map_option (\<lambda>x. e\<lparr>pd_NodeID := x\<rparr>) (dec_string v (pd_NodeID e))
      else if t = ''addr'' then map_option (\<lambda>x. e\<lparr>pd_Addr := x\<rparr>) (dec_string v (pd_Addr e))
      else if t = ''node_scope'' then map_option (\<lambda>x. e\<lparr>pd_NodeScope := x\<rparr>) (dec_string v (pd_NodeScope e))
      else if t = ''region'' then map_option (\<lambda>x. e\<lparr>pd_Region := x\<rparr>) (dec_string v (pd_Region e))
      else if t = ''source'' then map_option (\<lambda>x. e\<lparr>pd_Source := x\<rparr>) (dec_string v (pd_Source e))
      else None)"

definition nodePeers :: "cli_env \<Rightarrow> nodeOpts \<Rightarrow> cli_out" where
  "nodePeers E opts =
     (case apiGet E opts ''/api/v1/peers'' of
        Inl err \<Rightarrow> fails '''' err
      | Inr body \<Rightarrow>
          (case unmarshal_list peer_tags peer_put peer_zero body of
             None \<Rightarrow> fails '''' ParseResponse
           | Some ps \<Rightarrow>
               prints (row [''NODE_ID'', ''ADDR'', ''SCOPE'', ''REGION'', ''SOURCE''] @
                 concat (map (\<lambda>p. row [pd_NodeID p, pd_Addr p, pd_NodeScope p, pd_Region p,
     pd_Source p]) ps))))"

record cliDLQ =
  cq_Index :: int
  cq_PeerAddr :: string
  cq_Attempts :: int
  cq_LastError :: string
  cq_FirstSeenUnix :: int
  cq_EnvelopeID :: string
  cq_SenderRegion :: string
  cq_RecipientRegion :: string

definition cdlq_zero :: cliDLQ where
  "cdlq_zero = \<lparr>cq_Index = 0, cq_PeerAddr = [], cq_Attempts = 0, cq_LastError = [],
     cq_FirstSeenUnix = 0, cq_EnvelopeID = [], cq_SenderRegion = [], cq_RecipientRegion = []\<rparr>"

definition cdlq_tags :: "string list" where
  "cdlq_tags = [''index'', ''peer_addr'', ''attempts'', ''last_error'', ''first_seen_unix'', ''envelope_id'',
     ''sender_region'', ''recipient_region'']"

definition cdlq_put :: "string \<Rightarrow> jtree \<Rightarrow> cliDLQ \<Rightarrow> cliDLQ option" where
  "cdlq_put t v e =
     (if t = ''index'' then map_option (\<lambda>x. e\<lparr>cq_Index := x\<rparr>) (dec_int64 v (cq_Index e))
      else if t = ''peer_addr'' then map_option (\<lambda>x. e\<lparr>cq_PeerAddr := x\<rparr>) (dec_string v (cq_PeerAddr e))
      else if t = ''attempts'' then map_option (\<lambda>x. e\<lparr>cq_Attempts := x\<rparr>) (dec_int64 v (cq_Attempts e))
      else if t = ''last_error'' then map_option (\<lambda>x. e\<lparr>cq_LastError := x\<rparr>) (dec_string v (cq_LastError e))
      else if t = ''first_seen_unix'' then map_option (\<lambda>x. e\<lparr>cq_FirstSeenUnix := x\<rparr>) (dec_int64 v (cq_FirstSeenUnix e))
      else if t = ''envelope_id'' then map_option (\<lambda>x. e\<lparr>cq_EnvelopeID := x\<rparr>) (dec_string v (cq_EnvelopeID e))
      else if t = ''sender_region'' then map_option (\<lambda>x. e\<lparr>cq_SenderRegion := x\<rparr>) (dec_string v (cq_SenderRegion e))
      else if t = ''recipient_region'' then map_option (\<lambda>x. e\<lparr>cq_RecipientRegion := x\<rparr>) (dec_string v (cq_RecipientRegion e))
      else None)"

definition dlq_row :: "cliDLQ \<Rightarrow> string" where
  "dlq_row e =
     row [show_int (cq_Index e), cq_EnvelopeID e, cq_PeerAddr e, show_int (cq_Attempts e),
       if cq_FirstSeenUnix e > 0 then rfc3339 (cq_FirstSeenUnix e) else ''-'', cq_LastError e]"

definition nodeDLQ :: "cli_env \<Rightarrow> nodeOpts \<Rightarrow> cli_out" where
  "nodeDLQ E opts =
     (case apiGet E opts ''/api/v1/dlq'' of
        Inl err \<Rightarrow> fails '''' err
      | Inr body \<Rightarrow>
          (case unmarshal_list cdlq_tags cdlq_put cdlq_zero body of
             None \<Rightarrow> fails '''' ParseResponse
           | Some es \<Rightarrow>
               prints (row [''INDEX'', ''ENVELOPE_ID'', ''PEER_ADDR'', ''ATTEMPTS'', ''FIRST_SEEN'', ''LAST_ERR''] @
                 concat (map dlq_row es))))"

record cliApp =
  ca_AppID :: string
  ca_WebhookURL :: string

definition capp_zero :: cliApp where
  "capp_zero = \<lparr>ca_AppID = [], ca_WebhookURL = []\<rparr>"

definition capp_tags :: "string list" where
  "capp_tags = [''app_id'', ''webhook_url'']"

definition capp_put :: "string \<Rightarrow> jtree \<Rightarrow> cliApp \<Rightarrow> cliApp option" where
  "capp_put t v e =
     (if t = ''app_id'' then map_option (\<lambda>x. e\<lparr>ca_AppID := x\<rparr>) (dec_string v (ca_AppID e))
      else if t = ''webhook_url'' then map_option (\<lambda>x. e\<lparr>ca_WebhookURL := x\<rparr>) (dec_string v (ca_WebhookURL e))
      else None)"

definition nodeApps :: "cli_env \<Rightarrow> nodeOpts \<Rightarrow> cli_out" where
  "nodeApps E opts =
     (case apiGet E opts ''/api/v1/apps'' of
        Inl err \<Rightarrow> fails '''' err
      | Inr body \<Rightarrow>
          (case unmarshal_list capp_tags capp_put capp_zero body of
             None \<Rightarrow> fails '''' ParseResponse
           | Some as \<Rightarrow>
               prints (row [''APP_ID'', ''WEBHOOK_URL''] @ concat (map (\<lambda>a. row [ca_AppID a,
     ca_WebhookURL a]) as))))"

definition with_opts :: "cli_env \<Rightarrow> (cli_env \<Rightarrow> nodeOpts \<Rightarrow> cli_out) \<Rightarrow> string list \<Rightarrow> cli_out" where
  "with_opts E f args = (case parseNodeFlags E args of Inl err \<Rightarrow> fails '''' err | Inr opts \<Rightarrow> f E opts)"

definition cmdNodeStatus :: "cli_env \<Rightarrow> string list \<Rightarrow> cli_out" where
  "cmdNodeStatus E args = with_opts E nodeStatus args"

definition cmdNodePeers :: "cli_env \<Rightarrow> string list \<Rightarrow> cli_out" where
  "cmdNodePeers E args = with_opts E nodePeers args"

definition cmdNodeDLQ :: "cli_env \<Rightarrow> string list \<Rightarrow> cli_out" where
  "cmdNodeDLQ E args = with_opts E nodeDLQ args"

definition cmdNodeApps :: "cli_env \<Rightarrow> string list \<Rightarrow> cli_out" where
  "cmdNodeApps E args = with_opts E nodeApps args"

lemmas cmdNode_defs = cmdNodeStatus_def cmdNodePeers_def cmdNodeDLQ_def cmdNodeApps_def

definition cmdNode :: "cli_env \<Rightarrow> string list \<Rightarrow> cli_out" where
  "cmdNode E args =
     (case args of
        [] \<Rightarrow> fails '''' SubcommandRequired
      | sub # rest \<Rightarrow>
          if sub = ''status'' then cmdNodeStatus E rest
          else if sub = ''peers'' then cmdNodePeers E rest
          else if sub = ''dlq'' then cmdNodeDLQ E rest
          else if sub = ''apps'' then cmdNodeApps E rest
          else fails '''' (UnknownSubcommand sub))"

subsection \<open>Tokens\<close>

record tokenResult =
  tr_Token :: string
  tr_Scope :: string
  tr_ExpiresAt :: int

definition tokr_zero :: tokenResult where
  "tokr_zero = \<lparr>tr_Token = [], tr_Scope = [], tr_ExpiresAt = 0\<rparr>"

definition tokr_tags :: "string list" where
  "tokr_tags = [''token'', ''scope'', ''expires_at'']"

definition tokr_put :: "string \<Rightarrow> jtree \<Rightarrow> tokenResult \<Rightarrow> tokenResult option" where
  "tokr_put t v e =
     (if t = ''token'' then map_option (\<lambda>x. e\<lparr>tr_Token := x\<rparr>) (dec_string v (tr_Token e))
      else if t = ''scope'' then map_option (\<lambda>x. e\<lparr>tr_Scope := x\<rparr>) (dec_string v (tr_Scope e))
      else if t = ''expires_at'' then map_option (\<lambda>x. e\<lparr>tr_ExpiresAt := x\<rparr>) (dec_int64 v (tr_ExpiresAt e))
      else None)"

definition ttl_minutes :: "(rat \<Rightarrow> rat) \<Rightarrow> int \<Rightarrow> int" where
  "ttl_minutes fl ttl = (let m = dur_units fl minute ttl in if m \<le> 0 then 60 else m)"

definition token_request :: "string \<Rightarrow> string \<Rightarrow> string \<Rightarrow> int \<Rightarrow> http_req" where
  "token_request rawURL apiKey scope ttlMinutes =
     \<lparr>hr_Method = ''POST'', hr_URL = rawURL @ ''/api/v1/token'',
      hr_Header = [(''Content-Type'', ''application/json''), (''X-MRMI-Key'', apiKey)],
      hr_Body = enc_tree (TObj [(''scope'', TStr scope), (''ttl_minutes'', TNum (show_int ttlMinutes))])\<rparr>"

definition tokenIssue :: "cli_env \<Rightarrow> string list \<Rightarrow> cli_out" where
  "tokenIssue E args =
     (case parse_flags (ce_ParseDuration E)
             [''url'' \<mapsto> FString, ''api-key'' \<mapsto> FString, ''scope'' \<mapsto> FString,
     ''ttl'' \<mapsto> FDuration] args Map.empty of
        Inl err \<Rightarrow> fails '''' (FlagError err)
      | Inr fl \<Rightarrow>
          let rawURL = flag_str fl ''url'' ''''; apiKey = flag_str fl ''api-key'' ''''; scope = flag_str fl ''scope'' ''read'';
              ttl = (case Option.bind (fl ''ttl'') (ce_ParseDuration E) of None \<Rightarrow> hour | Some d \<Rightarrow> d)
          in if rawURL = '''' then fails '''' (Required ''--url'')
             else if apiKey = '''' then fails '''' (Required ''--api-key'')
             else if scope \<noteq> ''read'' \<and> scope \<noteq> ''operator'' then fails '''' ScopeInvalid
             else case ce_Do E (token_request rawURL apiKey scope (ttl_minutes (ce_fl E) ttl)) of
               BuildError err \<Rightarrow> fails '''' (Wrapped ''build request'' err)
             | DoError err \<Rightarrow> fails '''' (Wrapped ''POST /api/v1/token'' err)
             | ReadError _ err \<Rightarrow> fails '''' (Wrapped ''read response'' err)
             | Answer status body \<Rightarrow>
                 if status \<noteq> 200 then fails '''' (status_error status body)
                 else case unmarshal tokr_tags tokr_put body tokr_zero of
                   None \<Rightarrow> fails '''' ParseResponse
                 | Some r \<Rightarrow>
                     prints (''Token:   '' @ tr_Token r @ nl @ ''Scope:   '' @ tr_Scope r @ nl @
                       ''Expires: '' @ rfc3339 (tr_ExpiresAt r) @ nl))"

definition cmdToken :: "cli_env \<Rightarrow> string list \<Rightarrow> cli_out" where
  "cmdToken E args =
     (case args of
        [] \<Rightarrow> fails '''' SubcommandRequired
      | sub # rest \<Rightarrow> if sub \<noteq> ''issue'' then fails '''' SubcommandRequired else tokenIssue E rest)"

subsection \<open>The programs\<close>

text \<open>The usage texts, written to the standard error.\<close>

definition usage :: string where
  "usage =
     ''mrmi '' @ dash @ '' MRMI Gateway operator CLI'' @ nl @
     nl @
     ''Usage:'' @ nl @
     ''  mrmi keygen --output <path>'' @ nl @
     ''  mrmi audit verify --local --log <path>'' @ nl @
     ''  mrmi audit verify --dns --node <node_id>'' @ nl @
     ''  mrmi audit verify --https --url <url> [--pubkey <path>]'' @ nl @
     ''  mrmi node status  --url <http-addr> [--token <jwt>] [--api-key <key>]'' @ nl @
     ''  mrmi node peers   --url <http-addr> [--token <jwt>] [--api-key <key>]'' @ nl @
     ''  mrmi node dlq     --url <http-addr> [--token <jwt>] [--api-key <key>]'' @ nl @
     ''  mrmi node apps    --url <http-addr> [--token <jwt>] [--api-key <key>]'' @ nl @
     ''  mrmi token issue  --url <http-addr> --api-key <key> [--scope <read|operator>] [--ttl <duration>]'' @ nl @
     ''  mrmi -version'' @ nl"

definition usageAuditVerify :: string where
  "usageAuditVerify =
     ''Usage:'' @ nl @
     ''  mrmi audit verify --local --log <path>'' @ nl @
     ''  mrmi audit verify --dns --node <node_id>'' @ nl @
     ''  mrmi audit verify --https --url <url> [--pubkey <path>]'' @ nl"

definition usageNode :: string where
  "usageNode =
     ''Usage:'' @ nl @
     ''  mrmi node status --url <http-addr> [--token <jwt>] [--api-key <key>]'' @ nl @
     ''  mrmi node peers  --url <http-addr> [--token <jwt>] [--api-key <key>]'' @ nl @
     ''  mrmi node dlq    --url <http-addr> [--token <jwt>] [--api-key <key>]'' @ nl @
     ''  mrmi node apps   --url <http-addr> [--token <jwt>] [--api-key <key>]'' @ nl"

definition usageToken :: string where
  "usageToken =
     ''Usage:'' @ nl @
     ''  mrmi token issue --url <http-addr> --api-key <key> [--scope <read|operator>] [--ttl <duration>]'' @ nl"

text \<open>\<open>main\<close> of \<open>mrmi\<close> on the arguments after the program name; \<open>None\<close> is an exit with the usage text.\<close>

definition mrmi_main :: "cli_env \<Rightarrow> string list \<Rightarrow> cli_out option" where
  "mrmi_main E args =
     (case args of
        [] \<Rightarrow> None
      | cmd # rest \<Rightarrow>
          if cmd \<in> {''-version'', ''--version'', ''version''}
          then Some (prints (''mrmi '' @ version_App @ '' (ADR '' @ version_ADR @ '')'' @ nl))
          else if cmd = ''keygen'' then Some (cmdKeygen E rest)
          else if cmd = ''audit'' then
            (case rest of [] \<Rightarrow> None | v # rest' \<Rightarrow> if v \<noteq> ''verify'' then None else Some (cmdAuditVerify E rest'))
          else if cmd = ''node'' then (if rest = [] then None else Some (cmdNode E rest))
          else if cmd = ''token'' then (if rest = [] then None else Some (cmdToken E rest))
          else None)"

text \<open>The usage text of an exit without a command to run, and of a command without a subcommand.\<close>

definition mrmi_usage :: "string list \<Rightarrow> string option" where
  "mrmi_usage args =
     (case args of
        [] \<Rightarrow> Some usage
      | cmd # rest \<Rightarrow>
          if cmd \<in> {''-version'', ''--version'', ''version'', ''keygen''} then None
          else if cmd = ''audit'' then (if rest = [] \<or> hd rest \<noteq> ''verify'' then Some usageAuditVerify else None)
          else if cmd = ''node'' then (if rest = [] then Some usageNode else None)
          else if cmd = ''token'' then (if rest = [] \<or> hd rest \<noteq> ''issue'' then Some usageToken else None)
          else Some usage)"

lemma mrmi_main_usage: "mrmi_main E args = None \<Longrightarrow> mrmi_usage args \<noteq> None"
  by (auto simp: mrmi_main_def mrmi_usage_def split: list.splits if_splits)

definition exit_code :: "cli_out option \<Rightarrow> nat" where
  "exit_code r = (case r of None \<Rightarrow> 1 | Some out \<Rightarrow> if co_err out = None then 0 else 1)"

datatype gateway_start = GatewayVersion string | GatewayFlags flag_error | LoadConfigFailed load_error | RunGateway Config string

text \<open>\<open>main\<close> of \<open>mrmi-gateway\<close> up to the call of \<open>app.Run\<close>.\<close>

definition gateway_main :: "(string \<Rightarrow> load_error + Config) \<Rightarrow> string list \<Rightarrow> gateway_start" where
  "gateway_main load args =
     (case parse_flags (\<lambda>_. None) [''config'' \<mapsto> FString, ''http-addr'' \<mapsto> FString,
     ''version'' \<mapsto> FBool] args Map.empty of
        Inl err \<Rightarrow> GatewayFlags err
      | Inr fl \<Rightarrow>
          if flag_bool fl ''version'' then GatewayVersion (''mrmi-gateway '' @ version_App @ '' (ADR '' @ version_ADR @ '')'' @ nl)
          else
            let configPath = flag_str fl ''config'' ''''; httpAddr = flag_str fl ''http-addr'' '''' in
            case load configPath of
              Inl err \<Rightarrow> LoadConfigFailed err
            | Inr cfg \<Rightarrow>
                RunGateway (if httpAddr = '''' then cfg
                            else cfg\<lparr>cfg_Network := (cfg_Network cfg)\<lparr>nw_HTTPListenAddr := httpAddr\<rparr>\<rparr>) configPath)"

end
