(* ===== verification/Cli_Props.thy ===== *)
theory Cli_Props
  imports Cli Http_Bytes Http_Props Gateway_Runs
begin

text \<open>
  The operator tool against a node: \<open>tool_serve\<close> answers the requests of the tool with the HTTP
  server of the model, at a base address. What the node publishes, over HTTPS, in DNS and as a
  file, is what the tool verifies and prints.
\<close>

subsection \<open>A node as the peer of the tool\<close>

definition req_header :: "http_req \<Rightarrow> string \<Rightarrow> string" where
  "req_header q k = (case map_of (hr_Header q) k of None \<Rightarrow> '''' | Some v \<Rightarrow> v)"

text \<open>The path of a request, split at its slashes.\<close>

fun split_slash :: "string \<Rightarrow> string \<Rightarrow> string list" where
  "split_slash acc [] = [rev acc]"
| "split_slash acc (c # s) = (if c = CHR ''/'' then rev acc # split_slash [] s else split_slash (c # acc) s)"

definition tool_serve ::
  "'w http_env \<Rightarrow> render \<Rightarrow> (string \<Rightarrow> string) \<Rightarrow> http_server \<Rightarrow> 'w \<Rightarrow> string \<Rightarrow> http_req \<Rightarrow> http_outcome" where
  "tool_serve E R derr s w base q =
     (case http_bytes E R derr \<lparr>rq_Method = hr_Method q, rq_Header = req_header q, rq_Query = \<lambda>_. ''''\<rparr>
             (tl (split_slash [] (drop (length base) (hr_URL q)))) (hr_Body q) s w of
        ((status, body), _) \<Rightarrow> Answer status body)"

subsection \<open>The audit root over HTTPS\<close>

definition wk_of :: "auditSignPayload \<Rightarrow> string \<Rightarrow> auditWellKnown" where
  "wk_of p sig =
     \<lparr>wk_ADRVersion = asp_ADRVersion p, wk_AppVersion = asp_AppVersion p, wk_ApplicableLaw = asp_ApplicableLaw p,
      wk_NodeID = asp_NodeID p, wk_RootHash = asp_RootHash p, wk_Timestamp = asp_Timestamp p,
      wk_Version = asp_Version p, wk_Signature = sig\<rparr>"

definition audit_doc_ok :: "auditSignPayload \<Rightarrow> bool" where
  "audit_doc_ok p \<longleftrightarrow>
     utf8_valid (asp_ADRVersion p) \<and> utf8_valid (asp_AppVersion p) \<and> utf8_valid (asp_ApplicableLaw p) \<and>
     utf8_valid (asp_NodeID p) \<and> utf8_valid (asp_RootHash p) \<and> int64_range (asp_Timestamp p) \<and>
     int64_range (asp_Version p)"

lemma wk_of_Signature [simp]: "wk_Signature (wk_of p sig) = sig"
  by (simp add: wk_of_def)

lemma unmarshal_Encode:
  assumes "tree_ok 0 (TObj ms)"
  shows "unmarshal tags put (Encode (TObj ms)) r = assign_members tags put ms r"
  unfolding unmarshal_def parse_Encode_obj [OF assms] by (simp add: assign_object_def)

lemma wk_decode:
  assumes "audit_doc_ok p" "utf8_valid sig"
  shows "unmarshal wk_tags wk_put (Encode (audit_doc_tree p sig)) wk_zero = Some (wk_of p sig)"
proof -
  have ok: "tree_ok 0 (TObj (audit_doc_fields p @ [(''signature'', TStr sig)]))"
    using assms by (simp add: audit_doc_fields_def audit_doc_ok_def max_depth_def is_ascii_def)
  show ?thesis
    unfolding audit_doc_tree_def unmarshal_Encode [OF ok] using assms unfolding audit_doc_ok_def
    by (simp add: assign_members_append audit_doc_fields_def wk_tags_def wk_put_def wk_zero_def wk_of_def match_field_def)
qed

lemma wk_canonical_signed: "wk_canonical (wk_of p sig) = json_obj (sign_fields p)"
  by (simp add: wk_canonical_def wk_of_def signed_bytes audit_doc_fields_def)

definition wellknown_payload :: "'w http_env \<Rightarrow> http_server \<Rightarrow> auditSignPayload" where
  "wellknown_payload E s =
     \<lparr>asp_ADRVersion = version_ADR, asp_AppVersion = version_App,
      asp_ApplicableLaw = nc_ApplicableLaw (cfg_Node (sv_cfg s)), asp_NodeID = nc_NodeID (cfg_Node (sv_cfg s)),
      asp_RootHash = (if sv_Audit s then RootHash (gw_audit (sv_gw s)) else ''sha256:BOOTSTRAP_PLACEHOLDER''),
      asp_Timestamp = unix_sec (he_clk E 0), asp_Version = 1\<rparr>"

lemma serve_wellknown:
  assumes "ap_HTTPSWellKnown (pol_Audit (cfg_Policy (sv_cfg s)))" "sv_PrivKey s = Some key"
  shows "tool_serve E R derr s w base (http_get (base @ ''/.well-known/mrmi-audit'')) =
    Answer 200 (Encode (audit_doc_tree (wellknown_payload E s)
      (''ed25519:'' @ base64 (he_sign E key (json_obj (sign_fields (wellknown_payload E s)))))))"
  using assms
  by (simp add: tool_serve_def http_get_def http_bytes_def find_route_def routes_def matches_def takes_method_def
      any_route_def ServeHTTP_def mux_def reading_def handle_wellknown_def wellknown_payload_def answer_text_def
      body_tree_def Let_def)

definition served_ok :: "'w http_env \<Rightarrow> http_server \<Rightarrow> bool" where
  "served_ok E s \<longleftrightarrow>
     ap_HTTPSWellKnown (pol_Audit (cfg_Policy (sv_cfg s))) \<and> audit_doc_ok (wellknown_payload E s)"

text \<open>
  C9. The audit document of a node verifies with the operator tool. \<open>mrmi audit verify --https\<close> with
  the public key of the node accepts the document the node serves: it exits without an error
  and prints the node, its current audit root and the verified signature.
\<close>

theorem served_audit_verifies:
  assumes "served_ok E s" "sv_PrivKey s = Some key" "pk \<noteq> ''''"
    and "ce_Do C = tool_serve E R derr s w base"
    and "ce_ReadFile C pk = Inr pem" "ce_pemDecode C pem = Some block" "ce_ParsePKIX C block = Inr (Some pub)"
    and "\<forall>m. ce_edVerify C pub m (he_sign E key m)"
  shows "mrmi_main C [''audit'', ''verify'', ''--https'', ''--url'', base @ ''/.well-known/mrmi-audit'', ''--pubkey'', pk] =
    Some (prints (''PASS  '' @ (base @ ''/.well-known/mrmi-audit'') @ nl @
      ''      node:  '' @ nc_NodeID (cfg_Node (sv_cfg s)) @ nl @
      ''      root:  '' @ asp_RootHash (wellknown_payload E s) @ nl @
      ''      law:   '' @ nc_ApplicableLaw (cfg_Node (sv_cfg s)) @ nl @ ''SIG   PASS'' @ nl))"
proof -
  let ?url = "base @ ''/.well-known/mrmi-audit''" and ?p = "wellknown_payload E s"
  let ?raw = "he_sign E key (json_obj (sign_fields ?p))"
  let ?sig = "''ed25519:'' @ base64 ?raw"
  have "utf8_valid ?sig" by (simp add: is_ascii_def)
  then have dec: "unmarshal wk_tags wk_put (Encode (audit_doc_tree ?p ?sig)) wk_zero = Some (wk_of ?p ?sig)"
    using assms(1) by (intro wk_decode) (simp_all add: served_ok_def)
  have ans: "ce_Do C (http_get ?url) = Answer 200 (Encode (audit_doc_tree ?p ?sig))"
    unfolding assms(4) using assms(1,2) by (intro serve_wellknown) (simp_all add: served_ok_def)
  have sig: "checkHTTPSSig C (wk_of ?p ?sig) pk = None"
    using assms(5-8) by (simp add: checkHTTPSSig_def wk_canonical_signed)
  have "verifyHTTPS C ?url pk = prints (''PASS  '' @ ?url @ nl @ ''      node:  '' @ nc_NodeID (cfg_Node (sv_cfg s)) @ nl @
      ''      root:  '' @ asp_RootHash ?p @ nl @ ''      law:   '' @ nc_ApplicableLaw (cfg_Node (sv_cfg s)) @ nl @
      ''SIG   PASS'' @ nl)"
    unfolding verifyHTTPS_def ans Let_def http_outcome.case dec option.case sig
    using assms(3) by (simp add: wk_of_def wellknown_payload_def)
  then show ?thesis
    by (simp add: mrmi_main_def cmdAuditVerify_def flag_value_ok_def flag_bool_def flag_str_def parse_bool_def)
qed

subsection \<open>The audit root in DNS\<close>

text \<open>A text without white space: no rune of white space starts anywhere in it.\<close>

definition no_space :: "string \<Rightarrow> bool" where
  "no_space s \<longleftrightarrow> (\<forall>c \<in> set s. is_ascii c \<and> 32 < (of_char c :: nat))"

lemma space_rune_head: "p \<in> set space_runes \<Longrightarrow> p \<noteq> [] \<and> (\<not> is_ascii (hd p) \<or> (of_char (hd p) :: nat) \<le> 32)"
  by (auto simp: space_runes_def is_ascii_def)

lemma text_fields_word:
  assumes "no_space w"
  shows "text_fields acc (w @ r) = text_fields (rev w @ acc) r"
  using assms
proof (induction w arbitrary: acc)
  case (Cons c w)
  have "find (\<lambda>p. starts_with p (c # w @ r)) space_runes = None"
  proof -
    have "\<not> starts_with p (c # w @ r)" if "p \<in> set space_runes" for p
      using space_rune_head [OF that] Cons.prems by (cases p) (auto simp: no_space_def)
    then show ?thesis by (simp add: find_None_iff)
  qed
  with Cons show ?case by (simp add: no_space_def)
qed simp

lemma text_fields_space: "acc \<noteq> [] \<Longrightarrow> text_fields acc (CHR '' '' # r) = rev acc # text_fields [] r"
  by (simp add: space_runes_def)

lemma text_fields_line:
  assumes "\<forall>w \<in> set ws. no_space w \<and> w \<noteq> []" "no_space v" "v \<noteq> []"
  shows "text_fields [] (concat (map (\<lambda>w. w @ '' '') ws) @ v) = ws @ [v]"
  using assms(1)
proof (induction ws)
  case Nil
  show ?case using text_fields_word [OF assms(2), of "[]" "[]"] assms(3) by simp
next
  case (Cons w ws)
  then have "text_fields [] (concat (map (\<lambda>w. w @ '' '') (w # ws)) @ v) =
      text_fields (rev w) (CHR '' '' # concat (map (\<lambda>w. w @ '' '') ws) @ v)"
    using text_fields_word [of w "[]"] by simp
  also have "\<dots> = w # text_fields [] (concat (map (\<lambda>w. w @ '' '') ws) @ v)"
    using Cons.prems text_fields_space [of "rev w"] by simp
  finally show ?case using Cons by simp
qed

lemma no_space_app: "no_space (a @ b) \<longleftrightarrow> no_space a \<and> no_space b"
  by (auto simp: no_space_def)

lemma no_space_show_int: "no_space (show_int i)"
  using show_nat_digits by (auto simp: no_space_def show_int_def is_digit_def is_ascii_def) fastforce+

text \<open>
  The record a node publishes is the record the tool reads: when the node, its law and the
  root contain no white space, \<open>mrmi audit verify --dns\<close> on the published value prints the
  audit root and the time of publication.
\<close>

theorem dns_record_round_trip:
  assumes "node_publisher cfg = Some p" "nc_NodeID (cfg_Node cfg) \<noteq> ''''"
    and "no_space (nc_NodeID (cfg_Node cfg))" "no_space (nc_ApplicableLaw (cfg_Node cfg))" "no_space rootHash"
    and "ce_LookupTXT C (''_mrmi-audit.'' @ nc_NodeID (cfg_Node cfg)) = Inr [dnstxt_value now rootHash p]"
  shows "mrmi_main C [''audit'', ''verify'', ''--dns'', ''--node'', nc_NodeID (cfg_Node cfg)] =
    Some (prints (''PASS  '' @ (''_mrmi-audit.'' @ nc_NodeID (cfg_Node cfg)) @ nl @ ''      root: '' @ rootHash @ nl @
      ''      ts:   '' @ show_int (unix_sec now) @ nl))"
proof -
  let ?node = "nc_NodeID (cfg_Node cfg)" and ?law = "nc_ApplicableLaw (cfg_Node cfg)"
  let ?ts = "show_int (unix_sec now)"
  have p: "dp_nodeID p = ?node" "dp_applicableLaw p = ?law"
    using assms(1) by (auto simp: node_publisher_def dnstxt_New_def split: if_splits)
  have line: "dnstxt_value now rootHash p =
      concat (map (\<lambda>w. w @ '' '') [''v=1'', ''ts='' @ ?ts, ''root='' @ rootHash, ''node='' @ ?node]) @ ''law='' @ ?law"
    by (simp add: dnstxt_value_def p)
  have const: "no_space ''v=1''" "no_space ''ts=''" "no_space ''root=''" "no_space ''node=''" "no_space ''law=''"
    by (simp_all add: no_space_def is_ascii_def)
  have parts: "text_fields [] (dnstxt_value now rootHash p) =
      [''v=1'', ''ts='' @ ?ts, ''root='' @ rootHash, ''node='' @ ?node] @ [''law='' @ ?law]"
    unfolding line using assms(3-5) const no_space_show_int
    by (intro text_fields_line) (auto simp del: append_Cons append.append_Cons simp: no_space_app)
  have "txt_scan [dnstxt_value now rootHash p] = Some (rootHash, Some ?ts)"
    using parts by (simp add: parseTXTFields_def) (simp add: dnstxt_value_def)
  with assms(2,6) show ?thesis
    by (simp add: mrmi_main_def cmdAuditVerify_def flag_value_ok_def flag_bool_def flag_str_def parse_bool_def verifyDNS_def)
qed

subsection \<open>An exported log\<close>

text \<open>
  C8. The log a node exports passes the offline check of the tool: for a log that verifies,
  \<open>mrmi audit verify --local\<close> on the file \<open>WriteJSON\<close> wrote prints PASS and the root of the log.
\<close>

theorem exported_log_passes:
  assumes "Verify (ce_digest C) l = None" "list_all entry_row_ok (lg_entries l)"
    and "ce_ReadFile C path = Inr (WriteJSON l)" "path \<noteq> ''''"
  shows "mrmi_main C [''audit'', ''verify'', ''--local'', ''--log'', path] =
    Some (prints (''PASS  '' @ path @ nl @ ''      root: '' @ RootHash l @ nl))"
  using exported_log_verifies [where read = "ce_ReadFile C", OF assms(1,2,3)] assms(4)
  by (simp add: mrmi_main_def cmdAuditVerify_def flag_value_ok_def flag_bool_def flag_str_def parse_bool_def verifyLocal_def)

subsection \<open>Uptime\<close>

text \<open>Below \<open>2^41\<close> units, a remainder of at most \<open>4095/4096\<close> of a unit is cut off.\<close>

lemma trunc_sum:
  assumes fl: "float64_rounding fl" and q: "0 \<le> q" "q < 2 ^ 41" and x: "0 \<le> x" "x \<le> 4095 / 4096"
  shows "truncate_rat (fl (of_int q + fl x)) = q"
proof -
  have "fl (4095 / 4096) = 4095 / 4096" using fl64_exact [OF fl, of 4095 12] by simp
  then have fx: "0 \<le> fl x" "fl x \<le> 4095 / 4096"
    using fl64_mono [OF fl x(1)] fl64_mono [OF fl x(2)] fl64_int [OF fl, of 0] by simp_all
  have "fl (of_int (q * 4096 + 4095) / 2 ^ 12) = of_int (q * 4096 + 4095) / 2 ^ 12"
    using q by (intro fl64_exact [OF fl]) simp_all
  then have hi: "fl (of_int q + 4095 / 4096) = of_int q + 4095 / 4096" by (simp add: add_divide_distrib)
  have lo: "fl (of_int q) = of_int q" using q by (intro fl64_int [OF fl]) simp
  have "of_int q \<le> fl (of_int q + fl x)" using fl64_mono [OF fl, of "of_int q" "of_int q + fl x"] fx lo by simp
  moreover have "fl (of_int q + fl x) \<le> of_int q + 4095 / 4096"
    using fl64_mono [OF fl, of "of_int q + fl x" "of_int q + 4095 / 4096"] fx hi by simp
  ultimately show ?thesis using q(1) by (simp add: truncate_rat_def floor_eq_iff)
qed

lemma dur_units_exact:
  assumes fl: "float64_rounding fl" and d: "0 \<le> d" "d < 2 ^ 63" "d mod second = 0"
    and u: "unit \<in> {second, minute, hour}"
  shows "dur_units fl unit d = d div unit"
proof -
  have u1: "second \<le> unit" "unit \<le> 3600 * second" "unit mod second = 0" "0 < unit"
    using u by (auto simp: duration_defs)
  have ms: "(d mod unit) mod second = 0" using d(3) u1(3) by (metis mod_mod_cancel mod_0_imp_dvd)
  have r: "0 \<le> d mod unit" "d mod unit < unit" using u1 by simp_all
  have "d mod unit \<le> unit - second"
    using ms r u1(3) by (smt (verit, best) duration_defs(3) duration_defs(4) mod_0_imp_dvd zdvd_imp_le dvd_diff)
  then have "(of_int (d mod unit) :: rat) / of_int unit \<le> of_int (unit - second) / of_int unit"
    using u1(4) by (intro divide_right_mono) (simp_all only: of_int_le_iff of_int_0_le_iff)
  also have "\<dots> \<le> 4095 / 4096"
    using u1 by (auto simp: field_simps duration_defs)
  finally have x: "0 \<le> (of_int (d mod unit) :: rat) / of_int unit" "(of_int (d mod unit) :: rat) / of_int unit \<le> 4095 / 4096"
    using r u1(4) by simp_all
  have q: "0 \<le> d div unit" "d div unit < 2 ^ 41"
    using d u1 zdiv_mono2 [of d second unit] zdiv_mono1 [of d "2 ^ 63" second]
    by (simp_all add: pos_imp_zdiv_nonneg_iff duration_defs)
  have bound: "d mod unit \<le> 2 ^ 53" proof -
    have "3600 * second \<le> 2 ^ 53" by (simp add: duration_defs)
    with r(2) u1(2) show ?thesis by linarith
  qed
  have f: "fl (of_int (d div unit)) = of_int (d div unit)" "fl (of_int (d mod unit)) = of_int (d mod unit)"
    using q bound r(1) by (auto intro!: fl64_int [OF fl])
  show ?thesis
    unfolding dur_units_def go_div_nonneg [OF d(1) u1(4)] go_mod_nonneg [OF d(1) u1(4)] f
    by (rule trunc_sum [OF fl q x])
qed

text \<open>
  The uptime a node reports is printed exactly, although the code computes hours, minutes and
  seconds in floating point: every number of seconds that fits a duration is split into its
  hours, minutes and seconds, with the leading zero units left out.
\<close>

theorem uptime_exact:
  assumes "float64_rounding fl" "0 \<le> sec" "sec * second < 2 ^ 63"
  shows "formatUptime fl sec =
    (let h = sec div 3600; m = sec div 60 mod 60; s = sec mod 60
     in if h > 0 then show_int h @ ''h'' @ show_int m @ ''m'' @ show_int s @ ''s''
        else if m > 0 then show_int m @ ''m'' @ show_int s @ ''s''
        else show_int s @ ''s'')"
proof -
  have d: "int64_wrap (sec * second) = sec * second" "0 \<le> sec * second" "(sec * second) mod second = 0"
    using assms(2,3) by (simp_all add: int64_wrap_id duration_defs)
  have u: "dur_units fl u (sec * second) = sec * second div u" if "u \<in> {second, minute, hour}" for u
    using that by (rule dur_units_exact [OF assms(1) d(2) assms(3) d(3)])
  have "sec * second div hour = sec div 3600" "sec * second div minute = sec div 60" "sec * second div second = sec"
    by (simp_all add: duration_defs)
  with u have "dur_units fl hour (sec * second) = sec div 3600" "dur_units fl minute (sec * second) = sec div 60"
    "dur_units fl second (sec * second) = sec" by simp_all
  with assms(2) show ?thesis
    unfolding formatUptime_def d(1) by (simp add: Let_def go_mod_nonneg pos_imp_zdiv_nonneg_iff)
qed

theorem uptime_exact_witness: "formatUptime round64 90061 = ''25h1m1s''"
  using uptime_exact [OF float64_rounding_round64, of 90061]
  by (simp add: duration_defs Let_def show_int_def show_nat.simps char_of_def bit_0)

subsection \<open>Witnesses\<close>

definition demo_cli :: "string \<Rightarrow> cli_env" where
  "demo_cli file =
     \<lparr>ce_LookupTXT = (\<lambda>_. Inr []), ce_Do = (\<lambda>_. DoError ''down''), ce_ReadFile = (\<lambda>_. Inr file),
      ce_WriteFile = (\<lambda>_ _. None), ce_GenerateKey = Inr (''priv'', ''pub''), ce_MarshalPKCS8 = Inr, ce_MarshalPKIX = Inr,
      ce_ParsePKIX = (\<lambda>b. Inr (Some b)), ce_pemEncode = (\<lambda>_ b. b), ce_pemDecode = Some,
      ce_edVerify = (\<lambda>k m sig. sig = k), ce_digest = (\<lambda>_. ''h''), ce_ParseDuration = (\<lambda>_. None), ce_fl = round64,
      ce_jsonErr = (\<lambda>_. ''invalid''), ce_b64Err = (\<lambda>_. ''illegal base64''), ce_Quote = (\<lambda>s. s)\<rparr>"

definition demo_signed_env :: "unit http_env" where
  "demo_signed_env = (demo_http_env (\<lambda>_. []))\<lparr>he_sign := \<lambda>k m. k\<rparr>"

definition demo_signed :: http_server where
  "demo_signed = demo_server\<lparr>sv_PrivKey := Some ''k''\<rparr>"

lemma demo_served_ok: "served_ok demo_signed_env demo_signed"
  by (simp add: served_ok_def audit_doc_ok_def wellknown_payload_def demo_signed_def demo_signed_env_def demo_server_def
      demo_http_env_def demo_api_def demo_gateway_def NewGateway_def RootHash_def cfg_defs is_ascii_def int64_range_def
      unix_defs duration_defs audit_New_def zeroHash_def version_ADR_def version_App_def utf8_valid_ascii)

theorem served_audit_verifies_witness:
  "\<exists>out. mrmi_main ((demo_cli ''k'')\<lparr>ce_Do := tool_serve demo_signed_env \<lparr>rn_cause = \<lambda>_. '''', rn_nilt = \<lambda>_. False, rn_ui = \<lambda>_. (404, [])\<rparr> (\<lambda>_. '''')
       demo_signed () ''http://n''\<rparr>)
     [''audit'', ''verify'', ''--https'', ''--url'', ''http://n'' @ ''/.well-known/mrmi-audit'', ''--pubkey'', ''p''] = Some (prints out)"
  by (rule exI, rule served_audit_verifies [where key = "''k''" and pem = "''k''" and block = "''k''" and pub = "''k''", OF demo_served_ok])
    (simp_all add: demo_signed_def demo_cli_def demo_signed_env_def)

lemma demo_publisher: "\<exists>p. node_publisher DefaultBalancedConfig = Some p"
  by (simp add: node_publisher_def cfg_defs duration_defs)

theorem dns_record_round_trip_witness:
  "\<exists>p. node_publisher DefaultBalancedConfig = Some p \<and>
     mrmi_main ((demo_cli '''')\<lparr>ce_LookupTXT := \<lambda>_. Inr [dnstxt_value (5 * second) ''sha256:0'' p]\<rparr>)
       [''audit'', ''verify'', ''--dns'', ''--node'', nc_NodeID (cfg_Node DefaultBalancedConfig)] =
     Some (prints (''PASS  '' @ (''_mrmi-audit.'' @ nc_NodeID (cfg_Node DefaultBalancedConfig)) @ nl @
       ''      root: sha256:0'' @ nl @ ''      ts:   '' @ show_int 5 @ nl))"
proof -
  obtain p where p: "node_publisher DefaultBalancedConfig = Some p" using demo_publisher by blast
  show ?thesis
    using p dns_record_round_trip [OF p, of "''sha256:0''"
        "(demo_cli '''')\<lparr>ce_LookupTXT := \<lambda>_. Inr [dnstxt_value (5 * second) ''sha256:0'' p]\<rparr>" "5 * second"]
    by (simp add: cfg_defs no_space_def is_ascii_def unix_sec_def duration_defs)
qed

definition demo_export :: audit_Log where
  "demo_export = snd (Append (\<lambda>_. ''h'') 0 DefaultBalancedConfig DecisionAllow ''ok'' 1 ''RS'' ''RU'' '''' '''' audit_New)"

theorem exported_log_passes_witness:
  "mrmi_main (demo_cli (WriteJSON demo_export)) [''audit'', ''verify'', ''--local'', ''--log'', ''f''] =
     Some (prints (''PASS  f'' @ nl @ ''      root: '' @ RootHash demo_export @ nl))"
proof -
  have "log_inv (\<lambda>_. ''h'') demo_export" by (simp add: demo_export_def)
  then have v: "Verify (ce_digest (demo_cli (WriteJSON demo_export))) demo_export = None"
    by (simp add: log_inv_def demo_cli_def)
  have "list_all entry_row_ok (lg_entries demo_export)"
    by (simp add: demo_export_def Append_def appendEntry_def audit_New_def Let_def entry_row_ok_def zeroHash_def cfg_defs
        is_ascii_def int64_range_def hashEntry_def decision_defs unix_defs duration_defs utf8_valid_ascii)
  from exported_log_passes [OF v this, of "''f''"] show ?thesis by (simp add: demo_cli_def)
qed

end
