(* ===== verification/Cli_Token.thy ===== *)
theory Cli_Token
  imports Cli_Props
begin

text \<open>
  Tokens from end to end: \<open>mrmi token issue\<close> (\<open>cmd/mrmi/token.go\<close>) against the management server of
  a node, and the token it prints used by \<open>mrmi node peers\<close> (\<open>cmd/mrmi/node.go\<close>) afterwards. Both
  commands go through the bytes of their requests and answers.
\<close>

definition token_claims :: "'w http_env \<Rightarrow> string \<Rightarrow> int \<Rightarrow> jwt_claims" where
  "token_claims E scope minutes =
     [''scope'' \<mapsto> JStr scope, ''exp'' \<mapsto> JNum (unix_sec (he_clk E 1 + minutes * minute)),
      ''iat'' \<mapsto> JNum (unix_sec (he_clk E 2)), ''jti'' \<mapsto> JStr (he_uuid E 0)]"

lemma decode_token_request:
  assumes "utf8_valid scope" "int64_range m"
  shows "decode_body tokb_tags tokb_put tokb_zero (hr_Body (token_request base key scope m)) =
    Some \<lparr>tb_Scope = scope, tb_TTLMinutes = m\<rparr>"
proof -
  have ok: "tree_ok 0 (TObj [(''scope'', TStr scope), (''ttl_minutes'', TNum (show_int m))])"
    using assms by (simp add: max_depth_def is_ascii_def)
  show ?thesis
    unfolding decode_body_def token_request_def http_req.simps json_Decode_parse [OF parse_json_enc [OF ok]]
    using assms by (simp add: assign_object_def tokb_tags_def tokb_put_def tokb_zero_def match_field_def)
qed

text \<open>What the token endpoint answers to the request of the tool.\<close>

lemma serve_token:
  assumes "api = cfg_API (sv_cfg s)" "api_JWTSecret api \<noteq> ''''" "key \<noteq> ''''" "api_APIKey api \<in> {'''', key}"
    and "scope \<in> {''read'', ''operator''}" "1 \<le> m" "m \<le> 1440"
    and "jl_sign (he_jwt E) (api_JWTSecret api) (token_claims E scope m) = Some tok"
  shows "tool_serve E R derr s w base (token_request base key scope m) =
    Answer 200 (Encode (token_tree tok scope (unix_sec (he_clk E 1 + m * minute))))"
proof -
  let ?r = "\<lparr>rq_Method = ''POST'', rq_Header = req_header (token_request base key scope m), rq_Query = \<lambda>_. ''''\<rparr>"
  have "utf8_valid scope" using assms(5) by (auto simp: is_ascii_def)
  moreover have "int64_range m" using assms(6,7) by (simp add: int64_range_def)
  ultimately have d: "decode_body tokb_tags tokb_put tokb_zero (hr_Body (token_request base key scope m)) =
      Some \<lparr>tb_Scope = scope, tb_TTLMinutes = m\<rparr>"
    by (rule decode_token_request)
  have p: "tl (split_slash [] (drop (length base) (hr_URL (token_request base key scope m)))) = [''api'', ''v1'', ''token'']"
    by (simp add: token_request_def)
  have h: "handle_token E ?r (Some \<lparr>tb_Scope = scope, tb_TTLMinutes = m\<rparr>) s =
      (200, JwtIssued tok scope (unix_sec (he_clk E 1 + m * minute)))"
    using assms
    by (auto simp: handle_token_def checkAuth_def req_header_def token_request_def token_scope_def token_minutes_def
        token_claims_def Let_def)
  have "find_route derr ''POST'' [''api'', ''v1'', ''token''] (hr_Body (token_request base key scope m)) =
      Target (Api (PostToken (Some \<lparr>tb_Scope = scope, tb_TTLMinutes = m\<rparr>)))"
    by (simp add: find_route_def routes_def matches_def takes_method_def any_route_def api_route_def d)
  then show ?thesis
    using h unfolding tool_serve_def p
    by (simp add: http_bytes_def ServeHTTP_def mux_def reading_def answer_text_def body_tree_def token_request_def)
qed

lemma decode_token_answer:
  assumes "utf8_valid tok" "utf8_valid scope" "int64_range ex"
  shows "unmarshal tokr_tags tokr_put (Encode (token_tree tok scope ex)) tokr_zero =
    Some \<lparr>tr_Token = tok, tr_Scope = scope, tr_ExpiresAt = ex\<rparr>"
proof -
  have ok: "tree_ok 0 (TObj [(''expires_at'', TNum (show_int ex)), (''scope'', TStr scope), (''token'', TStr tok)])"
    using assms by (simp add: max_depth_def is_ascii_def)
  show ?thesis
    unfolding token_tree_def unmarshal_Encode [OF ok] using assms by (simp add: tokr_tags_def tokr_put_def tokr_zero_def match_field_def)
qed

lemma ttl_minutes_default: "float64_rounding fl \<Longrightarrow> ttl_minutes fl hour = 60"
  using dur_units_exact [of fl hour minute] by (simp add: ttl_minutes_def duration_defs)

text \<open>The answer to \<open>mrmi node peers --token\<close>: the list, or 401.\<close>

definition with_token :: "string \<Rightarrow> string \<Rightarrow> nodeOpts" where
  "with_token base tok = \<lparr>no_url = base, no_token = tok, no_apiKey = ''''\<rparr>"

lemma decode_error:
  "unmarshal errb_tags errb_put (Encode (TObj [(''error'', TStr ''unauthorized'')])) errb_zero = Some \<lparr>eb_Error = ''unauthorized''\<rparr>"
proof -
  have ok: "tree_ok 0 (TObj [(''error'', TStr ''unauthorized'')])" by (simp add: max_depth_def is_ascii_def)
  show ?thesis unfolding unmarshal_Encode [OF ok] by (simp add: errb_tags_def errb_put_def errb_zero_def match_field_def)
qed

lemma peers_with_token:
  assumes "ce_Do C = tool_serve E R derr s w base" "tok \<noteq> ''''"
  shows "apiGet C (with_token base tok) ''/api/v1/peers'' =
    (if checkAuth (he_jwt E) (he_clk E 0) (api_APIKey (cfg_API (sv_cfg s))) (api_JWTSecret (cfg_API (sv_cfg s))) ''read'' (bearer tok)
     then Inr (snd (answer_text R (handle_peers E s))) else Inl (HTTPStatus 401 ''unauthorized''))"
proof -
  let ?q = "\<lparr>hr_Method = ''GET'', hr_URL = base @ ''/api/v1/peers'', hr_Header = [(''Authorization'', ''Bearer '' @ tok)], hr_Body = ''''\<rparr>"
  have b: "\<lparr>rq_Method = ''GET'', rq_Header = req_header ?q, rq_Query = \<lambda>_. ''''\<rparr> = bearer tok"
    by (auto simp: bearer_def req_header_def)
  have "rq_Method (bearer tok) = ''GET''" by (simp add: bearer_def)
  then have t: "tool_serve E R derr s w base ?q =
      (if checkAuth (he_jwt E) (he_clk E 0) (api_APIKey (cfg_API (sv_cfg s))) (api_JWTSecret (cfg_API (sv_cfg s))) ''read'' (bearer tok)
       then Answer 200 (snd (answer_text R (handle_peers E s)))
       else Answer 401 (Encode (TObj [(''error'', TStr ''unauthorized'')])))"
    unfolding tool_serve_def http_req.simps b
    by (simp add: http_bytes_def find_route_def routes_def matches_def takes_method_def any_route_def api_route_def ServeHTTP_def
        mux_def with_scope_def reading_def answer_text_def body_tree_def handle_peers_def writeJSONError_def Let_def)
  show ?thesis
    using assms(2) t unfolding apiGet_def assms(1) with_token_def nodeOpts.simps
    by (simp add: status_error_def decode_error)
qed

text \<open>
  C28. Tokens work from end to end. With an API key the node accepts, \<open>mrmi token issue\<close> prints a token
  with the scope that was asked for; from then on, at any state of the node with the same
  settings, \<open>mrmi node peers --token\<close> with the printed token gets the list of peers until the
  token expires an hour after its issue and the refusal 401 afterwards; and the node lets the token
  act as an operator exactly when that scope was asked for.
\<close>

theorem tool_token_opens_node:
  assumes "jwt_laws (he_jwt E)" "float64_rounding (ce_fl C)" "ce_Do C = tool_serve E R derr s w base" "base \<noteq> ''''"
    and "api = cfg_API (sv_cfg s)" "api_JWTSecret api \<noteq> ''''" "key \<noteq> ''''" "api_APIKey api \<in> {'''', key}"
    and "scope \<in> {''read'', ''operator''}"
    and "jl_sign (he_jwt E) (api_JWTSecret api) (token_claims E scope 60) = Some tok" "utf8_valid tok" "tok \<noteq> ''''"
    and "ex = unix_sec (he_clk E 1 + hour)" "0 < ex" "ex \<le> 2 ^ 53"
  shows "mrmi_main C [''token'', ''issue'', ''--url'', base, ''--api-key'', key, ''--scope'', scope] =
      Some (prints (''Token:   '' @ tok @ nl @ ''Scope:   '' @ scope @ nl @ ''Expires: '' @ rfc3339 ex @ nl)) \<and>
    (\<forall>C' E' s' w'. ce_Do C' = tool_serve E' R derr s' w' base \<and> he_jwt E' = he_jwt E \<and> sv_cfg s' = sv_cfg s \<longrightarrow>
      apiGet C' (with_token base tok) ''/api/v1/peers'' =
        (if he_clk E' 0 < ex * second then Inr (snd (answer_text R (handle_peers E' s')))
         else Inl (HTTPStatus 401 ''unauthorized''))) \<and>
    (\<forall>now. checkAuth (he_jwt E) now (api_APIKey api) (api_JWTSecret api) ''operator'' (bearer tok) \<longleftrightarrow>
       now < ex * second \<and> scope = ''operator'')"
proof -
  let ?b = "\<lparr>tb_Scope = scope, tb_TTLMinutes = 60\<rparr>"
  have claims: "token_claims E scope 60 ''exp'' = Some (JNum ex)" "token_claims E scope 60 ''nbf'' = None"
    "token_claims E scope 60 ''scope'' = Some (JStr scope)"
    using assms(13) by (simp_all add: token_claims_def duration_defs)
  obtain claims' where J: "\<And>now. jwt_Parse (he_jwt E) now (api_JWTSecret api) tok = (if now < ex * second then Some claims' else None)"
    "carries claims' (token_claims E scope 60)"
    by (rule jwt_Parse_signed [OF assms(1,10) claims(1,2) assms(14,15)]) blast
  have u: "utf8_valid scope" using assms(9) by (auto simp: is_ascii_def)
  note sc = carries_scope [OF J(2) claims(3) u]
  have P: "checkAuth (he_jwt E) now (api_APIKey api) (api_JWTSecret api) sc (bearer tok) \<longleftrightarrow>
      now < ex * second \<and> (sc = ''operator'' \<longrightarrow> scope = ''operator'')" if "sc \<in> {''read'', ''operator''}" for now sc
    using that assms(6,9) J(1) [of now] sc by (auto simp: checkAuth_grants credential_bearer)
  have m: "ttl_minutes (ce_fl C) hour = 60" by (rule ttl_minutes_default [OF assms(2)])
  have "60 * minute = hour" by (simp add: duration_defs)
  then have a: "ce_Do C (token_request base key scope 60) = Answer 200 (Encode (token_tree tok scope ex))"
    unfolding assms(3) using assms(13) serve_token [OF assms(5-9) _ _ assms(10)] by simp
  have "int64_range ex" using assms(14,15) by (simp add: int64_range_def)
  note dec = decode_token_answer [OF assms(11) u this]
  have main: "mrmi_main C [''token'', ''issue'', ''--url'', base, ''--api-key'', key, ''--scope'', scope] =
      Some (prints (''Token:   '' @ tok @ nl @ ''Scope:   '' @ scope @ nl @ ''Expires: '' @ rfc3339 ex @ nl))"
    using assms(4,7,9) m a dec
    by (auto simp: mrmi_main_def cmdToken_def tokenIssue_def flag_value_ok_def flag_str_def)
  have peers: "apiGet C' (with_token base tok) ''/api/v1/peers'' =
        (if he_clk E' 0 < ex * second then Inr (snd (answer_text R (handle_peers E' s')))
         else Inl (HTTPStatus 401 ''unauthorized''))"
    if "ce_Do C' = tool_serve E' R derr s' w' base" "he_jwt E' = he_jwt E" "sv_cfg s' = sv_cfg s" for C' :: cli_env and E' :: "'w http_env" and s' w'
    using peers_with_token [OF that(1) assms(12)] P [of "''read''"] that(2,3) assms(5) by simp
  show ?thesis
  proof (intro conjI allI impI)
    fix now
    show "checkAuth (he_jwt E) now (api_APIKey api) (api_JWTSecret api) ''operator'' (bearer tok) \<longleftrightarrow>
       now < ex * second \<and> scope = ''operator''" by (subst P) simp_all
  next
    fix C' :: cli_env and E' :: "'w http_env" and s' w'
    assume "ce_Do C' = tool_serve E' R derr s' w' base \<and> he_jwt E' = he_jwt E \<and> sv_cfg s' = sv_cfg s"
    then show "apiGet C' (with_token base tok) ''/api/v1/peers'' =
        (if he_clk E' 0 < ex * second then Inr (snd (answer_text R (handle_peers E' s')))
         else Inl (HTTPStatus 401 ''unauthorized''))" by (intro peers) simp_all
  qed (rule main)
qed

definition demo_token_cli :: cli_env where
  "demo_token_cli = (demo_cli '''')\<lparr>ce_Do := tool_serve (demo_http_env (\<lambda>_. [])) \<lparr>rn_cause = \<lambda>_. '''', rn_nilt = \<lambda>_. False, rn_ui = \<lambda>_. (404, [])\<rparr>
     (\<lambda>_. '''') demo_server () ''http://n''\<rparr>"

theorem tool_token_opens_node_witness:
  "mrmi_main demo_token_cli [''token'', ''issue'', ''--url'', ''http://n'', ''--api-key'', ''k'', ''--scope'', ''operator''] =
     Some (prints (''Token:   '' @ ''tok'' @ nl @ ''Scope:   '' @ ''operator'' @ nl @ ''Expires: '' @ rfc3339 3600 @ nl)) \<and>
   checkAuth demo_jwt 0 ''k'' ''s'' ''operator'' (bearer ''tok'')"
proof -
  have "jwt_laws (he_jwt (demo_http_env (\<lambda>_. [])))" by (simp add: demo_http_env_def demo_jwt_laws)
  note T = tool_token_opens_node [OF this, where C = demo_token_cli and base = "''http://n''" and s = demo_server and w = "()"
      and R = "\<lparr>rn_cause = \<lambda>_. '''', rn_nilt = \<lambda>_. False, rn_ui = \<lambda>_. (404, [])\<rparr>" and derr = "\<lambda>_. ''''" and api = "cfg_API demo_api" and key = "''k''"
      and scope = "''operator''" and tok = "''tok''" and ex = 3600]
  have sg: "jl_sign (he_jwt (demo_http_env (\<lambda>_. []))) (api_JWTSecret (cfg_API demo_api))
      (token_claims (demo_http_env (\<lambda>_. [])) ''operator'' 60) = Some ''tok''"
    by (simp add: demo_http_env_def demo_jwt_def demo_claims_def token_claims_def unix_sec_def duration_defs)
  have ex: "3600 = unix_sec (he_clk (demo_http_env (\<lambda>_. [])) 1 + hour)"
    by (simp add: demo_http_env_def unix_sec_def duration_defs)
  note demo = demo_token_cli_def demo_cli_def demo_server_def demo_api_def is_ascii_def int64_range_def float64_rounding_round64
  have "checkAuth (he_jwt (demo_http_env (\<lambda>_. []))) 0 (api_APIKey (cfg_API demo_api)) (api_JWTSecret (cfg_API demo_api)) ''operator'' (bearer ''tok'')"
    by (rule T [THEN conjunct2, THEN conjunct2, THEN spec, THEN iffD2]) (rule sg | rule ex | simp add: demo duration_defs)+
  moreover have "mrmi_main demo_token_cli [''token'', ''issue'', ''--url'', ''http://n'', ''--api-key'', ''k'', ''--scope'', ''operator''] =
     Some (prints (''Token:   '' @ ''tok'' @ nl @ ''Scope:   '' @ ''operator'' @ nl @ ''Expires: '' @ rfc3339 3600 @ nl))"
    by (rule T [THEN conjunct1]) (rule sg | rule ex | simp add: demo)+
  ultimately show ?thesis by (simp add: demo_http_env_def demo_api_def)
qed

end
