(* ===== verification/Gateway_Conc.thy ===== *)
theory Gateway_Conc
  imports Gateway_Runs
begin

text \<open>
  Concurrent requests. The servers call \<open>SendEnvelope\<close> (\<open>internal/core/gateway.go\<close>) from many
  goroutines; what they share is guarded by the locks of the deduplication index, the audit log
  and the revocation list and by the atomic pointer of the policy configuration. \<open>gw_pc\<close> is
  the point a call has reached, \<open>run_section\<close> the code it runs from there up to the end of its next
  access to shared state, and \<open>conc_step\<close> interleaves the sections of any number of calls
  with the other operations on the node. A call that runs without interference is
  \<open>SendEnvelope\<close>; the guarantees of a node are then proved for every interleaving. The call of the
  forwarder is one section.
\<close>

subsection \<open>The sections of a request\<close>

datatype gw_pc =
    Start Envelope
  | AtDummy Envelope
  | AtDedup Envelope
  | AtDuplicate Envelope
  | AtLoad Envelope
  | AtRevoked Envelope Config
  | AtAudit Envelope Config policy_Result
  | AtCallbacks Envelope policy_Result
  | AtForward Envelope policy_Result
  | AtFinality Envelope policy_Result string
  | AtRoot SendResponse
  | Returned "gateway_error + SendResponse"

definition response_of :: "gateway \<Rightarrow> policy_Result \<Rightarrow> string \<Rightarrow> SendResponse" where
  "response_of g result ph =
     \<lparr>rs_Decision = res_Decision result, rs_Reason = res_Reason result, rs_Profile = res_Profile result,
      rs_NodeID = nc_NodeID (cfg_Node (gw_cfg g)), rs_AuditRootHash = '''', rs_PeerAuditRootHash = ph\<rparr>"

definition own_response :: "gateway \<Rightarrow> string \<Rightarrow> string \<Rightarrow> SendResponse" where
  "own_response g d reason =
     response_of g \<lparr>res_Decision = d, res_Reason = reason, res_Profile = pf_Name (cfg_Profile (gw_cfg g))\<rparr> ''''"

definition section_start :: "Envelope \<Rightarrow> gw_pc" where
  "section_start env0 =
     (if ev_IdempotencyKey env0 = '''' then Returned (Inl ErrEmptyIdempotencyKey)
      else if ev_IsDummy env0 then AtDummy (norm_env env0) else AtDedup (norm_env env0))"

definition section_dummy :: "(string \<Rightarrow> string) \<Rightarrow> int \<Rightarrow> Envelope \<Rightarrow> gateway \<Rightarrow> gw_pc \<times> gateway" where
  "section_dummy digest now env g =
     (AtRoot (own_response g DecisionAllow ''DUMMY_TRAFFIC''),
      g\<lparr>gw_audit := snd (Append digest now (gw_cfg g) DecisionDummy ''DUMMY_TRAFFIC'' 0
          (ev_SenderRegion env) (ev_RecipientRegion env) '''' '''' (gw_audit g))\<rparr>)"

definition section_dedup :: "int \<Rightarrow> Envelope \<Rightarrow> gateway \<Rightarrow> gw_pc \<times> gateway" where
  "section_dedup now env g =
     (case register_key now env g of
        (True, g') \<Rightarrow> (AtDuplicate env, g')
      | (False, g') \<Rightarrow> (AtLoad env, g'))"

definition section_duplicate :: "(string \<Rightarrow> string) \<Rightarrow> int \<Rightarrow> Envelope \<Rightarrow> gateway \<Rightarrow> gw_pc \<times> gateway" where
  "section_duplicate digest now env g =
     (AtRoot (own_response g DecisionDuplicate ''idempotency_key already processed''),
      g\<lparr>gw_audit := snd (Append digest now (gw_cfg g) DecisionDuplicate ''DUPLICATE_IDEMPOTENCY_KEY''
          (ev_TrustTier env) (ev_SenderRegion env) (ev_RecipientRegion env) (ev_SchemaType env)
          (ev_SchemaVersion env) (gw_audit g))\<rparr>)"

definition section_audit ::
  "(string \<Rightarrow> string) \<Rightarrow> int \<Rightarrow> Envelope \<Rightarrow> Config \<Rightarrow> policy_Result \<Rightarrow> gateway \<Rightarrow> gw_pc \<times> gateway" where
  "section_audit digest now env cfg result g =
     (AtCallbacks env result,
      g\<lparr>gw_audit := the (appendAudit digest now cfg result (request_of env) (Some (gw_audit g)))\<rparr>)"

definition section_callbacks :: "Envelope \<Rightarrow> policy_Result \<Rightarrow> gateway \<Rightarrow> gw_pc \<times> gw_event list" where
  "section_callbacks env result g =
     (if res_Decision result = DecisionAllow
      then (AtForward env result,
            (if gw_onAllow g then [OnAllow env] else []) @ (if gw_notifier g then [NotifyAll env] else []))
      else (AtRoot (response_of g result ''''), if gw_onDeny g then [OnDeny (res_Reason result)] else []))"

definition section_forward ::
  "('e, 's) forward_fun option \<Rightarrow> int \<Rightarrow> bool \<Rightarrow> Envelope \<Rightarrow> policy_Result \<Rightarrow> gateway \<Rightarrow> 's \<Rightarrow> gw_pc \<times> 's" where
  "section_forward fwd now cancelled env result g s =
     (case fwd of
        None \<Rightarrow> (AtRoot (response_of g result ''''), s)
      | Some F \<Rightarrow>
          if applyJitter cancelled (pf_TimingJitterMax (cfg_Profile (gw_cfg g))) then
            (case F now (applyPadding env (pf_PaddingBucket (cfg_Profile (gw_cfg g)))) s of
               (Inr ph, s') \<Rightarrow>
                 (if ev_SchemaType env = Iso20022 \<and> iso_SettlementFinality (sr_Iso20022 (cfg_SchemaRegistry (gw_cfg g)))
                  then AtFinality env result ph else AtRoot (response_of g result ph), s')
             | (Inl _, s') \<Rightarrow> (AtRoot (response_of g result ''''), s'))
          else (AtRoot (response_of g result ''''), s))"

definition section_finality ::
  "(string \<Rightarrow> string) \<Rightarrow> int \<Rightarrow> Envelope \<Rightarrow> policy_Result \<Rightarrow> string \<Rightarrow> gateway \<Rightarrow> gw_pc \<times> gateway" where
  "section_finality digest now env result ph g =
     (AtRoot (response_of g result ph),
      g\<lparr>gw_audit := snd (AppendFinality digest now (gw_cfg g) (ev_SenderRegion env) (ev_RecipientRegion env)
          (ev_SchemaVersion env) (gw_audit g))\<rparr>)"

fun run_section ::
  "(string \<Rightarrow> string) \<Rightarrow> ('e, 's) forward_fun option \<Rightarrow> int \<Rightarrow> bool \<Rightarrow> gw_pc \<Rightarrow> gateway \<Rightarrow> 's \<Rightarrow>
   gw_pc \<times> gateway \<times> 's \<times> gw_event list" where
  "run_section digest fwd now c (Start env) g s = (section_start env, g, s, [])"
| "run_section digest fwd now c (AtDummy env) g s = (case section_dummy digest now env g of (p, g') \<Rightarrow> (p, g', s, []))"
| "run_section digest fwd now c (AtDedup env) g s = (case section_dedup now env g of (p, g') \<Rightarrow> (p, g', s, []))"
| "run_section digest fwd now c (AtDuplicate env) g s =
     (case section_duplicate digest now env g of (p, g') \<Rightarrow> (p, g', s, if gw_onDuplicate g then [OnDuplicate] else []))"
| "run_section digest fwd now c (AtLoad env) g s = (AtRevoked env (gw_policyCfg g), g, s, [])"
| "run_section digest fwd now c (AtRevoked env cfg) g s =
     (AtAudit env cfg (evaluate_result cfg (gw_crl g) (request_of env)), g, s, [])"
| "run_section digest fwd now c (AtAudit env cfg result) g s =
     (case section_audit digest now env cfg result g of (p, g') \<Rightarrow> (p, g', s, []))"
| "run_section digest fwd now c (AtCallbacks env result) g s =
     (case section_callbacks env result g of (p, evs) \<Rightarrow> (p, g, s, evs))"
| "run_section digest fwd now c (AtForward env result) g s =
     (case section_forward fwd now c env result g s of (p, s') \<Rightarrow> (p, g, s', []))"
| "run_section digest fwd now c (AtFinality env result ph) g s =
     (case section_finality digest now env result ph g of (p, g') \<Rightarrow> (p, g', s, []))"
| "run_section digest fwd now c (AtRoot r) g s =
     (Returned (Inr (r\<lparr>rs_AuditRootHash := RootHash (gw_audit g)\<rparr>)), g, s, [])"
| "run_section digest fwd now c (Returned res) g s = (Returned res, g, s, [])"

subsection \<open>A request without interference\<close>

text \<open>The reading of the clock that a section takes, in the numbering of \<open>SendEnvelope\<close>.\<close>

fun pc_clock :: "gw_pc \<Rightarrow> nat" where
  "pc_clock (AtDummy env) = 1"
| "pc_clock (AtDuplicate env) = 1"
| "pc_clock (AtAudit env cfg result) = 1"
| "pc_clock (AtForward env result) = 2"
| "pc_clock (AtFinality env result ph) = 3"
| "pc_clock _ = 0"

fun alone ::
  "(string \<Rightarrow> string) \<Rightarrow> ('e, 's) forward_fun option \<Rightarrow> (nat \<Rightarrow> int) \<Rightarrow> bool \<Rightarrow> nat \<Rightarrow> gw_pc \<Rightarrow> gateway \<Rightarrow> 's \<Rightarrow>
   gw_pc \<times> gateway \<times> 's \<times> gw_event list" where
  "alone digest fwd clk c 0 p g s = (p, g, s, [])"
| "alone digest fwd clk c (Suc n) p g s =
     (case run_section digest fwd (clk (pc_clock p)) c p g s of
        (p1, g1, s1, evs1) \<Rightarrow>
          (case alone digest fwd clk c n p1 g1 s1 of (p2, g2, s2, evs2) \<Rightarrow> (p2, g2, s2, evs1 @ evs2)))"

lemmas section_defs = section_start_def section_dummy_def section_dedup_def section_duplicate_def section_audit_def
  section_callbacks_def section_forward_def section_finality_def

lemma alone_returned [simp]: "alone digest fwd clk c n (Returned res) g s = (Returned res, g, s, [])"
  by (induction n) auto

lemma alone_root: "alone digest fwd clk c (Suc n) (AtRoot r) g s =
    (Returned (Inr (r\<lparr>rs_AuditRootHash := RootHash (gw_audit g)\<rparr>)), g, s, [])"
  by simp

text \<open>The tail of an allowed request is \<open>forward_allowed\<close>.\<close>

lemma alone_forward:
  assumes "forward_allowed digest clk c fwd env g s = (ph, g', s')"
  shows "alone digest fwd clk c (Suc (Suc (Suc n))) (AtForward env result) g s =
    (Returned (Inr ((response_of g result ph)\<lparr>rs_AuditRootHash := RootHash (gw_audit g')\<rparr>)), g', s', [])"
  using assms
  by (auto simp: forward_allowed_def section_forward_def section_finality_def response_of_def
      split: option.splits if_splits prod.splits sum.splits)

lemma alone_evaluated:
  assumes "Evaluate digest (clk 1) (request_of env) (engine_of g) = (result, e)"
  shows "alone digest fwd clk c (Suc (Suc (Suc n))) (AtLoad env) g s =
    alone digest fwd clk c n (AtCallbacks env result) (put_engine e g) s"
proof -
  have "put_engine e g = g\<lparr>gw_audit := the (appendAudit digest (clk 1) (gw_policyCfg g) result (request_of env) (Some (gw_audit g)))\<rparr>"
    and "result = evaluate_result (gw_policyCfg g) (gw_crl g) (request_of env)"
    using assms by (auto simp: Evaluate_def Let_def engine_of_def put_engine_def appendAudit_def)
  then show ?thesis by (simp add: section_audit_def split: prod.splits)
qed

lemma alone_callbacks:
  assumes "res_Decision result \<noteq> DecisionAllow"
  shows "alone digest fwd clk c (Suc (Suc n)) (AtCallbacks env result) g s =
    (Returned (Inr ((response_of g result '''')\<lparr>rs_AuditRootHash := RootHash (gw_audit g)\<rparr>)), g, s,
     if gw_onDeny g then [OnDeny (res_Reason result)] else [])"
  using assms by (simp add: section_callbacks_def)

lemma put_engine_frame [simp]:
  "gw_cfg (put_engine e g) = gw_cfg g" "gw_onAllow (put_engine e g) = gw_onAllow g"
  "gw_notifier (put_engine e g) = gw_notifier g" "gw_onDeny (put_engine e g) = gw_onDeny g"
  by (simp_all add: put_engine_def)

lemma register_key_frame:
  "register_key now env g = (b, g') \<Longrightarrow>
   gw_cfg g' = gw_cfg g \<and> gw_onAllow g' = gw_onAllow g \<and> gw_notifier g' = gw_notifier g \<and> gw_onDeny g' = gw_onDeny g \<and>
   gw_onDuplicate g' = gw_onDuplicate g"
  by (auto simp: register_key_def split: prod.splits)

lemma alone_passed:
  assumes "Evaluate digest (clk 1) (request_of env) (engine_of g) = (result, e)"
  shows "alone digest fwd clk c (Suc (Suc (Suc (Suc (Suc (Suc (Suc n))))))) (AtLoad env) g s =
    (let g2 = put_engine e g;
         (ph, g3, s', evs) =
           (if res_Decision result = DecisionAllow
            then case forward_allowed digest clk c fwd env g2 s of
                   (ph, g', s') \<Rightarrow> (ph, g', s', (if gw_onAllow g then [OnAllow env] else []) @ (if gw_notifier g then [NotifyAll env] else []))
            else ('''', g2, s, if gw_onDeny g then [OnDeny (res_Reason result)] else []))
     in (Returned (Inr ((response_of g result ph)\<lparr>rs_AuditRootHash := RootHash (gw_audit g3)\<rparr>)), g3, s', evs))"
proof (cases "res_Decision result = DecisionAllow")
  case True
  obtain ph g' s' where f: "forward_allowed digest clk c fwd env (put_engine e g) s = (ph, g', s')" by (rule prod_cases3)
  show ?thesis
    unfolding alone_evaluated [where clk = clk, OF assms] using True f alone_forward [OF f, of n result]
    by (simp add: section_callbacks_def response_of_def Let_def)
next
  case False
  then show ?thesis
    unfolding alone_evaluated [where clk = clk, OF assms] alone_callbacks [OF False] by (simp add: response_of_def Let_def)
qed

lemma own_response_root:
  "(own_response g d reason)\<lparr>rs_AuditRootHash := h\<rparr> =
     \<lparr>rs_Decision = d, rs_Reason = reason, rs_Profile = pf_Name (cfg_Profile (gw_cfg g)), rs_NodeID = nc_NodeID (cfg_Node (gw_cfg g)),
      rs_AuditRootHash = h, rs_PeerAuditRootHash = ''''\<rparr>"
  by (simp add: own_response_def response_of_def)

text \<open>The sections of one call, run one after the other, are the handler.\<close>

lemma alone_SendEnvelope:
  "alone digest fwd clk c 9 (Start env) g s =
     (case SendEnvelope digest clk c fwd env g s of (res, g', s', evs) \<Rightarrow> (Returned res, g', s', evs))"
proof -
  have nine: "9 = Suc (Suc (Suc (Suc (Suc (Suc (Suc (Suc (Suc 0))))))))" by simp
  consider (empty) "ev_IdempotencyKey env = ''''" | (dummy) "ev_IdempotencyKey env \<noteq> ''''" "ev_IsDummy env"
    | (dup) g1 where "ev_IdempotencyKey env \<noteq> ''''" "\<not> ev_IsDummy env" "register_key (clk 0) (norm_env env) g = (True, g1)"
    | (new) g1 where "ev_IdempotencyKey env \<noteq> ''''" "\<not> ev_IsDummy env" "register_key (clk 0) (norm_env env) g = (False, g1)"
    by (cases "register_key (clk 0) (norm_env env) g"; cases "fst (register_key (clk 0) (norm_env env) g)") auto
  then show ?thesis
  proof cases
    case empty
    then show ?thesis by (simp add: nine SendEnvelope_def section_start_def)
  next
    case dummy
    then show ?thesis
      by (simp add: nine SendEnvelope_def section_start_def section_dummy_def own_response_root norm_env_def Let_def)
  next
    case dup
    then show ?thesis using register_key_frame [OF dup(3)]
      by (simp add: nine SendEnvelope_def section_start_def section_dedup_def section_duplicate_def own_response_root
          norm_env_def Let_def)
  next
    case new
    obtain result e where E: "Evaluate digest (clk 1) (request_of (norm_env env)) (engine_of g1) = (result, e)" by force
    have "alone digest fwd clk c 9 (Start env) g s =
        alone digest fwd clk c (Suc (Suc (Suc (Suc (Suc (Suc (Suc 0))))))) (AtLoad (norm_env env)) g1 s"
      using new by (simp add: nine section_start_def section_dedup_def del: alone.simps(2) add: alone.simps(2) [of _ _ _ _ _ "Start env"]
          alone.simps(2) [of _ _ _ _ _ "AtDedup (norm_env env)"] split: prod.splits)
    then show ?thesis
      unfolding alone_passed [where clk = clk, OF E] using new E register_key_frame [OF new(3)]
      by (simp add: SendEnvelope_def norm_env_def response_of_def Let_def split: prod.splits)
  qed
qed

subsection \<open>Interleavings\<close>

type_synonym 's conc_state = "gateway \<times> 's \<times> (nat \<rightharpoonup> gw_pc)"

datatype conc_label =
    CCall nat Envelope
  | CSection nat gw_pc int gw_pc "gw_event list"
  | COther gw_label

fun is_send :: "gw_label \<Rightarrow> bool" where
  "is_send (LSend clk env res evs) = True"
| "is_send _ = False"

fun is_returned :: "gw_pc \<Rightarrow> bool" where
  "is_returned (Returned res) = True"
| "is_returned _ = False"

inductive conc_step ::
  "(string \<Rightarrow> string) \<Rightarrow> ('e, 's) forward_fun option \<Rightarrow> 's conc_state \<Rightarrow> conc_label \<Rightarrow> 's conc_state \<Rightarrow> bool"
  for digest fwd where
  conc_call: "ts i = None \<Longrightarrow> conc_step digest fwd (g, s, ts) (CCall i env) (g, s, ts(i \<mapsto> Start env))"
| conc_section: "\<lbrakk>ts i = Some p; \<not> is_returned p; run_section digest fwd now c p g s = (p', g', s', evs)\<rbrakk> \<Longrightarrow>
     conc_step digest fwd (g, s, ts) (CSection i p now p' evs) (g', s', ts(i \<mapsto> p'))"
| conc_other: "\<lbrakk>gw_step digest fwd (g, s) l (g', s'); \<not> is_send l\<rbrakk> \<Longrightarrow>
     conc_step digest fwd (g, s, ts) (COther l) (g', s', ts)"

inductive_cases conc_stepE: "conc_step digest fwd st l st'"
inductive_simps conc_section_iff: "conc_step digest fwd (g, s, ts) (CSection i p now p' evs) (g', s', ts')"

inductive conc_run ::
  "(string \<Rightarrow> string) \<Rightarrow> ('e, 's) forward_fun option \<Rightarrow> 's conc_state \<Rightarrow> conc_label list \<Rightarrow> 's conc_state \<Rightarrow> bool"
  for digest fwd where
  conc_nil: "conc_run digest fwd st [] st"
| conc_snoc: "\<lbrakk>conc_run digest fwd st ls st1; conc_step digest fwd st1 l st2\<rbrakk> \<Longrightarrow> conc_run digest fwd st (ls @ [l]) st2"

inductive_simps conc_run_nil_iff [simp]: "conc_run digest fwd st [] st'"

lemma conc_run_snoc_iff:
  "conc_run digest fwd st (ls @ [l]) st' \<longleftrightarrow> (\<exists>st1. conc_run digest fwd st ls st1 \<and> conc_step digest fwd st1 l st')"
  by (subst conc_run.simps) blast

text \<open>The times at which the deduplication index is read or purged.\<close>

fun ctime :: "conc_label \<Rightarrow> int option" where
  "ctime (CSection i (AtDedup env) now p evs) = Some now"
| "ctime (COther l) = label_time l"
| "ctime _ = None"

subsection \<open>The invariant under interleaving\<close>

lemma run_section_inv:
  assumes "run_section digest fwd now c p g s = (p', g', s', evs)" "gw_inv digest g"
  shows "gw_inv digest g'"
  using assms
  by (cases p) (auto simp: section_defs register_key_cases after_register_def gw_inv_def appendAudit_def
      split: prod.splits if_splits option.splits sum.splits)

lemma run_section_frame:
  assumes "run_section digest fwd now c p g s = (p', g', s', evs)"
  shows "gw_cfg g' = gw_cfg g \<and> gw_policyCfg g' = gw_policyCfg g \<and> gw_crl g' = gw_crl g \<and> ix_ttl (gw_dedup g') = ix_ttl (gw_dedup g)"
  using assms
  by (cases p) (auto simp: section_defs register_key_cases after_register_def put_key_def
      split: prod.splits if_splits option.splits sum.splits)

lemma conc_step_inv: "conc_step digest fwd st l st' \<Longrightarrow> gw_inv digest (fst st) \<Longrightarrow> gw_inv digest (fst st')"
  by (erule conc_step.cases) (auto dest: run_section_inv gw_step_inv)

lemma conc_run_inv: "conc_run digest fwd st ls st' \<Longrightarrow> gw_inv digest (fst st) \<Longrightarrow> gw_inv digest (fst st')"
  by (induction rule: conc_run.induct) (auto intro: conc_step_inv)

lemma gw_step_key_ttl:
  assumes "gw_step digest fwd st l st'" "\<not> is_send l"
  shows "gw_cfg (fst st') = gw_cfg (fst st) \<and> ix_ttl (gw_dedup (fst st')) = ix_ttl (gw_dedup (fst st))"
  using assms by (cases rule: gw_step.cases) (auto simp: dedup_Purge_def Reload_def engine_of_def put_engine_def split: option.splits)

lemma conc_step_key_ttl:
  "conc_step digest fwd st l st' \<Longrightarrow> key_ttl (fst st') env = key_ttl (fst st) env"
  by (erule conc_step.cases) (auto simp: key_ttl_def dest!: run_section_frame gw_step_key_ttl)

lemma conc_run_key_ttl: "conc_run digest fwd st ls st' \<Longrightarrow> key_ttl (fst st') env = key_ttl (fst st) env"
  by (induction rule: conc_run.induct) (auto simp: conc_step_key_ttl)

subsection \<open>One pass per key\<close>

text \<open>While a key is live no section lets another call with that key pass the index.\<close>

lemma run_section_dedup:
  assumes "run_section digest fwd now c p g s = (p', g', s', evs)"
  shows "(case p of AtDedup env \<Rightarrow>
      if is_duplicate g now (ev_IdempotencyKey env) then p' = AtDuplicate env \<and> g' = g
      else p' = AtLoad env \<and> g' = after_register now env g
    | _ \<Rightarrow> gw_dedup g' = gw_dedup g)"
  using assms
  by (cases p) (auto simp: section_defs register_key_cases split: prod.splits if_splits option.splits sum.splits)

lemma conc_step_live:
  assumes "conc_step digest fwd st l st'" "gw_inv digest (fst st)" "expiry (gw_dedup (fst st)) k = Some e"
    and "\<And>t. ctime l = Some t \<Longrightarrow> t < e"
  shows "expiry (gw_dedup (fst st')) k = Some e"
  using assms(1)
proof (cases rule: conc_step.cases)
  case (conc_section ts i p now c g s p' g' s' evs)
  have "dedup_inv (gw_dedup g)" using assms(2) conc_section(1) by (simp add: gw_inv_def)
  moreover have "expiry (gw_dedup g) k = Some e" using assms(3) conc_section(1) by simp
  moreover have "now < e" if "p = AtDedup env" for env using assms(4) conc_section(2) that by simp
  ultimately have "expiry (gw_dedup g') k = Some e" using run_section_dedup [OF conc_section(6)]
    by (cases p) (auto simp: is_duplicate_def after_register_def split: if_splits)
  then show ?thesis using conc_section(3) by simp
next
  case (conc_other g s l0 g' s' ts)
  then show ?thesis using gw_step_live [OF conc_other(4)] assms by auto
qed (use assms(3) in auto)

lemma conc_run_live:
  assumes "conc_run digest fwd st ls st'" "gw_inv digest (fst st)" "expiry (gw_dedup (fst st)) k = Some e"
    and "\<forall>l \<in> set ls. \<forall>t. ctime l = Some t \<longrightarrow> t < e"
  shows "expiry (gw_dedup (fst st')) k = Some e"
  using assms
proof (induction rule: conc_run.induct)
  case (conc_snoc st ls st1 l st2)
  then show ?case by (intro conc_step_live [OF conc_snoc(2)] conc_run_inv [OF conc_snoc(1)]) auto
qed simp

text \<open>A call passes the index when its section there leads to the policy engine.\<close>

definition passes :: "nat \<Rightarrow> Envelope \<Rightarrow> int \<Rightarrow> conc_label \<Rightarrow> bool" where
  "passes i env t l \<longleftrightarrow> (\<exists>evs. l = CSection i (AtDedup env) t (AtLoad env) evs)"

lemma conc_run_append:
  "conc_run digest fwd st (ls1 @ ls2) st' \<longleftrightarrow> (\<exists>st1. conc_run digest fwd st ls1 st1 \<and> conc_run digest fwd st1 ls2 st')"
proof (induction ls2 arbitrary: st' rule: rev_induct)
  case (snoc l ls2)
  have "conc_run digest fwd st (ls1 @ ls2 @ [l]) st' \<longleftrightarrow>
      (\<exists>st2. conc_run digest fwd st (ls1 @ ls2) st2 \<and> conc_step digest fwd st2 l st')"
    using conc_run_snoc_iff [of digest fwd st "ls1 @ ls2"] by simp
  also have "\<dots> \<longleftrightarrow> (\<exists>st1. conc_run digest fwd st ls1 st1 \<and> conc_run digest fwd st1 (ls2 @ [l]) st')"
    unfolding snoc conc_run_snoc_iff by blast
  finally show ?case .
qed (simp del: split_paired_Ex)

lemma conc_run_one: "conc_run digest fwd st [l] st' \<longleftrightarrow> conc_step digest fwd st l st'"
  using conc_run_snoc_iff [of digest fwd st "[]" l st'] by auto

lemma passes_registers:
  assumes "conc_step digest fwd st l st'" "passes i env t l" "gw_inv digest (fst st)"
  shows "expiry (gw_dedup (fst st')) (ev_IdempotencyKey env) = Some (t + key_ttl (fst st) env) \<and>
    \<not> is_duplicate (fst st) t (ev_IdempotencyKey env)"
proof -
  obtain g s ts g' s' ts' where st: "st = (g, s, ts)" "st' = (g', s', ts')" by (metis prod_cases3)
  then obtain evs c where "run_section digest fwd t c (AtDedup env) g s = (AtLoad env, g', s', evs)"
    using assms(1,2) by (auto simp: passes_def conc_section_iff simp del: run_section.simps)
  from run_section_dedup [OF this] show ?thesis using assms(3)
    by (auto simp: st gw_inv_def after_register_def split: if_splits)
qed

text \<open>Two passes for one key are a time to live apart, whatever happens between them.\<close>

lemma passes_apart:
  assumes "conc_run digest fwd st (ls1 @ l # ls2 @ l' # ls3) st'" "gw_inv digest (fst st)"
    and "passes i env t l" "passes j env' t' l'" "ev_IdempotencyKey env' = ev_IdempotencyKey env"
    and "\<forall>m \<in> set ls2. \<forall>u. ctime m = Some u \<longrightarrow> u < t + key_ttl (fst st) env"
  shows "t + key_ttl (fst st) env \<le> t'"
proof (rule ccontr)
  assume less: "\<not> ?thesis"
  obtain st1 st2 st3 st4 where r: "conc_run digest fwd st ls1 st1" "conc_step digest fwd st1 l st2"
    "conc_run digest fwd st2 ls2 st3" "conc_step digest fwd st3 l' st4"
    using assms(1) conc_run_append [of digest fwd _ "[l]"] conc_run_append [of digest fwd _ "[l']" ls3]
    by (auto simp: conc_run_append conc_run_one)
  have inv: "gw_inv digest (fst st1)" "gw_inv digest (fst st2)" "gw_inv digest (fst st3)"
    using conc_run_inv conc_step_inv r assms(2) by blast+
  have "expiry (gw_dedup (fst st2)) (ev_IdempotencyKey env) = Some (t + key_ttl (fst st) env)"
    using passes_registers [OF r(2) assms(3) inv(1)] conc_run_key_ttl [OF r(1)] by simp
  then have "expiry (gw_dedup (fst st3)) (ev_IdempotencyKey env) = Some (t + key_ttl (fst st) env)"
    by (rule conc_run_live [OF r(3) inv(2)]) (use assms(6) in auto)
  with less have "is_duplicate (fst st3) t' (ev_IdempotencyKey env')" by (simp add: is_duplicate_def assms(5))
  with passes_registers [OF r(4) assms(4) inv(3)] show False by blast
qed

subsection \<open>Progress of a call\<close>

text \<open>The number of sections a call has left, at most.\<close>

fun pc_left :: "gw_pc \<Rightarrow> nat" where
  "pc_left (Start env) = 9"
| "pc_left (AtDummy env) = 2"
| "pc_left (AtDedup env) = 8"
| "pc_left (AtDuplicate env) = 2"
| "pc_left (AtLoad env) = 7"
| "pc_left (AtRevoked env cfg) = 6"
| "pc_left (AtAudit env cfg result) = 5"
| "pc_left (AtCallbacks env result) = 4"
| "pc_left (AtForward env result) = 3"
| "pc_left (AtFinality env result ph) = 2"
| "pc_left (AtRoot r) = 1"
| "pc_left (Returned res) = 0"

lemma pc_left_0: "pc_left p = 0 \<longleftrightarrow> is_returned p"
  by (cases p) auto

lemma run_section_left:
  "run_section digest fwd now c p g s = (p', g', s', evs) \<Longrightarrow> \<not> is_returned p \<Longrightarrow> pc_left p' < pc_left p"
  by (cases p) (auto simp: section_defs split: prod.splits bool.splits if_splits option.splits sum.splits)

fun section_by :: "nat \<Rightarrow> conc_label \<Rightarrow> bool" where
  "section_by i (CSection j p now p' evs) \<longleftrightarrow> i = j"
| "section_by i _ \<longleftrightarrow> False"

text \<open>
  An invariant of the calls of a run that starts with no call in progress: what holds of a
  call when it begins, with no section behind it, and is kept by each of its sections, whatever the
  shared state then is, holds of every call at any time.
\<close>

definition hist :: "nat \<Rightarrow> conc_label list \<Rightarrow> conc_label list" where
  "hist i ls = filter (section_by i) ls"

lemma hist_snoc [simp]:
  "hist i [] = []"
  "hist i (ls @ [CCall j env]) = hist i ls" "hist i (ls @ [COther m]) = hist i ls"
  "hist i (ls @ [CSection j p now p' evs]) = (if i = j then hist i ls @ [CSection j p now p' evs] else hist i ls)"
  by (simp_all add: hist_def)

locale thread_inv =
  fixes digest :: "string \<Rightarrow> string" and fwd :: "('e, 's) forward_fun option"
    and P :: "nat \<Rightarrow> gw_pc \<Rightarrow> conc_label list \<Rightarrow> bool"
  assumes begins: "\<And>i env. P i (Start env) []"
    and keeps: "\<And>i p h now c g s p' g' s' evs. \<lbrakk>P i p h; \<not> is_returned p;
      run_section digest fwd now c p g s = (p', g', s', evs)\<rbrakk> \<Longrightarrow> P i p' (h @ [CSection i p now p' evs])"
begin

lemma holds:
  assumes "conc_run digest fwd st ls st'" "snd (snd st) = Map.empty"
  shows "case snd (snd st') i of None \<Rightarrow> hist i ls = [] | Some p \<Rightarrow> P i p (hist i ls)"
  using assms
proof (induction arbitrary: i rule: conc_run.induct)
  case (conc_snoc st ls st1 l st2)
  note IH = conc_snoc.IH [OF conc_snoc.prems]
  from conc_snoc(2) show ?case
  proof (cases rule: conc_step.cases)
    case (conc_call ts j g s env)
    then show ?thesis using IH [of i] begins by (auto split: option.splits)
  next
    case (conc_section ts j q now c g s q' g' s' evs)
    then show ?thesis using IH [of i] keeps [OF _ conc_section(5,6)] by (auto split: option.splits)
  next
    case (conc_other g s m g' s' ts)
    then show ?thesis using IH [of i] by (auto split: option.splits)
  qed
qed simp

lemma thread:
  "conc_run digest fwd (g, s, Map.empty) ls (g', s', ts) \<Longrightarrow> ts i = Some p \<Longrightarrow> P i p (hist i ls)"
  using holds [of "(g, s, Map.empty)" ls "(g', s', ts)" i] by simp

end

interpretation progress: thread_inv digest fwd "\<lambda>i p h. length h + pc_left p \<le> 9"
  for digest and fwd :: "('e, 's) forward_fun option"
  by unfold_locales (auto dest: run_section_left)

subsection \<open>One call of the forwarder per key\<close>

fun passed_env :: "gw_pc \<Rightarrow> Envelope option" where
  "passed_env (AtLoad env) = Some env"
| "passed_env (AtRevoked env cfg) = Some env"
| "passed_env (AtAudit env cfg result) = Some env"
| "passed_env (AtCallbacks env result) = Some env"
| "passed_env (AtForward env result) = Some env"
| "passed_env (AtFinality env result ph) = Some env"
| "passed_env _ = None"

fun forward_env :: "conc_label \<Rightarrow> Envelope option" where
  "forward_env (CSection i (AtForward env result) now p evs) = Some env"
| "forward_env _ = None"

definition passed_ok :: "nat \<Rightarrow> gw_pc \<Rightarrow> conc_label list \<Rightarrow> bool" where
  "passed_ok i p h \<longleftrightarrow>
     (\<forall>env. passed_env p = Some env \<or> (\<exists>l \<in> set h. forward_env l = Some env) \<longrightarrow> (\<exists>t. \<exists>l \<in> set h. passes i env t l)) \<and>
     ((\<exists>l \<in> set h. forward_env l \<noteq> None) \<longrightarrow> pc_left p < 3)"

lemma run_section_passed:
  assumes "run_section digest fwd now c p g s = (p', g', s', evs)" "passed_env p' = Some env"
  shows "passed_env p = Some env \<or> passes i env now (CSection i p now p' evs)"
  using assms
  by (cases p) (auto simp: section_defs passes_def split: prod.splits bool.splits if_splits option.splits sum.splits)

lemma forward_env_section: "forward_env (CSection i p now p' evs) = Some env \<Longrightarrow> passed_env p = Some env \<and> pc_left p = 3"
  by (cases p) auto

interpretation passed: thread_inv digest fwd passed_ok
  for digest and fwd :: "('e, 's) forward_fun option"
proof
  fix i p h now c g s p' g' s' evs
  assume P: "passed_ok i p h" "\<not> is_returned p" and r: "run_section digest fwd now c p g s = (p', g', s', evs)"
  have "\<exists>t. \<exists>l \<in> set (h @ [CSection i p now p' evs]). passes i env t l"
    if "passed_env p' = Some env \<or> (\<exists>l \<in> set (h @ [CSection i p now p' evs]). forward_env l = Some env)" for env
    using that P(1) run_section_passed [OF r, of env i] forward_env_section [of i p now p' evs env]
    unfolding passed_ok_def by fastforce
  moreover have "pc_left p' < 3" if "\<exists>l \<in> set (h @ [CSection i p now p' evs]). forward_env l \<noteq> None"
    using that P(1) run_section_left [OF r P(2)] forward_env_section [of i p now p' evs]
    unfolding passed_ok_def by fastforce
  ultimately show "passed_ok i p' (h @ [CSection i p now p' evs])" unfolding passed_ok_def by blast
qed (simp add: passed_ok_def)

lemma hist_mem: "l \<in> set (hist i ls) \<longleftrightarrow> l \<in> set ls \<and> section_by i l"
  by (auto simp: hist_def)

lemma two_members:
  assumes "x \<in> set xs" "y \<in> set xs" "x \<noteq> y"
  obtains (xy) as bs cs where "xs = as @ x # bs @ y # cs" | (yx) as bs cs where "xs = as @ y # bs @ x # cs"
proof -
  obtain as cs where xs: "xs = as @ x # cs" using split_list [OF assms(1)] by blast
  then consider "y \<in> set as" | "y \<in> set cs" using assms(2,3) by auto
  then show thesis
  proof cases
    case 1
    then show thesis using yx xs split_list [of y as] by fastforce
  next
    case 2
    then show thesis using xy xs split_list [of y cs] by fastforce
  qed
qed

text \<open>All readings of the clock at the index lie in a window shorter than the times to live.\<close>

definition in_window :: "int \<Rightarrow> int \<Rightarrow> conc_label list \<Rightarrow> bool" where
  "in_window lo d ls \<longleftrightarrow> (\<forall>l \<in> set ls. \<forall>u. ctime l = Some u \<longrightarrow> lo \<le> u \<and> u < lo + d)"

definition shortest_ttl :: "gateway \<Rightarrow> int" where
  "shortest_ttl g = min (ix_ttl (gw_dedup g)) (iso20022_ttl (gw_cfg g))"

lemma one_pass:
  assumes "conc_run digest fwd st ls st'" "gw_inv digest (fst st)" "in_window lo (shortest_ttl (fst st)) ls"
    and "l \<in> set ls" "passes i env t l" "l' \<in> set ls" "passes j env' t' l'" "ev_IdempotencyKey env' = ev_IdempotencyKey env"
  shows "l = l'"
proof (rule ccontr)
  assume "l \<noteq> l'"
  have k: "shortest_ttl (fst st) \<le> key_ttl (fst st) e" for e by (simp add: shortest_ttl_def key_ttl_def)
  have t: "lo \<le> t" "t < lo + shortest_ttl (fst st)" "lo \<le> t'" "t' < lo + shortest_ttl (fst st)"
    using assms(3-7) by (fastforce simp: in_window_def passes_def)+
  from assms(4,6) \<open>l \<noteq> l'\<close> show False
  proof (cases rule: two_members)
    case (xy as bs cs)
    have "\<forall>m \<in> set bs. \<forall>u. ctime m = Some u \<longrightarrow> u < t + key_ttl (fst st) env"
      using assms(3) k [of env] t(1) by (fastforce simp: in_window_def xy)
    from passes_apart [OF assms(1,2) [unfolded xy] assms(5,7,8) this] k [of env] t show False by simp
  next
    case (yx as bs cs)
    have "\<forall>m \<in> set bs. \<forall>u. ctime m = Some u \<longrightarrow> u < t' + key_ttl (fst st) env'"
      using assms(3) k [of env'] t(3) by (fastforce simp: in_window_def yx)
    from passes_apart [OF assms(1,2) [unfolded yx] assms(7,5) assms(8) [symmetric] this] k [of env'] t show False by simp
  qed
qed

definition forwards :: "string \<Rightarrow> conc_label \<Rightarrow> bool" where
  "forwards k l \<longleftrightarrow> (case forward_env l of None \<Rightarrow> False | Some env \<Rightarrow> ev_IdempotencyKey env = k)"

lemma forwards_section:
  "forwards k l \<Longrightarrow> \<exists>i env result now p evs. l = CSection i (AtForward env result) now p evs \<and> ev_IdempotencyKey env = k"
  by (cases l rule: forward_env.cases) (auto simp: forwards_def)

lemma in_window_snoc: "in_window lo d (ls @ [l]) \<Longrightarrow> in_window lo d ls"
  by (simp add: in_window_def)

lemma forward_once:
  assumes "conc_run digest fwd st ls st'" "snd (snd st) = Map.empty" "gw_inv digest (fst st)"
    and "in_window lo (shortest_ttl (fst st)) ls"
  shows "length (filter (forwards k) ls) \<le> 1"
  using assms
proof (induction rule: conc_run.induct)
  case (conc_snoc st ls st1 l st2)
  note run = conc_snoc(1) and w = in_window_snoc [OF conc_snoc.prems(3)]
  have IH: "length (filter (forwards k) ls) \<le> 1" by (rule conc_snoc.IH [OF conc_snoc.prems(1,2) w])
  show ?case
  proof (cases "forwards k l \<and> filter (forwards k) ls \<noteq> []")
    case True
    then obtain m where m: "m \<in> set ls" "forwards k m" by (auto simp: filter_empty_conv)
    obtain i env r t p evs where i: "m = CSection i (AtForward env r) t p evs" "ev_IdempotencyKey env = k"
      using forwards_section [OF m(2)] by blast
    obtain j env' r' t' p' evs' where j: "l = CSection j (AtForward env' r') t' p' evs'" "ev_IdempotencyKey env' = k"
      using forwards_section True by blast
    have tj: "snd (snd st1) j = Some (AtForward env' r')" using conc_snoc(2) by (auto simp: j(1) elim: conc_stepE)
    note H = passed.holds [OF run conc_snoc.prems(1)]
    have mi: "m \<in> set (hist i ls)" using m(1) by (simp add: hist_mem i(1))
    then obtain q where q: "passed_ok i q (hist i ls)" "snd (snd st1) i = Some q" using H [of i] by (auto split: option.splits)
    then obtain u a where a: "a \<in> set (hist i ls)" "passes i env u a" and left: "pc_left q < 3"
      using mi unfolding passed_ok_def by (fastforce simp: i(1))
    have "passed_ok j (AtForward env' r') (hist j ls)" using H [of j] tj by simp
    then obtain u' a' where a': "a' \<in> set (hist j ls)" "passes j env' u' a'" unfolding passed_ok_def by fastforce
    have "a = a'"
      using one_pass [OF run conc_snoc.prems(2) w] a a' i(2) j(2) by (auto simp: hist_mem)
    then have "i = j" using a(2) a'(2) by (auto simp: passes_def)
    with q(2) tj left show ?thesis by auto
  qed (use IH in auto)
qed simp

subsection \<open>The audit trail of interleaved calls\<close>

text \<open>The decisions that the sections of a run record, with the call they belong to.\<close>

fun recorded :: "conc_label \<Rightarrow> (nat \<times> string) list" where
  "recorded (CSection i (AtDummy env) now p evs) = [(i, DecisionDummy)]"
| "recorded (CSection i (AtDuplicate env) now p evs) = [(i, DecisionDuplicate)]"
| "recorded (CSection i (AtAudit env cfg result) now p evs) = [(i, res_Decision result)]"
| "recorded (CSection i (AtFinality env result ph) now p evs) = [(i, DecisionSettlementFinal)]"
| "recorded _ = []"

definition trail :: "conc_label list \<Rightarrow> (nat \<times> string) list" where
  "trail ls = concat (map recorded ls)"

text \<open>The trail of one call.\<close>

definition trail_of :: "nat \<Rightarrow> conc_label list \<Rightarrow> string list" where
  "trail_of i ls = map snd (filter (\<lambda>x. fst x = i) (trail ls))"

lemma trail_snoc [simp]: "trail [] = []" "trail (ls @ [l]) = trail ls @ recorded l"
  by (simp_all add: trail_def)

lemma recorded_by: "(j, d) \<in> set (recorded l) \<Longrightarrow> section_by j l"
  by (cases l rule: recorded.cases) auto

lemma trail_of_hist: "trail_of i ls = map snd (trail (hist i ls))"
proof -
  have "map snd (filter (\<lambda>x. fst x = i) (recorded l)) = (if section_by i l then map snd (recorded l) else [])" for l
    by (cases l rule: recorded.cases) auto
  then show ?thesis by (induction ls) (auto simp: trail_of_def trail_def hist_def)
qed

definition answer_recorded :: "SendResponse \<Rightarrow> string list \<Rightarrow> bool" where
  "answer_recorded r ds \<longleftrightarrow>
     ds = [rs_Decision r] \<or>
     rs_Decision r = DecisionAllow \<and> (ds = [DecisionDummy] \<or> ds = [DecisionAllow, DecisionSettlementFinal])"

fun trail_ok :: "gw_pc \<Rightarrow> string list \<Rightarrow> bool" where
  "trail_ok (AtCallbacks env result) ds \<longleftrightarrow> ds = [res_Decision result]"
| "trail_ok (AtForward env result) ds \<longleftrightarrow> ds = [res_Decision result] \<and> res_Decision result = DecisionAllow"
| "trail_ok (AtFinality env result ph) ds \<longleftrightarrow> ds = [res_Decision result] \<and> res_Decision result = DecisionAllow"
| "trail_ok (AtRoot r) ds \<longleftrightarrow> answer_recorded r ds"
| "trail_ok (Returned (Inr r)) ds \<longleftrightarrow> answer_recorded r ds"
| "trail_ok _ ds \<longleftrightarrow> ds = []"

interpretation trail: thread_inv digest fwd "\<lambda>i p h. trail_ok p (map snd (trail h))"
  for digest and fwd :: "('e, 's) forward_fun option"
proof
  fix i p h now c g s p' g' s' evs
  assume "trail_ok p (map snd (trail h))" "run_section digest fwd now c p g s = (p', g', s', evs)"
  then show "trail_ok p' (map snd (trail (h @ [CSection i p now p' evs])))"
    by (cases p) (auto simp: section_defs own_response_def response_of_def answer_recorded_def
        split: prod.splits bool.splits if_splits option.splits sum.splits)
qed simp

lemma run_section_log:
  assumes "run_section digest fwd now c p g s = (p', g', s', evs)"
  shows "\<exists>new. lg_entries (gw_audit g') = lg_entries (gw_audit g) @ new \<and>
    map ae_Decision new = map snd (recorded (CSection i p now p' evs))"
  using assms
  by (cases p) (auto simp: section_defs register_key_cases after_register_def appendAudit_def Append_entries
      AppendFinality_entries Append_fields split: prod.splits bool.splits if_splits option.splits sum.splits)

lemma gw_step_log:
  "gw_step digest fwd st l st' \<Longrightarrow> \<not> is_send l \<Longrightarrow> gw_audit (fst st') = gw_audit (fst st)"
  by (erule gw_step.cases) (auto simp: Reload_def engine_of_def put_engine_def split: option.splits)

lemma conc_run_log:
  assumes "conc_run digest fwd st ls st'"
  shows "\<exists>new. lg_entries (gw_audit (fst st')) = lg_entries (gw_audit (fst st)) @ new \<and> map ae_Decision new = map snd (trail ls)"
  using assms
proof (induction rule: conc_run.induct)
  case (conc_snoc st ls st1 l st2)
  have "\<exists>new. lg_entries (gw_audit (fst st2)) = lg_entries (gw_audit (fst st1)) @ new \<and> map ae_Decision new = map snd (recorded l)"
    using conc_snoc(2)
  proof (cases rule: conc_step.cases)
    case (conc_section ts j q now c g s q' g' s' evs)
    then show ?thesis using run_section_log [OF conc_section(6), of j] by simp
  qed (use gw_step_log in fastforce)+
  with conc_snoc.IH show ?case by fastforce
qed simp

subsection \<open>Revocation under interleaving\<close>

lemma conc_step_revoked:
  assumes "conc_step digest fwd st l st'" "gw_inv digest (fst st)" "gw_crl (fst st) = Some cs" "IsRevoked cs n"
  shows "\<exists>cs'. gw_crl (fst st') = Some cs' \<and> IsRevoked cs' n"
  using assms(1)
proof (cases rule: conc_step.cases)
  case (conc_section ts i p now c g s p' g' s' evs)
  then show ?thesis using run_section_frame [OF conc_section(6)] assms(3,4) by simp
next
  case (conc_other g s m g' s' ts)
  then show ?thesis using gw_step_revoked [OF conc_other(4)] assms by simp
qed (use assms in auto)

lemma conc_run_revoked:
  assumes "conc_run digest fwd st ls st'" "gw_inv digest (fst st)" "gw_crl (fst st) = Some cs" "IsRevoked cs n"
  shows "\<exists>cs'. gw_crl (fst st') = Some cs' \<and> IsRevoked cs' n"
  using assms
proof (induction rule: conc_run.induct)
  case (conc_snoc st ls st1 l st2)
  then show ?case using conc_step_revoked conc_run_inv by blast
qed auto

text \<open>The envelope of a call that has passed the revocation check with the decision ALLOW.\<close>

fun cleared :: "gw_pc \<Rightarrow> Envelope option" where
  "cleared (AtAudit env cfg result) = (if res_Decision result = DecisionAllow then Some env else None)"
| "cleared (AtCallbacks env result) = (if res_Decision result = DecisionAllow then Some env else None)"
| "cleared (AtForward env result) = Some env"
| "cleared (AtFinality env result ph) = Some env"
| "cleared _ = None"

fun told_allowed :: "conc_label \<Rightarrow> Envelope \<Rightarrow> bool" where
  "told_allowed (CSection i p now p' evs) env \<longleftrightarrow> OnAllow env \<in> set evs \<or> NotifyAll env \<in> set evs"
| "told_allowed _ env \<longleftrightarrow> False"

lemma run_section_cleared:
  assumes "run_section digest fwd now c p g s = (p', g', s', evs)"
  shows "cleared p' = Some env \<Longrightarrow> cleared p = Some env \<or>
      (\<exists>cfg. p = AtRevoked env cfg \<and> res_Decision (evaluate_result cfg (gw_crl g) (request_of env)) = DecisionAllow)"
    and "OnAllow env \<in> set evs \<or> NotifyAll env \<in> set evs \<Longrightarrow> cleared p = Some env"
  using assms
  by (cases p; auto simp: section_defs split: prod.splits bool.splits if_splits option.splits sum.splits)+

lemma conc_step_cleared:
  assumes "conc_step digest fwd (g, s, ts) l (g', s', ts')" "gw_crl g = Some cs" "IsRevoked cs n"
    and c: "\<forall>i p env. ts i = Some p \<and> cleared p = Some env \<longrightarrow> ev_SenderNodeID env \<noteq> n"
  shows "(\<forall>i p env. ts' i = Some p \<and> cleared p = Some env \<longrightarrow> ev_SenderNodeID env \<noteq> n) \<and>
    (\<forall>env. (forward_env l = Some env \<or> told_allowed l env) \<longrightarrow> ev_SenderNodeID env \<noteq> n)"
  using assms(1)
proof (cases rule: conc_step.cases)
  case (conc_section i p now c p' evs)
  have "ev_SenderNodeID env \<noteq> n" if "cleared p' = Some env" for env
    using run_section_cleared(1) [OF conc_section(5) that] c conc_section(3) assms(2,3)
    by (auto simp: evaluate_result_def request_of_def deny_def)
  moreover have "ev_SenderNodeID env \<noteq> n" if "forward_env l = Some env \<or> told_allowed l env" for env
  proof -
    have "cleared p = Some env"
      using that run_section_cleared(2) [OF conc_section(5), of env] conc_section(1) by (cases p) auto
    then show ?thesis using c conc_section(3) by blast
  qed
  ultimately show ?thesis using c conc_section(2) by (auto split: if_splits)
qed (use c in \<open>auto split: if_splits\<close>)

lemma conc_run_cleared:
  assumes "conc_run digest fwd st ls st'" "gw_inv digest (fst st)" "gw_crl (fst st) = Some cs" "IsRevoked cs n"
    and "\<forall>i p env. snd (snd st) i = Some p \<and> cleared p = Some env \<longrightarrow> ev_SenderNodeID env \<noteq> n"
  shows "(\<forall>i p env. snd (snd st') i = Some p \<and> cleared p = Some env \<longrightarrow> ev_SenderNodeID env \<noteq> n) \<and>
    (\<forall>l \<in> set ls. \<forall>env. (forward_env l = Some env \<or> told_allowed l env) \<longrightarrow> ev_SenderNodeID env \<noteq> n)"
  using assms
proof (induction rule: conc_run.induct)
  case (conc_snoc st ls st1 l st2)
  obtain cs1 where r: "gw_crl (fst st1) = Some cs1" "IsRevoked cs1 n"
    using conc_run_revoked [OF conc_snoc(1,4-6)] by blast
  obtain g1 s1 ts1 g2 s2 ts2 where st: "st1 = (g1, s1, ts1)" "st2 = (g2, s2, ts2)" by (metis prod_cases3)
  note IH = conc_snoc(3) [OF conc_snoc(4-7)]
  have "(\<forall>i p env. ts2 i = Some p \<and> cleared p = Some env \<longrightarrow> ev_SenderNodeID env \<noteq> n) \<and>
    (\<forall>env. (forward_env l = Some env \<or> told_allowed l env) \<longrightarrow> ev_SenderNodeID env \<noteq> n)"
    by (rule conc_step_cleared [OF conc_snoc(2) [unfolded st], of cs1]) (use r IH st in auto)
  then show ?case using IH by (auto simp: st)
qed simp

subsection \<open>Properties\<close>

text \<open>
  The interleaved model is the handler: the sections of a call, run one after the other with
  nothing between them, return within nine sections exactly what \<open>SendEnvelope\<close> returns, with the
  same state of the gateway and of the forwarder and the same callbacks.
\<close>

theorem sections_are_the_handler:
  "alone digest fwd clk c 9 (Start env) g s =
     (case SendEnvelope digest clk c fwd env g s of (res, g', s', evs) \<Rightarrow> (Returned res, g', s', evs))"
  by (rule alone_SendEnvelope)

text \<open>
  C3. At most once, concurrently. However many calls run at the same time, however their
  sections interleave with each other and with reloads, revocations, purges and the
  retry of buffered envelopes: as long as the clock readings at the index stay within the
  shortest time to live, the forwarder is called at most once for each idempotency key.
\<close>

theorem concurrent_forward_once:
  assumes "conc_run digest fwd (g, s, Map.empty) ls (g', s', ts)" "gw_inv digest g" "in_window lo (shortest_ttl g) ls"
  shows "length (filter (forwards k) ls) \<le> 1"
  by (rule forward_once [OF assms(1)]) (use assms(2,3) in simp_all)

text \<open>
  C4. The audit log under concurrency. After any interleaving of calls and other operations the log
  passes its own verification and is the old log followed by exactly the decisions that the calls
  recorded, in the order of their sections; and every call that has returned has recorded its
  decision exactly once (dummy traffic as such), an allowed one possibly followed by one settlement
  finality entry.
\<close>

theorem concurrent_audit_complete:
  assumes "conc_run digest fwd (g, s, Map.empty) ls (g', s', ts)" "gw_inv digest g"
  shows "Verify digest (gw_audit g') = None \<and>
    (\<exists>new. lg_entries (gw_audit g') = lg_entries (gw_audit g) @ new \<and> map ae_Decision new = map snd (trail ls)) \<and>
    (\<forall>i r. ts i = Some (Returned (Inr r)) \<longrightarrow> answer_recorded r (trail_of i ls))"
proof (intro conjI allI impI)
  have "gw_inv digest g'" using conc_run_inv [OF assms(1)] assms(2) by simp
  then show "Verify digest (gw_audit g') = None" by (simp add: gw_inv_def log_inv_def)
  show "\<exists>new. lg_entries (gw_audit g') = lg_entries (gw_audit g) @ new \<and> map ae_Decision new = map snd (trail ls)"
    using conc_run_log [OF assms(1)] by simp
  fix i r
  assume "ts i = Some (Returned (Inr r))"
  from trail.thread [OF assms(1) this] show "answer_recorded r (trail_of i ls)" by (simp add: trail_of_hist)
qed

text \<open>
  Progress under concurrency. A call in progress can always run its next section, which
  brings it closer to its return, and no call takes more than nine of them, whatever the others do.
\<close>

theorem concurrent_calls_return:
  assumes "conc_run digest fwd (g, s, Map.empty) ls (g', s', ts)" "ts i = Some p"
  shows "length (hist i ls) + pc_left p \<le> 9 \<and>
    (is_returned p \<or> (\<exists>l g'' s'' ts'' p'. conc_step digest fwd (g', s', ts) l (g'', s'', ts'') \<and> section_by i l \<and>
       ts'' i = Some p' \<and> pc_left p' < pc_left p))"
proof
  show "length (hist i ls) + pc_left p \<le> 9" by (rule progress.thread [OF assms])
  obtain p' g'' s'' evs where r: "run_section digest fwd 0 False p g' s' = (p', g'', s'', evs)" by (metis prod_cases4)
  show "is_returned p \<or> (\<exists>l g'' s'' ts'' p'. conc_step digest fwd (g', s', ts) l (g'', s'', ts'') \<and> section_by i l \<and>
       ts'' i = Some p' \<and> pc_left p' < pc_left p)"
  proof (cases "is_returned p")
    case False
    from conc_section [where ts = ts and i = i, OF assms(2) this r] run_section_left [OF r this] show ?thesis
      by (metis fun_upd_same section_by.simps(1))
  qed simp
qed


subsection \<open>Examples\<close>

text \<open>A schedule: the calls whose next sections run, in order, at one time.\<close>

fun run_schedule ::
  "(string \<Rightarrow> string) \<Rightarrow> ('e, 's) forward_fun option \<Rightarrow> int \<Rightarrow> nat list \<Rightarrow> 's conc_state \<Rightarrow> conc_label list \<times> 's conc_state" where
  "run_schedule digest fwd now [] st = ([], st)"
| "run_schedule digest fwd now (i # is) (g, s, ts) =
     (case ts i of
        None \<Rightarrow> run_schedule digest fwd now is (g, s, ts)
      | Some p \<Rightarrow>
          if is_returned p then run_schedule digest fwd now is (g, s, ts)
          else case run_section digest fwd now False p g s of
            (p', g', s', evs) \<Rightarrow>
              (case run_schedule digest fwd now is (g', s', ts(i \<mapsto> p')) of
                 (ls, st) \<Rightarrow> (CSection i p now p' evs # ls, st)))"

lemma conc_run_Cons:
  "conc_step digest fwd st l st1 \<Longrightarrow> conc_run digest fwd st1 ls st' \<Longrightarrow> conc_run digest fwd st (l # ls) st'"
  by (metis append_Cons append_Nil conc_run_append conc_run_one)

lemma run_schedule_run:
  "run_schedule digest fwd now is st = (ls, st') \<Longrightarrow>
   conc_run digest fwd st ls st' \<and> (\<forall>l \<in> set ls. \<forall>u. ctime l = Some u \<longrightarrow> u = now)"
proof (induction digest fwd now "is" st arbitrary: ls st' rule: run_schedule.induct)
  case (2 digest fwd now i "is" g s ts)
  show ?case
  proof (cases "\<exists>p. ts i = Some p \<and> \<not> is_returned p")
    case True
    then obtain p where p: "ts i = Some p" "\<not> is_returned p" by blast
    obtain p' g' s' evs where r: "run_section digest fwd now False p g s = (p', g', s', evs)" by (metis prod_cases4)
    obtain ls' where l: "run_schedule digest fwd now is (g', s', ts(i \<mapsto> p')) = (ls', st')" "ls = CSection i p now p' evs # ls'"
      using 2(4) p r by (auto split: prod.splits)
    have IH: "conc_run digest fwd (g', s', ts(i \<mapsto> p')) ls' st' \<and> (\<forall>l \<in> set ls'. \<forall>u. ctime l = Some u \<longrightarrow> u = now)"
      by (rule "2.IH"(3) [OF p(1,2) r [symmetric] refl refl l(1)])
    have "u = now" if "ctime (CSection i p now p' evs) = Some u" for u using that by (cases p) auto
    with IH conc_run_Cons [OF conc_section [where ts = ts and i = i, OF p r]] show ?thesis by (auto simp: l(2))
  next
    case False
    then show ?thesis using 2 by (auto split: option.splits)
  qed
qed (simp add: conc_nil)

text \<open>Two calls with the same envelope, begun together and run in turns.\<close>

definition demo_calls :: "nat \<rightharpoonup> gw_pc" where
  "demo_calls = [0 \<mapsto> Start demo_envelope, 1 \<mapsto> Start demo_envelope]"

lemma demo_conc_run:
  obtains ls g s ts where
    "conc_run (\<lambda>x. x) (None :: (unit, unit) forward_fun option) (demo_gateway, (), Map.empty)
       (CCall 0 demo_envelope # CCall 1 demo_envelope # ls) (g, s, ts)"
    "in_window 0 (shortest_ttl demo_gateway) (CCall 0 demo_envelope # CCall 1 demo_envelope # ls)"
    "run_schedule (\<lambda>x. x) (None :: (unit, unit) forward_fun option) 0 (concat (replicate 9 [0, 1])) (demo_gateway, (), demo_calls) =
       (ls, g, s, ts)"
proof -
  let ?R = "run_schedule (\<lambda>x. x) (None :: (unit, unit) forward_fun option) 0 (concat (replicate 9 [0, 1])) (demo_gateway, (), demo_calls)"
  obtain ls g s ts where R: "?R = (ls, g, s, ts)" by (rule prod_cases4)
  note S = run_schedule_run [OF R]
  have "conc_run (\<lambda>x. x) (None :: (unit, unit) forward_fun option) (demo_gateway, (), Map.empty)
       (CCall 0 demo_envelope # CCall 1 demo_envelope # ls) (g, s, ts)"
    by (rule conc_run_Cons [OF conc_call], simp, rule conc_run_Cons [OF conc_call], simp)
      (use S in \<open>simp add: demo_calls_def fun_upd_twist\<close>)
  moreover have "in_window 0 (shortest_ttl demo_gateway) (CCall 0 demo_envelope # CCall 1 demo_envelope # ls)"
    using S by (auto simp: in_window_def shortest_ttl_def demo_gateway_def NewGateway_def dedup_New_def iso20022_ttl_def cfg_defs
        zero_iso_def int64_wrap_def duration_defs Let_def)
  ultimately show thesis using that R by blast
qed

theorem concurrent_forward_once_witness:
  "\<exists>ls st. conc_run (\<lambda>x. x) (None :: (unit, unit) forward_fun option) (demo_gateway, (), Map.empty)
       (CCall 0 demo_envelope # CCall 1 demo_envelope # ls) st \<and>
     length (filter (forwards ''k1'') (CCall 0 demo_envelope # CCall 1 demo_envelope # ls)) \<le> 1"
proof -
  obtain ls g s ts where r: "conc_run (\<lambda>x. x) (None :: (unit, unit) forward_fun option) (demo_gateway, (), Map.empty)
       (CCall 0 demo_envelope # CCall 1 demo_envelope # ls) (g, s, ts)"
    "in_window 0 (shortest_ttl demo_gateway) (CCall 0 demo_envelope # CCall 1 demo_envelope # ls)"
    by (rule demo_conc_run)
  from concurrent_forward_once [OF r(1) demo_inv r(2)] r(1) show ?thesis by blast
qed

theorem concurrent_audit_complete_witness:
  "\<exists>ls g s ts. conc_run (\<lambda>x. x) (None :: (unit, unit) forward_fun option) (demo_gateway, (), Map.empty)
       (CCall 0 demo_envelope # CCall 1 demo_envelope # ls) (g, s, ts) \<and> Verify (\<lambda>x. x) (gw_audit g) = None"
proof -
  obtain ls g s ts where r: "conc_run (\<lambda>x. x) (None :: (unit, unit) forward_fun option) (demo_gateway, (), Map.empty)
       (CCall 0 demo_envelope # CCall 1 demo_envelope # ls) (g, s, ts)"
    by (rule demo_conc_run)
  from concurrent_audit_complete [OF r demo_inv] r show ?thesis by blast
qed

theorem concurrent_calls_return_witness:
  "\<exists>l g s ts p. conc_step (\<lambda>x. x) (None :: (unit, unit) forward_fun option) (demo_gateway, (), [0 \<mapsto> Start demo_envelope]) l (g, s, ts) \<and>
     ts 0 = Some p \<and> pc_left p < 9"
proof -
  have "conc_run (\<lambda>x. x) (None :: (unit, unit) forward_fun option) (demo_gateway, (), Map.empty) [CCall 0 demo_envelope]
      (demo_gateway, (), [0 \<mapsto> Start demo_envelope])"
    by (simp add: conc_run_one conc_call)
  from concurrent_calls_return [OF this, of 0 "Start demo_envelope"] show ?thesis by auto
qed

text \<open>A node that has revoked the sender, and two calls of that sender.\<close>

definition demo_listed :: gateway where
  "demo_listed = demo_gateway\<lparr>gw_crl := Some (Revoke 0 ''rs-node-01'' '''' ''b'' (Revoke 0 ''rs-node-01'' '''' ''a'' crl_New))\<rparr>"


end
