(* ===== verification/Races.thy ===== *)
theory Races
  imports Adapter Http_Props
begin

text \<open>
  Two handlers that read shared state, release its lock and change the state later, split at their
  critical sections. \<open>gatewayAdapter.Connect\<close> (\<open>transport/grpc/adapter.go\<close>) resolves a token and
  evicts it in two sections of the token store: once a token is evicted no later call
  redeems it, but calls that resolve it before that all do. The replay of a dead letter
  (\<open>server/http.go\<close>) takes a snapshot of the queue, sends an entry and then removes by index: it
  removes the entry it sent as long as no entry at or before that index was removed in between, and
  a different one otherwise.
\<close>

subsection \<open>The sections of a connect call\<close>

datatype connect_pc =
    ConnResolve ConnectRequest
  | ConnEvict ConnectRequest string
  | ConnDecide ConnectRequest string
  | ConnDone ConnectAck

definition connect_resolve :: "(string \<Rightarrow> string) \<Rightarrow> int \<Rightarrow> ConnectRequest \<Rightarrow> gatewayAdapter \<Rightarrow> connect_pc \<times> gatewayAdapter" where
  "connect_resolve H now req a =
     (case ga_tokenStore a of
        None \<Rightarrow> (ConnDone (denied_ack ''discovery not enabled''), a)
      | Some ts \<Rightarrow>
        (case token_Resolve H now (cq_OpaqueToken req) ts of
           (Inl _, ts') \<Rightarrow> (ConnDone (denied_ack ''invalid or expired token''), a\<lparr>ga_tokenStore := Some ts'\<rparr>)
         | (Inr (appID, originNodeID), ts') \<Rightarrow>
             (if originNodeID \<noteq> cq_OriginNodeID req then ConnDone (denied_ack ''token not issued for this node'')
              else ConnEvict req appID, a\<lparr>ga_tokenStore := Some ts'\<rparr>)))"

definition connect_decide ::
  "int \<Rightarrow> (token_store \<Rightarrow> string list) \<Rightarrow> string \<Rightarrow> int \<Rightarrow> ConnectRequest \<Rightarrow> string \<Rightarrow> gatewayAdapter \<Rightarrow> ConnectAck" where
  "connect_decide now tord uuid later req appID a =
     (let resolved = (case (ga_connectRes a, ga_tokenStore a) of
                        (Some r, Some ts) \<Rightarrow>
                          resolver_Resolve
                            \<lparr>cr_OriginNodeID = cq_OriginNodeID req, cr_OriginAppID = cq_OriginAppID req, cr_RecipientAppID = appID,
                             cr_MutualDiscovery = HasActiveToken (tord ts) now (cq_OriginNodeID req) ts\<rparr> r
                      | _ \<Rightarrow> StatusPending)
      in \<lparr>ca_Status = resolved, ca_SessionID = (if resolved = StatusAccepted then uuid else ''''),
          ca_ExpiresAt = (if resolved = StatusAccepted then unix_milli (later + 24 * hour) else 0), ca_Reason = ''''\<rparr>)"

text \<open>\<open>clk\<close>, \<open>tord\<close> and \<open>uuid\<close> are those of the call.\<close>

fun connect_section ::
  "(string \<Rightarrow> string) \<Rightarrow> (nat \<Rightarrow> int) \<Rightarrow> (token_store \<Rightarrow> string list) \<Rightarrow> string \<Rightarrow> connect_pc \<Rightarrow> gatewayAdapter \<Rightarrow>
   connect_pc \<times> gatewayAdapter" where
  "connect_section H clk tord uuid (ConnResolve req) a = connect_resolve H (clk 0) req a"
| "connect_section H clk tord uuid (ConnEvict req appID) a =
     (ConnDecide req appID, a\<lparr>ga_tokenStore := map_option (token_Evict H (cq_OpaqueToken req)) (ga_tokenStore a)\<rparr>)"
| "connect_section H clk tord uuid (ConnDecide req appID) a = (ConnDone (connect_decide (clk 1) tord uuid (clk 2) req appID a), a)"
| "connect_section H clk tord uuid (ConnDone ack) a = (ConnDone ack, a)"

text \<open>Three sections without interference are the handler.\<close>

lemma connect_sections:
  "(case connect_section H clk tord uuid (ConnResolve req) a of (p1, a1) \<Rightarrow>
      case connect_section H clk tord uuid p1 a1 of (p2, a2) \<Rightarrow> connect_section H clk tord uuid p2 a2) =
   (case adapter_Connect H clk tord uuid req a of (ack, a') \<Rightarrow> (ConnDone ack, a'))"
proof (cases "ga_tokenStore a")
  case (Some ts)
  obtain r ts' where R: "token_Resolve H (clk 0) (cq_OpaqueToken req) ts = (r, ts')" by force
  show ?thesis
  proof (cases r)
    case (Inr v)
    obtain appID origin where "v = (appID, origin)" by force
    then show ?thesis using Some R Inr
      by (cases "ga_connectRes a") (auto simp: adapter_Connect_def connect_resolve_def connect_decide_def Let_def)
  qed (use Some R in \<open>simp add: adapter_Connect_def connect_resolve_def\<close>)
qed (simp add: adapter_Connect_def connect_resolve_def)

subsection \<open>Interleaved connect calls\<close>

text \<open>
  The token store between the sections: calls in progress, purges, and tokens issued under other
  hashes than \<open>h\<close>, the hash that is watched. A range loop over the store visits every token once.
\<close>

definition ranges_over :: "(token_store \<Rightarrow> string list) \<Rightarrow> bool" where
  "ranges_over tord \<longleftrightarrow> (\<forall>ts. finite (dom ts) \<longrightarrow> enumerates (tord ts) ts)"

datatype connect_label = NSection nat connect_pc connect_pc | NCall nat ConnectRequest | NPurge | NIssue string

inductive connect_step ::
  "(string \<Rightarrow> string) \<Rightarrow> gatewayAdapter \<times> (nat \<rightharpoonup> connect_pc) \<Rightarrow> connect_label \<Rightarrow>
   gatewayAdapter \<times> (nat \<rightharpoonup> connect_pc) \<Rightarrow> bool" for H where
  nstep_call: "cs i = None \<Longrightarrow> connect_step H (a, cs) (NCall i req) (a, cs(i \<mapsto> ConnResolve req))"
| nstep_section: "\<lbrakk>cs i = Some p; ranges_over tord; connect_section H clk tord uuid p a = (p', a')\<rbrakk> \<Longrightarrow>
     connect_step H (a, cs) (NSection i p p') (a', cs(i \<mapsto> p'))"
| nstep_purge: "\<lbrakk>ga_tokenStore a = Some ts; finite (dom ts) \<longrightarrow> enumerates ks ts\<rbrakk> \<Longrightarrow>
     connect_step H (a, cs) NPurge (a\<lparr>ga_tokenStore := Some (token_Purge ks now ts)\<rparr>, cs)"
| nstep_issue: "\<lbrakk>ga_tokenStore a = Some ts; Issue H now rand appID node ttl ts = (Inr tok, ts')\<rbrakk> \<Longrightarrow>
     connect_step H (a, cs) (NIssue (H tok)) (a\<lparr>ga_tokenStore := Some ts'\<rparr>, cs)"

inductive_cases nstepE: "connect_step H st l st'"
inductive_cases nsectionE: "connect_step H st (NSection i p p') st'"

inductive connect_run ::
  "(string \<Rightarrow> string) \<Rightarrow> gatewayAdapter \<times> (nat \<rightharpoonup> connect_pc) \<Rightarrow> connect_label list \<Rightarrow>
   gatewayAdapter \<times> (nat \<rightharpoonup> connect_pc) \<Rightarrow> bool" for H where
  nrun_nil: "connect_run H st [] st"
| nrun_cons: "\<lbrakk>connect_step H st l st1; connect_run H st1 ls st2\<rbrakk> \<Longrightarrow> connect_run H st (l # ls) st2"

inductive_simps nrun_simps [simp]: "connect_run H st [] st'" "connect_run H st (l # ls) st'"

definition token_gone :: "string \<Rightarrow> gatewayAdapter \<Rightarrow> bool" where
  "token_gone h a \<longleftrightarrow> (\<forall>ts. ga_tokenStore a = Some ts \<longrightarrow> ts h = None)"

lemma token_Resolve_gone: "ts h = None \<Longrightarrow> snd (token_Resolve H now t ts) h = None"
  by (auto simp: token_Resolve_def split: option.splits)

lemma connect_section_gone:
  assumes "connect_section H clk tord uuid p a = (p', a')" "token_gone h a"
  shows "token_gone h a'"
  using assms
  by (cases p) (auto simp: connect_resolve_def token_gone_def token_Evict_def token_Resolve_def split: option.splits prod.splits sum.splits if_splits)

lemma connect_step_gone:
  assumes "connect_step H st l st'" "token_gone h (fst st)" "l \<noteq> NIssue h"
  shows "token_gone h (fst st')"
  using assms(1)
proof (cases rule: connect_step.cases)
  case (nstep_section cs i p tord clk uuid a p' a')
  then show ?thesis using connect_section_gone assms(2) by simp
next
  case (nstep_purge a ts ks cs now)
  then show ?thesis using assms(2) delete_if_dom [of "\<lambda>e. now > tk_expires e" ks ts]
    by (auto simp: token_gone_def token_Purge_def dom_def)
next
  case (nstep_issue a ts now rand appID node ttl tok ts' cs)
  then show ?thesis using assms(2,3) by (auto simp: token_gone_def Issue_def Let_def split: option.splits)
qed (use assms(2) in simp)

lemma connect_run_gone:
  "connect_run H st ls st' \<Longrightarrow> token_gone h (fst st) \<Longrightarrow> NIssue h \<notin> set ls \<Longrightarrow> token_gone h (fst st')"
  by (induction rule: connect_run.induct) (auto intro: connect_step_gone)

lemma connect_run_append:
  "connect_run H st (xs @ ys) st' \<longleftrightarrow> (\<exists>st1. connect_run H st xs st1 \<and> connect_run H st1 ys st')"
  by (induction xs arbitrary: st) auto

subsection \<open>The sections of a replay\<close>

datatype replay_pc =
    ReplayRead string
  | ReplaySend int DLQEntry
  | ReplayRemove int SendResponse
  | ReplayDone http_response

definition replay_read :: "string \<Rightarrow> http_server \<Rightarrow> replay_pc" where
  "replay_read index s =
     (case fw_dlq (sv_fwd s) of
        None \<Rightarrow> ReplayDone (writeJSONError ''dlq or gateway not available'' 503)
      | Some d \<Rightarrow>
          if \<not> sv_Gateway s then ReplayDone (writeJSONError ''dlq or gateway not available'' 503)
          else case parse_index index of
            None \<Rightarrow> ReplayDone (writeJSONError ''invalid index'' 400)
          | Some idx \<Rightarrow>
              if idx \<ge> int (length (dlq_Entries d)) then ReplayDone (writeJSONError ''index out of range'' 404)
              else ReplaySend idx (dlq_Entries d ! nat idx))"

fun replay_section ::
  "'w http_env \<Rightarrow> replay_pc \<Rightarrow> http_server \<Rightarrow> 'w \<Rightarrow> replay_pc \<times> http_server \<times> 'w \<times> gw_event list" where
  "replay_section E (ReplayRead index) s w = (replay_read index s, s, w, [])"
| "replay_section E (ReplaySend idx entry) s w =
     (case gateway_send E 0 (dq_Envelope entry) s w of
        (Inl err, s', w', evs) \<Rightarrow> (ReplayDone (500, JsonErrorOf ''replay failed'' (GatewayFailed err)), s', w', evs)
      | (Inr resp, s', w', evs) \<Rightarrow> (ReplayRemove idx resp, s', w', evs))"
| "replay_section E (ReplayRemove idx resp) s w =
     (ReplayDone (200, Replayed (rs_Decision resp) (rs_Reason resp)), dlq_remove_now idx s, w, [])"
| "replay_section E (ReplayDone resp) s w = (ReplayDone resp, s, w, [])"

lemma replay_sections:
  "(case replay_section E (ReplayRead index) s w of (p1, s1, w1, e1) \<Rightarrow>
      case replay_section E p1 s1 w1 of (p2, s2, w2, e2) \<Rightarrow>
      case replay_section E p2 s2 w2 of (p3, s3, w3, e3) \<Rightarrow> (p3, s3, w3, e1 @ e2 @ e3)) =
   (case handle_dlq_replay E index s w of (resp, s', w', evs) \<Rightarrow> (ReplayDone resp, s', w', evs))"
  by (auto simp: handle_dlq_replay_def replay_read_def Let_def split: option.splits sum.splits prod.splits)

text \<open>What happens to the queue between the snapshot and the removal.\<close>

datatype dlq_op = DAppend int DLQEntry | DRemove int

fun dlq_apply :: "dlq_op list \<Rightarrow> DLQ \<Rightarrow> DLQ" where
  "dlq_apply [] d = d"
| "dlq_apply (DAppend now e # ops) d = dlq_apply ops (dlq_Append now e d)"
| "dlq_apply (DRemove j # ops) d = dlq_apply ops (dlq_Remove j d)"

lemma dlq_Remove_later:
  assumes "i < length d" "int i < j"
  shows "i < length (dlq_Remove j d) \<and> dlq_Remove j d ! i = d ! i"
proof (cases "j < int (length d)")
  case True
  with assms have "i < nat j" "nat j < length d" by linarith+
  then show ?thesis using assms True by (simp add: dlq_Remove_def nth_append min_def)
qed (use assms in \<open>simp add: dlq_Remove_def\<close>)

lemma dlq_Remove_split: "i < length d \<Longrightarrow> d = take i d @ d ! i # drop (Suc i) d \<and> dlq_Remove (int i) d = take i d @ drop (Suc i) d"
  by (simp add: dlq_Remove_def id_take_nth_drop)

subsection \<open>Properties\<close>

text \<open>
  Tokens under concurrency. In every interleaving of connect calls, purges and issues of other
  tokens, a call that looks a token up after some call evicted it is denied.
\<close>

theorem evicted_token_denied:
  assumes "connect_run H st (ls1 @ NSection i (ConnEvict req appID) p # ls2 @ NSection j (ConnResolve req') p' # ls3) st'"
    and "H (cq_OpaqueToken req') = H (cq_OpaqueToken req)" "NIssue (H (cq_OpaqueToken req)) \<notin> set ls2"
  shows "\<exists>reason. p' = ConnDone (denied_ack reason)"
proof -
  let ?h = "H (cq_OpaqueToken req)"
  obtain st1 st2 st3 st4 where r: "connect_step H st1 (NSection i (ConnEvict req appID) p) st2" "connect_run H st2 ls2 st3"
    "connect_step H st3 (NSection j (ConnResolve req') p') st4"
    using assms(1) by (auto simp: connect_run_append)
  have "token_gone ?h (fst st2)" using r(1) by (auto simp: token_gone_def token_Evict_def elim!: nsectionE)
  then have gone: "token_gone ?h (fst st3)" by (rule connect_run_gone [OF r(2) _ assms(3)])
  obtain cs clk a a' where "st3 = (a, cs)" "connect_resolve H (clk 0) req' a = (p', a')"
    using r(3) by (auto elim!: nsectionE)
  with gone assms(2) show ?thesis
    by (auto simp: connect_resolve_def token_gone_def token_Resolve_def split: option.splits)
qed

text \<open>
  C31. One token can be redeemed twice. The token store is unlocked between the lookup and the eviction:
  for every unexpired token there is an interleaving of two connect calls from its node in which
  neither is denied.
\<close>

theorem token_redeemed_twice:
  assumes "ga_tokenStore a = Some ts" "ts (H (cq_OpaqueToken req)) = Some e" "tk_originNodeID e = cq_OriginNodeID req"
  shows "\<exists>a' ack1 ack2. connect_run H (a, Map.empty)
      [NCall 0 req, NCall 1 req, NSection 0 (ConnResolve req) (ConnEvict req (tk_appID e)),
       NSection 1 (ConnResolve req) (ConnEvict req (tk_appID e)),
       NSection 0 (ConnEvict req (tk_appID e)) (ConnDecide req (tk_appID e)),
       NSection 1 (ConnEvict req (tk_appID e)) (ConnDecide req (tk_appID e)),
       NSection 0 (ConnDecide req (tk_appID e)) (ConnDone ack1), NSection 1 (ConnDecide req (tk_appID e)) (ConnDone ack2)]
      (a', [0 \<mapsto> ConnDone ack1, 1 \<mapsto> ConnDone ack2]) \<and> ca_Status ack1 \<noteq> StatusDenied \<and> ca_Status ack2 \<noteq> StatusDenied"
proof -
  define tord where "tord ts = (SOME ks. finite (dom ts) \<longrightarrow> enumerates ks ts)" for ts :: token_store
  have "\<exists>ks. finite (dom ts) \<longrightarrow> enumerates ks ts" for ts :: token_store
    using finite_distinct_list [of "dom ts"] by (auto simp: enumerates_def)
  then have tord: "ranges_over tord" unfolding ranges_over_def tord_def by (metis (mono_tags, lifting) someI_ex)
  let ?clk = "\<lambda>_ :: nat. tk_expires e" and ?a' = "a\<lparr>ga_tokenStore := Some (ts(H (cq_OpaqueToken req) := None))\<rparr>"
  let ?ack = "connect_decide (tk_expires e) tord '''' (tk_expires e) req (tk_appID e) ?a'"
  note S = nstep_section [where H = H and clk = ?clk and tord = tord and uuid = "''''", OF _ tord]
  have R: "connect_section H ?clk tord '''' (ConnResolve req) a = (ConnEvict req (tk_appID e), a)"
    using assms by (simp add: connect_resolve_def token_Resolve_def)
  have "resolver_Resolve q c \<noteq> StatusDenied" for q c
    using resolver_Resolve_range [of q c] by (auto simp: status_defs)
  then have "ca_Status ?ack \<noteq> StatusDenied" by (auto simp: connect_decide_def Let_def status_defs(2,3) split: option.splits)
  moreover have "connect_run H (a, Map.empty)
      [NCall 0 req, NCall 1 req, NSection 0 (ConnResolve req) (ConnEvict req (tk_appID e)),
       NSection 1 (ConnResolve req) (ConnEvict req (tk_appID e)),
       NSection 0 (ConnEvict req (tk_appID e)) (ConnDecide req (tk_appID e)),
       NSection 1 (ConnEvict req (tk_appID e)) (ConnDecide req (tk_appID e)),
       NSection 0 (ConnDecide req (tk_appID e)) (ConnDone ?ack), NSection 1 (ConnDecide req (tk_appID e)) (ConnDone ?ack)]
      (?a', [0 \<mapsto> ConnDone ?ack, 1 \<mapsto> ConnDone ?ack])"
    using assms R
    by (intro nrun_cons [OF nstep_call] nrun_cons [OF S]) (auto simp: token_Evict_def fun_upd_twist)
  ultimately show ?thesis by blast
qed

lemma dlq_apply_later:
  assumes "i < length d" "\<forall>j. DRemove j \<in> set ops \<longrightarrow> int i < j"
  shows "i < length (dlq_apply ops d) \<and> dlq_apply ops d ! i = d ! i"
  using assms
proof (induction ops d rule: dlq_apply.induct)
  case (2 now e ops d)
  then show ?case by (auto simp: dlq_Append_def nth_append)
next
  case (3 j ops d)
  then show ?case using dlq_Remove_later [of i d j] by auto
qed simp

text \<open>
  A replay removes the entry it sent, whatever was appended to the queue or removed behind that
  entry since the snapshot, and leaves the others in their order.
\<close>

theorem replay_removes_its_entry:
  assumes "fw_dlq (sv_fwd s) = Some d" "replay_section E (ReplayRead index) s w = (ReplaySend idx entry, s', w', evs)"
    and "\<forall>j. DRemove j \<in> set ops \<longrightarrow> idx < j" "fw_dlq (sv_fwd s2) = Some (dlq_apply ops d)"
  shows "\<exists>xs ys. fw_dlq (sv_fwd s2) = Some (xs @ entry # ys) \<and> length xs = nat idx \<and>
    fw_dlq (sv_fwd (fst (snd (replay_section E' (ReplayRemove idx resp) s2 w2)))) = Some (xs @ ys)"
proof -
  have "0 \<le> idx \<and> idx < int (length d) \<and> entry = d ! nat idx"
    using assms(1,2) by (auto simp: replay_read_def parse_index_def dlq_Entries_def split: option.splits if_splits)
  then obtain i where i: "idx = int i" "i < length d" "entry = d ! i" by (metis nat_0_le of_nat_less_iff)
  have "i < length (dlq_apply ops d)" "dlq_apply ops d ! i = entry"
    using dlq_apply_later [OF i(2)] assms(3) i by auto
  then have "dlq_apply ops d = take i (dlq_apply ops d) @ entry # drop (Suc i) (dlq_apply ops d)"
    "dlq_Remove idx (dlq_apply ops d) = take i (dlq_apply ops d) @ drop (Suc i) (dlq_apply ops d)"
    "length (take i (dlq_apply ops d)) = nat idx"
    using dlq_Remove_split [of i "dlq_apply ops d"] i(1) by auto
  then show ?thesis using assms(4)
    by (intro exI [of _ "take i (dlq_apply ops d)"] exI [of _ "drop (Suc i) (dlq_apply ops d)"])
      (simp add: dlq_remove_now_def dlq_set_def)
qed

lemma gateway_send_twice:
  assumes "ev_IdempotencyKey env \<noteq> ''''" "\<not> ev_IsDummy env" "is_duplicate (sv_gw s) (he_clk E 0) (ev_IdempotencyKey env)"
  obtains r a evs where "gateway_send E 0 env s w = (Inr r, s\<lparr>sv_gw := (sv_gw s)\<lparr>gw_audit := a\<rparr>\<rparr>, w, evs)"
    "rs_Decision r = DecisionDuplicate"
  by (rule gateway_send_duplicate [where n = 0, OF assms])

text \<open>
  C32. Two replays of the same dead letter at the same time lose the next one. When the key of
  the entry is still live, both calls read the entry and send it, both are answered 200 with
  DUPLICATE, and both remove the entry at its index: the second removes an entry that was never
  sent, and nothing has been delivered.
\<close>

theorem replay_race_drops_entry:
  assumes "sv_Gateway s" "fw_dlq (sv_fwd s) = Some (e1 # e2 # rest)" "env = dq_Envelope e1"
    and "ev_IdempotencyKey env \<noteq> ''''" "\<not> ev_IsDummy env"
    and "is_duplicate (sv_gw s) (he_clk E 0) (ev_IdempotencyKey env)" "is_duplicate (sv_gw s) (he_clk E' 0) (ev_IdempotencyKey env)"
  shows "replay_section E (ReplayRead ''0'') s w = (ReplaySend 0 e1, s, w, []) \<and>
    replay_section E' (ReplayRead ''0'') s w = (ReplaySend 0 e1, s, w, []) \<and>
    (\<exists>r1 r2 s1 s2 s3 s4 evs1 evs2.
       replay_section E (ReplaySend 0 e1) s w = (ReplayRemove 0 r1, s1, w, evs1) \<and>
       replay_section E' (ReplaySend 0 e1) s1 w = (ReplayRemove 0 r2, s2, w, evs2) \<and>
       replay_section E (ReplayRemove 0 r1) s2 w = (ReplayDone (200, Replayed DecisionDuplicate (rs_Reason r1)), s3, w, []) \<and>
       replay_section E' (ReplayRemove 0 r2) s3 w = (ReplayDone (200, Replayed DecisionDuplicate (rs_Reason r2)), s4, w, []) \<and>
       fw_dlq (sv_fwd s4) = Some rest)"
proof -
  have "parse_index ''0'' = Some 0" using parse_index_show [of 0] by (simp add: int64_range_def show_nat.simps char_of_def bit_0)
  then have read: "replay_section E'' (ReplayRead ''0'') s w = (ReplaySend 0 e1, s, w, [])" for E''
    using assms(1,2) by (simp add: replay_read_def dlq_Entries_def)
  obtain r1 a1 v1 where 1: "gateway_send E 0 env s w = (Inr r1, s\<lparr>sv_gw := (sv_gw s)\<lparr>gw_audit := a1\<rparr>\<rparr>, w, v1)"
    "rs_Decision r1 = DecisionDuplicate"
    by (rule gateway_send_twice [OF assms(4-6)])
  let ?s1 = "s\<lparr>sv_gw := (sv_gw s)\<lparr>gw_audit := a1\<rparr>\<rparr>"
  have "is_duplicate (sv_gw ?s1) (he_clk E' 0) (ev_IdempotencyKey env)" using assms(7) by (simp add: is_duplicate_def)
  then obtain r2 a2 v2 where 2: "gateway_send E' 0 env ?s1 w = (Inr r2, ?s1\<lparr>sv_gw := (sv_gw ?s1)\<lparr>gw_audit := a2\<rparr>\<rparr>, w, v2)"
    "rs_Decision r2 = DecisionDuplicate"
    by (rule gateway_send_twice [OF assms(4,5)])
  show ?thesis
    using read 1 2 assms(2,3)
    by (auto simp: dlq_remove_now_def dlq_set_def dlq_Remove_def)
qed

subsection \<open>Examples\<close>

lemma demo_token_entry:
  "demo_tokens (cq_OpaqueToken demo_connect) = Some \<lparr>tk_appID = ''app'', tk_originNodeID = ''n1'', tk_expires = 10\<rparr>"
  "cq_OriginNodeID demo_connect = ''n1''"
  by (simp_all add: demo_tokens_def demo_connect_def)

theorem token_redeemed_twice_witness:
  "\<exists>ls a' ack1 ack2. connect_run (\<lambda>x. x) (demo_adapter\<lparr>ga_tokenStore := Some demo_tokens\<rparr>, Map.empty) ls
     (a', [0 \<mapsto> ConnDone ack1, 1 \<mapsto> ConnDone ack2]) \<and> ca_Status ack1 \<noteq> StatusDenied \<and> ca_Status ack2 \<noteq> StatusDenied"
  using token_redeemed_twice [of "demo_adapter\<lparr>ga_tokenStore := Some demo_tokens\<rparr>" demo_tokens "\<lambda>x. x" demo_connect
      "\<lparr>tk_appID = ''app'', tk_originNodeID = ''n1'', tk_expires = 10\<rparr>"] demo_token_entry
  by (simp del: nrun_simps) blast

definition demo_letters :: http_server where
  "demo_letters = demo_server
     \<lparr>sv_fwd := (sv_fwd demo_server)\<lparr>fw_dlq := Some [new_entry demo_envelope ''a'', new_entry demo_envelope ''b'']\<rparr>,
      sv_gw := after_register 0 demo_envelope demo_gateway\<rparr>"

lemma demo_letters_live: "is_duplicate (sv_gw demo_letters) 0 (ev_IdempotencyKey demo_envelope)"
proof -
  have "dedup_inv (gw_dedup demo_gateway)" using demo_inv by (simp add: gw_inv_def)
  then show ?thesis
    by (simp add: is_duplicate_def demo_letters_def after_register_def key_ttl_def demo_envelope_def demo_gateway_def NewGateway_def
        dedup_New_def duration_defs Iso20022_def)
qed

theorem replay_race_drops_entry_witness:
  "\<exists>r1 r2 s1 s2 s3 s4 evs1 evs2.
     replay_section (demo_http_env (\<lambda>_. [])) (ReplaySend 0 (new_entry demo_envelope ''a'')) demo_letters () = (ReplayRemove 0 r1, s1, (), evs1) \<and>
     replay_section (demo_http_env (\<lambda>_. [])) (ReplaySend 0 (new_entry demo_envelope ''a'')) s1 () = (ReplayRemove 0 r2, s2, (), evs2) \<and>
     replay_section (demo_http_env (\<lambda>_. [])) (ReplayRemove 0 r1) s2 () = (ReplayDone (200, Replayed DecisionDuplicate (rs_Reason r1)), s3, (), []) \<and>
     replay_section (demo_http_env (\<lambda>_. [])) (ReplayRemove 0 r2) s3 () = (ReplayDone (200, Replayed DecisionDuplicate (rs_Reason r2)), s4, (), []) \<and>
     fw_dlq (sv_fwd s4) = Some []"
  by (rule replay_race_drops_entry [where s = demo_letters and ?e2.0 = "new_entry demo_envelope ''b''" and env = demo_envelope,
        THEN conjunct2, THEN conjunct2])
    (use demo_letters_live in \<open>simp_all add: demo_letters_def demo_server_def new_entry_def demo_http_env_def demo_envelope_def\<close>)

end
