(* ===== verification/Builders.thy ===== *)
theory Builders
  imports Envelope_Types Schema Config
begin

text \<open>
  \<open>schema/builders\<close>: the constructors that preset the schema type of an envelope. Every built
  envelope names its schema in the normal form the gateway compares with.
\<close>

definition zero_envelope :: Envelope where
  "zero_envelope =
     \<lparr>ev_IdempotencyKey = [], ev_SenderNodeID = [], ev_SenderIdentity = [], ev_RecipientIdentity = [],
      ev_SenderRegion = [], ev_RecipientRegion = [], ev_TrustTier = 0, ev_SequenceNumber = 0, ev_Payload = [],
      ev_PaddedTo = 0, ev_Timestamp = 0, ev_Signature = [], ev_IsDummy = False, ev_SchemaType = [],
      ev_SchemaVersion = [], ev_RoutingHint = []\<rparr>"

definition NewMessagingEnvelope :: "string \<Rightarrow> Envelope" where
  "NewMessagingEnvelope payload =
     zero_envelope\<lparr>ev_Payload := payload, ev_SchemaType := Messaging, ev_SchemaVersion := ''1.0.0''\<rparr>"

definition NewHl7FhirEnvelope :: "string \<Rightarrow> Envelope" where
  "NewHl7FhirEnvelope payload =
     zero_envelope\<lparr>ev_Payload := payload, ev_SchemaType := Hl7Fhir, ev_SchemaVersion := ''1.0.0''\<rparr>"

definition NewEdifactEnvelope :: "string \<Rightarrow> Envelope" where
  "NewEdifactEnvelope payload =
     zero_envelope\<lparr>ev_Payload := payload, ev_SchemaType := Edifact, ev_SchemaVersion := ''1.0.0''\<rparr>"

definition NewIso20022Envelope :: "string \<Rightarrow> string \<Rightarrow> Envelope" where
  "NewIso20022Envelope payload bicPrefix =
     (let env = zero_envelope\<lparr>ev_Payload := payload, ev_SchemaType := Iso20022, ev_SchemaVersion := ''1.0.0''\<rparr>
      in if bicPrefix \<noteq> '''' then env\<lparr>ev_RoutingHint := bicPrefix\<rparr> else env)"

lemma built_schema_normal:
  assumes "env \<in> {NewMessagingEnvelope p, NewHl7FhirEnvelope p, NewEdifactEnvelope p, NewIso20022Envelope p b}"
  shows "Normalize (ev_SchemaType env) = ev_SchemaType env \<and> isValidSchemaType (ev_SchemaType env) \<and> ev_Payload env = p"
  using assms
  by (elim insertE emptyE)
    (simp_all add: NewMessagingEnvelope_def NewHl7FhirEnvelope_def NewEdifactEnvelope_def NewIso20022Envelope_def
      Normalize_def isValidSchemaType_def Messaging_def Hl7Fhir_def Edifact_def Iso20022_def Let_def blank_schema [unfolded blank_def])

end
