(* ===== verification/Wire.thy ===== *)
theory Wire
  imports Peering Audit_File
begin

text \<open>
  The messages of \<open>transport/grpc/messages.go\<close> as the JSON codec (\<open>codec.go\<close>) puts them on the wire:
  every struct with the order and the \<open>omitempty\<close> options of its fields, byte slices in base64,
  and the decoder the other end runs into a fresh struct. A call that goes through the bytes
  of its request and of its answer is the call of \<open>Client\<close>, as long as the texts are UTF-8; the
  encoder replaces other bytes.
\<close>

subsection \<open>Structs\<close>

lemma dec_bytes_empty [simp]: "dec_bytes (TStr []) old = Some (Some [])"
  by (simp add: dec_bytes_def b64_decode_def)

lemma int64_range_0 [simp]: "int64_range 0"
  by (simp add: int64_range_def)

lemma assign_omit:
  assumes "t \<in> set tags" "z \<Longrightarrow> put t v r = Some r"
  shows "assign_members tags put (omit_if z t v) r = put t v r"
  using assms by (auto simp: omit_if_def match_field_def split: option.split)

definition wenv_zero :: Envelope where
  "wenv_zero = \<lparr>ev_IdempotencyKey = [], ev_SenderNodeID = [], ev_SenderIdentity = [],
     ev_RecipientIdentity = [], ev_SenderRegion = [], ev_RecipientRegion = [], ev_TrustTier = 0,
     ev_SequenceNumber = 0, ev_Payload = [], ev_PaddedTo = 0, ev_Timestamp = 0, ev_Signature = [],
     ev_IsDummy = False, ev_SchemaType = [], ev_SchemaVersion = [], ev_RoutingHint = []\<rparr>"

definition wenv_fields :: "Envelope \<Rightarrow> (string \<times> jtree) list" where
  "wenv_fields e =
     [(''idempotency_key'', TStr (ev_IdempotencyKey e))] @
     omit_if (ev_SenderNodeID e = []) ''sender_node_id'' (TStr (ev_SenderNodeID e)) @
     omit_if (ev_SenderIdentity e = []) ''sender_identity'' (TStr (base64 (ev_SenderIdentity e))) @
     omit_if (ev_RecipientIdentity e = []) ''recipient_identity'' (TStr (base64 (ev_RecipientIdentity e))) @
     [(''sender_region'', TStr (ev_SenderRegion e)),
      (''recipient_region'', TStr (ev_RecipientRegion e)),
      (''trust_tier'', TNum (show_int (uint (ev_TrustTier e)))),
      (''sequence_number'', TNum (show_int (uint (ev_SequenceNumber e))))] @
     omit_if (ev_Payload e = []) ''payload'' (TStr (base64 (ev_Payload e))) @
     [(''padded_to'', TNum (show_int (uint (ev_PaddedTo e)))),
      (''timestamp'', TNum (show_int (ev_Timestamp e)))] @
     omit_if (ev_Signature e = []) ''signature'' (TStr (base64 (ev_Signature e))) @
     omit_if (\<not> ev_IsDummy e) ''is_dummy'' (TBool (ev_IsDummy e)) @
     omit_if (ev_SchemaType e = []) ''schema_type'' (TStr (ev_SchemaType e)) @
     omit_if (ev_SchemaVersion e = []) ''schema_version'' (TStr (ev_SchemaVersion e)) @
     omit_if (ev_RoutingHint e = []) ''routing_hint'' (TStr (ev_RoutingHint e))"

definition wenv_tags :: "string list" where
  "wenv_tags = [''idempotency_key'', ''sender_node_id'', ''sender_identity'', ''recipient_identity'',
     ''sender_region'', ''recipient_region'', ''trust_tier'', ''sequence_number'', ''payload'', ''padded_to'',
     ''timestamp'', ''signature'', ''is_dummy'', ''schema_type'', ''schema_version'', ''routing_hint'']"

definition wenv_put :: "string \<Rightarrow> jtree \<Rightarrow> Envelope \<Rightarrow> Envelope option" where
  "wenv_put t v e =
     (if t = ''idempotency_key'' then map_option (\<lambda>x. e\<lparr>ev_IdempotencyKey := x\<rparr>) (dec_string v (ev_IdempotencyKey e))
      else if t = ''sender_node_id'' then map_option (\<lambda>x. e\<lparr>ev_SenderNodeID := x\<rparr>) (dec_string v (ev_SenderNodeID e))
      else if t = ''sender_identity'' then map_option (\<lambda>x. e\<lparr>ev_SenderIdentity := x\<rparr>) (map_option (case_option [] (\<lambda>x. x)) (dec_bytes v (ev_SenderIdentity e)))
      else if t = ''recipient_identity'' then map_option (\<lambda>x. e\<lparr>ev_RecipientIdentity := x\<rparr>) (map_option (case_option [] (\<lambda>x. x)) (dec_bytes v (ev_RecipientIdentity e)))
      else if t = ''sender_region'' then map_option (\<lambda>x. e\<lparr>ev_SenderRegion := x\<rparr>) (dec_string v (ev_SenderRegion e))
      else if t = ''recipient_region'' then map_option (\<lambda>x. e\<lparr>ev_RecipientRegion := x\<rparr>) (dec_string v (ev_RecipientRegion e))
      else if t = ''trust_tier'' then map_option (\<lambda>x. e\<lparr>ev_TrustTier := x\<rparr>) (dec_uint32 v (ev_TrustTier e))
      else if t = ''sequence_number'' then map_option (\<lambda>x. e\<lparr>ev_SequenceNumber := x\<rparr>) (dec_uint64 v (ev_SequenceNumber e))
      else if t = ''payload'' then map_option (\<lambda>x. e\<lparr>ev_Payload := x\<rparr>) (map_option (case_option [] (\<lambda>x. x)) (dec_bytes v (ev_Payload e)))
      else if t = ''padded_to'' then map_option (\<lambda>x. e\<lparr>ev_PaddedTo := x\<rparr>) (dec_uint32 v (ev_PaddedTo e))
      else if t = ''timestamp'' then map_option (\<lambda>x. e\<lparr>ev_Timestamp := x\<rparr>) (dec_int64 v (ev_Timestamp e))
      else if t = ''signature'' then map_option (\<lambda>x. e\<lparr>ev_Signature := x\<rparr>) (map_option (case_option [] (\<lambda>x. x)) (dec_bytes v (ev_Signature e)))
      else if t = ''is_dummy'' then map_option (\<lambda>x. e\<lparr>ev_IsDummy := x\<rparr>) (dec_bool v (ev_IsDummy e))
      else if t = ''schema_type'' then map_option (\<lambda>x. e\<lparr>ev_SchemaType := x\<rparr>) (dec_string v (ev_SchemaType e))
      else if t = ''schema_version'' then map_option (\<lambda>x. e\<lparr>ev_SchemaVersion := x\<rparr>) (dec_string v (ev_SchemaVersion e))
      else if t = ''routing_hint'' then map_option (\<lambda>x. e\<lparr>ev_RoutingHint := x\<rparr>) (dec_string v (ev_RoutingHint e))
      else None)"

definition wenv_ok :: "Envelope \<Rightarrow> bool" where
  "wenv_ok e \<longleftrightarrow>
     utf8_valid (ev_IdempotencyKey e) \<and> utf8_valid (ev_SenderNodeID e) \<and>
     utf8_valid (ev_SenderRegion e) \<and> utf8_valid (ev_RecipientRegion e) \<and>
     utf8_valid (ev_SchemaType e) \<and> utf8_valid (ev_SchemaVersion e) \<and>
     utf8_valid (ev_RoutingHint e) \<and> int64_range (ev_Timestamp e)"

lemma wenv_assign: "wenv_ok e \<Longrightarrow> assign_members wenv_tags wenv_put (wenv_fields e) wenv_zero = Some e"
  unfolding wenv_fields_def wenv_ok_def
  by (simp add: assign_members_append assign_omit wenv_tags_def wenv_put_def wenv_zero_def match_field_def)

lemma wenv_tree_ok: "wenv_ok e \<Longrightarrow> d < 9999 \<Longrightarrow> tree_ok d (TObj (wenv_fields e))"
  by (auto simp: wenv_fields_def wenv_ok_def omit_if_def max_depth_def is_ascii_def)

definition sresp_zero :: SendResponse where
  "sresp_zero = \<lparr>rs_Decision = [], rs_Reason = [], rs_Profile = [], rs_NodeID = [],
     rs_AuditRootHash = [], rs_PeerAuditRootHash = []\<rparr>"

definition sresp_fields :: "SendResponse \<Rightarrow> (string \<times> jtree) list" where
  "sresp_fields e =
     [(''decision'', TStr (rs_Decision e)),
      (''reason'', TStr (rs_Reason e)),
      (''profile'', TStr (rs_Profile e)),
      (''node_id'', TStr (rs_NodeID e)),
      (''audit_root_hash'', TStr (rs_AuditRootHash e))] @
     omit_if (rs_PeerAuditRootHash e = []) ''peer_audit_root_hash'' (TStr (rs_PeerAuditRootHash e))"

definition sresp_tags :: "string list" where
  "sresp_tags = [''decision'', ''reason'', ''profile'', ''node_id'', ''audit_root_hash'', ''peer_audit_root_hash'']"

definition sresp_put :: "string \<Rightarrow> jtree \<Rightarrow> SendResponse \<Rightarrow> SendResponse option" where
  "sresp_put t v e =
     (if t = ''decision'' then map_option (\<lambda>x. e\<lparr>rs_Decision := x\<rparr>) (dec_string v (rs_Decision e))
      else if t = ''reason'' then map_option (\<lambda>x. e\<lparr>rs_Reason := x\<rparr>) (dec_string v (rs_Reason e))
      else if t = ''profile'' then map_option (\<lambda>x. e\<lparr>rs_Profile := x\<rparr>) (dec_string v (rs_Profile e))
      else if t = ''node_id'' then map_option (\<lambda>x. e\<lparr>rs_NodeID := x\<rparr>) (dec_string v (rs_NodeID e))
      else if t = ''audit_root_hash'' then map_option (\<lambda>x. e\<lparr>rs_AuditRootHash := x\<rparr>) (dec_string v (rs_AuditRootHash e))
      else if t = ''peer_audit_root_hash'' then map_option (\<lambda>x. e\<lparr>rs_PeerAuditRootHash := x\<rparr>) (dec_string v (rs_PeerAuditRootHash e))
      else None)"

definition sresp_ok :: "SendResponse \<Rightarrow> bool" where
  "sresp_ok e \<longleftrightarrow>
     utf8_valid (rs_Decision e) \<and> utf8_valid (rs_Reason e) \<and> utf8_valid (rs_Profile e) \<and>
     utf8_valid (rs_NodeID e) \<and> utf8_valid (rs_AuditRootHash e) \<and> utf8_valid (rs_PeerAuditRootHash e)"

lemma sresp_assign: "sresp_ok e \<Longrightarrow> assign_members sresp_tags sresp_put (sresp_fields e) sresp_zero = Some e"
  unfolding sresp_fields_def sresp_ok_def
  by (simp add: assign_members_append assign_omit sresp_tags_def sresp_put_def sresp_zero_def match_field_def)

lemma sresp_tree_ok: "sresp_ok e \<Longrightarrow> d < 9999 \<Longrightarrow> tree_ok d (TObj (sresp_fields e))"
  by (auto simp: sresp_fields_def sresp_ok_def omit_if_def max_depth_def is_ascii_def)

definition ninfo_zero :: NodeInfo where
  "ninfo_zero = \<lparr>ni_NodeID = [], ni_NodeScope = [], ni_Region = [], ni_ApplicableLaw = [],
     ni_Profile = []\<rparr>"

definition ninfo_fields :: "NodeInfo \<Rightarrow> (string \<times> jtree) list" where
  "ninfo_fields e =
     [(''node_id'', TStr (ni_NodeID e)),
      (''node_scope'', TStr (ni_NodeScope e)),
      (''region'', TStr (ni_Region e)),
      (''applicable_law'', TStr (ni_ApplicableLaw e)),
      (''profile'', TStr (ni_Profile e))]"

definition ninfo_tags :: "string list" where
  "ninfo_tags = [''node_id'', ''node_scope'', ''region'', ''applicable_law'', ''profile'']"

definition ninfo_put :: "string \<Rightarrow> jtree \<Rightarrow> NodeInfo \<Rightarrow> NodeInfo option" where
  "ninfo_put t v e =
     (if t = ''node_id'' then map_option (\<lambda>x. e\<lparr>ni_NodeID := x\<rparr>) (dec_string v (ni_NodeID e))
      else if t = ''node_scope'' then map_option (\<lambda>x. e\<lparr>ni_NodeScope := x\<rparr>) (dec_string v (ni_NodeScope e))
      else if t = ''region'' then map_option (\<lambda>x. e\<lparr>ni_Region := x\<rparr>) (dec_string v (ni_Region e))
      else if t = ''applicable_law'' then map_option (\<lambda>x. e\<lparr>ni_ApplicableLaw := x\<rparr>) (dec_string v (ni_ApplicableLaw e))
      else if t = ''profile'' then map_option (\<lambda>x. e\<lparr>ni_Profile := x\<rparr>) (dec_string v (ni_Profile e))
      else None)"

definition ninfo_ok :: "NodeInfo \<Rightarrow> bool" where
  "ninfo_ok e \<longleftrightarrow>
     utf8_valid (ni_NodeID e) \<and> utf8_valid (ni_NodeScope e) \<and> utf8_valid (ni_Region e) \<and>
     utf8_valid (ni_ApplicableLaw e) \<and> utf8_valid (ni_Profile e)"

lemma ninfo_assign: "ninfo_ok e \<Longrightarrow> assign_members ninfo_tags ninfo_put (ninfo_fields e) ninfo_zero = Some e"
  unfolding ninfo_fields_def ninfo_ok_def
  by (simp add: assign_members_append assign_omit ninfo_tags_def ninfo_put_def ninfo_zero_def match_field_def)

lemma ninfo_tree_ok: "ninfo_ok e \<Longrightarrow> d < 9999 \<Longrightarrow> tree_ok d (TObj (ninfo_fields e))"
  by (auto simp: ninfo_fields_def ninfo_ok_def omit_if_def max_depth_def is_ascii_def)

definition rhm_zero :: RootHashMessage where
  "rhm_zero = \<lparr>rh_NodeID = [], rh_RootHash = [], rh_Timestamp = 0, rh_Signature = []\<rparr>"

definition rhm_fields :: "RootHashMessage \<Rightarrow> (string \<times> jtree) list" where
  "rhm_fields e =
     [(''node_id'', TStr (rh_NodeID e)),
      (''root_hash'', TStr (rh_RootHash e)),
      (''timestamp'', TNum (show_int (rh_Timestamp e)))] @
     omit_if (rh_Signature e = []) ''signature'' (TStr (base64 (rh_Signature e)))"

definition rhm_tags :: "string list" where
  "rhm_tags = [''node_id'', ''root_hash'', ''timestamp'', ''signature'']"

definition rhm_put :: "string \<Rightarrow> jtree \<Rightarrow> RootHashMessage \<Rightarrow> RootHashMessage option" where
  "rhm_put t v e =
     (if t = ''node_id'' then map_option (\<lambda>x. e\<lparr>rh_NodeID := x\<rparr>) (dec_string v (rh_NodeID e))
      else if t = ''root_hash'' then map_option (\<lambda>x. e\<lparr>rh_RootHash := x\<rparr>) (dec_string v (rh_RootHash e))
      else if t = ''timestamp'' then map_option (\<lambda>x. e\<lparr>rh_Timestamp := x\<rparr>) (dec_int64 v (rh_Timestamp e))
      else if t = ''signature'' then map_option (\<lambda>x. e\<lparr>rh_Signature := x\<rparr>) (map_option (case_option [] (\<lambda>x. x)) (dec_bytes v (rh_Signature e)))
      else None)"

definition rhm_ok :: "RootHashMessage \<Rightarrow> bool" where
  "rhm_ok e \<longleftrightarrow>
     utf8_valid (rh_NodeID e) \<and> utf8_valid (rh_RootHash e) \<and> int64_range (rh_Timestamp e)"

lemma rhm_assign: "rhm_ok e \<Longrightarrow> assign_members rhm_tags rhm_put (rhm_fields e) rhm_zero = Some e"
  unfolding rhm_fields_def rhm_ok_def
  by (simp add: assign_members_append assign_omit rhm_tags_def rhm_put_def rhm_zero_def match_field_def)

lemma rhm_tree_ok: "rhm_ok e \<Longrightarrow> d < 9999 \<Longrightarrow> tree_ok d (TObj (rhm_fields e))"
  by (auto simp: rhm_fields_def rhm_ok_def omit_if_def max_depth_def is_ascii_def)

definition dreq_zero :: discovery_Request where
  "dreq_zero = \<lparr>bq_QueryHash = [], bq_QueryType = [], bq_OriginNodeID = [], bq_OriginAppID = [],
     bq_HopLimit = 0, bq_RequestID = [], bq_Timestamp = 0\<rparr>"

definition dreq_fields :: "discovery_Request \<Rightarrow> (string \<times> jtree) list" where
  "dreq_fields e =
     [(''query_hash'', TStr (bq_QueryHash e)),
      (''query_type'', TStr (bq_QueryType e)),
      (''origin_node_id'', TStr (bq_OriginNodeID e)),
      (''origin_app_id'', TStr (bq_OriginAppID e)),
      (''hop_limit'', TNum (show_int (uint (bq_HopLimit e)))),
      (''request_id'', TStr (bq_RequestID e)),
      (''timestamp'', TNum (show_int (bq_Timestamp e)))]"

definition dreq_tags :: "string list" where
  "dreq_tags = [''query_hash'', ''query_type'', ''origin_node_id'', ''origin_app_id'', ''hop_limit'',
     ''request_id'', ''timestamp'']"

definition dreq_put :: "string \<Rightarrow> jtree \<Rightarrow> discovery_Request \<Rightarrow> discovery_Request option" where
  "dreq_put t v e =
     (if t = ''query_hash'' then map_option (\<lambda>x. e\<lparr>bq_QueryHash := x\<rparr>) (dec_string v (bq_QueryHash e))
      else if t = ''query_type'' then map_option (\<lambda>x. e\<lparr>bq_QueryType := x\<rparr>) (dec_string v (bq_QueryType e))
      else if t = ''origin_node_id'' then map_option (\<lambda>x. e\<lparr>bq_OriginNodeID := x\<rparr>) (dec_string v (bq_OriginNodeID e))
      else if t = ''origin_app_id'' then map_option (\<lambda>x. e\<lparr>bq_OriginAppID := x\<rparr>) (dec_string v (bq_OriginAppID e))
      else if t = ''hop_limit'' then map_option (\<lambda>x. e\<lparr>bq_HopLimit := x\<rparr>) (dec_uint32 v (bq_HopLimit e))
      else if t = ''request_id'' then map_option (\<lambda>x. e\<lparr>bq_RequestID := x\<rparr>) (dec_string v (bq_RequestID e))
      else if t = ''timestamp'' then map_option (\<lambda>x. e\<lparr>bq_Timestamp := x\<rparr>) (dec_int64 v (bq_Timestamp e))
      else None)"

definition dreq_ok :: "discovery_Request \<Rightarrow> bool" where
  "dreq_ok e \<longleftrightarrow>
     utf8_valid (bq_QueryHash e) \<and> utf8_valid (bq_QueryType e) \<and>
     utf8_valid (bq_OriginNodeID e) \<and> utf8_valid (bq_OriginAppID e) \<and>
     utf8_valid (bq_RequestID e) \<and> int64_range (bq_Timestamp e)"

lemma dreq_assign: "dreq_ok e \<Longrightarrow> assign_members dreq_tags dreq_put (dreq_fields e) dreq_zero = Some e"
  unfolding dreq_fields_def dreq_ok_def
  by (simp add: assign_members_append assign_omit dreq_tags_def dreq_put_def dreq_zero_def match_field_def)

lemma dreq_tree_ok: "dreq_ok e \<Longrightarrow> d < 9999 \<Longrightarrow> tree_ok d (TObj (dreq_fields e))"
  by (auto simp: dreq_fields_def dreq_ok_def omit_if_def max_depth_def is_ascii_def)

definition dresp_zero :: discovery_Response where
  "dresp_zero = \<lparr>bp_NodeID = [], bp_AppID = [], bp_OpaqueToken = [], bp_DisplayHint = [],
     bp_MatchType = [], bp_TokenExpires = 0\<rparr>"

definition dresp_fields :: "discovery_Response \<Rightarrow> (string \<times> jtree) list" where
  "dresp_fields e =
     [(''node_id'', TStr (bp_NodeID e)),
      (''app_id'', TStr (bp_AppID e)),
      (''opaque_token'', TStr (bp_OpaqueToken e)),
      (''display_hint'', TStr (bp_DisplayHint e)),
      (''match_type'', TStr (bp_MatchType e)),
      (''token_expires'', TNum (show_int (bp_TokenExpires e)))]"

definition dresp_tags :: "string list" where
  "dresp_tags = [''node_id'', ''app_id'', ''opaque_token'', ''display_hint'', ''match_type'', ''token_expires'']"

definition dresp_put :: "string \<Rightarrow> jtree \<Rightarrow> discovery_Response \<Rightarrow> discovery_Response option" where
  "dresp_put t v e =
     (if t = ''node_id'' then map_option (\<lambda>x. e\<lparr>bp_NodeID := x\<rparr>) (dec_string v (bp_NodeID e))
      else if t = ''app_id'' then map_option (\<lambda>x. e\<lparr>bp_AppID := x\<rparr>) (dec_string v (bp_AppID e))
      else if t = ''opaque_token'' then map_option (\<lambda>x. e\<lparr>bp_OpaqueToken := x\<rparr>) (dec_string v (bp_OpaqueToken e))
      else if t = ''display_hint'' then map_option (\<lambda>x. e\<lparr>bp_DisplayHint := x\<rparr>) (dec_string v (bp_DisplayHint e))
      else if t = ''match_type'' then map_option (\<lambda>x. e\<lparr>bp_MatchType := x\<rparr>) (dec_string v (bp_MatchType e))
      else if t = ''token_expires'' then map_option (\<lambda>x. e\<lparr>bp_TokenExpires := x\<rparr>) (dec_int64 v (bp_TokenExpires e))
      else None)"

definition dresp_ok :: "discovery_Response \<Rightarrow> bool" where
  "dresp_ok e \<longleftrightarrow>
     utf8_valid (bp_NodeID e) \<and> utf8_valid (bp_AppID e) \<and> utf8_valid (bp_OpaqueToken e) \<and>
     utf8_valid (bp_DisplayHint e) \<and> utf8_valid (bp_MatchType e) \<and> int64_range (bp_TokenExpires e)"

lemma dresp_assign: "dresp_ok e \<Longrightarrow> assign_members dresp_tags dresp_put (dresp_fields e) dresp_zero = Some e"
  unfolding dresp_fields_def dresp_ok_def
  by (simp add: assign_members_append assign_omit dresp_tags_def dresp_put_def dresp_zero_def match_field_def)

lemma dresp_tree_ok: "dresp_ok e \<Longrightarrow> d < 9999 \<Longrightarrow> tree_ok d (TObj (dresp_fields e))"
  by (auto simp: dresp_fields_def dresp_ok_def omit_if_def max_depth_def is_ascii_def)

definition creq_zero :: ConnectRequest where
  "creq_zero = \<lparr>cq_OpaqueToken = [], cq_OriginNodeID = [], cq_OriginAppID = [], cq_RequestID = []\<rparr>"

definition creq_fields :: "ConnectRequest \<Rightarrow> (string \<times> jtree) list" where
  "creq_fields e =
     [(''opaque_token'', TStr (cq_OpaqueToken e)),
      (''origin_node_id'', TStr (cq_OriginNodeID e)),
      (''origin_app_id'', TStr (cq_OriginAppID e)),
      (''request_id'', TStr (cq_RequestID e))]"

definition creq_tags :: "string list" where
  "creq_tags = [''opaque_token'', ''origin_node_id'', ''origin_app_id'', ''request_id'']"

definition creq_put :: "string \<Rightarrow> jtree \<Rightarrow> ConnectRequest \<Rightarrow> ConnectRequest option" where
  "creq_put t v e =
     (if t = ''opaque_token'' then map_option (\<lambda>x. e\<lparr>cq_OpaqueToken := x\<rparr>) (dec_string v (cq_OpaqueToken e))
      else if t = ''origin_node_id'' then map_option (\<lambda>x. e\<lparr>cq_OriginNodeID := x\<rparr>) (dec_string v (cq_OriginNodeID e))
      else if t = ''origin_app_id'' then map_option (\<lambda>x. e\<lparr>cq_OriginAppID := x\<rparr>) (dec_string v (cq_OriginAppID e))
      else if t = ''request_id'' then map_option (\<lambda>x. e\<lparr>cq_RequestID := x\<rparr>) (dec_string v (cq_RequestID e))
      else None)"

definition creq_ok :: "ConnectRequest \<Rightarrow> bool" where
  "creq_ok e \<longleftrightarrow>
     utf8_valid (cq_OpaqueToken e) \<and> utf8_valid (cq_OriginNodeID e) \<and>
     utf8_valid (cq_OriginAppID e) \<and> utf8_valid (cq_RequestID e)"

lemma creq_assign: "creq_ok e \<Longrightarrow> assign_members creq_tags creq_put (creq_fields e) creq_zero = Some e"
  unfolding creq_fields_def creq_ok_def
  by (simp add: assign_members_append assign_omit creq_tags_def creq_put_def creq_zero_def match_field_def)

lemma creq_tree_ok: "creq_ok e \<Longrightarrow> d < 9999 \<Longrightarrow> tree_ok d (TObj (creq_fields e))"
  by (auto simp: creq_fields_def creq_ok_def omit_if_def max_depth_def is_ascii_def)

definition cack_zero :: ConnectAck where
  "cack_zero = \<lparr>ca_Status = [], ca_SessionID = [], ca_ExpiresAt = 0, ca_Reason = []\<rparr>"

definition cack_fields :: "ConnectAck \<Rightarrow> (string \<times> jtree) list" where
  "cack_fields e =
     [(''status'', TStr (ca_Status e))] @
     omit_if (ca_SessionID e = []) ''session_id'' (TStr (ca_SessionID e)) @
     omit_if (ca_ExpiresAt e = 0) ''expires_at'' (TNum (show_int (ca_ExpiresAt e))) @
     omit_if (ca_Reason e = []) ''reason'' (TStr (ca_Reason e))"

definition cack_tags :: "string list" where
  "cack_tags = [''status'', ''session_id'', ''expires_at'', ''reason'']"

definition cack_put :: "string \<Rightarrow> jtree \<Rightarrow> ConnectAck \<Rightarrow> ConnectAck option" where
  "cack_put t v e =
     (if t = ''status'' then map_option (\<lambda>x. e\<lparr>ca_Status := x\<rparr>) (dec_string v (ca_Status e))
      else if t = ''session_id'' then map_option (\<lambda>x. e\<lparr>ca_SessionID := x\<rparr>) (dec_string v (ca_SessionID e))
      else if t = ''expires_at'' then map_option (\<lambda>x. e\<lparr>ca_ExpiresAt := x\<rparr>) (dec_int64 v (ca_ExpiresAt e))
      else if t = ''reason'' then map_option (\<lambda>x. e\<lparr>ca_Reason := x\<rparr>) (dec_string v (ca_Reason e))
      else None)"

definition cack_ok :: "ConnectAck \<Rightarrow> bool" where
  "cack_ok e \<longleftrightarrow>
     utf8_valid (ca_Status e) \<and> utf8_valid (ca_SessionID e) \<and> utf8_valid (ca_Reason e) \<and>
     int64_range (ca_ExpiresAt e)"

lemma cack_assign: "cack_ok e \<Longrightarrow> assign_members cack_tags cack_put (cack_fields e) cack_zero = Some e"
  unfolding cack_fields_def cack_ok_def
  by (simp add: assign_members_append assign_omit cack_tags_def cack_put_def cack_zero_def match_field_def)

lemma cack_tree_ok: "cack_ok e \<Longrightarrow> d < 9999 \<Longrightarrow> tree_ok d (TObj (cack_fields e))"
  by (auto simp: cack_fields_def cack_ok_def omit_if_def max_depth_def is_ascii_def)

definition pent_zero :: PeerEntry where
  "pent_zero = \<lparr>pe_NodeID = [], pe_Addr = [], pe_NodeScope = [], pe_Region = [], pe_LastSeen = 0\<rparr>"

definition pent_fields :: "PeerEntry \<Rightarrow> (string \<times> jtree) list" where
  "pent_fields e =
     [(''node_id'', TStr (pe_NodeID e)),
      (''addr'', TStr (pe_Addr e)),
      (''node_scope'', TStr (pe_NodeScope e)),
      (''region'', TStr (pe_Region e)),
      (''last_seen'', TNum (show_int (pe_LastSeen e)))]"

definition pent_tags :: "string list" where
  "pent_tags = [''node_id'', ''addr'', ''node_scope'', ''region'', ''last_seen'']"

definition pent_put :: "string \<Rightarrow> jtree \<Rightarrow> PeerEntry \<Rightarrow> PeerEntry option" where
  "pent_put t v e =
     (if t = ''node_id'' then map_option (\<lambda>x. e\<lparr>pe_NodeID := x\<rparr>) (dec_string v (pe_NodeID e))
      else if t = ''addr'' then map_option (\<lambda>x. e\<lparr>pe_Addr := x\<rparr>) (dec_string v (pe_Addr e))
      else if t = ''node_scope'' then map_option (\<lambda>x. e\<lparr>pe_NodeScope := x\<rparr>) (dec_string v (pe_NodeScope e))
      else if t = ''region'' then map_option (\<lambda>x. e\<lparr>pe_Region := x\<rparr>) (dec_string v (pe_Region e))
      else if t = ''last_seen'' then map_option (\<lambda>x. e\<lparr>pe_LastSeen := x\<rparr>) (dec_int64 v (pe_LastSeen e))
      else None)"

definition pent_ok :: "PeerEntry \<Rightarrow> bool" where
  "pent_ok e \<longleftrightarrow>
     utf8_valid (pe_NodeID e) \<and> utf8_valid (pe_Addr e) \<and> utf8_valid (pe_NodeScope e) \<and>
     utf8_valid (pe_Region e) \<and> int64_range (pe_LastSeen e)"

lemma pent_assign: "pent_ok e \<Longrightarrow> assign_members pent_tags pent_put (pent_fields e) pent_zero = Some e"
  unfolding pent_fields_def pent_ok_def
  by (simp add: assign_members_append assign_omit pent_tags_def pent_put_def pent_zero_def match_field_def)

lemma pent_tree_ok: "pent_ok e \<Longrightarrow> d < 9999 \<Longrightarrow> tree_ok d (TObj (pent_fields e))"
  by (auto simp: pent_fields_def pent_ok_def omit_if_def max_depth_def is_ascii_def)

text \<open>A slice of structs; \<open>null\<close> makes it nil, and elements that were there keep the fields a value leaves out.\<close>

fun dec_peer_list :: "jtree list \<Rightarrow> PeerEntry list \<Rightarrow> PeerEntry list option" where
  "dec_peer_list [] old = Some []"
| "dec_peer_list (v # vs) old =
     (case assign_object pent_tags pent_put v (case old of p # _ \<Rightarrow> p | [] \<Rightarrow> pent_zero) of
        None \<Rightarrow> None
      | Some p \<Rightarrow> map_option ((#) p) (dec_peer_list vs (tl old)))"

definition dec_peers :: "jtree \<Rightarrow> PeerEntry list \<Rightarrow> PeerEntry list option" where
  "dec_peers v old = (case v of TArr vs \<Rightarrow> dec_peer_list vs old | TNull \<Rightarrow> Some [] | _ \<Rightarrow> None)"

definition peers_tree :: "PeerEntry list \<Rightarrow> jtree" where
  "peers_tree ps = TArr (map (\<lambda>p. TObj (pent_fields p)) ps)"

lemma dec_peer_list_enc: "list_all pent_ok ps \<Longrightarrow> dec_peer_list (map (\<lambda>p. TObj (pent_fields p)) ps) [] = Some ps"
  by (induction ps) (simp_all add: assign_object_def pent_assign)

lemma dec_peers_enc [simp]: "list_all pent_ok ps \<Longrightarrow> dec_peers (peers_tree ps) [] = Some ps"
  by (simp add: dec_peers_def peers_tree_def dec_peer_list_enc)

lemma dec_peers_null [simp]: "dec_peers TNull old = Some []"
  by (simp add: dec_peers_def)

lemma peers_tree_ok: "list_all pent_ok ps \<Longrightarrow> tree_ok (Suc 0) (peers_tree ps)"
  using pent_tree_ok [of _ 2]
  by (auto simp: peers_tree_def max_depth_def list_all_iff numeral_2_eq_2 simp del: tree_ok.simps(6))

subsection \<open>Messages\<close>

fun request_fields :: "rpc_request \<Rightarrow> (string \<times> jtree) list" where
  "request_fields (SendEnvelopeRequest e) = [(''envelope'', TObj (wenv_fields e))]"
| "request_fields GetNodeInfoRequest = []"
| "request_fields (ShareRootHashRequest m) = rhm_fields m"
| "request_fields (BroadcastDiscoveryRequest d) = dreq_fields d"
| "request_fields (ConnectPeerRequest c) = creq_fields c"
| "request_fields (ExchangePeersRequest p) =
     [(''sender_node_id'', TStr (pl_SenderNodeID p)), (''known_peers'', peers_tree (pl_KnownPeers p))]"

text \<open>The peers of an answer are a nil slice when there is none.\<close>

fun response_fields :: "rpc_response \<Rightarrow> (string \<times> jtree) list" where
  "response_fields (SendEnvelopeResponse r) = sresp_fields r"
| "response_fields (GetNodeInfoResponse n) = ninfo_fields n"
| "response_fields (RootHashAck b) = [(''accepted'', TBool b)]"
| "response_fields (DiscoveryResponse d) = dresp_fields d"
| "response_fields (ConnectAckResponse c) = cack_fields c"
| "response_fields (PeerListResponse ps) = [(''peers'', if ps = [] then TNull else peers_tree ps)]"

definition codec_Marshal :: "(string \<times> jtree) list \<Rightarrow> string" where
  "codec_Marshal fs = enc_tree (TObj fs)"

definition sreq_put :: "string \<Rightarrow> jtree \<Rightarrow> Envelope \<Rightarrow> Envelope option" where
  "sreq_put t v e = assign_object wenv_tags wenv_put v e"

definition plreq_put :: "string \<Rightarrow> jtree \<Rightarrow> PeerListRequest \<Rightarrow> PeerListRequest option" where
  "plreq_put t v e =
     (if t = ''sender_node_id'' then map_option (\<lambda>x. e\<lparr>pl_SenderNodeID := x\<rparr>) (dec_string v (pl_SenderNodeID e))
      else map_option (\<lambda>x. e\<lparr>pl_KnownPeers := x\<rparr>) (dec_peers v (pl_KnownPeers e)))"

text \<open>\<open>jsonCodec.Unmarshal\<close> of the body of a method.\<close>

definition decode_request :: "string \<Rightarrow> string \<Rightarrow> rpc_request option" where
  "decode_request methodName s =
     (if methodName = ''SendEnvelope'' then map_option SendEnvelopeRequest (unmarshal [''envelope''] sreq_put s wenv_zero)
      else if methodName = ''GetNodeInfo'' then map_option (\<lambda>_. GetNodeInfoRequest) (unmarshal [] (\<lambda>_ _. Some) s ())
      else if methodName = ''ShareRootHash'' then map_option ShareRootHashRequest (unmarshal rhm_tags rhm_put s rhm_zero)
      else if methodName = ''BroadcastDiscovery'' then
        map_option BroadcastDiscoveryRequest (unmarshal dreq_tags dreq_put s dreq_zero)
      else if methodName = ''Connect'' then map_option ConnectPeerRequest (unmarshal creq_tags creq_put s creq_zero)
      else if methodName = ''ExchangePeers'' then
        map_option ExchangePeersRequest
          (unmarshal [''sender_node_id'', ''known_peers''] plreq_put s \<lparr>pl_SenderNodeID = [], pl_KnownPeers = []\<rparr>)
      else None)"

definition decode_response :: "string \<Rightarrow> string \<Rightarrow> rpc_response option" where
  "decode_response methodName s =
     (if methodName = ''SendEnvelope'' then map_option SendEnvelopeResponse (unmarshal sresp_tags sresp_put s sresp_zero)
      else if methodName = ''GetNodeInfo'' then map_option GetNodeInfoResponse (unmarshal ninfo_tags ninfo_put s ninfo_zero)
      else if methodName = ''ShareRootHash'' then map_option RootHashAck (unmarshal [''accepted''] (\<lambda>_. dec_bool) s False)
      else if methodName = ''BroadcastDiscovery'' then
        map_option DiscoveryResponse (unmarshal dresp_tags dresp_put s dresp_zero)
      else if methodName = ''Connect'' then map_option ConnectAckResponse (unmarshal cack_tags cack_put s cack_zero)
      else if methodName = ''ExchangePeers'' then map_option PeerListResponse (unmarshal [''peers''] (\<lambda>_. dec_peers) s [])
      else None)"

fun request_ok :: "rpc_request \<Rightarrow> bool" where
  "request_ok (SendEnvelopeRequest e) \<longleftrightarrow> wenv_ok e"
| "request_ok GetNodeInfoRequest \<longleftrightarrow> True"
| "request_ok (ShareRootHashRequest m) \<longleftrightarrow> rhm_ok m"
| "request_ok (BroadcastDiscoveryRequest d) \<longleftrightarrow> dreq_ok d"
| "request_ok (ConnectPeerRequest c) \<longleftrightarrow> creq_ok c"
| "request_ok (ExchangePeersRequest p) \<longleftrightarrow> utf8_valid (pl_SenderNodeID p) \<and> list_all pent_ok (pl_KnownPeers p)"

fun response_ok :: "rpc_response \<Rightarrow> bool" where
  "response_ok (SendEnvelopeResponse r) \<longleftrightarrow> sresp_ok r"
| "response_ok (GetNodeInfoResponse n) \<longleftrightarrow> ninfo_ok n"
| "response_ok (RootHashAck b) \<longleftrightarrow> True"
| "response_ok (DiscoveryResponse d) \<longleftrightarrow> dresp_ok d"
| "response_ok (ConnectAckResponse c) \<longleftrightarrow> cack_ok c"
| "response_ok (PeerListResponse ps) \<longleftrightarrow> list_all pent_ok ps"

fun request_method :: "rpc_request \<Rightarrow> string" where
  "request_method (SendEnvelopeRequest _) = ''SendEnvelope''"
| "request_method GetNodeInfoRequest = ''GetNodeInfo''"
| "request_method (ShareRootHashRequest _) = ''ShareRootHash''"
| "request_method (BroadcastDiscoveryRequest _) = ''BroadcastDiscovery''"
| "request_method (ConnectPeerRequest _) = ''Connect''"
| "request_method (ExchangePeersRequest _) = ''ExchangePeers''"

fun response_method :: "rpc_response \<Rightarrow> string" where
  "response_method (SendEnvelopeResponse _) = ''SendEnvelope''"
| "response_method (GetNodeInfoResponse _) = ''GetNodeInfo''"
| "response_method (RootHashAck _) = ''ShareRootHash''"
| "response_method (DiscoveryResponse _) = ''BroadcastDiscovery''"
| "response_method (ConnectAckResponse _) = ''Connect''"
| "response_method (PeerListResponse _) = ''ExchangePeers''"

lemmas struct_assigns = wenv_assign sresp_assign ninfo_assign rhm_assign dreq_assign dresp_assign creq_assign cack_assign

lemmas struct_trees = wenv_tree_ok sresp_tree_ok ninfo_tree_ok rhm_tree_ok dreq_tree_ok dresp_tree_ok creq_tree_ok cack_tree_ok

lemma request_tree_ok: "request_ok q \<Longrightarrow> tree_ok 0 (TObj (request_fields q))"
  using struct_trees [of _ 0] wenv_tree_ok [of _ 1] peers_tree_ok
  by (cases q) (auto simp: max_depth_def is_ascii_def)

lemma response_tree_ok: "response_ok r \<Longrightarrow> tree_ok 0 (TObj (response_fields r))"
  using struct_trees [of _ 0] peers_tree_ok by (cases r) (auto simp: max_depth_def is_ascii_def)

lemma request_round_trip:
  assumes "request_ok q"
  shows "decode_request (request_method q) (codec_Marshal (request_fields q)) = Some q"
  using assms request_tree_ok [OF assms]
  by (cases q)
    (auto simp: decode_request_def codec_Marshal_def struct_assigns sreq_put_def plreq_put_def match_field_def
      assign_object_def intro!: row_round_trip simp del: enc_tree.simps tree_ok.simps)

lemma response_round_trip:
  assumes "response_ok r"
  shows "decode_response (response_method r) (codec_Marshal (response_fields r)) = Some r"
  using assms response_tree_ok [OF assms]
  by (cases r)
    (auto simp: decode_response_def codec_Marshal_def struct_assigns match_field_def
      intro!: row_round_trip simp del: enc_tree.simps tree_ok.simps)

subsection \<open>A call over the wire\<close>

text \<open>
  \<open>conn.Invoke\<close> against a service: the client encodes the request, the server decodes it for the
  handler of the method, encodes the answer, and the client decodes that.
\<close>

definition wire_call ::
  "(grpc_error \<Rightarrow> string) \<Rightarrow> 'w grpc_env \<Rightarrow> string \<Rightarrow> string \<Rightarrow> 'w grpc_state \<Rightarrow> (string + string) \<times> 'w grpc_state" where
  "wire_call errstr G path body st =
     (case method_of path of
        None \<Rightarrow> (Inl ''unknown method'', st)
      | Some m \<Rightarrow>
          (case GatewayService G m (decode_request m body) None st of
             None \<Rightarrow> (Inl ''unknown method'', st)
           | Some (Inl e, st') \<Rightarrow> (Inl (errstr e), st')
           | Some (Inr resp, st') \<Rightarrow> (Inr (codec_Marshal (response_fields resp)), st')))"

definition wire_round_trip ::
  "(grpc_error \<Rightarrow> string) \<Rightarrow> 'w grpc_env \<Rightarrow> (rpc_response \<Rightarrow> 'r option) \<Rightarrow> string \<Rightarrow> rpc_request \<Rightarrow> 'w grpc_state \<Rightarrow>
   (string + 'r) \<times> 'w grpc_state" where
  "wire_round_trip errstr G prj path req st =
     (case wire_call errstr G path (codec_Marshal (request_fields req)) st of
        (Inl err, st') \<Rightarrow> (Inl err, st')
      | (Inr body, st') \<Rightarrow>
          (case Option.bind (Option.bind (method_of path) (\<lambda>m. decode_response m body)) prj of
             Some r \<Rightarrow> (Inr r, st')
           | None \<Rightarrow> (Inl ''decode'', st')))"

lemma GatewayService_answers:
  assumes "GatewayService G (request_method q) (Some q) None st = Some (Inr resp, st')"
  shows "response_method resp = request_method q"
  using assms
  by (cases q)
    (auto simp: GatewayService_def handler_defs svc_SendEnvelope_def svc_GetNodeInfo_def svc_ShareRootHash_def
      svc_BroadcastDiscovery_def svc_Connect_def svc_ExchangePeers_def map_sum_def split: prod.splits sum.splits)

text \<open>
  C39. The wire is transparent: a call whose request and answer carry valid UTF-8 texts has the
  same answer and the same effect on the peer when it goes through the encoded bytes as when
  the messages are handed over directly.
\<close>

theorem wire_transparent:
  assumes "request_ok q" "method_of path = Some (request_method q)"
    and "\<And>resp st'. GatewayService G (request_method q) (Some q) None st = Some (Inr resp, st') \<Longrightarrow> response_ok resp"
  shows "wire_round_trip errstr G prj path q st = round_trip errstr G prj path q st"
proof (cases "GatewayService G (request_method q) (Some q) None st")
  case None
  then show ?thesis
    by (simp add: wire_round_trip_def wire_call_def round_trip_def assms(2) request_round_trip [OF assms(1)])
next
  case (Some a)
  obtain res st' where a: "a = (res, st')" by fastforce
  show ?thesis
  proof (cases res)
    case (Inl e)
    with Some a show ?thesis
      by (simp add: wire_round_trip_def wire_call_def round_trip_def assms(2) request_round_trip [OF assms(1)])
  next
    case (Inr resp)
    with Some a have run: "GatewayService G (request_method q) (Some q) None st = Some (Inr resp, st')" by simp
    from response_round_trip [OF assms(3) [OF run]]
    have "decode_response (request_method q) (codec_Marshal (response_fields resp)) = Some resp"
      by (simp add: GatewayService_answers [OF run])
    with run show ?thesis
      by (simp add: wire_round_trip_def wire_call_def round_trip_def assms(2) request_round_trip [OF assms(1)]
          split: option.split)
  qed
qed

theorem wire_transparent_witness:
  "wire_round_trip (\<lambda>_. ''status'') demo_peer_env (\<lambda>r. case r of GetNodeInfoResponse n \<Rightarrow> Some (ni_NodeID n) | _ \<Rightarrow> None)
     ''/mrmi.v1.GatewayService/GetNodeInfo'' GetNodeInfoRequest demo_peer_state =
   (Inr (nc_NodeID (cfg_Node DefaultBalancedConfig)), demo_peer_state)"
proof -
  let ?m = "''/mrmi.v1.GatewayService/GetNodeInfo''"
  have run: "GatewayService demo_peer_env (request_method GetNodeInfoRequest) (Some GetNodeInfoRequest) None demo_peer_state =
      Some (Inr (GetNodeInfoResponse (GetNodeInfo demo_gateway)), demo_peer_state)"
    by (simp add: GatewayService_def handler_defs svc_GetNodeInfo_def adapter_GetNodeInfo_def demo_peer_state_def NewAdapter_def)
  have "response_ok (GetNodeInfoResponse (GetNodeInfo demo_gateway))"
    by (simp add: ninfo_ok_def GetNodeInfo_def demo_gateway_def NewGateway_def cfg_defs utf8_valid_ascii is_ascii_def)
  with run show ?thesis
    using wire_transparent [of GetNodeInfoRequest ?m demo_peer_env demo_peer_state "\<lambda>_. ''status''"
        "\<lambda>r. case r of GetNodeInfoResponse n \<Rightarrow> Some (ni_NodeID n) | _ \<Rightarrow> None"]
    by (simp add: round_trip_def GetNodeInfo_def demo_gateway_def NewGateway_def)
qed

end
