(* ===== verification/Lifecycle.thy ===== *)
theory Lifecycle
  imports Node_Props Connpool Platform
begin

text \<open>
  The edges of a node's life: the gRPC server object (\<open>transport/grpc/server.go\<close>) and the dial of
  a client (\<open>client.go\<close>) with their credentials, the TLS material of \<open>app.Run\<close>, the page of
  \<open>metrics.go\<close>, and the end of \<open>app.Run\<close>. Listening, the grpc library and the time until a stop
  has drained are parameters; verbs such as \<open>%q\<close> are a parameter \<open>quote\<close>.
\<close>

subsection \<open>Credentials\<close>

datatype credentials = TLSCredentials tls_Config | InsecureCredentials

definition creds_of :: "tls_Config option \<Rightarrow> credentials" where
  "creds_of tlsCfg = (case tlsCfg of Some t \<Rightarrow> TLSCredentials t | None \<Rightarrow> InsecureCredentials)"

record grpc_Server =
  gv_listener :: string
  gv_creds :: credentials

definition grpc_NewServer :: "(string \<Rightarrow> string + string) \<Rightarrow> string \<Rightarrow> tls_Config option \<Rightarrow> string + grpc_Server" where
  "grpc_NewServer listen listenAddr tlsCfg =
     (case listen listenAddr of
        Inl err \<Rightarrow> Inl err
      | Inr listener \<Rightarrow> Inr \<lparr>gv_listener = listener, gv_creds = creds_of tlsCfg\<rparr>)"

definition grpc_Addr :: "grpc_Server \<Rightarrow> string" where
  "grpc_Addr s = gv_listener s"

text \<open>\<open>Dial\<close>: the states are those the loop observes before the context is done. An error
  after the client was made closes its connection.\<close>

datatype dial_outcome = NewClientError string | DialFailed dial_error | Dialled credentials bool

definition client_Dial :: "(credentials \<Rightarrow> string option) \<Rightarrow> connectivity list \<Rightarrow> tls_Config option \<Rightarrow> dial_outcome \<times> bool" where
  "client_Dial newClient sts tlsCfg =
     (let creds = creds_of tlsCfg in
      case newClient creds of
        Some err \<Rightarrow> (NewClientError err, False)
      | None \<Rightarrow>
          (case dial_loop sts of
             Some err \<Rightarrow> (DialFailed err, True)
           | None \<Rightarrow> (Dialled creds False, False)))"

text \<open>\<open>Client.Close\<close>: whether the connection is closed.\<close>

definition client_Close :: "bool \<Rightarrow> bool" where
  "client_Close pooled = (\<not> pooled)"

subsection \<open>Starting with TLS\<close>

definition tls_text :: "(string \<Rightarrow> string) \<Rightarrow> tls_error \<Rightarrow> string" where
  "tls_text quote e =
     ''tlsutil: '' @
     (case e of
        CertKeyPair \<Rightarrow> ''cert and key must both be set or both be empty''
      | LoadKeyPair err \<Rightarrow> ''load key pair: '' @ err
      | ReadCA err \<Rightarrow> ''read CA: '' @ err
      | NoCertsInCA path \<Rightarrow> ''no valid certificates in CA file '' @ quote path)"

text \<open>The outcome of loading the material of the configuration, as \<open>node_start\<close> reads it.\<close>

definition tls_boot :: "(string \<Rightarrow> string) \<Rightarrow> tls_lib \<Rightarrow> Config \<Rightarrow> boot \<Rightarrow> boot" where
  "tls_boot quote L cfg b =
     b\<lparr>bt_serverTLS := (case Platform.LoadServerTLS L (cfg_TLS cfg) of Inl e \<Rightarrow> Some (tls_text quote e) | Inr _ \<Rightarrow> None),
       bt_clientTLS := (case Platform.LoadClientTLS L (cfg_TLS cfg) of Inl e \<Rightarrow> Some (tls_text quote e) | Inr _ \<Rightarrow> None)\<rparr>"

lemma started_tls_loaded:
  assumes "node_start (tls_boot quote L cfg b) cfg path = Inr n"
  obtains s c where "Platform.LoadServerTLS L (cfg_TLS cfg) = Inr s" "Platform.LoadClientTLS L (cfg_TLS cfg) = Inr c"
  using assms
  by (auto simp: node_start_def tls_boot_def Let_def split: sum.splits option.splits)

text \<open>
  A started node whose configuration names a certificate and does not turn TLS off serves gRPC
  over TLS 1.3 or later only, demands client certificates, and dials its peers with the same
  certificate and authorities.
\<close>

theorem started_node_mutual_tls:
  assumes "node_start (tls_boot quote L cfg b) cfg path = Inr n"
    and "\<not> tls_Insecure (cfg_TLS cfg)" "tls_Cert (cfg_TLS cfg) \<noteq> '''' \<or> tls_Key (cfg_TLS cfg) \<noteq> ''''"
  shows "\<exists>s c. Platform.LoadServerTLS L (cfg_TLS cfg) = Inr (Some s) \<and> Platform.LoadClientTLS L (cfg_TLS cfg) = Inr (Some c) \<and>
    tc_MinVersion s = VersionTLS13 \<and> tc_MinVersion c = VersionTLS13 \<and> tc_ClientAuth s = RequireAndVerifyClientCert \<and>
    length (tc_Certificates s) = 1 \<and> tc_Certificates c = tc_Certificates s \<and> tc_RootCAs c = tc_ClientCAs s"
proof -
  obtain s0 c0 where S: "Platform.LoadServerTLS L (cfg_TLS cfg) = Inr s0" and C: "Platform.LoadClientTLS L (cfg_TLS cfg) = Inr c0"
    by (rule started_tls_loaded [OF assms(1)])
  obtain s where s: "s0 = Some s" using server_tls_mutual [OF S] assms(2,3) by (cases s0) auto
  obtain c where c: "c0 = Some c" using C assms(2,3)
    by (auto simp: Platform.LoadClientTLS_def map_sum_def split: if_splits sum.splits)
  have "tc_MinVersion c = VersionTLS13"
    using C c by (auto simp: Platform.LoadClientTLS_def buildTLSConfig_def Let_def split: if_splits sum.splits)
  then show ?thesis
    using S C s c server_tls_mutual [OF S] server_client_same_CA [of L "cfg_TLS cfg" s c] by auto
qed

subsection \<open>The metrics page\<close>

definition metric_head :: "string \<Rightarrow> string \<Rightarrow> string \<Rightarrow> string" where
  "metric_head name help typ = ''# HELP '' @ name @ '' '' @ help @ nl @ ''# TYPE '' @ name @ '' '' @ typ @ nl"

definition metric :: "string \<Rightarrow> string \<Rightarrow> string \<Rightarrow> int \<Rightarrow> string" where
  "metric name help typ v = metric_head name help typ @ name @ '' '' @ show_int v @ nl"

definition deny_line :: "(string \<Rightarrow> string) \<Rightarrow> string \<Rightarrow> int \<Rightarrow> string" where
  "deny_line quote reason n = ''mrmi_envelope_deny_total{reason='' @ quote reason @ ''} '' @ show_int n @ nl"

text \<open>\<open>Registry.Handler\<close>; \<open>ks\<close> is the order in which the copy of the denials is read.\<close>

definition metrics_page ::
  "(string \<Rightarrow> string) \<Rightarrow> string list \<Rightarrow> (unit \<Rightarrow> int) option \<Rightarrow> (unit \<Rightarrow> int) option \<Rightarrow> (unit \<Rightarrow> int) option \<Rightarrow>
   metrics_Registry \<Rightarrow> string" where
  "metrics_page quote ks getDLQLen getTransitLen getPeerCount r =
     metric ''mrmi_envelope_allow_total'' ''Envelopes with ALLOW decision'' ''counter'' (mt_allowTotal r) @ nl @
     metric_head ''mrmi_envelope_deny_total'' ''Envelopes with DENY decision'' ''counter'' @
     concat (map (\<lambda>reason. deny_line quote reason (the (mt_denyByReason r reason))) ks) @ nl @
     metric ''mrmi_envelope_duplicate_total'' ''Envelopes rejected as duplicates'' ''counter'' (mt_duplicateTotal r) @ nl @
     metric ''mrmi_dlq_len'' ''Current DLQ depth'' ''gauge'' (readGauge getDLQLen) @ nl @
     metric ''mrmi_transit_cache_len'' ''Current transit cache depth'' ''gauge'' (readGauge getTransitLen) @ nl @
     metric ''mrmi_rate_limit_deny_total'' ''Discovery requests rejected by rate limiter'' ''counter''
       (mt_rateLimitDenyTotal r) @ nl @
     metric ''mrmi_peer_count'' ''Live peers in registry'' ''gauge'' (readGauge getPeerCount)"

text \<open>What a scrape of a node reads: the listener exists when an address is configured.\<close>

definition node_scrape :: "(string \<Rightarrow> string) \<Rightarrow> string list \<Rightarrow> (peer_Registry \<Rightarrow> string list) \<Rightarrow> Config \<Rightarrow> node \<Rightarrow> string option" where
  "node_scrape quote ks pord cfg n =
     (if nw_MetricsAddr (cfg_Network cfg) = '''' then None
      else case node_gauges pord n of (dlqLen, transitLen, peerCount) \<Rightarrow>
        map_option (metrics_page quote ks (Some (\<lambda>_. int dlqLen)) (Some (\<lambda>_. int transitLen)) (Some (\<lambda>_. int peerCount)))
          (ga_metricsReg (nd_grpc n)))"

text \<open>
  A scrape reports the audit log: in every state a started node reaches, the page is the text
  in which the totals are the numbers of audit entries with that decision, and each reason
  that was denied stands once with the number of its denials.
\<close>

theorem scrape_reports_audit:
  assumes "node_start b cfg path = Inr n0"
    and "enumerates (bt_order b (dom (nw_Peers (cfg_Network cfg)))) (nw_Peers (cfg_Network cfg))"
    and "node_reach digest fwd (n0, w0) (n, w)" "nw_MetricsAddr (cfg_Network cfg) \<noteq> ''''"
    and "\<And>m. ga_metricsReg (nd_grpc n) = Some m \<Longrightarrow> enumerates ks (mt_denyByReason m)"
  shows "\<exists>limited. let l = gw_audit (sv_gw (nd_srv n)); (dlqLen, transitLen, peerCount) = node_gauges pord n in
    node_scrape quote ks pord cfg n = Some
      (metric ''mrmi_envelope_allow_total'' ''Envelopes with ALLOW decision'' ''counter''
         (int64_wrap (int (decided DecisionAllow l))) @ nl @
       metric_head ''mrmi_envelope_deny_total'' ''Envelopes with DENY decision'' ''counter'' @
       concat (map (\<lambda>reason. deny_line quote reason (int64_wrap (int (denied_for reason l)))) ks) @ nl @
       metric ''mrmi_envelope_duplicate_total'' ''Envelopes rejected as duplicates'' ''counter''
         (int64_wrap (int (decided DecisionDuplicate l))) @ nl @
       metric ''mrmi_dlq_len'' ''Current DLQ depth'' ''gauge'' (int dlqLen) @ nl @
       metric ''mrmi_transit_cache_len'' ''Current transit cache depth'' ''gauge'' (int transitLen) @ nl @
       metric ''mrmi_rate_limit_deny_total'' ''Discovery requests rejected by rate limiter'' ''counter'' limited @ nl @
       metric ''mrmi_peer_count'' ''Live peers in registry'' ''gauge'' (int peerCount)) \<and>
    distinct ks \<and> (\<forall>reason. int64_wrap (int (denied_for reason l)) \<noteq> 0 \<longrightarrow> reason \<in> set ks)"
proof -
  let ?l = "gw_audit (sv_gw (nd_srv n))"
  have "node_inv digest n" using node_reach_inv [OF assms(3)] node_start_inv [OF assms(1,2)] by simp
  then obtain m where m: "ga_metricsReg (nd_grpc n) = Some m" "metrics_ok ?l m" by (rule node_invE)
  have ks: "enumerates ks (mt_denyByReason m)" by (rule assms(5) [OF m(1)])
  have count: "(case mt_denyByReason m reason of Some c \<Rightarrow> c | None \<Rightarrow> 0) = int64_wrap (int (denied_for reason ?l))" for reason
    using m(2) by (simp add: metrics_ok_def deny_count_def)
  have "the (mt_denyByReason m reason) = int64_wrap (int (denied_for reason ?l))" if "reason \<in> set ks" for reason
    using that ks count [of reason] by (auto simp: enumerates_def split: option.splits)
  then have deny: "concat (map (\<lambda>reason. deny_line quote reason (the (mt_denyByReason m reason))) ks) =
      concat (map (\<lambda>reason. deny_line quote reason (int64_wrap (int (denied_for reason ?l)))) ks)"
    by (metis (mono_tags, lifting) map_eq_conv)
  have "reason \<in> set ks" if "int64_wrap (int (denied_for reason ?l)) \<noteq> 0" for reason
    using that ks count [of reason] by (auto simp: enumerates_def split: option.splits)
  with ks m assms(4) deny show ?thesis
    by (intro exI [of _ "mt_rateLimitDenyTotal m"])
      (auto simp: node_scrape_def metrics_page_def readGauge_def metrics_ok_def enumerates_def Let_def split: prod.split)
qed

subsection \<open>The end of a run\<close>

text \<open>
  \<open>Server.Shutdown\<close>: the graceful stop drains in time, or the context ends first and the server
  is stopped.
\<close>

datatype drain = Drained | TimedOut string

datatype server_op = GracefulStopGrpc | StopGrpc | ShutdownHttp | ShutdownMetrics

definition grpc_Shutdown :: "drain \<Rightarrow> string option \<times> server_op list" where
  "grpc_Shutdown d = (case d of Drained \<Rightarrow> (None, [GracefulStopGrpc]) | TimedOut err \<Rightarrow> (Some err, [GracefulStopGrpc, StopGrpc]))"

datatype run_event = ContextDone | ServerExit "string option" bool \<comment> \<open>the error, and whether it is \<open>ErrServerClosed\<close>\<close>

text \<open>The last select of \<open>app.Run\<close>: what it returns and which servers it stops, in order.\<close>

definition run_end :: "drain \<Rightarrow> string option \<Rightarrow> run_event \<Rightarrow> string option \<times> server_op list" where
  "run_end grpc httpErr ev =
     (case ev of
        ContextDone \<Rightarrow>
          (case grpc_Shutdown grpc of
             (Some err, ops) \<Rightarrow> (Some err, ops)
           | (None, ops) \<Rightarrow> (httpErr, ops @ [ShutdownHttp]))
      | ServerExit err srvClosed \<Rightarrow>
          (if err = None \<or> srvClosed then None else err, snd (grpc_Shutdown grpc) @ [ShutdownHttp]))"

text \<open>
  Every end of a run stops the gRPC server; the HTTP server is stopped too, except when a
  cancelled run could not drain its gRPC calls in time.
\<close>

lemma run_end_stops:
  "GracefulStopGrpc \<in> set (snd (run_end d h ev))"
  "ShutdownHttp \<in> set (snd (run_end d h ev)) \<longleftrightarrow> \<not> (ev = ContextDone \<and> d \<noteq> Drained)"
  by (cases ev; cases d; simp add: run_end_def grpc_Shutdown_def)+

text \<open>
  The listener of the metrics page: what it logs, given how \<open>ListenAndServe\<close> ended (the error, and
  whether it is \<open>ErrServerClosed\<close>), and its shutdown, which waits for the context of the run.
\<close>

definition metrics_listener :: "log_handler \<Rightarrow> Config \<Rightarrow> string option \<times> bool \<Rightarrow> (log_level \<times> string) list" where
  "metrics_listener h cfg res =
     (if nw_MetricsAddr (cfg_Network cfg) = '''' then []
      else logger_Info h ''serving /metrics'' @
        (case res of (err, srvClosed) \<Rightarrow> if err \<noteq> None \<and> \<not> srvClosed then logger_Error h ''metrics server error'' else []))"

definition metrics_shutdown :: "Config \<Rightarrow> run_event \<Rightarrow> server_op list" where
  "metrics_shutdown cfg ev =
     (if nw_MetricsAddr (cfg_Network cfg) = '''' then []
      else case ev of ContextDone \<Rightarrow> [ShutdownMetrics] | ServerExit err srvClosed \<Rightarrow> [])"

text \<open>
  A failure of the metrics listener is logged at every level and does not end the run. When another
  server exits by itself the metrics server is left running, while a cancelled run stops it.
\<close>

lemma metrics_listener_error:
  "nw_MetricsAddr (cfg_Network cfg) \<noteq> '''' \<Longrightarrow>
   (LevelError, ''metrics server error'') \<in> set (metrics_listener h cfg (err, srvClosed)) \<longleftrightarrow> err \<noteq> None \<and> \<not> srvClosed"
  by (cases "handler_level h") (auto simp: metrics_listener_def logger_log_def less_eq_log_level_def)

lemma metrics_left_running:
  assumes "nw_MetricsAddr (cfg_Network cfg) \<noteq> ''''"
  shows "ShutdownMetrics \<in> set (snd (run_end d h ev) @ metrics_shutdown cfg ev) \<longleftrightarrow> ev = ContextDone"
  using assms by (cases ev; cases d) (simp_all add: run_end_def grpc_Shutdown_def metrics_shutdown_def)

end
