(* ===== verification/Testcerts.thy ===== *)
theory Testcerts
  imports Platform
begin

text \<open>
  The certificates of the integration tests (\<open>internal/testcerts/testcerts.go\<close>): \<open>Generate\<close> makes a
  certificate authority and a leaf for \<open>localhost\<close> and writes three PEM files. Keys,
  certificates, PEM and the file system are parameters (\<open>cert_lib\<close>); \<open>t.Fatalf\<close> is an
  error value. The files are what \<open>tlsutil\<close> loads: under the laws of the libraries a node
  that is configured with them serves and dials with mutual TLS.
\<close>

subsection \<open>Templates\<close>

datatype key_usage = KeyUsageDigitalSignature | KeyUsageCertSign | KeyUsageCRLSign
datatype ext_key_usage = ExtKeyUsageServerAuth | ExtKeyUsageClientAuth

record Certificate =
  ct_SerialNumber :: int
  ct_CommonName :: string
  ct_NotBefore :: int
  ct_NotAfter :: int
  ct_IsCA :: bool
  ct_KeyUsage :: "key_usage list"
  ct_ExtKeyUsage :: "ext_key_usage list"
  ct_BasicConstraintsValid :: bool
  ct_DNSNames :: "string list"
  ct_IPAddresses :: "string list"

definition caTemplate :: "(nat \<Rightarrow> int) \<Rightarrow> Certificate" where
  "caTemplate clk =
     \<lparr>ct_SerialNumber = 1, ct_CommonName = ''mrmi-test-ca'', ct_NotBefore = clk 0 - minute, ct_NotAfter = clk 1 + hour,
      ct_IsCA = True, ct_KeyUsage = [KeyUsageCertSign, KeyUsageCRLSign], ct_ExtKeyUsage = [], ct_BasicConstraintsValid = True,
      ct_DNSNames = [], ct_IPAddresses = []\<rparr>"

definition leafTemplate :: "(nat \<Rightarrow> int) \<Rightarrow> Certificate" where
  "leafTemplate clk =
     \<lparr>ct_SerialNumber = 2, ct_CommonName = ''mrmi-test-node'', ct_NotBefore = clk 2 - minute, ct_NotAfter = clk 3 + hour,
      ct_IsCA = False, ct_KeyUsage = [KeyUsageDigitalSignature],
      ct_ExtKeyUsage = [ExtKeyUsageServerAuth, ExtKeyUsageClientAuth], ct_BasicConstraintsValid = False,
      ct_DNSNames = [''localhost''], ct_IPAddresses = [''127.0.0.1'', ''::1'']\<rparr>"

subsection \<open>The libraries\<close>

record cert_lib =
  cl_GenerateKey :: "nat \<Rightarrow> string + string" \<comment> \<open>the first and the second key\<close>
  cl_PublicKey :: "string \<Rightarrow> string"
  cl_CreateCertificate :: "Certificate \<Rightarrow> Certificate \<Rightarrow> string \<Rightarrow> string \<Rightarrow> string + string"
  cl_ParseCertificate :: "string \<Rightarrow> string + Certificate"
  cl_MarshalECPrivateKey :: "string \<Rightarrow> string + string"
  cl_Create :: "string \<Rightarrow> string option" \<comment> \<open>the error of \<open>os.Create\<close>\<close>
  cl_Encode :: "string \<Rightarrow> string option" \<comment> \<open>the error of writing the block to the file\<close>
  cl_pem :: "string \<Rightarrow> string \<Rightarrow> string"
  cl_Join :: "string \<Rightarrow> string \<Rightarrow> string"

datatype fatal =
    FatalCAKey string | FatalCACert string | FatalParseCA string | FatalLeafKey string | FatalLeafCert string
  | FatalCreate string string | FatalEncode string string | FatalMarshalKey string

type_synonym files = "string \<rightharpoonup> string"

definition writePEM :: "cert_lib \<Rightarrow> string \<Rightarrow> string \<Rightarrow> string \<Rightarrow> files \<Rightarrow> fatal + files" where
  "writePEM L path typ der fs =
     (case cl_Create L path of
        Some err \<Rightarrow> Inl (FatalCreate path err)
      | None \<Rightarrow>
          (case cl_Encode L path of
             Some err \<Rightarrow> Inl (FatalEncode path err)
           | None \<Rightarrow> Inr (fs(path \<mapsto> cl_pem L typ der))))"

definition writeKeyPEM :: "cert_lib \<Rightarrow> string \<Rightarrow> string \<Rightarrow> files \<Rightarrow> fatal + files" where
  "writeKeyPEM L path key fs =
     (case cl_MarshalECPrivateKey L key of
        Inl err \<Rightarrow> Inl (FatalMarshalKey err)
      | Inr der \<Rightarrow> writePEM L path ''EC PRIVATE KEY'' der fs)"

definition write_all :: "cert_lib \<Rightarrow> string \<Rightarrow> string \<Rightarrow> string \<Rightarrow> string \<Rightarrow> files \<Rightarrow> fatal + (string \<times> string \<times> string) \<times> files" where
  "write_all L dir leafDER caDER leafKey fs =
     (let certPath = cl_Join L dir ''cert.pem''; keyPath = cl_Join L dir ''key.pem''; caPath = cl_Join L dir ''ca.pem'' in
      case writePEM L certPath ''CERTIFICATE'' leafDER fs of
        Inl e \<Rightarrow> Inl e
      | Inr fs1 \<Rightarrow>
          (case writePEM L caPath ''CERTIFICATE'' caDER fs1 of
             Inl e \<Rightarrow> Inl e
           | Inr fs2 \<Rightarrow> map_sum id (\<lambda>fs3. ((certPath, keyPath, caPath), fs3)) (writeKeyPEM L keyPath leafKey fs2)))"

definition Generate :: "cert_lib \<Rightarrow> (nat \<Rightarrow> int) \<Rightarrow> string \<Rightarrow> files \<Rightarrow> fatal + (string \<times> string \<times> string) \<times> files" where
  "Generate L clk dir fs =
     (case cl_GenerateKey L 0 of
        Inl err \<Rightarrow> Inl (FatalCAKey err)
      | Inr caKey \<Rightarrow>
        (case cl_CreateCertificate L (caTemplate clk) (caTemplate clk) (cl_PublicKey L caKey) caKey of
           Inl err \<Rightarrow> Inl (FatalCACert err)
         | Inr caDER \<Rightarrow>
           (case cl_ParseCertificate L caDER of
              Inl err \<Rightarrow> Inl (FatalParseCA err)
            | Inr caCert \<Rightarrow>
              (case cl_GenerateKey L 1 of
                 Inl err \<Rightarrow> Inl (FatalLeafKey err)
               | Inr leafKey \<Rightarrow>
                 (case cl_CreateCertificate L (leafTemplate clk) caCert (cl_PublicKey L leafKey) caKey of
                    Inl err \<Rightarrow> Inl (FatalLeafCert err)
                  | Inr leafDER \<Rightarrow> write_all L dir leafDER caDER leafKey fs)))))"

subsection \<open>The files load\<close>

text \<open>
  What the loader of a node relies on: the pair of a certificate and the key it was issued for
  loads from their PEM texts, and the PEM text of a certificate holds that certificate.
\<close>

definition loads :: "cert_lib \<Rightarrow> files \<Rightarrow> tls_lib \<Rightarrow> bool" where
  "loads L fs T \<longleftrightarrow>
     (\<forall>path. tl_ReadFile T path = (case fs path of None \<Rightarrow> Inl ''no such file'' | Some c \<Rightarrow> Inr c)) \<and>
     (\<forall>der. tl_CertsFromPEM T (cl_pem L ''CERTIFICATE'' der) = [der]) \<and>
     (\<forall>t parent key signer der kder cert kpath.
        cl_CreateCertificate L t parent (cl_PublicKey L key) signer = Inr der \<and> cl_MarshalECPrivateKey L key = Inr kder \<and>
        fs cert = Some (cl_pem L ''CERTIFICATE'' der) \<and> fs kpath = Some (cl_pem L ''EC PRIVATE KEY'' kder) \<longrightarrow>
        tl_LoadX509KeyPair T cert kpath = Inr der)"

definition node_tls :: "string \<times> string \<times> string \<Rightarrow> TLSConfig" where
  "node_tls paths = (case paths of (certPath, keyPath, caPath) \<Rightarrow>
     \<lparr>tls_Cert = certPath, tls_Key = keyPath, tls_CA = caPath, tls_Insecure = False\<rparr>)"

lemma writePEM_ok: "writePEM L path typ der fs = Inr fs' \<Longrightarrow> fs' = fs(path \<mapsto> cl_pem L typ der)"
  by (auto simp: writePEM_def split: option.splits)

lemma map_sum_InrD: "map_sum id f x = Inr y \<Longrightarrow> \<exists>z. x = Inr z \<and> y = f z"
  by (cases x) auto

lemma Generate_files:
  assumes "Generate L clk dir fs = Inr (paths, fs')"
  obtains caKey leafKey caDER leafDER caCert kder where
    "paths = (cl_Join L dir ''cert.pem'', cl_Join L dir ''key.pem'', cl_Join L dir ''ca.pem'')"
    "cl_CreateCertificate L (leafTemplate clk) caCert (cl_PublicKey L leafKey) caKey = Inr leafDER"
    "cl_CreateCertificate L (caTemplate clk) (caTemplate clk) (cl_PublicKey L caKey) caKey = Inr caDER"
    "cl_ParseCertificate L caDER = Inr caCert" "cl_MarshalECPrivateKey L leafKey = Inr kder"
    "fs' = fs(cl_Join L dir ''cert.pem'' \<mapsto> cl_pem L ''CERTIFICATE'' leafDER, cl_Join L dir ''ca.pem'' \<mapsto> cl_pem L ''CERTIFICATE'' caDER,
       cl_Join L dir ''key.pem'' \<mapsto> cl_pem L ''EC PRIVATE KEY'' kder)"
  using assms
  by (auto simp: Generate_def write_all_def writeKeyPEM_def Let_def dest!: map_sum_InrD writePEM_ok split: sum.splits)

text \<open>
  Generated certificates give mutual TLS: a node configured with the three files serves with the
  leaf certificate, demands client certificates of the generated authority, and dials
  with the same certificate trusting the same authority.
\<close>

theorem generated_certificates_load:
  assumes "Generate L clk dir fs = Inr (paths, fs')" "loads L fs' T"
    and "distinct [cl_Join L dir ''cert.pem'', cl_Join L dir ''key.pem'', cl_Join L dir ''ca.pem'', '''']"
  shows "\<exists>leaf ca server client. LoadServerTLS T (node_tls paths) = Inr (Some server) \<and>
    LoadClientTLS T (node_tls paths) = Inr (Some client) \<and> tc_ClientAuth server = RequireAndVerifyClientCert \<and>
    tc_Certificates server = [leaf] \<and> tc_ClientCAs server = Some [ca] \<and>
    tc_Certificates client = [leaf] \<and> tc_RootCAs client = Some [ca]"
proof -
  obtain caKey leafKey caDER leafDER caCert kder where g:
    "paths = (cl_Join L dir ''cert.pem'', cl_Join L dir ''key.pem'', cl_Join L dir ''ca.pem'')"
    "cl_CreateCertificate L (leafTemplate clk) caCert (cl_PublicKey L leafKey) caKey = Inr leafDER"
    "cl_MarshalECPrivateKey L leafKey = Inr kder"
    "fs' = fs(cl_Join L dir ''cert.pem'' \<mapsto> cl_pem L ''CERTIFICATE'' leafDER, cl_Join L dir ''ca.pem'' \<mapsto> cl_pem L ''CERTIFICATE'' caDER,
       cl_Join L dir ''key.pem'' \<mapsto> cl_pem L ''EC PRIVATE KEY'' kder)"
    by (rule Generate_files [OF assms(1)])
  have f: "fs' (cl_Join L dir ''cert.pem'') = Some (cl_pem L ''CERTIFICATE'' leafDER)"
    "fs' (cl_Join L dir ''key.pem'') = Some (cl_pem L ''EC PRIVATE KEY'' kder)"
    "fs' (cl_Join L dir ''ca.pem'') = Some (cl_pem L ''CERTIFICATE'' caDER)"
    using assms(3) by (auto simp: g(4))
  have "tl_LoadX509KeyPair T (cl_Join L dir ''cert.pem'') (cl_Join L dir ''key.pem'') = Inr leafDER"
    using assms(2) g(2,3) f(1,2) unfolding loads_def by metis
  moreover have "tl_ReadFile T (cl_Join L dir ''ca.pem'') = Inr (cl_pem L ''CERTIFICATE'' caDER)"
    "tl_CertsFromPEM T (cl_pem L ''CERTIFICATE'' caDER) = [caDER]"
    using assms(2) f(3) by (simp_all add: loads_def)
  ultimately show ?thesis
    using assms(3)
    by (auto simp: g(1) node_tls_def LoadServerTLS_def LoadClientTLS_def buildTLSConfig_def Let_def)
qed

end
