(* ===== verification/Spec2Isabelle.thy ===== *)
theory Spec2Isabelle
  imports Gossip Webhook Connpool Store_Redis Http_Config Cli_Token Gateway_Conc Races Builders Wire
    Lifecycle Testcerts
begin

text \<open>
  MRMI Gateway: a verification of the node program under \<open>src/\<close>.

  \<^bold>\<open>The program.\<close> A node accepts envelopes over HTTP and gRPC, decides on each with the policy
  of its configuration, records the decision in a hash-chained audit log and forwards what
  is allowed to the peers of the recipient's region. Around this core it keeps a
  deduplication index, a revocation list, a dead-letter queue, a transit cache, session
  sequence numbers, one-time connection tokens, a registry of peers and of application users,
  and background loops that purge, retry, reload and gossip. Requests and loops share these
  components; each is guarded by its own lock in the source, so a run is an interleaving of
  whole operations, and the step relations of \<open>Gateway_Runs\<close>, \<open>Connpool\<close> and \<open>Node\<close> are
  such interleavings. Where one request takes several locks in turn it is split further:
  \<open>Gateway_Conc\<close> interleaves the critical sections of \<open>SendEnvelope\<close>, and \<open>Races\<close> those of a
  connect call and of the replay of a dead letter.

  \<^bold>\<open>The theories\<close>, in the order of the imports, with the code they translate
  (paths relative to \<open>src/internal\<close>).
    \<^item> \<open>Prelude\<close>: Go integers, durations, strings, \<open>TrimSpace\<close>, \<open>EqualFold\<close>, decimal printing,
      map iteration (\<open>enumerates\<close>); \<open>Json\<close>, \<open>Codec\<close>, \<open>Json_Parse\<close>: the part of
      \<open>encoding/json\<close>, \<open>encoding/base64\<close> and \<open>strconv\<close> that the code uses; \<open>Float64\<close>: the product
      of \<open>float64\<close> values (rounded to nearest, ties to even) and the conversion to \<open>int64\<close>.
    \<^item> \<open>Config\<close>: \<open>config/config.go\<close>, \<open>config/presets.go\<close>; \<open>Config_Json\<close>: the decoding of its structs
      from JSON; \<open>Schema\<close>: \<open>schema/*.go\<close>.
    \<^item> \<open>Crl\<close>, \<open>Dedup\<close>, \<open>Audit_Log\<close>, \<open>Policy\<close>, \<open>Session\<close>, \<open>Token\<close>, \<open>Connect\<close>, \<open>Peers\<close>, \<open>Inbox\<close>,
      \<open>Ratelimit\<close>, \<open>Discovery\<close>, \<open>Registry\<close>, \<open>Transit\<close>, \<open>Delivery\<close> (retry and dead letters),
      \<open>Forwarder\<close>, \<open>Identity\<close>, \<open>Metrics\<close>: the component of the same name, its state as a
      record, one definition per exported operation.
    \<^item> \<open>Envelope_Types\<close>, \<open>Gateway\<close>, \<open>Gateway_Runs\<close>: \<open>core/gateway.go\<close>, \<open>SendEnvelope\<close> with
      every branch, and runs that interleave it with the other operations on its state;
      \<open>Gateway_Conc\<close>: the handler as a sequence of critical sections, run by any number of calls at
      once, and the theorem that the sections alone are the handler.
    \<^item> \<open>Adapter\<close>, \<open>Grpc\<close>, \<open>Client\<close>, \<open>Connpool\<close>, \<open>Wire\<close>: \<open>transport/grpc\<close>; the service calls, the
      handler table, the client, the connection pool with its concurrent callers, the messages
      in the bytes of the JSON codec; \<open>Races\<close>: \<open>Connect\<close> and the replay of \<open>server/http.go\<close> split at
      their critical sections.
    \<^item> \<open>Http_Auth\<close>, \<open>Http_Types\<close>, \<open>Http\<close>, \<open>Http_Props\<close>: \<open>server/http.go\<close>; one
      definition per route over the state of the node, dispatched by \<open>ServeHTTP\<close>; \<open>Http_Json\<close>: the
      JSON text of answers; \<open>Config_Schema\<close>: the published configuration schema; \<open>Http_Bytes\<close>: the
      table of routes with those of the dashboard, request bodies, answers and stream frames as
      bytes; \<open>Http_Config\<close>: a whole server on bytes, and configurations saved through it.
    \<^item> \<open>Dummy\<close>, \<open>Hotreload\<close>, \<open>Webhook\<close>: the packages of those names.
    \<^item> \<open>Store\<close>, \<open>Store_Bbolt\<close>, \<open>Store_Redis\<close>: \<open>store/store.go\<close> with its rows, interface and
      specification, and the backends \<open>store/bbolt\<close> and \<open>store/redis\<close> over their client libraries.
    \<^item> \<open>Audit_File\<close>: \<open>WriteJSON\<close> and \<open>VerifyFile\<close> of \<open>audit/log.go\<close> on the bytes of a file;
      \<open>Builders\<close>: \<open>schema/builders\<close>; \<open>Platform\<close>: \<open>tlsutil\<close>, \<open>logger\<close>, \<open>dnstxt\<close>
      and the warnings at the start of a node; \<open>Testcerts\<close>: \<open>testcerts\<close>, whose files \<open>tlsutil\<close> loads.
    \<^item> \<open>Cli\<close>: \<open>src/cmd/mrmi\<close> and the start of \<open>src/cmd/mrmi-gateway\<close>; \<open>Cli_Props\<close>: the tool against a
      node, a published record and an exported log; \<open>Cli_Token\<close>: tokens issued by the tool and used
      with it.
    \<^item> \<open>Peering\<close>: two nodes joined by the transport closure of \<open>app/app.go\<close>; \<open>Node\<close>,
      \<open>Node_Props\<close>: \<open>app.Run\<close>, its callbacks and loops, as a step relation on the state of a
      running node; \<open>Gossip\<close>: exchanges between the nodes of a cluster; \<open>Lifecycle\<close>: TLS at
      start, the metrics page and its listener, the gRPC server object and the end of \<open>app.Run\<close>.

  \<^bold>\<open>State and errors.\<close> A Go struct is a record with the fields of the source, prefixed
  (\<open>gw_\<close> gateway, \<open>cfg_\<close> configuration, \<open>ev_\<close> envelope, \<open>rs_\<close> result, \<open>sv_\<close> server,
  \<open>nd_\<close> node). An operation takes and returns the record. An error return is the left side
  of a sum with one constructor per error of the source; an HTTP answer is a record with
  its status. Sequence numbers, hashes and trust tiers keep their width as words; Go's
  \<open>time.Duration\<close> and \<open>int64\<close> are integers with \<open>int64_wrap\<close> where the code can overflow.

  \<^bold>\<open>Interfaces.\<close> Where one part relies on another the contract is a locale, interpreted on
  the definitions of the provider: \<open>hash_chain\<close> for the audit log, \<open>dedup_contract\<close> for the
  deduplication index, \<open>custody\<close> for the forwarder with its dead-letter queue and transit
  cache, \<open>one_time_tokens\<close> for the token store and for the user registry, \<open>node_store\<close> for the
  bbolt and for the Redis backend, \<open>json_codec\<close> for every struct that is read from JSON (what is
  written is read back), \<open>thread_inv\<close> for what a section of a request keeps while others run.

  \<^bold>\<open>Parameters.\<close> Code outside the repository is an argument of the definitions, and what is
  relied on is a premise of the lemma that needs it: the SHA-256 digest (injectivity on the
  encodings compared), Ed25519 (verification accepts what was signed), the JWT library
  (\<open>jwt_laws\<close>), HMAC, the time zone database,
  UUIDs and random bytes, the TOML decoder and the file system, the gRPC call and the dial
  of a peer, the bbolt and Redis clients, X.509, PEM and DNS, \<open>time.ParseDuration\<close>, the texts of
  library errors, the file server of the dashboard, the environment read at start. Clocks are
  functions or arguments; the order in which Go iterates a map is a list that enumerates it,
  and results hold for every such order.

  \<^bold>\<open>Floating point.\<close> The delays of \<open>SendWithRetry\<close> are computed with \<open>round64\<close>, the rounding of
  \<open>float64\<close>. Go leaves the conversion of a product outside \<open>int64\<close> to the implementation: the model takes
  it as the argument \<open>ovf\<close>, and \<open>amd64\<close> is the one of that platform. The rate limiter and the tool take
  the rounding as an argument with the law \<open>float64_rounding\<close>, which \<open>round64\<close> satisfies; infinities and
  NaN are not values of the model, so the multiplier of a retry policy is a finite number.

  \<^bold>\<open>Bounds and fuel.\<close> The loops of the source recurse over lists or a counter and are total.
  \<open>SendWithRetry\<close> recurses over the attempts left. The JSON parser takes fuel, one more than
  twice the length of its input: every call that recurses has consumed a character or comes
  right after one that has, and \<open>Json_Parse\<close> shows that more fuel never changes its answer. A request
  of \<open>Gateway_Conc\<close> returns after at most nine of its sections, whatever the others do.

  \<^bold>\<open>What is shown.\<close>
    \<^item> The gateway: which decision an envelope gets, at most one ALLOW per key while it is
      live, every decision recorded in a log that verifies and is determined by its root,
      custody of an allowed envelope (delivered, buffered or dead-lettered), revoked senders
      never allowed, forwarding that ends within its attempts, the ISO 20022 windows and
      deduplication floor; under concurrent requests still one forward per key, a log
      that verifies and has every answer once, and nothing forwarded for a revoked sender.
    \<^item> The front ends: HTTP requests refine runs of the gateway, which role each route needs,
      gRPC calls through the encoded bytes run the service operation, the receipt of a peer is
      its audit root.
    \<^item> The node: metrics equal the audit log in every reachable state, transit ticks lose no
      envelope, reload is all or nothing, tokens are redeemed once by calls that do not
      overlap (and twice by two that do), the connection pool leaks no connection, gossip reaches
      the peers.
    \<^item> Representations: deduplication shards refine one map, the two stores refine one
      specification and agree with each other, signed bytes and stored rows determine what was
      encoded.
    \<^item> The bytes of HTTP: no request matches two routes, a posted document reaches its handler,
      a client reads back the event stream, every answer has the shape its status says, a posted configuration is the one the engine gets, and
      every request on bytes is a run of the gateway.
    \<^item> The operator tool: what a node serves, publishes in DNS or exports passes the
      verification of \<open>mrmi audit verify\<close>; the token it issues opens the node until it expires;
      uptimes are printed exactly.

  \<^bold>\<open>Not modelled.\<close> The files of the dashboard, content type headers, log lines other than the
  warnings at the start, the sockets the servers listen on, the alignment by \<open>tabwriter\<close>, the
  texts of decoding errors. In \<open>Gateway_Conc\<close> a call of the forwarder is one section, so the waits
  between its attempts are not points of interleaving. Folding of letters is that of ASCII, also
  where \<open>strings.EqualFold\<close>, \<open>ToLower\<close> and \<open>ToUpper\<close> fold other letters of Unicode. An allocation that
  panics for its size (a padding bucket close to the largest \<open>int\<close>) is not an outcome of the model; the
  sum that wraps before it is. What is left of the source are package
  clauses, imports, interface declarations and constructors that only store their arguments.
\<close>

section \<open>The gateway\<close>

text \<open>
  C1. The decision on a request with an idempotency key that is not dummy traffic: DUPLICATE
  exactly when the key is live in the deduplication index, otherwise ALLOW exactly when the
  declarative policy admits the normalised envelope, and DENY in every other case.
\<close>

theorem gateway_decision:
  assumes "ev_IdempotencyKey env \<noteq> ''''" "\<not> ev_IsDummy env"
  shows "\<exists>r. fst (SendEnvelope digest clk c fwd env g s) = Inr r \<and>
    rs_Decision r =
      (if is_duplicate g (clk 0) (ev_IdempotencyKey env) then DecisionDuplicate
       else if policy_allows (gw_policyCfg g) (gw_crl g) (request_of (norm_env env)) then DecisionAllow
       else DecisionDeny)"
  using assms by (rule SendEnvelope_decision)

theorem gateway_decision_witness:
  "ev_IdempotencyKey demo_envelope \<noteq> '''' \<and> \<not> ev_IsDummy demo_envelope \<and>
   (\<exists>r. fst (SendEnvelope (\<lambda>x. x) (\<lambda>_. 0) False (None :: (unit, unit) forward_fun option)
           demo_envelope demo_gateway ()) = Inr r \<and> rs_Decision r = DecisionAllow)"
  using gateway_decision [of demo_envelope "\<lambda>x. x" "\<lambda>_. 0" False "None :: (unit, unit) forward_fun option"
      demo_gateway "()"] demo_fresh demo_allowed
  by (simp add: demo_envelope_def)

text \<open>
  C2. At most once. When a request was decided and not as a duplicate, then after any run of
  the node (other requests, reloads, revocations, purges of the index) whose clock readings
  stay within the time to live of its key, a request with the same key is answered
  DUPLICATE: it only appends to the audit log, the forwarder is not called and no callback
  but the duplicate one runs.
\<close>

theorem at_most_once:
  assumes "gw_inv digest g" "SendEnvelope digest clk c fwd env g s = (Inr r, g1, s1, evs)"
    and "\<not> ev_IsDummy env" "rs_Decision r \<noteq> DecisionDuplicate"
    and "gw_run digest fwd (g1, s1) ls (g2, s2)"
    and "\<forall>l \<in> set ls. \<forall>t. label_time l = Some t \<longrightarrow> t < clk 0 + key_ttl g (norm_env env)"
    and "ev_IdempotencyKey env' = ev_IdempotencyKey env" "\<not> ev_IsDummy env'"
    and "clk' 0 < clk 0 + key_ttl g (norm_env env)"
  shows "\<exists>r' a. SendEnvelope digest clk' c' fwd env' g2 s2 =
      (Inr r', g2\<lparr>gw_audit := a\<rparr>, s2, if gw_onDuplicate g2 then [OnDuplicate] else []) \<and>
      rs_Decision r' = DecisionDuplicate"
proof -
  have key: "ev_IdempotencyKey env' \<noteq> ''''"
    using assms(2,7) by (auto simp: SendEnvelope_def split: if_splits)
  have "expiry (gw_dedup g2) (ev_IdempotencyKey env) = Some (clk 0 + key_ttl g (norm_env env))"
    using gw_run_live [OF assms(5)] SendEnvelope_inv [OF assms(1,2)]
      first_send_registers [OF assms(1-4)] assms(6) by simp
  then have "is_duplicate g2 (clk' 0) (ev_IdempotencyKey env')"
    using assms(7,9) by (auto simp: is_duplicate_def)
  from SendEnvelope_duplicate [where clk = clk', OF key assms(8) this] show ?thesis by metis
qed

theorem at_most_once_witness:
  "\<exists>r g1 s1 evs r' a.
     SendEnvelope (\<lambda>x. x) (\<lambda>_. 0) False (None :: (unit, unit) forward_fun option)
       demo_envelope demo_gateway () = (Inr r, g1, s1, evs) \<and> rs_Decision r \<noteq> DecisionDuplicate \<and>
     SendEnvelope (\<lambda>x. x) (\<lambda>_. 1) False (None :: (unit, unit) forward_fun option)
       demo_envelope g1 s1 =
         (Inr r', g1\<lparr>gw_audit := a\<rparr>, s1, if gw_onDuplicate g1 then [OnDuplicate] else []) \<and>
     rs_Decision r' = DecisionDuplicate"
proof -
  obtain r g1 s1 evs where S: "SendEnvelope (\<lambda>x. x) (\<lambda>_. 0) False (None :: (unit, unit) forward_fun option)
       demo_envelope demo_gateway () = (Inr r, g1, s1, evs)" "rs_Decision r = DecisionAllow"
    by (rule demo_send)
  have "(1 :: int) < 0 + key_ttl demo_gateway (norm_env demo_envelope)"
    by (simp add: key_ttl_def demo_gateway_def NewGateway_def dedup_New_def norm_env_def demo_envelope_def duration_defs)
  then have "\<exists>r' a. SendEnvelope (\<lambda>x. x) (\<lambda>_. 1) False (None :: (unit, unit) forward_fun option) demo_envelope g1 s1 =
      (Inr r', g1\<lparr>gw_audit := a\<rparr>, s1, if gw_onDuplicate g1 then [OnDuplicate] else []) \<and>
      rs_Decision r' = DecisionDuplicate"
    by (intro at_most_once [OF demo_inv S(1) _ _ run_nil]) (simp_all add: S demo_envelope_def)
  moreover have "rs_Decision r \<noteq> DecisionDuplicate" by (simp add: S(2))
  ultimately show ?thesis using S(1) by blast
qed

text \<open>
  In every state a node reaches, whatever the sequence of requests, reloads, revocations
  and purges, the audit log passes its own verification, contains the earlier log as a
  prefix (nothing is removed or rewritten), and the engine's configuration is valid.
\<close>

theorem run_log_verifies:
  assumes "gw_run digest fwd (g, s) ls (g', s')" "gw_inv digest g"
  shows "Verify digest (gw_audit g') = None \<and>
    prefix (lg_entries (gw_audit g)) (lg_entries (gw_audit g')) \<and> config_ok (gw_policyCfg g')"
proof -
  have "gw_inv digest g'" using gw_run_inv [OF assms(1)] assms(2) by simp
  then show ?thesis using gw_run_prefix [OF assms(1)] by (simp add: gw_inv_def log_inv_def)
qed

theorem run_log_verifies_witness:
  "\<exists>ls g' s'. gw_run (\<lambda>x. x) (None :: (unit, unit) forward_fun option) (demo_gateway, ()) ls (g', s') \<and>
     ls \<noteq> [] \<and> Verify (\<lambda>x. x) (gw_audit g') = None \<and>
     prefix (lg_entries (gw_audit demo_gateway)) (lg_entries (gw_audit g')) \<and> config_ok (gw_policyCfg g')"
proof -
  obtain r g1 s1 evs where S: "SendEnvelope (\<lambda>x. x) (\<lambda>_. 0) False (None :: (unit, unit) forward_fun option)
       demo_envelope demo_gateway () = (Inr r, g1, s1, evs)"
    by (rule demo_send)
  have run: "gw_run (\<lambda>x. x) (None :: (unit, unit) forward_fun option) (demo_gateway, ())
      ([] @ [LSend (\<lambda>_. 0) demo_envelope (Inr r) evs]) (g1, s1)"
    by (rule run_snoc [OF run_nil step_send [OF S]])
  show ?thesis using run_log_verifies [OF run demo_inv] run by blast
qed

text \<open>
  C10. Once two signers have revoked a node, then after any further run of the gateway a
  request that names it as sender is never allowed: it is denied or a duplicate.
\<close>

theorem revoked_never_allowed:
  assumes "gw_inv digest g" "gw_crl g = Some cs" "IsRevoked cs n"
    and "gw_run digest fwd (g, s) ls (g', s')"
    and "ev_IdempotencyKey env \<noteq> ''''" "\<not> ev_IsDummy env" "ev_SenderNodeID env = n"
  shows "\<exists>r. fst (SendEnvelope digest clk c fwd env g' s') = Inr r \<and>
    rs_Decision r \<in> {DecisionDeny, DecisionDuplicate}"
proof -
  obtain cs' where "gw_crl g' = Some cs'" "IsRevoked cs' n"
    using gw_run_revoked [OF assms(4)] assms(1-3) by auto
  then have "\<not> policy_allows (gw_policyCfg g') (gw_crl g') (request_of (norm_env env))"
    using assms(7) by (auto simp: policy_allows_def request_of_def norm_env_def)
  then show ?thesis using SendEnvelope_decision [OF assms(5,6), of digest clk c fwd g' s'] by auto
qed

definition demo_revoked :: gateway where
  "demo_revoked = demo_gateway\<lparr>gw_crl := Some (Revoke 0 ''rs-node-01'' ''x'' ''s2'' (Revoke 0 ''rs-node-01'' ''x'' ''s1'' crl_New))\<rparr>"

theorem revoked_never_allowed_witness:
  "\<exists>r. fst (SendEnvelope (\<lambda>x. x) (\<lambda>_. 0) False (None :: (unit, unit) forward_fun option)
          demo_envelope demo_revoked ()) = Inr r \<and> rs_Decision r \<in> {DecisionDeny, DecisionDuplicate}"
proof (rule revoked_never_allowed [OF _ _ _ run_nil])
  show "gw_inv (\<lambda>x. x) demo_revoked" using demo_inv [of "\<lambda>x. x"] by (simp add: gw_inv_def demo_revoked_def)
  show "gw_crl demo_revoked = Some (Revoke 0 ''rs-node-01'' ''x'' ''s2'' (Revoke 0 ''rs-node-01'' ''x'' ''s1'' crl_New))"
    by (simp add: demo_revoked_def)
  show "IsRevoked (Revoke 0 ''rs-node-01'' ''x'' ''s2'' (Revoke 0 ''rs-node-01'' ''x'' ''s1'' crl_New)) ''rs-node-01''"
    by (simp add: IsRevoked_def Revoke_def crl_New_def Let_def)
qed (simp_all add: demo_envelope_def)

text \<open>
  C6. Custody. When the gateway allows an envelope and its jitter sleep is not interrupted,
  the forwarder of \<open>internal/delivery\<close> has handed the (padded) envelope to a candidate peer
  that acknowledged it with the reported root hash, or holds it in the dead-letter queue or
  the transit buffer, or the node has no peer for the recipient region.
\<close>

theorem allowed_envelope_custody:
  assumes "forwarder_inv f"
    and "SendEnvelope digest clk c (Some (forward_of ovf ll send cancelled fclk ks tord)) env g (f, w) =
           (Inr r, g', st', evs)"
    and "rs_Decision r = DecisionAllow" "\<not> ev_IsDummy env"
    and "applyJitter c (pf_TimingJitterMax (cfg_Profile (gw_cfg g)))"
    and "penv = applyPadding (norm_env env) (pf_PaddingBucket (cfg_Profile (gw_cfg g)))"
  shows "acked send ks penv (rs_PeerAuditRootHash r) st' \<or> retained penv st' \<or> no_peer ks penv (f, w)"
  using assms by (intro fc.allowed_custody [where s = "(f, w)" and env = env]) simp_all

theorem allowed_envelope_custody_witness:
  "\<exists>r g' st' evs.
     SendEnvelope (\<lambda>x. x) (\<lambda>_. 0) False
       (Some (forward_of amd64 (\<lambda>_. None) (\<lambda>addr env w. ((''h'', None), w)) (\<lambda>_ _. None) (\<lambda>_ _. 0) [''RU''] (\<lambda>_. [])))
       demo_envelope demo_gateway (demo_forwarder, ()) = (Inr r, g', st', evs) \<and>
     (acked (\<lambda>addr env w. ((''h'', None), w)) [''RU''] demo_padded (rs_PeerAuditRootHash r) st' \<or>
      retained demo_padded st')"
proof -
  let ?F = "Some (forward_of amd64 (\<lambda>_. None) (\<lambda>addr env w. ((''h'', None), w)) (\<lambda>_ _. None) (\<lambda>_ _. 0) [''RU''] (\<lambda>_. []))"
  obtain r g1 s1 evs where S: "SendEnvelope (\<lambda>x. x) (\<lambda>_. 0) False ?F demo_envelope demo_gateway (demo_forwarder, ()) =
      (Inr r, g1, s1, evs)" "rs_Decision r = DecisionAllow"
    by (rule demo_send)
  have "forwarder_inv demo_forwarder"
    by (simp add: forwarder_inv_def demo_forwarder_def NewForwarder_def DefaultRetryPolicy_def)
  moreover have "\<not> ev_IsDummy demo_envelope" by (simp add: demo_envelope_def)
  moreover have "applyJitter False (pf_TimingJitterMax (cfg_Profile (gw_cfg demo_gateway)))"
    by (simp add: applyJitter_def)
  ultimately show ?thesis
    using allowed_envelope_custody [OF _ S _ _ demo_padded_def] S(1) demo_routable [of "()"] by blast
qed

text \<open>
  C17. The audit trail of a request. A request with an empty key appends nothing. Any other
  request appends exactly one entry with its decision and regions (ALLOW/DUMMY for dummy
  traffic), followed, only for an allowed ISO 20022 envelope, by at most one settlement
  finality entry; the root hash in the response is the root of the resulting log.
\<close>

theorem request_audit_trail:
  "\<exists>new. lg_entries (gw_audit (fst (snd (SendEnvelope digest clk c fwd env g s)))) = lg_entries (gw_audit g) @ new \<and>
    (case fst (SendEnvelope digest clk c fwd env g s) of
       Inl _ \<Rightarrow> new = [] \<and> ev_IdempotencyKey env = ''''
     | Inr r \<Rightarrow> \<exists>a fin. new = a # fin \<and>
         ae_Decision a = (if ev_IsDummy env then DecisionDummy else rs_Decision r) \<and>
         ae_SenderRegion a = ev_SenderRegion env \<and> ae_RecipientRegion a = ev_RecipientRegion env \<and>
         (fin = [] \<or> rs_Decision r = DecisionAllow \<and> Normalize (ev_SchemaType env) = Iso20022 \<and>
            (\<exists>f. fin = [f] \<and> ae_Decision f = DecisionSettlementFinal)) \<and>
         rs_AuditRootHash r = lg_root (gw_audit (fst (snd (SendEnvelope digest clk c fwd env g s)))))"
proof -
  obtain res g' s' evs where S: "SendEnvelope digest clk c fwd env g s = (res, g', s', evs)"
    by (metis prod_cases4)
  have "ev_IdempotencyKey env = ''''" if "res = Inl e" for e
    using S that by (cases rule: SendEnvelope_elim) auto
  then show ?thesis using SendEnvelope_audit [OF S] S by (cases res) auto
qed

text \<open>
  No effect without permission. A request that is not answered ALLOW leaves the state of
  the forwarder (peers, dead-letter queue, transit buffer) as it was, reports no peer hash,
  and triggers neither the inbox callback nor a webhook.
\<close>

theorem denied_has_no_effect:
  assumes "SendEnvelope digest clk c fwd env g s = (res, g', s', evs)"
    and "\<And>r. res = Inr r \<Longrightarrow> rs_Decision r \<noteq> DecisionAllow"
  shows "s' = s \<and> (\<forall>r. res = Inr r \<longrightarrow> rs_PeerAuditRootHash r = '''') \<and>
    (\<forall>e \<in> set evs. \<forall>x. e \<noteq> OnAllow x \<and> e \<noteq> NotifyAll x)"
  using assms(1)
proof (cases rule: SendEnvelope_elim)
  case (dummy r)
  then show ?thesis using assms(2) by auto
next
  case (allowed r)
  then show ?thesis using assms(2) by auto
qed auto

theorem denied_has_no_effect_witness:
  "\<exists>res g' s' evs.
     SendEnvelope (\<lambda>x. x) (\<lambda>_. 0) False (None :: (unit, nat) forward_fun option) demo_envelope demo_revoked 7 = (res, g', s', evs) \<and>
     s' = 7"
proof -
  obtain res g' s' evs where S: "SendEnvelope (\<lambda>x. x) (\<lambda>_. 0) False (None :: (unit, nat) forward_fun option)
      demo_envelope demo_revoked 7 = (res, g', s', evs)" by (metis prod_cases4)
  have "\<not> policy_allows (gw_policyCfg demo_revoked) (gw_crl demo_revoked) (request_of (norm_env demo_envelope))"
    by (simp add: policy_allows_def demo_revoked_def IsRevoked_def Revoke_def crl_New_def Let_def request_of_def
        norm_env_def demo_envelope_def)
  then have "rs_Decision r \<noteq> DecisionAllow" if "res = Inr r" for r
    using SendEnvelope_decision [of demo_envelope "\<lambda>x. x" "\<lambda>_. 0" False "None :: (unit, nat) forward_fun option" demo_revoked 7]
      S that by (auto simp: demo_envelope_def split: if_splits)
  then show ?thesis using denied_has_no_effect [OF S] S by auto
qed

end
